(* ===== verification/Prelude.thy ===== *)
theory Prelude
  imports Main "HOL-Library.Word"
begin

text \<open>
  What every component of the model shares: the machine integers of the C++ sources
  (\<open>uint8_t\<close> to \<open>uint64_t\<close>, \<open>uintptr_t\<close> on the 64-bit targets), the status codes of the
  public C interface, the packing of two 32-bit halves into one 64-bit word, checked
  arithmetic on addresses, and the generic facts on words, lists and counted sets that
  the component proofs use.
\<close>

unbundle bit_operations_syntax

section \<open>Machine integers\<close>

type_synonym u8 = "8 word"
type_synonym u16 = "16 word"
type_synonym u32 = "32 word"
type_synonym u64 = "64 word"

text \<open>A pointer or \<open>uintptr_t\<close>; \<open>nullptr\<close> is 0.\<close>

type_synonym ptr = "64 word"

text \<open>A pointer argument to an object of the model that may be \<open>nullptr\<close>.\<close>

type_synonym 'a nullable = "'a option"

named_theorems word_split_simps \<open>halves of a packed 64-bit word\<close>
named_theorems checked_simps \<open>checked address arithmetic, in terms of natural numbers\<close>

definition UINT64_MAX :: u64 where "UINT64_MAX = 0xffffffffffffffff"

section \<open>Status codes\<close>

datatype dp_status =
    DP_OK
  | DP_INVALID_ARGUMENT
  | DP_NOT_INITIALIZED
  | DP_HOST_API_UNAVAILABLE
  | DP_METADATA_INVALID
  | DP_MODULE_NOT_FOUND
  | DP_METHOD_NOT_FOUND
  | DP_AMBIGUOUS_METHOD
  | DP_BUILD_ID_MISMATCH
  | DP_FINGERPRINT_MISMATCH
  | DP_ADDRESS_OUTSIDE_EXECUTABLE
  | DP_UNSUPPORTED_ADDRESS_KIND
  | DP_UNSUPPORTED_ABI
  | DP_PROFILE_MISMATCH
  | DP_RUNTIME_NOT_READY
  | DP_INVALID_INVOCATION_PHASE
  | DP_ALREADY_HOOKED
  | DP_HOOK_FAILED
  | DP_UNHOOK_FAILED
  | DP_VM_BRIDGE_UNAVAILABLE
  | DP_VM_ISOLATE_MISMATCH
  | DP_VM_THREAD_MISMATCH
  | DP_VM_SCOPE_REQUIRED
  | DP_VM_ADAPTER_BUSY
  | DP_OBJECT_HANDLE_INVALID
  | DP_OBJECT_COLLECTED
  | DP_SHARED_CODE_ENTRY

section \<open>Two 32-bit halves in one 64-bit word\<close>

definition lo32 :: "u64 \<Rightarrow> u32" where
  "lo32 c = ucast c"

definition hi32 :: "u64 \<Rightarrow> u32" where
  "hi32 c = ucast (drop_bit 32 c)"

definition pack64 :: "u32 \<Rightarrow> u32 \<Rightarrow> u64" where
  "pack64 hi lo = push_bit 32 (ucast hi) OR ucast lo"

lemma lo32_pack64 [simp, word_split_simps]: "lo32 (pack64 hi lo) = lo"
  by (rule bit_word_eqI) (auto simp: lo32_def pack64_def bit_simps)

lemma hi32_pack64 [simp, word_split_simps]: "hi32 (pack64 hi lo) = hi"
  by (rule bit_word_eqI) (auto simp: hi32_def pack64_def bit_simps dest: bit_imp_le_length)

lemma pack64_id [simp]: "pack64 (hi32 c) (lo32 c) = c"
  by (rule bit_word_eqI) (auto simp: hi32_def lo32_def pack64_def bit_simps)

lemma pack64_inject [simp]: "pack64 a b = pack64 c d \<longleftrightarrow> a = c \<and> b = d"
  by (metis hi32_pack64 lo32_pack64)

lemma replace_low_half:
  "(c AND NOT 0xffffffff) OR ucast s = pack64 (hi32 c) (s :: u32)" for c :: u64
proof -
  have m: "(0xffffffff :: u64) = mask 32" by (simp add: mask_eq_exp_minus_1)
  show ?thesis unfolding m
    by (rule bit_word_eqI)
      (auto simp: hi32_def lo32_def pack64_def bit_simps dest: bit_imp_le_length)
qed

lemma ucast_pack64: "(ucast s :: u64) = pack64 0 (s :: u32)"
  by (simp add: pack64_def)

lemma unat_pack64: "unat (pack64 hi lo) = unat hi * 2 ^ 32 + unat lo"
proof -
  have hi: "unat hi < 2 ^ 32" and lo: "unat lo < 2 ^ 32"
    using unsigned_less [of hi, where ?'a = nat] unsigned_less [of lo, where ?'a = nat]
    by simp_all
  have disj: "push_bit 32 (ucast hi) AND (ucast lo :: u64) = 0"
    by (rule bit_word_eqI) (auto simp: bit_simps dest: bit_imp_le_length)
  have "unat (ucast hi :: u64) = unat hi" "unat (ucast lo :: u64) = unat lo"
    using hi lo by (simp_all add: unsigned_ucast_eq take_bit_eq_mod)
  then have "unat (push_bit 32 (ucast hi) :: u64) = unat hi * 2 ^ 32"
    using hi by (simp only: unsigned_push_bit_eq) (simp add: take_bit_eq_mod push_bit_eq_mult)
  moreover have "unat hi * 2 ^ 32 + unat lo < 2 ^ 64"
    using hi lo by simp
  moreover have "pack64 hi lo = push_bit 32 (ucast hi) + ucast lo"
    unfolding pack64_def using disj by (simp add: disjunctive_add_eq_or)
  ultimately show ?thesis
    using \<open>unat (ucast lo :: u64) = unat lo\<close> by (simp add: unat_word_ariths)
qed

lemma pack64_add_one: "pack64 hi lo + 0x100000000 = pack64 (hi + 1) lo"
proof -
  have lo: "unat lo < 2 ^ 32"
    using unsigned_less [of lo, where ?'a = nat] by simp
  have "unat (pack64 hi lo + 0x100000000) = unat (pack64 (hi + 1) lo)"
  proof (cases "hi = - 1")
    case True
    then have "hi = 0xffffffff" by simp
    then show ?thesis using lo by (simp add: unat_pack64 unat_word_ariths)
  next
    case False
    then have "unat hi + 1 < 2 ^ 32"
      using unsigned_less [of hi, where ?'a = nat]
      by (simp add: word_unat_eq_iff unsigned_minus_1_eq_mask mask_eq_exp_minus_1)
    then show ?thesis using lo by (simp add: unat_pack64 unat_word_ariths)
  qed
  then show ?thesis by (simp add: word_unat_eq_iff)
qed

lemma pack64_sub_one: "pack64 hi lo - 0x100000000 = pack64 (hi - 1) lo"
  using pack64_add_one [of "hi - 1" lo] by (simp add: algebra_simps)

lemma add_high_one: "c + 0x100000000 = pack64 (hi32 c + 1) (lo32 c)"
  using pack64_add_one [of "hi32 c" "lo32 c"] by simp

lemma sub_high_one: "c - 0x100000000 = pack64 (hi32 c - 1) (lo32 c)"
  using pack64_sub_one [of "hi32 c" "lo32 c"] by simp

lemma unat_inc32: "x \<noteq> 0xffffffff \<Longrightarrow> unat (x + 1) = unat x + 1" for x :: u32
proof -
  assume "x \<noteq> 0xffffffff"
  then have "unat x + 1 < 2 ^ 32"
    using unsigned_less [of x, where ?'a = nat] by (auto simp: word_unat_eq_iff)
  then show ?thesis by (simp add: unat_word_ariths)
qed

lemma unat_dec32: "x \<noteq> 0 \<Longrightarrow> unat (x - 1) = unat x - 1" for x :: u32
  by (metis unat_minus_one)

lemma unat_of_nat32: "n < 2 ^ 32 \<Longrightarrow> unat (of_nat n :: u32) = n"
  by (simp add: unat_of_nat take_bit_nat_eq_self)

lemma unat_of_nat64: "n < 2 ^ 64 \<Longrightarrow> unat (of_nat n :: u64) = n"
  by (simp add: unat_of_nat take_bit_nat_eq_self)

lemma unat_widen [simp]:
  "unat (ucast (a :: u8) :: u64) = unat a" "unat (ucast (b :: u16) :: u64) = unat b"
  "unat (ucast (c :: u32) :: u64) = unat c"
  using unsigned_less [of a, where ?'a = nat] unsigned_less [of b, where ?'a = nat]
    unsigned_less [of c, where ?'a = nat]
  by (simp_all add: unsigned_ucast_eq take_bit_nat_eq_self)

section \<open>Little-endian fields\<close>

primrec le_nat :: "u8 list \<Rightarrow> nat" where
  "le_nat [] = 0"
| "le_nat (b # bs) = unat b + 256 * le_nat bs"

definition field :: "u8 list \<Rightarrow> nat \<Rightarrow> nat \<Rightarrow> nat" where
  "field bs offset width = le_nat (take width (drop offset bs))"

definition encode_le :: "nat \<Rightarrow> nat \<Rightarrow> u8 list" where
  "encode_le width x = map (\<lambda>k. of_nat (x div 256 ^ k)) [0..<width]"

lemma encode_le_length [simp]: "length (encode_le w x) = w"
  by (simp add: encode_le_def)

lemma encode_le_Suc: "encode_le (Suc w) x = of_nat x # encode_le w (x div 256)"
  by (simp add: encode_le_def map_upt_Suc div_mult2_eq del: upt_Suc)

lemma le_nat_encode: "le_nat (encode_le w x) = x mod 256 ^ w"
proof (induction w arbitrary: x)
  case 0
  show ?case by (simp add: encode_le_def)
next
  case (Suc w)
  have "unat (of_nat x :: u8) = x mod 256" by (simp add: unat_of_nat take_bit_eq_mod)
  then show ?case by (simp add: encode_le_Suc Suc.IH mod_mult2_eq mult.commute)
qed

lemma field_at: "length pre = off \<Longrightarrow> length mid = w \<Longrightarrow> field (pre @ mid @ post) off w = le_nat mid"
  by (simp add: field_def)

lemma unat_bound: "unat (x :: 'a::len word) < 2 ^ LENGTH('a)"
  using unsigned_less [of x, where ?'a = nat] by simp

lemma field_append_right: "length pre \<le> off \<Longrightarrow> field (pre @ bs) off w = field bs (off - length pre) w"
  by (simp add: field_def)

lemma field_append_left: "w \<le> length pre \<Longrightarrow> field (pre @ bs) 0 w = le_nat (take w pre)"
  by (simp add: field_def)

section \<open>Counting the threads in a set of program points\<close>

text \<open>
  Moving one thread of a finite population from one program point to another changes the
  number of threads at the counted points by at most one.
\<close>

definition count_at :: "('a \<Rightarrow> bool) \<Rightarrow> (nat \<Rightarrow> 'a) \<Rightarrow> nat" where
  "count_at P f = card {t. P (f t)}"

definition finite_at :: "('a \<Rightarrow> bool) \<Rightarrow> (nat \<Rightarrow> 'a) \<Rightarrow> bool" where
  "finite_at P f \<longleftrightarrow> finite {t. P (f t)}"

lemma finite_at_upd [simp]: "finite_at P (f(t := x)) \<longleftrightarrow> finite_at P f"
proof -
  have "{u. P ((f(t := x)) u)} \<subseteq> insert t {u. P (f u)}"
    and "{u. P (f u)} \<subseteq> insert t {u. P ((f(t := x)) u)}"
    by auto
  then show ?thesis
    unfolding finite_at_def by (metis (no_types, lifting) finite_insert finite_subset)
qed

lemma count_at_upd:
  assumes "finite_at P f"
  shows "count_at P (f(t := x)) =
    (if P x then (if P (f t) then count_at P f else count_at P f + 1)
     else (if P (f t) then count_at P f - 1 else count_at P f))"
proof -
  let ?A = "{u. P (f u)}" and ?B = "{u. P ((f(t := x)) u)}"
  have fin: "finite ?A" using assms by (simp add: finite_at_def)
  have B: "?B = (if P x then insert t ?A else ?A - {t})" by auto
  show ?thesis
    using fin unfolding count_at_def B by (auto simp: card_insert_if insert_absorb)
qed

lemma count_at_pos: "finite_at P f \<Longrightarrow> P (f t) \<Longrightarrow> 0 < count_at P f"
  unfolding finite_at_def count_at_def by (subst card_gt_0_iff) auto

lemma count_at_zeroD: "finite_at P f \<Longrightarrow> count_at P f = 0 \<Longrightarrow> \<not> P (f t)"
  using count_at_pos [of P f t] by auto

section \<open>Lists searched from the front\<close>

lemma find_SomeD: "find P xs = Some x \<Longrightarrow> x \<in> set xs \<and> P x"
  by (auto simp: find_Some_iff)

end
