(* ===== verification/Publication_Gate.thy ===== *)
theory Publication_Gate
  imports Prelude
begin

text \<open>
  The host publication gate (\<^verbatim>\<open>src/host/publication_gate.cpp\<close>, with the
  types of \<^verbatim>\<open>src/core/internal.h\<close>): the one atomic control word that stands between a
  patched Dart entry and DartPlant's callback veneer, and the operations of the thread
  that owns the hook.  The low half of the word is the gate's state, the high half counts
  the CPUs that committed to the callback and have not yet handed over to the dispatcher.

  Every compare-and-swap loop of the source is an \<open>attempt\<close>: from the value it loaded,
  the loop either returns or tries to store a replacement.  A loop that nobody disturbs is
  \<open>run_attempt\<close>; the same attempts are the atomic steps of \<^verbatim>\<open>Gate_Protocol\<close>.  The host's
  function pointers belong to the adapter and are fields of the binding; a \<open>nullptr\<close>
  argument is \<open>None\<close>.  The thread-local last-error text is not modelled.
\<close>

section \<open>Gate state and control word\<close>

datatype gate_state =
    GInstalling | GArmed | GDraining | GBypassTarget | GBypassBackup | GFailed | GClosed

fun gate_code :: "gate_state \<Rightarrow> u32" where
  "gate_code GInstalling = 0"
| "gate_code GArmed = 1"
| "gate_code GDraining = 2"
| "gate_code GBypassTarget = 3"
| "gate_code GBypassBackup = 4"
| "gate_code GFailed = 5"
| "gate_code GClosed = 6"

definition kGateStateMask :: u64 where "kGateStateMask = 0xffffffff"

definition kGateEntrantOne :: u64 where "kGateEntrantOne = push_bit 32 1"

definition EncodeGateControl :: "gate_state \<Rightarrow> u32 \<Rightarrow> u64" where
  "EncodeGateControl s entrants = push_bit 32 (ucast entrants) OR ucast (gate_code s)"

text \<open>
  \<open>LoadGateState\<close> casts the low half to the enumeration; a half that is no enumerator is
  \<open>None\<close> here (every comparison of the source with an enumerator is then false).
\<close>

definition gate_state_of :: "u32 \<Rightarrow> gate_state option" where
  "gate_state_of s = find (\<lambda>g. gate_code g = s)
     [GInstalling, GArmed, GDraining, GBypassTarget, GBypassBackup, GFailed, GClosed]"

definition LoadGateState :: "u64 \<Rightarrow> gate_state option" where
  "LoadGateState control = gate_state_of (ucast (control AND kGateStateMask))"

section \<open>Compare-and-swap loops\<close>

datatype 'r attempt = Return 'r | TryCas u64 'r

definition run_attempt :: "(u64 \<Rightarrow> 'r attempt) \<Rightarrow> u64 \<Rightarrow> u64 \<times> 'r" where
  "run_attempt att c = (case att c of Return r \<Rightarrow> (c, r) | TryCas c' r \<Rightarrow> (c', r))"

text \<open>
  The loop under interference: \<open>cur\<close> is the value last loaded, and the list holds, for
  each compare-exchange, the value the word really had and whether the weak exchange
  failed spuriously.  The result names the successful exchange, if one took place.
\<close>

fun cas_loop ::
  "(u64 \<Rightarrow> 'r attempt) \<Rightarrow> u64 \<Rightarrow> (u64 \<times> bool) list \<Rightarrow> ((u64 \<times> u64) option \<times> 'r) option"
where
  "cas_loop att cur [] = (case att cur of Return r \<Rightarrow> Some (None, r) | TryCas c' r \<Rightarrow> None)"
| "cas_loop att cur ((mem, spurious) # obs) =
     (case att cur of
        Return r \<Rightarrow> Some (None, r)
      | TryCas c' r \<Rightarrow>
          if mem = cur \<and> \<not> spurious then Some (Some (mem, c'), r) else cas_loop att mem obs)"

definition store_attempt :: "gate_state \<Rightarrow> u64 \<Rightarrow> unit attempt" where
  "store_attempt s current =
     TryCas ((current AND NOT kGateStateMask) OR ucast (gate_code s)) ()"

definition begin_drain_attempt :: "u64 \<Rightarrow> unit attempt" where
  "begin_drain_attempt current =
     (let state = gate_state_of (ucast current) in
      if state = Some GDraining \<or> state = Some GClosed then Return ()
      else if state \<noteq> Some GArmed then Return ()
      else TryCas ((current AND NOT kGateStateMask) OR ucast (gate_code GDraining)) ())"

definition close_attempt :: "u64 \<Rightarrow> bool attempt" where
  "close_attempt current =
     (let state = gate_state_of (ucast current) in
      if state = Some GClosed then Return (drop_bit 32 current = 0)
      else if state \<noteq> Some GDraining \<and> state \<noteq> Some GInstalling \<and> state \<noteq> Some GBypassBackup
      then Return False
      else if drop_bit 32 current \<noteq> 0 then Return False
      else TryCas (ucast (gate_code GClosed)) True)"

text \<open>The strong exchange of \<open>ReopenPublishedHostHookDrain\<close> makes one attempt only.\<close>

definition reopen_attempt :: "u64 \<Rightarrow> unit attempt" where
  "reopen_attempt current =
     (if current = ucast (gate_code GClosed) then TryCas (ucast (gate_code GDraining)) ()
      else Return ())"

definition release_attempt :: "u64 \<Rightarrow> unit attempt" where
  "release_attempt current =
     (if drop_bit 32 current \<noteq> 0 then TryCas (current - kGateEntrantOne) () else Return ())"

text \<open>
  A CPU that reached the gate first looks at the state; in an open state it tries to pin
  itself on the same word.  \<open>PinRetry\<close> leaves the inner loop for the outer one and
  \<open>PinOverflow\<close> is the exhausted counter.
\<close>

datatype pin_result = Pinned | PinRetry | PinOverflow

definition pin_attempt :: "u64 \<Rightarrow> pin_result attempt" where
  "pin_attempt control =
     (let state = gate_state_of (ucast control) in
      if state \<noteq> Some GArmed \<and> state \<noteq> Some GDraining then Return PinRetry
      else if drop_bit 32 control = 0xffffffff then Return PinOverflow
      else TryCas (control + kGateEntrantOne) Pinned)"

section \<open>Bindings and published hooks\<close>

datatype publication_policy = Conservative | Strict | LocalGate

text \<open>
  The adapter's callbacks, \<open>user_data\<close> bound: \<open>hook\<close> gives its status and the value left
  in \<open>*backup\<close>; \<open>hook_with_publication\<close> gives the pointers it passed to
  \<open>backup_ready\<close>, in order, and its status.
\<close>

record host_binding =
  hb_hook :: "(ptr \<Rightarrow> ptr \<Rightarrow> int \<times> ptr) option"
  hb_unhook :: "(ptr \<Rightarrow> int) option"
  hb_hook_with_publication :: "(ptr \<Rightarrow> ptr \<Rightarrow> ptr list \<times> int) option"
  hb_publication_policy :: publication_policy

record publication_gate =
  g_control :: u64
  g_callback_entry :: ptr
  g_backup :: ptr
  g_target :: ptr

record published_hook =
  ph_gate :: publication_gate
  ph_binding :: "host_binding nullable"
  ph_target :: ptr
  ph_gate_entry :: ptr
  ph_gate_entry_size :: u64
  ph_track_generated_entrants :: bool
  ph_backend_installed :: bool
  ph_ever_published :: bool

abbreviation control :: "published_hook \<Rightarrow> u64" where
  "control p \<equiv> g_control (ph_gate p)"

abbreviation backup :: "published_hook \<Rightarrow> ptr" where
  "backup p \<equiv> g_backup (ph_gate p)"

definition set_control :: "u64 \<Rightarrow> published_hook \<Rightarrow> published_hook" where
  "set_control c p = p\<lparr>ph_gate := (ph_gate p)\<lparr>g_control := c\<rparr>\<rparr>"

definition set_backup :: "ptr \<Rightarrow> published_hook \<Rightarrow> published_hook" where
  "set_backup b p = p\<lparr>ph_gate := (ph_gate p)\<lparr>g_backup := b\<rparr>\<rparr>"

definition StoreGateState :: "gate_state \<Rightarrow> published_hook \<Rightarrow> published_hook" where
  "StoreGateState s p = set_control (fst (run_attempt (store_attempt s) (control p))) p"

definition HostBindingSupportsPublishedHooks :: "host_binding nullable \<Rightarrow> bool" where
  "HostBindingSupportsPublishedHooks binding =
     (case binding of
        None \<Rightarrow> False
      | Some b \<Rightarrow>
          (case hb_publication_policy b of
             Strict \<Rightarrow> hb_hook_with_publication b \<noteq> None
           | LocalGate \<Rightarrow> hb_hook b \<noteq> None
           | Conservative \<Rightarrow> False))"

text \<open>
  \<open>create_stub\<close> stands for the executable allocation of the ARM64 bridge: from the target
  and the tracking flag, the stub's entry (0 when none could be made) and size.
\<close>

definition PreparePublishedHostHook ::
  "(ptr \<Rightarrow> bool \<Rightarrow> ptr \<times> u64) \<Rightarrow> published_hook nullable \<Rightarrow> host_binding nullable \<Rightarrow> ptr \<Rightarrow>
   ptr \<Rightarrow> bool \<Rightarrow> ptr \<Rightarrow> dp_status \<times> published_hook nullable"
where
  "PreparePublishedHostHook create_stub published binding target callback_entry track testing =
     (case (published, binding) of
        (Some p, Some b) \<Rightarrow>
          if target = 0 \<or> callback_entry = 0 \<or> hb_unhook b = None \<or>
             \<not> HostBindingSupportsPublishedHooks (Some b)
          then (DP_UNSUPPORTED_ABI, Some p)
          else
            let p1 = p\<lparr>ph_binding := Some b, ph_target := target,
                       ph_track_generated_entrants := track,
                       ph_gate := \<lparr>g_control = EncodeGateControl GInstalling 0,
                                   g_callback_entry = callback_entry, g_backup = 0,
                                   g_target = target\<rparr>\<rparr>
            in if testing \<noteq> 0
               then (DP_OK, Some (p1\<lparr>ph_gate_entry := testing, ph_gate_entry_size := 0\<rparr>))
               else let (entry, size) = create_stub target track;
                        p2 = p1\<lparr>ph_gate_entry := entry, ph_gate_entry_size := size\<rparr>
                    in if entry = 0 then (DP_HOOK_FAILED, Some p2) else (DP_OK, Some p2)
      | _ \<Rightarrow> (DP_UNSUPPORTED_ABI, published))"


section \<open>Installing\<close>

definition HOST_HOOK_FAILED_NEVER_PUBLISHED :: int where "HOST_HOOK_FAILED_NEVER_PUBLISHED = -1"
definition HOST_HOOK_FAILED_AFTER_PUBLISHED :: int where "HOST_HOOK_FAILED_AFTER_PUBLISHED = -2"
definition HOST_HOOK_FAILED_RECOVERY_REQUIRED :: int
  where "HOST_HOOK_FAILED_RECOVERY_REQUIRED = -3"

text \<open>The transaction callback ignores a null backup and keeps the last other one.\<close>

fun backup_ready :: "published_hook \<Rightarrow> ptr list \<Rightarrow> published_hook" where
  "backup_ready p [] = p"
| "backup_ready p (b # bs) = backup_ready (if b = 0 then p else set_backup b p) bs"

text \<open>The call into the host: its status, the backup it left and the gate after the call.\<close>

definition call_host_hook :: "published_hook \<Rightarrow> host_binding \<Rightarrow> int \<times> ptr \<times> published_hook" where
  "call_host_hook p b =
     (case hb_publication_policy b of
        Strict \<Rightarrow>
          (case hb_hook_with_publication b of
             Some f \<Rightarrow>
               let (ready, status) = f (ph_target p) (ph_gate_entry p);
                   p' = backup_ready p ready
               in (status, backup p', p')
           | None \<Rightarrow> (HOST_HOOK_FAILED_NEVER_PUBLISHED, 0, p))
      | LocalGate \<Rightarrow>
          (case hb_hook b of
             Some f \<Rightarrow> let (status, bk) = f (ph_target p) (ph_gate_entry p)
                       in (status, bk, set_backup bk p)
           | None \<Rightarrow> (HOST_HOOK_FAILED_NEVER_PUBLISHED, 0, p))
      | Conservative \<Rightarrow> (HOST_HOOK_FAILED_NEVER_PUBLISHED, 0, p))"

text \<open>
  Status, the trampoline left in \<open>*out_backup\<close> (\<open>None\<close> when it is not written) and the
  hook afterwards.
\<close>

definition InstallPublishedHostHook ::
  "published_hook nullable \<Rightarrow> bool \<Rightarrow> dp_status \<times> ptr option \<times> published_hook nullable"
where
  "InstallPublishedHostHook published out_given =
     (case published of
        None \<Rightarrow> (DP_INVALID_ARGUMENT, None, None)
      | Some p \<Rightarrow>
          (case ph_binding p of
             None \<Rightarrow> (DP_INVALID_ARGUMENT, None, Some p)
           | Some b \<Rightarrow>
               if ph_gate_entry p = 0 \<or> ph_target p = 0 \<or> \<not> out_given
               then (DP_INVALID_ARGUMENT, None, Some p)
               else
                 let (status, bk, p1) = call_host_hook p b in
                 if status \<noteq> 0 then
                   (if hb_publication_policy b = Strict \<and>
                       status = HOST_HOOK_FAILED_RECOVERY_REQUIRED
                    then
                      let p2 = p1\<lparr>ph_ever_published := True, ph_backend_installed := True\<rparr>
                      in (DP_HOOK_FAILED, Some 0,
                          Some (if bk \<noteq> 0 then StoreGateState GBypassBackup p2 else p2))
                    else if hb_publication_policy b = Strict \<and>
                            status = HOST_HOOK_FAILED_AFTER_PUBLISHED
                    then
                      let p2 = p1\<lparr>ph_ever_published := True, ph_backend_installed := False\<rparr>
                      in (DP_HOOK_FAILED, Some 0, Some (StoreGateState GBypassTarget p2))
                    else (DP_HOOK_FAILED, Some 0, Some (StoreGateState GFailed p1)))
                 else if bk = 0 then
                   (DP_HOOK_FAILED, Some 0,
                    Some (p1\<lparr>ph_backend_installed := True, ph_ever_published := True\<rparr>))
                 else
                   (DP_OK, Some bk,
                    Some ((set_backup bk p1)\<lparr>ph_backend_installed := True,
                                              ph_ever_published := True\<rparr>))))"

section \<open>Arming, draining, closing\<close>

definition ArmPublishedHostHook :: "published_hook nullable \<Rightarrow> published_hook nullable" where
  "ArmPublishedHostHook published =
     (case published of
        None \<Rightarrow> None
      | Some p \<Rightarrow>
          if \<not> ph_backend_installed p \<or> backup p = 0 then Some p
          else Some (StoreGateState GArmed p))"

definition BypassPublishedHostHookToBackup ::
  "published_hook nullable \<Rightarrow> published_hook nullable"
where
  "BypassPublishedHostHookToBackup published =
     (case published of
        None \<Rightarrow> None
      | Some p \<Rightarrow> if backup p = 0 then Some p else Some (StoreGateState GBypassBackup p))"

definition BeginDrainPublishedHostHook :: "published_hook nullable \<Rightarrow> published_hook nullable" where
  "BeginDrainPublishedHostHook published =
     (case published of
        None \<Rightarrow> None
      | Some p \<Rightarrow>
          if \<not> ph_backend_installed p then Some p
          else Some (set_control (fst (run_attempt begin_drain_attempt (control p))) p))"

definition ClosePublishedHostHook ::
  "published_hook nullable \<Rightarrow> bool \<times> published_hook nullable"
where
  "ClosePublishedHostHook published =
     (case published of
        None \<Rightarrow> (False, None)
      | Some p \<Rightarrow>
          if \<not> ph_backend_installed p then (False, Some p)
          else let (c, closed) = run_attempt close_attempt (control p)
               in (closed, Some (set_control c p)))"

definition ReopenPublishedHostHookDrain ::
  "published_hook nullable \<Rightarrow> published_hook nullable"
where
  "ReopenPublishedHostHookDrain published =
     (case published of
        None \<Rightarrow> None
      | Some p \<Rightarrow>
          if \<not> ph_backend_installed p then Some p
          else Some (set_control (fst (run_attempt reopen_attempt (control p))) p))"

definition PublishedHostHookEntrantCount :: "published_hook nullable \<Rightarrow> u32" where
  "PublishedHostHookEntrantCount published =
     (case published of None \<Rightarrow> 0 | Some p \<Rightarrow> ucast (drop_bit 32 (control p)))"

definition PublishedHostHookEntrantsIdle :: "published_hook nullable \<Rightarrow> bool" where
  "PublishedHostHookEntrantsIdle published \<longleftrightarrow> PublishedHostHookEntrantCount published = 0"

section \<open>Uninstalling and releasing\<close>

definition UninstallPublishedHostHook ::
  "published_hook nullable \<Rightarrow> dp_status \<times> published_hook nullable"
where
  "UninstallPublishedHostHook published =
     (case published of
        None \<Rightarrow> (DP_INVALID_ARGUMENT, None)
      | Some p \<Rightarrow>
          if \<not> ph_backend_installed p then (DP_OK, Some (StoreGateState GBypassTarget p))
          else if \<not> PublishedHostHookEntrantsIdle (Some p) then (DP_VM_ADAPTER_BUSY, Some p)
          else
            (case ClosePublishedHostHook (Some p) of
               (False, published1) \<Rightarrow> (DP_VM_ADAPTER_BUSY, published1)
             | (True, published1) \<Rightarrow>
                 let unhooked =
                   (case ph_binding p of
                      None \<Rightarrow> False
                    | Some b \<Rightarrow> (case hb_unhook b of
                                   None \<Rightarrow> False
                                 | Some unhook \<Rightarrow> unhook (ph_target p) = 0))
                 in if \<not> unhooked
                    then (DP_UNHOOK_FAILED, ReopenPublishedHostHookDrain published1)
                    else (DP_OK,
                          map_option (\<lambda>q. StoreGateState GBypassTarget
                                             (q\<lparr>ph_backend_installed := False\<rparr>)) published1)))"

text \<open>The stub is returned to the allocator only when the flag of the result is set.\<close>

definition DestroyPublishedHostHookGate ::
  "published_hook nullable \<Rightarrow> bool \<times> published_hook nullable"
where
  "DestroyPublishedHostHookGate published =
     (case published of
        None \<Rightarrow> (False, None)
      | Some p \<Rightarrow>
          if ph_gate_entry p = 0 \<or> ph_ever_published p then (False, Some p)
          else (True, Some (p\<lparr>ph_gate_entry := 0, ph_gate_entry_size := 0\<rparr>)))"

definition ReleasePublishedHostHookEntrant ::
  "published_hook nullable \<Rightarrow> published_hook nullable"
where
  "ReleasePublishedHostHookEntrant published =
     (case published of
        None \<Rightarrow> None
      | Some p \<Rightarrow>
          if \<not> ph_track_generated_entrants p then Some p
          else Some (set_control (fst (run_attempt release_attempt (control p))) p))"

section \<open>The route a CPU takes through the gate\<close>

text \<open>
  One pass of the outer loop on a word that does not change: \<open>Spin\<close> is the yield, after
  which the same word is seen again, so an undisturbed caller never returns from it.
\<close>

datatype gate_route = Spin | RouteTo ptr bool

definition AcquirePublishedHostHookRoute ::
  "published_hook nullable \<Rightarrow> gate_route \<times> published_hook nullable"
where
  "AcquirePublishedHostHookRoute published =
     (case published of
        None \<Rightarrow> (RouteTo 0 False, None)
      | Some p \<Rightarrow>
          (let state = LoadGateState (control p) in
           if state = Some GInstalling \<or> state = Some GClosed then (Spin, Some p)
           else if state = Some GBypassTarget then (RouteTo (g_target (ph_gate p)) False, Some p)
           else if state = Some GBypassBackup then (RouteTo (backup p) False, Some p)
           else if state \<noteq> Some GArmed \<and> state \<noteq> Some GDraining then (RouteTo 0 False, Some p)
           else if \<not> ph_track_generated_entrants p
           then (RouteTo (g_callback_entry (ph_gate p)) False, Some p)
           else (case run_attempt pin_attempt (control p) of
                   (c, Pinned) \<Rightarrow>
                     (RouteTo (g_callback_entry (ph_gate p)) True, Some (set_control c p))
                 | (c, PinRetry) \<Rightarrow> (Spin, Some p)
                 | (c, PinOverflow) \<Rightarrow> (RouteTo 0 False, Some p))))"

end
