(* ===== verification/Publication_Gate_Props.thy ===== *)
theory Publication_Gate_Props
  imports Publication_Gate
begin

text \<open>
  Facts on the gate's control word and on the owner's operations of
  \<^verbatim>\<open>src/host/publication_gate.cpp\<close>: each attempt in terms of the two halves of the word,
  what a compare-and-swap loop does under interference, and what installing, closing,
  uninstalling and routing guarantee.
\<close>

section \<open>The control word\<close>

lemma gate_code_inject [simp]: "gate_code a = gate_code b \<longleftrightarrow> a = b"
  by (cases a; cases b) simp_all

lemma gate_state_of_code [simp]: "gate_state_of (gate_code s) = Some s"
  by (cases s) (simp_all add: gate_state_of_def)

lemma gate_state_of_Some: "gate_state_of x = Some s \<longleftrightarrow> x = gate_code s"
proof
  assume "gate_state_of x = Some s"
  then show "x = gate_code s"
    unfolding gate_state_of_def by (metis (mono_tags, lifting) find_SomeD)
qed simp

lemma ucast_lo32: "(ucast c :: u32) = lo32 c"
  by (simp add: lo32_def)

lemma masked_lo32: "(ucast (c AND kGateStateMask) :: u32) = lo32 c"
proof -
  have m: "(0xffffffff :: u64) = mask 32" by (simp add: mask_eq_exp_minus_1)
  show ?thesis
    unfolding kGateStateMask_def m lo32_def
    by (rule bit_word_eqI) (auto simp: bit_simps dest: bit_imp_le_length)
qed

lemma LoadGateState_alt: "LoadGateState c = gate_state_of (lo32 c)"
  by (simp add: LoadGateState_def masked_lo32)

lemma LoadGateState_pack64 [simp]: "LoadGateState (pack64 e (gate_code s)) = Some s"
  by (simp add: LoadGateState_alt)

lemma LoadGateState_Some: "LoadGateState c = Some s \<longleftrightarrow> lo32 c = gate_code s"
  by (simp add: LoadGateState_alt gate_state_of_Some)

lemma EncodeGateControl_pack64: "EncodeGateControl s e = pack64 e (gate_code s)"
  by (simp add: EncodeGateControl_def pack64_def)

lemma drop_bit_hi32: "drop_bit 32 c = ucast (hi32 c)"
  unfolding hi32_def by (rule bit_word_eqI) (auto simp: bit_simps dest: bit_imp_le_length)

lemma drop_bit_eq_hi32: "drop_bit 32 c = (ucast x :: u64) \<longleftrightarrow> hi32 c = x" for x :: u32
proof
  assume "drop_bit 32 c = (ucast x :: u64)"
  then have "hi32 c = ucast (ucast x :: u64)" by (simp add: hi32_def)
  also have "\<dots> = x"
    by (rule bit_word_eqI) (auto simp: bit_simps dest: bit_imp_le_length)
  finally show "hi32 c = x" .
next
  assume "hi32 c = x"
  then show "drop_bit 32 c = ucast x" by (simp add: drop_bit_hi32)
qed

lemma drop_bit_eq_0: "drop_bit 32 c = 0 \<longleftrightarrow> hi32 c = 0"
  using drop_bit_eq_hi32 [where c = c and x = 0] by simp

lemma drop_bit_eq_max: "drop_bit 32 c = 0xffffffff \<longleftrightarrow> hi32 c = 0xffffffff"
  using drop_bit_eq_hi32 [where c = c and x = "0xffffffff"] by simp

lemma kGateEntrantOne_eq: "kGateEntrantOne = 0x100000000"
  by (simp add: kGateEntrantOne_def)

lemmas gate_word_simps =
  ucast_lo32 drop_bit_eq_0 drop_bit_eq_max kGateEntrantOne_eq LoadGateState_alt [symmetric]
  add_high_one sub_high_one

lemma mask_replace:
  "(c AND NOT kGateStateMask) OR ucast s = pack64 (hi32 c) s"
  by (simp only: kGateStateMask_def replace_low_half)

lemma store_attempt_eq: "store_attempt s c = TryCas (pack64 (hi32 c) (gate_code s)) ()"
  by (simp add: store_attempt_def mask_replace)

lemma begin_drain_attempt_eq:
  "begin_drain_attempt c =
     (if LoadGateState c = Some GArmed then TryCas (pack64 (hi32 c) (gate_code GDraining)) ()
      else Return ())"
  by (auto simp: begin_drain_attempt_def Let_def gate_word_simps mask_replace
      simp del: gate_code.simps)

lemma close_attempt_eq:
  "close_attempt c =
     (if LoadGateState c = Some GClosed then Return (hi32 c = 0)
      else if LoadGateState c \<in> {Some GDraining, Some GInstalling, Some GBypassBackup} \<and>
              hi32 c = 0
      then TryCas (pack64 0 (gate_code GClosed)) True else Return False)"
  by (auto simp: close_attempt_def Let_def gate_word_simps ucast_pack64 simp del: gate_code.simps)

lemma reopen_attempt_eq:
  "reopen_attempt c =
     (if c = pack64 0 (gate_code GClosed) then TryCas (pack64 0 (gate_code GDraining)) ()
      else Return ())"
  by (simp add: reopen_attempt_def gate_word_simps ucast_pack64 del: gate_code.simps)

lemma release_attempt_eq:
  "release_attempt c =
     (if hi32 c \<noteq> 0 then TryCas (pack64 (hi32 c - 1) (lo32 c)) () else Return ())"
  by (simp add: release_attempt_def gate_word_simps)

lemma pin_attempt_eq:
  "pin_attempt c =
     (if LoadGateState c \<notin> {Some GArmed, Some GDraining} then Return PinRetry
      else if hi32 c = 0xffffffff then Return PinOverflow
      else TryCas (pack64 (hi32 c + 1) (lo32 c)) Pinned)"
  by (auto simp: pin_attempt_def Let_def gate_word_simps simp del: gate_code.simps)

lemmas attempt_eqs =
  store_attempt_eq begin_drain_attempt_eq close_attempt_eq reopen_attempt_eq
  release_attempt_eq pin_attempt_eq

lemma set_control_sel [simp]:
  "control (set_control c p) = c" "backup (set_control c p) = backup p"
  "g_target (ph_gate (set_control c p)) = g_target (ph_gate p)"
  "g_callback_entry (ph_gate (set_control c p)) = g_callback_entry (ph_gate p)"
  "ph_binding (set_control c p) = ph_binding p" "ph_target (set_control c p) = ph_target p"
  "ph_gate_entry (set_control c p) = ph_gate_entry p"
  "ph_track_generated_entrants (set_control c p) = ph_track_generated_entrants p"
  "ph_backend_installed (set_control c p) = ph_backend_installed p"
  "ph_ever_published (set_control c p) = ph_ever_published p"
  by (simp_all add: set_control_def)

lemma set_backup_sel [simp]:
  "control (set_backup b p) = control p" "backup (set_backup b p) = b"
  "ph_backend_installed (set_backup b p) = ph_backend_installed p"
  "ph_ever_published (set_backup b p) = ph_ever_published p"
  "ph_binding (set_backup b p) = ph_binding p" "ph_target (set_backup b p) = ph_target p"
  "ph_gate_entry (set_backup b p) = ph_gate_entry p"
  by (simp_all add: set_backup_def)

lemma StoreGateState_sel [simp]:
  "control (StoreGateState s p) = pack64 (hi32 (control p)) (gate_code s)"
  "backup (StoreGateState s p) = backup p"
  "g_target (ph_gate (StoreGateState s p)) = g_target (ph_gate p)"
  "g_callback_entry (ph_gate (StoreGateState s p)) = g_callback_entry (ph_gate p)"
  "ph_binding (StoreGateState s p) = ph_binding p" "ph_target (StoreGateState s p) = ph_target p"
  "ph_gate_entry (StoreGateState s p) = ph_gate_entry p"
  "ph_backend_installed (StoreGateState s p) = ph_backend_installed p"
  "ph_ever_published (StoreGateState s p) = ph_ever_published p"
  "ph_track_generated_entrants (StoreGateState s p) = ph_track_generated_entrants p"
  by (simp_all add: StoreGateState_def run_attempt_def store_attempt_eq)

lemma backup_ready_control [simp]: "control (backup_ready p bs) = control p"
  by (induction p bs rule: backup_ready.induct) auto

lemma backup_ready_flags [simp]:
  "ph_backend_installed (backup_ready p bs) = ph_backend_installed p"
  "ph_ever_published (backup_ready p bs) = ph_ever_published p"
  by (induction p bs rule: backup_ready.induct) auto

lemma backup_ready_binding [simp]: "ph_binding (backup_ready p bs) = ph_binding p"
  by (induction p bs rule: backup_ready.induct) auto

lemma call_host_hook_control: "call_host_hook p b = (st, bk, q) \<Longrightarrow> control q = control p"
  by (auto simp: call_host_hook_def Let_def split: publication_policy.splits option.splits prod.splits)

lemma call_host_hook_backup:
  "call_host_hook p b = (0, bk, q) \<Longrightarrow> backup q = bk"
  by (auto simp: call_host_hook_def Let_def HOST_HOOK_FAILED_NEVER_PUBLISHED_def
      split: publication_policy.splits option.splits prod.splits)

section \<open>Compare-and-swap loops under interference\<close>

text \<open>
  A loop that returns took effect at one instant: either it stored the replacement its
  attempt computes from the value the word really had, or an observed value made it return
  without a store.
\<close>

lemma cas_loop_sound:
  assumes "cas_loop att cur obs = Some (eff, r)"
  shows "(case eff of
            Some (mem, c') \<Rightarrow> (mem, False) \<in> set obs \<and> att mem = TryCas c' r
          | None \<Rightarrow> \<exists>seen \<in> insert cur (fst ` set obs). att seen = Return r)"
  using assms
proof (induction att cur obs rule: cas_loop.induct)
  case (1 att cur)
  then show ?case by (auto split: attempt.splits)
next
  case (2 att cur mem spurious obs)
  show ?case
  proof (cases "att cur")
    case (Return r')
    with 2 show ?thesis by auto
  next
    case (TryCas c' r')
    show ?thesis
    proof (cases "mem = cur \<and> \<not> spurious")
      case True
      with 2 TryCas show ?thesis by auto
    next
      case False
      with 2 TryCas have "cas_loop att mem obs = Some (eff, r)" by simp
      with 2(1) TryCas False show ?thesis by (auto split: option.splits)
    qed
  qed
qed

text \<open>An undisturbed exchange that does not fail spuriously ends the loop.\<close>

lemma cas_loop_undisturbed: "\<exists>res. cas_loop att cur ((cur, False) # obs) = Some res"
  by (auto split: attempt.splits)


section \<open>The owner's operations\<close>

lemmas gate_op_defs =
  InstallPublishedHostHook_def ArmPublishedHostHook_def BypassPublishedHostHookToBackup_def
  BeginDrainPublishedHostHook_def ClosePublishedHostHook_def ReopenPublishedHostHookDrain_def
  UninstallPublishedHostHook_def ReleasePublishedHostHookEntrant_def
  AcquirePublishedHostHookRoute_def

lemma entrants_idle_iff [simp]:
  "PublishedHostHookEntrantsIdle (Some p) \<longleftrightarrow> hi32 (control p) = 0"
  by (simp add: PublishedHostHookEntrantsIdle_def PublishedHostHookEntrantCount_def hi32_def)

lemma close_run:
  "run_attempt close_attempt c =
     (if LoadGateState c = Some GClosed then (c, hi32 c = 0)
      else if LoadGateState c \<in> {Some GDraining, Some GInstalling, Some GBypassBackup} \<and>
              hi32 c = 0
      then (pack64 0 (gate_code GClosed), True) else (c, False))"
  by (simp add: run_attempt_def close_attempt_eq)

lemma begin_drain_run:
  "fst (run_attempt begin_drain_attempt c) =
     (if LoadGateState c = Some GArmed then pack64 (hi32 c) (gate_code GDraining) else c)"
  by (simp add: run_attempt_def begin_drain_attempt_eq)

lemma store_run: "fst (run_attempt (store_attempt g) c) = pack64 (hi32 c) (gate_code g)"
  by (simp add: run_attempt_def store_attempt_eq)

lemma closed_word:
  "LoadGateState c = Some GClosed \<Longrightarrow> hi32 c = 0 \<Longrightarrow> c = pack64 0 (gate_code GClosed)"
  by (metis LoadGateState_Some pack64_id)

lemma reopen_run:
  "LoadGateState c = Some GClosed \<Longrightarrow> hi32 c = 0 \<Longrightarrow>
     fst (run_attempt reopen_attempt c) = pack64 0 (gate_code GDraining)"
  using closed_word [of c]
  by (simp add: run_attempt_def reopen_attempt_eq del: gate_code.simps)

lemma pin_run:
  "run_attempt pin_attempt c =
     (if LoadGateState c \<notin> {Some GArmed, Some GDraining} then (c, PinRetry)
      else if hi32 c = 0xffffffff then (c, PinOverflow)
      else (pack64 (hi32 c + 1) (lo32 c), Pinned))"
  by (simp add: run_attempt_def pin_attempt_eq)

lemma release_run:
  "fst (run_attempt release_attempt c) =
     (if hi32 c \<noteq> 0 then pack64 (hi32 c - 1) (lo32 c) else c)"
  by (simp add: run_attempt_def release_attempt_eq)

lemmas gate_runs = close_run begin_drain_run store_run reopen_run pin_run release_run

lemma hook_eqI: "set_control (control p) p = p"
  by (simp add: set_control_def)

lemma uninstall_outcome:
  assumes "UninstallPublishedHostHook (Some p) = (st, r)" "ph_backend_installed p"
  shows "(hi32 (control p) \<noteq> 0 \<or>
          LoadGateState (control p) \<notin>
            {Some GDraining, Some GInstalling, Some GBypassBackup, Some GClosed}) \<and>
         st = DP_VM_ADAPTER_BUSY \<and> r = Some p \<or>
       hi32 (control p) = 0 \<and>
       LoadGateState (control p) \<in>
         {Some GDraining, Some GInstalling, Some GBypassBackup, Some GClosed} \<and>
       (st = DP_OK \<and> r = Some ((set_control (pack64 0 (gate_code GBypassTarget)) p)
          \<lparr>ph_backend_installed := False\<rparr>) \<or>
        st = DP_UNHOOK_FAILED \<and> r = Some (set_control (pack64 0 (gate_code GDraining)) p))"
  using assms
  by (auto simp: UninstallPublishedHostHook_def ClosePublishedHostHook_def close_run Let_def
      ReopenPublishedHostHookDrain_def reopen_run hook_eqI StoreGateState_def store_run
      set_control_def simp del: gate_code.simps split: if_splits option.splits prod.splits)

section \<open>Properties\<close>



text \<open>
  installing never opens the gate.  From a prepared (INSTALLING, never published) hook,
  every outcome of the host's call leaves the gate in a state that lets no CPU reach the
  callback; success leaves it INSTALLING with a non-null backup, published and installed; a
  gate left on the backup route has a backup; and a hook that is still marked installed or
  whose gate is open on a bypass is marked published, so its stub is never freed.
\<close>

theorem install_keeps_gate_shut:
  assumes "InstallPublishedHostHook (Some p) out = (st, ob, Some q)"
    and "LoadGateState (control p) = Some GInstalling"
    and "\<not> ph_backend_installed p" "\<not> ph_ever_published p"
  shows "LoadGateState (control q) \<in>
           {Some GInstalling, Some GBypassBackup, Some GBypassTarget, Some GFailed} \<and>
         (st = DP_OK \<longrightarrow> LoadGateState (control q) = Some GInstalling \<and>
            ph_backend_installed q \<and> ph_ever_published q \<and> backup q \<noteq> 0 \<and> ob = Some (backup q)) \<and>
         (LoadGateState (control q) = Some GBypassBackup \<longrightarrow>
            backup q \<noteq> 0 \<and> ph_backend_installed q \<and> ph_ever_published q) \<and>
         (LoadGateState (control q) = Some GBypassTarget \<longrightarrow>
            \<not> ph_backend_installed q \<and> ph_ever_published q) \<and>
         (ph_backend_installed q \<longrightarrow> ph_ever_published q)"
proof (cases "ph_binding p")
  case None
  with assms show ?thesis by (auto simp: InstallPublishedHostHook_def)
next
  case (Some b)
  obtain status bk p1 where call: "call_host_hook p b = (status, bk, p1)"
    by (cases "call_host_hook p b") auto
  have p1: "control p1 = control p" "ph_backend_installed p1 = ph_backend_installed p"
    "ph_ever_published p1 = ph_ever_published p"
    "hb_publication_policy b = Strict \<Longrightarrow> bk \<noteq> 0 \<Longrightarrow> backup p1 = bk"
    using call call_host_hook_control [OF call]
    by (auto simp: call_host_hook_def Let_def backup_ready_flags
        split: publication_policy.splits option.splits prod.splits)
  show ?thesis
    using assms p1 Some call
    by (auto simp: InstallPublishedHostHook_def Let_def simp del: gate_code.simps
        split: if_splits)
qed


text \<open>A hook on a strict host that makes its backup ready and succeeds.\<close>

definition sample_binding :: "(ptr list \<times> int) \<Rightarrow> int \<Rightarrow> host_binding" where
  "sample_binding hooked unhooked =
     \<lparr>hb_hook = None, hb_unhook = Some (\<lambda>_. unhooked),
      hb_hook_with_publication = Some (\<lambda>_ _. hooked), hb_publication_policy = Strict\<rparr>"

definition sample_hook :: "host_binding \<Rightarrow> u64 \<Rightarrow> ptr \<Rightarrow> bool \<Rightarrow> published_hook" where
  "sample_hook b c bk installed =
     \<lparr>ph_gate = \<lparr>g_control = c, g_callback_entry = 0x2000, g_backup = bk, g_target = 0x1000\<rparr>,
      ph_binding = Some b, ph_target = 0x1000, ph_gate_entry = 0x3000,
      ph_gate_entry_size = 0, ph_track_generated_entrants = True,
      ph_backend_installed = installed, ph_ever_published = installed\<rparr>"

lemmas sample_simps =
  sample_hook_def sample_binding_def LoadGateState_def gate_state_of_def kGateStateMask_def

theorem install_keeps_gate_shut_witness:
  "\<exists>q. InstallPublishedHostHook
         (Some (sample_hook (sample_binding ([0x4000], 0) 0) 0 0 False)) True =
       (DP_OK, Some 0x4000, Some q) \<and>
     LoadGateState (control q) = Some GInstalling \<and> ph_ever_published q"
proof -
  let ?p = "sample_hook (sample_binding ([0x4000], 0) 0) 0 0 False"
  obtain q where run: "InstallPublishedHostHook (Some ?p) True = (DP_OK, Some 0x4000, Some q)"
    by (simp add: InstallPublishedHostHook_def call_host_hook_def sample_simps Let_def)
  have "LoadGateState (control ?p) = Some GInstalling" "\<not> ph_backend_installed ?p"
    "\<not> ph_ever_published ?p"
    by (simp_all add: sample_simps)
  from install_keeps_gate_shut [OF run this] run show ?thesis by auto
qed

text \<open>
  physical unhooking is exact.  On an installed hook, \<open>UninstallPublishedHostHook\<close> is
  busy, changing nothing, while an entrant is pinned or the gate is armed, bypassed to the
  target or failed; otherwise it either succeeds, leaving the hook uninstalled and the gate
  on the target with no entrant, or reports the host's failure, leaving it installed and the
  gate reopened to DRAINING.
\<close>

theorem uninstall_exact:
  assumes "UninstallPublishedHostHook (Some p) = (st, Some q)" "ph_backend_installed p"
  shows "(st = DP_VM_ADAPTER_BUSY \<longleftrightarrow>
            hi32 (control p) \<noteq> 0 \<or>
            LoadGateState (control p) \<notin>
              {Some GDraining, Some GInstalling, Some GBypassBackup, Some GClosed}) \<and>
         (st = DP_VM_ADAPTER_BUSY \<and> q = p \<or>
          st = DP_OK \<and> \<not> ph_backend_installed q \<and>
            control q = EncodeGateControl GBypassTarget 0 \<or>
          st = DP_UNHOOK_FAILED \<and> ph_backend_installed q \<and>
            control q = EncodeGateControl GDraining 0)"
  using uninstall_outcome [OF assms] assms(2)
  by (auto simp: EncodeGateControl_pack64 set_control_def simp del: gate_code.simps)

theorem uninstall_exact_witness:
  "\<exists>q. UninstallPublishedHostHook
         (Some (sample_hook (sample_binding ([], 0) 0) 2 0x4000 True)) = (DP_OK, Some q) \<and>
     control q = EncodeGateControl GBypassTarget 0"
proof -
  let ?p = "sample_hook (sample_binding ([], 0) 0) 2 0x4000 True"
  have inst: "ph_backend_installed ?p" by (simp add: sample_simps)
  obtain q where run: "UninstallPublishedHostHook (Some ?p) = (DP_OK, Some q)"
    by (simp add: UninstallPublishedHostHook_def ClosePublishedHostHook_def run_attempt_def
        close_attempt_def sample_simps Let_def PublishedHostHookEntrantsIdle_def
        PublishedHostHookEntrantCount_def)
  from uninstall_exact [OF run inst] run show ?thesis by auto
qed

text \<open>
  a CPU that took the callback route of a tracking gate holds a pin that blocks
  unhooking until it is released: right after the acquisition the uninstall is busy and
  changes nothing, and releasing the entrant restores the control word the CPU found.
\<close>

theorem pin_blocks_uninstall:
  assumes "AcquirePublishedHostHookRoute (Some p) = (RouteTo entry True, Some q)"
    and "ph_backend_installed p"
  shows "UninstallPublishedHostHook (Some q) = (DP_VM_ADAPTER_BUSY, Some q) \<and>
    ReleasePublishedHostHookEntrant (Some q) = Some p \<and>
    entry = g_callback_entry (ph_gate p)"
proof -
  from assms(1) have
    track: "ph_track_generated_entrants p" and m: "hi32 (control p) \<noteq> 0xffffffff"
    and q: "q = set_control (pack64 (hi32 (control p) + 1) (lo32 (control p))) p"
    and e: "entry = g_callback_entry (ph_gate p)"
    by (auto simp: AcquirePublishedHostHookRoute_def pin_run Let_def
        split: if_splits prod.splits)
  have nz: "hi32 (control p) + 1 \<noteq> 0"
  proof
    assume "hi32 (control p) + 1 = 0"
    then have "unat (hi32 (control p) + 1) = 0" by simp
    with unat_inc32 [OF m] show False by simp
  qed
  then have "UninstallPublishedHostHook (Some q) = (DP_VM_ADAPTER_BUSY, Some q)"
    using q assms(2) by (simp add: UninstallPublishedHostHook_def)
  moreover have "ReleasePublishedHostHookEntrant (Some q) = Some p"
    using q track nz
    by (simp add: ReleasePublishedHostHookEntrant_def release_run set_control_def)
  ultimately show ?thesis using e by simp
qed

theorem pin_blocks_uninstall_witness:
  "\<exists>q. AcquirePublishedHostHookRoute
         (Some (sample_hook (sample_binding ([], 0) 0) 1 0x4000 True)) =
           (RouteTo 0x2000 True, Some q) \<and>
     UninstallPublishedHostHook (Some q) = (DP_VM_ADAPTER_BUSY, Some q)"
proof -
  let ?p = "sample_hook (sample_binding ([], 0) 0) 1 0x4000 True"
  have inst: "ph_backend_installed ?p" by (simp add: sample_simps)
  obtain q where run: "AcquirePublishedHostHookRoute (Some ?p) = (RouteTo 0x2000 True, Some q)"
    by (simp add: AcquirePublishedHostHookRoute_def run_attempt_def pin_attempt_def
        sample_simps Let_def)
  from pin_blocks_uninstall [OF run inst] run show ?thesis by auto
qed

text \<open>
  C10: the recovery route is not covered by the pins.  When a strict host reports that its
  rollback failed (recovery required) after making a backup ready, the gate hands the backup
  to stale CPUs without a pin, and the later recovery uninstall of the very same hook
  succeeds although such a CPU may still be on its way into the backup.
\<close>

theorem recovery_route_unpinned:
  assumes "InstallPublishedHostHook (Some p) True = (st, ob, Some q)"
    and "LoadGateState (control p) = Some GInstalling" "hi32 (control p) = 0"
    and "ph_binding p = Some b" "hb_publication_policy b = Strict"
    and "hb_unhook b = Some (\<lambda>_. 0)" "ph_gate_entry p \<noteq> 0" "ph_target p \<noteq> 0"
    and "call_host_hook p b = (HOST_HOOK_FAILED_RECOVERY_REQUIRED, bk, p1)" "bk \<noteq> 0"
  shows "AcquirePublishedHostHookRoute (Some q) = (RouteTo bk False, Some q) \<and>
         (\<exists>r. UninstallPublishedHostHook (Some q) = (DP_OK, Some r) \<and>
              \<not> ph_backend_installed r)"
proof -
  have p1: "control p1 = control p" "backup p1 = bk" "ph_binding p1 = Some b"
    using assms(4,5,9) call_host_hook_control [OF assms(9)]
    by (auto simp: call_host_hook_def Let_def HOST_HOOK_FAILED_RECOVERY_REQUIRED_def
        HOST_HOOK_FAILED_NEVER_PUBLISHED_def backup_ready_binding
        split: option.splits prod.splits)
  have q: "q = StoreGateState GBypassBackup
      (p1\<lparr>ph_ever_published := True, ph_backend_installed := True\<rparr>)"
    using assms(1,4,5,7-10)
    by (simp add: InstallPublishedHostHook_def HOST_HOOK_FAILED_RECOVERY_REQUIRED_def Let_def)
  have c: "control q = pack64 0 (gate_code GBypassBackup)" "backup q = bk"
    "ph_backend_installed q" "ph_binding q = Some b"
    using q p1 assms(3) by (simp_all del: gate_code.simps)
  show ?thesis
    using c assms(6)
    by (simp add: AcquirePublishedHostHookRoute_def UninstallPublishedHostHook_def
        ClosePublishedHostHook_def close_run del: gate_code.simps)
qed

theorem recovery_route_unpinned_witness:
  "\<exists>q. AcquirePublishedHostHookRoute (Some q) = (RouteTo 0x4000 False, Some q) \<and>
     (\<exists>r. UninstallPublishedHostHook (Some q) = (DP_OK, Some r))"
proof -
  let ?b = "sample_binding ([0x4000], -3) 0" and ?p = "sample_hook (sample_binding ([0x4000], -3) 0) 0 0 False"
  obtain st ob q where run: "InstallPublishedHostHook (Some ?p) True = (st, ob, Some q)"
    by (simp add: InstallPublishedHostHook_def call_host_hook_def sample_simps Let_def
        HOST_HOOK_FAILED_RECOVERY_REQUIRED_def)
  have call: "call_host_hook ?p ?b =
      (HOST_HOOK_FAILED_RECOVERY_REQUIRED, 0x4000, set_backup 0x4000 ?p)"
    by (simp add: call_host_hook_def sample_simps HOST_HOOK_FAILED_RECOVERY_REQUIRED_def)
  show ?thesis
    using recovery_route_unpinned [OF run _ _ _ _ _ _ _ call]
    by (auto simp: sample_simps hi32_def)
qed

end
