(* ===== verification/Gate_Protocol.thy ===== *)
theory Gate_Protocol
  imports Publication_Gate_Props
begin

text \<open>
  The unhook protocol of a real Dart entry hook as an interleaving of steps: any number of
  CPUs run the generated-entry gate (\<^verbatim>\<open>src/interceptor/arm64_bridge.S\<close>), the dispatcher's
  bookkeeping (\<^verbatim>\<open>BeginInvocation\<close> and \<^verbatim>\<open>InvocationExited\<close> of
  \<^verbatim>\<open>src/core/hook_registry.cpp\<close>, called from \<^verbatim>\<open>src/interceptor/callback_dispatch.cpp\<close>),
  while one owner at a time, under \<^verbatim>\<open>State().mutex\<close>, runs \<^verbatim>\<open>InstallCallbackHook\<close>'s last
  steps, \<^verbatim>\<open>UnhookRecordLocked\<close> and \<^verbatim>\<open>FinishUnhookLocked\<close>.  Each step touches one shared
  object once: the control word (through the attempts of \<^verbatim>\<open>Publication_Gate\<close>), the hook
  record under its mutex, or the physical patch.

  \<open>sys_in_flight\<close> is a natural number: one unit per executing invocation cannot reach the
  64-bit limit of the source.
\<close>

section \<open>States\<close>

datatype rec_state =
    RCreated | RInstalling | RInstalled | RUnhooking | RUnhooked | RFailed
  | RFailedAfterPublished | RRetired

text \<open>
  A CPU: elsewhere, in the gate's outer loop, in its pin loop, between the gate and the
  dispatcher (pinned), in the dispatcher with both pins, executing the invocation under
  \<open>in_flight\<close>, past the gate on the target or the backup without a pin, stopped at the
  gate's trap, after a dispatcher failure that deliberately keeps the pin, or waiting for
  the state mutex to finish a deferred unhook.
\<close>

datatype cpu =
    Away | AtGate | Pinning | Handoff | Both | Running | InTarget | InBackup | Trapped
  | Retained | RetainedBoth | Finishing

datatype owner =
    OInstalling | OPublished | OArm | OFree | ODrain | OCheck | OFinish | OFDrain | OFCheck1
  | OFClose | OFCheck2 | OReopen | OUninstallIdle | OUninstallClose | OUninstallHook
  | OUninstallReopen | OBypass | ODone

record gate_sys =
  sys_control :: u64
  sys_in_flight :: nat
  sys_record :: rec_state
  sys_installed :: bool
  sys_cpu :: "nat \<Rightarrow> cpu"
  sys_owner :: owner

abbreviation set_cpu :: "nat \<Rightarrow> cpu \<Rightarrow> gate_sys \<Rightarrow> gate_sys" where
  "set_cpu t c s \<equiv> s\<lparr>sys_cpu := (sys_cpu s)(t := c)\<rparr>"

definition pinned :: "cpu \<Rightarrow> bool" where
  "pinned c \<longleftrightarrow> c \<in> {Handoff, Both, Retained, RetainedBoth}"

definition counted :: "cpu \<Rightarrow> bool" where
  "counted c \<longleftrightarrow> c \<in> {Both, Running, RetainedBoth}"

text \<open>The CPUs that may still branch through the host's original trampoline.\<close>

definition uses_backup :: "cpu \<Rightarrow> bool" where
  "uses_backup c \<longleftrightarrow> c \<in> {Handoff, Both, Running, Retained, RetainedBoth, InBackup}"

section \<open>The gate stub and the dispatcher\<close>

definition gate_look :: "u64 \<Rightarrow> cpu" where
  "gate_look c =
     (case LoadGateState c of
        Some GInstalling \<Rightarrow> AtGate
      | Some GClosed \<Rightarrow> AtGate
      | Some GBypassTarget \<Rightarrow> InTarget
      | Some GBypassBackup \<Rightarrow> InBackup
      | Some GArmed \<Rightarrow> Pinning
      | Some GDraining \<Rightarrow> Pinning
      | _ \<Rightarrow> Trapped)"

fun pin_target :: "pin_result \<Rightarrow> cpu" where
  "pin_target Pinned = Handoff"
| "pin_target PinRetry = AtGate"
| "pin_target PinOverflow = Trapped"

text \<open>Whether \<open>BeginInvocation\<close> admits a CPU that reached the dispatcher.\<close>

definition begin_admits :: "rec_state \<Rightarrow> bool \<Rightarrow> bool" where
  "begin_admits rec installed \<longleftrightarrow>
     rec \<notin> {RRetired, RUnhooked, RInstalling} \<and> (rec = RFailed \<longrightarrow> installed)"

inductive cpu_step :: "gate_sys \<Rightarrow> gate_sys \<Rightarrow> bool" where
  fetch: "sys_cpu s t = Away \<Longrightarrow> cpu_step s (set_cpu t AtGate s)"
| look: "sys_cpu s t = AtGate \<Longrightarrow> cpu_step s (set_cpu t (gate_look (sys_control s)) s)"
| pin: "sys_cpu s t = Pinning \<Longrightarrow> run_attempt pin_attempt (sys_control s) = (c, r) \<Longrightarrow>
    cpu_step s (set_cpu t (pin_target r) (s\<lparr>sys_control := c\<rparr>))"
| admitted: "sys_cpu s t = Handoff \<Longrightarrow> begin_admits (sys_record s) (sys_installed s) \<Longrightarrow>
    cpu_step s (set_cpu t Both (s\<lparr>sys_in_flight := sys_in_flight s + 1\<rparr>))"
| refused_retained: "sys_cpu s t = Handoff \<Longrightarrow>
    \<not> begin_admits (sys_record s) (sys_installed s) \<Longrightarrow> sys_installed s \<Longrightarrow>
    cpu_step s (set_cpu t Retained s)"
| refused_released: "sys_cpu s t = Handoff \<Longrightarrow>
    \<not> begin_admits (sys_record s) (sys_installed s) \<Longrightarrow> \<not> sys_installed s \<Longrightarrow>
    run_attempt release_attempt (sys_control s) = (c, u) \<Longrightarrow>
    cpu_step s (set_cpu t InBackup (s\<lparr>sys_control := c\<rparr>))"
| no_storage: "sys_cpu s t = Handoff \<Longrightarrow> cpu_step s (set_cpu t Retained s)"
| setup_failed: "sys_cpu s t = Both \<Longrightarrow> cpu_step s (set_cpu t RetainedBoth s)"
| release: "sys_cpu s t = Both \<Longrightarrow>
    run_attempt release_attempt (sys_control s) = (c, u) \<Longrightarrow>
    cpu_step s (set_cpu t Running (s\<lparr>sys_control := c\<rparr>))"
| exited: "sys_cpu s t = Running \<Longrightarrow>
    n = (if sys_in_flight s \<noteq> 0 then sys_in_flight s - 1 else sys_in_flight s) \<Longrightarrow>
    cpu_step s
      (set_cpu t (if n = 0 \<and> sys_record s = RUnhooking then Finishing else Away)
         (s\<lparr>sys_in_flight := n\<rparr>))"
| target_returns: "sys_cpu s t = InTarget \<Longrightarrow> cpu_step s (set_cpu t Away s)"
| backup_returns: "sys_cpu s t = InBackup \<Longrightarrow> cpu_step s (set_cpu t Away s)"
| finish_starts: "sys_cpu s t = Finishing \<Longrightarrow> sys_owner s = OFree \<Longrightarrow>
    sys_record s = RUnhooking \<Longrightarrow> cpu_step s (set_cpu t Away (s\<lparr>sys_owner := OFinish\<rparr>))"
| finish_skipped: "sys_cpu s t = Finishing \<Longrightarrow> sys_owner s = OFree \<Longrightarrow>
    sys_record s \<noteq> RUnhooking \<Longrightarrow> cpu_step s (set_cpu t Away s)"

section \<open>The owner\<close>

text \<open>
  \<open>start_unhook\<close> to \<open>unhook_go\<close> are \<open>UnhookRecordLocked\<close>, \<open>finish_gated\<close> to
  \<open>finish_fail\<close> are \<open>FinishUnhookLocked\<close> with \<open>UninstallPublishedHostHook\<close> written
  out between \<open>uninstall_idle\<close> and \<open>bypass\<close>.
\<close>

inductive owner_step :: "gate_sys \<Rightarrow> gate_sys \<Rightarrow> bool" where
  host_hook: "sys_owner s = OInstalling \<Longrightarrow>
    owner_step s (s\<lparr>sys_installed := True, sys_owner := OPublished\<rparr>)"
| record_installed: "sys_owner s = OPublished \<Longrightarrow>
    owner_step s (s\<lparr>sys_record := RInstalled, sys_owner := OArm\<rparr>)"
| arm: "sys_owner s = OArm \<Longrightarrow>
    owner_step s (s\<lparr>sys_control := fst (run_attempt (store_attempt GArmed) (sys_control s)),
                    sys_owner := OFree\<rparr>)"
| start_unhook: "sys_owner s = OFree \<Longrightarrow>
    sys_record s \<notin> {RUnhooked, RRetired, RUnhooking} \<Longrightarrow>
    owner_step s (s\<lparr>sys_record := RUnhooking,
                    sys_owner := (if sys_installed s then ODrain else OCheck)\<rparr>)"
| unhook_drain: "sys_owner s = ODrain \<Longrightarrow>
    owner_step s (s\<lparr>sys_control := fst (run_attempt begin_drain_attempt (sys_control s)),
                    sys_owner := OCheck\<rparr>)"
| unhook_defer: "sys_owner s = OCheck \<Longrightarrow> sys_in_flight s \<noteq> 0 \<Longrightarrow>
    owner_step s (s\<lparr>sys_owner := OFree\<rparr>)"
| unhook_go: "sys_owner s = OCheck \<Longrightarrow> sys_in_flight s = 0 \<Longrightarrow>
    owner_step s (s\<lparr>sys_owner := OFinish\<rparr>)"
| finish_gated: "sys_owner s = OFinish \<Longrightarrow> sys_installed s \<Longrightarrow>
    owner_step s (s\<lparr>sys_owner := OFDrain\<rparr>)"
| finish_ungated: "sys_owner s = OFinish \<Longrightarrow> \<not> sys_installed s \<Longrightarrow>
    owner_step s (s\<lparr>sys_owner := ODone\<rparr>)"
| finish_drain: "sys_owner s = OFDrain \<Longrightarrow>
    owner_step s (s\<lparr>sys_control := fst (run_attempt begin_drain_attempt (sys_control s)),
                    sys_owner := OFCheck1\<rparr>)"
| finish_check1: "sys_owner s = OFCheck1 \<Longrightarrow>
    owner_step s (s\<lparr>sys_owner := (if sys_in_flight s \<noteq> 0 then OFree else OFClose)\<rparr>)"
| finish_close: "sys_owner s = OFClose \<Longrightarrow>
    run_attempt close_attempt (sys_control s) = (c, closed) \<Longrightarrow>
    owner_step s (s\<lparr>sys_control := c, sys_owner := (if closed then OFCheck2 else OFree)\<rparr>)"
| finish_check2: "sys_owner s = OFCheck2 \<Longrightarrow>
    owner_step s (s\<lparr>sys_owner := (if sys_in_flight s \<noteq> 0 then OReopen else OUninstallIdle)\<rparr>)"
| finish_reopen: "sys_owner s = OReopen \<Longrightarrow>
    owner_step s (s\<lparr>sys_control := fst (run_attempt reopen_attempt (sys_control s)),
                    sys_owner := OFree\<rparr>)"
| uninstall_idle: "sys_owner s = OUninstallIdle \<Longrightarrow> hi32 (sys_control s) = 0 \<Longrightarrow>
    owner_step s (s\<lparr>sys_owner := OUninstallClose\<rparr>)"
| uninstall_busy: "sys_owner s = OUninstallIdle \<Longrightarrow> hi32 (sys_control s) \<noteq> 0 \<Longrightarrow>
    owner_step s (s\<lparr>sys_record := RFailed, sys_owner := OFree\<rparr>)"
| uninstall_close: "sys_owner s = OUninstallClose \<Longrightarrow>
    run_attempt close_attempt (sys_control s) = (c, True) \<Longrightarrow>
    owner_step s (s\<lparr>sys_control := c, sys_owner := OUninstallHook\<rparr>)"
| uninstall_not_closed: "sys_owner s = OUninstallClose \<Longrightarrow>
    run_attempt close_attempt (sys_control s) = (c, False) \<Longrightarrow>
    owner_step s (s\<lparr>sys_control := c, sys_record := RFailed, sys_owner := OFree\<rparr>)"
| host_unhook: "sys_owner s = OUninstallHook \<Longrightarrow>
    owner_step s (s\<lparr>sys_installed := False, sys_owner := OBypass\<rparr>)"
| host_unhook_fails: "sys_owner s = OUninstallHook \<Longrightarrow>
    owner_step s (s\<lparr>sys_owner := OUninstallReopen\<rparr>)"
| uninstall_reopen: "sys_owner s = OUninstallReopen \<Longrightarrow>
    owner_step s (s\<lparr>sys_control := fst (run_attempt reopen_attempt (sys_control s)),
                    sys_record := RFailed, sys_owner := OFree\<rparr>)"
| bypass: "sys_owner s = OBypass \<Longrightarrow>
    owner_step s (s\<lparr>sys_control :=
                      fst (run_attempt (store_attempt GBypassTarget) (sys_control s)),
                    sys_owner := ODone\<rparr>)"
| finish_ok: "sys_owner s = ODone \<Longrightarrow>
    owner_step s (s\<lparr>sys_record := RUnhooked, sys_owner := OFree\<rparr>)"
| finish_fail: "sys_owner s = ODone \<Longrightarrow>
    owner_step s (s\<lparr>sys_record := RFailed, sys_owner := OFree\<rparr>)"

inductive gate_step :: "gate_sys \<Rightarrow> gate_sys \<Rightarrow> bool" where
  cpu_moves: "cpu_step s s' \<Longrightarrow> gate_step s s'"
| owner_moves: "owner_step s s' \<Longrightarrow> gate_step s s'"

definition gate_init :: gate_sys where
  "gate_init = \<lparr>sys_control = EncodeGateControl GInstalling 0, sys_in_flight = 0,
     sys_record = RInstalling, sys_installed = False, sys_cpu = (\<lambda>_. Away),
     sys_owner = OInstalling\<rparr>"

inductive gate_reachable :: "gate_sys \<Rightarrow> bool" where
  start: "gate_reachable gate_init"
| step: "gate_reachable s \<Longrightarrow> gate_step s s' \<Longrightarrow> gate_reachable s'"

section \<open>The invariant\<close>

text \<open>
  What the owner's program point says of the gate's state, the physical patch, the hook
  record, the number of pins and of running invocations, and whether some CPU is waiting
  to finish the unhook.
\<close>

definition idle_inv :: "gate_state option \<Rightarrow> bool \<Rightarrow> rec_state \<Rightarrow> nat \<Rightarrow> nat \<Rightarrow> bool \<Rightarrow> bool" where
  "idle_inv g ins rec pins run fin \<longleftrightarrow>
     ins \<and> g = Some GArmed \<and> rec = RInstalled \<or>
     ins \<and> g = Some GDraining \<and> rec = RFailed \<or>
     ins \<and> g = Some GDraining \<and> rec = RUnhooking \<and> (0 < pins \<or> 0 < run \<or> fin) \<or>
     \<not> ins \<and> g = Some GBypassTarget \<and> rec \<in> {RUnhooked, RFailed} \<and> pins = 0 \<and> run = 0"

fun owner_inv ::
  "owner \<Rightarrow> gate_state option \<Rightarrow> bool \<Rightarrow> rec_state \<Rightarrow> nat \<Rightarrow> nat \<Rightarrow> bool \<Rightarrow> bool"
where
  "owner_inv OInstalling g ins rec pins run fin \<longleftrightarrow>
     \<not> ins \<and> g = Some GInstalling \<and> rec = RInstalling \<and> pins = 0 \<and> run = 0"
| "owner_inv OPublished g ins rec pins run fin \<longleftrightarrow>
     ins \<and> g = Some GInstalling \<and> rec = RInstalling \<and> pins = 0 \<and> run = 0"
| "owner_inv OArm g ins rec pins run fin \<longleftrightarrow>
     ins \<and> g = Some GInstalling \<and> rec = RInstalled \<and> pins = 0 \<and> run = 0"
| "owner_inv OFree g ins rec pins run fin \<longleftrightarrow> idle_inv g ins rec pins run fin"
| "owner_inv ODrain g ins rec pins run fin \<longleftrightarrow>
     ins \<and> g \<in> {Some GArmed, Some GDraining} \<and> rec = RUnhooking"
| "owner_inv OCheck g ins rec pins run fin \<longleftrightarrow>
     rec = RUnhooking \<and> (ins \<and> g = Some GDraining \<or>
       \<not> ins \<and> g = Some GBypassTarget \<and> pins = 0 \<and> run = 0)"
| "owner_inv OFinish g ins rec pins run fin \<longleftrightarrow>
     rec = RUnhooking \<and> (ins \<and> g = Some GDraining \<or>
       \<not> ins \<and> g = Some GBypassTarget \<and> pins = 0 \<and> run = 0)"
| "owner_inv OFDrain g ins rec pins run fin \<longleftrightarrow> ins \<and> g = Some GDraining \<and> rec = RUnhooking"
| "owner_inv OFCheck1 g ins rec pins run fin \<longleftrightarrow> ins \<and> g = Some GDraining \<and> rec = RUnhooking"
| "owner_inv OFClose g ins rec pins run fin \<longleftrightarrow> ins \<and> g = Some GDraining \<and> rec = RUnhooking"
| "owner_inv OFCheck2 g ins rec pins run fin \<longleftrightarrow>
     ins \<and> g = Some GClosed \<and> rec = RUnhooking \<and> pins = 0"
| "owner_inv OReopen g ins rec pins run fin \<longleftrightarrow>
     ins \<and> g = Some GClosed \<and> rec = RUnhooking \<and> pins = 0 \<and> (0 < run \<or> fin)"
| "owner_inv OUninstallIdle g ins rec pins run fin \<longleftrightarrow>
     ins \<and> g = Some GClosed \<and> rec = RUnhooking \<and> pins = 0 \<and> run = 0"
| "owner_inv OUninstallClose g ins rec pins run fin \<longleftrightarrow>
     ins \<and> g = Some GClosed \<and> rec = RUnhooking \<and> pins = 0 \<and> run = 0"
| "owner_inv OUninstallHook g ins rec pins run fin \<longleftrightarrow>
     ins \<and> g = Some GClosed \<and> rec = RUnhooking \<and> pins = 0 \<and> run = 0"
| "owner_inv OUninstallReopen g ins rec pins run fin \<longleftrightarrow>
     ins \<and> g = Some GClosed \<and> rec = RUnhooking \<and> pins = 0 \<and> run = 0"
| "owner_inv OBypass g ins rec pins run fin \<longleftrightarrow>
     \<not> ins \<and> g = Some GClosed \<and> rec = RUnhooking \<and> pins = 0 \<and> run = 0"
| "owner_inv ODone g ins rec pins run fin \<longleftrightarrow>
     \<not> ins \<and> g = Some GBypassTarget \<and> rec = RUnhooking \<and> pins = 0 \<and> run = 0"

definition gate_inv :: "gate_sys \<Rightarrow> bool" where
  "gate_inv s \<longleftrightarrow>
     finite_at pinned (sys_cpu s) \<and> finite_at counted (sys_cpu s) \<and>
     unat (hi32 (sys_control s)) = count_at pinned (sys_cpu s) \<and>
     sys_in_flight s = count_at counted (sys_cpu s) \<and>
     (\<forall>t. sys_cpu s t \<noteq> InBackup) \<and>
     owner_inv (sys_owner s) (LoadGateState (sys_control s)) (sys_installed s) (sys_record s)
       (count_at pinned (sys_cpu s)) (sys_in_flight s) (\<exists>t. sys_cpu s t = Finishing)"


section \<open>Every step keeps the invariant\<close>

lemma pinned_simps [simp]:
  "pinned Handoff" "pinned Both" "pinned Retained" "pinned RetainedBoth"
  "\<not> pinned Away" "\<not> pinned AtGate" "\<not> pinned Pinning" "\<not> pinned Running"
  "\<not> pinned InTarget" "\<not> pinned InBackup" "\<not> pinned Trapped" "\<not> pinned Finishing"
  by (simp_all add: pinned_def)

lemma counted_simps [simp]:
  "counted Both" "counted Running" "counted RetainedBoth"
  "\<not> counted Away" "\<not> counted AtGate" "\<not> counted Pinning" "\<not> counted Handoff"
  "\<not> counted Retained" "\<not> counted InTarget" "\<not> counted InBackup" "\<not> counted Trapped"
  "\<not> counted Finishing"
  by (simp_all add: counted_def)

lemma gate_invD:
  assumes "gate_inv s"
  shows "finite_at pinned (sys_cpu s)" "finite_at counted (sys_cpu s)"
    "unat (hi32 (sys_control s)) = count_at pinned (sys_cpu s)"
    "sys_in_flight s = count_at counted (sys_cpu s)" "sys_cpu s t \<noteq> InBackup"
    "owner_inv (sys_owner s) (LoadGateState (sys_control s)) (sys_installed s) (sys_record s)
       (count_at pinned (sys_cpu s)) (sys_in_flight s) (\<exists>t. sys_cpu s t = Finishing)"
  using assms by (auto simp: gate_inv_def)

lemma owner_inv_defined: "owner_inv ow g ins rec pins run fin \<Longrightarrow> g \<noteq> None"
  by (cases ow) (auto simp: idle_inv_def)

lemma owner_inv_uninstalled:
  "owner_inv ow g False rec pins run fin \<Longrightarrow> pins = 0 \<and> run = 0"
  by (cases ow) (auto simp: idle_inv_def)

lemma owner_inv_state:
  "owner_inv ow g ins rec pins run fin \<Longrightarrow>
     g \<in> {Some GInstalling, Some GArmed, Some GDraining, Some GBypassTarget, Some GClosed}"
  by (cases ow) (auto simp: idle_inv_def)

text \<open>Pins and invocations only appear while the patch is live.\<close>

lemma owner_inv_mono:
  assumes "owner_inv ow g ins rec pins run fin"
    and "pins = 0 \<Longrightarrow> pins' = 0 \<or> g = Some GArmed \<or> g = Some GDraining"
    and "run = 0 \<Longrightarrow> run' = 0 \<or> 0 < pins"
    and "rec = RUnhooking \<Longrightarrow> 0 < pins \<or> 0 < run \<or> fin \<Longrightarrow> 0 < pins' \<or> 0 < run' \<or> fin'"
    and "rec = RUnhooking \<Longrightarrow> pins = 0 \<Longrightarrow> 0 < run \<or> fin \<Longrightarrow> 0 < run' \<or> fin'"
  shows "owner_inv ow g ins rec pins' run' fin'"
  using assms by (cases ow) (auto simp: idle_inv_def)

lemma pin_attempt_run:
  assumes "LoadGateState c \<in> {Some GArmed, Some GDraining}" "hi32 c \<noteq> 0xffffffff"
  shows "run_attempt pin_attempt c = (pack64 (hi32 c + 1) (lo32 c), Pinned)"
  using assms by (auto simp: run_attempt_def pin_attempt_eq)

lemma LoadGateState_same_low [simp]: "LoadGateState (pack64 e (lo32 c)) = LoadGateState c"
  by (simp add: LoadGateState_alt)

lemma ex_finishing_upd:
  "f t \<noteq> Finishing \<Longrightarrow>
     (\<exists>u. (f(t := x)) u = Finishing) \<longleftrightarrow> x = Finishing \<or> (\<exists>u. f u = Finishing)"
  by (metis fun_upd_apply)

text \<open>
  One CPU moves: the counts follow by \<open>count_at_upd\<close>, so a step is done once the owner's
  part of the invariant survives the new counts.
\<close>

lemma gate_inv_move:
  assumes inv: "gate_inv s" and x: "x \<noteq> InBackup" "sys_cpu s t \<noteq> Finishing"
    and pins: "unat (hi32 c) = count_at pinned ((sys_cpu s)(t := x))"
    and run: "n = count_at counted ((sys_cpu s)(t := x))"
    and low: "LoadGateState c = LoadGateState (sys_control s)"
    and own: "owner_inv (sys_owner s) (LoadGateState (sys_control s)) (sys_installed s)
       (sys_record s) (count_at pinned ((sys_cpu s)(t := x))) n
       (x = Finishing \<or> (\<exists>u. sys_cpu s u = Finishing))"
  shows "gate_inv (s\<lparr>sys_control := c, sys_in_flight := n,
                     sys_cpu := (sys_cpu s)(t := x)\<rparr>)"
  using inv x pins run low own
  by (simp add: gate_inv_def ex_finishing_upd [of "sys_cpu s" t, OF x(2)] del: fun_upd_apply)
    (auto simp: gate_inv_def)

text \<open>Moves that touch neither the word nor the invocation count.\<close>

lemma gate_inv_move_quiet:
  assumes inv: "gate_inv s" and x: "x \<noteq> InBackup" "x \<noteq> Finishing" "sys_cpu s t \<noteq> Finishing"
    and same: "pinned x = pinned (sys_cpu s t)" "counted x = counted (sys_cpu s t)"
  shows "gate_inv (set_cpu t x s)"
proof -
  note I = gate_invD [OF inv]
  have cnt: "count_at pinned ((sys_cpu s)(t := x)) = count_at pinned (sys_cpu s)"
    "count_at counted ((sys_cpu s)(t := x)) = count_at counted (sys_cpu s)"
    using I(1,2) same by (simp_all add: count_at_upd)
  have "gate_inv (s\<lparr>sys_control := sys_control s, sys_in_flight := sys_in_flight s,
                     sys_cpu := (sys_cpu s)(t := x)\<rparr>)"
    by (rule gate_inv_move [OF inv x(1,3)]) (use I(3,4,6) x(2) cnt in simp_all)
  then show ?thesis by simp
qed

lemma pin_keeps_inv:
  assumes inv: "gate_inv s" and t: "sys_cpu s t = Pinning"
    and run: "run_attempt pin_attempt (sys_control s) = (c, r)"
  shows "gate_inv (set_cpu t (pin_target r) (s\<lparr>sys_control := c\<rparr>))"
proof (cases "r = Pinned")
  case True
  note I = gate_invD [OF inv]
  from True run have c: "c = pack64 (hi32 (sys_control s) + 1) (lo32 (sys_control s))"
    and g: "LoadGateState (sys_control s) \<in> {Some GArmed, Some GDraining}"
    and m: "hi32 (sys_control s) \<noteq> 0xffffffff"
    by (auto simp: run_attempt_def pin_attempt_eq split: if_splits)
  have cnt: "count_at pinned ((sys_cpu s)(t := Handoff)) = count_at pinned (sys_cpu s) + 1"
    "count_at counted ((sys_cpu s)(t := Handoff)) = count_at counted (sys_cpu s)"
    using I(1,2) t by (simp_all add: count_at_upd)
  have own: "owner_inv (sys_owner s) (LoadGateState (sys_control s)) (sys_installed s)
      (sys_record s) (count_at pinned (sys_cpu s) + 1) (sys_in_flight s)
      (\<exists>t. sys_cpu s t = Finishing)"
    by (rule owner_inv_mono [OF I(6)]) (use g in auto)
  have "gate_inv (s\<lparr>sys_control := c, sys_in_flight := sys_in_flight s,
                     sys_cpu := (sys_cpu s)(t := Handoff)\<rparr>)"
    by (rule gate_inv_move [OF inv]) (use I(3,4) own t c cnt unat_inc32 [OF m] in simp_all)
  with True show ?thesis by simp
next
  case False
  with run have "c = sys_control s" "r = PinRetry \<or> r = PinOverflow"
    by (auto simp: run_attempt_def pin_attempt_eq split: if_splits)
  then show ?thesis
    using gate_inv_move_quiet [OF inv, of AtGate t] gate_inv_move_quiet [OF inv, of Trapped t] t
    by auto
qed

lemma admitted_keeps_inv:
  assumes inv: "gate_inv s" and t: "sys_cpu s t = Handoff"
  shows "gate_inv (set_cpu t Both (s\<lparr>sys_in_flight := sys_in_flight s + 1\<rparr>))"
proof -
  note I = gate_invD [OF inv]
  have pos: "0 < count_at pinned (sys_cpu s)"
    using I(1) t by (auto intro!: count_at_pos [where t = t])
  have cnt: "count_at pinned ((sys_cpu s)(t := Both)) = count_at pinned (sys_cpu s)"
    "count_at counted ((sys_cpu s)(t := Both)) = count_at counted (sys_cpu s) + 1"
    using I(1,2) t by (simp_all add: count_at_upd)
  have own: "owner_inv (sys_owner s) (LoadGateState (sys_control s)) (sys_installed s)
      (sys_record s) (count_at pinned (sys_cpu s)) (sys_in_flight s + 1)
      (\<exists>t. sys_cpu s t = Finishing)"
    by (rule owner_inv_mono [OF I(6)]) (use pos in auto)
  have "gate_inv (s\<lparr>sys_control := sys_control s, sys_in_flight := sys_in_flight s + 1,
                     sys_cpu := (sys_cpu s)(t := Both)\<rparr>)"
    by (rule gate_inv_move [OF inv]) (use I(3,4) own t cnt in simp_all)
  then show ?thesis by simp
qed

lemma release_keeps_inv:
  assumes inv: "gate_inv s" and t: "sys_cpu s t = Both"
    and run: "run_attempt release_attempt (sys_control s) = (c, u)"
  shows "gate_inv (set_cpu t Running (s\<lparr>sys_control := c\<rparr>))"
proof -
  note I = gate_invD [OF inv]
  have pos: "0 < count_at pinned (sys_cpu s)" "0 < count_at counted (sys_cpu s)"
    using I(1,2) t by (auto intro!: count_at_pos [where t = t])
  then have hi: "hi32 (sys_control s) \<noteq> 0" using I(3) by auto
  then have c: "c = pack64 (hi32 (sys_control s) - 1) (lo32 (sys_control s))"
    using run by (simp add: run_attempt_def release_attempt_eq)
  have cnt: "count_at pinned ((sys_cpu s)(t := Running)) = count_at pinned (sys_cpu s) - 1"
    "count_at counted ((sys_cpu s)(t := Running)) = count_at counted (sys_cpu s)"
    using I(1,2) t by (simp_all add: count_at_upd)
  have own: "owner_inv (sys_owner s) (LoadGateState (sys_control s)) (sys_installed s)
      (sys_record s) (count_at pinned (sys_cpu s) - 1) (sys_in_flight s)
      (\<exists>t. sys_cpu s t = Finishing)"
    by (rule owner_inv_mono [OF I(6)]) (use pos I(4) in auto)
  have "gate_inv (s\<lparr>sys_control := c, sys_in_flight := sys_in_flight s,
                     sys_cpu := (sys_cpu s)(t := Running)\<rparr>)"
    by (rule gate_inv_move [OF inv]) (use I(3,4) own t c cnt unat_dec32 [OF hi] in simp_all)
  then show ?thesis by simp
qed

lemma exited_keeps_inv:
  assumes inv: "gate_inv s" and t: "sys_cpu s t = Running"
    and x: "x = (if sys_in_flight s - 1 = 0 \<and> sys_record s = RUnhooking then Finishing else Away)"
  shows "gate_inv (set_cpu t x (s\<lparr>sys_in_flight := sys_in_flight s - 1\<rparr>))"
proof -
  note I = gate_invD [OF inv]
  have pos: "0 < count_at counted (sys_cpu s)"
    using I(2) t by (auto intro!: count_at_pos [where t = t])
  have nx: "\<not> pinned x" "\<not> counted x" "x \<noteq> InBackup" using x by (auto split: if_splits)
  have cnt: "count_at pinned ((sys_cpu s)(t := x)) = count_at pinned (sys_cpu s)"
    "count_at counted ((sys_cpu s)(t := x)) = count_at counted (sys_cpu s) - 1"
    using I(1,2) t nx by (simp_all add: count_at_upd)
  have own: "owner_inv (sys_owner s) (LoadGateState (sys_control s)) (sys_installed s)
      (sys_record s) (count_at pinned (sys_cpu s)) (sys_in_flight s - 1)
      (x = Finishing \<or> (\<exists>t. sys_cpu s t = Finishing))"
    by (rule owner_inv_mono [OF I(6)]) (use x in \<open>auto split: if_splits\<close>)
  have "gate_inv (s\<lparr>sys_control := sys_control s, sys_in_flight := sys_in_flight s - 1,
                     sys_cpu := (sys_cpu s)(t := x)\<rparr>)"
    by (rule gate_inv_move [OF inv nx(3)]) (use I(3,4) own t cnt in simp_all)
  then show ?thesis by simp
qed

lemma finishing_leaves_inv:
  assumes inv: "gate_inv s" and t: "sys_cpu s t = Finishing"
    and own: "owner_inv ow (LoadGateState (sys_control s)) (sys_installed s) (sys_record s)
       (count_at pinned (sys_cpu s)) (sys_in_flight s)
       (\<exists>u. ((sys_cpu s)(t := Away)) u = Finishing)"
  shows "gate_inv (set_cpu t Away (s\<lparr>sys_owner := ow\<rparr>))"
proof -
  note I = gate_invD [OF inv]
  have "count_at pinned ((sys_cpu s)(t := Away)) = count_at pinned (sys_cpu s)"
    "count_at counted ((sys_cpu s)(t := Away)) = count_at counted (sys_cpu s)"
    using I(1,2) t by (simp_all add: count_at_upd)
  with own inv show ?thesis
    by (simp add: gate_inv_def del: fun_upd_apply) auto
qed


lemma cpu_step_keeps_inv:
  assumes "cpu_step s s'" "gate_inv s"
  shows "gate_inv s'"
  using assms
proof (cases rule: cpu_step.cases)
  case (look t)
  have "gate_look (sys_control s) \<in> {AtGate, InTarget, Pinning}"
    using owner_inv_state [OF gate_invD(6) [OF assms(2)]]
    by (auto simp: gate_look_def)
  with look gate_inv_move_quiet [OF assms(2), of "gate_look (sys_control s)" t]
  show ?thesis by auto
next
  case (refused_released t c u)
  have "0 < count_at pinned (sys_cpu s)"
    using refused_released gate_invD(1) [OF assms(2)] by (auto intro!: count_at_pos [where t = t])
  then show ?thesis
    using owner_inv_uninstalled gate_invD(6) [OF assms(2)] refused_released by fastforce
next
  case (exited t n)
  then have "n = sys_in_flight s - 1" by simp
  with exited show ?thesis
    using exited_keeps_inv [OF assms(2), of t] by simp
next
  case (finish_starts t)
  then show ?thesis
    using finishing_leaves_inv [OF assms(2), of t OFinish] gate_invD(6) [OF assms(2)]
    by (auto simp: idle_inv_def)
next
  case (finish_skipped t)
  then have "gate_inv (set_cpu t Away (s\<lparr>sys_owner := OFree\<rparr>))"
    using finishing_leaves_inv [OF assms(2), of t OFree] gate_invD(6) [OF assms(2)]
    by (auto simp: idle_inv_def)
  moreover have "s\<lparr>sys_owner := OFree\<rparr> = s" using finish_skipped by (cases s) simp
  ultimately show ?thesis using finish_skipped by simp
next
  case (backup_returns t)
  then show ?thesis using gate_invD(5) [OF assms(2)] by blast
next
  case (pin t c r)
  then show ?thesis using pin_keeps_inv [OF assms(2)] by simp
next
  case (admitted t)
  then show ?thesis using admitted_keeps_inv [OF assms(2)] by simp
next
  case (release t c u)
  then show ?thesis using release_keeps_inv [OF assms(2)] by simp
qed (use assms(2) in \<open>auto intro: gate_inv_move_quiet\<close>)

text \<open>The owner's steps do not move a CPU.\<close>

lemma owner_move_inv:
  assumes "gate_inv s" "sys_cpu s' = sys_cpu s" "sys_in_flight s' = sys_in_flight s"
    and "hi32 (sys_control s') = hi32 (sys_control s)"
    and "owner_inv (sys_owner s') (LoadGateState (sys_control s')) (sys_installed s')
       (sys_record s') (count_at pinned (sys_cpu s)) (sys_in_flight s)
       (\<exists>t. sys_cpu s t = Finishing)"
  shows "gate_inv s'"
  using assms by (simp add: gate_inv_def)

lemma no_pins: "gate_inv s \<Longrightarrow> count_at pinned (sys_cpu s) = 0 \<longleftrightarrow> hi32 (sys_control s) = 0"
  using gate_invD(3) [of s] by (metis unat_eq_0)

lemma owner_step_keeps_inv:
  assumes "owner_step s s'" "gate_inv s"
  shows "gate_inv s'"
proof -
  let ?c = "sys_control s"
  have own: "owner_inv (sys_owner s) (LoadGateState ?c) (sys_installed s) (sys_record s)
      (count_at pinned (sys_cpu s)) (sys_in_flight s) (\<exists>t. sys_cpu s t = Finishing)"
    by (rule gate_invD(6) [OF assms(2)])
  note np = no_pins [OF assms(2)]
  have "hi32 (sys_control s') = hi32 ?c \<and>
    owner_inv (sys_owner s') (LoadGateState (sys_control s')) (sys_installed s')
      (sys_record s') (count_at pinned (sys_cpu s)) (sys_in_flight s)
      (\<exists>t. sys_cpu s t = Finishing)"
    using assms(1)
    by (cases rule: owner_step.cases)
      (use own np in \<open>auto simp: store_run begin_drain_run reopen_run close_run idle_inv_def
         simp del: gate_code.simps split: if_splits\<close>)
  moreover have "sys_cpu s' = sys_cpu s \<and> sys_in_flight s' = sys_in_flight s"
    using assms(1) by (cases rule: owner_step.cases) simp_all
  ultimately show ?thesis
    by (intro owner_move_inv [OF assms(2)]) simp_all
qed

lemma gate_inv_init: "gate_inv gate_init"
  by (simp add: gate_inv_def gate_init_def EncodeGateControl_pack64 finite_at_def count_at_def
      del: gate_code.simps)

lemma reachable_inv: "gate_reachable s \<Longrightarrow> gate_inv s"
proof (induction rule: gate_reachable.induct)
  case start
  show ?case by (rule gate_inv_init)
next
  case (step s s')
  then show ?case
    by (auto elim!: gate_step.cases intro: cpu_step_keeps_inv owner_step_keeps_inv)
qed


section \<open>Runs\<close>

text \<open>A run given by its intermediate states, for the witnesses.\<close>

lemma gate_stepI_cpu: "gate_reachable s \<Longrightarrow> cpu_step s s' \<Longrightarrow> gate_reachable s'"
  by (auto intro: gate_reachable.step cpu_moves)

lemma gate_stepI_owner: "gate_reachable s \<Longrightarrow> owner_step s s' \<Longrightarrow> gate_reachable s'"
  by (auto intro: gate_reachable.step owner_moves)

definition armed_sys :: gate_sys where
  "armed_sys = gate_init\<lparr>sys_control := EncodeGateControl GArmed 0, sys_installed := True,
     sys_record := RInstalled, sys_owner := OFree\<rparr>"

lemma armed_reachable: "gate_reachable armed_sys"
proof -
  have 1: "gate_reachable (gate_init\<lparr>sys_installed := True, sys_owner := OPublished\<rparr>)"
    by (rule gate_stepI_owner [OF gate_reachable.start owner_step.host_hook])
      (simp add: gate_init_def)
  have 2: "gate_reachable (gate_init\<lparr>sys_installed := True, sys_record := RInstalled,
      sys_owner := OArm\<rparr>)"
    by (rule gate_stepI_owner [OF 1, of "gate_init\<lparr>sys_installed := True,
        sys_record := RInstalled, sys_owner := OArm\<rparr>", simplified])
      (use owner_step.record_installed
         [of "gate_init\<lparr>sys_installed := True, sys_owner := OPublished\<rparr>"] in simp)
  show ?thesis
    by (rule gate_stepI_owner [OF 2])
      (use owner_step.arm [of "gate_init\<lparr>sys_installed := True, sys_record := RInstalled,
         sys_owner := OArm\<rparr>"] in \<open>simp add: armed_sys_def store_run gate_init_def
         EncodeGateControl_pack64 del: gate_code.simps\<close>)
qed

text \<open>The states of a run from the armed gate, by what differs from it.\<close>

definition run_at ::
  "owner \<Rightarrow> gate_state \<Rightarrow> u32 \<Rightarrow> nat \<Rightarrow> rec_state \<Rightarrow> bool \<Rightarrow> cpu \<Rightarrow> gate_sys"
where
  "run_at ow g pins n rec ins c =
     \<lparr>sys_control = EncodeGateControl g pins, sys_in_flight = n, sys_record = rec,
      sys_installed = ins, sys_cpu = (\<lambda>_. Away)(0 := c), sys_owner = ow\<rparr>"

lemma run_at_armed: "gate_reachable (run_at OFree GArmed 0 0 RInstalled True Away)"
  using armed_reachable by (simp add: run_at_def armed_sys_def gate_init_def fun_upd_idem)

lemmas run_at_simps =
  run_at_def EncodeGateControl_pack64 store_run begin_drain_run close_run pin_run

text \<open>The whole unhook of an idle hook.\<close>

lemma unhooked_reachable: "gate_reachable (run_at OFree GBypassTarget 0 0 RUnhooked False Away)"
proof -
  have "owner_step (run_at OFree GArmed 0 0 RInstalled True Away)
      (run_at ODrain GArmed 0 0 RUnhooking True Away)"
    using owner_step.start_unhook [of "run_at OFree GArmed 0 0 RInstalled True Away"]
    by (simp add: run_at_def)
  note r = gate_stepI_owner [OF run_at_armed this]
  have "owner_step (run_at ODrain GArmed 0 0 RUnhooking True Away)
      (run_at OCheck GDraining 0 0 RUnhooking True Away)"
    using owner_step.unhook_drain [of "run_at ODrain GArmed 0 0 RUnhooking True Away"]
    by (simp add: run_at_simps del: gate_code.simps)
  note r = gate_stepI_owner [OF r this]
  have "owner_step (run_at OCheck GDraining 0 0 RUnhooking True Away)
      (run_at OFinish GDraining 0 0 RUnhooking True Away)"
    using owner_step.unhook_go [of "run_at OCheck GDraining 0 0 RUnhooking True Away"]
    by (simp add: run_at_def)
  note r = gate_stepI_owner [OF r this]
  have "owner_step (run_at OFinish GDraining 0 0 RUnhooking True Away)
      (run_at OFDrain GDraining 0 0 RUnhooking True Away)"
    using owner_step.finish_gated [of "run_at OFinish GDraining 0 0 RUnhooking True Away"]
    by (simp add: run_at_def)
  note r = gate_stepI_owner [OF r this]
  have "owner_step (run_at OFDrain GDraining 0 0 RUnhooking True Away)
      (run_at OFCheck1 GDraining 0 0 RUnhooking True Away)"
    using owner_step.finish_drain [of "run_at OFDrain GDraining 0 0 RUnhooking True Away"]
    by (simp add: run_at_simps del: gate_code.simps)
  note r = gate_stepI_owner [OF r this]
  have "owner_step (run_at OFCheck1 GDraining 0 0 RUnhooking True Away)
      (run_at OFClose GDraining 0 0 RUnhooking True Away)"
    using owner_step.finish_check1 [of "run_at OFCheck1 GDraining 0 0 RUnhooking True Away"]
    by (simp add: run_at_def)
  note r = gate_stepI_owner [OF r this]
  have "owner_step (run_at OFClose GDraining 0 0 RUnhooking True Away)
      (run_at OFCheck2 GClosed 0 0 RUnhooking True Away)"
    using owner_step.finish_close [of "run_at OFClose GDraining 0 0 RUnhooking True Away"
        "pack64 0 (gate_code GClosed)" True]
    by (simp add: run_at_simps del: gate_code.simps)
  note r = gate_stepI_owner [OF r this]
  have "owner_step (run_at OFCheck2 GClosed 0 0 RUnhooking True Away)
      (run_at OUninstallIdle GClosed 0 0 RUnhooking True Away)"
    using owner_step.finish_check2 [of "run_at OFCheck2 GClosed 0 0 RUnhooking True Away"]
    by (simp add: run_at_def)
  note r = gate_stepI_owner [OF r this]
  have "owner_step (run_at OUninstallIdle GClosed 0 0 RUnhooking True Away)
      (run_at OUninstallClose GClosed 0 0 RUnhooking True Away)"
    using owner_step.uninstall_idle [of "run_at OUninstallIdle GClosed 0 0 RUnhooking True Away"]
    by (simp add: run_at_simps del: gate_code.simps)
  note r = gate_stepI_owner [OF r this]
  have "owner_step (run_at OUninstallClose GClosed 0 0 RUnhooking True Away)
      (run_at OUninstallHook GClosed 0 0 RUnhooking True Away)"
    using owner_step.uninstall_close [of "run_at OUninstallClose GClosed 0 0 RUnhooking True Away"
        "pack64 0 (gate_code GClosed)"]
    by (simp add: run_at_simps del: gate_code.simps)
  note r = gate_stepI_owner [OF r this]
  have "owner_step (run_at OUninstallHook GClosed 0 0 RUnhooking True Away)
      (run_at OBypass GClosed 0 0 RUnhooking False Away)"
    using owner_step.host_unhook [of "run_at OUninstallHook GClosed 0 0 RUnhooking True Away"]
    by (simp add: run_at_def)
  note r = gate_stepI_owner [OF r this]
  have "owner_step (run_at OBypass GClosed 0 0 RUnhooking False Away)
      (run_at ODone GBypassTarget 0 0 RUnhooking False Away)"
    using owner_step.bypass [of "run_at OBypass GClosed 0 0 RUnhooking False Away"]
    by (simp add: run_at_simps del: gate_code.simps)
  note r = gate_stepI_owner [OF r this]
  have "owner_step (run_at ODone GBypassTarget 0 0 RUnhooking False Away)
      (run_at OFree GBypassTarget 0 0 RUnhooked False Away)"
    using owner_step.finish_ok [of "run_at ODone GBypassTarget 0 0 RUnhooking False Away"]
    by (simp add: run_at_def)
  then show ?thesis by (rule gate_stepI_owner [OF r])
qed

text \<open>A CPU crosses the gate; the owner starts to unhook meanwhile and defers.\<close>

lemma handoff_reachable: "gate_reachable (run_at OFree GArmed 1 0 RInstalled True Handoff)"
proof -
  have "cpu_step (run_at OFree GArmed 0 0 RInstalled True Away)
      (run_at OFree GArmed 0 0 RInstalled True AtGate)"
    using cpu_step.fetch [of "run_at OFree GArmed 0 0 RInstalled True Away" 0]
    by (simp add: run_at_def)
  note r = gate_stepI_cpu [OF run_at_armed this]
  have "cpu_step (run_at OFree GArmed 0 0 RInstalled True AtGate)
      (run_at OFree GArmed 0 0 RInstalled True Pinning)"
    using cpu_step.look [of "run_at OFree GArmed 0 0 RInstalled True AtGate" 0]
    by (simp add: run_at_simps gate_look_def del: gate_code.simps)
  note r = gate_stepI_cpu [OF r this]
  have "cpu_step (run_at OFree GArmed 0 0 RInstalled True Pinning)
      (run_at OFree GArmed 1 0 RInstalled True Handoff)"
    using cpu_step.pin [of "run_at OFree GArmed 0 0 RInstalled True Pinning" 0
        "pack64 1 (gate_code GArmed)" Pinned]
    by (simp add: run_at_simps del: gate_code.simps)
  then show ?thesis by (rule gate_stepI_cpu [OF r])
qed

lemma deferred_reachable: "gate_reachable (run_at OFree GDraining 1 1 RUnhooking True Both)"
proof -
  have "cpu_step (run_at OFree GArmed 1 0 RInstalled True Handoff)
      (run_at OFree GArmed 1 1 RInstalled True Both)"
    using cpu_step.admitted [of "run_at OFree GArmed 1 0 RInstalled True Handoff" 0]
    by (simp add: run_at_def begin_admits_def)
  note r = gate_stepI_cpu [OF handoff_reachable this]
  have "owner_step (run_at OFree GArmed 1 1 RInstalled True Both)
      (run_at ODrain GArmed 1 1 RUnhooking True Both)"
    using owner_step.start_unhook [of "run_at OFree GArmed 1 1 RInstalled True Both"]
    by (simp add: run_at_def)
  note r = gate_stepI_owner [OF r this]
  have "owner_step (run_at ODrain GArmed 1 1 RUnhooking True Both)
      (run_at OCheck GDraining 1 1 RUnhooking True Both)"
    using owner_step.unhook_drain [of "run_at ODrain GArmed 1 1 RUnhooking True Both"]
    by (simp add: run_at_simps del: gate_code.simps)
  note r = gate_stepI_owner [OF r this]
  have "owner_step (run_at OCheck GDraining 1 1 RUnhooking True Both)
      (run_at OFree GDraining 1 1 RUnhooking True Both)"
    using owner_step.unhook_defer [of "run_at OCheck GDraining 1 1 RUnhooking True Both"]
    by (simp add: run_at_def)
  then show ?thesis by (rule gate_stepI_owner [OF r])
qed

section \<open>Properties\<close>









end
