(* ===== verification/Abi_Types.thy ===== *)
theory Abi_Types
  imports Prelude
begin

text \<open>
  The data of the Dart call ABI: machine representations
  (\<^verbatim>\<open>src/abi/representation.h\<close>), physical locations and call layouts
  (\<^verbatim>\<open>src/abi/call_layout.h\<close>), and the evidence records that the solver combines
  (\<^verbatim>\<open>src/abi/evidence.h\<close>).  Every record has the source's default-initialised value.
\<close>

section \<open>Representations\<close>

datatype representation =
    RepUnknown | RepTagged | RepUnboxedInt64 | RepUnboxedDouble | RepPairOfTagged

fun AbiRepresentationName :: "representation \<Rightarrow> string" where
  "AbiRepresentationName RepUnknown = ''unknown''"
| "AbiRepresentationName RepTagged = ''tagged''"
| "AbiRepresentationName RepUnboxedInt64 = ''unboxed-int64''"
| "AbiRepresentationName RepUnboxedDouble = ''unboxed-double''"
| "AbiRepresentationName RepPairOfTagged = ''pair-of-tagged''"

section \<open>Locations and call layouts\<close>

datatype location_kind = LocUnknown | LocGpRegister | LocFpuRegister | LocEntryStack

record abi_location =
  loc_kind :: location_kind
  loc_register_index :: u8
  loc_stack_offset :: "32 word"

definition abi_location_0 :: abi_location where
  "abi_location_0 = \<lparr>loc_kind = LocUnknown, loc_register_index = 0, loc_stack_offset = 0\<rparr>"

record value_location =
  vl_locations :: "abi_location list"
  vl_count :: u8

definition value_location_0 :: value_location where
  "value_location_0 = \<lparr>vl_locations = [abi_location_0, abi_location_0], vl_count = 0\<rparr>"

record parameter_layout =
  pl_representation :: representation
  pl_location :: value_location

definition parameter_layout_0 :: parameter_layout where
  "parameter_layout_0 = \<lparr>pl_representation = RepUnknown, pl_location = value_location_0\<rparr>"

datatype closure_formal_kind =
  FormalImplicit | FormalRequiredPositional | FormalOptionalPositional | FormalNamed

record closure_formal_layout =
  cf_signature_index :: u32
  cf_kind :: closure_formal_kind
  cf_is_required :: bool
  cf_name :: string

record closure_signature_layout =
  cs_implicit_parameter_count :: u32
  cs_fixed_parameter_count :: u32
  cs_optional_parameter_count :: u32
  cs_type_parameter_count :: u32
  cs_parent_type_argument_count :: u32
  cs_has_named_optional_parameters :: bool
  cs_formals :: "closure_formal_layout list"

record call_layout =
  cl_vm_call_profile :: ptr
  cl_vm_object_profile :: ptr
  cl_vm_artifact_generation :: u64
  cl_vm_isolate_generation :: u64
  cl_vm_semantic_observation_receipt :: bool
  cl_parameters :: "parameter_layout list"
  cl_result :: parameter_layout
  cl_stack_words :: u32
  cl_dart_sp_register :: u8
  cl_has_closure_receiver :: bool
  cl_closure_receiver_location :: abi_location
  cl_has_arguments_descriptor :: bool
  cl_arguments_descriptor_location :: abi_location
  cl_closure_signature :: "closure_signature_layout option"

definition call_layout_0 :: call_layout where
  "call_layout_0 =
     \<lparr>cl_vm_call_profile = 0, cl_vm_object_profile = 0, cl_vm_artifact_generation = 0,
      cl_vm_isolate_generation = 0, cl_vm_semantic_observation_receipt = False,
      cl_parameters = [], cl_result = parameter_layout_0, cl_stack_words = 0,
      cl_dart_sp_register = 0, cl_has_closure_receiver = False,
      cl_closure_receiver_location = abi_location_0, cl_has_arguments_descriptor = False,
      cl_arguments_descriptor_location = abi_location_0, cl_closure_signature = None\<rparr>"

datatype call_layout_status =
    LayoutOk | LayoutIncompleteEvidence | LayoutConflictingEvidence
  | LayoutUnsupportedRepresentation | LayoutOptionalArgumentsUnsupported
  | LayoutInvalidCallingConvention

section \<open>Evidence\<close>

datatype evidence_source = SrcUnknown | SrcCompilerOracle | SrcAotCodeAnalysis | SrcVerifiedFixture

fun evidence_source_code :: "evidence_source \<Rightarrow> nat" where
  "evidence_source_code SrcUnknown = 0"
| "evidence_source_code SrcCompilerOracle = 1"
| "evidence_source_code SrcAotCodeAnalysis = 2"
| "evidence_source_code SrcVerifiedFixture = 3"

definition EvidenceSourceMask :: "evidence_source \<Rightarrow> u32" where
  "EvidenceSourceMask s =
     (let v = evidence_source_code s in if v = 0 then 0 else push_bit (v - 1) 1)"

datatype proof_state = ProofUnknown | ProofProven | ProofConflicting

record slot_evidence =
  se_representation :: representation
  se_source :: evidence_source
  se_proof :: proof_state

record resolved_slot =
  rs_representation :: representation
  rs_proof :: proof_state
  rs_source_mask :: u32

definition resolved_slot_0 :: resolved_slot where
  "resolved_slot_0 = \<lparr>rs_representation = RepUnknown, rs_proof = ProofUnknown, rs_source_mask = 0\<rparr>"

record function_evidence =
  fe_parameters :: "slot_evidence list"
  fe_result :: slot_evidence
  fe_has_stack_calling_convention :: bool
  fe_must_use_stack_calling_convention :: bool
  fe_has_overrides_with_less_direct_parameters :: bool
  fe_has_optional_parameter_info :: bool
  fe_has_optional_parameters :: bool
  fe_has_max_parameters_in_registers :: bool
  fe_max_parameters_in_registers :: u32
  fe_is_closure :: bool

record abi_resolution =
  ar_parameters :: "resolved_slot list"
  ar_result :: resolved_slot
  ar_has_stack_calling_convention :: bool
  ar_must_use_stack_calling_convention :: bool
  ar_has_overrides_with_less_direct_parameters :: bool
  ar_has_optional_parameter_info :: bool
  ar_has_optional_parameters :: bool
  ar_has_max_parameters_in_registers :: bool
  ar_max_parameters_in_registers :: u32
  ar_is_closure :: bool
  ar_fully_proven :: bool
  ar_conflicting :: bool

end
