(* ===== verification/Evidence_Solver.thy ===== *)
theory Evidence_Solver
  imports Abi_Types
begin

text \<open>
  The solver of \<^verbatim>\<open>src/abi/evidence_solver.cpp\<close>: it combines the evidence of several
  providers for one logical Function, slot by slot and flag by flag, and says whether the
  Function's ABI is fully proven or conflicting.
\<close>

section \<open>One slot\<close>

definition usable_evidence :: "slot_evidence \<Rightarrow> bool" where
  "usable_evidence item \<longleftrightarrow>
     \<not> (se_proof item = ProofUnknown \<or> se_representation item = RepUnknown)"

text \<open>One iteration of the loop.\<close>

definition resolve_slot_step :: "resolved_slot \<Rightarrow> slot_evidence \<Rightarrow> resolved_slot" where
  "resolve_slot_step resolved item =
     (if \<not> usable_evidence item then resolved
      else
        let r = resolved\<lparr>rs_source_mask :=
                  rs_source_mask resolved OR EvidenceSourceMask (se_source item)\<rparr> in
        if se_proof item = ProofConflicting
        then r\<lparr>rs_representation := RepUnknown, rs_proof := ProofConflicting\<rparr>
        else if rs_proof r = ProofUnknown
        then r\<lparr>rs_representation := se_representation item, rs_proof := ProofProven\<rparr>
        else if rs_proof r = ProofProven \<and> rs_representation r \<noteq> se_representation item
        then r\<lparr>rs_representation := RepUnknown, rs_proof := ProofConflicting\<rparr>
        else r)"

definition ResolveSlotEvidence :: "slot_evidence list \<Rightarrow> resolved_slot" where
  "ResolveSlotEvidence evidence = foldl resolve_slot_step resolved_slot_0 evidence"

section \<open>One function\<close>

text \<open>
  The local variables of the provider loop: for each flag whether it was seen and its first
  value, and the result's \<open>conflicting\<close> and override flags.
\<close>

record merge_state =
  ms_stack_cc :: "bool option"
  ms_optional :: "bool option"
  ms_max_regs :: "u32 option"
  ms_closure :: "bool option"
  ms_overrides :: bool
  ms_conflicting :: bool

definition merge_state_0 :: merge_state where
  "merge_state_0 = \<lparr>ms_stack_cc = None, ms_optional = None, ms_max_regs = None,
     ms_closure = None, ms_overrides = False, ms_conflicting = False\<rparr>"

text \<open>First value seen, and whether a later one differs from it.\<close>

definition see :: "bool \<Rightarrow> 'a \<Rightarrow> 'a option \<Rightarrow> 'a option \<times> bool" where
  "see has v seen =
     (if \<not> has then (seen, False)
      else case seen of None \<Rightarrow> (Some v, False) | Some w \<Rightarrow> (seen, w \<noteq> v))"

definition merge_provider :: "merge_state \<Rightarrow> function_evidence \<Rightarrow> merge_state" where
  "merge_provider m p =
     (let (closure, c1) = see True (fe_is_closure p) (ms_closure m);
          (optional, c2) = see (fe_has_optional_parameter_info p) (fe_has_optional_parameters p)
            (ms_optional m);
          (stack_cc, c3) = see (fe_has_stack_calling_convention p)
            (fe_must_use_stack_calling_convention p) (ms_stack_cc m);
          (max_regs, c4) = see (fe_has_max_parameters_in_registers p)
            (fe_max_parameters_in_registers p) (ms_max_regs m)
      in \<lparr>ms_stack_cc = stack_cc, ms_optional = optional, ms_max_regs = max_regs,
          ms_closure = closure,
          ms_overrides = (ms_overrides m \<or> fe_has_overrides_with_less_direct_parameters p),
          ms_conflicting = (ms_conflicting m \<or> c1 \<or> c2 \<or> c3 \<or> c4)\<rparr>)"

definition parameter_evidence :: "function_evidence list \<Rightarrow> nat \<Rightarrow> slot_evidence list" where
  "parameter_evidence providers index =
     [fe_parameters p ! index. p \<leftarrow> providers, index < length (fe_parameters p)]"

definition slot_conflicting :: "resolved_slot \<Rightarrow> bool" where
  "slot_conflicting s \<longleftrightarrow> rs_proof s = ProofConflicting"

definition slot_proven :: "resolved_slot \<Rightarrow> bool" where
  "slot_proven s \<longleftrightarrow> rs_proof s = ProofProven \<and> rs_representation s \<noteq> RepUnknown"

definition ResolveFunctionAbiEvidence :: "function_evidence list \<Rightarrow> nat \<Rightarrow> abi_resolution" where
  "ResolveFunctionAbiEvidence providers parameter_count =
     (let parameters = map (\<lambda>i. ResolveSlotEvidence (parameter_evidence providers i))
            [0..<parameter_count];
          result = ResolveSlotEvidence (map fe_result providers);
          m = foldl merge_provider merge_state_0 providers;
          has_stack = ms_stack_cc m \<noteq> None \<and> \<not> ms_conflicting m;
          has_optional = ms_optional m \<noteq> None \<and> \<not> ms_conflicting m;
          has_max = ms_max_regs m \<noteq> None \<and> \<not> ms_conflicting m;
          conflicting = (ms_conflicting m \<or> list_ex slot_conflicting parameters \<or>
            slot_conflicting result)
      in \<lparr>ar_parameters = parameters, ar_result = result,
          ar_has_stack_calling_convention = has_stack,
          ar_must_use_stack_calling_convention =
            (case ms_stack_cc m of None \<Rightarrow> False | Some v \<Rightarrow> v),
          ar_has_overrides_with_less_direct_parameters = ms_overrides m,
          ar_has_optional_parameter_info = has_optional,
          ar_has_optional_parameters = (case ms_optional m of None \<Rightarrow> False | Some v \<Rightarrow> v),
          ar_has_max_parameters_in_registers = has_max,
          ar_max_parameters_in_registers = (case ms_max_regs m of None \<Rightarrow> 0 | Some v \<Rightarrow> v),
          ar_is_closure = (case ms_closure m of None \<Rightarrow> False | Some v \<Rightarrow> v),
          ar_fully_proven = (\<not> conflicting \<and> has_stack \<and> has_optional \<and> has_max \<and>
            slot_proven result \<and> list_all slot_proven parameters),
          ar_conflicting = conflicting\<rparr>)"

section \<open>What the solver computes, independently of the providers' order\<close>

text \<open>
  The specification of one slot: the usable items decide; a conflicting item or two
  different representations make the slot conflicting, otherwise they all agree.
\<close>

definition usable_reps :: "slot_evidence list \<Rightarrow> representation set" where
  "usable_reps ev = se_representation ` {e \<in> set ev. usable_evidence e}"

definition some_conflict :: "slot_evidence list \<Rightarrow> bool" where
  "some_conflict ev \<longleftrightarrow> (\<exists>e \<in> set ev. usable_evidence e \<and> se_proof e = ProofConflicting)"

definition slot_spec :: "slot_evidence list \<Rightarrow> resolved_slot \<Rightarrow> bool" where
  "slot_spec ev r \<longleftrightarrow>
     (if usable_reps ev = {} then rs_proof r = ProofUnknown \<and> rs_representation r = RepUnknown
      else if some_conflict ev \<or> (\<exists>a \<in> usable_reps ev. \<exists>b \<in> usable_reps ev. a \<noteq> b)
      then rs_proof r = ProofConflicting \<and> rs_representation r = RepUnknown
      else rs_proof r = ProofProven \<and> usable_reps ev = {rs_representation r})"

definition mask_of :: "slot_evidence list \<Rightarrow> u32" where
  "mask_of ev = fold (\<lambda>e m. if usable_evidence e then m OR EvidenceSourceMask (se_source e) else m)
     ev 0"

lemma usable_reps_simps [simp]:
  "usable_reps [] = {}"
  "usable_reps (ev @ [e]) =
     (if usable_evidence e then insert (se_representation e) (usable_reps ev) else usable_reps ev)"
  by (auto simp: usable_reps_def)

lemma some_conflict_simps [simp]:
  "\<not> some_conflict []"
  "some_conflict (ev @ [e]) \<longleftrightarrow>
     some_conflict ev \<or> usable_evidence e \<and> se_proof e = ProofConflicting"
  by (auto simp: some_conflict_def)

lemma usable_proof: "usable_evidence e \<Longrightarrow> se_proof e \<noteq> ProofConflicting \<Longrightarrow> se_proof e = ProofProven"
  by (cases "se_proof e") (auto simp: usable_evidence_def)

lemma ResolveSlotEvidence_snoc:
  "ResolveSlotEvidence (ev @ [e]) = resolve_slot_step (ResolveSlotEvidence ev) e"
  by (simp add: ResolveSlotEvidence_def)

lemma slot_spec_step:
  assumes spec: "slot_spec ev r"
  shows "slot_spec (ev @ [e]) (resolve_slot_step r e)"
proof (cases "usable_evidence e")
  case False
  then show ?thesis using spec by (simp add: slot_spec_def resolve_slot_step_def)
next
  case usable: True
  show ?thesis
  proof (cases "se_proof e = ProofConflicting")
    case True
    then show ?thesis using usable by (simp add: slot_spec_def resolve_slot_step_def)
  next
    case False
    note step = resolve_slot_step_def slot_spec_def Let_def
    show ?thesis
    proof (cases "usable_reps ev = {}")
      case True
      then have "rs_proof r = ProofUnknown" "\<not> some_conflict ev"
        using spec by (auto simp: slot_spec_def usable_reps_def some_conflict_def)
      then show ?thesis using usable False True by (simp add: step)
    next
      case seen: False
      show ?thesis
      proof (cases "rs_proof r = ProofProven")
        case True
        then have "usable_reps ev = {rs_representation r}" "\<not> some_conflict ev"
          using spec seen by (auto simp: slot_spec_def split: if_splits)
        then show ?thesis using usable False True by (auto simp: step)
      next
        case proof_r: False
        then have bad: "some_conflict ev \<or> (\<exists>a \<in> usable_reps ev. \<exists>b \<in> usable_reps ev. a \<noteq> b)"
          and r: "rs_proof r = ProofConflicting" "rs_representation r = RepUnknown"
          using spec seen by (auto simp: slot_spec_def split: if_splits)
        have "some_conflict (ev @ [e]) \<or>
            (\<exists>a \<in> usable_reps (ev @ [e]). \<exists>b \<in> usable_reps (ev @ [e]). a \<noteq> b)"
          using bad by auto
        moreover have "usable_reps (ev @ [e]) \<noteq> {}" using usable by simp
        moreover have "rs_proof (resolve_slot_step r e) = ProofConflicting"
            "rs_representation (resolve_slot_step r e) = RepUnknown"
          using usable False r by (simp_all add: resolve_slot_step_def)
        ultimately show ?thesis by (simp only: slot_spec_def if_True if_False refl simp_thms)
      qed
    qed
  qed
qed

lemma ResolveSlotEvidence_spec: "slot_spec ev (ResolveSlotEvidence ev)"
proof (induction ev rule: rev_induct)
  case Nil
  show ?case by (simp add: slot_spec_def ResolveSlotEvidence_def resolved_slot_0_def)
next
  case (snoc e ev)
  then show ?case unfolding ResolveSlotEvidence_snoc by (rule slot_spec_step)
qed

lemma ResolveSlotEvidence_mask: "rs_source_mask (ResolveSlotEvidence ev) = mask_of ev"
proof (induction ev rule: rev_induct)
  case Nil
  show ?case by (simp add: mask_of_def ResolveSlotEvidence_def resolved_slot_0_def)
next
  case (snoc e ev)
  then show ?case
    by (auto simp: mask_of_def ResolveSlotEvidence_snoc resolve_slot_step_def Let_def)
qed

lemma mask_of_bit:
  "bit (mask_of ev) k \<longleftrightarrow>
     (\<exists>e \<in> set ev. usable_evidence e \<and> bit (EvidenceSourceMask (se_source e)) k)"
proof (induction ev rule: rev_induct)
  case Nil
  show ?case by (simp add: mask_of_def)
next
  case (snoc e ev)
  have "mask_of (ev @ [e]) =
      (if usable_evidence e then mask_of ev OR EvidenceSourceMask (se_source e) else mask_of ev)"
    by (simp add: mask_of_def)
  then show ?case using snoc.IH by (auto simp: bit_or_iff)
qed

lemma mask_of_set: "set ev = set ev' \<Longrightarrow> mask_of ev = mask_of ev'"
  by (rule bit_eqI) (simp add: mask_of_bit)

lemma slot_spec_unique:
  "slot_spec ev r \<Longrightarrow> slot_spec ev r' \<Longrightarrow>
     rs_proof r = rs_proof r' \<and> rs_representation r = rs_representation r'"
  by (auto simp: slot_spec_def split: if_splits)

section \<open>The flags\<close>

definition see_all :: "(bool \<times> 'a) list \<Rightarrow> 'a option \<times> bool" where
  "see_all xs = foldl (\<lambda>(seen, c) (has, v). let (seen', c') = see has v seen in (seen', c \<or> c'))
     (None, False) xs"

definition seen_values :: "(bool \<times> 'a) list \<Rightarrow> 'a set" where
  "seen_values xs = {v. (True, v) \<in> set xs}"

definition unanimous :: "'a set \<Rightarrow> bool" where
  "unanimous S \<longleftrightarrow> (\<exists>v. S = {v})"

definition disagreement :: "'a set \<Rightarrow> bool" where
  "disagreement S \<longleftrightarrow> (\<exists>a \<in> S. \<exists>b \<in> S. a \<noteq> b)"

lemma unanimous_iff: "unanimous S \<longleftrightarrow> S \<noteq> {} \<and> \<not> disagreement S"
proof
  assume "unanimous S"
  then show "S \<noteq> {} \<and> \<not> disagreement S" by (force simp: unanimous_def disagreement_def)
next
  assume S: "S \<noteq> {} \<and> \<not> disagreement S"
  then obtain v where "v \<in> S" by blast
  with S have "S = {v}" unfolding disagreement_def by blast
  then show "unanimous S" by (simp add: unanimous_def)
qed

lemma seen_values_snoc [simp]:
  "seen_values [] = {}"
  "seen_values (xs @ [(has, v)]) = (if has then insert v (seen_values xs) else seen_values xs)"
  by (auto simp: seen_values_def)

lemma see_all_snoc:
  "see_all [] = (None, False)"
  "see_all (xs @ [(has, v)]) =
     (let (seen, c) = see_all xs; (seen', c') = see has v seen in (seen', c \<or> c'))"
  by (simp_all add: see_all_def split: prod.splits)

definition seen_ok :: "'a set \<Rightarrow> 'a option \<Rightarrow> bool" where
  "seen_ok S seen = (case seen of None \<Rightarrow> S = {} | Some v \<Rightarrow> v \<in> S)"

lemma disagreement_insert:
  "w \<in> S \<Longrightarrow> disagreement (insert v S) \<longleftrightarrow> disagreement S \<or> w \<noteq> v"
  unfolding disagreement_def by (metis insert_iff)

lemma see_all_inv:
  "seen_ok (seen_values xs) (fst (see_all xs)) \<and>
   snd (see_all xs) = disagreement (seen_values xs)"
proof (induction xs rule: rev_induct)
  case Nil
  show ?case by (simp add: see_all_snoc disagreement_def seen_ok_def)
next
  case (snoc x xs)
  obtain has v where x: "x = (has, v)" by fastforce
  obtain seen c where s: "see_all xs = (seen, c)" by fastforce
  have ok: "seen_ok (seen_values xs) seen" and c: "c = disagreement (seen_values xs)"
    using snoc.IH by (simp_all add: s)
  show ?case
  proof (cases has)
    case False
    then show ?thesis using ok c by (simp add: x see_all_snoc s see_def)
  next
    case has: True
    show ?thesis
    proof (cases seen)
      case None
      then have "seen_values xs = {}" using ok by (simp add: seen_ok_def)
      then show ?thesis
        using None has c by (simp add: x see_all_snoc s see_def seen_ok_def disagreement_def)
    next
      case (Some w)
      then have "w \<in> seen_values xs" using ok by (simp add: seen_ok_def)
      then show ?thesis
        using Some has c by (simp add: x see_all_snoc s see_def seen_ok_def disagreement_insert)
    qed
  qed
qed

lemma see_all_spec:
  "snd (see_all xs) = disagreement (seen_values xs)"
  "fst (see_all xs) = None \<longleftrightarrow> seen_values xs = {}"
  "fst (see_all xs) = Some v \<Longrightarrow> v \<in> seen_values xs"
  using see_all_inv [of xs] by (auto simp: seen_ok_def split: option.splits)

abbreviation stack_flags :: "function_evidence list \<Rightarrow> (bool \<times> bool) list" where
  "stack_flags ps \<equiv>
     map (\<lambda>p. (fe_has_stack_calling_convention p, fe_must_use_stack_calling_convention p)) ps"

abbreviation optional_flags :: "function_evidence list \<Rightarrow> (bool \<times> bool) list" where
  "optional_flags ps \<equiv>
     map (\<lambda>p. (fe_has_optional_parameter_info p, fe_has_optional_parameters p)) ps"

abbreviation max_flags :: "function_evidence list \<Rightarrow> (bool \<times> u32) list" where
  "max_flags ps \<equiv>
     map (\<lambda>p. (fe_has_max_parameters_in_registers p, fe_max_parameters_in_registers p)) ps"

abbreviation closure_flags :: "function_evidence list \<Rightarrow> (bool \<times> bool) list" where
  "closure_flags ps \<equiv> map (\<lambda>p. (True, fe_is_closure p)) ps"

lemma see_all_proj:
  "see_all (xs @ [(has, v)]) = (fst (see has v (fst (see_all xs))),
     snd (see_all xs) \<or> snd (see has v (fst (see_all xs))))"
  by (simp add: see_all_snoc split: prod.splits)

lemma merge_provider_proj:
  "merge_provider m p =
     \<lparr>ms_stack_cc = fst (see (fe_has_stack_calling_convention p)
        (fe_must_use_stack_calling_convention p) (ms_stack_cc m)),
      ms_optional = fst (see (fe_has_optional_parameter_info p)
        (fe_has_optional_parameters p) (ms_optional m)),
      ms_max_regs = fst (see (fe_has_max_parameters_in_registers p)
        (fe_max_parameters_in_registers p) (ms_max_regs m)),
      ms_closure = fst (see True (fe_is_closure p) (ms_closure m)),
      ms_overrides = (ms_overrides m \<or> fe_has_overrides_with_less_direct_parameters p),
      ms_conflicting = (ms_conflicting m \<or> snd (see True (fe_is_closure p) (ms_closure m)) \<or>
        snd (see (fe_has_optional_parameter_info p) (fe_has_optional_parameters p) (ms_optional m)) \<or>
        snd (see (fe_has_stack_calling_convention p) (fe_must_use_stack_calling_convention p)
          (ms_stack_cc m)) \<or>
        snd (see (fe_has_max_parameters_in_registers p) (fe_max_parameters_in_registers p)
          (ms_max_regs m)))\<rparr>"
  by (simp add: merge_provider_def split_def Let_def)

lemma merge_fold:
  "foldl merge_provider merge_state_0 ps =
     \<lparr>ms_stack_cc = fst (see_all (stack_flags ps)), ms_optional = fst (see_all (optional_flags ps)),
      ms_max_regs = fst (see_all (max_flags ps)), ms_closure = fst (see_all (closure_flags ps)),
      ms_overrides = (\<exists>p \<in> set ps. fe_has_overrides_with_less_direct_parameters p),
      ms_conflicting = (snd (see_all (stack_flags ps)) \<or> snd (see_all (optional_flags ps)) \<or>
        snd (see_all (max_flags ps)) \<or> snd (see_all (closure_flags ps)))\<rparr>"
proof (induction ps rule: rev_induct)
  case Nil
  show ?case by (simp add: merge_state_0_def see_all_snoc)
next
  case (snoc p ps)
  have "foldl merge_provider merge_state_0 (ps @ [p]) =
      merge_provider (foldl merge_provider merge_state_0 ps) p" by simp
  also have "\<dots> = \<lparr>ms_stack_cc = fst (see_all (stack_flags (ps @ [p]))),
      ms_optional = fst (see_all (optional_flags (ps @ [p]))),
      ms_max_regs = fst (see_all (max_flags (ps @ [p]))),
      ms_closure = fst (see_all (closure_flags (ps @ [p]))),
      ms_overrides = (\<exists>p \<in> set (ps @ [p]). fe_has_overrides_with_less_direct_parameters p),
      ms_conflicting = (snd (see_all (stack_flags (ps @ [p]))) \<or>
        snd (see_all (optional_flags (ps @ [p]))) \<or>
        snd (see_all (max_flags (ps @ [p]))) \<or> snd (see_all (closure_flags (ps @ [p]))))\<rparr>"
    unfolding snoc.IH merge_provider_proj by (simp add: see_all_proj) blast
  finally show ?case .
qed

definition flags_disagree :: "function_evidence list \<Rightarrow> bool" where
  "flags_disagree ps \<longleftrightarrow> disagreement (seen_values (stack_flags ps)) \<or>
     disagreement (seen_values (optional_flags ps)) \<or> disagreement (seen_values (max_flags ps)) \<or>
     disagreement (seen_values (closure_flags ps))"

definition slot_agreed :: "slot_evidence list \<Rightarrow> bool" where
  "slot_agreed ev \<longleftrightarrow> unanimous (usable_reps ev) \<and> \<not> some_conflict ev"

definition slot_in_conflict :: "slot_evidence list \<Rightarrow> bool" where
  "slot_in_conflict ev \<longleftrightarrow> some_conflict ev \<or> disagreement (usable_reps ev)"

lemma usable_reps_known: "RepUnknown \<notin> usable_reps ev"
  by (auto simp: usable_reps_def usable_evidence_def)

lemma slot_proven_iff: "slot_proven (ResolveSlotEvidence ev) \<longleftrightarrow> slot_agreed ev"
  using ResolveSlotEvidence_spec [of ev] usable_reps_known [of ev]
  unfolding slot_spec_def slot_proven_def slot_agreed_def unanimous_iff disagreement_def
  by (auto split: if_splits)

lemma some_conflict_usable: "some_conflict ev \<Longrightarrow> usable_reps ev \<noteq> {}"
  by (auto simp: some_conflict_def usable_reps_def)

lemma slot_conflicting_iff: "slot_conflicting (ResolveSlotEvidence ev) \<longleftrightarrow> slot_in_conflict ev"
  using ResolveSlotEvidence_spec [of ev] some_conflict_usable [of ev]
  unfolding slot_spec_def slot_conflicting_def slot_in_conflict_def disagreement_def
  by (auto split: if_splits)

lemma slot_agreed_representation:
  "slot_agreed ev \<Longrightarrow> usable_reps ev = {rs_representation (ResolveSlotEvidence ev)}"
  using ResolveSlotEvidence_spec [of ev]
  unfolding slot_spec_def slot_agreed_def unanimous_iff disagreement_def
  by (auto split: if_splits)

lemma flag_conflict_iff:
  "ms_conflicting (foldl merge_provider merge_state_0 ps) = flags_disagree ps"
  by (simp add: merge_fold flags_disagree_def see_all_spec(1))

lemma see_all_seen: "(\<exists>v. fst (see_all xs) = Some v) \<longleftrightarrow> seen_values xs \<noteq> {}"
  using see_all_spec(2) [of xs] by auto

definition any_conflict :: "function_evidence list \<Rightarrow> nat \<Rightarrow> bool" where
  "any_conflict ps n \<longleftrightarrow> flags_disagree ps \<or>
     (\<exists>i<n. slot_in_conflict (parameter_evidence ps i)) \<or> slot_in_conflict (map fe_result ps)"

lemma ar_conflicting_iff: "ar_conflicting (ResolveFunctionAbiEvidence ps n) = any_conflict ps n"
proof -
  have "list_ex slot_conflicting
        (map (\<lambda>i. ResolveSlotEvidence (parameter_evidence ps i)) [0..<n]) \<longleftrightarrow>
      (\<exists>i<n. slot_in_conflict (parameter_evidence ps i))"
    by (auto simp: list_ex_iff slot_conflicting_iff)
  then show ?thesis
    by (simp add: any_conflict_def ResolveFunctionAbiEvidence_def Let_def flag_conflict_iff
        slot_conflicting_iff)
qed

lemma ar_fields:
  "ar_parameters (ResolveFunctionAbiEvidence ps n) =
     map (\<lambda>i. ResolveSlotEvidence (parameter_evidence ps i)) [0..<n]"
  "ar_result (ResolveFunctionAbiEvidence ps n) = ResolveSlotEvidence (map fe_result ps)"
  by (simp_all add: ResolveFunctionAbiEvidence_def Let_def)

lemma ar_has_fields:
  "ar_has_stack_calling_convention (ResolveFunctionAbiEvidence ps n) \<longleftrightarrow>
     seen_values (stack_flags ps) \<noteq> {} \<and> \<not> flags_disagree ps"
  "ar_has_optional_parameter_info (ResolveFunctionAbiEvidence ps n) \<longleftrightarrow>
     seen_values (optional_flags ps) \<noteq> {} \<and> \<not> flags_disagree ps"
  "ar_has_max_parameters_in_registers (ResolveFunctionAbiEvidence ps n) \<longleftrightarrow>
     seen_values (max_flags ps) \<noteq> {} \<and> \<not> flags_disagree ps"
  by (simp_all add: ResolveFunctionAbiEvidence_def Let_def flags_disagree_def see_all_spec(1) merge_fold
      flip: see_all_seen)

lemma ar_values:
  "ar_must_use_stack_calling_convention (ResolveFunctionAbiEvidence ps n) =
     (case fst (see_all (stack_flags ps)) of None \<Rightarrow> False | Some v \<Rightarrow> v)"
  "ar_has_optional_parameters (ResolveFunctionAbiEvidence ps n) =
     (case fst (see_all (optional_flags ps)) of None \<Rightarrow> False | Some v \<Rightarrow> v)"
  "ar_max_parameters_in_registers (ResolveFunctionAbiEvidence ps n) =
     (case fst (see_all (max_flags ps)) of None \<Rightarrow> 0 | Some v \<Rightarrow> v)"
  "ar_is_closure (ResolveFunctionAbiEvidence ps n) =
     (case fst (see_all (closure_flags ps)) of None \<Rightarrow> False | Some v \<Rightarrow> v)"
  "ar_has_overrides_with_less_direct_parameters (ResolveFunctionAbiEvidence ps n) \<longleftrightarrow>
     (\<exists>p \<in> set ps. fe_has_overrides_with_less_direct_parameters p)"
  by (simp_all add: ResolveFunctionAbiEvidence_def Let_def merge_fold)

definition all_agreed :: "function_evidence list \<Rightarrow> nat \<Rightarrow> bool" where
  "all_agreed ps n \<longleftrightarrow>
     list_all (\<lambda>i. slot_agreed (parameter_evidence ps i)) [0..<n] \<and>
     slot_agreed (map fe_result ps) \<and>
     unanimous (seen_values (stack_flags ps)) \<and> unanimous (seen_values (optional_flags ps)) \<and>
     unanimous (seen_values (max_flags ps)) \<and> unanimous (seen_values (closure_flags ps))"

lemma slot_agreed_no_conflict: "slot_agreed ev \<Longrightarrow> \<not> slot_in_conflict ev"
  by (simp add: slot_agreed_def slot_in_conflict_def unanimous_iff)

lemma ar_fully_proven_eq:
  "ar_fully_proven (ResolveFunctionAbiEvidence ps n) \<longleftrightarrow>
     \<not> ar_conflicting (ResolveFunctionAbiEvidence ps n) \<and>
     ar_has_stack_calling_convention (ResolveFunctionAbiEvidence ps n) \<and>
     ar_has_optional_parameter_info (ResolveFunctionAbiEvidence ps n) \<and>
     ar_has_max_parameters_in_registers (ResolveFunctionAbiEvidence ps n) \<and>
     slot_proven (ar_result (ResolveFunctionAbiEvidence ps n)) \<and>
     list_all slot_proven (ar_parameters (ResolveFunctionAbiEvidence ps n))"
  by (simp add: ResolveFunctionAbiEvidence_def Let_def)

lemma seen_closure: "seen_values (stack_flags ps) \<noteq> {} \<Longrightarrow> seen_values (closure_flags ps) \<noteq> {}"
  by (auto simp: seen_values_def)

lemma fully_proven_agreed: "ar_fully_proven (ResolveFunctionAbiEvidence ps n) = all_agreed ps n"
proof
  assume "ar_fully_proven (ResolveFunctionAbiEvidence ps n)"
  then show "all_agreed ps n"
    using seen_closure [of ps]
    by (auto simp: ar_fully_proven_eq ar_conflicting_iff any_conflict_def ar_has_fields ar_fields
        all_agreed_def flags_disagree_def unanimous_iff slot_proven_iff list_all_iff)
next
  assume a: "all_agreed ps n"
  then have "\<not> any_conflict ps n"
    by (auto simp: all_agreed_def any_conflict_def flags_disagree_def unanimous_iff list_all_iff
        dest: slot_agreed_no_conflict)
  then show "ar_fully_proven (ResolveFunctionAbiEvidence ps n)"
    using a
    by (auto simp: ar_fully_proven_eq ar_conflicting_iff any_conflict_def ar_has_fields ar_fields
        all_agreed_def unanimous_iff slot_proven_iff list_all_iff)
qed

lemma ResolveSlotEvidence_set:
  assumes "set ev = set ev'"
  shows "ResolveSlotEvidence ev = ResolveSlotEvidence ev'"
proof -
  have reps: "usable_reps ev = usable_reps ev'" and conf: "some_conflict ev = some_conflict ev'"
    by (simp_all only: usable_reps_def some_conflict_def assms)
  have "slot_spec ev (ResolveSlotEvidence ev')"
    using ResolveSlotEvidence_spec [of ev'] by (simp only: slot_spec_def reps conf)
  with ResolveSlotEvidence_spec [of ev] have eq:
    "rs_proof (ResolveSlotEvidence ev) = rs_proof (ResolveSlotEvidence ev') \<and>
     rs_representation (ResolveSlotEvidence ev) = rs_representation (ResolveSlotEvidence ev')"
    by (rule slot_spec_unique)
  have mask: "rs_source_mask (ResolveSlotEvidence ev) = rs_source_mask (ResolveSlotEvidence ev')"
    using mask_of_set [OF assms] by (simp only: ResolveSlotEvidence_mask)
  show ?thesis
    using eq mask by (intro resolved_slot.equality) simp_all
qed

lemma parameter_evidence_set:
  "set (parameter_evidence ps i) =
     (\<lambda>p. fe_parameters p ! i) ` {p \<in> set ps. i < length (fe_parameters p)}"
  by (auto simp: parameter_evidence_def)

lemma seen_values_map: "seen_values (map (\<lambda>p. (h p, f p)) ps) = f ` {p \<in> set ps. h p}"
  by (induction ps) (auto simp: seen_values_def)

lemma see_all_agree:
  assumes "seen_values xs = seen_values ys" "\<not> disagreement (seen_values xs)"
  shows "fst (see_all xs) = fst (see_all ys)"
proof (cases "fst (see_all xs)")
  case None
  then show ?thesis using assms(1) by (metis see_all_spec(2))
next
  case (Some v)
  then obtain w where w: "fst (see_all ys) = Some w"
    using assms(1) see_all_spec(2) by (metis not_None_eq)
  then have "v = w"
    using Some assms see_all_spec(3) unfolding disagreement_def by metis
  then show ?thesis using Some w by simp
qed


definition sample_slot :: "representation \<Rightarrow> evidence_source \<Rightarrow> slot_evidence" where
  "sample_slot r s = \<lparr>se_representation = r, se_source = s, se_proof = ProofProven\<rparr>"

definition sample_provider :: "representation \<Rightarrow> evidence_source \<Rightarrow> function_evidence" where
  "sample_provider r s =
     \<lparr>fe_parameters = [sample_slot r s], fe_result = sample_slot RepTagged s,
      fe_has_stack_calling_convention = True, fe_must_use_stack_calling_convention = False,
      fe_has_overrides_with_less_direct_parameters = False,
      fe_has_optional_parameter_info = True, fe_has_optional_parameters = False,
      fe_has_max_parameters_in_registers = True, fe_max_parameters_in_registers = 1,
      fe_is_closure = False\<rparr>"

lemmas sample_defs = sample_slot_def sample_provider_def


lemma agreed_value:
  assumes "unanimous (seen_values xs)"
  shows "seen_values xs = {case fst (see_all xs) of None \<Rightarrow> d | Some v \<Rightarrow> v}"
proof -
  obtain v where v: "seen_values xs = {v}" using assms by (auto simp: unanimous_def)
  then have "fst (see_all xs) \<noteq> None" by (simp add: see_all_spec(2))
  then show ?thesis using v see_all_spec(3) [of xs] by auto
qed

text \<open>
  C5: A Function's ABI is fully proven exactly when every parameter slot below the formal
  count, the result and each of the four flags have evidence and all the usable evidence on
  them agrees; the resolution then carries precisely the agreed representations and flags.
\<close>

theorem fully_proven_exact:
  "(ar_fully_proven (ResolveFunctionAbiEvidence ps n) \<longleftrightarrow> all_agreed ps n) \<and>
   (all_agreed ps n \<longrightarrow>
     (\<forall>i<n. usable_reps (parameter_evidence ps i) =
        {rs_representation (ar_parameters (ResolveFunctionAbiEvidence ps n) ! i)}) \<and>
     usable_reps (map fe_result ps) =
        {rs_representation (ar_result (ResolveFunctionAbiEvidence ps n))} \<and>
     seen_values (stack_flags ps) =
        {ar_must_use_stack_calling_convention (ResolveFunctionAbiEvidence ps n)} \<and>
     seen_values (optional_flags ps) =
        {ar_has_optional_parameters (ResolveFunctionAbiEvidence ps n)} \<and>
     seen_values (max_flags ps) =
        {ar_max_parameters_in_registers (ResolveFunctionAbiEvidence ps n)} \<and>
     seen_values (closure_flags ps) = {ar_is_closure (ResolveFunctionAbiEvidence ps n)})"
proof -
  have "all_agreed ps n \<longrightarrow> (\<forall>i<n. usable_reps (parameter_evidence ps i) =
      {rs_representation (ar_parameters (ResolveFunctionAbiEvidence ps n) ! i)})"
    by (auto simp: all_agreed_def list_all_iff ar_fields slot_agreed_representation)
  moreover have "all_agreed ps n \<longrightarrow> usable_reps (map fe_result ps) =
      {rs_representation (ar_result (ResolveFunctionAbiEvidence ps n))}"
    by (auto simp: all_agreed_def ar_fields slot_agreed_representation)
  ultimately show ?thesis
    unfolding fully_proven_agreed ar_values
    by (simp only: simp_thms) (intro impI conjI agreed_value; simp add: all_agreed_def)
qed

theorem fully_proven_exact_witness:
  "all_agreed [sample_provider RepTagged SrcCompilerOracle] 1 \<and>
   usable_reps (parameter_evidence [sample_provider RepTagged SrcCompilerOracle] 0) = {RepTagged} \<and>
   ar_fully_proven (ResolveFunctionAbiEvidence [sample_provider RepTagged SrcCompilerOracle] 1)"
proof -
  let ?ps = "[sample_provider RepTagged SrcCompilerOracle]"
  have f: "ar_fully_proven (ResolveFunctionAbiEvidence ?ps 1)" by code_simp
  have r: "rs_representation (ar_parameters (ResolveFunctionAbiEvidence ?ps 1) ! 0) = RepTagged"
    by code_simp
  show ?thesis using f r fully_proven_exact [of ?ps 1] by (metis One_nat_def lessI)
qed

lemma disagreement_mono: "disagreement S \<Longrightarrow> S \<subseteq> T \<Longrightarrow> disagreement T"
  by (auto simp: disagreement_def)

lemma slot_in_conflict_mono:
  assumes c: "slot_in_conflict ev" and sub: "set ev \<subseteq> set ev'"
  shows "slot_in_conflict ev'"
proof -
  have "usable_reps ev \<subseteq> usable_reps ev'" using sub by (auto simp: usable_reps_def)
  moreover have "some_conflict ev \<Longrightarrow> some_conflict ev'" using sub by (auto simp: some_conflict_def)
  ultimately show ?thesis using c disagreement_mono by (auto simp: slot_in_conflict_def)
qed

text \<open>
  A conflict is never undone by more evidence: once a set of providers conflicts, every
  larger set conflicts and is not fully proven.
\<close>

theorem conflict_is_final:
  assumes c: "ar_conflicting (ResolveFunctionAbiEvidence ps n)" and sub: "set ps \<subseteq> set qs"
  shows "ar_conflicting (ResolveFunctionAbiEvidence qs n) \<and>
    \<not> ar_fully_proven (ResolveFunctionAbiEvidence qs n)"
proof -
  have "any_conflict ps n" using c by (simp add: ar_conflicting_iff)
  then consider "flags_disagree ps" | i where "i < n" "slot_in_conflict (parameter_evidence ps i)"
    | "slot_in_conflict (map fe_result ps)"
    by (auto simp: any_conflict_def)
  then have "any_conflict qs n"
  proof cases
    case 1
    have "seen_values (stack_flags ps) \<subseteq> seen_values (stack_flags qs)"
        "seen_values (optional_flags ps) \<subseteq> seen_values (optional_flags qs)"
        "seen_values (max_flags ps) \<subseteq> seen_values (max_flags qs)"
        "seen_values (closure_flags ps) \<subseteq> seen_values (closure_flags qs)"
      unfolding seen_values_map using sub by blast+
    then show ?thesis
      using 1 unfolding any_conflict_def flags_disagree_def by (blast intro: disagreement_mono)
  next
    case (2 i)
    have "set (parameter_evidence ps i) \<subseteq> set (parameter_evidence qs i)"
      unfolding parameter_evidence_set using sub by blast
    then show ?thesis
      using 2 unfolding any_conflict_def by (blast intro: slot_in_conflict_mono)
  next
    case 3
    have "set (map fe_result ps) \<subseteq> set (map fe_result qs)" using sub by auto
    then show ?thesis
      using 3 unfolding any_conflict_def by (blast intro: slot_in_conflict_mono)
  qed
  then have "ar_conflicting (ResolveFunctionAbiEvidence qs n)" by (simp add: ar_conflicting_iff)
  then show ?thesis by (simp add: ar_fully_proven_eq)
qed

theorem conflict_is_final_witness:
  "ar_conflicting (ResolveFunctionAbiEvidence [sample_provider RepTagged SrcVerifiedFixture,
     sample_provider RepUnboxedInt64 SrcCompilerOracle,
     sample_provider RepTagged SrcVerifiedFixture] 1)"
proof -
  let ?ps = "[sample_provider RepTagged SrcVerifiedFixture, sample_provider RepUnboxedInt64 SrcCompilerOracle]"
  let ?qs = "?ps @ [sample_provider RepTagged SrcVerifiedFixture]"
  have c: "ar_conflicting (ResolveFunctionAbiEvidence ?ps 1)" by code_simp
  have "set ?ps \<subseteq> set ?qs" by auto
  from conflict_is_final [OF c this] show ?thesis by simp
qed

text \<open>
  An item that carries no representation is dropped whatever its proof state, a conflict
  included.
\<close>

lemma conflict_without_representation_ignored:
  "se_representation e = RepUnknown \<Longrightarrow>
     ResolveSlotEvidence (ev @ e # ev') = ResolveSlotEvidence (ev @ ev')"
  by (simp add: ResolveSlotEvidence_def resolve_slot_step_def usable_evidence_def)

end
