(* ===== verification/Calling_Convention.thy ===== *)
theory Calling_Convention
  imports Evidence_Solver
begin

text \<open>
  The Dart calling convention of \<^verbatim>\<open>src/abi/calling_convention.cpp\<close>: from a resolved ABI and
  a register profile to the physical location of every parameter and of the result.  The
  allocation loop is a left-to-right recursion over the representations with the two register
  cursors, the stack loop a right-to-left one with the frame slot; a closed form of both is
  the reference definition \<open>expected_location\<close>.
\<close>

section \<open>Profiles\<close>

record cc_profile =
  cc_word_size :: u32
  cc_dart_sp_register :: u8
  cc_gp_argument_registers :: "u8 list"
  cc_gp_argument_register_count :: u8
  cc_fpu_argument_registers :: "u8 list"
  cc_fpu_argument_register_count :: u8
  cc_tagged_result_gp_register :: u8
  cc_unboxed_int64_result_gp_register :: u8
  cc_unboxed_double_result_fpu_register :: u8
  cc_pair_of_tagged_result_gp_registers :: "u8 \<times> u8"
  cc_fp_to_entry_sp_slot_delta :: "32 word"

definition Arm64AotCallingConventionProfile :: cc_profile where
  "Arm64AotCallingConventionProfile =
     \<lparr>cc_word_size = 8, cc_dart_sp_register = 15,
      cc_gp_argument_registers = [1, 2, 3, 5, 6, 7, 0, 0], cc_gp_argument_register_count = 6,
      cc_fpu_argument_registers = [0, 1, 2, 3, 4, 5, 0, 0], cc_fpu_argument_register_count = 6,
      cc_tagged_result_gp_register = 0, cc_unboxed_int64_result_gp_register = 0,
      cc_unboxed_double_result_fpu_register = 0,
      cc_pair_of_tagged_result_gp_registers = (0, 1),
      cc_fp_to_entry_sp_slot_delta = 2\<rparr>"

definition ValidateProfile :: "cc_profile \<Rightarrow> bool" where
  "ValidateProfile p \<longleftrightarrow> cc_word_size p \<noteq> 0 \<and> cc_word_size p \<le> 0x7fffffff \<and>
     unat (cc_gp_argument_register_count p) \<le> length (cc_gp_argument_registers p) \<and>
     unat (cc_fpu_argument_register_count p) \<le> length (cc_fpu_argument_registers p)"

definition IsProven :: "resolved_slot \<Rightarrow> bool" where
  "IsProven slot \<longleftrightarrow> rs_proof slot = ProofProven \<and> rs_representation slot \<noteq> RepUnknown"

definition IsSupportedParameterRepresentation :: "representation \<Rightarrow> bool" where
  "IsSupportedParameterRepresentation r \<longleftrightarrow>
     r = RepTagged \<or> r = RepUnboxedInt64 \<or> r = RepUnboxedDouble"

definition IsSupportedResultRepresentation :: "representation \<Rightarrow> bool" where
  "IsSupportedResultRepresentation r \<longleftrightarrow>
     IsSupportedParameterRepresentation r \<or> r = RepPairOfTagged"

definition Gp :: "u8 \<Rightarrow> abi_location" where
  "Gp i = abi_location_0\<lparr>loc_kind := LocGpRegister, loc_register_index := i\<rparr>"

definition Fpu :: "u8 \<Rightarrow> abi_location" where
  "Fpu i = abi_location_0\<lparr>loc_kind := LocFpuRegister, loc_register_index := i\<rparr>"

text \<open>The product is computed in \<open>int32_t\<close>.\<close>

definition EntryStack :: "32 word \<Rightarrow> u32 \<Rightarrow> abi_location" where
  "EntryStack slot word_size =
     abi_location_0\<lparr>loc_kind := LocEntryStack, loc_stack_offset := slot * word_size\<rparr>"

definition one_location :: "abi_location \<Rightarrow> value_location" where
  "one_location l = \<lparr>vl_locations = [l, abi_location_0], vl_count = 1\<rparr>"

section \<open>The register pass and the stack pass\<close>

definition gp_like :: "representation \<Rightarrow> bool" where
  "gp_like r \<longleftrightarrow> r = RepTagged \<or> r = RepUnboxedInt64"

fun register_pass :: "cc_profile \<Rightarrow> nat \<Rightarrow> nat \<Rightarrow> nat \<Rightarrow> nat \<Rightarrow> representation list \<Rightarrow>
    parameter_layout list" where
  "register_pass p limit i next_gp next_fpu [] = []"
| "register_pass p limit i next_gp next_fpu (r # rs) =
     (if i < limit \<and> gp_like r \<and> next_gp < unat (cc_gp_argument_register_count p)
      then \<lparr>pl_representation = r,
             pl_location = one_location (Gp (cc_gp_argument_registers p ! next_gp))\<rparr> #
           register_pass p limit (Suc i) (Suc next_gp) next_fpu rs
      else if i < limit \<and> r = RepUnboxedDouble \<and> next_fpu < unat (cc_fpu_argument_register_count p)
      then \<lparr>pl_representation = r,
             pl_location = one_location (Fpu (cc_fpu_argument_registers p ! next_fpu))\<rparr> #
           register_pass p limit (Suc i) next_gp (Suc next_fpu) rs
      else \<lparr>pl_representation = r, pl_location = value_location_0\<rparr> #
           register_pass p limit (Suc i) next_gp next_fpu rs)"

definition needs_stack :: "parameter_layout \<Rightarrow> bool" where
  "needs_stack x \<longleftrightarrow> vl_count (pl_location x) = 0"

text \<open>The reverse loop, on the reversed parameter list.\<close>

fun stack_pass :: "cc_profile \<Rightarrow> 32 word \<Rightarrow> parameter_layout list \<Rightarrow> parameter_layout list" where
  "stack_pass p fp_slot [] = []"
| "stack_pass p fp_slot (x # xs) =
     (if needs_stack x
      then x\<lparr>pl_location := one_location
               (EntryStack (fp_slot - cc_fp_to_entry_sp_slot_delta p) (cc_word_size p))\<rparr> #
           stack_pass p (fp_slot + 1) xs
      else x # stack_pass p fp_slot xs)"

definition result_location :: "cc_profile \<Rightarrow> representation \<Rightarrow> value_location option" where
  "result_location p r =
     (case r of
        RepTagged \<Rightarrow> Some (one_location (Gp (cc_tagged_result_gp_register p)))
      | RepUnboxedInt64 \<Rightarrow> Some (one_location (Gp (cc_unboxed_int64_result_gp_register p)))
      | RepUnboxedDouble \<Rightarrow> Some (one_location (Fpu (cc_unboxed_double_result_fpu_register p)))
      | RepPairOfTagged \<Rightarrow>
          Some \<lparr>vl_locations = [Gp (fst (cc_pair_of_tagged_result_gp_registers p)),
                               Gp (snd (cc_pair_of_tagged_result_gp_registers p))], vl_count = 2\<rparr>
      | RepUnknown \<Rightarrow> None)"

definition register_limit :: "abi_resolution \<Rightarrow> u32" where
  "register_limit abi =
     (if ar_must_use_stack_calling_convention abi then 0 else ar_max_parameters_in_registers abi)"

definition ComputeDartCallLayout ::
    "abi_resolution \<Rightarrow> cc_profile \<Rightarrow> call_layout nullable \<Rightarrow> bool \<Rightarrow>
     call_layout_status \<times> call_layout nullable" where
  "ComputeDartCallLayout abi p out closure_call =
     (if out = None \<or> \<not> ValidateProfile p then (LayoutInvalidCallingConvention, out)
      else if ar_conflicting abi then (LayoutConflictingEvidence, Some call_layout_0)
      else if \<not> IsProven (ar_result abi) \<or> list_ex (\<lambda>s. \<not> IsProven s) (ar_parameters abi) \<or>
          \<not> ar_has_stack_calling_convention abi \<or> \<not> ar_has_optional_parameter_info abi \<or>
          \<not> ar_has_max_parameters_in_registers abi
      then (LayoutIncompleteEvidence, Some call_layout_0)
      else if ar_has_optional_parameters abi \<and> \<not> closure_call
      then (LayoutOptionalArgumentsUnsupported, Some call_layout_0)
      else if \<not> IsSupportedResultRepresentation (rs_representation (ar_result abi)) \<or>
          list_ex (\<lambda>s. \<not> IsSupportedParameterRepresentation (rs_representation s))
            (ar_parameters abi)
      then (LayoutUnsupportedRepresentation, Some call_layout_0)
      else
        let reps = map rs_representation (ar_parameters abi);
            placed = register_pass p (unat (register_limit abi)) 0 0 0 reps;
            parameters = rev (stack_pass p (cc_fp_to_entry_sp_slot_delta p) (rev placed));
            r = rs_representation (ar_result abi)
        in case result_location p r of
             None \<Rightarrow> (LayoutIncompleteEvidence, Some call_layout_0)
           | Some l \<Rightarrow> (LayoutOk, Some (call_layout_0\<lparr>
               cl_parameters := parameters,
               cl_result := \<lparr>pl_representation = r, pl_location = l\<rparr>,
               cl_stack_words := of_nat (length (filter needs_stack placed)),
               cl_dart_sp_register := cc_dart_sp_register p\<rparr>)))"

definition ComputeArm64AotCallLayout ::
    "abi_resolution \<Rightarrow> call_layout nullable \<Rightarrow> bool \<times> call_layout nullable" where
  "ComputeArm64AotCallLayout abi out =
     (let (status, out') = ComputeDartCallLayout abi Arm64AotCallingConventionProfile out False
      in (status = LayoutOk, out'))"

section \<open>Closed form of the allocation\<close>

definition gp_rank :: "representation list \<Rightarrow> nat \<Rightarrow> nat" where
  "gp_rank rs i = length (filter gp_like (take i rs))"

definition fpu_rank :: "representation list \<Rightarrow> nat \<Rightarrow> nat" where
  "fpu_rank rs i = length (filter (\<lambda>r. r = RepUnboxedDouble) (take i rs))"

definition in_register :: "cc_profile \<Rightarrow> nat \<Rightarrow> representation list \<Rightarrow> nat \<Rightarrow> bool" where
  "in_register p limit rs i \<longleftrightarrow> i < limit \<and>
     (gp_like (rs ! i) \<and> gp_rank rs i < unat (cc_gp_argument_register_count p) \<or>
      rs ! i = RepUnboxedDouble \<and> fpu_rank rs i < unat (cc_fpu_argument_register_count p))"

definition stack_after :: "cc_profile \<Rightarrow> nat \<Rightarrow> representation list \<Rightarrow> nat \<Rightarrow> nat" where
  "stack_after p limit rs i =
     length (filter (\<lambda>k. \<not> in_register p limit rs k) [Suc i..<length rs])"

definition expected_location :: "cc_profile \<Rightarrow> nat \<Rightarrow> representation list \<Rightarrow> nat \<Rightarrow> abi_location" where
  "expected_location p limit rs i =
     (if \<not> in_register p limit rs i
      then EntryStack (of_nat (stack_after p limit rs i)) (cc_word_size p)
      else if gp_like (rs ! i) then Gp (cc_gp_argument_registers p ! gp_rank rs i)
      else Fpu (cc_fpu_argument_registers p ! fpu_rank rs i))"

definition placed_at :: "cc_profile \<Rightarrow> nat \<Rightarrow> representation list \<Rightarrow> nat \<Rightarrow> parameter_layout" where
  "placed_at p limit rs i =
     \<lparr>pl_representation = rs ! i,
      pl_location =
        (if in_register p limit rs i then one_location (expected_location p limit rs i)
         else value_location_0)\<rparr>"

lemma rank_Suc:
  assumes "i < length rs"
  shows "gp_rank rs (Suc i) = gp_rank rs i + (if gp_like (rs ! i) then 1 else 0)"
    and "fpu_rank rs (Suc i) = fpu_rank rs i + (if rs ! i = RepUnboxedDouble then 1 else 0)"
  using assms by (simp_all add: gp_rank_def fpu_rank_def take_Suc_conv_app_nth)

lemma gp_like_double [simp]: "\<not> gp_like RepUnboxedDouble"
  by (simp add: gp_like_def)

lemma register_pass_closed:
  assumes "all = pre @ rs" "length pre = i"
    and "i \<le> limit \<Longrightarrow> ng = min (gp_rank all i) (unat (cc_gp_argument_register_count p)) \<and>
      nf = min (fpu_rank all i) (unat (cc_fpu_argument_register_count p))"
  shows "register_pass p limit i ng nf rs = map (placed_at p limit all) [i..<length all]"
  using assms
proof (induction rs arbitrary: pre i ng nf)
  case Nil
  then show ?case by simp
next
  case (Cons r rs)
  let ?G = "unat (cc_gp_argument_register_count p)" and ?F = "unat (cc_fpu_argument_register_count p)"
  have i: "i < length all" and r: "all ! i = r"
    using Cons.prems(1,2) by (auto simp: nth_append)
  have split: "[i..<length all] = i # [Suc i..<length all]" using i by (simp add: upt_conv_Cons)
  have pre: "all = (pre @ [r]) @ rs" "length (pre @ [r]) = Suc i" using Cons.prems(1,2) by auto
  note IH = Cons.IH [OF pre]
  have cur: "ng = min (gp_rank all i) ?G" "nf = min (fpu_rank all i) ?F" if "i < limit"
    using Cons.prems(3) that by simp_all
  consider (gp) "i < limit" "gp_like r" "ng < ?G"
    | (fpu) "i < limit" "r = RepUnboxedDouble" "nf < ?F"
    | (stack) "\<not> (i < limit \<and> gp_like r \<and> ng < ?G)" "\<not> (i < limit \<and> r = RepUnboxedDouble \<and> nf < ?F)"
    by blast
  then show ?case
  proof cases
    case gp
    then have rk: "ng = gp_rank all i" "gp_rank all i < ?G" using cur by auto
    have "register_pass p limit (Suc i) (Suc ng) nf rs = map (placed_at p limit all) [Suc i..<length all]"
      by (rule IH) (use gp cur rk rank_Suc [OF i] r in \<open>auto simp: min_def split: if_splits\<close>)
    then show ?thesis
      using gp rk by (simp add: split placed_at_def in_register_def expected_location_def r)
  next
    case fpu
    then have rk: "nf = fpu_rank all i" "fpu_rank all i < ?F" using cur by auto
    have "register_pass p limit (Suc i) ng (Suc nf) rs = map (placed_at p limit all) [Suc i..<length all]"
      by (rule IH) (use fpu cur rk rank_Suc [OF i] r in \<open>auto simp: min_def split: if_splits\<close>)
    then show ?thesis
      using fpu rk by (simp add: split placed_at_def in_register_def expected_location_def r)
  next
    case stack
    have "register_pass p limit (Suc i) ng nf rs = map (placed_at p limit all) [Suc i..<length all]"
      by (rule IH) (use stack cur rank_Suc [OF i] r in \<open>auto simp: min_def split: if_splits\<close>)
    moreover have "\<not> in_register p limit all i"
      using stack cur r by (auto simp: in_register_def min_def split: if_splits)
    ultimately show ?thesis using stack by (auto simp: split placed_at_def r)
  qed
qed

lemma stack_pass_append:
  "stack_pass p s (xs @ ys) =
     stack_pass p s xs @ stack_pass p (s + of_nat (length (filter needs_stack xs))) ys"
  by (induction xs arbitrary: s) (simp_all add: ac_simps)

lemma reverse_stack_pass:
  "rev (stack_pass p (cc_fp_to_entry_sp_slot_delta p) (rev xs)) =
     map (\<lambda>i. if needs_stack (xs ! i)
          then (xs ! i)\<lparr>pl_location := one_location (EntryStack
            (of_nat (length (filter needs_stack (drop (Suc i) xs)))) (cc_word_size p))\<rparr>
          else xs ! i) [0..<length xs]"
proof (induction xs)
  case Nil
  show ?case by simp
next
  case (Cons x xs)
  have "length (filter needs_stack (rev xs)) = length (filter needs_stack xs)"
    by (simp flip: rev_filter)
  then show ?case
    by (simp add: stack_pass_append Cons.IH map_upt_Suc del: upt_Suc)
qed

lemma needs_placed [simp]: "needs_stack (placed_at p limit rs i) \<longleftrightarrow> \<not> in_register p limit rs i"
  by (simp add: needs_stack_def placed_at_def one_location_def value_location_0_def)

lemma needs_stack_fresh [simp]:
  "needs_stack \<lparr>pl_representation = r, pl_location = value_location_0\<rparr>"
  "\<not> needs_stack \<lparr>pl_representation = r, pl_location = one_location l\<rparr>"
  by (simp_all add: needs_stack_def one_location_def value_location_0_def)

lemma count_upt_map:
  "length (filter P (map f xs)) = length (filter (\<lambda>k. P (f k)) xs)"
  by (simp add: filter_map comp_def)

lemma placed_parameters:
  "rev (stack_pass p (cc_fp_to_entry_sp_slot_delta p) (rev (register_pass p limit 0 0 0 rs))) =
     map (\<lambda>i. \<lparr>pl_representation = rs ! i,
              pl_location = one_location (expected_location p limit rs i)\<rparr>) [0..<length rs]"
proof -
  let ?pl = "map (placed_at p limit rs) [0..<length rs]"
  have pl: "register_pass p limit 0 0 0 rs = ?pl"
    by (rule register_pass_closed [of rs "[]"]) (simp_all add: gp_rank_def fpu_rank_def)
  have cnt: "length (filter needs_stack (drop (Suc i) ?pl)) = stack_after p limit rs i" for i
    by (simp add: drop_map count_upt_map stack_after_def comp_def)
  show ?thesis
    unfolding pl reverse_stack_pass cnt
    by (auto simp: placed_at_def expected_location_def)
qed

lemma placed_stack_words:
  "length (filter needs_stack (register_pass p limit 0 0 0 rs)) =
     length (filter (\<lambda>k. \<not> in_register p limit rs k) [0..<length rs])"
proof -
  have "register_pass p limit 0 0 0 rs = map (placed_at p limit rs) [0..<length rs]"
    by (rule register_pass_closed [of rs "[]"]) (simp_all add: gp_rank_def fpu_rank_def)
  then show ?thesis by (simp add: count_upt_map comp_def)
qed

section \<open>When a layout is produced, and which\<close>

definition layout_admissible :: "abi_resolution \<Rightarrow> bool \<Rightarrow> bool" where
  "layout_admissible abi closure_call \<longleftrightarrow>
     \<not> ar_conflicting abi \<and> IsProven (ar_result abi) \<and> list_all IsProven (ar_parameters abi) \<and>
     ar_has_stack_calling_convention abi \<and> ar_has_optional_parameter_info abi \<and>
     ar_has_max_parameters_in_registers abi \<and>
     (ar_has_optional_parameters abi \<longrightarrow> closure_call) \<and>
     IsSupportedResultRepresentation (rs_representation (ar_result abi)) \<and>
     list_all (\<lambda>s. IsSupportedParameterRepresentation (rs_representation s)) (ar_parameters abi)"

definition reference_layout :: "abi_resolution \<Rightarrow> cc_profile \<Rightarrow> call_layout" where
  "reference_layout abi p =
     (let reps = map rs_representation (ar_parameters abi); limit = unat (register_limit abi)
      in call_layout_0\<lparr>
        cl_parameters := map (\<lambda>i. \<lparr>pl_representation = reps ! i,
          pl_location = one_location (expected_location p limit reps i)\<rparr>) [0..<length reps],
        cl_result := \<lparr>pl_representation = rs_representation (ar_result abi),
          pl_location = the (result_location p (rs_representation (ar_result abi)))\<rparr>,
        cl_stack_words := of_nat (length (filter (\<lambda>k. \<not> in_register p limit reps k)
          [0..<length reps])),
        cl_dart_sp_register := cc_dart_sp_register p\<rparr>)"

lemma supported_result:
  "IsSupportedResultRepresentation r \<Longrightarrow> \<exists>l. result_location p r = Some l"
  by (cases r) (simp_all add: IsSupportedResultRepresentation_def
      IsSupportedParameterRepresentation_def result_location_def)

lemma layout_ok:
  assumes "ValidateProfile p" "layout_admissible abi c"
  shows "ComputeDartCallLayout abi p (Some old) c = (LayoutOk, Some (reference_layout abi p))"
proof -
  obtain l where l: "result_location p (rs_representation (ar_result abi)) = Some l"
    using assms(2) supported_result by (auto simp: layout_admissible_def)
  show ?thesis
    using assms l
    by (simp add: ComputeDartCallLayout_def layout_admissible_def reference_layout_def Let_def
        list_all_iff list_ex_iff placed_parameters placed_stack_words)
qed

lemma layout_rejected:
  assumes "ValidateProfile p" "\<not> layout_admissible abi c"
  shows "fst (ComputeDartCallLayout abi p (Some old) c) \<noteq> LayoutOk \<and>
    snd (ComputeDartCallLayout abi p (Some old) c) = Some call_layout_0"
  using assms
  by (auto simp: ComputeDartCallLayout_def layout_admissible_def list_all_iff list_ex_iff)

text \<open>
  C4: The layout of a call is computed exactly when the evidence is complete, free of conflict
  and in supported representations; it is then the reference layout (greedy registers in
  formal order below the register limit, the other formals on the entry stack), and in every
  other case the caller's layout has been reset and no part of a layout is published.
\<close>

theorem layout_refines_reference:
  assumes "ValidateProfile p"
  shows "ComputeDartCallLayout abi p (Some old) c =
    (if layout_admissible abi c then (LayoutOk, Some (reference_layout abi p))
     else (fst (ComputeDartCallLayout abi p (Some old) c), Some call_layout_0)) \<and>
    (fst (ComputeDartCallLayout abi p (Some old) c) = LayoutOk \<longleftrightarrow> layout_admissible abi c)"
  using layout_ok [OF assms] layout_rejected [OF assms] by (cases "layout_admissible abi c") (auto simp: prod_eq_iff)

definition sample_resolution :: abi_resolution where
  "sample_resolution = ResolveFunctionAbiEvidence
     [\<lparr>fe_parameters = [sample_slot RepTagged SrcCompilerOracle,
          sample_slot RepUnboxedDouble SrcCompilerOracle,
          sample_slot RepUnboxedInt64 SrcCompilerOracle, sample_slot RepTagged SrcCompilerOracle],
       fe_result = sample_slot RepTagged SrcCompilerOracle,
       fe_has_stack_calling_convention = True, fe_must_use_stack_calling_convention = False,
       fe_has_overrides_with_less_direct_parameters = False,
       fe_has_optional_parameter_info = True, fe_has_optional_parameters = False,
       fe_has_max_parameters_in_registers = True, fe_max_parameters_in_registers = 2,
       fe_is_closure = False\<rparr>] 4"

lemma sample_profile_valid: "ValidateProfile Arm64AotCallingConventionProfile"
  by (simp add: ValidateProfile_def Arm64AotCallingConventionProfile_def)

lemma sample_resolution_admissible: "layout_admissible sample_resolution False"
  by code_simp

theorem layout_refines_reference_witness:
  "ComputeDartCallLayout sample_resolution Arm64AotCallingConventionProfile (Some call_layout_0) False =
     (LayoutOk, Some (reference_layout sample_resolution Arm64AotCallingConventionProfile)) \<and>
   map (\<lambda>x. hd (vl_locations (pl_location x)))
     (cl_parameters (reference_layout sample_resolution Arm64AotCallingConventionProfile)) =
     [Gp 1, Fpu 0, EntryStack 1 8, EntryStack 0 8]"
proof
  show "ComputeDartCallLayout sample_resolution Arm64AotCallingConventionProfile (Some call_layout_0) False =
     (LayoutOk, Some (reference_layout sample_resolution Arm64AotCallingConventionProfile))"
    using layout_refines_reference [OF sample_profile_valid, of sample_resolution call_layout_0 False]
      sample_resolution_admissible by simp
  show "map (\<lambda>x. hd (vl_locations (pl_location x)))
     (cl_parameters (reference_layout sample_resolution Arm64AotCallingConventionProfile)) =
     [Gp 1, Fpu 0, EntryStack 1 8, EntryStack 0 8]" by code_simp
qed

section \<open>ARM64: no two formals share a location\<close>

abbreviation arm64_location :: "nat \<Rightarrow> representation list \<Rightarrow> nat \<Rightarrow> abi_location" where
  "arm64_location \<equiv> expected_location Arm64AotCallingConventionProfile"

abbreviation arm64_in_register :: "nat \<Rightarrow> representation list \<Rightarrow> nat \<Rightarrow> bool" where
  "arm64_in_register \<equiv> in_register Arm64AotCallingConventionProfile"

lemma gp_rank_mono:
  assumes "i < j" "j < length rs" "gp_like (rs ! i)"
  shows "gp_rank rs i < gp_rank rs j"
proof -
  have "gp_rank rs (Suc i) \<le> gp_rank rs j"
    using assms(1) unfolding gp_rank_def
    by (metis Suc_leI filter_append length_append le_add1 min.absorb1 take_add nat_le_iff_add)
  then show ?thesis using assms rank_Suc(1) [of i rs] by simp
qed

lemma fpu_rank_mono:
  assumes "i < j" "j < length rs" "rs ! i = RepUnboxedDouble"
  shows "fpu_rank rs i < fpu_rank rs j"
proof -
  have "fpu_rank rs (Suc i) \<le> fpu_rank rs j"
    using assms(1) unfolding fpu_rank_def
    by (metis Suc_leI filter_append length_append le_add1 min.absorb1 take_add nat_le_iff_add)
  then show ?thesis using assms rank_Suc(2) [of i rs] by simp
qed

lemma stack_after_mono:
  assumes "i < j" "j < length rs" "\<not> in_register p limit rs j"
  shows "stack_after p limit rs j < stack_after p limit rs i"
proof -
  have "[Suc i..<length rs] = [Suc i..<j] @ j # [Suc j..<length rs]"
    using assms(1,2) upt_add_eq_append [of "Suc i" j "length rs - j"] upt_conv_Cons [of j "length rs"]
    by simp
  then show ?thesis using assms(3) by (simp add: stack_after_def)
qed

lemma stack_after_less: "i < length rs \<Longrightarrow> stack_after p limit rs i < length rs"
  unfolding stack_after_def by (rule le_less_trans [OF length_filter_le]) simp

lemma stack_offset_value:
  assumes "k < 2 ^ 28"
  shows "sint (of_nat k * 8 :: 32 word) = 8 * int k"
proof -
  have "sint (of_int (8 * int k) :: 32 word) = 8 * int k"
    using assms by (simp only: signed_of_int) (simp add: signed_take_bit_int_eq_self)
  then show ?thesis by (simp add: mult.commute)
qed

lemma six_distinct:
  fixes a b :: nat
  assumes "a < 6" "b < 6" "a < b"
  shows "([1, 2, 3, 5, 6, 7, 0, 0] :: u8 list) ! a \<noteq> [1, 2, 3, 5, 6, 7, 0, 0] ! b"
    and "([0, 1, 2, 3, 4, 5, 0, 0] :: u8 list) ! a \<noteq> [0, 1, 2, 3, 4, 5, 0, 0] ! b"
proof -
  let ?g = "[1, 2, 3, 5, 6, 7] :: u8 list" and ?f = "[0, 1, 2, 3, 4, 5] :: u8 list"
  have pref: "(xs @ ys) ! a \<noteq> (xs @ ys) ! b" if "distinct xs" "length xs = 6" for xs ys :: "u8 list"
    using assms that by (simp add: nth_append nth_eq_iff_index_eq)
  show "([1, 2, 3, 5, 6, 7, 0, 0] :: u8 list) ! a \<noteq> [1, 2, 3, 5, 6, 7, 0, 0] ! b"
    using pref [of ?g "[0, 0]"] by simp
  show "([0, 1, 2, 3, 4, 5, 0, 0] :: u8 list) ! a \<noteq> [0, 1, 2, 3, 4, 5, 0, 0] ! b"
    using pref [of ?f "[0, 0]"] by simp
qed

lemma arm64_fields [simp]:
  "cc_gp_argument_registers Arm64AotCallingConventionProfile = [1, 2, 3, 5, 6, 7, 0, 0]"
  "cc_gp_argument_register_count Arm64AotCallingConventionProfile = 6"
  "cc_fpu_argument_registers Arm64AotCallingConventionProfile = [0, 1, 2, 3, 4, 5, 0, 0]"
  "cc_fpu_argument_register_count Arm64AotCallingConventionProfile = 6"
  "cc_word_size Arm64AotCallingConventionProfile = 8"
  by (simp_all add: Arm64AotCallingConventionProfile_def)

lemma arm64_location_cases:
  "arm64_location limit rs i =
    (if \<not> arm64_in_register limit rs i then EntryStack (of_nat (stack_after
        Arm64AotCallingConventionProfile limit rs i)) 8
     else if gp_like (rs ! i) then Gp ([1, 2, 3, 5, 6, 7, 0, 0] ! gp_rank rs i)
     else Fpu ([0, 1, 2, 3, 4, 5, 0, 0] ! fpu_rank rs i))"
  "arm64_in_register limit rs i \<longleftrightarrow> i < limit \<and>
     (gp_like (rs ! i) \<and> gp_rank rs i < 6 \<or> rs ! i = RepUnboxedDouble \<and> fpu_rank rs i < 6)"
  by (simp_all only: expected_location_def in_register_def arm64_fields) simp

lemma location_kinds [simp]:
  "loc_kind (Gp a) = LocGpRegister" "loc_kind (Fpu a) = LocFpuRegister"
  "loc_kind (EntryStack k w) = LocEntryStack"
  "loc_register_index (Gp a) = a" "loc_register_index (Fpu a) = a"
  "loc_stack_offset (EntryStack k w) = k * w"
  by (simp_all add: Gp_def Fpu_def EntryStack_def abi_location_0_def)

lemma arm64_locations_distinct:
  assumes ij: "i < j" "j < length rs" and len: "length rs < 2 ^ 28"
  shows "arm64_location limit rs i \<noteq> arm64_location limit rs j"
proof -
  let ?in = "arm64_in_register limit rs"
  note kinds = location_kinds
  consider (st) "\<not> ?in i" "\<not> ?in j" | (mix) "?in i \<noteq> ?in j" | (reg) "?in i" "?in j" by blast
  then show ?thesis
  proof cases
    case st
    let ?s = "stack_after Arm64AotCallingConventionProfile limit rs"
    have "?s j < ?s i" using stack_after_mono ij st by blast
    moreover have "?s i < 2 ^ 28" using stack_after_less [of i rs] ij len by (meson less_trans)
    ultimately have "sint (of_nat (?s i) * 8 :: 32 word) \<noteq> sint (of_nat (?s j) * 8 :: 32 word)"
      by (simp add: stack_offset_value)
    then show ?thesis using st kinds(6) unfolding arm64_location_cases(1) by metis
  next
    case mix
    then show ?thesis
      using kinds unfolding arm64_location_cases(1) by (metis location_kind.distinct)
  next
    case reg
    show ?thesis
    proof (cases "gp_like (rs ! i) = gp_like (rs ! j)")
      case False
      then show ?thesis
        using reg kinds unfolding arm64_location_cases(1) by (metis location_kind.distinct)
    next
      case same: True
      show ?thesis
      proof (cases "gp_like (rs ! i)")
        case True
        then have "gp_rank rs i < gp_rank rs j" "gp_rank rs j < 6"
          using gp_rank_mono ij reg same by (auto simp: arm64_location_cases(2))
        then have "([1, 2, 3, 5, 6, 7, 0, 0] :: u8 list) ! gp_rank rs i \<noteq>
            [1, 2, 3, 5, 6, 7, 0, 0] ! gp_rank rs j"
          by (intro six_distinct) simp_all
        then show ?thesis
          using reg same True kinds(4) unfolding arm64_location_cases(1) by metis
      next
        case False
        then have "rs ! i = RepUnboxedDouble" "fpu_rank rs j < 6"
          using reg same by (auto simp: arm64_location_cases(2))
        then have "fpu_rank rs i < fpu_rank rs j" "fpu_rank rs j < 6"
          using fpu_rank_mono ij by auto
        then have "([0, 1, 2, 3, 4, 5, 0, 0] :: u8 list) ! fpu_rank rs i \<noteq>
            [0, 1, 2, 3, 4, 5, 0, 0] ! fpu_rank rs j"
          by (intro six_distinct) simp_all
        then show ?thesis
          using reg same False kinds(5) unfolding arm64_location_cases(1) by metis
      qed
    qed
  qed
qed

lemma arm64_stack_kind:
  "loc_kind (arm64_location limit rs j) = LocEntryStack \<longleftrightarrow> \<not> arm64_in_register limit rs j"
  by (simp only: arm64_location_cases(1) location_kinds split: if_split) simp

lemma arm64_stack_offset:
  assumes st: "\<not> arm64_in_register limit rs j" and j: "j < length rs" and len: "length rs < 2 ^ 28"
  shows "sint (loc_stack_offset (arm64_location limit rs j)) =
      8 * int (stack_after Arm64AotCallingConventionProfile limit rs j)"
proof -
  have "stack_after Arm64AotCallingConventionProfile limit rs j < 2 ^ 28"
    using stack_after_less [OF j] len by (rule less_trans)
  then show ?thesis using st by (simp only: arm64_location_cases(1) location_kinds if_True simp_thms
        stack_offset_value not_False_eq_True if_False)
qed

lemma stack_after_bound:
  assumes st: "\<not> in_register p limit rs j" and j: "j < length rs"
  shows "stack_after p limit rs j < length (filter (\<lambda>k. \<not> in_register p limit rs k) [0..<length rs])"
proof -
  have "[0..<length rs] = [0..<j] @ j # [Suc j..<length rs]"
    using j upt_add_eq_append [of 0 j "length rs - j"] upt_conv_Cons [of j "length rs"] by simp
  then show ?thesis using st by (simp add: stack_after_def)
qed

abbreviation layout_location :: "call_layout \<Rightarrow> nat \<Rightarrow> abi_location" where
  "layout_location L i \<equiv> hd (vl_locations (pl_location (cl_parameters L ! i)))"

lemma reference_location:
  assumes "i < length (ar_parameters abi)"
  shows "layout_location (reference_layout abi p) i = expected_location p
      (unat (register_limit abi)) (map rs_representation (ar_parameters abi)) i"
    and "vl_count (pl_location (cl_parameters (reference_layout abi p) ! i)) = 1"
  using assms by (simp_all add: reference_layout_def Let_def one_location_def)

lemma reference_words:
  assumes "length (ar_parameters abi) < 2 ^ 28"
  shows "unat (cl_stack_words (reference_layout abi p)) =
    length (filter (\<lambda>k. \<not> in_register p (unat (register_limit abi))
      (map rs_representation (ar_parameters abi)) k) [0..<length (ar_parameters abi)])"
    (is "_ = length (filter ?P ?xs)")
proof -
  have "length (filter ?P ?xs) \<le> length ?xs" by (rule length_filter_le)
  then have "length (filter ?P ?xs) < 2 ^ 32" using assms by simp
  from unat_of_nat32 [OF this] show ?thesis by (simp add: reference_layout_def Let_def)
qed

lemma layout_ok_reference:
  "ComputeDartCallLayout abi Arm64AotCallingConventionProfile (Some old) c = (LayoutOk, Some L) \<Longrightarrow>
     L = reference_layout abi Arm64AotCallingConventionProfile"
  using layout_ok [OF sample_profile_valid, of abi c old]
    layout_rejected [OF sample_profile_valid, of abi c old]
  by (metis fst_conv option.sel snd_conv)

text \<open>
  C12: On ARM64 no two formals of a computed layout share a location: each has exactly one, a
  register of its kind or an entry-stack word, the entry-stack offsets are the multiples of
  eight below eight times the stack-word count, and the last stack formal lies at entry SP + 0.
\<close>

theorem arm64_formals_disjoint:
  assumes ok: "ComputeDartCallLayout abi Arm64AotCallingConventionProfile (Some old) c =
      (LayoutOk, Some L)"
    and len: "length (ar_parameters abi) < 2 ^ 28" and j: "j < length (ar_parameters abi)"
  shows "length (cl_parameters L) = length (ar_parameters abi) \<and>
    vl_count (pl_location (cl_parameters L ! j)) = 1 \<and>
    (\<forall>i<j. layout_location L i \<noteq>
           layout_location L j) \<and>
    (loc_kind (layout_location L j) = LocEntryStack \<longrightarrow>
      (\<exists>k < unat (cl_stack_words L).
        sint (loc_stack_offset (layout_location L j)) = 8 * int k))"
proof -
  let ?reps = "map rs_representation (ar_parameters abi)"
  let ?lim = "unat (register_limit abi)"
  have jr: "j < length ?reps" and lr: "length ?reps < 2 ^ 28" using j len by simp_all
  note L = layout_ok_reference [OF ok]
  note at = reference_location(1) [where p = Arm64AotCallingConventionProfile]
  have distinct: "layout_location L i \<noteq> layout_location L j" if i: "i < j" for i
    unfolding L at [OF j] at [OF less_trans [OF i j]]
    by (rule arm64_locations_distinct [OF i jr lr])
  have stack: "\<exists>k < unat (cl_stack_words L). sint (loc_stack_offset (layout_location L j)) = 8 * int k"
    if "loc_kind (layout_location L j) = LocEntryStack"
  proof -
    have st: "\<not> arm64_in_register ?lim ?reps j"
      using that unfolding L at [OF j] arm64_stack_kind .
    show ?thesis
      using arm64_stack_offset [OF st jr lr] stack_after_bound [OF st jr]
      unfolding L at [OF j] reference_words [OF len] length_map by blast
  qed
  have "length (cl_parameters L) = length (ar_parameters abi)"
    by (simp add: L reference_layout_def Let_def)
  moreover have "vl_count (pl_location (cl_parameters L ! j)) = 1"
    unfolding L by (rule reference_location(2) [OF j])
  ultimately show ?thesis using stack distinct by blast
qed

theorem arm64_formals_disjoint_witness:
  "layout_location (reference_layout sample_resolution Arm64AotCallingConventionProfile) 2 \<noteq>
   layout_location (reference_layout sample_resolution Arm64AotCallingConventionProfile) 3"
proof -
  have "length (ar_parameters sample_resolution) = 4" by code_simp
  then show ?thesis
    using arm64_formals_disjoint [OF layout_ok [OF sample_profile_valid sample_resolution_admissible],
        of 3] by simp
qed

end
