(* ===== verification/Value_Codec.thy ===== *)
theory Value_Codec
  imports Prelude
begin

text \<open>
  The word codec of \<^verbatim>\<open>src/abi/value_codec.cpp\<close>: typed values to and from the machine words of
  general and floating-point argument locations, with the Smi tag (low bit 0), the heap-object
  tag (low bit 1) and the validated value of the VM's null register.
\<close>

datatype value_kind =
    ValUnknown | ValRawWord | ValNull | ValBool | ValSmi | ValDouble | ValHeapObject | ValInt64

record dp_value =
  val_kind :: value_kind
  val_reserved :: u32
  val_raw :: u64

definition VM_TAG_MASK :: u64 where
  "VM_TAG_MASK = 1"

definition VM_HEAP_OBJECT_TAG :: u64 where
  "VM_HEAP_OBJECT_TAG = 1"

definition is_tagged_smi :: "u64 \<Rightarrow> bool" where
  "is_tagged_smi raw \<longleftrightarrow> raw AND VM_TAG_MASK = 0"

definition is_tagged_heap_object :: "u64 \<Rightarrow> bool" where
  "is_tagged_heap_object raw \<longleftrightarrow> raw AND VM_TAG_MASK = VM_HEAP_OBJECT_TAG"

definition decode_gp_word :: "u64 \<Rightarrow> bool \<Rightarrow> u64 \<Rightarrow> dp_value" where
  "decode_gp_word raw is_tagged null_value =
     (if \<not> is_tagged then \<lparr>val_kind = ValRawWord, val_reserved = 0, val_raw = raw\<rparr>
      else if null_value \<noteq> 0 \<and> raw = null_value
      then \<lparr>val_kind = ValNull, val_reserved = 0, val_raw = raw\<rparr>
      else \<lparr>val_kind = (if is_tagged_heap_object raw then ValHeapObject else ValSmi),
            val_reserved = 0, val_raw = raw\<rparr>)"

definition decode_fp_word :: "u64 \<Rightarrow> dp_value" where
  "decode_fp_word raw = \<lparr>val_kind = ValDouble, val_reserved = 0, val_raw = raw\<rparr>"

text \<open>
  The encoders return the status and the new content of \<open>*out_raw\<close>, which keeps its old
  content on every error.
\<close>

definition encode_gp_word ::
    "dp_value nullable \<Rightarrow> bool \<Rightarrow> u64 \<Rightarrow> u64 nullable \<Rightarrow> dp_status \<times> u64 nullable" where
  "encode_gp_word value is_tagged null_value out =
     (case (value, out) of
        (Some v, Some _) \<Rightarrow>
          if \<not> is_tagged then
            (if val_kind v \<noteq> ValRawWord then (DP_UNSUPPORTED_ABI, out)
             else (DP_OK, Some (val_raw v)))
          else if val_kind v = ValNull then
            (if null_value = 0 then (DP_UNSUPPORTED_ABI, out) else (DP_OK, Some null_value))
          else if val_kind v = ValSmi \<and> \<not> is_tagged_smi (val_raw v)
          then (DP_PROFILE_MISMATCH, out)
          else if val_kind v = ValHeapObject \<and> \<not> is_tagged_heap_object (val_raw v)
          then (DP_PROFILE_MISMATCH, out)
          else if val_kind v = ValBool \<or> val_kind v = ValDouble \<or> val_kind v = ValInt64
          then (DP_UNSUPPORTED_ABI, out)
          else (DP_OK, Some (val_raw v))
      | _ \<Rightarrow> (DP_INVALID_ARGUMENT, out))"

definition encode_fp_word :: "dp_value nullable \<Rightarrow> u64 nullable \<Rightarrow> dp_status \<times> u64 nullable" where
  "encode_fp_word value out =
     (case (value, out) of
        (Some v, Some _) \<Rightarrow>
          if val_kind v \<noteq> ValDouble \<and> val_kind v \<noteq> ValRawWord \<and> val_kind v \<noteq> ValUnknown
          then (DP_PROFILE_MISMATCH, out)
          else (DP_OK, Some (val_raw v))
      | _ \<Rightarrow> (DP_INVALID_ARGUMENT, out))"

lemmas codec_defs = encode_gp_word_def encode_fp_word_def decode_gp_word_def decode_fp_word_def

lemma tag_bit: "x AND 1 = (if bit x 0 then 1 else 0)" for x :: u64
  by (rule bit_word_eqI) (auto simp: bit_simps bit_1_iff intro: gr0I)

lemma tag_dichotomy: "is_tagged_smi raw \<longleftrightarrow> \<not> is_tagged_heap_object raw"
  by (simp add: is_tagged_smi_def is_tagged_heap_object_def VM_TAG_MASK_def
      VM_HEAP_OBJECT_TAG_def tag_bit)



end
