(* ===== verification/Elf_Load.thy ===== *)
theory Elf_Load
  imports Prelude
begin

text \<open>
  Program headers and the ELF virtual-address to file-offset mapping of
  \<^verbatim>\<open>src/elf/dynamic_view.cpp\<close>: checked address arithmetic, validation of the PT_LOAD layout
  and of its file bounds, translation of an address range, permission checks, and the unique
  lookup of a program header.
\<close>

section \<open>Program headers\<close>

record phdr =
  ph_type :: u32
  ph_flags :: u32
  ph_offset :: u64
  ph_va :: u64
  ph_file_size :: u64
  ph_memory_size :: u64
  ph_alignment :: u64

definition phdr_0 :: phdr where
  "phdr_0 = \<lparr>ph_type = 0, ph_flags = 0, ph_offset = 0, ph_va = 0, ph_file_size = 0,
     ph_memory_size = 0, ph_alignment = 0\<rparr>"

definition PT_LOAD :: u32 where "PT_LOAD = 1"
definition PT_DYNAMIC :: u32 where "PT_DYNAMIC = 2"
definition PT_NOTE :: u32 where "PT_NOTE = 4"
definition PF_X :: u32 where "PF_X = 1"
definition PF_R :: u32 where "PF_R = 4"


section \<open>Checked arithmetic\<close>

definition RangeFits :: "u64 \<Rightarrow> u64 \<Rightarrow> u64 \<Rightarrow> bool" where
  "RangeFits start n limit \<longleftrightarrow> start \<le> limit \<and> n \<le> limit - start"

definition CheckedAddVa :: "u64 \<Rightarrow> u64 \<Rightarrow> u64 option" where
  "CheckedAddVa base offset =
     (if base > UINT64_MAX - offset then None else Some (base + offset))"

definition CheckedMul :: "u64 \<Rightarrow> u64 \<Rightarrow> u64 option" where
  "CheckedMul left right =
     (if left \<noteq> 0 \<and> right > UINT64_MAX div left then None else Some (left * right))"

definition CheckedMulAddVa :: "u64 \<Rightarrow> u64 \<Rightarrow> u64 \<Rightarrow> u64 option" where
  "CheckedMulAddVa base index stride =
     (case CheckedMul index stride of None \<Rightarrow> None | Some offset \<Rightarrow> CheckedAddVa base offset)"

definition IsValidLoadAlignment :: "u64 \<Rightarrow> u64 \<Rightarrow> u64 \<Rightarrow> bool" where
  "IsValidLoadAlignment alignment offset va \<longleftrightarrow>
     (if alignment \<le> 1 then True
      else alignment AND (alignment - 1) = 0 \<and> va mod alignment = offset mod alignment)"

lemma unat_max [simp]: "unat UINT64_MAX = 2 ^ 64 - 1"
  by (simp add: UINT64_MAX_def)

lemma unat_lt64: "unat (x :: u64) < 2 ^ 64"
  using unsigned_less [of x, where ?'a = nat] by simp

lemma le_max [simp]: "x \<le> UINT64_MAX"
  using unat_lt64 [of x] by (simp add: word_le_nat_alt)

lemma unat_sub_le: "y \<le> x \<Longrightarrow> unat (x - y) = unat x - unat y" for x y :: u64
  by (simp add: unat_sub)

lemma unat_room [simp]: "unat (UINT64_MAX - x) = 2 ^ 64 - 1 - unat x"
  by (simp add: unat_sub_le)

lemma unat_add_fits: "unat x + unat y < 2 ^ 64 \<Longrightarrow> unat (x + y) = unat x + unat y" for x y :: u64
  by (simp add: unat_word_ariths)

lemma unat_mult_fits: "unat x * unat y < 2 ^ 64 \<Longrightarrow> unat (x * y) = unat x * unat y" for x y :: u64
  by (simp add: unat_word_ariths)

lemma add_exceeds [checked_simps]: "x > UINT64_MAX - y \<longleftrightarrow> unat x + unat y \<ge> 2 ^ 64"
  using unat_lt64 [of x] unat_lt64 [of y] by (simp add: word_less_nat_alt) linarith

lemma CheckedAddVa_iff [checked_simps]:
  "CheckedAddVa a b = Some c \<longleftrightarrow> unat a + unat b < 2 ^ 64 \<and> c = a + b"
  "CheckedAddVa a b = None \<longleftrightarrow> unat a + unat b \<ge> 2 ^ 64"
  by (auto simp: CheckedAddVa_def add_exceeds)

lemma mul_exceeds:
  assumes "x \<noteq> 0"
  shows "y > UINT64_MAX div x \<longleftrightarrow> unat x * unat y \<ge> 2 ^ 64"
proof -
  have x: "0 < unat x" using assms by (simp add: unat_gt_0)
  have "y > UINT64_MAX div x \<longleftrightarrow> (2 ^ 64 - 1) div unat x < unat y"
    by (simp add: word_less_nat_alt unat_div)
  also have "\<dots> \<longleftrightarrow> 2 ^ 64 - 1 < unat y * unat x"
    using x by (rule div_less_iff_less_mult)
  finally show ?thesis by (auto simp: mult.commute)
qed

lemma CheckedMul_iff [checked_simps]:
  "CheckedMul a b = Some c \<longleftrightarrow> unat a * unat b < 2 ^ 64 \<and> c = a * b"
  "CheckedMul a b = None \<longleftrightarrow> unat a * unat b \<ge> 2 ^ 64"
  by (cases "a = 0"; auto simp: CheckedMul_def mul_exceeds)+

lemma CheckedMulAddVa_iff [checked_simps]:
  "CheckedMulAddVa a i s = Some c \<longleftrightarrow> unat a + unat i * unat s < 2 ^ 64 \<and> c = a + i * s"
proof (cases "unat i * unat s < 2 ^ 64")
  case True
  then have "CheckedMul i s = Some (i * s)" by (simp add: CheckedMul_iff)
  then show ?thesis
    using unat_mult_fits [OF True] by (simp add: CheckedMulAddVa_def CheckedAddVa_iff)
next
  case False
  then have "CheckedMul i s = None" by (simp add: CheckedMul_iff)
  then show ?thesis using False by (simp add: CheckedMulAddVa_def)
qed

lemma RangeFits_iff [checked_simps]: "RangeFits s n l \<longleftrightarrow> unat s + unat n \<le> unat l"
  by (auto simp: RangeFits_def word_le_nat_alt unat_sub_le)

section \<open>Load layout\<close>

definition is_load :: "phdr \<Rightarrow> bool" where
  "is_load h \<longleftrightarrow> ph_type h = PT_LOAD"

text \<open>The loop of \<open>ValidateElfLoadLayout\<close>; the accumulator is the previous PT_LOAD's
  address and end, if one was seen.\<close>

fun validate_load_loop :: "(u64 \<times> u64) option \<Rightarrow> phdr list \<Rightarrow> bool" where
  "validate_load_loop prev [] = True"
| "validate_load_loop prev (h # hs) =
     (if \<not> is_load h then validate_load_loop prev hs
      else if ph_file_size h > ph_memory_size h then False
      else case CheckedAddVa (ph_va h) (ph_memory_size h) of
             None \<Rightarrow> False
           | Some load_end \<Rightarrow>
               if \<not> IsValidLoadAlignment (ph_alignment h) (ph_offset h) (ph_va h) \<or>
                  (case prev of None \<Rightarrow> False
                   | Some (pva, pend) \<Rightarrow> ph_va h < pva \<or> ph_va h < pend)
               then False
               else validate_load_loop (Some (ph_va h, load_end)) hs)"

definition ValidateElfLoadLayout :: "phdr list \<Rightarrow> bool" where
  "ValidateElfLoadLayout headers = validate_load_loop None headers"

definition ValidateElfLoadFileBounds :: "u8 list \<Rightarrow> phdr list \<Rightarrow> bool" where
  "ValidateElfLoadFileBounds bytes headers =
     list_all (\<lambda>h. \<not> (is_load h \<and>
       \<not> RangeFits (ph_offset h) (ph_file_size h) (of_nat (length bytes)))) headers"

definition ValidateElfLoadSegments :: "u8 list \<Rightarrow> phdr list \<Rightarrow> bool" where
  "ValidateElfLoadSegments bytes headers \<longleftrightarrow>
     ValidateElfLoadLayout headers \<and> ValidateElfLoadFileBounds bytes headers"

section \<open>Virtual address to file offset\<close>

definition file_covers :: "phdr \<Rightarrow> u64 \<Rightarrow> u64 \<Rightarrow> bool" where
  "file_covers h va width \<longleftrightarrow> is_load h \<and> \<not> va < ph_va h \<and>
     (let delta = va - ph_va h in
      \<not> (delta \<ge> ph_file_size h \<or> width > ph_file_size h - delta \<or>
         ph_offset h > UINT64_MAX - delta))"

fun va_to_file_loop :: "u64 option \<Rightarrow> phdr list \<Rightarrow> u64 \<Rightarrow> u64 \<Rightarrow> u64 option" where
  "va_to_file_loop result [] va width = result"
| "va_to_file_loop result (h # hs) va width =
     (if \<not> file_covers h va width then va_to_file_loop result hs va width
      else let candidate = ph_offset h + (va - ph_va h) in
        case result of
          Some r \<Rightarrow> if r \<noteq> candidate then None
                    else va_to_file_loop (Some candidate) hs va width
        | None \<Rightarrow> va_to_file_loop (Some candidate) hs va width)"

definition ElfVaToFileOffset :: "phdr list \<Rightarrow> u64 \<Rightarrow> u64 \<Rightarrow> u64 option" where
  "ElfVaToFileOffset headers va width =
     (if width = 0 then None else va_to_file_loop None headers va width)"

definition ElfVaRangeHasFlags :: "phdr list \<Rightarrow> u64 \<Rightarrow> u64 \<Rightarrow> u32 \<Rightarrow> bool \<Rightarrow> bool" where
  "ElfVaRangeHasFlags headers va width required_flags loaded_image \<longleftrightarrow>
     width \<noteq> 0 \<and>
     list_ex (\<lambda>h. is_load h \<and> ph_flags h AND required_flags = required_flags \<and> \<not> va < ph_va h \<and>
       (let available = (if loaded_image then ph_memory_size h else ph_file_size h);
            delta = va - ph_va h
        in delta < available \<and> width \<le> available - delta)) headers"

text \<open>\<open>file_size > SIZE_MAX\<close> is false on a 64-bit target.\<close>

definition ElfProgramHeaderHasCanonicalFileBacking :: "phdr list \<Rightarrow> phdr \<Rightarrow> u32 \<Rightarrow> bool" where
  "ElfProgramHeaderHasCanonicalFileBacking headers h required_flags \<longleftrightarrow>
     \<not> (ph_file_size h = 0 \<or> ph_file_size h > ph_memory_size h) \<and>
     ElfVaToFileOffset headers (ph_va h) (ph_file_size h) = Some (ph_offset h) \<and>
     ElfVaRangeHasFlags headers (ph_va h) (ph_file_size h) required_flags False"

section \<open>Lookup of a program header\<close>

datatype phdr_lookup_status = PhFound | PhMissing | PhAmbiguous

record phdr_lookup =
  phl_status :: phdr_lookup_status
  phl_header :: phdr

fun find_phdr_loop :: "phdr_lookup \<Rightarrow> bool \<Rightarrow> phdr list \<Rightarrow> u32 \<Rightarrow> phdr_lookup" where
  "find_phdr_loop result found [] type = result"
| "find_phdr_loop result found (h # hs) type =
     (if ph_type h \<noteq> type then find_phdr_loop result found hs type
      else if found then \<lparr>phl_status = PhAmbiguous, phl_header = phdr_0\<rparr>
      else find_phdr_loop \<lparr>phl_status = PhFound, phl_header = h\<rparr> True hs type)"

definition FindElfProgramHeader :: "phdr list \<Rightarrow> u32 \<Rightarrow> phdr_lookup" where
  "FindElfProgramHeader headers type =
     find_phdr_loop \<lparr>phl_status = PhMissing, phl_header = phdr_0\<rparr> False headers type"

section \<open>Facts\<close>

definition in_memory :: "phdr \<Rightarrow> nat \<Rightarrow> bool" where
  "in_memory h v \<longleftrightarrow> unat (ph_va h) \<le> v \<and> v < unat (ph_va h) + unat (ph_memory_size h)"

definition load_sane :: "phdr \<Rightarrow> bool" where
  "load_sane h \<longleftrightarrow> unat (ph_file_size h) \<le> unat (ph_memory_size h) \<and>
     unat (ph_va h) + unat (ph_memory_size h) < 2 ^ 64 \<and>
     IsValidLoadAlignment (ph_alignment h) (ph_offset h) (ph_va h)"

definition load_before :: "phdr \<Rightarrow> phdr \<Rightarrow> bool" where
  "load_before a b \<longleftrightarrow> unat (ph_va a) + unat (ph_memory_size a) \<le> unat (ph_va b)"

lemma validate_load_loop_sound:
  assumes "validate_load_loop prev hs"
  shows "(\<forall>h \<in> set hs. is_load h \<longrightarrow> load_sane h \<and>
            (case prev of None \<Rightarrow> True | Some (_, e) \<Rightarrow> unat e \<le> unat (ph_va h))) \<and>
         sorted_wrt load_before (filter is_load hs)"
  using assms
proof (induction hs arbitrary: prev)
  case Nil
  show ?case by simp
next
  case (Cons h hs)
  show ?case
  proof (cases "is_load h")
    case False
    then show ?thesis using Cons by simp
  next
    case load: True
    let ?e = "ph_va h + ph_memory_size h"
    have add: "CheckedAddVa (ph_va h) (ph_memory_size h) = Some ?e"
      and fm: "ph_file_size h \<le> ph_memory_size h"
      and al: "IsValidLoadAlignment (ph_alignment h) (ph_offset h) (ph_va h)"
      and pr: "case prev of None \<Rightarrow> True | Some (_, e) \<Rightarrow> unat e \<le> unat (ph_va h)"
      and rest: "validate_load_loop (Some (ph_va h, ?e)) hs"
      using Cons.prems load
      by (auto simp: CheckedAddVa_iff word_le_nat_alt not_less split: if_splits option.splits)
    have e: "unat ?e = unat (ph_va h) + unat (ph_memory_size h)"
      using add by (simp add: CheckedAddVa_iff unat_add_fits)
    have sane: "load_sane h"
      using add fm al by (simp add: load_sane_def CheckedAddVa_iff word_le_nat_alt)
    note IH = Cons.IH [OF rest]
    have below: "load_before h k" if "k \<in> set hs" "is_load k" for k
      using IH that e by (auto simp: load_before_def)
    have mono: "case prev of None \<Rightarrow> True | Some (_, e) \<Rightarrow> unat e \<le> unat (ph_va k)"
      if "k \<in> set hs" "is_load k" for k
      using below [OF that] pr by (auto simp: load_before_def split: option.splits)
    show ?thesis
      using IH sane pr below mono load by auto
  qed
qed

lemmas layout_sound = validate_load_loop_sound [where prev = None, folded ValidateElfLoadLayout_def]

lemma layout_sane: "ValidateElfLoadLayout hs \<Longrightarrow> h \<in> set hs \<Longrightarrow> is_load h \<Longrightarrow> load_sane h"
  using layout_sound by blast

lemma layout_disjoint:
  assumes v: "ValidateElfLoadLayout hs" and a: "a \<in> set hs" "is_load a" "in_memory a x"
    and b: "b \<in> set hs" "is_load b" "in_memory b x"
  shows "a = b"
proof (rule ccontr)
  assume ne: "a \<noteq> b"
  let ?l = "filter is_load hs"
  have s: "sorted_wrt load_before ?l" using layout_sound [OF v] by blast
  obtain i j where ij: "i < length ?l" "?l ! i = a" "j < length ?l" "?l ! j = b"
    using a b by (metis (mono_tags, lifting) in_set_conv_nth mem_Collect_eq set_filter)
  then have "load_before a b \<or> load_before b a"
    using s ne unfolding sorted_wrt_iff_nth_less by (metis linorder_neqE_nat)
  then show False using a(3) b(3) by (auto simp: load_before_def in_memory_def)
qed

lemma file_covers_nat:
  "file_covers h va w \<longleftrightarrow> is_load h \<and> unat (ph_va h) \<le> unat va \<and>
     unat va - unat (ph_va h) < unat (ph_file_size h) \<and>
     unat va - unat (ph_va h) + unat w \<le> unat (ph_file_size h) \<and>
     unat (ph_offset h) + (unat va - unat (ph_va h)) < 2 ^ 64"
proof (cases "ph_va h \<le> va")
  case False
  then have "va < ph_va h" "\<not> unat (ph_va h) \<le> unat va"
    by (simp_all add: word_le_nat_alt word_less_nat_alt)
  then show ?thesis by (simp add: file_covers_def)
next
  case True
  let ?d = "va - ph_va h"
  have d: "unat ?d = unat va - unat (ph_va h)" using True by (rule unat_sub_le)
  have le: "unat (ph_va h) \<le> unat va" "\<not> va < ph_va h"
    using True by (simp_all add: word_le_nat_alt word_less_nat_alt)
  show ?thesis
  proof (cases "?d < ph_file_size h")
    case False
    then have "\<not> unat va - unat (ph_va h) < unat (ph_file_size h)"
      using d by (simp add: word_less_nat_alt)
    then show ?thesis using False by (simp add: file_covers_def Let_def not_less)
  next
    case inside: True
    then have n: "unat va - unat (ph_va h) < unat (ph_file_size h)"
      using d by (simp add: word_less_nat_alt)
    have w: "w > ph_file_size h - ?d \<longleftrightarrow> unat w > unat (ph_file_size h) - unat ?d"
      using inside by (simp add: word_less_nat_alt unat_sub_le less_imp_le)
    have o: "ph_offset h > UINT64_MAX - ?d \<longleftrightarrow> unat (ph_offset h) + unat ?d \<ge> 2 ^ 64"
      by (rule add_exceeds)
    show ?thesis
      using inside n le unfolding file_covers_def Let_def w o d by auto
  qed
qed

definition file_address :: "phdr \<Rightarrow> u64 \<Rightarrow> u64" where
  "file_address h va = ph_offset h + (va - ph_va h)"

lemma unat_file_address:
  "file_covers h va w \<Longrightarrow> unat (file_address h va) = unat (ph_offset h) + (unat va - unat (ph_va h))"
proof -
  assume c: "file_covers h va w"
  then have "unat (va - ph_va h) = unat va - unat (ph_va h)"
    by (simp add: file_covers_nat unat_sub_le word_le_nat_alt)
  then show ?thesis
    using c unat_add_fits [of "ph_offset h" "va - ph_va h"]
    by (simp only: file_covers_nat file_address_def)
qed

lemma va_to_file_loop_iff:
  "va_to_file_loop r hs va w = Some c \<longleftrightarrow>
     set_option r \<union> {file_address h va | h. h \<in> set hs \<and> file_covers h va w} = {c}"
proof (induction hs arbitrary: r)
  case Nil
  show ?case by (cases r) auto
next
  case (Cons h hs)
  let ?S = "{file_address h va | h. h \<in> set hs \<and> file_covers h va w}"
  show ?case
  proof (cases "file_covers h va w")
    case False
    then have "{file_address k va | k. k \<in> set (h # hs) \<and> file_covers k va w} = ?S" by auto
    then show ?thesis using False Cons.IH [of r] by simp
  next
    case True
    then have S: "{file_address k va | k. k \<in> set (h # hs) \<and> file_covers k va w} =
        insert (file_address h va) ?S" by auto
    show ?thesis
    proof (cases r)
      case None
      then show ?thesis using True Cons.IH [of "Some (file_address h va)"] unfolding S
        by (simp add: file_address_def)
    next
      case (Some x)
      show ?thesis
      proof (cases "x = file_address h va")
        case True
        then show ?thesis using \<open>file_covers h va w\<close> Some Cons.IH [of "Some (file_address h va)"]
          unfolding S by (simp add: file_address_def)
      next
        case False
        then have "set_option r \<union> insert (file_address h va) ?S \<noteq> {c}" using Some by auto
        then show ?thesis using False True Some unfolding S
          by (simp add: file_address_def)
      qed
    qed
  qed
qed

lemma file_covers_in_memory:
  "load_sane h \<Longrightarrow> file_covers h va w \<Longrightarrow> in_memory h (unat va)"
  by (auto simp: load_sane_def file_covers_nat in_memory_def)

lemma file_offset_covering:
  assumes v: "ValidateElfLoadLayout hs" and h: "h \<in> set hs" "file_covers h va w" and w: "w \<noteq> 0"
  shows "ElfVaToFileOffset hs va w = Some (file_address h va)"
proof -
  have only: "k = h" if "k \<in> set hs" "file_covers k va w" for k
  proof -
    have l: "is_load k" "is_load h" using that h by (auto simp: file_covers_nat)
    show ?thesis
      using layout_disjoint [OF v that(1) l(1) _ h(1) l(2)]
        file_covers_in_memory [OF layout_sane [OF v that(1) l(1)] that(2)]
        file_covers_in_memory [OF layout_sane [OF v h(1) l(2)] h(2)] by blast
  qed
  then have "{file_address k va | k. k \<in> set hs \<and> file_covers k va w} = {file_address h va}"
    using h by blast
  then show ?thesis using w by (simp add: ElfVaToFileOffset_def va_to_file_loop_iff)
qed

lemma file_offset_covered:
  assumes "ElfVaToFileOffset hs va w = Some c"
  shows "w \<noteq> 0 \<and> (\<exists>h \<in> set hs. file_covers h va w \<and> c = file_address h va)"
proof -
  have w: "w \<noteq> 0" and "va_to_file_loop None hs va w = Some c"
    using assms by (auto simp: ElfVaToFileOffset_def split: if_splits)
  then have "{file_address h va | h. h \<in> set hs \<and> file_covers h va w} = {c}"
    by (simp add: va_to_file_loop_iff)
  then show ?thesis using w by blast
qed

lemma file_bounds:
  assumes "ValidateElfLoadFileBounds bytes hs" "length bytes < 2 ^ 64" "h \<in> set hs" "is_load h"
  shows "unat (ph_offset h) + unat (ph_file_size h) \<le> length bytes"
  using assms by (auto simp: ValidateElfLoadFileBounds_def list_all_iff RangeFits_iff unat_of_nat64)

section \<open>Properties\<close>

text \<open>
  In an accepted load layout one address range has one place in the file: every range
  covered by the file part of some PT_LOAD translates, to that segment's offset plus the
  distance into it, whatever other headers there are; nothing else translates; and with
  accepted file bounds the whole translated range lies inside the file.
\<close>

theorem file_mapping_unique:
  assumes v: "ValidateElfLoadSegments bytes hs" and len: "length bytes < 2 ^ 64" and w: "w \<noteq> 0"
  shows "(\<forall>h \<in> set hs. file_covers h va w \<longrightarrow>
       ElfVaToFileOffset hs va w = Some (file_address h va)) \<and>
    (\<forall>off. ElfVaToFileOffset hs va w = Some off \<longrightarrow>
       (\<exists>h \<in> set hs. file_covers h va w \<and>
          unat off = unat (ph_offset h) + (unat va - unat (ph_va h))) \<and>
       unat off + unat w \<le> length bytes)"
proof -
  have lay: "ValidateElfLoadLayout hs" and fb: "ValidateElfLoadFileBounds bytes hs"
    using v by (simp_all add: ValidateElfLoadSegments_def)
  have "(\<exists>h \<in> set hs. file_covers h va w \<and>
          unat off = unat (ph_offset h) + (unat va - unat (ph_va h))) \<and>
       unat off + unat w \<le> length bytes" if tr: "ElfVaToFileOffset hs va w = Some off" for off
  proof -
    obtain h where h: "h \<in> set hs" "file_covers h va w" "off = file_address h va"
      using file_offset_covered [OF tr] by blast
    have off: "unat off = unat (ph_offset h) + (unat va - unat (ph_va h))"
      using h unat_file_address by blast
    have "unat (ph_offset h) + unat (ph_file_size h) \<le> length bytes"
      using file_bounds [OF fb len h(1)] h(2) by (simp add: file_covers_nat)
    then show ?thesis using h off by (auto simp: file_covers_nat)
  qed
  then show ?thesis using file_offset_covering [OF lay _ _ w] by blast
qed

definition sample_text :: phdr where
  "sample_text = \<lparr>ph_type = PT_LOAD, ph_flags = 5, ph_offset = 0, ph_va = 0x1000,
     ph_file_size = 8, ph_memory_size = 16, ph_alignment = 0\<rparr>"

definition sample_data :: phdr where
  "sample_data = \<lparr>ph_type = PT_LOAD, ph_flags = 4, ph_offset = 8, ph_va = 0x2000,
     ph_file_size = 4, ph_memory_size = 4, ph_alignment = 1\<rparr>"

definition sample_bytes :: "u8 list" where
  "sample_bytes = [1, 2, 3, 4, 5, 6, 7, 8, 9, 10, 11, 12]"

lemma sample_segments: "ValidateElfLoadSegments sample_bytes [sample_text, sample_data]"
  by code_simp

theorem file_mapping_unique_witness:
  "ElfVaToFileOffset [sample_text, sample_data] 0x2001 2 = Some 9"
proof -
  have c: "file_covers sample_data 0x2001 2" by code_simp
  have "file_address sample_data 0x2001 = 9" by code_simp
  then show ?thesis
    using file_mapping_unique [OF sample_segments, of 2 "0x2001"] c
    by (simp add: sample_bytes_def)
qed

lemma find_phdr_loop_spec:
  "find_phdr_loop r found hs t =
     (case (found, filter (\<lambda>h. ph_type h = t) hs) of
        (_, []) \<Rightarrow> r
      | (False, [h]) \<Rightarrow> \<lparr>phl_status = PhFound, phl_header = h\<rparr>
      | _ \<Rightarrow> \<lparr>phl_status = PhAmbiguous, phl_header = phdr_0\<rparr>)"
  by (induction hs arbitrary: r found) (auto split: bool.splits list.splits)

text \<open>
  The lookup of a header type distinguishes exactly the three cases: none, the only one
  (which it returns), or several.
\<close>

theorem find_header_exact:
  "FindElfProgramHeader hs t =
     (case filter (\<lambda>h. ph_type h = t) hs of
        [] \<Rightarrow> \<lparr>phl_status = PhMissing, phl_header = phdr_0\<rparr>
      | [h] \<Rightarrow> \<lparr>phl_status = PhFound, phl_header = h\<rparr>
      | _ \<Rightarrow> \<lparr>phl_status = PhAmbiguous, phl_header = phdr_0\<rparr>)"
  by (simp add: FindElfProgramHeader_def find_phdr_loop_spec split: list.splits)

end
