(* ===== verification/Elf_Reader.thy ===== *)
theory Elf_Reader
  imports Elf_Load
begin

text \<open>
  The three bounded readers of one ELF virtual-address space (\<^verbatim>\<open>src/elf/dynamic_view.h\<close>):
  of a loaded image, of the file-backed part of a loaded image, and of an artifact file.  The
  interface they share is the locale \<open>elf_reader\<close>; that one reader answers no more than
  another is the locale \<open>reader_refinement\<close>, interpreted on the file-backed reader against
  both others.
\<close>

section \<open>The interface\<close>

text \<open>
  \<open>Read(va, output, size)\<close> with a non-null output returns the bytes on success;
  \<open>ReadableBytes(va)\<close> is optional.
\<close>

record va_reader =
  rd_read :: "u64 \<Rightarrow> u64 \<Rightarrow> u8 list option"
  rd_readable :: "u64 \<Rightarrow> u64 option"

type_synonym memory = "ptr \<Rightarrow> u8"

definition mem_bytes :: "memory \<Rightarrow> ptr \<Rightarrow> u64 \<Rightarrow> u8 list" where
  "mem_bytes mem p n = map (\<lambda>i. mem (p + of_nat i)) [0..<unat n]"

section \<open>The loaded image\<close>

fun loaded_readable :: "phdr list \<Rightarrow> u64 \<Rightarrow> u64 option" where
  "loaded_readable [] va = None"
| "loaded_readable (h # hs) va =
     (if \<not> is_load h \<or> ph_flags h AND PF_R = 0 \<or> va < ph_va h then loaded_readable hs va
      else let delta = va - ph_va h in
        if delta < ph_memory_size h then Some (ph_memory_size h - delta)
        else loaded_readable hs va)"

definition copy_loaded :: "ptr \<Rightarrow> memory \<Rightarrow> u64 \<Rightarrow> u64 \<Rightarrow> u8 list option" where
  "copy_loaded load_bias mem va n =
     (if va > UINT64_MAX - load_bias then None
      else let runtime = load_bias + va in
        if n > UINT64_MAX - runtime then None else Some (mem_bytes mem runtime n))"

definition LoadedElfReader :: "ptr \<Rightarrow> memory \<Rightarrow> phdr list \<Rightarrow> va_reader" where
  "LoadedElfReader load_bias mem headers =
     \<lparr>rd_read = (\<lambda>va n.
        if n = 0 then None
        else case loaded_readable headers va of
               None \<Rightarrow> None
             | Some remaining \<Rightarrow>
                 if n > remaining then None else copy_loaded load_bias mem va n),
      rd_readable = loaded_readable headers\<rparr>"

section \<open>The file-backed part of the loaded image\<close>

fun file_backed_loop :: "(u64 \<times> u64) option \<Rightarrow> phdr list \<Rightarrow> u64 \<Rightarrow> u64 option" where
  "file_backed_loop found [] va = map_option fst found"
| "file_backed_loop found (h # hs) va =
     (if \<not> is_load h \<or> va < ph_va h then file_backed_loop found hs va
      else let delta = va - ph_va h in
        if delta \<ge> ph_file_size h \<or> ph_offset h > UINT64_MAX - delta
        then file_backed_loop found hs va
        else let candidate_offset = ph_offset h + delta;
                 candidate_remaining = ph_file_size h - delta in
          if ph_flags h AND PF_R = 0 then None
          else case found of
                 None \<Rightarrow> file_backed_loop (Some (candidate_remaining, candidate_offset)) hs va
               | Some (remaining, file_offset) \<Rightarrow>
                   if file_offset \<noteq> candidate_offset then None
                   else file_backed_loop (Some (min remaining candidate_remaining, candidate_offset))
                          hs va)"

definition FileBackedLoadedElfReader :: "ptr \<Rightarrow> memory \<Rightarrow> phdr list \<Rightarrow> va_reader" where
  "FileBackedLoadedElfReader load_bias mem headers =
     \<lparr>rd_read = (\<lambda>va n.
        if n = 0 then None
        else case (file_backed_loop None headers va, ElfVaToFileOffset headers va n) of
               (Some remaining, Some _) \<Rightarrow>
                 if n > remaining then None else copy_loaded load_bias mem va n
             | _ \<Rightarrow> None),
      rd_readable = file_backed_loop None headers\<rparr>"

section \<open>The artifact file\<close>

fun file_readable :: "u8 list \<Rightarrow> phdr list \<Rightarrow> u64 \<Rightarrow> u64 option" where
  "file_readable bytes [] va = None"
| "file_readable bytes (h # hs) va =
     (if \<not> is_load h \<or> va < ph_va h then file_readable bytes hs va
      else let delta = va - ph_va h in
        if delta \<ge> ph_file_size h \<or> ph_offset h > of_nat (length bytes)
        then file_readable bytes hs va
        else let file_available = of_nat (length bytes) - ph_offset h in
          if delta \<ge> file_available then file_readable bytes hs va
          else Some (min (ph_file_size h - delta) (file_available - delta)))"

definition FileElfReader :: "u8 list \<Rightarrow> phdr list \<Rightarrow> va_reader" where
  "FileElfReader bytes headers =
     \<lparr>rd_read = (\<lambda>va n.
        if n = 0 then None
        else case ElfVaToFileOffset headers va n of
               None \<Rightarrow> None
             | Some offset \<Rightarrow>
                 if offset > of_nat (length bytes) \<or> n > of_nat (length bytes) - offset then None
                 else Some (take (unat n) (drop (unat offset) bytes))),
      rd_readable = file_readable bytes headers\<rparr>"

section \<open>Laws of a reader\<close>

text \<open>
  \<open>sound_layout\<close> is the reader's documented precondition on its headers (none for the loaded
  reader).
\<close>

locale elf_reader =
  fixes rd :: va_reader and sound_layout :: bool
  assumes read_length: "rd_read rd va n = Some bs \<Longrightarrow> n \<noteq> 0 \<and> length bs = unat n"
    and read_no_wrap: "sound_layout \<Longrightarrow> rd_read rd va n = Some bs \<Longrightarrow>
      unat va + unat n \<le> 2 ^ 64"
    and read_byte: "sound_layout \<Longrightarrow> rd_read rd va n = Some bs \<Longrightarrow> k < unat n \<Longrightarrow>
      rd_read rd (va + of_nat k) 1 = Some [bs ! k]"
    and read_readable: "sound_layout \<Longrightarrow> rd_read rd va n = Some bs \<Longrightarrow>
      \<exists>r. rd_readable rd va = Some r \<and> n \<le> r"

text \<open>
  \<open>big\<close> answers everything \<open>small\<close> answers, with the same bytes, and at least as many.
\<close>

locale reader_refinement =
  fixes small big :: va_reader and agrees :: bool
  assumes read_mono: "agrees \<Longrightarrow> rd_read small va n = Some bs \<Longrightarrow> rd_read big va n = Some bs"
    and readable_mono: "agrees \<Longrightarrow> rd_readable small va = Some r \<Longrightarrow>
      \<exists>r'. rd_readable big va = Some r' \<and> r \<le> r'"

section \<open>Facts on the loops\<close>

lemma mem_bytes_length [simp]: "length (mem_bytes mem p n) = unat n"
  by (simp add: mem_bytes_def)

lemma mem_bytes_nth [simp]: "k < unat n \<Longrightarrow> mem_bytes mem p n ! k = mem (p + of_nat k)"
  by (simp add: mem_bytes_def)

lemma copy_loaded_iff:
  "copy_loaded b mem va n = Some bs \<longleftrightarrow>
     unat b + unat va + unat n < 2 ^ 64 \<and> bs = mem_bytes mem (b + va) n"
proof (cases "unat va + unat b < 2 ^ 64")
  case True
  then have s: "unat (b + va) = unat b + unat va" by (simp add: unat_add_fits add.commute)
  have "\<not> va > UINT64_MAX - b" using True by (simp add: add_exceeds)
  moreover have "n > UINT64_MAX - (b + va) \<longleftrightarrow> \<not> unat b + unat va + unat n < 2 ^ 64"
    unfolding add_exceeds s by linarith
  ultimately show ?thesis by (auto simp: copy_loaded_def Let_def)
next
  case False
  then have "va > UINT64_MAX - b" by (simp add: add_exceeds)
  then show ?thesis using False by (simp add: copy_loaded_def)
qed

definition loads_at :: "phdr \<Rightarrow> u64 \<Rightarrow> bool" where
  "loads_at h va \<longleftrightarrow> is_load h \<and> ph_flags h AND PF_R \<noteq> 0 \<and> unat (ph_va h) \<le> unat va \<and>
     unat va - unat (ph_va h) < unat (ph_memory_size h)"

definition file_backs_at :: "phdr \<Rightarrow> u64 \<Rightarrow> bool" where
  "file_backs_at h va \<longleftrightarrow> is_load h \<and> unat (ph_va h) \<le> unat va \<and>
     unat va - unat (ph_va h) < unat (ph_file_size h) \<and>
     unat (ph_offset h) + (unat va - unat (ph_va h)) < 2 ^ 64"

lemma not_below: "\<not> va < ph_va h \<Longrightarrow> unat (va - ph_va h) = unat va - unat (ph_va h)"
  by (simp add: unat_sub_le)

lemma loaded_readable_spec:
  "(case loaded_readable hs va of
      None \<Rightarrow> \<forall>h \<in> set hs. \<not> loads_at h va
    | Some r \<Rightarrow> \<exists>h \<in> set hs. loads_at h va \<and>
        unat r = unat (ph_memory_size h) - (unat va - unat (ph_va h)))"
proof (induction hs)
  case Nil
  show ?case by simp
next
  case (Cons h hs)
  show ?case
  proof (cases "loads_at h va")
    case True
    then have "\<not> va < ph_va h" "va - ph_va h < ph_memory_size h" "is_load h"
        "ph_flags h AND PF_R \<noteq> 0"
      by (simp_all add: loads_at_def word_less_nat_alt unat_sub_le word_le_nat_alt)
    then show ?thesis
      using True by (simp add: unat_sub_le less_imp_le not_below)
  next
    case False
    then have "loaded_readable (h # hs) va = loaded_readable hs va"
      by (auto simp: loads_at_def word_less_nat_alt unat_sub_le word_le_nat_alt Let_def)
    then show ?thesis using Cons False by (auto split: option.splits)
  qed
qed

lemma loaded_readable_Some:
  assumes "loaded_readable hs va = Some r"
  obtains h where "h \<in> set hs" "loads_at h va"
    "unat r = unat (ph_memory_size h) - (unat va - unat (ph_va h))"
  using loaded_readable_spec [of hs va] assms by auto

lemma loaded_readable_at: "h \<in> set hs \<Longrightarrow> loads_at h va \<Longrightarrow> \<exists>r. loaded_readable hs va = Some r"
  using loaded_readable_spec [of hs va] by (auto split: option.splits)

lemma unat_advance: "unat va + k < 2 ^ 64 \<Longrightarrow> unat (va + of_nat k) = unat va + k" for va :: u64
  using unat_of_nat64 [of k] unat_add_fits [of va "of_nat k"] by simp

lemma loaded_reader_laws:
  fixes b mem hs
  defines "rd \<equiv> LoadedElfReader b mem hs"
  assumes read: "rd_read rd va n = Some bs"
  shows "n \<noteq> 0" "length bs = unat n" "unat va + unat n \<le> 2 ^ 64"
    "k < unat n \<Longrightarrow> rd_read rd (va + of_nat k) 1 = Some [bs ! k]"
    "\<exists>r. rd_readable rd va = Some r \<and> n \<le> r"
proof -
  obtain r where n0: "n \<noteq> 0" and r: "loaded_readable hs va = Some r" "n \<le> r"
    and cp: "copy_loaded b mem va n = Some bs"
    using read by (auto simp: rd_def LoadedElfReader_def not_less split: if_splits option.splits)
  then have room: "unat b + unat va + unat n < 2 ^ 64" and bs: "bs = mem_bytes mem (b + va) n"
    by (simp_all add: copy_loaded_iff)
  show "n \<noteq> 0" "length bs = unat n" "unat va + unat n \<le> 2 ^ 64" using n0 room bs by simp_all
  show "\<exists>r. rd_readable rd va = Some r \<and> n \<le> r" using r by (simp add: rd_def LoadedElfReader_def)
  assume k: "k < unat n"
  obtain h where h: "h \<in> set hs" "loads_at h va"
      "unat r = unat (ph_memory_size h) - (unat va - unat (ph_va h))"
    using r(1) by (rule loaded_readable_Some)
  have adv: "unat (va + of_nat k) = unat va + k" using room k by (intro unat_advance) simp
  have "unat n \<le> unat r" using r(2) by (simp add: word_le_nat_alt)
  then have "loads_at h (va + of_nat k)" using h k by (auto simp: loads_at_def adv)
  then obtain r' where r': "loaded_readable hs (va + of_nat k) = Some r'"
    using loaded_readable_at h(1) by blast
  then have "unat r' \<noteq> 0" by (rule loaded_readable_Some) (auto simp: loads_at_def)
  then have one: "\<not> (1 :: u64) > r'" by (simp add: word_less_nat_alt)
  have "copy_loaded b mem (va + of_nat k) 1 = Some (mem_bytes mem (b + (va + of_nat k)) 1)"
    using room k by (simp add: copy_loaded_iff adv)
  moreover have "mem_bytes mem (b + (va + of_nat k)) 1 = [bs ! k]"
    using k by (simp add: bs) (simp add: mem_bytes_def add.assoc)
  ultimately show "rd_read rd (va + of_nat k) 1 = Some [bs ! k]"
    using r' one by (simp add: rd_def LoadedElfReader_def)
qed

interpretation loaded: elf_reader "LoadedElfReader b mem hs" True for b mem hs
  by unfold_locales (blast dest: loaded_reader_laws)+

section \<open>The file-backed readers\<close>

lemma file_covers_backs: "file_covers h va w \<Longrightarrow> file_backs_at h va"
  by (auto simp: file_covers_nat file_backs_at_def)

lemma file_backs_covers: "file_backs_at h va \<longleftrightarrow> file_covers h va 0"
  by (auto simp: file_covers_nat file_backs_at_def)

lemma backs_unique:
  assumes "ValidateElfLoadLayout hs" "h \<in> set hs" "file_backs_at h va" "k \<in> set hs" "file_backs_at k va"
  shows "k = h"
proof -
  have l: "is_load h" "is_load k" using assms by (simp_all add: file_backs_at_def)
  then show ?thesis
    using layout_disjoint [OF assms(1,4) l(2) _ assms(2) l(1)]
      file_covers_in_memory [OF layout_sane [OF assms(1,4) l(2)]]
      file_covers_in_memory [OF layout_sane [OF assms(1,2) l(1)]] assms(3,5)
    unfolding file_backs_covers by blast
qed

definition backed_room :: "phdr \<Rightarrow> u64 \<Rightarrow> u64" where
  "backed_room h va = ph_file_size h - (va - ph_va h)"

lemma unat_backed_room:
  assumes "file_backs_at h va"
  shows "unat (backed_room h va) = unat (ph_file_size h) - (unat va - unat (ph_va h))"
proof -
  have d: "unat (va - ph_va h) = unat va - unat (ph_va h)"
    using assms by (intro unat_sub_le) (simp add: file_backs_at_def word_le_nat_alt)
  then have "va - ph_va h \<le> ph_file_size h"
    using assms by (simp add: file_backs_at_def word_le_nat_alt)
  then show ?thesis unfolding backed_room_def by (simp add: unat_sub_le d)
qed

lemma file_backed_step:
  "file_backed_loop found (h # hs) va =
     (if \<not> file_backs_at h va then file_backed_loop found hs va
      else if ph_flags h AND PF_R = 0 then None
      else case found of
             None \<Rightarrow> file_backed_loop (Some (backed_room h va, file_address h va)) hs va
           | Some (remaining, off) \<Rightarrow>
               if off \<noteq> file_address h va then None
               else file_backed_loop (Some (min remaining (backed_room h va), file_address h va)) hs va)"
proof -
  have "file_backs_at h va \<longleftrightarrow> \<not> (\<not> is_load h \<or> va < ph_va h) \<and>
      \<not> (va - ph_va h \<ge> ph_file_size h \<or> ph_offset h > UINT64_MAX - (va - ph_va h))"
    unfolding file_backs_covers file_covers_def Let_def by auto
  then show ?thesis
    by (cases "file_backs_at h va"; cases found)
      (auto simp: Let_def backed_room_def file_address_def)
qed

lemma file_backed_none: "\<forall>h \<in> set hs. \<not> file_backs_at h va \<Longrightarrow> file_backed_loop f hs va = map_option fst f"
  by (induction hs) (simp_all add: file_backed_step del: file_backed_loop.simps(2))

lemma file_backed_some:
  "file_backed_loop None hs va = Some r \<Longrightarrow>
     \<exists>h \<in> set hs. file_backs_at h va \<and> ph_flags h AND PF_R \<noteq> 0 \<and> r \<le> backed_room h va"
proof -
  have gen: "file_backed_loop (Some (m, off)) hs va = Some r \<Longrightarrow> r \<le> m" for m off hs
  proof (induction hs arbitrary: m off)
    case Nil
    then show ?case by simp
  next
    case (Cons h hs)
    then show ?case
      by (auto simp: file_backed_step simp del: file_backed_loop.simps(2) split: if_splits
          dest: Cons.IH)
  qed
  assume "file_backed_loop None hs va = Some r"
  then show ?thesis
  proof (induction hs)
    case Nil
    then show ?case by simp
  next
    case (Cons h hs)
    then show ?case
      using gen [of "backed_room h va" "file_address h va" hs]
      by (auto simp: file_backed_step simp del: file_backed_loop.simps(2) split: if_splits)
  qed
qed

lemma file_backed_unique:
  assumes "ValidateElfLoadLayout hs" "h \<in> set hs" "file_backs_at h va" "ph_flags h AND PF_R \<noteq> 0"
  shows "file_backed_loop None hs va = Some (backed_room h va)"
proof -
  have only: "\<forall>k \<in> set hs. file_backs_at k va \<longrightarrow> k = h"
    using backs_unique [OF assms(1-3)] by blast
  have some: "file_backed_loop (Some (backed_room h va, file_address h va)) hs va =
      Some (backed_room h va)"
    if "\<forall>k \<in> set hs. file_backs_at k va \<longrightarrow> k = h" for hs
    using that
  proof (induction hs)
    case Nil
    then show ?case by simp
  next
    case (Cons k hs)
    then show ?case
      using assms(4) by (cases "file_backs_at k va") (simp_all add: file_backed_step del: file_backed_loop.simps(2))
  qed
  show ?thesis using only assms(2)
  proof (induction hs)
    case Nil
    then show ?case by simp
  next
    case (Cons k hs)
    show ?case
    proof (cases "file_backs_at k va")
      case True
      then have "k = h" using Cons.prems(1) by simp
      then show ?thesis
        using True assms(4) some [of hs] Cons.prems(1)
        by (simp add: file_backed_step del: file_backed_loop.simps(2))
    next
      case False
      then have "h \<in> set hs" using Cons.prems(2) assms(3) by auto
      then show ?thesis
        using False Cons.IH Cons.prems(1) by (simp add: file_backed_step del: file_backed_loop.simps(2))
    qed
  qed
qed

lemma file_covers_advance:
  assumes c: "file_covers h va n" and k: "k < unat n" and wrap: "unat va + k < 2 ^ 64"
    and space: "unat (ph_offset h) + unat (ph_file_size h) \<le> 2 ^ 64"
  shows "file_covers h (va + of_nat k) 1"
    and "unat (file_address h (va + of_nat k)) = unat (file_address h va) + k"
proof -
  have adv: "unat (va + of_nat k) = unat va + k" using wrap by (rule unat_advance)
  show c': "file_covers h (va + of_nat k) 1"
    using c k space unfolding file_covers_nat adv by auto
  show "unat (file_address h (va + of_nat k)) = unat (file_address h va) + k"
    using unat_file_address [OF c'] unat_file_address [OF c] c
    unfolding adv file_covers_nat by linarith
qed

definition layout_in_file_space :: "phdr list \<Rightarrow> bool" where
  "layout_in_file_space hs \<longleftrightarrow> ValidateElfLoadLayout hs \<and>
     list_all (\<lambda>h. is_load h \<longrightarrow> unat (ph_offset h) + unat (ph_file_size h) \<le> 2 ^ 64) hs"

lemma covers_va_bound:
  assumes "ValidateElfLoadLayout hs" "h \<in> set hs" "file_covers h va n"
  shows "unat va + unat n < 2 ^ 64"
  using layout_sane [OF assms(1,2)] assms(3) by (auto simp: load_sane_def file_covers_nat)

lemma space_bound:
  "layout_in_file_space hs \<Longrightarrow> h \<in> set hs \<Longrightarrow> file_covers h va n \<Longrightarrow>
     unat (ph_offset h) + unat (ph_file_size h) \<le> 2 ^ 64"
  by (auto simp: layout_in_file_space_def list_all_iff file_covers_nat)

lemma file_backed_read_iff:
  "rd_read (FileBackedLoadedElfReader b mem hs) va n = Some bs \<longleftrightarrow>
     n \<noteq> 0 \<and> (\<exists>r off. file_backed_loop None hs va = Some r \<and> n \<le> r \<and>
       ElfVaToFileOffset hs va n = Some off) \<and> copy_loaded b mem va n = Some bs"
  by (auto simp: FileBackedLoadedElfReader_def not_less split: option.splits if_splits)

lemma mem_bytes_one:
  "k < unat n \<Longrightarrow> mem_bytes mem (b + (va + of_nat k)) 1 = [mem_bytes mem (b + va) n ! k]"
  by simp (simp add: mem_bytes_def add.assoc)

lemma file_backed_laws:
  fixes b mem hs
  defines "rd \<equiv> FileBackedLoadedElfReader b mem hs"
  assumes read: "rd_read rd va n = Some bs"
  shows "n \<noteq> 0" "length bs = unat n" "unat va + unat n \<le> 2 ^ 64"
    "layout_in_file_space hs \<Longrightarrow> k < unat n \<Longrightarrow> rd_read rd (va + of_nat k) 1 = Some [bs ! k]"
    "\<exists>r. rd_readable rd va = Some r \<and> n \<le> r"
proof -
  have facts: "n \<noteq> 0" "\<exists>r off. file_backed_loop None hs va = Some r \<and> n \<le> r \<and>
      ElfVaToFileOffset hs va n = Some off" "copy_loaded b mem va n = Some bs"
    using read unfolding rd_def file_backed_read_iff by blast+
  then obtain r off where fb: "file_backed_loop None hs va = Some r" "n \<le> r"
    and off: "ElfVaToFileOffset hs va n = Some off" by blast
  have room: "unat b + unat va + unat n < 2 ^ 64" and bs: "bs = mem_bytes mem (b + va) n"
    using facts(3) by (simp_all add: copy_loaded_iff)
  show "n \<noteq> 0" "length bs = unat n" "unat va + unat n \<le> 2 ^ 64" using facts(1) room bs by simp_all
  show "\<exists>r. rd_readable rd va = Some r \<and> n \<le> r"
    using fb by (simp add: rd_def FileBackedLoadedElfReader_def)
  assume ok: "layout_in_file_space hs" and k: "k < unat n"
  then have lay: "ValidateElfLoadLayout hs" by (simp add: layout_in_file_space_def)
  obtain h where h: "h \<in> set hs" "file_covers h va n"
    using file_offset_covered [OF off] by blast
  obtain g where g: "g \<in> set hs" "file_backs_at g va" "ph_flags g AND PF_R \<noteq> 0"
    using file_backed_some [OF fb(1)] by blast
  have gh: "g = h"
    using backs_unique [OF lay h(1) file_covers_backs [OF h(2)] g(1,2)] .
  have wrap: "unat va + k < 2 ^ 64" using room k by simp
  have c1: "file_covers h (va + of_nat k) 1"
    using file_covers_advance(1) [OF h(2) k wrap space_bound [OF ok h]] .
  then have "ElfVaToFileOffset hs (va + of_nat k) 1 = Some (file_address h (va + of_nat k))"
    by (intro file_offset_covering [OF lay h(1)]) simp_all
  moreover have "file_backed_loop None hs (va + of_nat k) = Some (backed_room h (va + of_nat k))"
    using file_backed_unique [OF lay h(1) file_covers_backs [OF c1]] g(3) gh by simp
  moreover have "1 \<le> backed_room h (va + of_nat k)"
    using unat_backed_room [OF file_covers_backs [OF c1]] c1
    unfolding word_le_nat_alt file_covers_nat by simp linarith
  moreover have "copy_loaded b mem (va + of_nat k) 1 = Some [bs ! k]"
    using room k mem_bytes_one [OF k, of mem b va] unat_advance [OF wrap]
    by (simp add: copy_loaded_iff bs)
  ultimately show "rd_read rd (va + of_nat k) 1 = Some [bs ! k]"
    unfolding rd_def file_backed_read_iff by simp
qed

interpretation file_backed:
  elf_reader "FileBackedLoadedElfReader b mem hs" "layout_in_file_space hs" for b mem hs
  by unfold_locales (blast dest: file_backed_laws)+

lemma file_readable_step:
  assumes len: "length bytes < 2 ^ 64"
  shows "file_readable bytes (h # hs) va =
     (if file_backs_at h va \<and> unat (ph_offset h) + (unat va - unat (ph_va h)) < length bytes
      then Some (min (backed_room h va) (of_nat (length bytes) - ph_offset h - (va - ph_va h)))
      else file_readable bytes hs va)"
proof -
  let ?l = "of_nat (length bytes) :: u64" and ?d = "va - ph_va h"
  have l: "unat ?l = length bytes" using len by (rule unat_of_nat64)
  show ?thesis
  proof (cases "is_load h \<and> \<not> va < ph_va h")
    case False
    then show ?thesis by (auto simp: file_backs_at_def word_less_nat_alt)
  next
    case True
    then have d: "unat ?d = unat va - unat (ph_va h)" by (simp add: not_below)
    show ?thesis
    proof (cases "ph_offset h > ?l")
      case gt: True
      then have "\<not> unat (ph_offset h) + (unat va - unat (ph_va h)) < length bytes"
        using l by (simp add: word_less_nat_alt)
      then show ?thesis using True gt by (simp add: Let_def)
    next
      case False
      then have av: "unat (?l - ph_offset h) = length bytes - unat (ph_offset h)"
          and le: "unat (ph_offset h) \<le> length bytes"
        using l by (simp_all add: unat_sub_le not_less word_le_nat_alt)
      have "?d \<ge> ?l - ph_offset h \<longleftrightarrow>
          \<not> unat (ph_offset h) + (unat va - unat (ph_va h)) < length bytes"
        using le by (simp add: word_le_nat_alt av d) linarith
      moreover have "?d \<ge> ph_file_size h \<longleftrightarrow>
          \<not> unat va - unat (ph_va h) < unat (ph_file_size h)"
        by (simp add: word_le_nat_alt d not_less)
      moreover have "unat (ph_va h) \<le> unat va" using True by (simp add: word_less_nat_alt)
      ultimately show ?thesis
        using True False len by (auto simp: Let_def file_backs_at_def backed_room_def)
    qed
  qed
qed

lemma file_readable_unique:
  assumes lay: "ValidateElfLoadLayout hs" and fb: "ValidateElfLoadFileBounds bytes hs"
    and len: "length bytes < 2 ^ 64" and h: "h \<in> set hs" "file_backs_at h va"
  shows "file_readable bytes hs va = Some (backed_room h va)"
proof -
  have only: "\<forall>k \<in> set hs. file_backs_at k va \<longrightarrow> k = h"
    using backs_unique [OF lay h] by blast
  have bd: "unat (ph_offset h) + unat (ph_file_size h) \<le> length bytes"
    using file_bounds [OF fb len h(1)] h(2) by (simp add: file_backs_at_def)
  have d: "unat (va - ph_va h) = unat va - unat (ph_va h)"
    using h(2) by (intro unat_sub_le) (simp add: file_backs_at_def word_le_nat_alt)
  have lt: "unat va - unat (ph_va h) < unat (ph_file_size h)" using h(2) by (simp add: file_backs_at_def)
  have le: "ph_offset h \<le> of_nat (length bytes)"
    using bd by (simp add: word_le_nat_alt unat_of_nat64 [OF len])
  then have av: "unat (of_nat (length bytes) - ph_offset h :: u64) = length bytes - unat (ph_offset h)"
    by (simp add: unat_sub_le unat_of_nat64 [OF len])
  have "va - ph_va h \<le> of_nat (length bytes) - ph_offset h"
    using bd lt by (simp add: word_le_nat_alt av d) 
  then have "unat (of_nat (length bytes) - ph_offset h - (va - ph_va h) :: u64) =
      length bytes - unat (ph_offset h) - (unat va - unat (ph_va h))"
    by (simp add: unat_sub_le av d)
  then have "backed_room h va \<le> of_nat (length bytes) - ph_offset h - (va - ph_va h)"
    using bd by (simp add: word_le_nat_alt unat_backed_room [OF h(2)])
  then have m: "min (backed_room h va) (of_nat (length bytes) - ph_offset h - (va - ph_va h)) =
      backed_room h va" by simp
  show ?thesis using only h(1)
  proof (induction hs)
    case Nil
    then show ?case by simp
  next
    case (Cons k hs)
    show ?case
    proof (cases "file_backs_at k va")
      case True
      then have "k = h" using Cons.prems(1) by simp
      moreover have "unat (ph_offset h) + (unat va - unat (ph_va h)) < length bytes"
        using bd lt by linarith
      ultimately show ?thesis
        using h(2) m by (simp only: file_readable_step [OF len] simp_thms if_True)
    next
      case False
      then have "h \<in> set hs" using Cons.prems(2) h(2) by auto
      then show ?thesis
        using False Cons.IH Cons.prems(1)
        by (simp only: file_readable_step [OF len] simp_thms if_False) simp
    qed
  qed
qed

lemma file_read_iff:
  assumes len: "length bytes < 2 ^ 64"
  shows "rd_read (FileElfReader bytes hs) va n = Some bs \<longleftrightarrow>
     n \<noteq> 0 \<and> (\<exists>off. ElfVaToFileOffset hs va n = Some off \<and> unat off + unat n \<le> length bytes \<and>
       bs = take (unat n) (drop (unat off) bytes))"
proof -
  have "(off > of_nat (length bytes) \<or> n > of_nat (length bytes) - off) \<longleftrightarrow>
      \<not> unat off + unat n \<le> length bytes" for off :: u64
    using RangeFits_iff [of off n "of_nat (length bytes)"]
    unfolding RangeFits_def unat_of_nat64 [OF len] not_le [symmetric] by blast
  then show ?thesis by (auto simp: FileElfReader_def split: option.splits)
qed

definition file_image_ok :: "u8 list \<Rightarrow> phdr list \<Rightarrow> bool" where
  "file_image_ok bytes hs \<longleftrightarrow> ValidateElfLoadSegments bytes hs \<and> length bytes < 2 ^ 64"

lemma file_read_length:
  assumes "rd_read (FileElfReader bytes hs) va n = Some bs"
  shows "n \<noteq> 0 \<and> length bs = unat n"
proof -
  let ?l = "of_nat (length bytes) :: u64"
  obtain off where n: "n \<noteq> 0" and r: "\<not> off > ?l" "\<not> n > ?l - off"
    and bs: "bs = take (unat n) (drop (unat off) bytes)"
    using assms by (auto simp: FileElfReader_def split: if_splits option.splits)
  have "unat ?l \<le> length bytes" by (simp add: unat_of_nat take_bit_nat_eq_self_iff take_bit_eq_mod)
  moreover have "unat off + unat n \<le> unat ?l"
    using r RangeFits_iff [of off n ?l] by (simp add: RangeFits_def not_less)
  ultimately show ?thesis using n bs by simp
qed

lemma image_ok_space:
  assumes "file_image_ok bytes hs"
  shows "layout_in_file_space hs"
  using assms file_bounds [of bytes hs]
  by (fastforce simp: file_image_ok_def layout_in_file_space_def ValidateElfLoadSegments_def
      list_all_iff)

lemma file_reader_laws:
  assumes ok: "file_image_ok bytes hs" and read: "rd_read (FileElfReader bytes hs) va n = Some bs"
  shows "unat va + unat n \<le> 2 ^ 64"
    "k < unat n \<Longrightarrow> rd_read (FileElfReader bytes hs) (va + of_nat k) 1 = Some [bs ! k]"
    "\<exists>r. rd_readable (FileElfReader bytes hs) va = Some r \<and> n \<le> r"
proof -
  have lay: "ValidateElfLoadLayout hs" and fb: "ValidateElfLoadFileBounds bytes hs"
    and len: "length bytes < 2 ^ 64"
    using ok by (simp_all add: file_image_ok_def ValidateElfLoadSegments_def)
  obtain off where n: "n \<noteq> 0" and off: "ElfVaToFileOffset hs va n = Some off"
    and fit: "unat off + unat n \<le> length bytes" and bs: "bs = take (unat n) (drop (unat off) bytes)"
    using read unfolding file_read_iff [OF len] by blast
  obtain h where h: "h \<in> set hs" "file_covers h va n" and offh: "off = file_address h va"
    using file_offset_covered [OF off] by blast
  have wrap: "unat va + unat n < 2 ^ 64" by (rule covers_va_bound [OF lay h])
  then show "unat va + unat n \<le> 2 ^ 64" by simp
  have "n \<le> backed_room h va"
    using unat_backed_room [OF file_covers_backs [OF h(2)]] h(2)
    unfolding word_le_nat_alt file_covers_nat by linarith
  then show "\<exists>r. rd_readable (FileElfReader bytes hs) va = Some r \<and> n \<le> r"
    using file_readable_unique [OF lay fb len h(1) file_covers_backs [OF h(2)]]
    by (simp add: FileElfReader_def)
  assume k: "k < unat n"
  have wk: "unat va + k < 2 ^ 64" using wrap k by simp
  note adv = file_covers_advance [OF h(2) k wk space_bound [OF image_ok_space [OF ok] h]]
  have "ElfVaToFileOffset hs (va + of_nat k) 1 = Some (file_address h (va + of_nat k))"
    by (rule file_offset_covering [OF lay h(1) adv(1)]) simp
  moreover have "take 1 (drop (unat off + k) bytes) = [bs ! k]"
    using fit k by (simp add: bs take_Suc hd_drop_conv_nth)
  ultimately show "rd_read (FileElfReader bytes hs) (va + of_nat k) 1 = Some [bs ! k]"
    using adv(2) fit k unfolding file_read_iff [OF len] by (simp add: offh)
qed

interpretation file_reader: elf_reader "FileElfReader bytes hs" "file_image_ok bytes hs" for bytes hs
  by unfold_locales (blast dest: file_read_length file_reader_laws)+

section \<open>The file-backed reader answers no more than the other two\<close>

definition image_loaded :: "ptr \<Rightarrow> memory \<Rightarrow> u8 list \<Rightarrow> phdr list \<Rightarrow> bool" where
  "image_loaded load_bias mem bytes hs \<longleftrightarrow>
     list_all (\<lambda>h. is_load h \<longrightarrow> list_all (\<lambda>i. mem (load_bias + ph_va h + of_nat i) =
       bytes ! (unat (ph_offset h) + i)) [0..<unat (ph_file_size h)]) hs"

lemma file_backed_covering:
  assumes lay: "ValidateElfLoadLayout hs"
    and read: "rd_read (FileBackedLoadedElfReader b mem hs) va n = Some bs"
  obtains h where "h \<in> set hs" "file_covers h va n" "ph_flags h AND PF_R \<noteq> 0" "n \<noteq> 0"
    "unat b + unat va + unat n < 2 ^ 64" "bs = mem_bytes mem (b + va) n"
proof -
  obtain r off where facts: "n \<noteq> 0" "file_backed_loop None hs va = Some r"
      "ElfVaToFileOffset hs va n = Some off" "copy_loaded b mem va n = Some bs"
    using read unfolding file_backed_read_iff by blast
  obtain h where h: "h \<in> set hs" "file_covers h va n"
    using file_offset_covered [OF facts(3)] by blast
  obtain g where g: "g \<in> set hs" "file_backs_at g va" "ph_flags g AND PF_R \<noteq> 0"
    using file_backed_some [OF facts(2)] by blast
  have "g = h" using backs_unique [OF lay h(1) file_covers_backs [OF h(2)] g(1,2)] .
  then show ?thesis using that h g facts(1,4) by (simp add: copy_loaded_iff)
qed

lemma file_backed_readable:
  assumes lay: "ValidateElfLoadLayout hs" and r: "file_backed_loop None hs va = Some r"
  obtains h where "h \<in> set hs" "file_backs_at h va" "ph_flags h AND PF_R \<noteq> 0" "r = backed_room h va"
proof -
  obtain h where h: "h \<in> set hs" "file_backs_at h va" "ph_flags h AND PF_R \<noteq> 0"
    using file_backed_some [OF r] by blast
  then show ?thesis using that file_backed_unique [OF lay h] r by simp
qed

lemma backs_loads:
  "load_sane h \<Longrightarrow> file_backs_at h va \<Longrightarrow> ph_flags h AND PF_R \<noteq> 0 \<Longrightarrow> loads_at h va"
  by (auto simp: load_sane_def file_backs_at_def loads_at_def)

lemma loaded_room:
  assumes lay: "ValidateElfLoadLayout hs" and h: "h \<in> set hs" "file_backs_at h va"
    "ph_flags h AND PF_R \<noteq> 0"
  obtains r where "loaded_readable hs va = Some r" "backed_room h va \<le> r"
proof -
  have l: "is_load h" using h(2) by (simp add: file_backs_at_def)
  note sane = layout_sane [OF lay h(1) l]
  obtain r where r: "loaded_readable hs va = Some r"
    using loaded_readable_at [OF h(1) backs_loads [OF sane h(2,3)]] by blast
  obtain g where g: "g \<in> set hs" "loads_at g va"
      "unat r = unat (ph_memory_size g) - (unat va - unat (ph_va g))"
    using r by (rule loaded_readable_Some)
  have "g = h"
    using layout_disjoint [OF lay g(1) _ _ h(1) l, of "unat va"] g(2) h(2) sane
    by (auto simp: loads_at_def in_memory_def file_backs_at_def load_sane_def)
  then have "backed_room h va \<le> r"
    using g(3) unat_backed_room [OF h(2)] sane
    unfolding word_le_nat_alt load_sane_def by (metis diff_le_mono)
  then show ?thesis using that r by blast
qed

interpretation backed_to_loaded:
  reader_refinement "FileBackedLoadedElfReader b mem hs" "LoadedElfReader b mem hs"
    "ValidateElfLoadLayout hs" for b mem hs
proof unfold_locales
  fix va r
  assume lay: "ValidateElfLoadLayout hs"
    and "rd_readable (FileBackedLoadedElfReader b mem hs) va = Some r"
  then have "file_backed_loop None hs va = Some r" by (simp add: FileBackedLoadedElfReader_def)
  then obtain h where h: "h \<in> set hs" "file_backs_at h va" "ph_flags h AND PF_R \<noteq> 0"
      "r = backed_room h va"
    using file_backed_readable [OF lay] by blast
  show "\<exists>r'. rd_readable (LoadedElfReader b mem hs) va = Some r' \<and> r \<le> r'"
    using loaded_room [OF lay h(1-3)] h(4) by (auto simp: LoadedElfReader_def)
next
  fix va n bs
  assume lay: "ValidateElfLoadLayout hs"
    and read: "rd_read (FileBackedLoadedElfReader b mem hs) va n = Some bs"
  obtain h where h: "h \<in> set hs" "file_covers h va n" "ph_flags h AND PF_R \<noteq> 0" "n \<noteq> 0"
    and cp: "unat b + unat va + unat n < 2 ^ 64" "bs = mem_bytes mem (b + va) n"
    using file_backed_covering [OF lay read] .
  obtain r where r: "loaded_readable hs va = Some r" "backed_room h va \<le> r"
    using loaded_room [OF lay h(1) file_covers_backs [OF h(2)] h(3)] .
  have "n \<le> backed_room h va"
    using unat_backed_room [OF file_covers_backs [OF h(2)]] h(2)
    unfolding word_le_nat_alt file_covers_nat by linarith
  then have "\<not> n > r" using r(2) by simp
  then show "rd_read (LoadedElfReader b mem hs) va n = Some bs"
    using h(4) r(1) cp by (simp add: LoadedElfReader_def copy_loaded_iff)
qed

lemma loaded_bytes_match:
  assumes im: "image_loaded b mem bytes hs" and h: "h \<in> set hs" "file_covers h va n"
    and fb: "unat (ph_offset h) + unat (ph_file_size h) \<le> length bytes" and k: "k < unat n"
  shows "mem (b + va + of_nat k) = bytes ! (unat (file_address h va) + k)"
proof -
  let ?d = "unat va - unat (ph_va h)"
  have le: "unat (ph_va h) \<le> unat va" and i: "?d + k < unat (ph_file_size h)"
    using h(2) k by (auto simp: file_covers_nat)
  have "va = ph_va h + of_nat ?d"
    using le by (simp add: of_nat_diff)
  then have "b + va + of_nat k = b + ph_va h + of_nat (?d + k)" by (simp add: add.assoc)
  moreover have "mem (b + ph_va h + of_nat (?d + k)) = bytes ! (unat (ph_offset h) + (?d + k))"
  proof -
    have "is_load h" using h(2) by (simp add: file_covers_nat)
    then have "list_all (\<lambda>i. mem (b + ph_va h + of_nat i) = bytes ! (unat (ph_offset h) + i))
        [0..<unat (ph_file_size h)]"
      using im h(1) by (simp only: image_loaded_def list_all_iff) blast
    from bspec [OF this [unfolded list_all_iff set_upt], of "?d + k"] show ?thesis
      using i by (simp only: atLeastLessThan_iff le0 simp_thms)
  qed
  moreover have "unat (ph_offset h) + (?d + k) = unat (file_address h va) + k"
    using unat_file_address [OF h(2)] by simp
  ultimately show ?thesis by (simp only:)
qed

lemma backed_file_read:
  assumes ok: "file_image_ok bytes hs" and im: "image_loaded b mem bytes hs"
    and read: "rd_read (FileBackedLoadedElfReader b mem hs) va n = Some bs"
  shows "rd_read (FileElfReader bytes hs) va n = Some bs"
proof -
  have lay: "ValidateElfLoadLayout hs" and fb: "ValidateElfLoadFileBounds bytes hs"
    and len: "length bytes < 2 ^ 64"
    using ok by (simp_all add: file_image_ok_def ValidateElfLoadSegments_def)
  obtain h where h: "h \<in> set hs" "file_covers h va n" "ph_flags h AND PF_R \<noteq> 0" "n \<noteq> 0"
    and cp: "unat b + unat va + unat n < 2 ^ 64" "bs = mem_bytes mem (b + va) n"
    using file_backed_covering [OF lay read] .
  let ?off = "file_address h va"
  have off: "ElfVaToFileOffset hs va n = Some ?off"
    by (rule file_offset_covering [OF lay h(1,2,4)])
  have hb: "unat (ph_offset h) + unat (ph_file_size h) \<le> length bytes"
    using file_bounds [OF fb len h(1)] h(2) by (simp add: file_covers_nat)
  have fit: "unat ?off + unat n \<le> length bytes"
    using unat_file_address [OF h(2)] h(2) hb unfolding file_covers_nat by linarith
  have "bs = take (unat n) (drop (unat ?off) bytes)"
  proof (rule nth_equalityI)
    show "length bs = length (take (unat n) (drop (unat ?off) bytes))" using cp fit by simp
    fix k assume "k < length bs"
    then have k: "k < unat n" using cp by simp
    then show "bs ! k = take (unat n) (drop (unat ?off) bytes) ! k"
      using cp loaded_bytes_match [OF im h(1,2) hb k] fit by simp
  qed
  then show ?thesis using h(4) off fit unfolding file_read_iff [OF len] by blast
qed

lemma backed_file_readable:
  assumes ok: "file_image_ok bytes hs"
    and r: "rd_readable (FileBackedLoadedElfReader b mem hs) va = Some r"
  shows "rd_readable (FileElfReader bytes hs) va = Some r"
proof -
  have lay: "ValidateElfLoadLayout hs" and fb: "ValidateElfLoadFileBounds bytes hs"
    and len: "length bytes < 2 ^ 64"
    using ok by (simp_all add: file_image_ok_def ValidateElfLoadSegments_def)
  have "file_backed_loop None hs va = Some r" using r by (simp add: FileBackedLoadedElfReader_def)
  then obtain h where h: "h \<in> set hs" "file_backs_at h va" "r = backed_room h va"
    using file_backed_readable [OF lay] by blast
  then show ?thesis
    using file_readable_unique [OF lay fb len h(1,2)] by (simp add: FileElfReader_def)
qed

interpretation backed_to_file:
  reader_refinement "FileBackedLoadedElfReader b mem hs" "FileElfReader bytes hs"
    "file_image_ok bytes hs \<and> image_loaded b mem bytes hs" for b mem bytes hs
  by unfold_locales (blast dest: backed_file_read backed_file_readable)+

end
