(* ===== verification/Elf_Dynamic.thy ===== *)
theory Elf_Dynamic
  imports Elf_Reader
begin

text \<open>
  The dynamic view of \<^verbatim>\<open>src/elf/dynamic_view.cpp\<close>: parsing PT_DYNAMIC through a reader and
  looking a symbol up through the GNU or the SysV hash table.  Every read and every address
  computation that can fail makes the result malformed.
\<close>

section \<open>Data\<close>

record elf_sym =
  st_name :: u32
  st_info :: u8
  st_other :: u8
  st_shndx :: u16
  st_value :: u64
  st_size :: u64

definition sizeof_sym :: u64 where "sizeof_sym = 24"
definition sizeof_dyn :: u64 where "sizeof_dyn = 16"

definition decode_sym :: "u8 list \<Rightarrow> elf_sym" where
  "decode_sym bs =
     \<lparr>st_name = of_nat (field bs 0 4), st_info = of_nat (field bs 4 1),
      st_other = of_nat (field bs 5 1), st_shndx = of_nat (field bs 6 2),
      st_value = of_nat (field bs 8 8), st_size = of_nat (field bs 16 8)\<rparr>"

record dynamic_symbol =
  ds_value :: u64
  ds_size :: u64
  ds_info :: u8
  ds_other :: u8
  ds_section_index :: u16

definition dynamic_symbol_0 :: dynamic_symbol where
  "dynamic_symbol_0 =
     \<lparr>ds_value = 0, ds_size = 0, ds_info = 0, ds_other = 0, ds_section_index = 0\<rparr>"

datatype lookup_status = LkFound | LkNotFound | LkUnavailable | LkMalformed

record lookup_result =
  lk_status :: lookup_status
  lk_symbol :: dynamic_symbol

definition lk_malformed :: lookup_result where
  "lk_malformed = \<lparr>lk_status = LkMalformed, lk_symbol = dynamic_symbol_0\<rparr>"

definition lk_not_found :: lookup_result where
  "lk_not_found = \<lparr>lk_status = LkNotFound, lk_symbol = dynamic_symbol_0\<rparr>"

definition lk_found :: "dynamic_symbol \<Rightarrow> lookup_result" where
  "lk_found s = \<lparr>lk_status = LkFound, lk_symbol = s\<rparr>"

record dynamic_view =
  dv_symtab_va :: u64
  dv_strtab_va :: u64
  dv_strtab_size :: u64
  dv_symbol_entry_size :: u64
  dv_sysv_hash_va :: "u64 option"
  dv_gnu_hash_va :: "u64 option"

section \<open>Hashes\<close>

definition sysv_hash_step :: "u32 \<Rightarrow> u8 \<Rightarrow> u32" where
  "sysv_hash_step h value =
     (let h1 = push_bit 4 h + ucast value;
          high = h1 AND 0xf0000000;
          h2 = (if high \<noteq> 0 then h1 XOR drop_bit 24 high else h1)
      in h2 AND NOT high)"

definition SysvHash :: "u8 list \<Rightarrow> u32" where
  "SysvHash name = foldl sysv_hash_step 0 name"

definition GnuHash :: "u8 list \<Rightarrow> u32" where
  "GnuHash name = foldl (\<lambda>h value. h * 33 + ucast value) 5381 name"

section \<open>Matching one symbol\<close>

definition read_u32 :: "va_reader \<Rightarrow> u64 \<Rightarrow> u32 option" where
  "read_u32 rd va = map_option (\<lambda>bs. of_nat (field bs 0 4)) (rd_read rd va 4)"

definition read_u64 :: "va_reader \<Rightarrow> u64 \<Rightarrow> u64 option" where
  "read_u64 rd va = map_option (\<lambda>bs. of_nat (field bs 0 8)) (rd_read rd va 8)"

definition read_sym :: "va_reader \<Rightarrow> u64 \<Rightarrow> elf_sym option" where
  "read_sym rd va = map_option decode_sym (rd_read rd va sizeof_sym)"

definition DynamicAnchorReadable :: "va_reader \<Rightarrow> u64 \<Rightarrow> u64 \<Rightarrow> bool" where
  "DynamicAnchorReadable rd va minimum_size \<longleftrightarrow>
     va \<noteq> 0 \<and> (case rd_readable rd va of None \<Rightarrow> False | Some r \<Rightarrow> minimum_size \<le> r)"

text \<open>The bytes of the name up to its NUL, or nothing when it does not end in the table.\<close>

function read_name_loop :: "va_reader \<Rightarrow> u64 \<Rightarrow> nat \<Rightarrow> nat \<Rightarrow> u8 list option" where
  "read_name_loop rd start index remaining =
     (if index \<ge> remaining then None
      else case CheckedAddVa start (of_nat index) of
             None \<Rightarrow> None
           | Some entry_va \<Rightarrow>
               case rd_read rd entry_va 1 of
                 None \<Rightarrow> None
               | Some bs \<Rightarrow>
                   if bs ! 0 = 0 then Some []
                   else map_option (Cons (bs ! 0)) (read_name_loop rd start (Suc index) remaining))"
  by pat_completeness auto
termination by (relation "measure (\<lambda>(rd, start, index, remaining). remaining - index)") auto

declare read_name_loop.simps [simp del]

definition ReadSymbolName :: "va_reader \<Rightarrow> dynamic_view \<Rightarrow> elf_sym \<Rightarrow> u8 list option" where
  "ReadSymbolName rd view symbol =
     (if ucast (st_name symbol) \<ge> dv_strtab_size view then None
      else case CheckedAddVa (dv_strtab_va view) (ucast (st_name symbol)) of
             None \<Rightarrow> None
           | Some start \<Rightarrow>
               read_name_loop rd start 0 (unat (dv_strtab_size view - ucast (st_name symbol))))"

definition symbol_of :: "elf_sym \<Rightarrow> dynamic_symbol" where
  "symbol_of s = \<lparr>ds_value = st_value s, ds_size = st_size s, ds_info = st_info s,
     ds_other = st_other s, ds_section_index = st_shndx s\<rparr>"

definition MatchSymbol :: "va_reader \<Rightarrow> dynamic_view \<Rightarrow> u64 \<Rightarrow> u8 list \<Rightarrow> lookup_result" where
  "MatchSymbol rd view index wanted =
     (if dv_symbol_entry_size view \<noteq> sizeof_sym then lk_malformed
      else case CheckedMulAddVa (dv_symtab_va view) index (dv_symbol_entry_size view) of
        None \<Rightarrow> lk_malformed
      | Some symbol_va \<Rightarrow>
          case read_sym rd symbol_va of
            None \<Rightarrow> lk_malformed
          | Some symbol \<Rightarrow>
              case ReadSymbolName rd view symbol of
                None \<Rightarrow> lk_malformed
              | Some actual \<Rightarrow>
                  if actual \<noteq> wanted then lk_not_found
                  else if st_shndx symbol = 0 \<or> st_value symbol = 0 then lk_malformed
                  else lk_found (symbol_of symbol))"

text \<open>\<open>RememberDynamicSymbol\<close>: the new candidate, or nothing when the match contradicts it.\<close>

definition RememberDynamicSymbol ::
    "lookup_result \<Rightarrow> dynamic_symbol option \<Rightarrow> dynamic_symbol option option" where
  "RememberDynamicSymbol m candidate =
     (if lk_status m \<noteq> LkFound then None
      else case candidate of
             None \<Rightarrow> Some (Some (lk_symbol m))
           | Some c \<Rightarrow> if c \<noteq> lk_symbol m then None else Some (Some (lk_symbol m)))"

definition candidate_result :: "dynamic_symbol option \<Rightarrow> lookup_result" where
  "candidate_result candidate =
     (case candidate of None \<Rightarrow> lk_not_found | Some s \<Rightarrow> lk_found s)"

text \<open>The step both hash loops share: match one symbol, and keep or contradict the candidate.\<close>

definition consider_symbol :: "va_reader \<Rightarrow> dynamic_view \<Rightarrow> u64 \<Rightarrow> u8 list \<Rightarrow>
    dynamic_symbol option \<Rightarrow> dynamic_symbol option option" where
  "consider_symbol rd view index wanted candidate =
     (let m = MatchSymbol rd view index wanted in
      if lk_status m = LkMalformed then None
      else if lk_status m = LkFound then RememberDynamicSymbol m candidate
      else Some candidate)"

text \<open>What a definite (found or not found) answer has read.\<close>

lemma MatchSymbol_definite:
  assumes "lk_status (MatchSymbol rd view index wanted) \<noteq> LkMalformed"
  shows "\<exists>va symb actual. dv_symbol_entry_size view = sizeof_sym \<and>
      CheckedMulAddVa (dv_symtab_va view) index (dv_symbol_entry_size view) = Some va \<and>
      read_sym rd va = Some symb \<and> ReadSymbolName rd view symb = Some actual \<and>
      MatchSymbol rd view index wanted =
        (if actual \<noteq> wanted then lk_not_found else lk_found (symbol_of symb)) \<and>
      (actual = wanted \<longrightarrow> st_shndx symb \<noteq> 0 \<and> st_value symb \<noteq> 0)"
proof (cases "CheckedMulAddVa (dv_symtab_va view) index (dv_symbol_entry_size view)")
  case None
  then show ?thesis using assms by (simp add: MatchSymbol_def lk_malformed_def split: if_splits)
next
  case va: (Some va)
  show ?thesis
  proof (cases "read_sym rd va")
    case None
    then show ?thesis using assms va by (simp add: MatchSymbol_def lk_malformed_def split: if_splits)
  next
    case symb: (Some symb)
    show ?thesis
    proof (cases "ReadSymbolName rd view symb")
      case None
      then show ?thesis using assms va symb by (simp add: MatchSymbol_def lk_malformed_def split: if_splits)
    next
      case (Some actual)
      then show ?thesis using assms va symb
        by (simp add: MatchSymbol_def lk_malformed_def split: if_splits)
    qed
  qed
qed

section \<open>SysV lookup\<close>

function sysv_chain_loop :: "va_reader \<Rightarrow> dynamic_view \<Rightarrow> u8 list \<Rightarrow> u32 \<Rightarrow> u64 \<Rightarrow> u32 \<Rightarrow> nat \<Rightarrow>
    dynamic_symbol option \<Rightarrow> lookup_result" where
  "sysv_chain_loop rd view name chain_count chains_va symbol_index visited candidate =
     (if symbol_index = 0 then candidate_result candidate
      else if symbol_index \<ge> chain_count \<or> visited \<ge> unat chain_count then lk_malformed
      else case consider_symbol rd view (ucast symbol_index) name candidate of
        None \<Rightarrow> lk_malformed
      | Some candidate' \<Rightarrow>
          case Option.bind (CheckedMulAddVa chains_va (ucast symbol_index) 4) (read_u32 rd) of
            None \<Rightarrow> lk_malformed
          | Some nxt \<Rightarrow>
              if nxt = symbol_index then lk_malformed
              else sysv_chain_loop rd view name chain_count chains_va nxt (Suc visited) candidate')"
  by pat_completeness auto
termination
  by (relation "measure (\<lambda>(rd, view, name, cc, cva, i, visited, c). unat cc - visited)") auto

declare sysv_chain_loop.simps [simp del]

definition opt_and :: "'a option \<Rightarrow> ('a \<Rightarrow> lookup_result) \<Rightarrow> lookup_result" where
  "opt_and x k = (case x of None \<Rightarrow> lk_malformed | Some v \<Rightarrow> k v)"

definition FindSysvSymbol :: "va_reader \<Rightarrow> dynamic_view \<Rightarrow> u8 list \<Rightarrow> lookup_result" where
  "FindSysvSymbol rd view name =
     opt_and (dv_sysv_hash_va view) (\<lambda>hash_va.
     opt_and (rd_read rd hash_va 8) (\<lambda>header.
       let bucket_count = of_nat (field header 0 4) :: u32;
           chain_count = of_nat (field header 4 4) :: u32 in
       if bucket_count = 0 then lk_malformed
       else if chain_count = 0 \<or> dv_symbol_entry_size view \<noteq> sizeof_sym then lk_malformed
       else
         opt_and (CheckedAddVa hash_va 8) (\<lambda>buckets_va.
         opt_and (CheckedMul (ucast bucket_count) 4) (\<lambda>buckets_size.
         opt_and (CheckedMul (ucast chain_count) 4) (\<lambda>chains_size.
         opt_and (CheckedAddVa 8 buckets_size) (\<lambda>fixed_size.
         opt_and (CheckedAddVa fixed_size chains_size) (\<lambda>hash_table_size.
         opt_and (CheckedMul (ucast chain_count) (dv_symbol_entry_size view)) (\<lambda>dynsym_size.
         if \<not> DynamicAnchorReadable rd hash_va hash_table_size \<or>
            \<not> DynamicAnchorReadable rd (dv_symtab_va view) dynsym_size then lk_malformed
         else
           opt_and (CheckedMulAddVa buckets_va (ucast (SysvHash name mod bucket_count)) 4) (\<lambda>bucket_va.
           opt_and (read_u32 rd bucket_va) (\<lambda>symbol_index.
           opt_and (CheckedAddVa buckets_va buckets_size) (\<lambda>chains_va.
             sysv_chain_loop rd view name chain_count chains_va symbol_index 0 None)))))))))))"

section \<open>GNU lookup\<close>

function gnu_chain_loop :: "va_reader \<Rightarrow> dynamic_view \<Rightarrow> u8 list \<Rightarrow> u32 \<Rightarrow> u64 \<Rightarrow> u64 \<Rightarrow> u64 \<Rightarrow> u32 \<Rightarrow>
    dynamic_symbol option \<Rightarrow> lookup_result" where
  "gnu_chain_loop rd view name hash chains_va max_chain_entries chain_index symbol_index candidate =
     (if \<not> chain_index < max_chain_entries then lk_malformed
      else case Option.bind (CheckedMulAddVa chains_va chain_index 4) (read_u32 rd) of
        None \<Rightarrow> lk_malformed
      | Some chain_hash \<Rightarrow>
          case (if chain_hash OR 1 = hash OR 1
                then consider_symbol rd view (ucast symbol_index) name candidate
                else Some candidate) of
            None \<Rightarrow> lk_malformed
          | Some candidate' \<Rightarrow>
              if chain_hash AND 1 \<noteq> 0 then candidate_result candidate'
              else if symbol_index = 0xffffffff then lk_malformed
              else gnu_chain_loop rd view name hash chains_va max_chain_entries
                     (chain_index + 1) (symbol_index + 1) candidate')"
  by pat_completeness auto
termination
proof (relation "measure (\<lambda>(rd, view, name, hash, cva, mx, ci, si, c). unat mx - unat ci)", goal_cases)
  case 1
  show ?case by simp
next
  case (2 rd view name hash cva mx ci si c)
  then have "unat ci < unat mx" by (simp add: word_less_nat_alt)
  moreover then have "unat (ci + 1) = unat ci + 1"
    using unat_lt64 [of mx] unat_add_fits [of ci 1] by simp
  ultimately show ?case by simp
qed

declare gnu_chain_loop.simps [simp del]

definition FindGnuSymbol :: "va_reader \<Rightarrow> dynamic_view \<Rightarrow> u8 list \<Rightarrow> lookup_result" where
  "FindGnuSymbol rd view name =
     opt_and (dv_gnu_hash_va view) (\<lambda>hash_va.
     opt_and (rd_read rd hash_va 16) (\<lambda>header.
       let bucket_count = of_nat (field header 0 4) :: u32;
           symbol_offset = of_nat (field header 4 4) :: u32;
           bloom_words = of_nat (field header 8 4) :: u32;
           bloom_shift = of_nat (field header 12 4) :: u32 in
       if bucket_count = 0 \<or> bloom_words = 0 \<or> bloom_shift \<ge> 32 \<or>
          bloom_words AND (bloom_words - 1) \<noteq> 0 then lk_malformed
       else
         opt_and (CheckedAddVa hash_va 16) (\<lambda>bloom_base.
         opt_and (CheckedMul (ucast bloom_words) 8) (\<lambda>bloom_size.
         opt_and (CheckedAddVa bloom_base bloom_size) (\<lambda>buckets_va.
         opt_and (CheckedMul (ucast bucket_count) 4) (\<lambda>buckets_size.
         opt_and (CheckedAddVa 16 bloom_size) (\<lambda>prefix_size.
         opt_and (CheckedAddVa prefix_size buckets_size) (\<lambda>fixed_table_size.
         if \<not> DynamicAnchorReadable rd hash_va fixed_table_size then lk_malformed
         else
           let hash = GnuHash name;
               bloom_index = ucast ((hash div 64) AND (bloom_words - 1)) :: u64 in
           opt_and (CheckedMulAddVa bloom_base bloom_index 8) (\<lambda>bloom_va.
           opt_and (read_u64 rd bloom_va) (\<lambda>bloom.
             let msk = push_bit (unat (hash mod 64)) (1 :: u64) OR
                       push_bit (unat (drop_bit (unat bloom_shift) hash mod 64)) 1 in
             if bloom AND msk \<noteq> msk then lk_not_found
             else
               opt_and (CheckedMulAddVa buckets_va (ucast (hash mod bucket_count)) 4) (\<lambda>bucket_va.
               opt_and (read_u32 rd bucket_va) (\<lambda>symbol_index.
                 if symbol_index = 0 then lk_not_found
                 else if symbol_index < symbol_offset then lk_malformed
                 else
                   opt_and (CheckedAddVa buckets_va buckets_size) (\<lambda>chains_va.
                   opt_and (rd_readable rd chains_va) (\<lambda>remaining.
                     gnu_chain_loop rd view name hash chains_va (remaining div 4)
                       (ucast (symbol_index - symbol_offset)) symbol_index None))))))))))))))"

definition FindElfDynamicSymbol :: "va_reader \<Rightarrow> dynamic_view \<Rightarrow> u8 list \<Rightarrow> lookup_result" where
  "FindElfDynamicSymbol rd view name =
     (if name = [] then lk_malformed
      else if dv_gnu_hash_va view \<noteq> None then FindGnuSymbol rd view name
      else if dv_sysv_hash_va view \<noteq> None then FindSysvSymbol rd view name
      else lk_malformed)"

section \<open>The dynamic segment\<close>

definition SetDynamicSingleton :: "u64 \<Rightarrow> u64 option \<Rightarrow> u64 option option" where
  "SetDynamicSingleton value slot =
     (case slot of None \<Rightarrow> Some (Some value)
      | Some v \<Rightarrow> if v \<noteq> value then None else Some (Some value))"

record dynamic_slots =
  sl_symtab :: "u64 option"
  sl_strtab :: "u64 option"
  sl_strsz :: "u64 option"
  sl_syment :: "u64 option"
  sl_hash :: "u64 option"
  sl_gnu_hash :: "u64 option"

definition dynamic_slots_0 :: dynamic_slots where
  "dynamic_slots_0 = \<lparr>sl_symtab = None, sl_strtab = None, sl_strsz = None, sl_syment = None,
     sl_hash = None, sl_gnu_hash = None\<rparr>"

definition DT_HASH :: u64 where "DT_HASH = 4"
definition DT_STRTAB :: u64 where "DT_STRTAB = 5"
definition DT_SYMTAB :: u64 where "DT_SYMTAB = 6"
definition DT_STRSZ :: u64 where "DT_STRSZ = 10"
definition DT_SYMENT :: u64 where "DT_SYMENT = 11"
definition DT_GNU_HASH :: u64 where "DT_GNU_HASH = 0x6ffffef5"

text \<open>One non-null entry: the switch over its tag.\<close>

definition dynamic_entry :: "dynamic_slots \<Rightarrow> u64 \<Rightarrow> u64 \<Rightarrow> dynamic_slots option" where
  "dynamic_entry s tag v =
     (if tag = DT_SYMTAB
      then map_option (\<lambda>x. s\<lparr>sl_symtab := x\<rparr>) (SetDynamicSingleton v (sl_symtab s))
      else if tag = DT_STRTAB
      then map_option (\<lambda>x. s\<lparr>sl_strtab := x\<rparr>) (SetDynamicSingleton v (sl_strtab s))
      else if tag = DT_STRSZ
      then map_option (\<lambda>x. s\<lparr>sl_strsz := x\<rparr>) (SetDynamicSingleton v (sl_strsz s))
      else if tag = DT_SYMENT
      then map_option (\<lambda>x. s\<lparr>sl_syment := x\<rparr>) (SetDynamicSingleton v (sl_syment s))
      else if tag = DT_HASH
      then map_option (\<lambda>x. s\<lparr>sl_hash := x\<rparr>) (SetDynamicSingleton v (sl_hash s))
      else if tag = DT_GNU_HASH
      then map_option (\<lambda>x. s\<lparr>sl_gnu_hash := x\<rparr>) (SetDynamicSingleton v (sl_gnu_hash s))
      else Some s)"

text \<open>The loop over the entries: the slots when DT_NULL is met, nothing when an entry cannot be
  read, contradicts an earlier one, or the table ends first.\<close>

function dynamic_loop :: "va_reader \<Rightarrow> u64 \<Rightarrow> nat \<Rightarrow> nat \<Rightarrow> dynamic_slots \<Rightarrow> dynamic_slots option" where
  "dynamic_loop rd dynamic_va index entry_count s =
     (if index \<ge> entry_count then None
      else case Option.bind (CheckedMulAddVa dynamic_va (of_nat index) sizeof_dyn)
             (\<lambda>entry_va. rd_read rd entry_va sizeof_dyn) of
        None \<Rightarrow> None
      | Some entry \<Rightarrow>
          let tag = of_nat (field entry 0 8) :: u64; v = of_nat (field entry 8 8) :: u64 in
          if tag = 0 then Some s
          else case dynamic_entry s tag v of
                 None \<Rightarrow> None
               | Some s' \<Rightarrow> dynamic_loop rd dynamic_va (Suc index) entry_count s')"
  by pat_completeness auto
termination by (relation "measure (\<lambda>(rd, va, index, n, s). n - index)") auto

declare dynamic_loop.simps [simp del]

definition value_or_0 :: "u64 option \<Rightarrow> u64" where
  "value_or_0 x = (case x of None \<Rightarrow> 0 | Some v \<Rightarrow> v)"

definition view_of :: "dynamic_slots \<Rightarrow> dynamic_view" where
  "view_of s =
     \<lparr>dv_symtab_va = value_or_0 (sl_symtab s), dv_strtab_va = value_or_0 (sl_strtab s),
      dv_strtab_size = value_or_0 (sl_strsz s), dv_symbol_entry_size = value_or_0 (sl_syment s),
      dv_sysv_hash_va = sl_hash s, dv_gnu_hash_va = sl_gnu_hash s\<rparr>"

definition hash_anchor_ok :: "va_reader \<Rightarrow> u64 option \<Rightarrow> u64 \<Rightarrow> bool" where
  "hash_anchor_ok rd hash_va minimum_size \<longleftrightarrow>
     (case hash_va of None \<Rightarrow> True | Some va \<Rightarrow> DynamicAnchorReadable rd va minimum_size)"

text \<open>The available view, or nothing for a malformed one.\<close>

definition ReadElfDynamicView :: "va_reader \<Rightarrow> u64 \<Rightarrow> u64 \<Rightarrow> dynamic_view option" where
  "ReadElfDynamicView rd dynamic_va dynamic_size =
     (if dynamic_va = 0 \<or> dynamic_size < sizeof_dyn then None
      else if dynamic_size mod sizeof_dyn \<noteq> 0 then None
      else case rd_readable rd dynamic_va of
        None \<Rightarrow> None
      | Some backing \<Rightarrow>
          if dynamic_size > backing then None
          else case dynamic_loop rd dynamic_va 0 (unat (dynamic_size div sizeof_dyn)) dynamic_slots_0 of
            None \<Rightarrow> None
          | Some s \<Rightarrow>
              let view = view_of s in
              if dv_symbol_entry_size view \<noteq> 0 \<and> dv_symbol_entry_size view \<noteq> sizeof_sym then None
              else if dv_symtab_va view = 0 \<or> dv_strtab_va view = 0 \<or> dv_strtab_size view = 0 \<or>
                dv_symbol_entry_size view = 0 then None
              else if \<not> DynamicAnchorReadable rd (dv_symtab_va view) sizeof_sym \<or>
                \<not> DynamicAnchorReadable rd (dv_strtab_va view) (dv_strtab_size view) \<or>
                \<not> hash_anchor_ok rd (dv_sysv_hash_va view) 8 \<or>
                \<not> hash_anchor_ok rd (dv_gnu_hash_va view) 16 then None
              else Some view)"

section \<open>A bigger reader reproduces every definite answer\<close>

lemma opt_and_definite:
  "lk_status (opt_and x k) \<noteq> LkMalformed \<longleftrightarrow> (\<exists>v. x = Some v \<and> lk_status (k v) \<noteq> LkMalformed)"
  by (cases x) (simp_all add: opt_and_def lk_malformed_def)

lemma opt_and_Some [simp]: "opt_and (Some v) k = k v"
  by (simp add: opt_and_def)

lemma opt_and_mono:
  assumes "lk_status (opt_and x k) \<noteq> LkMalformed"
    and "\<And>v. x = Some v \<Longrightarrow> y = Some v"
    and "\<And>v. x = Some v \<Longrightarrow> lk_status (k v) \<noteq> LkMalformed \<Longrightarrow> k' v = k v"
  shows "opt_and y k' = opt_and x k"
  using assms by (cases x) (simp_all add: opt_and_def lk_malformed_def)

lemma if_malformed_mono:
  assumes "lk_status (if P then lk_malformed else a) \<noteq> LkMalformed"
    and "\<not> P \<Longrightarrow> \<not> Q" and "\<not> P \<Longrightarrow> lk_status a \<noteq> LkMalformed \<Longrightarrow> b = a"
  shows "(if Q then lk_malformed else b) = (if P then lk_malformed else a)"
  using assms by (cases P) (simp_all add: lk_malformed_def)

lemma if_same_mono:
  assumes "lk_status (if P then a else b) \<noteq> LkMalformed"
    and "P \<Longrightarrow> lk_status a \<noteq> LkMalformed \<Longrightarrow> a' = a"
    and "\<not> P \<Longrightarrow> lk_status b \<noteq> LkMalformed \<Longrightarrow> b' = b"
  shows "(if P then a' else b') = (if P then a else b)"
  using assms by (cases P) simp_all

lemma opt_and_grow:
  assumes "lk_status (opt_and x k) \<noteq> LkMalformed"
    and "\<And>v. x = Some v \<Longrightarrow> \<exists>v'. y = Some v' \<and> v \<le> (v' :: u64)"
    and "\<And>v v'. v \<le> v' \<Longrightarrow> lk_status (k v) \<noteq> LkMalformed \<Longrightarrow> k' v' = k v"
  shows "opt_and y k' = opt_and x k"
  using assms by (cases x) (fastforce simp add: opt_and_def lk_malformed_def)+

context reader_refinement begin

lemma read_u32_mono: "agrees \<Longrightarrow> read_u32 small va = Some x \<Longrightarrow> read_u32 big va = Some x"
  by (auto simp: read_u32_def dest: read_mono)

lemma read_u64_mono: "agrees \<Longrightarrow> read_u64 small va = Some x \<Longrightarrow> read_u64 big va = Some x"
  by (auto simp: read_u64_def dest: read_mono)

lemma read_sym_mono: "agrees \<Longrightarrow> read_sym small va = Some x \<Longrightarrow> read_sym big va = Some x"
  by (auto simp: read_sym_def dest: read_mono)

lemma anchor_mono:
  "agrees \<Longrightarrow> DynamicAnchorReadable small va n \<Longrightarrow> DynamicAnchorReadable big va n"
  by (auto simp: DynamicAnchorReadable_def split: option.splits dest!: readable_mono)

lemma read_name_loop_mono:
  assumes agr: agrees
  shows "read_name_loop small start i n = Some s \<Longrightarrow> read_name_loop big start i n = Some s"
proof (induction "n - i" arbitrary: i s rule: less_induct)
  case less
  obtain e bs where i: "i < n" and e: "CheckedAddVa start (of_nat i) = Some e"
    and bs: "rd_read small e 1 = Some bs"
    using less.prems by (subst (asm) read_name_loop.simps) (auto split: if_splits option.splits)
  have big: "rd_read big e 1 = Some bs" using read_mono [OF agr bs] .
  show ?case
  proof (cases "bs ! 0 = 0")
    case True
    then show ?thesis using less.prems i e bs big by (simp add: read_name_loop.simps)
  next
    case False
    then obtain t where t: "read_name_loop small start (Suc i) n = Some t" "s = bs ! 0 # t"
      using less.prems i e bs by (subst (asm) read_name_loop.simps) auto
    have "read_name_loop big start (Suc i) n = Some t"
      using less.hyps [OF _ t(1)] i by simp
    then show ?thesis using False i e big t(2) by (subst read_name_loop.simps) simp
  qed
qed

lemma ReadSymbolName_mono:
  "agrees \<Longrightarrow> ReadSymbolName small view symb = Some s \<Longrightarrow> ReadSymbolName big view symb = Some s"
  by (auto simp: ReadSymbolName_def split: if_splits option.splits dest: read_name_loop_mono)

lemma MatchSymbol_mono:
  assumes "agrees" "lk_status (MatchSymbol small view index wanted) \<noteq> LkMalformed"
  shows "MatchSymbol big view index wanted = MatchSymbol small view index wanted"
proof -
  obtain va symb actual where facts: "dv_symbol_entry_size view = sizeof_sym"
      "CheckedMulAddVa (dv_symtab_va view) index (dv_symbol_entry_size view) = Some va"
      "read_sym small va = Some symb" "ReadSymbolName small view symb = Some actual"
    using assms(2) MatchSymbol_definite by blast
  then show ?thesis
    using read_sym_mono [OF assms(1) facts(3)] ReadSymbolName_mono [OF assms(1) facts(4)]
    by (simp add: MatchSymbol_def)
qed

lemma consider_mono:
  assumes "agrees" "consider_symbol small view i w c = Some c'"
  shows "consider_symbol big view i w c = Some c'"
  using assms(2) MatchSymbol_mono [OF assms(1), of view i w]
  by (auto simp: consider_symbol_def Let_def split: if_splits)

lemma bind_u32_mono:
  "agrees \<Longrightarrow> Option.bind x (read_u32 small) = Some v \<Longrightarrow> Option.bind x (read_u32 big) = Some v"
  by (cases x) (auto dest: read_u32_mono)

lemma sysv_chain_mono:
  assumes agr: agrees
  shows "lk_status (sysv_chain_loop small view w cc cva i v c) \<noteq> LkMalformed \<Longrightarrow>
    sysv_chain_loop big view w cc cva i v c = sysv_chain_loop small view w cc cva i v c"
proof (induction "unat cc - v" arbitrary: i v c rule: less_induct)
  case less
  show ?case
  proof (cases "i = 0")
    case True
    then show ?thesis by (simp add: sysv_chain_loop.simps)
  next
    case False
    note prem = less.prems [unfolded sysv_chain_loop.simps [of small _ _ _ _ i]]
    obtain c' nxt where g: "\<not> (i \<ge> cc \<or> v \<ge> unat cc)"
      and c': "consider_symbol small view (ucast i) w c = Some c'"
      and nxt: "Option.bind (CheckedMulAddVa cva (ucast i) 4) (read_u32 small) = Some nxt"
        "nxt \<noteq> i"
      and rest: "lk_status (sysv_chain_loop small view w cc cva nxt (Suc v) c') \<noteq> LkMalformed"
      using prem False by (auto simp: lk_malformed_def split: if_splits option.splits)
    have "sysv_chain_loop big view w cc cva nxt (Suc v) c' =
        sysv_chain_loop small view w cc cva nxt (Suc v) c'"
      using g by (intro less.hyps rest diff_less_mono2) simp_all
    then show ?thesis
      using False g c' nxt consider_mono [OF agr c'] bind_u32_mono [OF agr nxt(1)]
      by (simp add: sysv_chain_loop.simps [of _ _ _ _ _ i])
  qed
qed

lemma gnu_chain_mono:
  assumes agr: agrees
  shows "lk_status (gnu_chain_loop small view w h cva m ci si c) \<noteq> LkMalformed \<Longrightarrow> m \<le> m' \<Longrightarrow>
    gnu_chain_loop big view w h cva m' ci si c = gnu_chain_loop small view w h cva m ci si c"
proof (induction "unat m - unat ci" arbitrary: ci si c rule: less_induct)
  case less
  note prem = less.prems(1) [unfolded gnu_chain_loop.simps [of small _ _ _ _ _ ci]]
  obtain ch c' where g: "ci < m"
    and ch: "Option.bind (CheckedMulAddVa cva ci 4) (read_u32 small) = Some ch"
    and c': "(if ch OR 1 = h OR 1 then consider_symbol small view (ucast si) w c else Some c) = Some c'"
    using prem by (auto simp: lk_malformed_def split: if_splits option.splits)
  have g': "ci < m'" using g less.prems(2) by simp
  have chb: "Option.bind (CheckedMulAddVa cva ci 4) (read_u32 big) = Some ch"
    by (rule bind_u32_mono [OF agr ch])
  have cb: "(if ch OR 1 = h OR 1 then consider_symbol big view (ucast si) w c else Some c) = Some c'"
    using c' consider_mono [OF agr] by (auto split: if_splits)
  show ?case
  proof (cases "ch AND 1 \<noteq> 0 \<or> si = 0xffffffff")
    case True
    then show ?thesis using g g' ch c' chb cb by (auto simp: gnu_chain_loop.simps [of _ _ _ _ _ _ ci])
  next
    case False
    have "unat (ci + 1) = unat ci + 1"
      using g unat_lt64 [of m] unat_add_fits [of ci 1] by (simp add: word_less_nat_alt)
    then have dec: "unat m - unat (ci + 1) < unat m - unat ci" using g by (simp add: word_less_nat_alt)
    have "lk_status (gnu_chain_loop small view w h cva m (ci + 1) (si + 1) c') \<noteq> LkMalformed"
      using prem g ch c' False by simp
    from less.hyps [OF dec this less.prems(2)] show ?thesis
      using g g' ch c' chb cb False by (simp add: gnu_chain_loop.simps [of _ _ _ _ _ _ ci])
  qed
qed

lemma FindSysvSymbol_mono:
  assumes agr: agrees
  shows "lk_status (FindSysvSymbol small view name) \<noteq> LkMalformed \<Longrightarrow>
    FindSysvSymbol big view name = FindSysvSymbol small view name"
  unfolding FindSysvSymbol_def Let_def
  by (erule opt_and_mono if_malformed_mono | assumption | erule read_mono [OF agr]
      | erule read_u32_mono [OF agr] | erule sysv_chain_mono [OF agr]
      | blast intro: anchor_mono [OF agr])+

lemma gnu_tail_mono:
  assumes agr: agrees
    and d: "lk_status (opt_and (rd_readable small cva) (\<lambda>remaining.
      gnu_chain_loop small view w h cva (remaining div 4) ci si None)) \<noteq> LkMalformed"
  shows "opt_and (rd_readable big cva) (\<lambda>remaining.
      gnu_chain_loop big view w h cva (remaining div 4) ci si None) =
    opt_and (rd_readable small cva) (\<lambda>remaining.
      gnu_chain_loop small view w h cva (remaining div 4) ci si None)"
  by (rule opt_and_grow [OF d])
    (erule readable_mono [OF agr], rule gnu_chain_mono [OF agr], assumption,
      simp add: word_le_nat_alt unat_div div_le_mono)

lemma FindGnuSymbol_mono:
  assumes agr: agrees
  shows "lk_status (FindGnuSymbol small view name) \<noteq> LkMalformed \<Longrightarrow>
    FindGnuSymbol big view name = FindGnuSymbol small view name"
  unfolding FindGnuSymbol_def Let_def
  by (erule gnu_tail_mono [OF agr] | erule opt_and_mono if_malformed_mono if_same_mono | assumption
      | rule refl | erule read_mono [OF agr] | erule read_u32_mono [OF agr]
      | erule read_u64_mono [OF agr] | blast intro: anchor_mono [OF agr])+

lemma FindElfDynamicSymbol_mono:
  assumes agr: agrees and d: "lk_status (FindElfDynamicSymbol small view name) \<noteq> LkMalformed"
  shows "FindElfDynamicSymbol big view name = FindElfDynamicSymbol small view name"
  using d unfolding FindElfDynamicSymbol_def
  by (auto simp: FindGnuSymbol_mono [OF agr] FindSysvSymbol_mono [OF agr] lk_malformed_def
      split: if_splits)

lemma dynamic_loop_mono:
  assumes agr: agrees
  shows "dynamic_loop small va i n s = Some t \<Longrightarrow> dynamic_loop big va i n s = Some t"
proof (induction "n - i" arbitrary: i s rule: less_induct)
  case less
  note prem = less.prems [unfolded dynamic_loop.simps [of small _ i]]
  obtain e bs where i: "i < n" and e: "CheckedMulAddVa va (of_nat i) sizeof_dyn = Some e"
    and bs: "rd_read small e sizeof_dyn = Some bs"
    using prem by (auto simp: bind_eq_Some_conv split: if_splits option.splits)
  have big: "rd_read big e sizeof_dyn = Some bs" using read_mono [OF agr bs] .
  show ?case
  proof (cases "(of_nat (field bs 0 8) :: u64) = 0")
    case True
    then show ?thesis using prem i e bs big by (simp add: dynamic_loop.simps)
  next
    case False
    then obtain s' where s': "dynamic_entry s (of_nat (field bs 0 8)) (of_nat (field bs 8 8)) = Some s'"
      and rest: "dynamic_loop small va (Suc i) n s' = Some t"
      using prem i e bs by (auto simp: Let_def split: option.splits)
    have "dynamic_loop big va (Suc i) n s' = Some t"
      using i by (intro less.hyps rest diff_less_mono2) simp_all
    then show ?thesis using False i e big s' by (subst dynamic_loop.simps) (simp add: Let_def)
  qed
qed

lemma hash_anchor_mono:
  "agrees \<Longrightarrow> hash_anchor_ok small va n \<Longrightarrow> hash_anchor_ok big va n"
  by (auto simp: hash_anchor_ok_def split: option.splits intro: anchor_mono)

end

text \<open>What an available view has been checked for.\<close>

lemma ReadElfDynamicView_iff:
  "ReadElfDynamicView rd va n = Some view \<longleftrightarrow>
     va \<noteq> 0 \<and> \<not> n < sizeof_dyn \<and> n mod sizeof_dyn = 0 \<and>
     (\<exists>backing. rd_readable rd va = Some backing \<and> n \<le> backing) \<and>
     (\<exists>s. dynamic_loop rd va 0 (unat (n div sizeof_dyn)) dynamic_slots_0 = Some s \<and> view = view_of s) \<and>
     dv_symbol_entry_size view = sizeof_sym \<and> dv_symtab_va view \<noteq> 0 \<and> dv_strtab_va view \<noteq> 0 \<and>
     dv_strtab_size view \<noteq> 0 \<and>
     DynamicAnchorReadable rd (dv_symtab_va view) sizeof_sym \<and>
     DynamicAnchorReadable rd (dv_strtab_va view) (dv_strtab_size view) \<and>
     hash_anchor_ok rd (dv_sysv_hash_va view) 8 \<and> hash_anchor_ok rd (dv_gnu_hash_va view) 16"
  (is "?l \<longleftrightarrow> ?r")
proof -
  have nz: "sizeof_sym \<noteq> 0" by (simp add: sizeof_sym_def)
  show ?thesis
    unfolding ReadElfDynamicView_def Let_def
    using nz by (auto split: if_splits option.splits simp: not_less)
qed

context reader_refinement begin

lemma ReadElfDynamicView_mono:
  assumes agr: agrees and v: "ReadElfDynamicView small va n = Some view"
  shows "ReadElfDynamicView big va n = Some view"
proof -
  obtain b s where b: "rd_readable small va = Some b" "n \<le> b"
    and s: "dynamic_loop small va 0 (unat (n div sizeof_dyn)) dynamic_slots_0 = Some s" "view = view_of s"
    using v unfolding ReadElfDynamicView_iff by blast
  obtain b' where "rd_readable big va = Some b'" "n \<le> b'"
    using readable_mono [OF agr b(1)] b(2) by auto
  then show ?thesis
    using v s dynamic_loop_mono [OF agr s(1)] unfolding ReadElfDynamicView_iff
    by (blast intro: anchor_mono [OF agr] hash_anchor_mono [OF agr])
qed

end

end
