(* ===== verification/Elf_Dynamic_Props.thy ===== *)
theory Elf_Dynamic_Props
  imports Elf_Dynamic
begin

text \<open>
  Properties of the dynamic view and of symbol lookup: what an available view has checked, that
  a found symbol is in the table under the wanted name, that the SysV lookup decides its whole
  chain, and that an answer read from the file-backed part of the loaded image is the answer of
  the artifact file.
\<close>

section \<open>A found symbol carries the name\<close>

lemma read_name_loop_spec:
  "read_name_loop rd start i n = Some s \<Longrightarrow>
     i + length s < n \<and>
     (\<forall>k < length s. \<exists>bs. rd_read rd (start + of_nat (i + k)) 1 = Some bs \<and> bs ! 0 = s ! k \<and> s ! k \<noteq> 0) \<and>
     (\<exists>bs. rd_read rd (start + of_nat (i + length s)) 1 = Some bs \<and> bs ! 0 = 0)"
proof (induction "n - i" arbitrary: i s rule: less_induct)
  case less
  note prem = less.prems [unfolded read_name_loop.simps [of rd start i n]]
  obtain e bs where i: "i < n" and e: "e = start + of_nat i"
    and bs: "rd_read rd e 1 = Some bs"
    and rest: "(if bs ! 0 = 0 then Some []
      else map_option (Cons (bs ! 0)) (read_name_loop rd start (Suc i) n)) = Some s"
    using prem by (auto simp: CheckedAddVa_iff split: if_splits option.splits)
  show ?case
  proof (cases "bs ! 0 = 0")
    case True
    then show ?thesis using rest i e bs by auto
  next
    case False
    then obtain t where t: "read_name_loop rd start (Suc i) n = Some t" "s = bs ! 0 # t"
      using rest by auto
    note IH = less.hyps [OF _ t(1)]
    have "\<exists>bs. rd_read rd (start + of_nat (i + k)) 1 = Some bs \<and> bs ! 0 = s ! k \<and> s ! k \<noteq> 0"
      if "k < length s" for k
      using that IH i e bs False t(2) by (cases k) auto
    then show ?thesis using IH i t(2) by auto
  qed
qed

definition name_at :: "va_reader \<Rightarrow> u64 \<Rightarrow> u8 list \<Rightarrow> bool" where
  "name_at rd va name \<longleftrightarrow>
     (\<forall>k < length name. \<exists>bs. rd_read rd (va + of_nat k) 1 = Some bs \<and> bs ! 0 = name ! k \<and> name ! k \<noteq> 0) \<and>
     (\<exists>bs. rd_read rd (va + of_nat (length name)) 1 = Some bs \<and> bs ! 0 = 0)"

lemma ReadSymbolName_spec:
  assumes "ReadSymbolName rd view symb = Some name"
  shows "name_at rd (dv_strtab_va view + ucast (st_name symb)) name \<and>
    unat (st_name symb) + length name < unat (dv_strtab_size view)"
proof -
  let ?n = "ucast (st_name symb) :: u64"
  obtain start where lt: "\<not> ?n \<ge> dv_strtab_size view" and st: "start = dv_strtab_va view + ?n"
    and rd: "read_name_loop rd start 0 (unat (dv_strtab_size view - ?n)) = Some name"
    using assms by (auto simp: ReadSymbolName_def CheckedAddVa_iff split: if_splits option.splits)
  have "unat ?n = unat (st_name symb)"
    using unsigned_less [of "st_name symb", where ?'a = nat]
    by (simp add: unsigned_ucast_eq take_bit_nat_eq_self)
  moreover have "unat (dv_strtab_size view - ?n) = unat (dv_strtab_size view) - unat ?n"
    using lt by (simp add: unat_sub_le)
  ultimately have "unat (st_name symb) + length name < unat (dv_strtab_size view)"
    using read_name_loop_spec [OF rd] by linarith
  then show ?thesis
    using read_name_loop_spec [OF rd] st by (simp add: name_at_def)
qed

definition symbol_in_table :: "va_reader \<Rightarrow> dynamic_view \<Rightarrow> u8 list \<Rightarrow> dynamic_symbol \<Rightarrow> bool" where
  "symbol_in_table rd view name s \<longleftrightarrow>
     (\<exists>index symb. read_sym rd (dv_symtab_va view + index * sizeof_sym) = Some symb \<and>
        name_at rd (dv_strtab_va view + ucast (st_name symb)) name \<and>
        s = symbol_of symb \<and> ds_section_index s \<noteq> 0 \<and> ds_value s \<noteq> 0)"

lemma MatchSymbol_found:
  assumes "MatchSymbol rd view index wanted = lk_found s"
  shows "symbol_in_table rd view wanted s"
proof -
  have "lk_status (MatchSymbol rd view index wanted) \<noteq> LkMalformed"
    using assms by (simp add: lk_found_def)
  from MatchSymbol_definite [OF this] obtain va symb actual where
    f: "dv_symbol_entry_size view = sizeof_sym"
      "CheckedMulAddVa (dv_symtab_va view) index (dv_symbol_entry_size view) = Some va"
      "read_sym rd va = Some symb" "ReadSymbolName rd view symb = Some actual"
      "MatchSymbol rd view index wanted =
        (if actual \<noteq> wanted then lk_not_found else lk_found (symbol_of symb))"
      "actual = wanted \<longrightarrow> st_shndx symb \<noteq> 0 \<and> st_value symb \<noteq> 0" by blast
  have "actual = wanted" "s = symbol_of symb"
    using f(5) assms by (simp_all add: lk_not_found_def lk_found_def split: if_splits)
  then show ?thesis
    using f ReadSymbolName_spec [OF f(4)]
    by (auto simp: symbol_in_table_def symbol_of_def CheckedMulAddVa_iff)
qed

lemma consider_found:
  assumes "consider_symbol rd view i name c = Some (Some s)"
  shows "c = Some s \<or> symbol_in_table rd view name s"
proof -
  have *: "MatchSymbol rd view i name = lk_found (lk_symbol (MatchSymbol rd view i name))"
    if "lk_status (MatchSymbol rd view i name) = LkFound"
    using that by (simp add: lk_found_def)
  show ?thesis
    using assms * MatchSymbol_found [of rd view i name s]
    by (auto simp: consider_symbol_def RememberDynamicSymbol_def Let_def split: if_splits option.splits)
qed

lemma candidate_result_found: "candidate_result c = lk_found s \<longleftrightarrow> c = Some s"
  by (auto simp: candidate_result_def lk_found_def lk_not_found_def split: option.splits)

lemma malformed_not_found [simp]: "lk_malformed \<noteq> lk_found s" "lk_not_found \<noteq> lk_found s"
  by (simp_all add: lk_malformed_def lk_not_found_def lk_found_def)

lemma sysv_chain_found:
  "sysv_chain_loop rd view name cc cva i v c = lk_found s \<Longrightarrow>
     c = Some s \<or> symbol_in_table rd view name s"
proof (induction "unat cc - v" arbitrary: i v c rule: less_induct)
  case less
  note prem = less.prems [unfolded sysv_chain_loop.simps [of rd _ _ _ _ i]]
  show ?case
  proof (cases "i = 0")
    case True
    then show ?thesis using prem by (simp add: candidate_result_found)
  next
    case False
    then obtain c' nxt where g: "\<not> (i \<ge> cc \<or> v \<ge> unat cc)"
      and c': "consider_symbol rd view (ucast i) name c = Some c'"
      and rest: "sysv_chain_loop rd view name cc cva nxt (Suc v) c' = lk_found s"
      using prem by (auto split: if_splits option.splits)
    have "unat cc - Suc v < unat cc - v" using g by (intro diff_less_mono2) simp_all
    from less.hyps [OF this rest] show ?thesis using consider_found c' by blast
  qed
qed

lemma gnu_chain_found:
  "gnu_chain_loop rd view name h cva m ci si c = lk_found s \<Longrightarrow>
     c = Some s \<or> symbol_in_table rd view name s"
proof (induction "unat m - unat ci" arbitrary: ci si c rule: less_induct)
  case less
  note prem = less.prems [unfolded gnu_chain_loop.simps [of rd _ _ _ _ _ ci]]
  obtain ch c' where g: "ci < m"
    and ch: "Option.bind (CheckedMulAddVa cva ci 4) (read_u32 rd) = Some ch"
    and c': "(if ch OR 1 = h OR 1 then consider_symbol rd view (ucast si) name c else Some c) = Some c'"
    and rest: "(if ch AND 1 \<noteq> 0 then candidate_result c' else if si = 0xffffffff then lk_malformed
      else gnu_chain_loop rd view name h cva m (ci + 1) (si + 1) c') = lk_found s"
    using prem by (auto split: if_splits option.splits)
  have keep: "c' = Some s \<Longrightarrow> c = Some s \<or> symbol_in_table rd view name s"
    using c' consider_found by (auto split: if_splits)
  have "unat (ci + 1) = unat ci + 1"
    using g unat_lt64 [of m] unat_add_fits [of ci 1] by (simp add: word_less_nat_alt)
  then have "unat m - unat (ci + 1) < unat m - unat ci" using g by (simp add: word_less_nat_alt)
  note IH = less.hyps [OF this]
  show ?case using rest keep IH by (auto simp: candidate_result_found split: if_splits)
qed

lemma opt_and_found: "opt_and x k = lk_found s \<longleftrightarrow> (\<exists>v. x = Some v \<and> k v = lk_found s)"
  by (cases x) (simp_all add: opt_and_def)

lemma FindSysv_found: "FindSysvSymbol rd view name = lk_found s \<Longrightarrow> symbol_in_table rd view name s"
  unfolding FindSysvSymbol_def Let_def
  by (auto simp: opt_and_found split: if_splits dest!: sysv_chain_found)

lemma FindGnu_found: "FindGnuSymbol rd view name = lk_found s \<Longrightarrow> symbol_in_table rd view name s"
  unfolding FindGnuSymbol_def Let_def
  by (auto simp: opt_and_found split: if_splits dest!: gnu_chain_found)

text \<open>
  A symbol that the lookup reports, through either hash table, is an entry of the symbol
  table whose name in the string table is exactly the wanted one, NUL-terminated there; it is
  defined (section index and value are not zero) and its fields are the entry's.
\<close>

theorem found_symbol_in_table:
  assumes "FindElfDynamicSymbol rd view name = lk_found s"
  shows "name \<noteq> [] \<and> symbol_in_table rd view name s"
  using assms FindSysv_found FindGnu_found
  by (auto simp: FindElfDynamicSymbol_def split: if_splits)

section \<open>The SysV lookup decides its whole chain\<close>

inductive sysv_chain :: "va_reader \<Rightarrow> u64 \<Rightarrow> u32 \<Rightarrow> u32 \<Rightarrow> bool" for rd cva where
  here: "sysv_chain rd cva i i"
| after: "sysv_chain rd cva i j" if "i \<noteq> 0"
    "Option.bind (CheckedMulAddVa cva (ucast i) 4) (read_u32 rd) = Some nxt" "sysv_chain rd cva nxt j"

inductive_simps sysv_chain_step: "sysv_chain rd cva i j"

lemma sysv_chain_from_end: "sysv_chain rd cva i j \<Longrightarrow> i = 0 \<Longrightarrow> j = 0"
  by (induction rule: sysv_chain.induct) auto

lemma consider_decides:
  assumes "consider_symbol rd view i name c = Some c'"
  shows "lk_status (MatchSymbol rd view i name) \<noteq> LkMalformed \<and>
    (MatchSymbol rd view i name = lk_found s \<longrightarrow> c' = Some s) \<and> (c = Some s \<longrightarrow> c' = Some s)"
  using assms
  by (auto simp: consider_symbol_def RememberDynamicSymbol_def Let_def lk_found_def
      split: if_splits option.splits)

text \<open>What a definite result says of the candidate and of every later symbol of the chain.\<close>

lemma sysv_loop_decides:
  "sysv_chain_loop rd view name cc cva i v c = r \<Longrightarrow> lk_status r \<noteq> LkMalformed \<Longrightarrow>
     (c = Some s \<longrightarrow> r = lk_found s) \<and>
     (\<forall>j. sysv_chain rd cva i j \<longrightarrow> j \<noteq> 0 \<longrightarrow>
        j < cc \<and> lk_status (MatchSymbol rd view (ucast j) name) \<noteq> LkMalformed \<and>
        (MatchSymbol rd view (ucast j) name = lk_found s \<longrightarrow> r = lk_found s))"
proof (induction "unat cc - v" arbitrary: i v c rule: less_induct)
  case less
  note prem = less.prems(1) [unfolded sysv_chain_loop.simps [of rd _ _ _ _ i]]
  show ?case
  proof (cases "i = 0")
    case True
    then have "r = candidate_result c" using prem by simp
    then show ?thesis using sysv_chain_from_end True by (auto simp: candidate_result_def)
  next
    case False
    obtain c' nxt where g: "\<not> (i \<ge> cc \<or> v \<ge> unat cc)"
      and c': "consider_symbol rd view (ucast i) name c = Some c'"
      and nxt: "Option.bind (CheckedMulAddVa cva (ucast i) 4) (read_u32 rd) = Some nxt"
      and rest: "sysv_chain_loop rd view name cc cva nxt (Suc v) c' = r"
      using prem False less.prems(2) by (auto simp: lk_malformed_def split: if_splits option.splits)
    have "unat cc - Suc v < unat cc - v" using g by (intro diff_less_mono2) simp_all
    note IH = less.hyps [OF this rest less.prems(2)]
    note dec = consider_decides [OF c', of s]
    have "j < cc \<and> lk_status (MatchSymbol rd view (ucast j) name) \<noteq> LkMalformed \<and>
        (MatchSymbol rd view (ucast j) name = lk_found s \<longrightarrow> r = lk_found s)"
      if "sysv_chain rd cva i j" "j \<noteq> 0" for j
    proof (cases "i = j")
      case True
      then show ?thesis using g dec IH by auto
    next
      case False
      then have "sysv_chain rd cva nxt j"
        using that(1) nxt unfolding sysv_chain_step [of rd cva i j] by auto
      then show ?thesis using IH that(2) by blast
    qed
    then show ?thesis using dec IH by blast
  qed
qed

text \<open>
  C14: A definite answer of the SysV lookup has examined the whole hash chain of the name's
  bucket: every symbol index on it is below the chain count and matched without a malformed
  read; not found means that none of them carries the name, and found that all of those that
  do carry it are the one symbol returned.
\<close>

theorem sysv_lookup_complete:
  assumes "dv_sysv_hash_va view = Some hash_va"
    and "lk_status (FindSysvSymbol rd view name) \<noteq> LkMalformed"
  shows "\<exists>header bucket_count chain_count first chains_va.
    rd_read rd hash_va 8 = Some header \<and> bucket_count = of_nat (field header 0 4) \<and>
    chain_count = of_nat (field header 4 4) \<and> bucket_count \<noteq> 0 \<and>
    read_u32 rd (hash_va + 8 + ucast (SysvHash name mod bucket_count) * 4) = Some first \<and>
    chains_va = hash_va + 8 + ucast bucket_count * 4 \<and>
    (\<forall>j s. sysv_chain rd chains_va first j \<longrightarrow> j \<noteq> 0 \<longrightarrow>
       j < chain_count \<and> lk_status (MatchSymbol rd view (ucast j) name) \<noteq> LkMalformed \<and>
       (MatchSymbol rd view (ucast j) name = lk_found s \<longrightarrow>
          FindSysvSymbol rd view name = lk_found s))"
proof -
  let ?r = "FindSysvSymbol rd view name"
  obtain header bva bsz first cva bkt where
    h: "rd_read rd hash_va 8 = Some header" and
    b: "(of_nat (field header 0 4) :: u32) \<noteq> 0" and
    bva: "CheckedAddVa hash_va 8 = Some bva" and
    bsz: "CheckedMul (ucast (of_nat (field header 0 4) :: u32)) 4 = Some bsz" and
    bkt: "CheckedMulAddVa bva (ucast (SysvHash name mod of_nat (field header 0 4))) 4 = Some bkt"
      "read_u32 rd bkt = Some first" and
    cva: "CheckedAddVa bva bsz = Some cva" and
    loop: "sysv_chain_loop rd view name (of_nat (field header 4 4)) cva first 0 None = ?r"
    using assms unfolding FindSysvSymbol_def Let_def
    by (auto simp: opt_and_definite split: if_splits) (auto simp: lk_malformed_def)
  show ?thesis
    using h b bva bsz bkt cva sysv_loop_decides [OF loop assms(2)]
    by (intro exI [of _ header] exI [of _ "of_nat (field header 0 4)"]
        exI [of _ "of_nat (field header 4 4)"] exI [of _ first] exI [of _ cva])
      (auto simp: CheckedAddVa_iff CheckedMul_iff CheckedMulAddVa_iff)
qed

section \<open>An available view\<close>

definition slot_kept :: "'a option \<Rightarrow> 'a option \<Rightarrow> bool" where
  "slot_kept a b \<longleftrightarrow> (\<forall>x. a = Some x \<longrightarrow> b = Some x)"

definition slots_kept :: "dynamic_slots \<Rightarrow> dynamic_slots \<Rightarrow> bool" where
  "slots_kept s t \<longleftrightarrow> slot_kept (sl_symtab s) (sl_symtab t) \<and> slot_kept (sl_strtab s) (sl_strtab t) \<and>
     slot_kept (sl_strsz s) (sl_strsz t) \<and> slot_kept (sl_syment s) (sl_syment t) \<and>
     slot_kept (sl_hash s) (sl_hash t) \<and> slot_kept (sl_gnu_hash s) (sl_gnu_hash t)"

definition entry_recorded :: "dynamic_slots \<Rightarrow> u64 \<Rightarrow> u64 \<Rightarrow> bool" where
  "entry_recorded t tag v \<longleftrightarrow>
     (tag = DT_SYMTAB \<longrightarrow> sl_symtab t = Some v) \<and> (tag = DT_STRTAB \<longrightarrow> sl_strtab t = Some v) \<and>
     (tag = DT_STRSZ \<longrightarrow> sl_strsz t = Some v) \<and> (tag = DT_SYMENT \<longrightarrow> sl_syment t = Some v) \<and>
     (tag = DT_HASH \<longrightarrow> sl_hash t = Some v) \<and> (tag = DT_GNU_HASH \<longrightarrow> sl_gnu_hash t = Some v)"

lemmas dt_defs = DT_HASH_def DT_STRTAB_def DT_SYMTAB_def DT_STRSZ_def DT_SYMENT_def DT_GNU_HASH_def

lemma slots_kept_refl: "slots_kept s s"
  by (simp add: slots_kept_def slot_kept_def)

lemma slots_kept_trans: "slots_kept s t \<Longrightarrow> slots_kept t u \<Longrightarrow> slots_kept s u"
  by (simp add: slots_kept_def slot_kept_def)

lemma entry_recorded_kept: "entry_recorded s tag v \<Longrightarrow> slots_kept s t \<Longrightarrow> entry_recorded t tag v"
  by (simp add: entry_recorded_def slots_kept_def slot_kept_def)

lemma singleton_kept:
  "SetDynamicSingleton v slot = Some x \<Longrightarrow> x = Some v \<and> slot_kept slot x"
  by (auto simp: SetDynamicSingleton_def slot_kept_def split: option.splits if_splits)

lemma dynamic_entry_kept:
  assumes "dynamic_entry s tag v = Some s'"
  shows "slots_kept s s' \<and> entry_recorded s' tag v"
proof -
  have refl: "slot_kept x x" for x :: "u64 option" by (simp add: slot_kept_def)
  show ?thesis
    using assms unfolding dynamic_entry_def
    by (auto simp: slots_kept_def entry_recorded_def dt_defs refl split: if_splits
        dest!: singleton_kept)
qed

definition dynamic_pair :: "va_reader \<Rightarrow> u64 \<Rightarrow> nat \<Rightarrow> (u64 \<times> u64) option" where
  "dynamic_pair rd va i =
     map_option (\<lambda>bs. (of_nat (field bs 0 8), of_nat (field bs 8 8)))
       (rd_read rd (va + of_nat i * sizeof_dyn) sizeof_dyn)"

lemma dynamic_loop_spec:
  "dynamic_loop rd va i n s = Some t \<Longrightarrow>
     slots_kept s t \<and>
     (\<exists>k v0. i \<le> k \<and> k < n \<and> dynamic_pair rd va k = Some (0, v0) \<and>
       (\<forall>j. i \<le> j \<longrightarrow> j < k \<longrightarrow> (\<exists>tag v. dynamic_pair rd va j = Some (tag, v) \<and> tag \<noteq> 0 \<and>
         entry_recorded t tag v)))"
proof (induction "n - i" arbitrary: i s rule: less_induct)
  case less
  note prem = less.prems [unfolded dynamic_loop.simps [of rd _ i]]
  obtain bs where i: "i < n" and rd: "rd_read rd (va + of_nat i * sizeof_dyn) sizeof_dyn = Some bs"
    and step: "(if (of_nat (field bs 0 8) :: u64) = 0 then Some s
      else case dynamic_entry s (of_nat (field bs 0 8)) (of_nat (field bs 8 8)) of
        None \<Rightarrow> None | Some s' \<Rightarrow> dynamic_loop rd va (Suc i) n s') = Some t"
    using prem by (auto simp: bind_eq_Some_conv CheckedMulAddVa_iff Let_def split: if_splits option.splits)
  let ?tag = "of_nat (field bs 0 8) :: u64" and ?v = "of_nat (field bs 8 8) :: u64"
  have pair: "dynamic_pair rd va i = Some (?tag, ?v)" using rd by (simp add: dynamic_pair_def)
  show ?case
  proof (cases "?tag = 0")
    case True
    then have "s = t" using step by simp
    then show ?thesis using True pair i slots_kept_refl by fastforce
  next
    case False
    then obtain s' where e: "dynamic_entry s ?tag ?v = Some s'"
      and rest: "dynamic_loop rd va (Suc i) n s' = Some t"
      using step by (auto split: option.splits)
    have "n - Suc i < n - i" using i by simp
    note IH = less.hyps [OF this rest]
    then obtain k v0 where k: "Suc i \<le> k" "k < n" "dynamic_pair rd va k = Some (0, v0)"
      and mid: "\<And>j. Suc i \<le> j \<Longrightarrow> j < k \<Longrightarrow> \<exists>tag v. dynamic_pair rd va j = Some (tag, v) \<and> tag \<noteq> 0 \<and>
         entry_recorded t tag v" by blast
    have now: "entry_recorded t ?tag ?v" "slots_kept s t"
      using dynamic_entry_kept [OF e] IH entry_recorded_kept slots_kept_trans by blast+
    have "\<exists>tag v. dynamic_pair rd va j = Some (tag, v) \<and> tag \<noteq> 0 \<and> entry_recorded t tag v"
      if "i \<le> j" "j < k" for j
      using that mid [of j] now(1) pair False by (cases "j = i") auto
    then show ?thesis using now(2) k by (meson Suc_leD)
  qed
qed

text \<open>
  An available dynamic view comes from a table that ends in DT_NULL within its declared
  size; every earlier entry was read, and every address, size and hash tag among them has the
  one value the view carries, so no tag was given twice with different values; the four
  mandatory fields are present, the symbol size is that of an ELF64 symbol, and the symbol
  table, the whole string table and each advertised hash header are readable.
\<close>

theorem available_view_checked:
  assumes "ReadElfDynamicView rd va n = Some view"
  shows "\<exists>s k v0. view = view_of s \<and> k < unat n div 16 \<and> dynamic_pair rd va k = Some (0, v0) \<and>
      (\<forall>j<k. \<exists>tag v. dynamic_pair rd va j = Some (tag, v) \<and> tag \<noteq> 0 \<and> entry_recorded s tag v) \<and>
      sl_symtab s \<noteq> None \<and> sl_strtab s \<noteq> None \<and> sl_strsz s \<noteq> None \<and> sl_syment s = Some 24 \<and>
      DynamicAnchorReadable rd (dv_symtab_va view) 24 \<and>
      DynamicAnchorReadable rd (dv_strtab_va view) (dv_strtab_size view) \<and>
      hash_anchor_ok rd (dv_sysv_hash_va view) 8 \<and> hash_anchor_ok rd (dv_gnu_hash_va view) 16"
proof -
  obtain s where s: "dynamic_loop rd va 0 (unat (n div sizeof_dyn)) dynamic_slots_0 = Some s"
      "view = view_of s"
    using assms unfolding ReadElfDynamicView_iff by blast
  have "unat (n div sizeof_dyn) = unat n div 16" by (simp add: sizeof_dyn_def unat_div)
  then obtain k v0 where k: "k < unat n div 16" "dynamic_pair rd va k = Some (0, v0)"
    "\<forall>j<k. \<exists>tag v. dynamic_pair rd va j = Some (tag, v) \<and> tag \<noteq> 0 \<and> entry_recorded s tag v"
    using dynamic_loop_spec [OF s(1)] by auto
  have "sl_symtab s \<noteq> None \<and> sl_strtab s \<noteq> None \<and> sl_strsz s \<noteq> None \<and> sl_syment s = Some 24"
    using assms unfolding ReadElfDynamicView_iff s(2)
    by (auto simp: view_of_def value_or_0_def sizeof_sym_def split: option.splits)
  then show ?thesis
    using assms s(2) k unfolding ReadElfDynamicView_iff sizeof_sym_def by blast
qed

section \<open>One answer for the loaded image and the artifact\<close>

text \<open>
  C3: What the file-backed reader of a loaded image says of the dynamic segment is what the
  artifact file says: if the image was loaded from the file, an available view is the file's
  view, and a definite lookup (found or not found) is the file's lookup; the same holds
  against the reader of the whole loaded image.
\<close>

theorem loaded_lookup_is_artifact_lookup:
  assumes "file_image_ok bytes hs" "image_loaded b mem bytes hs"
    and "ReadElfDynamicView (FileBackedLoadedElfReader b mem hs) va n = Some view"
    and "lk_status (FindElfDynamicSymbol (FileBackedLoadedElfReader b mem hs) view name) \<noteq> LkMalformed"
  shows "ReadElfDynamicView (FileElfReader bytes hs) va n = Some view \<and>
    FindElfDynamicSymbol (FileElfReader bytes hs) view name =
      FindElfDynamicSymbol (FileBackedLoadedElfReader b mem hs) view name \<and>
    ReadElfDynamicView (LoadedElfReader b mem hs) va n = Some view \<and>
    FindElfDynamicSymbol (LoadedElfReader b mem hs) view name =
      FindElfDynamicSymbol (FileBackedLoadedElfReader b mem hs) view name"
proof -
  have lay: "ValidateElfLoadLayout hs"
    using assms(1) by (simp add: file_image_ok_def ValidateElfLoadSegments_def)
  show ?thesis
    using backed_to_file.ReadElfDynamicView_mono [OF conjI [OF assms(1,2)] assms(3)]
      backed_to_file.FindElfDynamicSymbol_mono [OF conjI [OF assms(1,2)] assms(4)]
      backed_to_loaded.ReadElfDynamicView_mono [OF lay assms(3)]
      backed_to_loaded.FindElfDynamicSymbol_mono [OF lay assms(4)] by blast
qed

section \<open>A small image\<close>

text \<open>
  PT_DYNAMIC at 0, the SysV hash table at 96, two symbols at 120 and the string table at 168 of
  one readable segment loaded at 0x1000.
\<close>

definition tiny_image :: "u8 list" where
  "tiny_image =
     [6, 0, 0, 0, 0, 0, 0, 0, 120, 16, 0, 0, 0, 0, 0, 0, 5, 0, 0, 0, 0, 0, 0, 0, 168, 16,
      0, 0, 0, 0, 0, 0, 10, 0, 0, 0, 0, 0, 0, 0, 3, 0, 0, 0, 0, 0, 0, 0, 11, 0, 0, 0, 0,
      0, 0, 0, 24, 0, 0, 0, 0, 0, 0, 0, 4, 0, 0, 0, 0, 0, 0, 0, 96, 16, 0, 0, 0, 0, 0, 0,
      0, 0, 0, 0, 0, 0, 0, 0, 0, 0, 0, 0, 0, 0, 0, 0, 1, 0, 0, 0, 2, 0, 0, 0, 1, 0, 0, 0,
      0, 0, 0, 0, 0, 0, 0, 0, 0, 0, 0, 0, 0, 0, 0, 0, 0, 0, 0, 0, 0, 0, 0, 0, 0, 0, 0, 0,
      0, 0, 0, 0, 0, 0, 0, 0, 1, 0, 0, 0, 18, 0, 1, 0, 0, 16, 0, 0, 0, 0, 0, 0, 4, 0, 0,
      0, 0, 0, 0, 0, 0, 102, 0]"

definition tiny_segment :: phdr where
  "tiny_segment = \<lparr>ph_type = PT_LOAD, ph_flags = 4, ph_offset = 0, ph_va = 0x1000,
     ph_file_size = 171, ph_memory_size = 171, ph_alignment = 0\<rparr>"

definition tiny_memory :: memory where
  "tiny_memory p = (if 0x1000 \<le> p \<and> p < 0x10ab then tiny_image ! unat (p - 0x1000) else 0)"

definition tiny_view :: dynamic_view where
  "tiny_view = \<lparr>dv_symtab_va = 0x1078, dv_strtab_va = 0x10a8, dv_strtab_size = 3,
     dv_symbol_entry_size = 24, dv_sysv_hash_va = Some 0x1060, dv_gnu_hash_va = None\<rparr>"

definition tiny_symbol :: dynamic_symbol where
  "tiny_symbol = \<lparr>ds_value = 0x1000, ds_size = 4, ds_info = 0x12, ds_other = 0, ds_section_index = 1\<rparr>"

abbreviation tiny_reader :: va_reader where
  "tiny_reader \<equiv> FileBackedLoadedElfReader 0 tiny_memory [tiny_segment]"

lemma tiny_image_ok: "file_image_ok tiny_image [tiny_segment]"
proof -
  have "ValidateElfLoadSegments tiny_image [tiny_segment]" by code_simp
  moreover have "length tiny_image = 171" by code_simp
  ultimately show ?thesis by (simp add: file_image_ok_def)
qed

lemma tiny_loaded: "image_loaded 0 tiny_memory tiny_image [tiny_segment]"
  by code_simp

lemma tiny_loaded_view: "ReadElfDynamicView tiny_reader 0x1000 96 = Some tiny_view"
  by code_simp

lemma tiny_loaded_found: "FindElfDynamicSymbol tiny_reader tiny_view [0x66] = lk_found tiny_symbol"
  by code_simp

theorem loaded_lookup_is_artifact_lookup_witness:
  "FindElfDynamicSymbol (FileElfReader tiny_image [tiny_segment]) tiny_view [0x66] =
     lk_found tiny_symbol"
proof -
  have "lk_status (FindElfDynamicSymbol tiny_reader tiny_view [0x66]) \<noteq> LkMalformed"
    unfolding tiny_loaded_found by (simp add: lk_found_def)
  then show ?thesis
    using loaded_lookup_is_artifact_lookup [OF tiny_image_ok tiny_loaded tiny_loaded_view]
      tiny_loaded_found by metis
qed

theorem available_view_checked_witness:
  "\<exists>s k v0. tiny_view = view_of s \<and> k < 6 \<and> dynamic_pair tiny_reader 0x1000 k = Some (0, v0)"
  using available_view_checked [OF tiny_loaded_view] by auto

theorem found_symbol_in_table_witness: "symbol_in_table tiny_reader tiny_view [0x66] tiny_symbol"
  using found_symbol_in_table [OF tiny_loaded_found] by blast

lemma tiny_sysv: "lk_status (FindSysvSymbol tiny_reader tiny_view [0x66]) \<noteq> LkMalformed"
  using tiny_loaded_found
  by (simp add: FindElfDynamicSymbol_def tiny_view_def lk_found_def)

theorem sysv_lookup_complete_witness:
  "\<exists>header. rd_read tiny_reader 0x1060 8 = Some header \<and> (of_nat (field header 0 4) :: u32) \<noteq> 0"
proof -
  have "dv_sysv_hash_va tiny_view = Some 0x1060" by (simp add: tiny_view_def)
  from sysv_lookup_complete [OF this tiny_sysv] show ?thesis by blast
qed

end
