(* ===== verification/Elf_Program_Headers.thy ===== *)
theory Elf_Program_Headers
  imports Elf_Load
begin

text \<open>
  Parsing the program-header table of an ELF64/AArch64 image
  (\<open>ParseElf64ProgramHeaders\<close> in \<^verbatim>\<open>src/elf/dynamic_view.cpp\<close>), and its round trip with the
  layout of such a file.
\<close>

record elf_header =
  e_type :: u16
  e_machine :: u16
  e_version :: u32
  e_phoff :: u64
  e_phentsize :: u16
  e_phnum :: u16

definition decode_header :: "u8 list \<Rightarrow> elf_header" where
  "decode_header bs =
     \<lparr>e_type = of_nat (field bs 16 2), e_machine = of_nat (field bs 18 2),
      e_version = of_nat (field bs 20 4), e_phoff = of_nat (field bs 32 8),
      e_phentsize = of_nat (field bs 54 2), e_phnum = of_nat (field bs 56 2)\<rparr>"

definition decode_phdr :: "u8 list \<Rightarrow> phdr" where
  "decode_phdr bs =
     \<lparr>ph_type = of_nat (field bs 0 4), ph_flags = of_nat (field bs 4 4),
      ph_offset = of_nat (field bs 8 8), ph_va = of_nat (field bs 16 8),
      ph_file_size = of_nat (field bs 32 8), ph_memory_size = of_nat (field bs 40 8),
      ph_alignment = of_nat (field bs 48 8)\<rparr>"

definition ELFMAG :: "u8 list" where "ELFMAG = [0x7f, 0x45, 0x4c, 0x46]"
definition sizeof_ehdr :: nat where "sizeof_ehdr = 64"
definition sizeof_phdr :: nat where "sizeof_phdr = 56"

definition header_accepted :: "u8 list \<Rightarrow> bool" where
  "header_accepted bytes \<longleftrightarrow>
     (let h = decode_header bytes in
      \<not> (take 4 bytes \<noteq> ELFMAG \<or> bytes ! 4 \<noteq> 2 \<or> bytes ! 5 \<noteq> 1 \<or> bytes ! 6 \<noteq> 1 \<or>
         e_version h \<noteq> 1 \<or> e_type h \<noteq> 3 \<or> e_machine h \<noteq> 183 \<or>
         e_phentsize h \<noteq> of_nat sizeof_phdr \<or> e_phnum h = 0xffff))"

text \<open>The table loop; a header's bytes are read only after its address was computed.\<close>

function phdr_loop :: "u8 list \<Rightarrow> u64 \<Rightarrow> nat \<Rightarrow> nat \<Rightarrow> phdr list option" where
  "phdr_loop bytes phoff index count =
     (if index \<ge> count then Some []
      else case CheckedMulAddVa phoff (of_nat index) (of_nat sizeof_phdr) of
             None \<Rightarrow> None
           | Some offset \<Rightarrow>
               map_option (Cons (decode_phdr (take sizeof_phdr (drop (unat offset) bytes))))
                 (phdr_loop bytes phoff (Suc index) count))"
  by pat_completeness auto
termination by (relation "measure (\<lambda>(bytes, phoff, index, count). count - index)") auto

declare phdr_loop.simps [simp del]

definition ParseElf64ProgramHeaders :: "u8 list \<Rightarrow> phdr list option" where
  "ParseElf64ProgramHeaders bytes =
     (if length bytes < sizeof_ehdr then None
      else if \<not> header_accepted bytes then None
      else
        let h = decode_header bytes;
            table_size = ucast (e_phnum h) * of_nat sizeof_phdr in
        if \<not> RangeFits (e_phoff h) table_size (of_nat (length bytes)) then None
        else case phdr_loop bytes (e_phoff h) 0 (unat (e_phnum h)) of
               None \<Rightarrow> None
             | Some parsed \<Rightarrow>
                 if \<not> ValidateElfLoadSegments bytes parsed then None else Some parsed)"

section \<open>The layout of a well-formed file\<close>

definition encode_phdr :: "phdr \<Rightarrow> u64 \<Rightarrow> u8 list" where
  "encode_phdr h paddr =
     encode_le 4 (unat (ph_type h)) @ encode_le 4 (unat (ph_flags h)) @
     encode_le 8 (unat (ph_offset h)) @ encode_le 8 (unat (ph_va h)) @
     encode_le 8 (unat paddr) @ encode_le 8 (unat (ph_file_size h)) @
     encode_le 8 (unat (ph_memory_size h)) @ encode_le 8 (unat (ph_alignment h))"

text \<open>A file whose table follows the ELF header; the fields the parser ignores are arbitrary.\<close>

definition encode_file :: "u8 list \<Rightarrow> u8 list \<Rightarrow> u8 list \<Rightarrow> u8 list \<Rightarrow> u64 \<Rightarrow> phdr list \<Rightarrow> u8 list \<Rightarrow> u8 list" where
  "encode_file ident entry middle tail paddr hs payload =
     ELFMAG @ [2, 1, 1] @ ident @ encode_le 2 3 @ encode_le 2 183 @ encode_le 4 1 @ entry @
     encode_le 8 64 @ middle @ encode_le 2 56 @ encode_le 2 (length hs) @ tail @
     concat (map (\<lambda>h. encode_phdr h paddr) hs) @ payload"

lemma encode_phdr_length [simp]: "length (encode_phdr h p) = sizeof_phdr"
  by (simp add: encode_phdr_def sizeof_phdr_def)

lemma of_nat_mod_word:
  "of_nat (unat x mod 65536) = (x :: u16)" "of_nat (unat y mod 4294967296) = (y :: u32)"
  "of_nat (unat z mod 18446744073709551616) = (z :: u64)"
  using unat_bound [of x] unat_bound [of y] unat_bound [of z] by simp_all

lemma decode_encode_phdr: "decode_phdr (encode_phdr h p) = h"
  by (intro phdr.equality)
    (simp_all add: decode_phdr_def encode_phdr_def field_append_right field_append_left
      field_def le_nat_encode of_nat_mod_word)

lemma nth_table:
  "i < length hs \<Longrightarrow> take sizeof_phdr (drop (sizeof_phdr * i)
     (concat (map (\<lambda>h. encode_phdr h p) hs) @ payload)) = encode_phdr (hs ! i) p"
proof (induction hs arbitrary: i)
  case Nil
  then show ?case by simp
next
  case (Cons h hs)
  show ?case
  proof (cases i)
    case 0
    then show ?thesis by simp
  next
    case (Suc j)
    have "drop (sizeof_phdr * Suc j) (encode_phdr h p @ (concat (map (\<lambda>h. encode_phdr h p) hs) @ payload)) =
        drop (sizeof_phdr * j) (concat (map (\<lambda>h. encode_phdr h p) hs) @ payload)"
      by (simp only: drop_append encode_phdr_length) simp
    then show ?thesis using Suc Cons by simp
  qed
qed

lemma phdr_loop_table:
  assumes hd: "length header = 64" and len: "64 + sizeof_phdr * length hs < 2 ^ 64"
  shows "i \<le> length hs \<Longrightarrow> phdr_loop (header @ concat (map (\<lambda>h. encode_phdr h p) hs) @ payload)
    64 i (length hs) = Some (drop i hs)"
proof (induction "length hs - i" arbitrary: i rule: less_induct)
  case less
  show ?case
  proof (cases "i < length hs")
    case False
    then show ?thesis using less.prems by (simp add: phdr_loop.simps)
  next
    case i: True
    have le: "sizeof_phdr * i \<le> sizeof_phdr * length hs" using i by simp
    have "64 + sizeof_phdr * i < 2 ^ 64" using le len by linarith
    then have room: "64 + i * sizeof_phdr < 2 ^ 64" by (simp only: mult.commute)
    then have ui: "unat (of_nat i :: u64) = i" by (intro unat_of_nat64) (simp add: sizeof_phdr_def)
    have us: "unat (of_nat sizeof_phdr :: u64) = sizeof_phdr" by (simp add: sizeof_phdr_def)
    have off: "CheckedMulAddVa 64 (of_nat i) (of_nat sizeof_phdr) = Some (64 + of_nat i * of_nat sizeof_phdr)"
      using room by (simp add: CheckedMulAddVa_iff ui us)
    have m: "unat (of_nat i * of_nat sizeof_phdr :: u64) = i * sizeof_phdr"
      using room unat_mult_fits [of "of_nat i" "of_nat sizeof_phdr"] by (simp add: ui us)
    then have u: "unat (64 + of_nat i * of_nat sizeof_phdr :: u64) = 64 + sizeof_phdr * i"
      using room unat_add_fits [of 64 "of_nat i * of_nat sizeof_phdr"] by (simp add: mult.commute)
    have "drop (64 + sizeof_phdr * i) (header @ concat (map (\<lambda>h. encode_phdr h p) hs) @ payload) =
        drop (sizeof_phdr * i) (concat (map (\<lambda>h. encode_phdr h p) hs) @ payload)"
      using hd by simp
    then have "decode_phdr (take sizeof_phdr (drop (64 + sizeof_phdr * i)
        (header @ concat (map (\<lambda>h. encode_phdr h p) hs) @ payload))) = hs ! i"
      using nth_table [OF i, of p payload] by (simp only: decode_encode_phdr)
    moreover have "phdr_loop (header @ concat (map (\<lambda>h. encode_phdr h p) hs) @ payload) 64 (Suc i)
        (length hs) = Some (drop (Suc i) hs)"
      using i by (intro less.hyps) simp_all
    ultimately show ?thesis
      using i off u by (subst phdr_loop.simps) (simp add: Cons_nth_drop_Suc)
  qed
qed

definition encode_header :: "u8 list \<Rightarrow> u8 list \<Rightarrow> u8 list \<Rightarrow> u8 list \<Rightarrow> nat \<Rightarrow> u8 list" where
  "encode_header ident entry middle tail n =
     ELFMAG @ [2, 1, 1] @ ident @ encode_le 2 3 @ encode_le 2 183 @ encode_le 4 1 @ entry @
     encode_le 8 64 @ middle @ encode_le 2 56 @ encode_le 2 n @ tail"

lemma encode_file_split:
  "encode_file ident entry middle tail p hs payload =
     encode_header ident entry middle tail (length hs) @
     concat (map (\<lambda>h. encode_phdr h p) hs) @ payload"
  by (simp add: encode_file_def encode_header_def)

lemma header_fields:
  assumes l: "length ident = 9" "length entry = 8" "length middle = 14" "length tail = 6"
    and n: "n < 0xffff"
  shows "length (encode_header ident entry middle tail n) = 64"
    and "decode_header (encode_header ident entry middle tail n @ rest) =
      \<lparr>e_type = 3, e_machine = 183, e_version = 1, e_phoff = 64, e_phentsize = 56, e_phnum = of_nat n\<rparr>"
    and "header_accepted (encode_header ident entry middle tail n @ rest)"
proof -
  show "length (encode_header ident entry middle tail n) = 64"
    by (simp add: encode_header_def ELFMAG_def l)
  have e: "take 2 (encode_le 2 x @ ys) = encode_le 2 x" "take 4 (encode_le 4 x @ ys) = encode_le 4 x"
      "take 8 (encode_le 8 x @ ys) = encode_le 8 x" for x ys by simp_all
  show d: "decode_header (encode_header ident entry middle tail n @ rest) =
      \<lparr>e_type = 3, e_machine = 183, e_version = 1, e_phoff = 64, e_phentsize = 56, e_phnum = of_nat n\<rparr>"
    using n
    by (simp add: decode_header_def encode_header_def ELFMAG_def field_def l le_nat_encode drop_append)
  have nn: "(of_nat n :: u16) \<noteq> 0xffff"
  proof
    assume "(of_nat n :: u16) = 0xffff"
    then have "unat (of_nat n :: u16) = 0xffff" by simp
    then show False using n by (simp add: unat_of_nat take_bit_eq_mod)
  qed
  show "header_accepted (encode_header ident entry middle tail n @ rest)"
    unfolding header_accepted_def d Let_def
    using nn by (simp add: encode_header_def ELFMAG_def sizeof_phdr_def)
qed


definition sample_header :: phdr where
  "sample_header = \<lparr>ph_type = PT_LOAD, ph_flags = 5, ph_offset = 0, ph_va = 0x4000,
     ph_file_size = 100, ph_memory_size = 120, ph_alignment = 0x1000\<rparr>"


end
