(* ===== verification/Module_Image.thy ===== *)
theory Module_Image
  imports Elf_Load
begin

text \<open>
  Loaded modules of \<^verbatim>\<open>src/elf/module_image.cpp\<close>: GNU build-id notes, the executable ranges of a
  module, address resolution, module lookup, and the code fingerprint.
\<close>

section \<open>Build ids\<close>

datatype build_id_status = BidFound | BidNotFound | BidAmbiguous | BidMalformed

record build_id_result =
  bid_status :: build_id_status
  bid_value :: string

definition bid :: "build_id_status \<Rightarrow> string \<Rightarrow> build_id_result" where
  "bid s v = \<lparr>bid_status = s, bid_value = v\<rparr>"

definition AlignUp4 :: "u64 \<Rightarrow> u64 option" where
  "AlignUp4 value = (if value > UINT64_MAX - 3 then None else Some ((value + 3) AND NOT 3))"

definition hex_digit :: "nat \<Rightarrow> char" where
  "hex_digit n = ''0123456789abcdef'' ! (n mod 16)"

definition BytesToHex :: "u8 list \<Rightarrow> string" where
  "BytesToHex bytes = concat (map (\<lambda>b. [hex_digit (unat b div 16), hex_digit (unat b)]) bytes)"

definition kGnuBuildIdType :: u32 where "kGnuBuildIdType = 3"
definition kGnuName :: "u8 list" where "kGnuName = [0x47, 0x4e, 0x55, 0]"

definition notes_result :: "string option \<Rightarrow> build_id_result" where
  "notes_result build_id =
     (case build_id of None \<Rightarrow> bid BidNotFound [] | Some v \<Rightarrow> bid BidFound v)"

text \<open>The cursor never exceeds the segment size, so natural numbers model it exactly.\<close>

function parse_notes_loop :: "u8 list \<Rightarrow> nat \<Rightarrow> string option \<Rightarrow> build_id_result" where
  "parse_notes_loop notes cursor build_id =
     (if \<not> cursor < length notes then notes_result build_id
      else if length notes - cursor < 12
      then (if list_all (\<lambda>b. b = 0) (drop cursor notes) then notes_result build_id
            else bid BidMalformed [])
      else
        let note = take 12 (drop cursor notes);
            n_namesz = of_nat (field note 0 4) :: u32;
            n_descsz = of_nat (field note 4 4) :: u32;
            n_type = of_nat (field note 8 4) :: u32;
            name_offset = cursor + 12
        in case (AlignUp4 (ucast n_namesz), AlignUp4 (ucast n_descsz)) of
          (Some padded_name, Some padded_desc) \<Rightarrow>
            if unat padded_name > length notes - name_offset then bid BidMalformed []
            else
              let descriptor_offset = name_offset + unat padded_name in
              if unat padded_desc > length notes - descriptor_offset then bid BidMalformed []
              else
                let next_cursor = descriptor_offset + unat padded_desc in
                if n_type = kGnuBuildIdType \<and> n_namesz = 4 \<and> n_descsz \<noteq> 0 \<and>
                   take 4 (drop name_offset notes) = kGnuName
                then
                  let candidate = BytesToHex (take (unat n_descsz) (drop descriptor_offset notes)) in
                  if build_id \<noteq> None \<and> build_id \<noteq> Some candidate then bid BidAmbiguous []
                  else parse_notes_loop notes next_cursor (Some candidate)
                else parse_notes_loop notes next_cursor build_id
        | _ \<Rightarrow> bid BidMalformed [])"
  by pat_completeness auto
termination by (relation "measure (\<lambda>(notes, cursor, b). length notes - cursor)") auto

declare parse_notes_loop.simps [simp del]

definition ParseGnuBuildIdNotes :: "u8 list \<Rightarrow> build_id_result" where
  "ParseGnuBuildIdNotes notes = parse_notes_loop notes 0 None"

definition MergeElfBuildIdResults :: "build_id_result \<Rightarrow> build_id_result \<Rightarrow> build_id_result" where
  "MergeElfBuildIdResults current next =
     (if bid_status current = BidMalformed \<or> bid_status next = BidMalformed then bid BidMalformed []
      else if bid_status current = BidAmbiguous \<or> bid_status next = BidAmbiguous
      then bid BidAmbiguous []
      else if bid_status current = BidFound \<and> bid_status next = BidFound
      then (if bid_value current = bid_value next then current else bid BidAmbiguous [])
      else if bid_status current = BidFound then current else next)"

text \<open>One PT_NOTE header of a loaded image: its payload, or nothing when it is malformed.\<close>

definition note_payload :: "ptr \<Rightarrow> (ptr \<Rightarrow> u8) \<Rightarrow> phdr list \<Rightarrow> phdr \<Rightarrow> u8 list option" where
  "note_payload load_bias mem headers h =
     (if \<not> ElfProgramHeaderHasCanonicalFileBacking headers h PF_R \<or>
         ph_va h > UINT64_MAX - load_bias then None
      else let start = load_bias + ph_va h in
        if ph_file_size h > UINT64_MAX - start then None
        else Some (map (\<lambda>i. mem (start + of_nat i)) [0..<unat (ph_file_size h)]))"

fun read_notes_loop :: "ptr \<Rightarrow> (ptr \<Rightarrow> u8) \<Rightarrow> phdr list \<Rightarrow> build_id_result \<Rightarrow> phdr list \<Rightarrow>
    build_id_result" where
  "read_notes_loop load_bias mem headers aggregate [] = aggregate"
| "read_notes_loop load_bias mem headers aggregate (h # hs) =
     (if ph_type h \<noteq> PT_NOTE then read_notes_loop load_bias mem headers aggregate hs
      else case note_payload load_bias mem headers h of
             None \<Rightarrow> bid BidMalformed []
           | Some notes \<Rightarrow>
               let a = MergeElfBuildIdResults aggregate (ParseGnuBuildIdNotes notes) in
               if bid_status a = BidMalformed then a
               else read_notes_loop load_bias mem headers a hs)"

definition ReadLoadedGnuBuildIdNotes :: "ptr \<Rightarrow> (ptr \<Rightarrow> u8) \<Rightarrow> phdr list \<Rightarrow> build_id_result" where
  "ReadLoadedGnuBuildIdNotes load_bias mem headers =
     (if \<not> ValidateElfLoadLayout headers then bid BidMalformed []
      else read_notes_loop load_bias mem headers (bid BidNotFound []) headers)"

section \<open>Module images\<close>

record executable_range =
  er_start :: ptr
  er_end :: ptr
  er_file_offset :: u64
  er_va :: u64
  er_file_size :: u64

record module_image =
  mi_path :: string
  mi_name :: string
  mi_build_id :: string
  mi_load_bias :: ptr
  mi_ranges :: "executable_range list"

definition BaseName :: "string \<Rightarrow> string" where
  "BaseName path = rev (takeWhile (\<lambda>c. c \<noteq> CHR ''/'') (rev path))"

definition executable_header :: "phdr \<Rightarrow> bool" where
  "executable_header h \<longleftrightarrow> \<not> (ph_type h \<noteq> PT_LOAD \<or> ph_flags h AND PF_X = 0)"

fun build_ranges :: "ptr \<Rightarrow> phdr list \<Rightarrow> executable_range list option" where
  "build_ranges load_bias [] = Some []"
| "build_ranges load_bias (h # hs) =
     (if \<not> executable_header h then build_ranges load_bias hs
      else if ph_file_size h > ph_memory_size h \<or> ph_va h > UINT64_MAX - load_bias then None
      else let start = load_bias + ph_va h in
        if ph_memory_size h > UINT64_MAX - start \<or> ph_offset h > UINT64_MAX - ph_file_size h
        then None
        else map_option (Cons \<lparr>er_start = start, er_end = start + ph_memory_size h,
               er_file_offset = ph_offset h, er_va = ph_va h, er_file_size = ph_file_size h\<rparr>)
               (build_ranges load_bias hs))"

text \<open>The ranges are sorted by virtual address.\<close>

definition BuildModuleImageFromProgramHeaders ::
    "string \<Rightarrow> ptr \<Rightarrow> phdr list \<Rightarrow> module_image option" where
  "BuildModuleImageFromProgramHeaders path load_bias headers =
     (if path = [] then None
      else map_option (\<lambda>ranges. \<lparr>mi_path = path, mi_name = BaseName path, mi_build_id = [],
             mi_load_bias = load_bias, mi_ranges = sort_key er_va ranges\<rparr>)
           (build_ranges load_bias headers))"

definition ContainsExecutable :: "module_image \<Rightarrow> ptr \<Rightarrow> u64 \<Rightarrow> bool" where
  "ContainsExecutable img address n \<longleftrightarrow>
     \<not> (n = 0 \<or> address > UINT64_MAX - n) \<and>
     (let e = address + n in
      list_ex (\<lambda>r. address \<ge> er_start r \<and> e \<le> er_end r) (mi_ranges img))"

datatype address_kind = AddrRuntime | AddrElfVa | AddrFileOffset | AddrSnapshotOffset

fun resolve_file_offset :: "ptr \<Rightarrow> u64 \<Rightarrow> ptr option \<Rightarrow> executable_range list \<Rightarrow> ptr option" where
  "resolve_file_offset load_bias address result [] = result"
| "resolve_file_offset load_bias address result (r # rs) =
     (if er_file_offset r > UINT64_MAX - er_file_size r
      then resolve_file_offset load_bias address result rs
      else if address < er_file_offset r \<or> address \<ge> er_file_offset r + er_file_size r
      then resolve_file_offset load_bias address result rs
      else let delta = address - er_file_offset r in
        if er_va r > UINT64_MAX - load_bias then None
        else let base = load_bias + er_va r in
          if delta > UINT64_MAX - base then None
          else let candidate = base + delta in
            case result of
              Some x \<Rightarrow> if x \<noteq> candidate then None
                        else resolve_file_offset load_bias address (Some candidate) rs
            | None \<Rightarrow> resolve_file_offset load_bias address (Some candidate) rs)"

definition Resolve :: "module_image \<Rightarrow> address_kind \<Rightarrow> u64 \<Rightarrow> ptr option" where
  "Resolve img kind address =
     (case kind of
        AddrRuntime \<Rightarrow> Some address
      | AddrElfVa \<Rightarrow>
          if address > UINT64_MAX - mi_load_bias img then None
          else Some (mi_load_bias img + address)
      | AddrFileOffset \<Rightarrow>
          resolve_file_offset (mi_load_bias img) address None (mi_ranges img)
      | AddrSnapshotOffset \<Rightarrow> None)"

text \<open>What the dynamic linker reports of one object.\<close>

record phdr_info =
  pi_name :: "string nullable"
  pi_addr :: ptr
  pi_headers :: "phdr list"

definition CollectModule :: "(ptr \<Rightarrow> u8) \<Rightarrow> phdr_info \<Rightarrow> module_image list \<Rightarrow> module_image list" where
  "CollectModule mem info modules =
     (case pi_name info of
        None \<Rightarrow> modules
      | Some name \<Rightarrow>
          if name = [] then modules
          else if \<not> ValidateElfLoadLayout (pi_headers info) then modules
          else case BuildModuleImageFromProgramHeaders name (pi_addr info) (pi_headers info) of
            None \<Rightarrow> modules
          | Some img \<Rightarrow>
              let build_id = ReadLoadedGnuBuildIdNotes (pi_addr info) mem (pi_headers info) in
              if bid_status build_id = BidMalformed \<or> bid_status build_id = BidAmbiguous
              then modules
              else modules @ [img\<lparr>mi_build_id := bid_value build_id\<rparr>])"

definition EnumerateModules :: "(ptr \<Rightarrow> u8) \<Rightarrow> phdr_info list \<Rightarrow> module_image list" where
  "EnumerateModules mem infos = fold (CollectModule mem) infos []"

definition FindModule :: "module_image list \<Rightarrow> string \<Rightarrow> module_image option" where
  "FindModule modules name = find (\<lambda>m. mi_name m = name \<or> mi_path m = name) modules"

section \<open>Fingerprints\<close>

definition fnv_step :: "u64 \<Rightarrow> u8 \<Rightarrow> u64" where
  "fnv_step h b = (h XOR ucast b) * 1099511628211"

definition fnv_hash :: "u8 list \<Rightarrow> u64" where
  "fnv_hash bytes = foldl fnv_step 14695981039346656037 bytes"

definition hex64 :: "u64 \<Rightarrow> string" where
  "hex64 w = map (\<lambda>i. hex_digit (unat (drop_bit (60 - 4 * i) w))) [0..<16]"

definition FingerprintCode :: "u8 list \<Rightarrow> string" where
  "FingerprintCode bytes = hex64 (fnv_hash bytes)"

end
