(* ===== verification/Module_Image_Props.thy ===== *)
theory Module_Image_Props
  imports Module_Image
begin

text \<open>
  Properties of modules: the note parser against the note format, the independence of a
  module's build id from the order of its note segments, exact executable containment, the
  agreement of the address kinds, and single-byte sensitivity of the code fingerprint.
\<close>

section \<open>Fingerprints\<close>

lemma odd_multiplier_inject:
  fixes x y :: u64
  assumes "x * 1099511628211 = y * 1099511628211"
  shows "x = y"
proof -
  have inv: "(1099511628211 :: u64) * 14886173955864302971 = 1" by simp
  have "x * (1099511628211 * 14886173955864302971) = y * (1099511628211 * 14886173955864302971)"
    using assms by (simp only: mult.assoc [symmetric])
  then show ?thesis by (simp only: inv mult_1_right)
qed

lemma xor_inject: "(h :: u64) XOR a = h XOR b \<longleftrightarrow> a = b" "a XOR h = b XOR h \<longleftrightarrow> a = b"
proof -
  have "h XOR (h XOR x) = x" "(x XOR h) XOR h = x" for x
    by (rule bit_word_eqI; simp add: bit_simps; blast)+
  then show "h XOR a = h XOR b \<longleftrightarrow> a = b" "a XOR h = b XOR h \<longleftrightarrow> a = b" by metis+
qed

lemma fnv_step_inject: "fnv_step h b = fnv_step h' b \<longleftrightarrow> h = h'" "fnv_step h a = fnv_step h b \<longleftrightarrow> a = b"
proof -
  show "fnv_step h b = fnv_step h' b \<longleftrightarrow> h = h'"
    using odd_multiplier_inject xor_inject(2) unfolding fnv_step_def by blast
  have "(ucast a :: u64) = ucast b \<longleftrightarrow> a = b"
    by (metis unat_widen(1) word_unat_eq_iff)
  then show "fnv_step h a = fnv_step h b \<longleftrightarrow> a = b"
    using odd_multiplier_inject xor_inject(1) unfolding fnv_step_def by blast
qed

lemma fnv_fold_inject: "foldl fnv_step h xs = foldl fnv_step h' xs \<longleftrightarrow> h = h'"
  by (induction xs arbitrary: h h') (simp_all add: fnv_step_inject)

lemma hex_digit_inject: "hex_digit a = hex_digit b \<longleftrightarrow> a mod 16 = b mod 16"
proof -
  have "distinct ''0123456789abcdef''" by simp
  moreover have "a mod 16 < length ''0123456789abcdef''" "b mod 16 < length ''0123456789abcdef''" by simp_all
  ultimately show ?thesis unfolding hex_digit_def by (rule nth_eq_iff_index_eq)
qed

lemma hex64_inject: "hex64 v = hex64 w \<longleftrightarrow> v = w"
proof
  assume eq: "hex64 v = hex64 w"
  have nib: "take_bit 4 (drop_bit (60 - 4 * i) v) = take_bit 4 (drop_bit (60 - 4 * i) w)"
    if "i < 16" for i
  proof -
    have "hex64 v ! i = hex64 w ! i" using eq by simp
    then have "unat (drop_bit (60 - 4 * i) v) mod 2 ^ 4 = unat (drop_bit (60 - 4 * i) w) mod 2 ^ 4"
      using that by (simp add: hex64_def hex_digit_inject)
    then have "unat (take_bit 4 (drop_bit (60 - 4 * i) v)) = unat (take_bit 4 (drop_bit (60 - 4 * i) w))"
      by (simp only: unsigned_take_bit_eq take_bit_eq_mod [where ?'a = nat])
    then show ?thesis by (simp add: word_unat_eq_iff)
  qed
  show "v = w"
  proof (rule bit_word_eqI)
    fix n :: nat
    assume n: "n < LENGTH(64)"
    define i where "i = 15 - n div 4"
    have i: "i < 16" and m: "60 - 4 * i + n mod 4 = n" "n mod 4 < 4"
      using n by (simp_all add: i_def) presburger?
    have "bit (take_bit 4 (drop_bit (60 - 4 * i) v)) (n mod 4) =
        bit (take_bit 4 (drop_bit (60 - 4 * i) w)) (n mod 4)"
      using nib [OF i] by simp
    then show "bit v n = bit w n" using m by (simp add: bit_take_bit_iff bit_drop_bit_eq)
  qed
qed simp

text \<open>
  Patching any one byte of a code range to another value always changes its fingerprint.
\<close>

theorem fingerprint_detects_patched_byte:
  assumes "a \<noteq> b"
  shows "FingerprintCode (pre @ a # post) \<noteq> FingerprintCode (pre @ b # post)"
  using assms
  by (simp add: FingerprintCode_def fnv_hash_def hex64_inject fnv_fold_inject fnv_step_inject)

theorem fingerprint_detects_patched_byte_witness:
  "FingerprintCode [1, 2, 3] \<noteq> FingerprintCode [1, 5, 3]"
  using fingerprint_detects_patched_byte [of 2 5 "[1]" "[3]"] by simp

section \<open>Merging build ids is a semilattice\<close>

text \<open>The abstract value of a result: its identity when it is found, else its status alone.\<close>

datatype build_identity = NoId | OneId string | ManyIds | BrokenId

definition identity_of :: "build_id_result \<Rightarrow> build_identity" where
  "identity_of r =
     (case bid_status r of
        BidFound \<Rightarrow> OneId (bid_value r) | BidNotFound \<Rightarrow> NoId
      | BidAmbiguous \<Rightarrow> ManyIds | BidMalformed \<Rightarrow> BrokenId)"

fun join_identity :: "build_identity \<Rightarrow> build_identity \<Rightarrow> build_identity" where
  "join_identity BrokenId y = BrokenId"
| "join_identity x BrokenId = BrokenId"
| "join_identity ManyIds y = ManyIds"
| "join_identity x ManyIds = ManyIds"
| "join_identity NoId y = y"
| "join_identity x NoId = x"
| "join_identity (OneId a) (OneId b) = (if a = b then OneId a else ManyIds)"

lemma join_broken [simp]: "join_identity x BrokenId = BrokenId"
  by (cases x) simp_all

interpretation join: semilattice join_identity
proof
  fix a b c
  show "join_identity (join_identity a b) c = join_identity a (join_identity b c)"
    by (cases a; cases b; cases c; simp)
  show "join_identity a b = join_identity b a" by (cases a; cases b; simp)
  show "join_identity a a = a" by (cases a; simp)
qed

interpretation join: comp_fun_idem join_identity
  by standard (simp_all add: fun_eq_iff join.left_commute)

lemma merge_refines: "identity_of (MergeElfBuildIdResults a b) = join_identity (identity_of a) (identity_of b)"
  by (cases "bid_status a"; cases "bid_status b")
    (simp_all add: MergeElfBuildIdResults_def identity_of_def bid_def)

definition header_identity :: "ptr \<Rightarrow> (ptr \<Rightarrow> u8) \<Rightarrow> phdr list \<Rightarrow> phdr \<Rightarrow> build_identity" where
  "header_identity load_bias mem headers h =
     (case note_payload load_bias mem headers h of
        None \<Rightarrow> BrokenId | Some notes \<Rightarrow> identity_of (ParseGnuBuildIdNotes notes))"

lemma fold_broken: "fold join_identity xs BrokenId = BrokenId"
  by (induction xs) simp_all

lemma identity_broken: "identity_of r = BrokenId \<longleftrightarrow> bid_status r = BidMalformed"
  by (cases "bid_status r") (simp_all add: identity_of_def)

lemma read_notes_refines:
  "identity_of (read_notes_loop lb mem headers agg hs) =
     fold join_identity (map (header_identity lb mem headers) (filter (\<lambda>h. ph_type h = PT_NOTE) hs))
       (identity_of agg)"
proof (induction hs arbitrary: agg)
  case Nil
  show ?case by simp
next
  case (Cons h hs)
  show ?case
  proof (cases "ph_type h = PT_NOTE")
    case False
    then show ?thesis using Cons.IH by simp
  next
    case note_h: True
    show ?thesis
    proof (cases "note_payload lb mem headers h")
      case None
      then show ?thesis
        using note_h by (simp add: header_identity_def fold_broken) (simp add: identity_of_def bid_def)
    next
      case (Some payload)
      let ?m = "MergeElfBuildIdResults agg (ParseGnuBuildIdNotes payload)"
      have m: "identity_of ?m = join_identity (header_identity lb mem headers h) (identity_of agg)"
        by (simp add: merge_refines header_identity_def Some join.commute)
      show ?thesis
      proof (cases "bid_status ?m = BidMalformed")
        case True
        then have "identity_of ?m = BrokenId" by (simp add: identity_broken)
        then show ?thesis
          using m note_h Some True by (simp add: Let_def fold_broken)
      next
        case False
        then show ?thesis using m note_h Some Cons.IH by (simp add: Let_def)
      qed
    qed
  qed
qed

lemma note_payload_set:
  assumes "set hs = set hs'"
  shows "note_payload lb mem hs h = note_payload lb mem hs' h"
proof -
  have off: "ElfVaToFileOffset hs va w = ElfVaToFileOffset hs' va w" for va w
  proof -
    have "va_to_file_loop None hs va w = Some c \<longleftrightarrow> va_to_file_loop None hs' va w = Some c" for c
      by (simp add: va_to_file_loop_iff assms)
    then have "va_to_file_loop None hs va w = va_to_file_loop None hs' va w"
      by (metis not_None_eq)
    then show ?thesis by (simp add: ElfVaToFileOffset_def)
  qed
  have flags: "ElfVaRangeHasFlags hs va w fl b = ElfVaRangeHasFlags hs' va w fl b" for va w fl b
    by (simp add: ElfVaRangeHasFlags_def list_ex_iff assms)
  show ?thesis
    by (simp add: note_payload_def ElfProgramHeaderHasCanonicalFileBacking_def off flags)
qed

definition canonical_id :: "build_id_result \<Rightarrow> bool" where
  "canonical_id r \<longleftrightarrow> bid_status r = BidFound \<or> bid_value r = []"

lemma canonical_inject: "canonical_id a \<Longrightarrow> canonical_id b \<Longrightarrow> identity_of a = identity_of b \<Longrightarrow> a = b"
  by (cases "bid_status a"; cases "bid_status b")
    (auto simp: canonical_id_def identity_of_def intro: build_id_result.equality)

lemma canonical_bid [simp]: "canonical_id (bid BidFound v)" "canonical_id (bid s [])"
  by (simp_all add: canonical_id_def bid_def)

lemma canonical_notes: "canonical_id (notes_result b)"
  by (cases b) (simp_all add: notes_result_def)

lemma canonical_parse: "canonical_id (parse_notes_loop xs c b)"
proof (induction xs c b rule: parse_notes_loop.induct)
  case (1 xs c b)
  show ?case
    by (subst parse_notes_loop.simps)
      (simp add: canonical_notes Let_def "1.IH" split: option.split prod.split)
qed

lemma canonical_merge: "canonical_id a \<Longrightarrow> canonical_id b \<Longrightarrow> canonical_id (MergeElfBuildIdResults a b)"
  by (simp add: MergeElfBuildIdResults_def)

lemma canonical_read: "canonical_id agg \<Longrightarrow> canonical_id (read_notes_loop lb mem hs agg ks)"
proof (induction ks arbitrary: agg)
  case Nil
  then show ?case by simp
next
  case (Cons k ks)
  then show ?case
    by (simp add: Let_def ParseGnuBuildIdNotes_def canonical_merge canonical_parse split: option.split)
qed

text \<open>
  The GNU build id of a loaded module does not depend on the order of its program headers
  or on repeated ones: two valid header tables with the same headers give the same result,
  found, missing, ambiguous or malformed.
\<close>

theorem build_id_order_independent:
  assumes "ValidateElfLoadLayout hs" "ValidateElfLoadLayout hs'" "set hs = set hs'"
  shows "ReadLoadedGnuBuildIdNotes lb mem hs = ReadLoadedGnuBuildIdNotes lb mem hs'"
proof -
  let ?l = "\<lambda>hs. map (header_identity lb mem hs) (filter (\<lambda>h. ph_type h = PT_NOTE) hs)"
  have hid: "header_identity lb mem hs = header_identity lb mem hs'"
    by (rule ext) (simp add: header_identity_def note_payload_set [OF assms(3)])
  have "set (?l hs) = set (?l hs')" by (simp add: hid assms(3))
  then have "fold join_identity (?l hs) NoId = fold join_identity (?l hs') NoId"
    by (metis join.fold_set_fold)
  moreover have "identity_of (bid BidNotFound []) = NoId" by (simp add: identity_of_def bid_def)
  ultimately have "identity_of (ReadLoadedGnuBuildIdNotes lb mem hs) =
      identity_of (ReadLoadedGnuBuildIdNotes lb mem hs')"
    using assms(1,2) by (simp add: ReadLoadedGnuBuildIdNotes_def read_notes_refines)
  then show ?thesis
    using assms(1,2)
    by (intro canonical_inject) (simp_all add: ReadLoadedGnuBuildIdNotes_def canonical_read)
qed

definition note_segment :: "u64 \<Rightarrow> phdr" where
  "note_segment va = \<lparr>ph_type = PT_NOTE, ph_flags = 4, ph_offset = va, ph_va = va,
     ph_file_size = 12, ph_memory_size = 12, ph_alignment = 4\<rparr>"

definition note_load :: phdr where
  "note_load = \<lparr>ph_type = PT_LOAD, ph_flags = 4, ph_offset = 0, ph_va = 0,
     ph_file_size = 64, ph_memory_size = 64, ph_alignment = 0\<rparr>"

theorem build_id_order_independent_witness:
  "ReadLoadedGnuBuildIdNotes 0x1000 (\<lambda>_. 0) [note_load, note_segment 0, note_segment 16] =
   ReadLoadedGnuBuildIdNotes 0x1000 (\<lambda>_. 0) [note_segment 16, note_load, note_segment 0]"
proof (rule build_id_order_independent)
  show "ValidateElfLoadLayout [note_load, note_segment 0, note_segment 16]" by code_simp
  show "ValidateElfLoadLayout [note_segment 16, note_load, note_segment 0]" by code_simp
qed auto

section \<open>Executable ranges\<close>

definition range_of :: "ptr \<Rightarrow> phdr \<Rightarrow> executable_range" where
  "range_of lb h = \<lparr>er_start = lb + ph_va h, er_end = lb + ph_va h + ph_memory_size h,
     er_file_offset = ph_offset h, er_va = ph_va h, er_file_size = ph_file_size h\<rparr>"

definition range_sane :: "ptr \<Rightarrow> phdr \<Rightarrow> bool" where
  "range_sane lb h \<longleftrightarrow> unat (ph_file_size h) \<le> unat (ph_memory_size h) \<and>
     unat lb + unat (ph_va h) + unat (ph_memory_size h) < 2 ^ 64 \<and>
     unat (ph_offset h) + unat (ph_file_size h) < 2 ^ 64"

lemma build_ranges_spec:
  "build_ranges lb hs = Some rs \<Longrightarrow>
     set rs = range_of lb ` {h \<in> set hs. executable_header h} \<and>
     (\<forall>h \<in> set hs. executable_header h \<longrightarrow> range_sane lb h)"
proof (induction hs arbitrary: rs)
  case Nil
  then show ?case by simp
next
  case (Cons h hs)
  show ?case
  proof (cases "executable_header h")
    case False
    then have "{k \<in> set (h # hs). executable_header k} = {k \<in> set hs. executable_header k}" by auto
    then show ?thesis using False Cons by simp
  next
    case True
    obtain rs' where rs': "build_ranges lb hs = Some rs'" "rs = range_of lb h # rs'"
      and fm: "\<not> ph_file_size h > ph_memory_size h"
      and va: "\<not> ph_va h > UINT64_MAX - lb"
      and ms: "\<not> ph_memory_size h > UINT64_MAX - (lb + ph_va h)"
      and of: "\<not> ph_offset h > UINT64_MAX - ph_file_size h"
      using Cons.prems True by (auto simp: Let_def range_of_def split: if_splits)
    have v: "unat lb + unat (ph_va h) < 2 ^ 64" using va unfolding add_exceeds by simp
    then have "unat (lb + ph_va h) = unat lb + unat (ph_va h)" by (rule unat_add_fits)
    then have "range_sane lb h"
      using ms of fm unfolding add_exceeds range_sane_def by (simp add: word_le_nat_alt not_less)
    moreover have "{k \<in> set (h # hs). executable_header k} =
        insert h {k \<in> set hs. executable_header k}" using True by auto
    ultimately show ?thesis using Cons.IH [OF rs'(1)] rs'(2) by simp
  qed
qed

lemma range_bounds:
  assumes "range_sane lb h"
  shows "unat (er_start (range_of lb h)) = unat lb + unat (ph_va h)"
    and "unat (er_end (range_of lb h)) = unat lb + unat (ph_va h) + unat (ph_memory_size h)"
proof -
  have s: "unat (lb + ph_va h) = unat lb + unat (ph_va h)"
    using assms by (intro unat_add_fits) (simp add: range_sane_def)
  then show "unat (er_start (range_of lb h)) = unat lb + unat (ph_va h)" by (simp add: range_of_def)
  show "unat (er_end (range_of lb h)) = unat lb + unat (ph_va h) + unat (ph_memory_size h)"
    using assms s unat_add_fits [of "lb + ph_va h" "ph_memory_size h"]
    by (simp add: range_of_def range_sane_def)
qed

lemma built_image:
  assumes "BuildModuleImageFromProgramHeaders path lb hs = Some img"
  shows "mi_load_bias img = lb"
    and "set (mi_ranges img) = range_of lb ` {h \<in> set hs. executable_header h}"
    and "h \<in> set hs \<Longrightarrow> executable_header h \<Longrightarrow> range_sane lb h"
  using assms build_ranges_spec
  by (auto simp: BuildModuleImageFromProgramHeaders_def split: if_splits)

text \<open>
  The containment test that guards every hook target is exact and free of wrap-around: an
  address range is executable in a built module exactly when it is not empty and lies inside
  one executable load segment, in unbounded arithmetic.
\<close>

theorem contains_executable_exact:
  assumes "BuildModuleImageFromProgramHeaders path lb hs = Some img"
  shows "ContainsExecutable img a n \<longleftrightarrow>
    n \<noteq> 0 \<and> (\<exists>h \<in> set hs. executable_header h \<and> unat lb + unat (ph_va h) \<le> unat a \<and>
      unat a + unat n \<le> unat lb + unat (ph_va h) + unat (ph_memory_size h))"
proof -
  let ?E = "{h \<in> set hs. executable_header h}"
  have rs: "range_sane lb h" if "h \<in> ?E" for h using built_image(3) [OF assms] that by blast
  show ?thesis
  proof (cases "n \<noteq> 0 \<and> unat a + unat n < 2 ^ 64")
    case True
    then have s: "unat (a + n) = unat a + unat n" by (intro unat_add_fits) simp
    have "\<not> (n = 0 \<or> a > UINT64_MAX - n)" using True by (simp add: add_exceeds)
    then have "ContainsExecutable img a n \<longleftrightarrow>
        (\<exists>h \<in> ?E. er_start (range_of lb h) \<le> a \<and> a + n \<le> er_end (range_of lb h))"
      by (simp add: ContainsExecutable_def Let_def list_ex_iff built_image(2) [OF assms] bex_simps)
    also have "\<dots> \<longleftrightarrow> (\<exists>h \<in> ?E. unat lb + unat (ph_va h) \<le> unat a \<and>
        unat a + unat n \<le> unat lb + unat (ph_va h) + unat (ph_memory_size h))"
      by (rule bex_cong) (simp_all add: word_le_nat_alt range_bounds rs s)
    finally show ?thesis using True by auto
  next
    case False
    then have "n = 0 \<or> a > UINT64_MAX - n" by (auto simp: add_exceeds)
    moreover have "\<not> unat a + unat n \<le> unat lb + unat (ph_va h) + unat (ph_memory_size h)"
      if "n \<noteq> 0" "h \<in> ?E" for h
      using rs [OF that(2)] False that(1) by (simp add: range_sane_def)
    ultimately show ?thesis by (auto simp: ContainsExecutable_def)
  qed
qed

definition text_header :: phdr where
  "text_header = \<lparr>ph_type = PT_LOAD, ph_flags = 5, ph_offset = 0x100, ph_va = 0x1000,
     ph_file_size = 0x200, ph_memory_size = 0x200, ph_alignment = 0\<rparr>"

definition text_module :: module_image where
  "text_module = the (BuildModuleImageFromProgramHeaders ''/lib/libapp.so'' 0x70000 [text_header])"

lemma text_module_built:
  "BuildModuleImageFromProgramHeaders ''/lib/libapp.so'' 0x70000 [text_header] = Some text_module"
  by code_simp

theorem contains_executable_exact_witness:
  "ContainsExecutable text_module 0x71010 16 \<and> \<not> ContainsExecutable text_module 0x711ff 2"
  using contains_executable_exact [OF text_module_built, of "0x71010" 16]
    contains_executable_exact [OF text_module_built, of "0x711ff" 2]
  by (simp add: text_header_def executable_header_def PT_LOAD_def PF_X_def)

definition offset_candidate :: "ptr \<Rightarrow> executable_range \<Rightarrow> u64 \<Rightarrow> ptr" where
  "offset_candidate lb r off = lb + er_va r + (off - er_file_offset r)"

definition offset_in :: "executable_range \<Rightarrow> u64 \<Rightarrow> bool" where
  "offset_in r off \<longleftrightarrow> \<not> off < er_file_offset r \<and> \<not> off \<ge> er_file_offset r + er_file_size r"

lemma resolve_file_offset_iff:
  assumes "\<And>r. r \<in> set rs \<Longrightarrow> offset_in r off \<Longrightarrow> \<not> er_va r > UINT64_MAX - lb \<and>
      \<not> off - er_file_offset r > UINT64_MAX - (lb + er_va r)"
    and "\<And>r. r \<in> set rs \<Longrightarrow> \<not> er_file_offset r > UINT64_MAX - er_file_size r"
  shows "resolve_file_offset lb off x rs = Some a \<longleftrightarrow>
     set_option x \<union> {offset_candidate lb r off | r. r \<in> set rs \<and> offset_in r off} = {a}"
  using assms
proof (induction rs arbitrary: x)
  case Nil
  show ?case by (cases x) auto
next
  case (Cons r rs)
  let ?S = "{offset_candidate lb k off | k. k \<in> set rs \<and> offset_in k off}"
  note IH = Cons.IH [OF Cons.prems]
  show ?case
  proof (cases "offset_in r off")
    case False
    then have "{offset_candidate lb k off | k. k \<in> set (r # rs) \<and> offset_in k off} = ?S" by auto
    moreover have "resolve_file_offset lb off x (r # rs) = resolve_file_offset lb off x rs"
      using False by (auto simp: offset_in_def)
    ultimately show ?thesis using IH by simp
  next
    case True
    then have S: "{offset_candidate lb k off | k. k \<in> set (r # rs) \<and> offset_in k off} =
        insert (offset_candidate lb r off) ?S" by auto
    have step: "resolve_file_offset lb off x (r # rs) =
        (if x \<noteq> None \<and> x \<noteq> Some (offset_candidate lb r off) then None
         else resolve_file_offset lb off (Some (offset_candidate lb r off)) rs)"
      using True Cons.prems(1) [of r] Cons.prems(2) [of r]
      by (auto simp: offset_in_def offset_candidate_def Let_def split: option.splits)
    show ?thesis unfolding S step using IH [of "Some (offset_candidate lb r off)"] by (cases x) auto
  qed
qed

lemma file_offset_nat: "range_sane lb h \<Longrightarrow>
   offset_in (range_of lb h) off \<longleftrightarrow> unat (ph_offset h) \<le> unat off \<and>
     unat off < unat (ph_offset h) + unat (ph_file_size h)"
  using unat_add_fits [of "ph_offset h" "ph_file_size h"]
  by (auto simp: offset_in_def range_of_def range_sane_def word_le_nat_alt word_less_nat_alt)

lemma image_resolve_offset:
  assumes img: "BuildModuleImageFromProgramHeaders path lb hs = Some img"
  shows "Resolve img AddrFileOffset off = Some a \<longleftrightarrow>
    {offset_candidate lb (range_of lb h) off | h. h \<in> set hs \<and> executable_header h \<and>
       offset_in (range_of lb h) off} = {a}"
proof -
  have fit: "\<not> er_va r > UINT64_MAX - lb \<and> \<not> off - er_file_offset r > UINT64_MAX - (lb + er_va r)"
    if r: "r \<in> set (mi_ranges img)" and o: "offset_in r off" for r
  proof -
    obtain h where h: "r = range_of lb h" "range_sane lb h"
      using r built_image(2,3) [OF img] by auto
    have s: "unat (lb + ph_va h) = unat lb + unat (ph_va h)"
      using range_bounds(1) [OF h(2)] by (simp add: range_of_def)
    have d: "unat (off - ph_offset h) = unat off - unat (ph_offset h)"
      using o file_offset_nat [OF h(2)] h(1) by (intro unat_sub_le) (simp add: word_le_nat_alt)
    have "unat off - unat (ph_offset h) < unat (ph_file_size h)"
      using o file_offset_nat [OF h(2)] h(1) by auto
    then have "unat off - unat (ph_offset h) + (unat lb + unat (ph_va h)) < 2 ^ 64"
        "unat (ph_va h) + unat lb < 2 ^ 64"
      using h(2) by (simp_all add: range_sane_def)
    moreover have "er_va r = ph_va h" "er_file_offset r = ph_offset h"
      using h(1) by (simp_all add: range_of_def)
    ultimately show ?thesis unfolding add_exceeds by (simp add: s d not_le)
  qed
  have fo: "\<not> er_file_offset r > UINT64_MAX - er_file_size r" if r: "r \<in> set (mi_ranges img)" for r
  proof -
    obtain h where "r = range_of lb h" "range_sane lb h"
      using r built_image(2,3) [OF img] by auto
    then show ?thesis by (simp add: add_exceeds range_of_def range_sane_def)
  qed
  show ?thesis
    using resolve_file_offset_iff [of "mi_ranges img" off lb None a] fit fo
    by (simp add: Resolve_def built_image(1) [OF img] built_image(2) [OF img])
      (smt (verit) Collect_cong image_iff mem_Collect_eq)
qed

text \<open>
  Address kinds agree: if a code byte's ELF virtual address and its file offset both
  resolve in a built module, they resolve to the same runtime address; and the file offset
  does resolve as soon as no other executable segment maps the same file byte elsewhere.
\<close>

theorem address_kinds_agree:
  assumes img: "BuildModuleImageFromProgramHeaders path lb hs = Some img"
    and h: "h \<in> set hs" "executable_header h" "file_covers h va 1"
  shows "(\<forall>a. Resolve img AddrFileOffset (file_address h va) = Some a \<longrightarrow>
      Resolve img AddrElfVa va = Some a) \<and>
    ((\<forall>k \<in> set hs. executable_header k \<longrightarrow> offset_in (range_of lb k) (file_address h va) \<longrightarrow> k = h) \<longrightarrow>
      Resolve img AddrFileOffset (file_address h va) = Some (lb + va)) \<and>
    Resolve img AddrElfVa va = Some (lb + va)"
proof -
  let ?off = "file_address h va"
  have sane: "range_sane lb h" by (rule built_image(3) [OF img h(1,2)])
  have off: "unat ?off = unat (ph_offset h) + (unat va - unat (ph_va h))"
    by (rule unat_file_address [OF h(3)])
  have inn: "offset_in (range_of lb h) ?off"
    using h(3) unfolding file_offset_nat [OF sane] off file_covers_nat by linarith
  have "ph_va h + (?off - ph_offset h) = va" by (simp add: file_address_def)
  then have cand: "offset_candidate lb (range_of lb h) ?off = lb + va"
    by (simp add: offset_candidate_def range_of_def add.assoc)
  have "\<not> va > UINT64_MAX - lb"
    using h(3) sane unfolding add_exceeds file_covers_nat range_sane_def by linarith
  then have va: "Resolve img AddrElfVa va = Some (lb + va)"
    by (simp add: Resolve_def built_image(1) [OF img])
  let ?S = "{offset_candidate lb (range_of lb k) ?off | k. k \<in> set hs \<and> executable_header k \<and>
       offset_in (range_of lb k) ?off}"
  have mem: "lb + va \<in> ?S" using h inn cand by force
  have "Resolve img AddrElfVa va = Some a" if "Resolve img AddrFileOffset ?off = Some a" for a
    using that mem va unfolding image_resolve_offset [OF img] by auto
  moreover have "?S = {lb + va}"
    if "\<forall>k \<in> set hs. executable_header k \<longrightarrow> offset_in (range_of lb k) ?off \<longrightarrow> k = h"
    using that mem cand by auto
  ultimately show ?thesis using va image_resolve_offset [OF img] by blast
qed

theorem address_kinds_agree_witness:
  "Resolve text_module AddrFileOffset 0x110 = Some 0x71010 \<and>
   Resolve text_module AddrElfVa 0x1010 = Some 0x71010"
proof -
  have h: "text_header \<in> set [text_header]" "executable_header text_header"
      "file_covers text_header 0x1010 1"
    by (simp, code_simp, code_simp)
  have "file_address text_header 0x1010 = 0x110" by code_simp
  then show ?thesis using address_kinds_agree [OF text_module_built h] by simp
qed

section \<open>The note format\<close>

definition pad4 :: "u8 list \<Rightarrow> u8 list" where
  "pad4 xs = xs @ replicate ((4 - length xs mod 4) mod 4) 0"

type_synonym elf_note = "u32 \<times> u8 list \<times> u8 list"

definition encode_note :: "elf_note \<Rightarrow> u8 list" where
  "encode_note n = (case n of (t, name, desc) \<Rightarrow>
     encode_le 4 (length name) @ encode_le 4 (length desc) @ encode_le 4 (unat t) @
     pad4 name @ pad4 desc)"

definition note_fits :: "elf_note \<Rightarrow> bool" where
  "note_fits n = (case n of (t, name, desc) \<Rightarrow> length name < 2 ^ 32 \<and> length desc < 2 ^ 32)"

definition note_id :: "elf_note \<Rightarrow> string option" where
  "note_id n = (case n of (t, name, desc) \<Rightarrow>
     if t = kGnuBuildIdType \<and> name = kGnuName \<and> desc \<noteq> [] then Some (BytesToHex desc) else None)"

lemma align_nat: "x < 2 ^ 32 \<Longrightarrow> AlignUp4 (of_nat x) = Some (of_nat ((x + 3) div 4 * 4))"
proof -
  assume x: "x < 2 ^ 32"
  have u: "unat (of_nat x + 3 :: u64) = x + 3"
    using x unat_add_fits [of "of_nat x" 3] by (simp add: unat_of_nat64)
  have "y AND NOT 3 = of_nat (unat y div 4 * 4)" for y :: u64
  proof -
    have m: "(3 :: u64) = mask 2" by (simp add: mask_eq_exp_minus_1)
    have "y AND NOT 3 = push_bit 2 (drop_bit 2 y)"
    proof (rule bit_word_eqI)
      fix n assume "n < LENGTH(64)"
      show "bit (y AND NOT 3) n = bit (push_bit 2 (drop_bit 2 y)) n"
      proof (cases "n < 2")
        case True
        then show ?thesis unfolding m by (simp add: bit_simps)
      next
        case False
        then obtain k where "n = k + 2" by (metis add.commute le_Suc_ex not_less)
        then show ?thesis unfolding m using \<open>n < LENGTH(64)\<close> by (simp add: bit_simps)
      qed
    qed
    also have "y div 4 = of_nat (unat y div 4)"
      using unat_lt64 [of y] by (simp add: word_unat_eq_iff unat_div unat_of_nat64)
    then have "push_bit 2 (drop_bit 2 y) = of_nat (unat y div 4 * 4)"
      by (simp add: push_bit_eq_mult drop_bit_eq_div)
    finally show ?thesis .
  qed
  then have "(of_nat x + 3) AND NOT 3 = (of_nat ((x + 3) div 4 * 4) :: u64)" by (simp add: u)
  moreover have "\<not> of_nat x > UINT64_MAX - 3"
    using x by (simp add: add_exceeds unat_of_nat64)
  ultimately show ?thesis by (simp add: AlignUp4_def)
qed

lemma small_round_4: "(r::nat) < 4 \<Longrightarrow> r + (4 - r) mod 4 = (r + 3) div 4 * 4"
proof -
  assume "r < 4"
  then have "r = 0 \<or> r = 1 \<or> r = 2 \<or> r = 3" by linarith
  then show ?thesis by (elim disjE) simp_all
qed

lemma round_up_4: "l + (4 - l mod 4) mod 4 = (l + 3) div 4 * 4" for l :: nat
proof -
  have l: "l = l mod 4 + 4 * (l div 4)" by (rule mod_mult_div_eq [symmetric])
  have "(l + 3) div 4 = ((l mod 4 + 3) + 4 * (l div 4)) div 4"
    using l by (metis add.commute add.left_commute)
  also have "\<dots> = l div 4 + (l mod 4 + 3) div 4" by (rule div_mult_self2) simp
  finally have e: "(l + 3) div 4 = l div 4 + (l mod 4 + 3) div 4" .
  have "l mod 4 + (4 - l mod 4) mod 4 = (l mod 4 + 3) div 4 * 4" by (rule small_round_4) simp
  then show ?thesis unfolding e add_mult_distrib using l by linarith
qed
lemma pad4_length: "length (pad4 xs) = (length xs + 3) div 4 * 4"
  by (simp add: pad4_def round_up_4)

lemma unat_of_nat_len: "x < 2 ^ 32 \<Longrightarrow> unat (of_nat x :: u32) = x \<and> (ucast (of_nat x :: u32) :: u64) = of_nat x"
  by (simp add: unat_of_nat32 word_unat_eq_iff unat_of_nat64)

lemma pad4_word: "length xs < 2 ^ 32 \<Longrightarrow> unat (of_nat ((length xs + 3) div 4 * 4) :: u64) = length (pad4 xs)"
proof -
  assume "length xs < 2 ^ 32"
  moreover have "(length xs + 3) div 4 * 4 \<le> length xs + 3" by (rule div_times_less_eq_dividend)
  ultimately show ?thesis unfolding pad4_length by (intro unat_of_nat64) simp
qed

lemma take_pad4: "take (length xs) (pad4 xs @ ys) = xs"
  by (simp add: pad4_def)

lemma note_fields:
  assumes "length name < 2 ^ 32" "length desc < 2 ^ 32"
  shows "(of_nat (field (encode_le 4 (length name) @ encode_le 4 (length desc) @ encode_le 4 (unat t) @ zs) 0 4) :: u32)
      = of_nat (length name)"
    "(of_nat (field (encode_le 4 (length name) @ encode_le 4 (length desc) @ encode_le 4 (unat t) @ zs) 4 4) :: u32)
      = of_nat (length desc)"
    "(of_nat (field (encode_le 4 (length name) @ encode_le 4 (length desc) @ encode_le 4 (unat (t :: u32)) @ zs) 8 4) :: u32)
      = t"
  using assms unat_bound [of t]
  by (simp_all add: field_def le_nat_encode drop_append)

lemma parse_notes_unfold:
  assumes "c + 12 + unat pn + unat pd \<le> length xs"
    and "of_nat (field (take 12 (drop c xs)) 0 4) = (nn :: u32)"
    and "of_nat (field (take 12 (drop c xs)) 4 4) = (nd :: u32)"
    and "of_nat (field (take 12 (drop c xs)) 8 4) = (nt :: u32)"
    and "AlignUp4 (ucast nn) = Some pn" "AlignUp4 (ucast nd) = Some pd"
  shows "parse_notes_loop xs c b =
    (if nt = kGnuBuildIdType \<and> nn = 4 \<and> nd \<noteq> 0 \<and> take 4 (drop (c + 12) xs) = kGnuName
     then if b \<noteq> None \<and> b \<noteq> Some (BytesToHex (take (unat nd) (drop (c + 12 + unat pn) xs)))
          then bid BidAmbiguous []
          else parse_notes_loop xs (c + 12 + unat pn + unat pd)
                 (Some (BytesToHex (take (unat nd) (drop (c + 12 + unat pn) xs))))
     else parse_notes_loop xs (c + 12 + unat pn + unat pd) b)"
proof -
  have "c < length xs" "\<not> length xs - c < 12" "\<not> unat pn > length xs - (c + 12)"
      "\<not> unat pd > length xs - (c + 12 + unat pn)"
    using assms(1) by linarith+
  then show ?thesis
    using assms(2-) by (subst parse_notes_loop.simps) (simp only: Let_def if_True if_False
        option.case prod.case not_not simp_thms)
qed

lemma parse_note_step:
  assumes fits: "length name < 2 ^ 32" "length desc < 2 ^ 32"
    and xs: "xs = pre @ encode_note (t, name, desc) @ post"
  shows "parse_notes_loop xs (length pre) b =
    (case note_id (t, name, desc) of
       None \<Rightarrow> parse_notes_loop xs (length pre + length (encode_note (t, name, desc))) b
     | Some v \<Rightarrow> if b \<noteq> None \<and> b \<noteq> Some v then bid BidAmbiguous []
         else parse_notes_loop xs (length pre + length (encode_note (t, name, desc))) (Some v))"
proof -
  let ?h = "encode_le 4 (length name) @ encode_le 4 (length desc) @ encode_le 4 (unat t)"
  have enc: "encode_note (t, name, desc) = ?h @ pad4 name @ pad4 desc" by (simp add: encode_note_def)
  have len: "length xs = length pre + 12 + length (pad4 name) + length (pad4 desc) + length post"
    by (simp add: xs enc)
  have hd12: "take 12 (drop (length pre) xs) = ?h" by (simp add: xs enc)
  have nm: "drop (length pre + 12) xs = pad4 name @ pad4 desc @ post" by (simp add: xs enc)
  have ds: "drop (length pre + 12 + length (pad4 name)) xs = pad4 desc @ post" by (simp add: xs enc)
  note f = note_fields [OF fits, of t "[]", simplified]
  have al: "AlignUp4 (of_nat (length name)) = Some (of_nat ((length name + 3) div 4 * 4))"
      "AlignUp4 (of_nat (length desc)) = Some (of_nat ((length desc + 3) div 4 * 4))"
    using fits by (simp_all only: align_nat)
  note pw = pad4_word [OF fits(1)] pad4_word [OF fits(2)]
  have four: "(of_nat (length name) :: u32) = 4 \<longleftrightarrow> length name = 4"
      "(of_nat (length desc) :: u32) = 0 \<longleftrightarrow> desc = []"
    using fits unat_of_nat_len [OF fits(1)] unat_of_nat_len [OF fits(2)]
    by (auto simp: word_unat_eq_iff)
  have gnu: "length name = 4 \<and> take 4 (pad4 name @ pad4 desc @ post) = kGnuName \<longleftrightarrow> name = kGnuName"
  proof -
    have "length kGnuName = 4" by (simp add: kGnuName_def)
    then show ?thesis using take_pad4 [of name "pad4 desc @ post"] by metis
  qed
  have tk: "take (length desc) (pad4 desc @ post) = desc" by (rule take_pad4)
  have cond: "(t = kGnuBuildIdType \<and> (of_nat (length name) :: u32) = 4 \<and> (of_nat (length desc) :: u32) \<noteq> 0 \<and>
      take 4 (drop (length pre + 12) xs) = kGnuName) \<longleftrightarrow> note_id (t, name, desc) = Some (BytesToHex desc)"
    using gnu by (auto simp: note_id_def four nm)
  have none: "note_id (t, name, desc) = None \<or> note_id (t, name, desc) = Some (BytesToHex desc)"
    by (simp add: note_id_def)
  have step: "parse_notes_loop xs (length pre) b =
     (if t = kGnuBuildIdType \<and> (of_nat (length name) :: u32) = 4 \<and> (of_nat (length desc) :: u32) \<noteq> 0 \<and>
          take 4 (drop (length pre + 12) xs) = kGnuName
      then if b \<noteq> None \<and> b \<noteq> Some (BytesToHex desc) then bid BidAmbiguous []
           else parse_notes_loop xs (length pre + length (encode_note (t, name, desc))) (Some (BytesToHex desc))
      else parse_notes_loop xs (length pre + length (encode_note (t, name, desc))) b)"
  proof -
    have pos: "length pre + length (encode_note (t, name, desc)) =
        length pre + 12 + length (pad4 name) + length (pad4 desc)" by (simp add: enc)
    have a: "AlignUp4 (ucast (of_nat (length name) :: u32)) = Some (of_nat ((length name + 3) div 4 * 4))"
        "AlignUp4 (ucast (of_nat (length desc) :: u32)) = Some (of_nat ((length desc + 3) div 4 * 4))"
      using al unat_of_nat_len [OF fits(1)] unat_of_nat_len [OF fits(2)] by metis+
    have n: "unat (of_nat (length desc) :: u32) = length desc"
      using unat_of_nat_len [OF fits(2)] by blast
    have fit: "length pre + 12 + unat (of_nat ((length name + 3) div 4 * 4) :: u64) +
        unat (of_nat ((length desc + 3) div 4 * 4) :: u64) \<le> length xs"
      unfolding pw len by simp
    have f': "of_nat (field (take 12 (drop (length pre) xs)) 0 4) = (of_nat (length name) :: u32)"
        "of_nat (field (take 12 (drop (length pre) xs)) 4 4) = (of_nat (length desc) :: u32)"
        "of_nat (field (take 12 (drop (length pre) xs)) 8 4) = t"
      unfolding hd12 using f by simp_all
    show ?thesis
      using parse_notes_unfold [OF fit f' a, of b] unfolding pos pw n ds tk .
  qed
  show ?thesis unfolding step cond using none by auto
qed

fun collect_ids :: "string option \<Rightarrow> elf_note list \<Rightarrow> build_id_result" where
  "collect_ids b [] = notes_result b"
| "collect_ids b (n # ns) =
     (case note_id n of
        None \<Rightarrow> collect_ids b ns
      | Some v \<Rightarrow> if b \<noteq> None \<and> b \<noteq> Some v then bid BidAmbiguous [] else collect_ids (Some v) ns)"

lemma parse_notes_collect:
  "list_all note_fits ns \<Longrightarrow> z < 12 \<Longrightarrow>
     parse_notes_loop (pre @ concat (map encode_note ns) @ replicate z 0) (length pre) b = collect_ids b ns"
proof (induction ns arbitrary: pre b)
  case Nil
  then show ?case by (simp add: parse_notes_loop.simps [of _ "length pre"] list_all_iff)
next
  case (Cons n ns)
  obtain t name desc where n: "n = (t, name, desc)" by (cases n)
  let ?post = "concat (map encode_note ns) @ replicate z 0"
  let ?xs = "pre @ encode_note n @ ?post"
  have fits: "length name < 2 ^ 32" "length desc < 2 ^ 32"
    using Cons.prems(1) by (simp_all add: n note_fits_def)
  have IH: "parse_notes_loop ?xs (length pre + length (encode_note n)) b' = collect_ids b' ns" for b'
    using Cons.IH [of "pre @ encode_note n" b'] Cons.prems by simp
  have "parse_notes_loop ?xs (length pre) b = collect_ids b (n # ns)"
    using parse_note_step [OF fits, of ?xs pre t ?post b] IH unfolding n
    by (simp split: option.splits)
  then show ?case by simp
qed

definition note_ids :: "elf_note list \<Rightarrow> string list" where
  "note_ids ns = List.map_filter note_id ns"

lemma note_ids_Cons: "note_ids (n # ns) = (case note_id n of None \<Rightarrow> note_ids ns | Some v \<Rightarrow> v # note_ids ns)"
  by (simp add: note_ids_def map_filter_simps split: option.splits)

lemma collect_ids_spec:
  "collect_ids (Some v) ns =
     (if list_all (\<lambda>i. i = v) (note_ids ns) then bid BidFound v else bid BidAmbiguous [])"
  "collect_ids None ns =
     (if note_ids ns = [] then bid BidNotFound []
      else if list_all (\<lambda>i. i = hd (note_ids ns)) (note_ids ns) then bid BidFound (hd (note_ids ns))
      else bid BidAmbiguous [])"
proof -
  show some: "collect_ids (Some v) ns =
      (if list_all (\<lambda>i. i = v) (note_ids ns) then bid BidFound v else bid BidAmbiguous [])" for v ns
    by (induction ns) (auto simp: note_ids_Cons notes_result_def note_ids_def map_filter_simps
        split: option.splits)
  show "collect_ids None ns =
     (if note_ids ns = [] then bid BidNotFound []
      else if list_all (\<lambda>i. i = hd (note_ids ns)) (note_ids ns) then bid BidFound (hd (note_ids ns))
      else bid BidAmbiguous [])"
    by (induction ns) (auto simp: note_ids_Cons notes_result_def note_ids_def map_filter_simps some
        split: option.splits)
qed

text \<open>
  C16: The note parser reads every well-formed note segment, including its padding and a short
  zero tail, as what was written: the build id when the GNU build-id notes in it all carry one
  descriptor, not found when there is none, ambiguous when two differ; notes of other types or
  owners never matter.
\<close>

theorem notes_roundtrip:
  assumes "list_all note_fits ns" "z < 12"
  shows "ParseGnuBuildIdNotes (concat (map encode_note ns) @ replicate z 0) =
    (if note_ids ns = [] then bid BidNotFound []
     else if list_all (\<lambda>i. i = hd (note_ids ns)) (note_ids ns) then bid BidFound (hd (note_ids ns))
     else bid BidAmbiguous [])"
  using parse_notes_collect [OF assms, of "[]" None]
  by (simp add: ParseGnuBuildIdNotes_def collect_ids_spec(2))

theorem notes_roundtrip_witness:
  "ParseGnuBuildIdNotes (concat (map encode_note [(1, [0x41], []), (3, kGnuName, [0xab, 0x01])]) @
     replicate 3 0) = bid BidFound ''ab01''"
proof -
  let ?ns = "[(1, [0x41], []), (3, kGnuName, [0xab, 0x01])] :: elf_note list"
  have ids: "note_ids ?ns = [''ab01'']" by code_simp
  have "list_all note_fits ?ns" by (simp add: note_fits_def kGnuName_def)
  from notes_roundtrip [OF this, of 3] show ?thesis by (simp add: ids)
qed

end
