(* ===== verification/Decimal_Text.thy ===== *)
theory Decimal_Text
  imports Prelude "HOL-Library.Char_ord"
begin

text \<open>
  Digits and decimal numbers, shared by the parsers of the program: what \<open>std::isdigit\<close>
  accepts, the value of a run of digits, and the text of a number.
\<close>

definition is_digit :: "char \<Rightarrow> bool" where
  "is_digit c \<longleftrightarrow> CHR ''0'' \<le> c \<and> c \<le> CHR ''9''"

definition digit_value :: "char \<Rightarrow> nat" where
  "digit_value c = of_char c - 48"

definition decimal_value :: "string \<Rightarrow> nat" where
  "decimal_value = foldl (\<lambda>n c. 10 * n + digit_value c) 0"

fun decimal :: "nat \<Rightarrow> string" where
  "decimal n = (if n < 10 then [char_of (48 + n)] else decimal (n div 10) @ [char_of (48 + n mod 10)])"

declare decimal.simps [simp del]

lemma digit_char:
  assumes "d < 10"
  shows "is_digit (char_of (48 + d))" "digit_value (char_of (48 + d)) = d" "char_of (48 + d) \<noteq> CHR ''.''"
proof -
  have o: "of_char (char_of (48 + d) :: char) = (48 + d :: nat)" using assms by simp
  have z: "of_char (CHR ''0'') = (48 :: nat)" "of_char (CHR ''9'') = (57 :: nat)"
    "of_char (CHR ''.'') = (46 :: nat)" by simp_all
  show "is_digit (char_of (48 + d))" using assms unfolding is_digit_def less_eq_char_def o z by simp
  show "digit_value (char_of (48 + d)) = d" unfolding digit_value_def o by simp
  show "char_of (48 + d) \<noteq> CHR ''.''"
  proof
    assume "char_of (48 + d) = CHR ''.''"
    then have "of_char (char_of (48 + d) :: char) = (46 :: nat)" using z(3) by simp
    then show False using o by simp
  qed
qed

lemma decimal_digits: "\<forall>c \<in> set (decimal n). is_digit c" "decimal n \<noteq> []"
proof (induction n rule: decimal.induct)
  case (1 n)
  { case 1 then show ?case using "1.IH"(1) digit_char(1) by (subst decimal.simps) auto }
  { case 2 then show ?case by (subst decimal.simps) auto }
qed

lemma decimal_value_decimal: "decimal_value (decimal n) = n"
proof (induction n rule: decimal.induct)
  case (1 n)
  then show ?case
    by (subst decimal.simps) (auto simp: decimal_value_def digit_char(2))
qed

end
