(* ===== verification/Runtime_Image_Set.thy ===== *)
theory Runtime_Image_Set
  imports Module_Image Decimal_Text
begin

text \<open>
  The set of Dart instruction namespaces of one isolate group
  (\<^verbatim>\<open>src/runtime/runtime_image_set.cpp\<close>): the root loading unit, the deferred units added to
  it, their owner tokens (logical id and physical incarnation epoch), and the receipts of
  the live VM that are bound to them. An operation that can fail after it has changed the
  set returns its boolean together with the set it leaves behind; one that fails without
  an effect returns an option.
\<close>

section \<open>Data\<close>

record snapshot_source =
  ss_module_name :: string
  ss_module_path :: string
  ss_module_build_id :: string
  ss_snapshot_hash :: string
  ss_features :: string
  ss_profile_name :: string
  ss_va :: u64
  ss_size :: u64
  ss_runtime :: ptr
  ss_compressed_pointers :: bool
  ss_program_hash :: "u32 option"

definition ascii_lower :: "char \<Rightarrow> char" where
  "ascii_lower c = (if CHR ''A'' \<le> c \<and> c \<le> CHR ''Z'' then char_of (of_char c + (32 :: nat)) else c)"

definition EqualsIgnoreCaseAscii :: "string \<Rightarrow> string \<Rightarrow> bool" where
  "EqualsIgnoreCaseAscii left right \<longleftrightarrow>
     length left = length right \<and> list_all2 (\<lambda>a b. ascii_lower a = ascii_lower b) left right"

definition Matches :: "snapshot_source \<Rightarrow> module_image \<Rightarrow> bool" where
  "Matches s m \<longleftrightarrow> mi_name m = ss_module_name s \<and> mi_path m = ss_module_path s \<and>
     EqualsIgnoreCaseAscii (mi_build_id m) (ss_module_build_id s)"

datatype image_kind = Root | Deferred
datatype image_lifecycle = Staged | Active | Draining | Retired
datatype load_state = Unbound | NotLoaded | Loaded

record runtime_image =
  ri_id :: u64
  ri_epoch :: u64
  ri_kind :: image_kind
  ri_unit :: u32
  ri_generation :: u64
  ri_engine_epoch :: u64
  ri_group_epoch :: u64
  ri_lifecycle :: image_lifecycle
  ri_live_entries :: u32
  ri_hash_bound :: bool
  ri_load_state :: load_state
  ri_module :: module_image
  ri_snapshot :: snapshot_source

record image_set =
  is_next_id :: u64
  is_next_epoch :: u64
  is_root_id :: u64
  is_images :: "runtime_image list"

section \<open>Identity\<close>

definition SameExecutableRange :: "executable_range \<Rightarrow> executable_range \<Rightarrow> bool" where
  "SameExecutableRange l r \<longleftrightarrow> er_start l = er_start r \<and> er_end l = er_end r \<and>
     er_file_offset l = er_file_offset r \<and> er_va l = er_va r \<and> er_file_size l = er_file_size r"

definition SameModule :: "module_image \<Rightarrow> module_image \<Rightarrow> bool" where
  "SameModule l r \<longleftrightarrow> mi_name l = mi_name r \<and> mi_path l = mi_path r \<and>
     mi_build_id l = mi_build_id r \<and> mi_load_bias l = mi_load_bias r \<and>
     length (mi_ranges l) = length (mi_ranges r) \<and>
     list_all2 SameExecutableRange (mi_ranges l) (mi_ranges r)"

definition SameSnapshot :: "snapshot_source \<Rightarrow> snapshot_source \<Rightarrow> bool" where
  "SameSnapshot l r \<longleftrightarrow>
     ss_module_name l = ss_module_name r \<and> ss_module_path l = ss_module_path r \<and>
     ss_module_build_id l = ss_module_build_id r \<and>
     ss_snapshot_hash l = ss_snapshot_hash r \<and>
     ss_features l = ss_features r \<and>
     ss_profile_name l = ss_profile_name r \<and>
     ss_va l = ss_va r \<and>
     ss_size l = ss_size r \<and>
     ss_runtime l = ss_runtime r \<and>
     ss_compressed_pointers l = ss_compressed_pointers r \<and>
     ss_program_hash l = ss_program_hash r"

definition SameImageIdentity :: "runtime_image \<Rightarrow> runtime_image \<Rightarrow> bool" where
  "SameImageIdentity l r \<longleftrightarrow> ri_kind l = ri_kind r \<and> ri_unit l = ri_unit r \<and>
     SameModule (ri_module l) (ri_module r) \<and> SameSnapshot (ri_snapshot l) (ri_snapshot r)"

definition RangesOverlap :: "ptr \<Rightarrow> u64 \<Rightarrow> ptr \<Rightarrow> u64 \<Rightarrow> bool" where
  "RangesOverlap left_start left_size right_start right_size =
     (if left_size = 0 \<or> right_size = 0 \<or> left_size > UINT64_MAX - left_start \<or>
         right_size > UINT64_MAX - right_start then True
      else left_start < right_start + right_size \<and> right_start < left_start + left_size)"

definition CompatibleWithRoot :: "runtime_image \<Rightarrow> snapshot_source \<Rightarrow> bool" where
  "CompatibleWithRoot root s \<longleftrightarrow>
     ss_snapshot_hash s = ss_snapshot_hash (ri_snapshot root) \<and>
     ss_features s = ss_features (ri_snapshot root) \<and>
     ss_profile_name s = ss_profile_name (ri_snapshot root) \<and>
     ss_compressed_pointers s = ss_compressed_pointers (ri_snapshot root)"

section \<open>Names of deferred loading units\<close>

text \<open>
  The standard \<open>std::from_chars\<close> on an unsigned 32-bit integer: the longest run of digits,
  an error when it is empty or out of range, and what is left of the text.
\<close>

definition from_chars_u32 :: "string \<Rightarrow> (u32 \<times> string) option" where
  "from_chars_u32 text =
     (let digits = takeWhile is_digit text in
      if digits = [] \<or> decimal_value digits \<ge> 2 ^ 32 then None
      else Some (of_nat (decimal_value digits), dropWhile is_digit text))"

definition starts_with :: "string \<Rightarrow> string \<Rightarrow> bool" where
  "starts_with prefix s \<longleftrightarrow> take (length prefix) s = prefix"

definition ends_with :: "string \<Rightarrow> string \<Rightarrow> bool" where
  "ends_with suffix s \<longleftrightarrow>
     length suffix \<le> length s \<and> drop (length s - length suffix) s = suffix"

definition ParseDeferredSuffix :: "string \<Rightarrow> string \<Rightarrow> u32 option" where
  "ParseDeferredSuffix prefix candidate =
     (if \<not> starts_with prefix candidate \<or> \<not> ends_with ''.part.so'' candidate then None
      else
        let b = length prefix; e = length candidate - length ''.part.so'' in
        if b \<ge> e then None
        else case from_chars_u32 (drop b (take e candidate)) of
               None \<Rightarrow> None
             | Some (i, rest) \<Rightarrow> if rest \<noteq> [] \<or> i \<le> 1 then None else Some i)"

definition ParseDeferredLoadingUnitId :: "string \<Rightarrow> string \<Rightarrow> u32 option" where
  "ParseDeferredLoadingUnitId root_module_name candidate_module_name =
     (if root_module_name = [] \<or> candidate_module_name = [] \<or>
         root_module_name = candidate_module_name then None
      else case ParseDeferredSuffix (root_module_name @ ''-'') candidate_module_name of
             Some i \<Rightarrow> Some i
           | None \<Rightarrow>
               if ends_with ''.so'' root_module_name
               then ParseDeferredSuffix (take (length root_module_name - 3) root_module_name @ ''-'')
                      candidate_module_name
               else None)"

section \<open>Addresses\<close>

definition ContainsRuntimeRange :: "runtime_image \<Rightarrow> ptr \<Rightarrow> u64 \<Rightarrow> bool" where
  "ContainsRuntimeRange img address n =
     (let s = ri_snapshot img in
      if n = 0 \<or> ss_runtime s = 0 \<or> ss_size s = 0 \<or> address < ss_runtime s then False
      else
        let offset = address - ss_runtime s in
        offset < ss_size s \<and> n \<le> ss_size s - offset \<and> ContainsExecutable (ri_module img) address n)"

definition RuntimeAddressToElfVa :: "runtime_image \<Rightarrow> ptr \<Rightarrow> u64 \<Rightarrow> u64 option" where
  "RuntimeAddressToElfVa img address n =
     (if \<not> ContainsRuntimeRange img address n then None
      else
        let offset = address - ss_runtime (ri_snapshot img) in
        if ss_va (ri_snapshot img) > UINT64_MAX - offset then None
        else Some (ss_va (ri_snapshot img) + offset))"

section \<open>Building a set\<close>

text \<open>The empty set, as \<open>Clear\<close> leaves it.\<close>

definition Clear :: image_set where
  "Clear = \<lparr>is_next_id = 1, is_next_epoch = 1, is_root_id = 0, is_images = []\<rparr>"

definition AllocateId :: "image_set \<Rightarrow> u64 \<times> image_set" where
  "AllocateId s = (if is_next_id s = 0 then (0, s)
                   else (is_next_id s, s\<lparr>is_next_id := is_next_id s + 1\<rparr>))"

definition AllocateIncarnationEpoch :: "image_set \<Rightarrow> u64 \<times> image_set" where
  "AllocateIncarnationEpoch s = (if is_next_epoch s = 0 then (0, s)
     else (is_next_epoch s, s\<lparr>is_next_epoch := is_next_epoch s + 1\<rparr>))"

text \<open>A fresh \<open>RuntimeImage\<close> with the fields the two constructors of images fill in.\<close>

definition new_image :: "u64 \<Rightarrow> u64 \<Rightarrow> image_kind \<Rightarrow> u32 \<Rightarrow> u64 \<Rightarrow> module_image \<Rightarrow> snapshot_source \<Rightarrow>
    runtime_image" where
  "new_image i ep kind unit generation m s =
     \<lparr>ri_id = i, ri_epoch = ep, ri_kind = kind, ri_unit = unit, ri_generation = generation,
      ri_engine_epoch = 0, ri_group_epoch = 0, ri_lifecycle = Staged, ri_live_entries = 0,
      ri_hash_bound = False, ri_load_state = Unbound, ri_module = m, ri_snapshot = s\<rparr>"

text \<open>The provenance both constructors ask of a module and its snapshot.\<close>

definition provenance_ok :: "module_image \<Rightarrow> snapshot_source \<Rightarrow> bool" where
  "provenance_ok m s \<longleftrightarrow> \<not> (\<not> Matches s m \<or> ss_size s = 0 \<or>
     \<not> ContainsExecutable m (ss_runtime s) (ss_size s))"

definition SetRoot :: "module_image \<Rightarrow> snapshot_source \<Rightarrow> u64 \<Rightarrow> bool \<times> image_set" where
  "SetRoot m s generation =
     (let rset0 = Clear in
      if \<not> provenance_ok m s then (False, rset0)
      else
        let (i, rset1) = AllocateId rset0; (ep, rset2) = AllocateIncarnationEpoch rset1 in
        if i = 0 \<or> ep = 0 then (False, rset2)
        else (True, rset2\<lparr>is_root_id := i,
                is_images := is_images rset2 @ [new_image i ep Root 1 generation m s]\<rparr>))"

definition FindById :: "image_set \<Rightarrow> u64 \<Rightarrow> runtime_image option" where
  "FindById rset i = (if i = 0 then None else find (\<lambda>img. ri_id img = i) (is_images rset))"

definition RootImage :: "image_set \<Rightarrow> runtime_image option" where
  "RootImage rset = FindById rset (is_root_id rset)"

datatype add_conflict = UnitAmbiguous | ModuleOwned | NamespaceOverlap | HashDisagrees

definition add_conflict_with :: "module_image \<Rightarrow> snapshot_source \<Rightarrow> u32 \<Rightarrow> runtime_image \<Rightarrow>
    add_conflict option" where
  "add_conflict_with m s unit existing =
     (if ri_unit existing = unit then Some UnitAmbiguous
      else if SameModule (ri_module existing) m then Some ModuleOwned
      else if RangesOverlap (ss_runtime (ri_snapshot existing)) (ss_size (ri_snapshot existing))
                (ss_runtime s) (ss_size s) then Some NamespaceOverlap
      else if ri_kind existing = Deferred \<and>
              ss_program_hash (ri_snapshot existing) \<noteq> ss_program_hash s then Some HashDisagrees
      else None)"

definition AddDeferred :: "image_set \<Rightarrow> module_image \<Rightarrow> snapshot_source \<Rightarrow> u32 \<Rightarrow> u64 \<Rightarrow>
    bool \<times> image_set" where
  "AddDeferred rset m s unit generation =
     (case RootImage rset of
        None \<Rightarrow> (False, rset)
      | Some root \<Rightarrow>
          if unit \<le> 1 \<or> \<not> provenance_ok m s \<or> \<not> CompatibleWithRoot root s \<or>
             ss_program_hash s = None then (False, rset)
          else if list_ex (\<lambda>existing. add_conflict_with m s unit existing \<noteq> None) (is_images rset)
          then (False, rset)
          else
            let (i, rset1) = AllocateId rset; (ep, rset2) = AllocateIncarnationEpoch rset1 in
            if i = 0 \<or> ep = 0 then (False, rset2)
            else (True, rset2\<lparr>is_images := is_images rset2 @
                    [new_image i ep Deferred unit generation m s]\<rparr>))"

section \<open>Queries\<close>

definition FindByLoadingUnitId :: "image_set \<Rightarrow> u32 \<Rightarrow> runtime_image option" where
  "FindByLoadingUnitId rset unit = find (\<lambda>img. ri_unit img = unit) (is_images rset)"

text \<open>The loop of the two selections: a second hit is a failure.\<close>

fun select_loop :: "('a \<Rightarrow> bool) \<Rightarrow> 'a option \<Rightarrow> 'a list \<Rightarrow> 'a option" where
  "select_loop P selected [] = selected"
| "select_loop P selected (x # xs) =
     (if \<not> P x then select_loop P selected xs
      else if selected \<noteq> None then None
      else select_loop P (Some x) xs)"

definition FindByRuntimeRange :: "image_set \<Rightarrow> ptr \<Rightarrow> u64 \<Rightarrow> runtime_image option" where
  "FindByRuntimeRange rset address n =
     select_loop (\<lambda>img. ContainsRuntimeRange img address n) None (is_images rset)"

definition FindByModule :: "image_set \<Rightarrow> module_image \<Rightarrow> runtime_image option" where
  "FindByModule rset m = select_loop (\<lambda>img. SameModule (ri_module img) m) None (is_images rset)"

definition SameIdentity :: "image_set \<Rightarrow> image_set \<Rightarrow> bool" where
  "SameIdentity rset other \<longleftrightarrow> length (is_images rset) = length (is_images other) \<and>
     list_all (\<lambda>img. list_ex (SameImageIdentity img) (is_images other)) (is_images rset)"

definition ContainsIdentity :: "image_set \<Rightarrow> runtime_image \<Rightarrow> bool" where
  "ContainsIdentity rset img =
     list_ex (\<lambda>candidate. SameImageIdentity candidate img) (is_images rset)"

section \<open>Ownership across a refresh\<close>

text \<open>The first pass: survivors keep their token, replacements their logical id.\<close>

definition reconcile_match :: "runtime_image list \<Rightarrow> runtime_image \<Rightarrow> runtime_image" where
  "reconcile_match previous img =
     (case find (SameImageIdentity img) previous of
        Some exact \<Rightarrow> img\<lparr>ri_id := ri_id exact, ri_epoch := ri_epoch exact\<rparr>
      | None \<Rightarrow>
          img\<lparr>ri_id := (case find (\<lambda>old. ri_kind img = ri_kind old \<and> ri_unit img = ri_unit old)
                          previous of None \<Rightarrow> 0 | Some old \<Rightarrow> ri_id old),
              ri_epoch := 0\<rparr>)"

text \<open>The second pass: what is still missing comes from the carried cursors.\<close>

fun reconcile_assign :: "u64 \<Rightarrow> u64 \<Rightarrow> u64 \<Rightarrow> runtime_image list \<Rightarrow>
    u64 \<times> u64 \<times> u64 \<times> runtime_image list" where
  "reconcile_assign next_id next_epoch root [] = (next_id, next_epoch, root, [])"
| "reconcile_assign next_id next_epoch root (img # imgs) =
     (let i = (if ri_id img = 0 then next_id else ri_id img);
          next_id' = (if ri_id img = 0 then next_id + 1 else next_id);
          ep = (if ri_epoch img = 0 then next_epoch else ri_epoch img);
          next_epoch' = (if ri_epoch img = 0 then next_epoch + 1 else next_epoch);
          root' = (if ri_kind img = Root then i else root);
          (ni, ne, rt, rest) = reconcile_assign next_id' next_epoch' root' imgs
      in (ni, ne, rt, img\<lparr>ri_id := i, ri_epoch := ep\<rparr> # rest))"

definition token_below :: "u64 \<Rightarrow> u64 \<Rightarrow> runtime_image \<Rightarrow> bool" where
  "token_below next_id next_epoch img \<longleftrightarrow>
     \<not> (ri_id img = 0 \<or> ri_id img \<ge> next_id \<or> ri_epoch img = 0 \<or> ri_epoch img \<ge> next_epoch)"

definition ReconcileOwnershipFrom :: "image_set \<Rightarrow> image_set \<Rightarrow> bool \<times> image_set" where
  "ReconcileOwnershipFrom rset previous =
     (if is_next_id previous = 0 \<or> is_next_epoch previous = 0 then (False, rset)
      else if \<not> list_all (token_below (is_next_id previous) (is_next_epoch previous))
                (is_images previous) then (False, rset)
      else
        let (ni, ne, root, imgs) =
              reconcile_assign (is_next_id previous) (is_next_epoch previous) (is_root_id rset)
                (map (reconcile_match (is_images previous)) (is_images rset))
        in (imgs = [] \<or> root \<noteq> 0,
            \<lparr>is_next_id = ni, is_next_epoch = ne, is_root_id = root, is_images = imgs\<rparr>))"

definition PreserveIdsFrom :: "image_set \<Rightarrow> image_set \<Rightarrow> bool \<times> image_set" where
  "PreserveIdsFrom rset previous = ReconcileOwnershipFrom rset previous"

definition same_published_owner :: "runtime_image \<Rightarrow> runtime_image \<Rightarrow> bool" where
  "same_published_owner l r \<longleftrightarrow> ri_id l = ri_id r \<and> ri_epoch l = ri_epoch r \<and>
     ri_generation l = ri_generation r \<and> ri_engine_epoch l = ri_engine_epoch r \<and>
     ri_group_epoch l = ri_group_epoch r"

definition preserve_semantics :: "runtime_image list \<Rightarrow> runtime_image \<Rightarrow> runtime_image" where
  "preserve_semantics previous img =
     (case find (\<lambda>old. same_published_owner img old \<and> SameImageIdentity img old) previous of
        None \<Rightarrow> img
      | Some found \<Rightarrow> img\<lparr>ri_live_entries := ri_live_entries found,
          ri_hash_bound := ri_hash_bound found, ri_load_state := ri_load_state found\<rparr>)"

definition PreserveSemanticBindingsFrom :: "image_set \<Rightarrow> image_set \<Rightarrow> image_set" where
  "PreserveSemanticBindingsFrom rset previous =
     rset\<lparr>is_images := map (preserve_semantics (is_images previous)) (is_images rset)\<rparr>"

section \<open>Changes\<close>

fun erase_first :: "('a \<Rightarrow> bool) \<Rightarrow> 'a list \<Rightarrow> 'a list" where
  "erase_first P [] = []"
| "erase_first P (x # xs) = (if P x then xs else x # erase_first P xs)"

definition RemoveById :: "image_set \<Rightarrow> u64 \<Rightarrow> image_set option" where
  "RemoveById rset i =
     (if \<not> list_ex (\<lambda>img. ri_id img = i) (is_images rset) \<or> i = is_root_id rset then None
      else Some (rset\<lparr>is_images := erase_first (\<lambda>img. ri_id img = i) (is_images rset)\<rparr>))"

definition map_images :: "(runtime_image \<Rightarrow> runtime_image) \<Rightarrow> image_set \<Rightarrow> image_set" where
  "map_images f rset = rset\<lparr>is_images := map f (is_images rset)\<rparr>"

definition BindGeneration :: "u64 \<Rightarrow> image_set \<Rightarrow> image_set" where
  "BindGeneration generation = map_images (\<lambda>img. img\<lparr>ri_generation := generation\<rparr>)"

definition BindOwnerEpochs :: "u64 \<Rightarrow> u64 \<Rightarrow> image_set \<Rightarrow> image_set" where
  "BindOwnerEpochs engine isolate_group =
     map_images (\<lambda>img. img\<lparr>ri_engine_epoch := engine, ri_group_epoch := isolate_group\<rparr>)"

definition ActivateAll :: "image_set \<Rightarrow> image_set" where
  "ActivateAll = map_images (\<lambda>img. img\<lparr>ri_lifecycle := Active\<rparr>)"

definition ResetLiveEntryBindings :: "image_set \<Rightarrow> image_set" where
  "ResetLiveEntryBindings = map_images (\<lambda>img. img\<lparr>ri_live_entries := 0\<rparr>)"

definition ResetSemanticBindings :: "image_set \<Rightarrow> image_set" where
  "ResetSemanticBindings = map_images (\<lambda>img. img\<lparr>ri_live_entries := 0, ri_hash_bound := False,
     ri_load_state := Unbound\<rparr>)"

text \<open>The loops that change the first image with a property, or refuse to.\<close>

fun update_first :: "('a \<Rightarrow> bool) \<Rightarrow> ('a \<Rightarrow> 'a option) \<Rightarrow> 'a list \<Rightarrow> 'a list option" where
  "update_first P f [] = None"
| "update_first P f (x # xs) =
     (if \<not> P x then map_option (Cons x) (update_first P f xs)
      else map_option (\<lambda>y. y # xs) (f x))"

definition update_image :: "(runtime_image \<Rightarrow> bool) \<Rightarrow> (runtime_image \<Rightarrow> runtime_image option) \<Rightarrow>
    image_set \<Rightarrow> image_set option" where
  "update_image P f rset =
     map_option (\<lambda>imgs. rset\<lparr>is_images := imgs\<rparr>) (update_first P f (is_images rset))"

definition has_token :: "u64 \<Rightarrow> u64 \<Rightarrow> runtime_image \<Rightarrow> bool" where
  "has_token i ep img \<longleftrightarrow> \<not> (ri_id img \<noteq> i \<or> ri_epoch img \<noteq> ep)"

definition BeginDrain :: "u64 \<Rightarrow> u64 \<Rightarrow> image_set \<Rightarrow> image_set option" where
  "BeginDrain i ep = update_image (has_token i ep)
     (\<lambda>img. if ri_lifecycle img = Retired then None else Some (img\<lparr>ri_lifecycle := Draining\<rparr>))"

definition Retire :: "u64 \<Rightarrow> u64 \<Rightarrow> image_set \<Rightarrow> image_set option" where
  "Retire i ep = update_image (has_token i ep) (\<lambda>img. Some (img\<lparr>ri_lifecycle := Retired\<rparr>))"

definition bump32 :: "u32 \<Rightarrow> u32" where
  "bump32 n = (if n \<noteq> 0xffffffff then n + 1 else n)"

definition RecordLiveEntry :: "u64 \<Rightarrow> image_set \<Rightarrow> image_set option" where
  "RecordLiveEntry i = update_image (\<lambda>img. ri_id img = i)
     (\<lambda>img. Some (img\<lparr>ri_live_entries := bump32 (ri_live_entries img)\<rparr>))"

text \<open>The index \<open>std::find_if\<close> finds.\<close>

fun index_of :: "('a \<Rightarrow> bool) \<Rightarrow> 'a list \<Rightarrow> nat option" where
  "index_of P [] = None"
| "index_of P (x # xs) = (if P x then Some 0 else map_option Suc (index_of P xs))"

fun count_entries :: "runtime_image list \<Rightarrow> u32 list \<Rightarrow> u64 list \<Rightarrow> u32 list option" where
  "count_entries imgs counts [] = Some counts"
| "count_entries imgs counts (i # ids) =
     (if i = 0 then None
      else case index_of (\<lambda>img. ri_id img = i) imgs of
             None \<Rightarrow> None
           | Some k \<Rightarrow> count_entries imgs (counts[k := bump32 (counts ! k)]) ids)"

definition BindLiveEntries :: "u64 list \<Rightarrow> image_set \<Rightarrow> image_set option" where
  "BindLiveEntries ids rset =
     (case count_entries (is_images rset) (replicate (length (is_images rset)) 0) ids of
        None \<Rightarrow> None
      | Some counts \<Rightarrow>
          Some (rset\<lparr>is_images := map2 (\<lambda>img c. img\<lparr>ri_live_entries := c\<rparr>) (is_images rset) counts\<rparr>))"

definition BindDeferredProgramHash :: "u32 \<Rightarrow> image_set \<Rightarrow> image_set option" where
  "BindDeferredProgramHash h rset =
     (if \<not> list_all (\<lambda>img. ri_kind img = Deferred \<longrightarrow> ss_program_hash (ri_snapshot img) = Some h)
            (is_images rset) then None
      else Some (map_images
             (\<lambda>img. if ri_kind img = Deferred then img\<lparr>ri_hash_bound := True\<rparr> else img) rset))"

definition BindDeferredLoadState :: "u64 \<Rightarrow> u32 \<Rightarrow> bool \<Rightarrow> image_set \<Rightarrow> image_set option" where
  "BindDeferredLoadState i unit loaded = update_image (\<lambda>img. ri_id img = i)
     (\<lambda>img. if ri_kind img \<noteq> Deferred \<or> ri_unit img \<noteq> unit then None
            else Some (img\<lparr>ri_load_state := (if loaded then Loaded else NotLoaded)\<rparr>))"

text \<open>One direction of the comparison; \<open>states\<close> says whether the load states count too.\<close>

definition load_states_within :: "bool \<Rightarrow> image_set \<Rightarrow> image_set \<Rightarrow> bool" where
  "load_states_within states rset other =
     list_all (\<lambda>img. ri_kind img = Deferred \<longrightarrow>
       (case FindById other (ri_id img) of
          None \<Rightarrow> False
        | Some candidate \<Rightarrow> ri_kind candidate = Deferred \<and>
            ri_epoch candidate = ri_epoch img \<and> ri_unit candidate = ri_unit img \<and>
            (states \<longrightarrow> ri_load_state candidate = ri_load_state img))) (is_images rset)"

definition SameDeferredLoadStates :: "image_set \<Rightarrow> image_set \<Rightarrow> bool" where
  "SameDeferredLoadStates rset other \<longleftrightarrow>
     length (is_images rset) = length (is_images other) \<and>
     load_states_within True rset other \<and> load_states_within False other rset"

end
