(* ===== verification/Runtime_Image_Set_Props.thy ===== *)
theory Runtime_Image_Set_Props
  imports Runtime_Image_Set
begin

text \<open>
  The invariant of a runtime image set, its preservation by every operation, and what it
  buys: addresses select at most one instruction namespace, owner tokens are unique and a
  stale one never becomes current again, the receipts of the live VM are bound all or not
  at all, and the producer's file names parse back to their loading units.
\<close>

named_theorems image_ops \<open>the operations that change images in place\<close>

section \<open>Selections\<close>

lemma select_loop_Some [simp]:
  "select_loop P (Some y) xs = (if list_ex P xs then None else Some y)"
  by (induction xs) auto

lemma select_loop_None:
  "select_loop P None xs = Some x \<longleftrightarrow>
     (\<exists>as bs. xs = as @ x # bs \<and> P x \<and> (\<forall>y \<in> set as \<union> set bs. \<not> P y))"
proof (induction xs)
  case (Cons a xs)
  show ?case
  proof (cases "P a")
    case True
    have "(\<exists>as bs. a # xs = as @ x # bs \<and> P x \<and> (\<forall>y \<in> set as \<union> set bs. \<not> P y)) \<longleftrightarrow>
      a = x \<and> (\<forall>y \<in> set xs. \<not> P y)"
    proof
      assume "\<exists>as bs. a # xs = as @ x # bs \<and> P x \<and> (\<forall>y \<in> set as \<union> set bs. \<not> P y)"
      then obtain as bs where "a # xs = as @ x # bs" "\<forall>y \<in> set as \<union> set bs. \<not> P y" by blast
      then show "a = x \<and> (\<forall>y \<in> set xs. \<not> P y)" using True by (cases as) auto
    next
      assume "a = x \<and> (\<forall>y \<in> set xs. \<not> P y)"
      then have "a # xs = [] @ x # xs \<and> P x \<and> (\<forall>y \<in> set [] \<union> set xs. \<not> P y)" using True by simp
      then show "\<exists>as bs. a # xs = as @ x # bs \<and> P x \<and> (\<forall>y \<in> set as \<union> set bs. \<not> P y)" by blast
    qed
    then show ?thesis using True by (auto simp: list_ex_iff)
  next
    case False
    have "(\<exists>as bs. a # xs = as @ x # bs \<and> P x \<and> (\<forall>y \<in> set as \<union> set bs. \<not> P y)) \<longleftrightarrow>
      (\<exists>as bs. xs = as @ x # bs \<and> P x \<and> (\<forall>y \<in> set as \<union> set bs. \<not> P y))"
    proof
      assume "\<exists>as bs. a # xs = as @ x # bs \<and> P x \<and> (\<forall>y \<in> set as \<union> set bs. \<not> P y)"
      then obtain as bs where *: "a # xs = as @ x # bs" "P x" "\<forall>y \<in> set as \<union> set bs. \<not> P y"
        by blast
      then obtain as' where "as = a # as'" using False by (cases as) auto
      then show "\<exists>as bs. xs = as @ x # bs \<and> P x \<and> (\<forall>y \<in> set as \<union> set bs. \<not> P y)"
        using * by (intro exI [of _ as'] exI [of _ bs]) auto
    next
      assume "\<exists>as bs. xs = as @ x # bs \<and> P x \<and> (\<forall>y \<in> set as \<union> set bs. \<not> P y)"
      then obtain as bs where "xs = as @ x # bs" "P x" "\<forall>y \<in> set as \<union> set bs. \<not> P y" by blast
      then show "\<exists>as bs. a # xs = as @ x # bs \<and> P x \<and> (\<forall>y \<in> set as \<union> set bs. \<not> P y)"
        using False by (intro exI [of _ "a # as"] exI [of _ bs]) auto
    qed
    then show ?thesis using False Cons.IH by simp
  qed
qed simp

text \<open>When at most one element of a list without repetitions has the property, the loop is
  the search for it.\<close>

lemma select_loop_unique:
  assumes "distinct xs" and "\<And>x y. x \<in> set xs \<Longrightarrow> y \<in> set xs \<Longrightarrow> P x \<Longrightarrow> P y \<Longrightarrow> x = y"
  shows "select_loop P None xs = Some x \<longleftrightarrow> x \<in> set xs \<and> P x"
proof
  assume "select_loop P None xs = Some x"
  then show "x \<in> set xs \<and> P x" by (auto simp: select_loop_None)
next
  assume x: "x \<in> set xs \<and> P x"
  then obtain as bs where xs: "xs = as @ x # bs" by (meson split_list)
  then have "\<forall>y \<in> set as \<union> set bs. \<not> P y" using assms x by auto
  then show "select_loop P None xs = Some x" using xs x by (auto simp: select_loop_None)
qed

section \<open>Namespaces\<close>

lemma RangesOverlap_iff:
  "\<not> RangesOverlap ls lz rs rz \<longleftrightarrow> 0 < unat lz \<and> 0 < unat rz \<and>
     unat ls + unat lz < 2 ^ 64 \<and> unat rs + unat rz < 2 ^ 64 \<and>
     (unat ls + unat lz \<le> unat rs \<or> unat rs + unat rz \<le> unat ls)"
proof (cases "lz \<noteq> 0 \<and> rz \<noteq> 0 \<and> unat ls + unat lz < 2 ^ 64 \<and> unat rs + unat rz < 2 ^ 64")
  case True
  then have "unat (ls + lz) = unat ls + unat lz" "unat (rs + rz) = unat rs + unat rz"
    by (simp_all add: unat_add_fits)
  moreover have "\<not> lz > UINT64_MAX - ls" "\<not> rz > UINT64_MAX - rs"
    using True by (simp_all add: add_exceeds add.commute)
  ultimately show ?thesis
    using True unfolding RangesOverlap_def by (auto simp: word_less_nat_alt unat_gt_0)
next
  case False
  then have "lz = 0 \<or> rz = 0 \<or> lz > UINT64_MAX - ls \<or> rz > UINT64_MAX - rs"
    unfolding add_exceeds by linarith
  then have "RangesOverlap ls lz rs rz" by (auto simp: RangesOverlap_def)
  then show ?thesis using False by (auto simp: unat_gt_0)
qed

lemma RangesOverlap_commute: "RangesOverlap ls lz rs rz = RangesOverlap rs rz ls lz"
  using RangesOverlap_iff [of ls lz rs rz] RangesOverlap_iff [of rs rz ls lz] by auto

text \<open>The addresses an image's instructions occupy.\<close>

definition image_namespace :: "runtime_image \<Rightarrow> nat set" where
  "image_namespace img = {unat (ss_runtime (ri_snapshot img)) ..<
     unat (ss_runtime (ri_snapshot img)) + unat (ss_size (ri_snapshot img))}"

definition image_overlap :: "runtime_image \<Rightarrow> runtime_image \<Rightarrow> bool" where
  "image_overlap a b = RangesOverlap (ss_runtime (ri_snapshot a)) (ss_size (ri_snapshot a))
     (ss_runtime (ri_snapshot b)) (ss_size (ri_snapshot b))"

lemma disjoint_namespaces: "\<not> image_overlap a b \<Longrightarrow> image_namespace a \<inter> image_namespace b = {}"
  by (auto simp: image_overlap_def image_namespace_def RangesOverlap_iff)

lemma contains_range_namespace:
  assumes "ContainsRuntimeRange img a n"
  shows "{unat a ..< unat a + unat n} \<subseteq> image_namespace img" "unat a \<in> image_namespace img"
    "0 < unat n"
proof -
  let ?s = "ri_snapshot img"
  have ge: "ss_runtime ?s \<le> a" and off: "a - ss_runtime ?s < ss_size ?s"
    and n: "n \<le> ss_size ?s - (a - ss_runtime ?s)" and "n \<noteq> 0"
    using assms by (auto simp: ContainsRuntimeRange_def Let_def split: if_splits)
  show pos: "0 < unat n" using \<open>n \<noteq> 0\<close> by (simp add: unat_gt_0)
  have o: "unat (a - ss_runtime ?s) = unat a - unat (ss_runtime ?s)" using ge by (rule unat_sub_le)
  have "unat n \<le> unat (ss_size ?s) - (unat a - unat (ss_runtime ?s))"
    using n unat_sub_le [OF less_imp_le [OF off]] o by (simp add: word_le_nat_alt)
  moreover have "unat (ss_runtime ?s) \<le> unat a" using ge by (simp add: word_le_nat_alt)
  moreover have "unat a - unat (ss_runtime ?s) < unat (ss_size ?s)"
    using off o by (simp add: word_less_nat_alt)
  ultimately show "{unat a ..< unat a + unat n} \<subseteq> image_namespace img"
    "unat a \<in> image_namespace img"
    using pos by (auto simp: image_namespace_def)
qed

section \<open>The invariant\<close>

definition below_cursor :: "u64 \<Rightarrow> u64 \<Rightarrow> bool" where
  "below_cursor cursor x \<longleftrightarrow> x \<noteq> 0 \<and> (cursor = 0 \<or> x < cursor)"

definition image_ok :: "image_set \<Rightarrow> runtime_image \<Rightarrow> bool" where
  "image_ok s img \<longleftrightarrow>
     below_cursor (is_next_id s) (ri_id img) \<and> below_cursor (is_next_epoch s) (ri_epoch img) \<and>
     provenance_ok (ri_module img) (ri_snapshot img) \<and>
     (case ri_kind img of
        Root \<Rightarrow> ri_unit img = 1 \<and> ri_id img = is_root_id s
      | Deferred \<Rightarrow> ri_unit img > 1 \<and> ss_program_hash (ri_snapshot img) \<noteq> None)"

definition images_compatible :: "runtime_image \<Rightarrow> runtime_image \<Rightarrow> bool" where
  "images_compatible a b \<longleftrightarrow> \<not> image_overlap a b \<and> \<not> SameModule (ri_module a) (ri_module b) \<and>
     CompatibleWithRoot a (ri_snapshot b) \<and>
     (ri_kind a = Deferred \<and> ri_kind b = Deferred \<longrightarrow>
      ss_program_hash (ri_snapshot a) = ss_program_hash (ri_snapshot b))"

definition image_set_ok :: "image_set \<Rightarrow> bool" where
  "image_set_ok s \<longleftrightarrow>
     list_all (image_ok s) (is_images s) \<and>
     distinct (map ri_id (is_images s)) \<and> distinct (map ri_epoch (is_images s)) \<and>
     distinct (map ri_unit (is_images s)) \<and>
     (\<forall>a \<in> set (is_images s). \<forall>b \<in> set (is_images s). ri_id a \<noteq> ri_id b \<longrightarrow> images_compatible a b) \<and>
     (if is_images s = [] then is_root_id s = 0
      else list_ex (\<lambda>img. ri_kind img = Root) (is_images s))"

lemma image_set_okD:
  assumes "image_set_ok s"
  shows "\<And>img. img \<in> set (is_images s) \<Longrightarrow> image_ok s img"
    "distinct (map ri_id (is_images s))" "distinct (is_images s)"
    "\<And>a b. a \<in> set (is_images s) \<Longrightarrow> b \<in> set (is_images s) \<Longrightarrow> a \<noteq> b \<Longrightarrow> images_compatible a b"
proof -
  show "\<And>img. img \<in> set (is_images s) \<Longrightarrow> image_ok s img" and d: "distinct (map ri_id (is_images s))"
    using assms by (auto simp: image_set_ok_def list_all_iff)
  show "distinct (is_images s)" using d by (simp add: distinct_map)
  show "images_compatible a b"
    if "a \<in> set (is_images s)" "b \<in> set (is_images s)" "a \<noteq> b" for a b
  proof -
    have "ri_id a \<noteq> ri_id b" using d that by (auto simp: distinct_map inj_on_def)
    then show ?thesis using assms that by (auto simp: image_set_ok_def)
  qed
qed

text \<open>The invariant looks only at the part of an image that never changes in place.\<close>

definition fixed_part :: "runtime_image \<Rightarrow> runtime_image" where
  "fixed_part img = new_image (ri_id img) (ri_epoch img) (ri_kind img) (ri_unit img) 0
     (ri_module img) (ri_snapshot img)"

lemma fixed_part_simps [simp]:
  "ri_id (fixed_part img) = ri_id img" "ri_epoch (fixed_part img) = ri_epoch img"
  "ri_kind (fixed_part img) = ri_kind img" "ri_unit (fixed_part img) = ri_unit img"
  "ri_module (fixed_part img) = ri_module img" "ri_snapshot (fixed_part img) = ri_snapshot img"
  by (simp_all add: fixed_part_def new_image_def)

lemma image_ok_fixed [simp]: "image_ok s (fixed_part img) = image_ok s img"
  by (simp add: image_ok_def split: image_kind.split)

lemma images_compatible_fixed [simp]:
  "images_compatible (fixed_part a) (fixed_part b) = images_compatible a b"
  by (simp add: images_compatible_def image_overlap_def CompatibleWithRoot_def)

lemma image_set_ok_fixed:
  "image_set_ok (s\<lparr>is_images := map fixed_part (is_images s)\<rparr>) = image_set_ok s"
proof -
  have ok: "image_ok (s\<lparr>is_images := xs\<rparr>) img = image_ok s img" for xs img
    by (simp add: image_ok_def split: image_kind.split)
  show ?thesis
    by (simp add: image_set_ok_def ok [abs_def] list.pred_map comp_def list_ex_iff)
qed

definition same_fixed :: "image_set \<Rightarrow> image_set \<Rightarrow> bool" where
  "same_fixed s t \<longleftrightarrow> is_next_id s = is_next_id t \<and> is_next_epoch s = is_next_epoch t \<and>
     is_root_id s = is_root_id t \<and> map fixed_part (is_images s) = map fixed_part (is_images t)"

lemma same_fixed_ok: "same_fixed s t \<Longrightarrow> image_set_ok s \<Longrightarrow> image_set_ok t"
proof -
  assume a: "same_fixed s t" and ok: "image_set_ok s"
  have "s\<lparr>is_images := map fixed_part (is_images s)\<rparr> = t\<lparr>is_images := map fixed_part (is_images t)\<rparr>"
    using a by (simp add: same_fixed_def)
  then show ?thesis using ok image_set_ok_fixed [of s] image_set_ok_fixed [of t] by simp
qed

lemma same_fixed_refl [simp]: "same_fixed s s"
  by (simp add: same_fixed_def)

section \<open>Operations that change images in place\<close>

lemma update_first_map:
  assumes "update_first P f xs = Some ys" and "\<And>x y. f x = Some y \<Longrightarrow> g y = g x"
  shows "map g ys = map g xs"
  using assms(1) by (induction xs arbitrary: ys) (auto split: if_splits dest: assms(2))

lemma fixed_part_upd [simp]:
  "fixed_part (img\<lparr>ri_generation := g\<rparr>) = fixed_part img"
  "fixed_part (img\<lparr>ri_engine_epoch := e\<rparr>) = fixed_part img"
  "fixed_part (img\<lparr>ri_group_epoch := e\<rparr>) = fixed_part img"
  "fixed_part (img\<lparr>ri_lifecycle := l\<rparr>) = fixed_part img"
  "fixed_part (img\<lparr>ri_live_entries := c\<rparr>) = fixed_part img"
  "fixed_part (img\<lparr>ri_hash_bound := b\<rparr>) = fixed_part img"
  "fixed_part (img\<lparr>ri_load_state := ls\<rparr>) = fixed_part img"
  by (simp_all add: fixed_part_def)

lemma same_fixed_map_images [intro]:
  "(\<And>img. fixed_part (f img) = fixed_part img) \<Longrightarrow> same_fixed s (map_images f s)"
  by (simp add: same_fixed_def map_images_def)

lemma same_fixed_update_image:
  assumes "update_image P f s = Some t" and "\<And>x y. f x = Some y \<Longrightarrow> fixed_part y = fixed_part x"
  shows "same_fixed s t"
  using assms(1) update_first_map [where g = fixed_part, OF _ assms(2)]
  by (force simp: update_image_def same_fixed_def)

lemma same_fixed_simple_ops [intro!, simp]:
  "same_fixed s (BindGeneration g s)" "same_fixed s (BindOwnerEpochs e i s)"
  "same_fixed s (ActivateAll s)" "same_fixed s (ResetLiveEntryBindings s)"
  "same_fixed s (ResetSemanticBindings s)" "same_fixed s (PreserveSemanticBindingsFrom s p)"
  by (auto simp: BindGeneration_def BindOwnerEpochs_def ActivateAll_def ResetLiveEntryBindings_def
      ResetSemanticBindings_def PreserveSemanticBindingsFrom_def preserve_semantics_def
      same_fixed_def map_images_def split: option.splits)

lemma count_entries_length: "count_entries imgs counts ids = Some cs \<Longrightarrow> length cs = length counts"
  by (induction ids arbitrary: counts) (auto split: if_splits option.splits)

lemma same_fixed_partial_ops:
  "BeginDrain i ep s = Some t \<Longrightarrow> same_fixed s t"
  "Retire i ep s = Some t \<Longrightarrow> same_fixed s t"
  "RecordLiveEntry i s = Some t \<Longrightarrow> same_fixed s t"
  "BindDeferredLoadState i unit loaded s = Some t \<Longrightarrow> same_fixed s t"
  "BindDeferredProgramHash h s = Some t \<Longrightarrow> same_fixed s t"
  "BindLiveEntries ids s = Some t \<Longrightarrow> same_fixed s t"
proof -
  show "same_fixed s t" if "BindLiveEntries ids s = Some t"
  proof -
    obtain cs where cs: "count_entries (is_images s) (replicate (length (is_images s)) 0) ids = Some cs"
      and t: "t = s\<lparr>is_images := map2 (\<lambda>img c. img\<lparr>ri_live_entries := c\<rparr>) (is_images s) cs\<rparr>"
      using \<open>BindLiveEntries ids s = Some t\<close> by (auto simp: BindLiveEntries_def split: option.splits)
    have "length cs = length (is_images s)" using count_entries_length [OF cs] by simp
    then show ?thesis using t by (auto simp: same_fixed_def intro!: nth_equalityI)
  qed
qed (auto simp: BeginDrain_def Retire_def RecordLiveEntry_def BindDeferredLoadState_def
    BindDeferredProgramHash_def split: if_splits elim!: same_fixed_update_image)

section \<open>Building a set\<close>

lemma ok_Clear [simp]: "image_set_ok Clear"
  by (simp add: image_set_ok_def Clear_def)

lemma below_next:
  "below_cursor c x \<Longrightarrow> c \<noteq> 0 \<Longrightarrow> below_cursor (c + 1) x"
  "c \<noteq> 0 \<Longrightarrow> below_cursor (c + 1) c"
proof -
  have inc: "c + 1 = 0 \<or> unat (c + 1) = unat c + 1"
    by (metis Suc_eq_plus1 unatSuc add.commute)
  show "below_cursor c x \<Longrightarrow> c \<noteq> 0 \<Longrightarrow> below_cursor (c + 1) x"
    using inc unfolding below_cursor_def word_less_nat_alt by (elim disjE) auto
  show "c \<noteq> 0 \<Longrightarrow> below_cursor (c + 1) c"
    using inc unfolding below_cursor_def word_less_nat_alt by (elim disjE) auto
qed

lemma image_ok_cong:
  assumes "image_ok s img" and "is_root_id t = is_root_id s"
    and "below_cursor (is_next_id t) (ri_id img)" "below_cursor (is_next_epoch t) (ri_epoch img)"
  shows "image_ok t img"
  using assms by (simp add: image_ok_def split: image_kind.splits)

lemma image_ok_below:
  "image_ok s img \<Longrightarrow> below_cursor (is_next_id s) (ri_id img) \<and> below_cursor (is_next_epoch s) (ri_epoch img)"
  by (simp add: image_ok_def)

lemma image_ok_bump:
  "image_ok s img \<Longrightarrow> is_next_id s \<noteq> 0 \<Longrightarrow> image_ok (s\<lparr>is_next_id := is_next_id s + 1\<rparr>) img"
  "image_ok s img \<Longrightarrow> is_next_epoch s \<noteq> 0 \<Longrightarrow> image_ok (s\<lparr>is_next_epoch := is_next_epoch s + 1\<rparr>) img"
  using image_ok_below [of s img] below_next(1)
  by (auto elim!: image_ok_cong)

lemma new_image_simps [simp]:
  "ri_id (new_image i ep k u g m s) = i" "ri_epoch (new_image i ep k u g m s) = ep"
  "ri_kind (new_image i ep k u g m s) = k" "ri_unit (new_image i ep k u g m s) = u"
  "ri_module (new_image i ep k u g m s) = m" "ri_snapshot (new_image i ep k u g m s) = s"
  by (simp_all add: new_image_def)

lemma ok_SetRoot: "image_set_ok (snd (SetRoot m s g))"
proof (cases "provenance_ok m s")
  case False
  then show ?thesis by (simp add: SetRoot_def)
next
  case True
  then show ?thesis
    by (simp add: SetRoot_def Clear_def AllocateId_def AllocateIncarnationEpoch_def image_set_ok_def
        image_ok_def below_cursor_def)
qed

lemma FindById_SomeD: "FindById s i = Some img \<Longrightarrow> img \<in> set (is_images s) \<and> ri_id img = i \<and> i \<noteq> 0"
  by (auto simp: FindById_def dest: find_SomeD split: if_splits)

lemma CompatibleWithRoot_trans:
  "CompatibleWithRoot r (ri_snapshot a) \<Longrightarrow> CompatibleWithRoot r s \<Longrightarrow> CompatibleWithRoot a s"
  by (simp add: CompatibleWithRoot_def)

lemma SameModule_commute: "SameModule a b = SameModule b a"
  unfolding SameModule_def list_all2_conv_all_nth SameExecutableRange_def by metis

lemma images_compatible_commute: "images_compatible a b \<Longrightarrow> images_compatible b a"
  unfolding images_compatible_def image_overlap_def
  by (simp add: RangesOverlap_commute [of "ss_runtime (ri_snapshot a)"] SameModule_commute
      CompatibleWithRoot_def)

lemma ok_append:
  assumes ok: "image_set_ok s" and "is_images s \<noteq> []"
    and i: "is_next_id s \<noteq> 0" and e: "is_next_epoch s \<noteq> 0"
    and img: "ri_id img = is_next_id s" "ri_epoch img = is_next_epoch s" "ri_kind img = Deferred"
      "1 < ri_unit img" "provenance_ok (ri_module img) (ri_snapshot img)"
      "ss_program_hash (ri_snapshot img) \<noteq> None"
    and fresh: "\<And>old. old \<in> set (is_images s) \<Longrightarrow> ri_unit old \<noteq> ri_unit img \<and> images_compatible old img"
  shows "image_set_ok (s\<lparr>is_next_id := is_next_id s + 1, is_next_epoch := is_next_epoch s + 1,
           is_images := is_images s @ [img]\<rparr>)" (is "image_set_ok ?t")
proof -
  have old: "ri_id o' \<noteq> ri_id img" "ri_epoch o' \<noteq> ri_epoch img" "image_ok ?t o'"
    if "o' \<in> set (is_images s)" for o'
  proof -
    have "image_ok s o'" using ok that by (rule image_set_okD(1))
    moreover from this have "below_cursor (is_next_id s) (ri_id o')"
      "below_cursor (is_next_epoch s) (ri_epoch o')" by (simp_all add: image_ok_def)
    ultimately show "image_ok ?t o'" "ri_id o' \<noteq> ri_id img" "ri_epoch o' \<noteq> ri_epoch img"
      using i e img by (auto intro!: image_ok_cong [of s] intro: below_next(1)) (auto simp: below_cursor_def)
  qed
  have "image_ok ?t img"
    using img below_next(2) [OF i] below_next(2) [OF e] by (simp add: image_ok_def)
  moreover have "\<forall>o' \<in> set (is_images s). image_ok ?t o'" using old by blast
  ultimately have all: "list_all (image_ok ?t) (is_images ?t)" by (auto simp: list_all_iff)
  have ids: "ri_id img \<notin> ri_id ` set (is_images s)" "ri_epoch img \<notin> ri_epoch ` set (is_images s)"
    "ri_unit img \<notin> ri_unit ` set (is_images s)"
    using old(1,2) fresh by (metis imageE)+
  have compat: "images_compatible a b"
    if "a \<in> set (is_images ?t)" "b \<in> set (is_images ?t)" "ri_id a \<noteq> ri_id b" for a b
    using that ok fresh images_compatible_commute unfolding image_set_ok_def by auto
  show ?thesis
    unfolding image_set_ok_def using all ids compat ok assms(2)
    by (simp add: image_set_ok_def list_ex_iff)
qed

definition add_image :: "image_set \<Rightarrow> (u64 \<Rightarrow> u64 \<Rightarrow> runtime_image) \<Rightarrow> bool \<times> image_set" where
  "add_image s mk =
     (let (i, s1) = AllocateId s; (ep, s2) = AllocateIncarnationEpoch s1 in
      if i = 0 \<or> ep = 0 then (False, s2) else (True, s2\<lparr>is_images := is_images s2 @ [mk i ep]\<rparr>))"

lemma AddDeferred_cases:
  "AddDeferred s m sn unit g = (False, s) \<or>
   AddDeferred s m sn unit g = add_image s (\<lambda>i ep. new_image i ep Deferred unit g m sn)"
  unfolding AddDeferred_def add_image_def by (simp split: option.split)

lemma ok_AddDeferred:
  assumes ok: "image_set_ok s"
  shows "image_set_ok (snd (AddDeferred s m sn unit g))"
proof (cases "fst (AddDeferred s m sn unit g)")
  case True
  let ?img = "new_image (is_next_id s) (is_next_epoch s) Deferred unit g m sn"
  obtain root where root: "RootImage s = Some root" and "1 < unit" and prov: "provenance_ok m sn"
    and c: "CompatibleWithRoot root sn" and h: "ss_program_hash sn \<noteq> None"
    and no: "\<forall>o' \<in> set (is_images s). add_conflict_with m sn unit o' = None"
    and n: "is_next_id s \<noteq> 0" "is_next_epoch s \<noteq> 0"
    using True by (auto simp: AddDeferred_def Let_def AllocateId_def AllocateIncarnationEpoch_def
        list_ex_iff not_le split: option.splits if_splits)
  have res: "snd (AddDeferred s m sn unit g) = s\<lparr>is_next_id := is_next_id s + 1,
      is_next_epoch := is_next_epoch s + 1, is_images := is_images s @ [?img]\<rparr>"
    using root \<open>1 < unit\<close> prov c h no n
    by (simp add: AddDeferred_def Let_def AllocateId_def AllocateIncarnationEpoch_def list_ex_iff
        not_le [symmetric])
  have r: "root \<in> set (is_images s)" using root FindById_SomeD by (auto simp: RootImage_def)
  have fresh: "ri_unit o' \<noteq> ri_unit ?img \<and> images_compatible o' ?img" if "o' \<in> set (is_images s)" for o'
  proof -
    have "add_conflict_with m sn unit o' = None" using no that by blast
    moreover have "CompatibleWithRoot o' sn"
    proof (cases "o' = root")
      case False
      then have "images_compatible root o'" using image_set_okD(4) [OF ok r that] by simp
      then show ?thesis using c by (auto simp: images_compatible_def intro: CompatibleWithRoot_trans)
    qed (use c in simp)
    ultimately show ?thesis
      by (auto simp: add_conflict_with_def images_compatible_def image_overlap_def split: if_splits)
  qed
  show ?thesis unfolding res
    by (rule ok_append) (use ok r n \<open>1 < unit\<close> prov h fresh in auto)
next
  case False
  then have "snd (AddDeferred s m sn unit g) = s \<or> is_next_epoch s = 0 \<and> is_next_id s \<noteq> 0 \<and>
      snd (AddDeferred s m sn unit g) = s\<lparr>is_next_id := is_next_id s + 1\<rparr> \<or> is_next_id s = 0 \<and>
      snd (AddDeferred s m sn unit g) = s\<lparr>is_next_epoch := is_next_epoch s + 1\<rparr> \<and> is_next_epoch s \<noteq> 0"
    using AddDeferred_cases [of s m sn unit g]
    by (cases "is_next_id s = 0"; cases "is_next_epoch s = 0")
      (auto simp: add_image_def AllocateId_def AllocateIncarnationEpoch_def)
  moreover have "image_set_ok (s\<lparr>is_next_id := is_next_id s + 1\<rparr>)" if "is_next_id s \<noteq> 0"
    using ok image_ok_bump(1) [OF _ that] by (auto simp: image_set_ok_def list_all_iff)
  moreover have "image_set_ok (s\<lparr>is_next_epoch := is_next_epoch s + 1\<rparr>)" if "is_next_epoch s \<noteq> 0"
    using ok image_ok_bump(2) [OF _ that] by (auto simp: image_set_ok_def list_all_iff)
  ultimately show ?thesis using ok by auto
qed

section \<open>Reconciling ownership\<close>

text \<open>What the second pass does to one kind of token: missing ones come from the cursor.\<close>

fun fill :: "u64 \<Rightarrow> u64 list \<Rightarrow> u64 \<times> u64 list" where
  "fill c [] = (c, [])"
| "fill c (x # xs) =
     (let (c', ys) = fill (if x = 0 then c + 1 else c) xs in (c', (if x = 0 then c else x) # ys))"

lemma fill_Cons [simp]:
  "fst (fill c (x # xs)) = fst (fill (if x = 0 then c + 1 else c) xs)"
  "snd (fill c (x # xs)) = (if x = 0 then c else x) # snd (fill (if x = 0 then c + 1 else c) xs)"
  by (simp_all add: case_prod_beta)

declare fill.simps(2) [simp del]

lemma fill_length [simp]: "length (snd (fill c xs)) = length xs"
  by (induction xs arbitrary: c) auto

lemma fill_facts:
  assumes "c \<noteq> 0" and "unat c + length xs < 2 ^ 64"
  shows "unat c \<le> unat (fst (fill c xs)) \<and> unat (fst (fill c xs)) \<le> unat c + length xs \<and>
    (\<forall>k < length xs. if xs ! k = 0
       then unat c \<le> unat (snd (fill c xs) ! k) \<and> unat (snd (fill c xs) ! k) < unat (fst (fill c xs))
       else snd (fill c xs) ! k = xs ! k)"
  using assms
proof (induction xs arbitrary: c)
  case (Cons x xs)
  define d where "d = (if x = 0 then c + 1 else c)"
  have d: "unat d = (if x = 0 then unat c + 1 else unat c)"
    using Cons.prems(2) by (simp add: d_def unat_word_ariths)
  have "d \<noteq> 0" using Cons.prems(1) d by (metis add_is_0 one_neq_zero unat_0 unat_eq_zero)
  moreover have "unat d + length xs < 2 ^ 64" using Cons.prems(2) d by (simp split: if_splits)
  ultimately have IH: "unat d \<le> unat (fst (fill d xs))" "unat (fst (fill d xs)) \<le> unat d + length xs"
    "\<And>k. k < length xs \<Longrightarrow> if xs ! k = 0
       then unat d \<le> unat (snd (fill d xs) ! k) \<and> unat (snd (fill d xs) ! k) < unat (fst (fill d xs))
       else snd (fill d xs) ! k = xs ! k"
    using Cons.IH [of d] by auto
  have eqs: "fst (fill c (x # xs)) = fst (fill d xs)"
    "snd (fill c (x # xs)) = (if x = 0 then c else x) # snd (fill d xs)"
    by (simp_all add: d_def)
  show ?case unfolding eqs
  proof (intro conjI allI impI)
    fix k assume "k < length (x # xs)"
    then show "if (x # xs) ! k = 0
        then unat c \<le> unat (((if x = 0 then c else x) # snd (fill d xs)) ! k) \<and>
          unat (((if x = 0 then c else x) # snd (fill d xs)) ! k) < unat (fst (fill d xs))
        else ((if x = 0 then c else x) # snd (fill d xs)) ! k = (x # xs) ! k"
      using IH(1,3) d by (cases k) (force split: if_splits)+
  qed (use IH d in \<open>auto split: if_splits\<close>)
qed simp

text \<open>Filled tokens are distinct when the kept ones are, and lie below the cursor.\<close>

lemma fill_distinct:
  assumes "c \<noteq> 0" and "unat c + length xs < 2 ^ 64"
    and "\<forall>x \<in> set xs. x \<noteq> 0 \<longrightarrow> x < c" and "distinct (filter (\<lambda>x. x \<noteq> 0) xs)"
  shows "distinct (snd (fill c xs)) \<and> (\<forall>y \<in> set (snd (fill c xs)). y \<noteq> 0 \<and> (y \<in> set xs \<or> c \<le> y))"
  using assms
proof (induction xs arbitrary: c)
  case (Cons x xs)
  show ?case
  proof (cases "x = 0")
    case True
    have c1: "unat (c + 1) = unat c + 1" using Cons.prems(2) by (simp add: unat_word_ariths)
    then have nz: "c + 1 \<noteq> 0" by (metis add_is_0 one_neq_zero unat_0)
    have "distinct (snd (fill (c + 1) xs)) \<and>
        (\<forall>y \<in> set (snd (fill (c + 1) xs)). y \<noteq> 0 \<and> (y \<in> set xs \<or> c + 1 \<le> y))"
      using Cons.prems True c1 by (intro Cons.IH [OF nz]) (auto simp: word_less_nat_alt)
    moreover have "y \<noteq> c \<and> (y \<in> set xs \<or> c \<le> y)" if "y \<noteq> 0" "y \<in> set xs \<or> c + 1 \<le> y" for y
      using that Cons.prems(3) c1 by (auto simp: word_le_nat_alt word_less_nat_alt)
    ultimately have "c \<notin> set (snd (fill (c + 1) xs))"
      "\<forall>y \<in> set (snd (fill (c + 1) xs)). y \<noteq> 0 \<and> (y \<in> set xs \<or> c \<le> y)"
      "distinct (snd (fill (c + 1) xs))" by blast+
    then show ?thesis using True Cons.prems(1) by simp
  next
    case False
    have IH: "distinct (snd (fill c xs)) \<and> (\<forall>y \<in> set (snd (fill c xs)). y \<noteq> 0 \<and> (y \<in> set xs \<or> c \<le> y))"
      using Cons.prems by (intro Cons.IH) (auto split: if_splits)
    have "x \<notin> set (snd (fill c xs))"
      using IH Cons.prems(3,4) False by (auto simp: not_less [symmetric])
    then show ?thesis
      using IH False by auto
  qed
qed simp

definition with_token :: "runtime_image \<Rightarrow> u64 \<Rightarrow> u64 \<Rightarrow> runtime_image" where
  "with_token img i ep = img\<lparr>ri_id := i, ri_epoch := ep\<rparr>"

lemma with_token_simps [simp]:
  "ri_id (with_token img i ep) = i" "ri_epoch (with_token img i ep) = ep"
  "ri_kind (with_token img i ep) = ri_kind img" "ri_unit (with_token img i ep) = ri_unit img"
  "ri_module (with_token img i ep) = ri_module img"
  "ri_snapshot (with_token img i ep) = ri_snapshot img"
  "with_token (with_token img i ep) j ep' = with_token img j ep'"
  by (simp_all add: with_token_def)

definition last_root :: "u64 \<Rightarrow> runtime_image list \<Rightarrow> u64" where
  "last_root root imgs = foldl (\<lambda>r img. if ri_kind img = Root then ri_id img else r) root imgs"

lemma reconcile_assign_eq:
  "reconcile_assign ni ne root imgs =
     (let ids = fill ni (map ri_id imgs); eps = fill ne (map ri_epoch imgs);
          ys = map (\<lambda>(img, i, ep). with_token img i ep) (zip imgs (zip (snd ids) (snd eps)))
      in (fst ids, fst eps, last_root root ys, ys))"
  by (induction imgs arbitrary: ni ne root)
    (simp_all add: fill.simps last_root_def with_token_def Let_def case_prod_beta)

lemma last_root_unique:
  assumes "\<forall>y \<in> set ys. ri_kind y = Root \<longrightarrow> ri_id y = v"
  shows "last_root r ys = (if list_ex (\<lambda>y. ri_kind y = Root) ys then v else r)"
  using assms by (induction ys arbitrary: r) (auto simp: last_root_def)

text \<open>The first pass: the logical predecessor decides the id, the exact one the epoch too.\<close>

definition logical_match :: "runtime_image list \<Rightarrow> runtime_image \<Rightarrow> runtime_image option" where
  "logical_match prev img = find (\<lambda>old. ri_kind img = ri_kind old \<and> ri_unit img = ri_unit old) prev"

lemma find_unit_unique:
  assumes "distinct (map ri_unit prev)" and "old \<in> set prev" and "P old"
    and "\<And>y. P y \<Longrightarrow> ri_unit y = ri_unit old"
  shows "find P prev = Some old"
proof -
  obtain y where y: "find P prev = Some y" using assms(2,3) by (metis find_None_iff not_Some_eq)
  then have "y \<in> set prev" "ri_unit y = ri_unit old" using assms(4) by (auto dest: find_SomeD)
  then have "y = old" using assms(1,2) by (auto simp: distinct_map inj_on_def)
  then show ?thesis using y by simp
qed

lemma reconcile_match_eq:
  assumes "distinct (map ri_unit prev)"
  shows "reconcile_match prev img =
    (case logical_match prev img of
       None \<Rightarrow> with_token img 0 0
     | Some old \<Rightarrow> with_token img (ri_id old) (if SameImageIdentity img old then ri_epoch old else 0))"
proof (cases "find (SameImageIdentity img) prev")
  case None
  then have "\<And>old. old \<in> set prev \<Longrightarrow> \<not> SameImageIdentity img old" by (simp add: find_None_iff)
  then show ?thesis
    using None by (auto simp: reconcile_match_def logical_match_def with_token_def
        split: option.split dest: find_SomeD)
next
  case (Some old)
  then have old: "old \<in> set prev" "SameImageIdentity img old" by (auto dest: find_SomeD)
  then have "logical_match prev img = Some old"
    unfolding logical_match_def
    by (intro find_unit_unique [OF assms]) (auto simp: SameImageIdentity_def)
  then show ?thesis using Some old by (simp add: reconcile_match_def with_token_def)
qed

lemma logical_matchD:
  "logical_match prev img = Some old \<Longrightarrow> old \<in> set prev \<and> ri_kind img = ri_kind old \<and> ri_unit img = ri_unit old"
  by (auto simp: logical_match_def dest: find_SomeD)

lemma kept_tokens:
  assumes prev: "image_set_ok prev" "is_next_id prev \<noteq> 0" "is_next_epoch prev \<noteq> 0"
    and units: "distinct (map ri_unit imgs)"
  defines "ys \<equiv> map (reconcile_match (is_images prev)) imgs"
  shows "\<forall>x \<in> set (map ri_id ys). x \<noteq> 0 \<longrightarrow> x < is_next_id prev"
    "\<forall>x \<in> set (map ri_epoch ys). x \<noteq> 0 \<longrightarrow> x < is_next_epoch prev"
    "distinct (filter (\<lambda>x. x \<noteq> 0) (map ri_id ys))" "distinct (filter (\<lambda>x. x \<noteq> 0) (map ri_epoch ys))"
proof -
  let ?m = "reconcile_match (is_images prev)"
  have pu: "distinct (map ri_unit (is_images prev))" "distinct (map ri_id (is_images prev))"
    "distinct (map ri_epoch (is_images prev))"
    using prev(1) by (auto simp: image_set_ok_def)
  have bel: "ri_id old < is_next_id prev" "ri_epoch old < is_next_epoch prev"
    if "old \<in> set (is_images prev)" for old
    using image_set_okD(1) [OF prev(1) that] prev(2,3) by (auto simp: image_ok_def below_cursor_def)
  have src: "\<exists>old \<in> set (is_images prev). ri_unit old = ri_unit img \<and> ri_id (?m img) = ri_id old \<and>
      (ri_epoch (?m img) \<noteq> 0 \<longrightarrow> ri_epoch (?m img) = ri_epoch old)"
    if "ri_id (?m img) \<noteq> 0 \<or> ri_epoch (?m img) \<noteq> 0" for img
  proof (cases "logical_match (is_images prev) img")
    case (Some old)
    show ?thesis
      using that Some logical_matchD [OF Some]
      by (intro bexI [of _ old]) (auto simp: reconcile_match_eq [OF pu(1)])
  qed (use that in \<open>auto simp: reconcile_match_eq [OF pu(1)]\<close>)
  show "\<forall>x \<in> set (map ri_id ys). x \<noteq> 0 \<longrightarrow> x < is_next_id prev"
    "\<forall>x \<in> set (map ri_epoch ys). x \<noteq> 0 \<longrightarrow> x < is_next_epoch prev"
    using src bel by (fastforce simp: ys_def)+
  have inj: "a = b" if ab: "a \<in> set imgs" "b \<in> set imgs" and tk:
      "ri_id (?m a) \<noteq> 0 \<and> ri_id (?m a) = ri_id (?m b) \<or> ri_epoch (?m a) \<noteq> 0 \<and> ri_epoch (?m a) = ri_epoch (?m b)"
    for a b
  proof -
    obtain oa ob where o: "oa \<in> set (is_images prev)" "ob \<in> set (is_images prev)"
      "ri_unit oa = ri_unit a" "ri_unit ob = ri_unit b" "ri_id oa = ri_id ob \<or> ri_epoch oa = ri_epoch ob"
      using src [of a] src [of b] tk by metis
    then have "oa = ob" using pu by (auto simp: distinct_map inj_on_def)
    then have "ri_unit a = ri_unit b" using o by simp
    then show ?thesis using ab units by (auto simp: distinct_map inj_on_def)
  qed
  have d: "distinct imgs" using units by (simp add: distinct_map)
  show "distinct (filter (\<lambda>x. x \<noteq> 0) (map ri_id ys))"
    using inj d by (auto simp: ys_def filter_map distinct_map inj_on_def)
  show "distinct (filter (\<lambda>x. x \<noteq> 0) (map ri_epoch ys))"
    using inj d by (auto simp: ys_def filter_map distinct_map inj_on_def)
qed

text \<open>The allocators have room for every image of the staged set.\<close>

definition tokens_left :: "image_set \<Rightarrow> image_set \<Rightarrow> bool" where
  "tokens_left staged prev \<longleftrightarrow> is_next_id prev \<noteq> 0 \<and> is_next_epoch prev \<noteq> 0 \<and>
     unat (is_next_id prev) + length (is_images staged) < 2 ^ 64 \<and>
     unat (is_next_epoch prev) + length (is_images staged) < 2 ^ 64"

text \<open>What reconciliation makes of one staged image.\<close>

definition reconciled :: "image_set \<Rightarrow> runtime_image \<Rightarrow> runtime_image \<Rightarrow> bool" where
  "reconciled prev img new \<longleftrightarrow>
     new = with_token img (ri_id new) (ri_epoch new) \<and>
     (case logical_match (is_images prev) img of
        None \<Rightarrow> is_next_id prev \<le> ri_id new \<and> is_next_epoch prev \<le> ri_epoch new
      | Some old \<Rightarrow> ri_id new = ri_id old \<and>
          (if SameImageIdentity img old then ri_epoch new = ri_epoch old
           else is_next_epoch prev \<le> ri_epoch new))"

lemma reconcile_result:
  assumes ok: "image_set_ok staged" "image_set_ok prev" and room: "tokens_left staged prev"
  obtains s where "ReconcileOwnershipFrom staged prev = (True, s)" "image_set_ok s"
    "list_all2 (reconciled prev) (is_images staged) (is_images s)"
    "is_next_id prev \<le> is_next_id s" "is_next_epoch prev \<le> is_next_epoch s"
    "is_next_id s \<noteq> 0" "is_next_epoch s \<noteq> 0"
proof -
  let ?imgs = "is_images staged"
  define xs where "xs = map (reconcile_match (is_images prev)) ?imgs"
  define ids where "ids = fill (is_next_id prev) (map ri_id xs)"
  define eps where "eps = fill (is_next_epoch prev) (map ri_epoch xs)"
  define ys where "ys = map (\<lambda>(img, i, ep). with_token img i ep) (zip xs (zip (snd ids) (snd eps)))"
  define s where "s = \<lparr>is_next_id = fst ids, is_next_epoch = fst eps,
    is_root_id = last_root (is_root_id staged) ys, is_images = ys\<rparr>"
  have n: "is_next_id prev \<noteq> 0" "is_next_epoch prev \<noteq> 0" and
    r: "unat (is_next_id prev) + length (map ri_id xs) < 2 ^ 64"
       "unat (is_next_epoch prev) + length (map ri_epoch xs) < 2 ^ 64"
    using room by (simp_all add: tokens_left_def xs_def)
  have su: "distinct (map ri_unit ?imgs)" and pu: "distinct (map ri_unit (is_images prev))"
    using ok by (simp_all add: image_set_ok_def)
  note kept = kept_tokens [OF ok(2) n su, folded xs_def]
  note idf = fill_facts [OF n(1) r(1), folded ids_def] and epf = fill_facts [OF n(2) r(2), folded eps_def]
  note idd = fill_distinct [OF n(1) r(1) kept(1,3), folded ids_def]
  note epd = fill_distinct [OF n(2) r(2) kept(2,4), folded eps_def]
  have len: "length xs = length ?imgs" "length (snd ids) = length xs" "length (snd eps) = length xs"
    "length ys = length xs"
    by (simp_all add: xs_def ids_def eps_def ys_def)
  have y: "ys ! k = with_token (?imgs ! k) (snd ids ! k) (snd eps ! k)"
    "xs ! k = reconcile_match (is_images prev) (?imgs ! k)" if "k < length ?imgs" for k
    using that len by (auto simp: ys_def xs_def reconcile_match_eq [OF pu] split: option.splits)
  have tok: "map ri_id ys = snd ids" "map ri_epoch ys = snd eps"
    using len by (auto intro!: nth_equalityI simp: y)
  have keep: "map ri_unit ys = map ri_unit ?imgs" "map ri_kind ys = map ri_kind ?imgs"
    "map ri_module ys = map ri_module ?imgs" "map ri_snapshot ys = map ri_snapshot ?imgs"
    using len by (auto intro!: nth_equalityI simp: y)
  have old: "ri_id o' \<noteq> 0" "ri_epoch o' \<noteq> 0" if "o' \<in> set (is_images prev)" for o'
    using image_set_okD(1) [OF ok(2) that] by (auto simp: image_ok_def below_cursor_def)
  have rec: "reconciled prev (?imgs ! k) (ys ! k)" if k: "k < length ?imgs" for k
  proof -
    have i: "if ri_id (xs ! k) = 0 then unat (is_next_id prev) \<le> unat (snd ids ! k) else snd ids ! k = ri_id (xs ! k)"
      and e: "if ri_epoch (xs ! k) = 0 then unat (is_next_epoch prev) \<le> unat (snd eps ! k)
        else snd eps ! k = ri_epoch (xs ! k)"
      using idf epf k len by (auto split: if_splits)
    show ?thesis
      using i e old logical_matchD [of "is_images prev" "?imgs ! k"]
      by (auto simp: y [OF k] reconciled_def reconcile_match_eq [OF pu] word_le_nat_alt
          split: option.splits if_splits)
  qed
  have cur: "fst ids \<noteq> 0" "fst eps \<noteq> 0" "is_next_id prev \<le> fst ids" "is_next_epoch prev \<le> fst eps"
    using idf epf n by (auto simp: word_le_nat_alt simp flip: unat_gt_0)
  have tb: "list_all (token_below (is_next_id prev) (is_next_epoch prev)) (is_images prev)"
    using image_set_okD(1) [OF ok(2)] n
    by (auto simp: list_all_iff token_below_def image_ok_def below_cursor_def not_le)
  have unique_root: "\<forall>y \<in> set ys. ri_kind y = Root \<longrightarrow> ri_id y = last_root (is_root_id staged) ys"
  proof (intro ballI impI)
    fix y assume yin: "y \<in> set ys" "ri_kind y = Root"
    have one: "ri_unit z = 1" if z: "z \<in> set ys" "ri_kind z = Root" for z
    proof -
      obtain k where k: "k < length ?imgs" "z = ys ! k" using z(1) len by (auto simp: in_set_conv_nth)
      then have "image_ok staged (?imgs ! k)" using image_set_okD(1) [OF ok(1)] by simp
      then show ?thesis using k z(2) by (simp add: y image_ok_def)
    qed
    have "\<forall>z \<in> set ys. ri_kind z = Root \<longrightarrow> ri_id z = ri_id y"
    proof (intro ballI impI)
      fix z assume "z \<in> set ys" "ri_kind z = Root"
      then have "z = y" using one yin su unfolding keep(1) [symmetric] by (auto simp: distinct_map inj_on_def)
      then show "ri_id z = ri_id y" by simp
    qed
    then have "last_root (is_root_id staged) ys = (if list_ex (\<lambda>y. ri_kind y = Root) ys then ri_id y
        else is_root_id staged)" by (rule last_root_unique)
    moreover have "list_ex (\<lambda>y. ri_kind y = Root) ys" using yin unfolding list_ex_iff by blast
    ultimately show "ri_id y = last_root (is_root_id staged) ys" by simp
  qed
  have imok: "image_ok s y" if yin: "y \<in> set ys" for y
  proof -
    obtain k where k: "k < length ?imgs" "y = ys ! k" using yin len by (auto simp: in_set_conv_nth)
    have "image_ok staged (?imgs ! k)" using image_set_okD(1) [OF ok(1)] k by simp
    moreover have "snd ids ! k \<noteq> 0" "snd eps ! k \<noteq> 0" using idd epd k len by (auto simp: in_set_conv_nth)
    moreover have "snd ids ! k < fst ids" "snd eps ! k < fst eps"
    proof -
      show "snd ids ! k < fst ids"
        using idf kept(1) cur(3) k len
        by (cases "ri_id (xs ! k) = 0") (fastforce simp: word_less_nat_alt word_le_nat_alt)+
      show "snd eps ! k < fst eps"
        using epf kept(2) cur(4) k len
        by (cases "ri_epoch (xs ! k) = 0") (fastforce simp: word_less_nat_alt word_le_nat_alt)+
    qed
    ultimately show ?thesis
      using k unique_root yin
      by (auto simp: image_ok_def below_cursor_def s_def y split: image_kind.splits)
  qed
  have compat: "images_compatible (ys ! j) (ys ! k)"
    if "j < length ys" "k < length ys" "ri_id (ys ! j) \<noteq> ri_id (ys ! k)" for j k
  proof -
    have jk: "j < length ?imgs" "k < length ?imgs" "j \<noteq> k" using that len by auto
    then have "?imgs ! j \<noteq> ?imgs ! k" using image_set_okD(3) [OF ok(1)] by (simp add: nth_eq_iff_index_eq)
    then have "images_compatible (?imgs ! j) (?imgs ! k)" using image_set_okD(4) [OF ok(1)] jk by simp
    then show ?thesis
      using jk by (simp add: y images_compatible_def image_overlap_def CompatibleWithRoot_def)
  qed
  have empty: "ys = [] \<longleftrightarrow> ?imgs = []" using len by auto
  have roots: "list_ex (\<lambda>y. ri_kind y = Root) ys = list_ex (\<lambda>y. ri_kind y = Root) ?imgs"
    using arg_cong [OF keep(2), of set] unfolding list_ex_iff set_map by (metis imageE imageI)
  have rootnz: "ys = [] \<or> last_root (is_root_id staged) ys \<noteq> 0"
  proof (cases "ys = []")
    case False
    then obtain y where "y \<in> set ys" "ri_kind y = Root"
      using ok(1) roots empty by (auto simp: image_set_ok_def list_ex_iff)
    then show ?thesis using unique_root imok by (auto simp: image_ok_def below_cursor_def)
  qed simp
  have sok: "image_set_ok s"
    unfolding image_set_ok_def
  proof (intro conjI ballI impI)
    show "list_all (image_ok s) (is_images s)" using imok by (simp add: list_all_iff s_def)
    show "distinct (map ri_id (is_images s))" "distinct (map ri_epoch (is_images s))"
      "distinct (map ri_unit (is_images s))"
      using idd epd tok su keep(1) by (simp_all add: s_def)
    show "images_compatible a b" if "a \<in> set (is_images s)" "b \<in> set (is_images s)" "ri_id a \<noteq> ri_id b"
      for a b
      using that compat by (auto simp: s_def in_set_conv_nth)
    show "if is_images s = [] then is_root_id s = 0 else list_ex (\<lambda>img. ri_kind img = Root) (is_images s)"
      using roots empty ok(1)
      by (cases "is_images staged = []") (simp_all add: image_set_ok_def s_def last_root_def)
  qed
  have "ReconcileOwnershipFrom staged prev = (True, s)"
    using n tb rootnz
    by (simp add: ReconcileOwnershipFrom_def reconcile_assign_eq Let_def s_def ys_def ids_def eps_def xs_def)
  moreover have "list_all2 (reconciled prev) ?imgs (is_images s)"
    using rec len by (simp add: s_def list_all2_conv_all_nth)
  ultimately show ?thesis using that sok cur by (simp add: s_def)
qed

section \<open>Reachable sets\<close>

text \<open>The operations that change the images of a set in place.\<close>

inductive image_update :: "image_set \<Rightarrow> image_set \<Rightarrow> bool" where
  generation: "image_update s (BindGeneration g s)"
| owner_epochs: "image_update s (BindOwnerEpochs e i s)"
| activate: "image_update s (ActivateAll s)"
| drain: "BeginDrain i ep s = Some t \<Longrightarrow> image_update s t"
| retire: "Retire i ep s = Some t \<Longrightarrow> image_update s t"
| reset_entries: "image_update s (ResetLiveEntryBindings s)"
| reset_semantics: "image_update s (ResetSemanticBindings s)"
| record_entry: "RecordLiveEntry i s = Some t \<Longrightarrow> image_update s t"
| bind_entries: "BindLiveEntries ids s = Some t \<Longrightarrow> image_update s t"
| bind_hash: "BindDeferredProgramHash h s = Some t \<Longrightarrow> image_update s t"
| bind_state: "BindDeferredLoadState i unit loaded s = Some t \<Longrightarrow> image_update s t"
| preserve: "image_update s (PreserveSemanticBindingsFrom s p)"

lemma image_update_fixed: "image_update s t \<Longrightarrow> same_fixed s t"
  by (induction rule: image_update.induct) (auto dest: same_fixed_partial_ops)

inductive image_set_reachable :: "image_set \<Rightarrow> bool" where
  clear: "image_set_reachable Clear"
| root: "image_set_reachable (snd (SetRoot m sn g))"
| add: "image_set_reachable s \<Longrightarrow> image_set_reachable (snd (AddDeferred s m sn unit g))"
| remove: "image_set_reachable s \<Longrightarrow> RemoveById s i = Some t \<Longrightarrow> image_set_reachable t"
| update: "image_set_reachable s \<Longrightarrow> image_update s t \<Longrightarrow> image_set_reachable t"
| reconcile: "image_set_reachable s \<Longrightarrow> image_set_reachable prev \<Longrightarrow> tokens_left s prev \<Longrightarrow>
    ReconcileOwnershipFrom s prev = (ok, t) \<Longrightarrow> image_set_reachable t"

lemma erase_first_facts:
  "set (erase_first P xs) \<subseteq> set xs"
  "distinct (map f xs) \<Longrightarrow> distinct (map f (erase_first P xs))"
  "x \<in> set xs \<Longrightarrow> \<not> P x \<Longrightarrow> x \<in> set (erase_first P xs)"
proof -
  show sub: "set (erase_first P xs) \<subseteq> set xs" for xs by (induction xs) auto
  show "distinct (map f xs) \<Longrightarrow> distinct (map f (erase_first P xs))"
    using sub by (induction xs) auto
  show "x \<in> set xs \<Longrightarrow> \<not> P x \<Longrightarrow> x \<in> set (erase_first P xs)" by (induction xs) auto
qed

lemma ok_RemoveById:
  assumes ok: "image_set_ok s" and t: "RemoveById s i = Some t"
  shows "image_set_ok t" and "set (is_images t) \<subseteq> set (is_images s)"
    and "is_next_epoch t = is_next_epoch s"
proof -
  let ?xs = "erase_first (\<lambda>img. ri_id img = i) (is_images s)"
  have t': "t = s\<lparr>is_images := ?xs\<rparr>" and i: "i \<noteq> is_root_id s"
    and ne: "is_images s \<noteq> []"
    using t by (auto simp: RemoveById_def split: if_splits)
  obtain r where r: "r \<in> set (is_images s)" "ri_kind r = Root"
    using ok ne by (auto simp: image_set_ok_def list_ex_iff)
  have "ri_id r = is_root_id s" using image_set_okD(1) [OF ok r(1)] r(2) by (simp add: image_ok_def)
  then have rin: "r \<in> set ?xs" using r i by (intro erase_first_facts(3)) auto
  have sub: "set ?xs \<subseteq> set (is_images s)" by (rule erase_first_facts(1))
  have "image_ok t img" if "img \<in> set ?xs" for img
  proof (rule image_ok_cong)
    show "image_ok s img" using image_set_okD(1) [OF ok] sub that by blast
    then show "below_cursor (is_next_id t) (ri_id img)" "below_cursor (is_next_epoch t) (ri_epoch img)"
      using image_ok_below by (auto simp: t')
  qed (simp add: t')
  moreover have "images_compatible a b" if "a \<in> set ?xs" "b \<in> set ?xs" "ri_id a \<noteq> ri_id b" for a b
    using ok sub that unfolding image_set_ok_def by blast
  moreover have "?xs \<noteq> []" "list_ex (\<lambda>img. ri_kind img = Root) ?xs"
    using rin r(2) by (auto simp: list_ex_iff)
  ultimately show "image_set_ok t"
    using ok by (simp add: image_set_ok_def t' list_all_iff erase_first_facts(2))
  show "set (is_images t) \<subseteq> set (is_images s)" "is_next_epoch t = is_next_epoch s"
    using sub by (simp_all add: t')
qed

lemma reachable_ok: "image_set_reachable s \<Longrightarrow> image_set_ok s"
proof (induction rule: image_set_reachable.induct)
  case (reconcile s prev ok t)
  then show ?case by (metis reconcile_result prod.inject)
qed (auto simp: ok_SetRoot ok_AddDeferred ok_RemoveById intro: same_fixed_ok image_update_fixed)

section \<open>Address lookup\<close>

lemma namespaces_unique:
  assumes ok: "image_set_ok s" and "x \<in> set (is_images s)" "y \<in> set (is_images s)"
    and "ContainsRuntimeRange x a n" "ContainsRuntimeRange y a n"
  shows "x = y"
proof (rule ccontr)
  assume "x \<noteq> y"
  then have "images_compatible x y" using image_set_okD(4) [OF ok] assms by blast
  then have "image_namespace x \<inter> image_namespace y = {}"
    by (intro disjoint_namespaces) (simp add: images_compatible_def)
  then show False using contains_range_namespace(2) assms(4,5) by blast
qed

lemma elf_va_offset:
  assumes "ContainsRuntimeRange img a n"
  shows "RuntimeAddressToElfVa img a n = Some va \<longleftrightarrow>
    unat va = unat (ss_va (ri_snapshot img)) + (unat a - unat (ss_runtime (ri_snapshot img)))"
proof -
  let ?sn = "ri_snapshot img"
  have ge: "ss_runtime ?sn \<le> a" using assms by (auto simp: ContainsRuntimeRange_def Let_def split: if_splits)
  then have o: "unat (a - ss_runtime ?sn) = unat a - unat (ss_runtime ?sn)" by (rule unat_sub_le)
  show ?thesis
  proof (cases "unat (ss_va ?sn) + (unat a - unat (ss_runtime ?sn)) < 2 ^ 64")
    case True
    then have "unat (ss_va ?sn + (a - ss_runtime ?sn)) = unat (ss_va ?sn) + (unat a - unat (ss_runtime ?sn))"
      using o by (metis unat_add_fits)
    then show ?thesis
      using True assms o by (auto simp: RuntimeAddressToElfVa_def add_exceeds word_unat_eq_iff)
  next
    case False
    then have "RuntimeAddressToElfVa img a n = None"
      using assms o by (simp add: RuntimeAddressToElfVa_def add_exceeds)
    then show ?thesis using False unat_lt64 [of va] by auto
  qed
qed

text \<open>
  C22: In every image set the operations can build, looking up an address range yields an
  image exactly when that image holds the range (no two instruction namespaces ever
  compete for it), and two addresses of one image have different ELF addresses.
\<close>

theorem address_lookup_exact:
  assumes "image_set_reachable s"
  shows "(FindByRuntimeRange s a n = Some img \<longleftrightarrow>
      img \<in> set (is_images s) \<and> ContainsRuntimeRange img a n) \<and>
    (FindByRuntimeRange s a n = Some img \<longrightarrow> FindByRuntimeRange s b n = Some img \<longrightarrow>
      RuntimeAddressToElfVa img a n = Some va \<longrightarrow> RuntimeAddressToElfVa img b n = Some va \<longrightarrow> a = b)"
proof -
  have ok: "image_set_ok s" using assms by (rule reachable_ok)
  have find: "FindByRuntimeRange s a n = Some img \<longleftrightarrow>
      img \<in> set (is_images s) \<and> ContainsRuntimeRange img a n" for a
    unfolding FindByRuntimeRange_def
    by (rule select_loop_unique [OF image_set_okD(3) [OF ok]]) (rule namespaces_unique [OF ok])
  have "a = b" if "ContainsRuntimeRange img a n" "ContainsRuntimeRange img b n"
    "RuntimeAddressToElfVa img a n = Some va" "RuntimeAddressToElfVa img b n = Some va"
  proof -
    have "unat (ss_runtime (ri_snapshot img)) \<le> unat a" "unat (ss_runtime (ri_snapshot img)) \<le> unat b"
      using contains_range_namespace(2) that(1,2) by (auto simp: image_namespace_def)
    then show ?thesis
      using that elf_va_offset [of img a n va] elf_va_offset [of img b n va]
      by (simp add: word_unat_eq_iff)
  qed
  then show ?thesis using find by blast
qed

text \<open>A small program: a root unit at 0x10000 and one deferred unit at 0x20000.\<close>

definition example_module :: "string \<Rightarrow> ptr \<Rightarrow> module_image" where
  "example_module name bias = \<lparr>mi_path = name, mi_name = name, mi_build_id = ''ab'', mi_load_bias = bias,
     mi_ranges = [\<lparr>er_start = bias, er_end = bias + 0x1000, er_file_offset = 0, er_va = 0,
       er_file_size = 0x1000\<rparr>]\<rparr>"

definition example_snapshot :: "string \<Rightarrow> ptr \<Rightarrow> u32 option \<Rightarrow> snapshot_source" where
  "example_snapshot name bias h = \<lparr>ss_module_name = name, ss_module_path = name, ss_module_build_id = ''AB'',
     ss_snapshot_hash = ''s'', ss_features = ''f'', ss_profile_name = ''p'', ss_va = 0, ss_size = 0x1000,
     ss_runtime = bias, ss_compressed_pointers = True, ss_program_hash = h\<rparr>"

definition example_root :: image_set where
  "example_root = snd (SetRoot (example_module ''a'' 0x10000) (example_snapshot ''a'' 0x10000 None) 7)"

definition example_set :: image_set where
  "example_set = snd (AddDeferred example_root (example_module ''b'' 0x20000)
     (example_snapshot ''b'' 0x20000 (Some 9)) 2 7)"

lemma example_reachable: "image_set_reachable example_set" "image_set_reachable example_root"
  unfolding example_set_def example_root_def by (intro image_set_reachable.intros)+

theorem address_lookup_exact_witness:
  "FindByRuntimeRange example_set 0x20010 4 = Some (is_images example_set ! 1)"
proof -
  have "is_images example_set ! 1 \<in> set (is_images example_set) \<and>
      ContainsRuntimeRange (is_images example_set ! 1) 0x20010 4"
    by code_simp
  then show ?thesis using address_lookup_exact [OF example_reachable(1)] by blast
qed

section \<open>Owner tokens over time\<close>

text \<open>One change of the published set: an update in place, the removal of a deferred image,
  or a refresh from a newly built set.\<close>

inductive published_step :: "image_set \<Rightarrow> image_set \<Rightarrow> bool" where
  update: "image_update s t \<Longrightarrow> published_step s t"
| remove: "RemoveById s i = Some t \<Longrightarrow> published_step s t"
| refresh: "image_set_reachable staged \<Longrightarrow> tokens_left staged s \<Longrightarrow>
    ReconcileOwnershipFrom staged s = (True, t) \<Longrightarrow> published_step s t"

definition owner_tokens :: "image_set \<Rightarrow> (u64 \<times> u64) set" where
  "owner_tokens s = (\<lambda>img. (ri_id img, ri_epoch img)) ` set (is_images s)"

lemma same_fixed_tokens: "same_fixed s t \<Longrightarrow> owner_tokens t = owner_tokens s"
proof -
  assume "same_fixed s t"
  then have "map (\<lambda>img. (ri_id img, ri_epoch img)) (map fixed_part (is_images s)) =
      map (\<lambda>img. (ri_id img, ri_epoch img)) (map fixed_part (is_images t))"
    by (simp only: same_fixed_def)
  then have "map (\<lambda>img. (ri_id img, ri_epoch img)) (is_images s) =
      map (\<lambda>img. (ri_id img, ri_epoch img)) (is_images t)" by (simp add: comp_def)
  then show ?thesis unfolding owner_tokens_def set_map [symmetric] by simp
qed

lemma published_step_stale:
  assumes "image_set_reachable s" and step: "published_step s t"
    and "below_cursor (is_next_epoch s) ep" and "(i, ep) \<notin> owner_tokens s"
  shows "image_set_reachable t \<and> below_cursor (is_next_epoch t) ep \<and> (i, ep) \<notin> owner_tokens t"
  using step
proof cases
  case update
  then have f: "same_fixed s t" by (rule image_update_fixed)
  then show ?thesis
    using assms same_fixed_tokens [OF f] update
    by (auto simp: same_fixed_def intro: image_set_reachable.update)
next
  case (remove j)
  note r = ok_RemoveById [OF reachable_ok [OF assms(1)] remove]
  have "owner_tokens t \<subseteq> owner_tokens s" using r(2) by (auto simp: owner_tokens_def)
  then show ?thesis using assms r(3) remove by (auto intro: image_set_reachable.remove)
next
  case (refresh staged)
  obtain t' where t': "ReconcileOwnershipFrom staged s = (True, t')" and
    rec: "list_all2 (reconciled s) (is_images staged) (is_images t')" and
    le: "is_next_epoch s \<le> is_next_epoch t'" and nz: "is_next_epoch s \<noteq> 0" "is_next_epoch t' \<noteq> 0"
    using reconcile_result [OF reachable_ok [OF refresh(1)] reachable_ok [OF assms(1)] refresh(2)]
      refresh(2) unfolding tokens_left_def by metis
  have t: "t' = t" using t' refresh(3) by simp
  have ep: "ep < is_next_epoch s" "ep \<noteq> 0" using assms(3) nz by (auto simp: below_cursor_def)
  have "(i, ep) \<notin> owner_tokens t"
  proof
    assume "(i, ep) \<in> owner_tokens t"
    then obtain new where new: "new \<in> set (is_images t)" "ri_id new = i" "ri_epoch new = ep"
      by (auto simp: owner_tokens_def)
    then obtain img where "reconciled s img new"
      using rec t by (metis in_set_conv_nth list_all2_conv_all_nth)
    then obtain old where "logical_match (is_images s) img = Some old" "ri_id old = i" "ri_epoch old = ep"
      using new ep by (auto simp: reconciled_def split: option.splits if_splits)
    then show False using assms(4) logical_matchD by (force simp: owner_tokens_def)
  qed
  moreover have "below_cursor (is_next_epoch t) ep"
    using ep le t by (auto simp: below_cursor_def)
  moreover have "image_set_reachable t"
    using image_set_reachable.reconcile [OF refresh(1) assms(1) refresh(2,3)] .
  ultimately show ?thesis by blast
qed

text \<open>
  An owner token (logical id and incarnation epoch) that has been issued and is not
  held by the published set never becomes current again, whatever updates, removals and
  refreshes follow.
\<close>

theorem owner_token_never_reused:
  assumes "image_set_reachable s" and "published_step\<^sup>*\<^sup>* s t"
    and "below_cursor (is_next_epoch s) ep" and "(i, ep) \<notin> owner_tokens s"
  shows "(i, ep) \<notin> owner_tokens t"
proof -
  have "image_set_reachable t \<and> below_cursor (is_next_epoch t) ep \<and> (i, ep) \<notin> owner_tokens t"
    using assms(2,1,3,4)
  proof (induction rule: rtranclp_induct)
    case (step t u)
    then show ?case using published_step_stale [of t u ep i] by blast
  qed simp
  then show ?thesis by blast
qed

definition after_unload :: image_set where
  "after_unload = snd (ReconcileOwnershipFrom example_root example_set)"

definition after_reload :: image_set where
  "after_reload = snd (ReconcileOwnershipFrom example_set after_unload)"

lemma example_refresh:
  "tokens_left example_root example_set" "tokens_left example_set after_unload"
  "ReconcileOwnershipFrom example_root example_set = (True, after_unload)"
  "ReconcileOwnershipFrom example_set after_unload = (True, after_reload)"
proof -
  have "fst (ReconcileOwnershipFrom example_root example_set)"
    "fst (ReconcileOwnershipFrom example_set after_unload)"
    by code_simp+
  then show "ReconcileOwnershipFrom example_root example_set = (True, after_unload)"
    "ReconcileOwnershipFrom example_set after_unload = (True, after_reload)"
    by (simp_all add: prod_eq_iff after_unload_def after_reload_def)
  have n: "is_next_id example_set = 3" "is_next_epoch example_set = 3"
    "is_next_id after_unload = 3" "is_next_epoch after_unload = 3"
    "length (is_images example_root) = 1" "length (is_images example_set) = 2"
    by code_simp+
  show "tokens_left example_root example_set" "tokens_left example_set after_unload"
    by (simp_all add: tokens_left_def n)
qed

theorem owner_token_never_reused_witness:
  "(2, 2) \<notin> owner_tokens after_reload"
proof -
  have r: "image_set_reachable after_unload"
    using example_reachable(2,1) example_refresh(1,3) by (rule image_set_reachable.reconcile)
  have "published_step after_unload after_reload"
    using example_reachable(1) example_refresh(2,4) by (rule published_step.refresh)
  moreover have "(2, 2) \<notin> owner_tokens after_unload" "below_cursor (is_next_epoch after_unload) 2"
    by code_simp+
  ultimately show ?thesis using owner_token_never_reused [OF r] by blast
qed

text \<open>
  C23: Reconciling a newly built set with the published one succeeds while the allocators
  last, keeps every image's content and the set's invariant, and decides its owner token by
  its predecessor: an exact physical survivor keeps id and epoch, a replacement of the same
  loading unit keeps the id and gets a fresh epoch, a new unit gets both fresh.
\<close>

theorem reconcile_ownership:
  assumes "image_set_reachable staged" and "image_set_reachable prev" and "tokens_left staged prev"
  shows "\<exists>s. ReconcileOwnershipFrom staged prev = (True, s) \<and> image_set_ok s \<and>
    length (is_images s) = length (is_images staged) \<and>
    (\<forall>k < length (is_images staged).
       is_images s ! k = with_token (is_images staged ! k) (ri_id (is_images s ! k)) (ri_epoch (is_images s ! k)) \<and>
       (case logical_match (is_images prev) (is_images staged ! k) of
          None \<Rightarrow> is_next_id prev \<le> ri_id (is_images s ! k) \<and> is_next_epoch prev \<le> ri_epoch (is_images s ! k)
        | Some old \<Rightarrow> ri_id (is_images s ! k) = ri_id old \<and>
            (if SameImageIdentity (is_images staged ! k) old then ri_epoch (is_images s ! k) = ri_epoch old
             else is_next_epoch prev \<le> ri_epoch (is_images s ! k))))"
proof -
  obtain s where "ReconcileOwnershipFrom staged prev = (True, s)" "image_set_ok s"
    "list_all2 (reconciled prev) (is_images staged) (is_images s)"
    by (rule reconcile_result [OF assms(1,2) [THEN reachable_ok] assms(3)])
  then show ?thesis
    by (intro exI [of _ s]) (auto simp: reconciled_def list_all2_conv_all_nth)
qed

theorem reconcile_ownership_witness:
  "\<exists>s. ReconcileOwnershipFrom example_root example_set = (True, s) \<and> ri_id (is_images s ! 0) = 1 \<and>
     ri_epoch (is_images s ! 0) = 1"
proof -
  have "length (is_images example_root) = 1" and
    "map_option ri_id (logical_match (is_images example_set) (is_images example_root ! 0)) = Some 1"
    "map_option ri_epoch (logical_match (is_images example_set) (is_images example_root ! 0)) = Some 1"
    "map_option (SameImageIdentity (is_images example_root ! 0))
       (logical_match (is_images example_set) (is_images example_root ! 0)) = Some True"
    by code_simp+
  then show ?thesis
    using reconcile_ownership [OF example_reachable(2,1) example_refresh(1)] by (auto split: option.splits)
qed

section \<open>Live entries\<close>

lemma index_of_Some: "index_of P xs = Some k \<Longrightarrow> k < length xs \<and> P (xs ! k)"
  by (induction xs arbitrary: k) (auto split: if_splits)

lemma index_of_None: "index_of P xs = None \<longleftrightarrow> (\<forall>x \<in> set xs. \<not> P x)"
  by (induction xs) auto

lemma unat_bump32: "unat (bump32 c) = min (unat c + 1) (2 ^ 32 - 1)"
proof (cases "c = 0xffffffff")
  case False
  then have "unat (c + 1) = unat c + 1" by (rule unat_inc32)
  moreover have "unat (c + 1) < 2 ^ 32" using unat_bound [of "c + 1"] by simp
  ultimately show ?thesis using False by (simp add: bump32_def)
qed (simp add: bump32_def)

lemma count_entries_fails:
  "count_entries imgs counts ids = None \<longleftrightarrow> \<not> set ids \<subseteq> ri_id ` set imgs - {0}"
proof (induction ids arbitrary: counts)
  case (Cons i ids)
  show ?case
  proof (cases "index_of (\<lambda>img. ri_id img = i) imgs")
    case None
    then have "i \<notin> ri_id ` set imgs" by (auto simp: index_of_None)
    then show ?thesis using None by simp
  next
    case (Some k)
    then have "i \<in> ri_id ` set imgs" using index_of_Some [OF Some] by (auto intro: rev_image_eqI)
    then show ?thesis using Some Cons.IH by simp
  qed
qed simp

lemma count_entries_counts:
  assumes "distinct (map ri_id imgs)" and "count_entries imgs counts ids = Some cs"
    and "length counts = length imgs" and "k < length imgs"
  shows "unat (cs ! k) = min (unat (counts ! k) + count_list ids (ri_id (imgs ! k))) (2 ^ 32 - 1)"
  using assms(2,3)
proof (induction ids arbitrary: counts)
  case Nil
  then show ?case using unat_bound [of "counts ! k"] by simp
next
  case (Cons i ids)
  obtain j where j: "index_of (\<lambda>img. ri_id img = i) imgs = Some j" and
    rest: "count_entries imgs (counts[j := bump32 (counts ! j)]) ids = Some cs"
    using Cons.prems(1) by (auto split: if_splits option.splits)
  have jl: "j < length imgs" "ri_id (imgs ! j) = i" using index_of_Some [OF j] by auto
  have eq: "k = j \<longleftrightarrow> i = ri_id (imgs ! k)"
    using jl assms(1,4) by (auto simp: distinct_conv_nth)
  show ?case
    using Cons.IH [OF rest] Cons.prems(2) jl eq assms(4) by (auto simp: nth_list_update unat_bump32)
qed

text \<open>
  Binding live entries fails exactly when some id is zero or not in the set, and
  then leaves no new set; otherwise every image's counter becomes the number of entries
  bound to it, saturated at the largest 32-bit value, and nothing else changes.
\<close>

theorem bind_live_entries_exact:
  assumes "image_set_reachable s"
  shows "case BindLiveEntries ids s of
      None \<Rightarrow> \<not> set ids \<subseteq> ri_id ` set (is_images s)
    | Some t \<Rightarrow> set ids \<subseteq> ri_id ` set (is_images s) \<and> same_fixed s t \<and>
        (\<forall>k < length (is_images s).
          is_images t ! k = (is_images s ! k)\<lparr>ri_live_entries := ri_live_entries (is_images t ! k)\<rparr> \<and>
          unat (ri_live_entries (is_images t ! k)) =
            min (count_list ids (ri_id (is_images s ! k))) (2 ^ 32 - 1))"
proof -
  let ?c = "count_entries (is_images s) (replicate (length (is_images s)) 0) ids"
  have ok: "image_set_ok s" using assms by (rule reachable_ok)
  then have nz: "0 \<notin> ri_id ` set (is_images s)"
    using image_set_okD(1) [OF ok] by (auto simp: image_ok_def below_cursor_def)
  show ?thesis
  proof (cases ?c)
    case None
    then show ?thesis
      using nz count_entries_fails [of "is_images s" "replicate (length (is_images s)) 0" ids]
      by (simp add: BindLiveEntries_def)
  next
    case (Some cs)
    have "set ids \<subseteq> ri_id ` set (is_images s)"
      using Some count_entries_fails [of "is_images s" "replicate (length (is_images s)) 0" ids] by auto
    moreover have len: "length cs = length (is_images s)" using count_entries_length [OF Some] by simp
    moreover have "unat (cs ! k) = min (count_list ids (ri_id (is_images s ! k))) (2 ^ 32 - 1)"
      if "k < length (is_images s)" for k
      using count_entries_counts [OF image_set_okD(2) [OF ok] Some _ that] that by simp
    ultimately show ?thesis
      using Some same_fixed_partial_ops(6) [of ids s] by (simp add: BindLiveEntries_def)
  qed
qed

theorem bind_live_entries_exact_witness:
  "BindLiveEntries [2, 1, 2] example_set \<noteq> None \<and> BindLiveEntries [2, 5] example_set = None"
proof -
  have "ri_id ` set (is_images example_set) = {1, 2}" by code_simp
  then show ?thesis
    using bind_live_entries_exact [OF example_reachable(1), of "[2, 1, 2]"]
      bind_live_entries_exact [OF example_reachable(1), of "[2, 5]"]
    by (auto split: option.splits)
qed

end
