(* ===== verification/Loading_Unit_Names.thy ===== *)
theory Loading_Unit_Names
  imports Runtime_Image_Set
begin

text \<open>
  The file names of deferred loading units (\<^verbatim>\<open>ParseDeferredLoadingUnitId\<close> of
  \<^verbatim>\<open>src/runtime/runtime_image_set.cpp\<close>): what the packagers write is what is parsed.
\<close>

section \<open>File names of loading units\<close>

lemma from_chars_decimal:
  assumes "n < 2 ^ 32"
  shows "from_chars_u32 (decimal n) = Some (of_nat n, [])"
  using assms decimal_digits [of n]
  by (simp add: from_chars_u32_def decimal_value_decimal takeWhile_eq_all_conv [THEN iffD2]
      dropWhile_eq_Nil_conv [THEN iffD2])

text \<open>The name a packager gives to a unit.\<close>

definition unit_name :: "string \<Rightarrow> nat \<Rightarrow> string" where
  "unit_name stem n = stem @ ''-'' @ decimal n @ ''.part.so''"

lemma parse_suffix:
  assumes "1 < n" and "n < 2 ^ 32"
  shows "ParseDeferredSuffix (stem @ ''-'') (unit_name stem n) = Some (of_nat n)"
proof -
  have s: "starts_with (stem @ ''-'') (unit_name stem n)" "ends_with ''.part.so'' (unit_name stem n)"
    by (simp_all add: starts_with_def ends_with_def unit_name_def)
  have d: "drop (length (stem @ ''-'')) (take (length (unit_name stem n) - length ''.part.so'') (unit_name stem n))
      = decimal n" "length (stem @ ''-'') < length (unit_name stem n) - length ''.part.so''"
    using decimal_digits(2) [of n] by (simp_all add: unit_name_def)
  have "\<not> (of_nat n :: u32) \<le> 1"
    using assms by (simp add: word_le_nat_alt unat_of_nat32)
  then show ?thesis
    unfolding ParseDeferredSuffix_def Let_def d(1) using s d(2)
    by (simp add: from_chars_decimal [OF assms(2)] not_le)
qed

lemma ends_with_split: "ends_with suffix s \<Longrightarrow> s = take (length s - length suffix) s @ suffix"
  unfolding ends_with_def by (metis append_take_drop_id)

lemma from_chars_all:
  assumes "from_chars_u32 d = Some (i, [])"
  shows "list_all is_digit d" "decimal_value d = unat i"
proof -
  have dw: "dropWhile is_digit d = []" and v: "decimal_value (takeWhile is_digit d) < 2 ^ 32"
    and i: "i = of_nat (decimal_value (takeWhile is_digit d))"
    using assms by (auto simp: from_chars_u32_def Let_def split: if_splits)
  have "takeWhile is_digit d = d" using dw by (metis append_Nil2 takeWhile_dropWhile_id)
  then show "decimal_value d = unat i" using v i unat_of_nat32 by metis
  show "list_all is_digit d" using dw by (simp add: list_all_iff dropWhile_eq_Nil_conv)
qed

lemma suffix_sound:
  assumes "ParseDeferredSuffix prefix candidate = Some i"
  shows "\<exists>digits. candidate = prefix @ digits @ ''.part.so'' \<and> digits \<noteq> [] \<and>
    list_all is_digit digits \<and> decimal_value digits = unat i \<and> 1 < i"
proof -
  let ?b = "length prefix" and ?e = "length candidate - length ''.part.so''"
  let ?d = "drop ?b (take ?e candidate)"
  have s: "starts_with prefix candidate" "ends_with ''.part.so'' candidate" and be: "?b < ?e"
    and f: "from_chars_u32 ?d = Some (i, [])" and i: "1 < i"
    using assms by (auto simp: ParseDeferredSuffix_def Let_def not_le split: if_splits option.splits)
  have c: "candidate = prefix @ drop ?b candidate"
    using s(1) append_take_drop_id [of ?b candidate] unfolding starts_with_def by simp
  have e: "candidate = take ?e candidate @ ''.part.so''"
    using s(2) by (rule ends_with_split)
  have "drop ?b (take ?e candidate @ ''.part.so'') = ?d @ ''.part.so''"
    using be by simp
  then have "drop ?b candidate = ?d @ ''.part.so''" using e by metis
  then have "candidate = prefix @ ?d @ ''.part.so''" using c by simp
  moreover have "?d \<noteq> []" using be by simp
  moreover have "list_all is_digit ?d" "decimal_value ?d = unat i" using from_chars_all [OF f] .
  ultimately show ?thesis using i by blast
qed

text \<open>
  The two names the packagers produce for a deferred unit parse back to its number,
  and only names of that form parse: a number found is the decimal number written between
  the root's name (or its stem) and the part suffix, and is never the root unit's.
\<close>

theorem deferred_unit_name_roundtrip:
  assumes "1 < n" and "n < 2 ^ 32" and "root \<noteq> []"
  shows "ParseDeferredLoadingUnitId root (unit_name root n) = Some (of_nat n) \<and>
    ParseDeferredLoadingUnitId (root @ ''.so'') (unit_name root n) = Some (of_nat n) \<and>
    (\<forall>candidate i. ParseDeferredLoadingUnitId root candidate = Some i \<longrightarrow>
      1 < i \<and> (\<exists>stem digits. (stem = root \<or> root = stem @ ''.so'') \<and>
        candidate = stem @ ''-'' @ digits @ ''.part.so'' \<and> list_all is_digit digits \<and>
        decimal_value digits = unat i))"
proof (intro conjI allI impI)
  have u: "unit_name root n \<noteq> []" "unit_name root n \<noteq> root" by (simp_all add: unit_name_def)
  show "ParseDeferredLoadingUnitId root (unit_name root n) = Some (of_nat n)"
    using u assms(3) by (simp add: ParseDeferredLoadingUnitId_def parse_suffix [OF assms(1,2)] not_sym)
  have "\<not> starts_with ((root @ ''.so'') @ ''-'') (unit_name root n)"
    by (simp add: starts_with_def unit_name_def)
  then have "ParseDeferredSuffix ((root @ ''.so'') @ ''-'') (unit_name root n) = None"
    by (simp add: ParseDeferredSuffix_def)
  moreover have "root @ ''.so'' \<noteq> unit_name root n" by (simp add: unit_name_def)
  ultimately show "ParseDeferredLoadingUnitId (root @ ''.so'') (unit_name root n) = Some (of_nat n)"
    using u parse_suffix [OF assms(1,2), of root]
    by (simp add: ParseDeferredLoadingUnitId_def ends_with_def)
next
  fix candidate i
  assume p: "ParseDeferredLoadingUnitId root candidate = Some i"
  obtain stem where stem: "stem = root \<or> root = stem @ ''.so''"
    and sfx: "ParseDeferredSuffix (stem @ ''-'') candidate = Some i"
  proof (cases "ParseDeferredSuffix (root @ ''-'') candidate")
    case None
    then have e: "ends_with ''.so'' root" and
      "ParseDeferredSuffix (take (length root - 3) root @ ''-'') candidate = Some i"
      using p by (auto simp: ParseDeferredLoadingUnitId_def split: if_splits)
    moreover have "root = take (length root - 3) root @ ''.so''"
      using ends_with_split [OF e] by (simp add: eval_nat_numeral)
    ultimately show ?thesis using that by blast
  next
    case (Some j)
    then show ?thesis using p that by (auto simp: ParseDeferredLoadingUnitId_def split: if_splits)
  qed
  show "1 < i" "\<exists>stem digits. (stem = root \<or> root = stem @ ''.so'') \<and>
        candidate = stem @ ''-'' @ digits @ ''.part.so'' \<and> list_all is_digit digits \<and>
        decimal_value digits = unat i"
    using suffix_sound [OF sfx] stem by auto
qed

theorem deferred_unit_name_roundtrip_witness:
  "ParseDeferredLoadingUnitId ''libapp.so'' ''libapp-12.part.so'' = Some 12"
proof -
  have "unit_name ''libapp'' 12 = ''libapp-12.part.so''" by code_simp
  then show ?thesis using deferred_unit_name_roundtrip [of 12 "''libapp''"] by simp
qed

end
