(* ===== verification/Metadata.thy ===== *)
theory Metadata
  imports Decimal_Text
begin

text \<open>
  The JSON reader of method metadata (\<^verbatim>\<open>src/metadata/metadata.cpp\<close>). The parser's position in
  its input is the text still to be read; where the C++ code looks back at the previous
  character, that character is an argument. A failing step is \<open>None\<close>; the error message it
  writes is not kept.
\<close>

section \<open>Data\<close>

text \<open>The two enumerations are read as plain numbers and stored in the width of the enum.\<close>

record method_record =
  mr_library_uri :: string
  mr_class_name :: string
  mr_function_name :: string
  mr_signature :: string
  mr_entry_kind :: u32
  mr_address_kind :: u32
  mr_section_va :: u64
  mr_address :: u64
  mr_code_size :: u32
  mr_fingerprint :: string

definition method_record_0 :: method_record where
  "method_record_0 = \<lparr>mr_library_uri = [], mr_class_name = [], mr_function_name = [],
     mr_signature = [], mr_entry_kind = 0, mr_address_kind = 1, mr_section_va = 0,
     mr_address = 0, mr_code_size = 0, mr_fingerprint = []\<rparr>"

record metadata_index =
  md_format :: u32
  md_module_name :: string
  md_build_id :: string
  md_snapshot_hash :: string
  md_methods :: "method_record list"

definition metadata_index_0 :: metadata_index where
  "metadata_index_0 = \<lparr>md_format = 0, md_module_name = [], md_build_id = [],
     md_snapshot_hash = [], md_methods = []\<rparr>"

section \<open>Tokens\<close>

definition is_space :: "char \<Rightarrow> bool" where
  "is_space c \<longleftrightarrow> c = CHR 0x20 \<or> c = CHR 0x09 \<or> c = CHR 0x0A \<or> c = CHR 0x0B \<or> c = CHR 0x0C \<or>
     c = CHR 0x0D"

definition SkipWhitespace :: "string \<Rightarrow> string" where
  "SkipWhitespace s = dropWhile is_space s"

definition Consume :: "char \<Rightarrow> string \<Rightarrow> string option" where
  "Consume expected s =
     (case SkipWhitespace s of
        [] \<Rightarrow> None
      | c # cs \<Rightarrow> if c \<noteq> expected then None else Some cs)"

definition quote_char :: char where "quote_char = CHR 0x22"
definition backslash :: char where "backslash = CHR 0x5C"

definition unescape :: "char \<Rightarrow> char option" where
  "unescape c =
     (if c = quote_char \<or> c = backslash \<or> c = CHR ''/'' then Some c
      else if c = CHR ''b'' then Some (CHR 0x08)
      else if c = CHR ''f'' then Some (CHR 0x0C)
      else if c = CHR ''n'' then Some (CHR 0x0A)
      else if c = CHR ''r'' then Some (CHR 0x0D)
      else if c = CHR ''t'' then Some (CHR 0x09)
      else None)"

fun string_body :: "string \<Rightarrow> (string \<times> string) option" where
  "string_body [] = None"
| "string_body (c # cs) =
     (if c = quote_char then Some ([], cs)
      else if c = backslash then
        (case cs of
           [] \<Rightarrow> None
         | e # es \<Rightarrow>
             (case unescape e of
                None \<Rightarrow> None
              | Some u \<Rightarrow> map_option (\<lambda>(v, r). (u # v, r)) (string_body es)))
      else map_option (\<lambda>(v, r). (c # v, r)) (string_body cs))"

definition ParseString :: "string \<Rightarrow> (string \<times> string) option" where
  "ParseString s =
     (case Consume quote_char s of None \<Rightarrow> None | Some r \<Rightarrow> string_body r)"

text \<open>The C library's \<open>strtoull\<close>: values out of range become the largest number.\<close>

definition saturate64 :: "nat \<Rightarrow> u64" where
  "saturate64 n = (if n < 2 ^ 64 then of_nat n else 0xffffffffffffffff)"

definition ParseUnsigned :: "string \<Rightarrow> (u64 \<times> string) option" where
  "ParseUnsigned s =
     (let t = SkipWhitespace s; digits = takeWhile is_digit t in
      if digits = [] then None
      else Some (saturate64 (decimal_value digits), dropWhile is_digit t))"

definition hex_value :: "char \<Rightarrow> nat option" where
  "hex_value c =
     (if is_digit c then Some (digit_value c)
      else if CHR ''a'' \<le> c \<and> c \<le> CHR ''f'' then Some (of_char c - 87)
      else if CHR ''A'' \<le> c \<and> c \<le> CHR ''F'' then Some (of_char c - 55)
      else None)"

definition digit_in :: "nat \<Rightarrow> char \<Rightarrow> bool" where
  "digit_in base c \<longleftrightarrow> (case hex_value c of None \<Rightarrow> False | Some d \<Rightarrow> d < base)"

definition base_value :: "nat \<Rightarrow> string \<Rightarrow> nat" where
  "base_value base = foldl (\<lambda>n c. base * n + the (hex_value c)) 0"

text \<open>\<open>strtoull\<close> with base 0 on a whole token: an optional sign and prefix, then digits to the end.\<close>

definition strtoull0 :: "string \<Rightarrow> u64 option" where
  "strtoull0 token =
     (let t = SkipWhitespace token;
          negative = (t \<noteq> [] \<and> hd t = CHR ''-'');
          u = (if t \<noteq> [] \<and> (hd t = CHR ''-'' \<or> hd t = CHR ''+'') then tl t else t);
          hex = (length u > 2 \<and> u ! 0 = CHR ''0'' \<and> (u ! 1 = CHR ''x'' \<or> u ! 1 = CHR ''X'') \<and>
                 digit_in 16 (u ! 2));
          base = (if hex then 16 else if u \<noteq> [] \<and> hd u = CHR ''0'' then 8 else 10);
          digits = (if hex then drop 2 u else u)
      in if digits = [] \<or> \<not> list_all (digit_in base) digits then None
         else
           let v = base_value base digits in
           if v \<ge> 2 ^ 64 then Some 0xffffffffffffffff
           else Some (if negative then - of_nat v else of_nat v))"

definition ParseAddress :: "string \<Rightarrow> (u64 \<times> string) option" where
  "ParseAddress s =
     (let t = SkipWhitespace s in
      if t \<noteq> [] \<and> hd t = quote_char then
        (case ParseString t of
           None \<Rightarrow> None
         | Some (token, r) \<Rightarrow>
             if token = [] then None
             else case strtoull0 token of None \<Rightarrow> None | Some v \<Rightarrow> Some (v, r))
      else ParseUnsigned t)"

section \<open>Skipping values\<close>

text \<open>The object loop takes a quote for a string delimiter unless a backslash precedes it.\<close>

fun skip_object :: "char \<Rightarrow> nat \<Rightarrow> bool \<Rightarrow> string \<Rightarrow> string option" where
  "skip_object prev depth quoted [] = (if depth = 0 then Some [] else None)"
| "skip_object prev depth quoted (c # cs) =
     (if depth = 0 then Some (c # cs)
      else if c = quote_char \<and> prev \<noteq> backslash then skip_object c depth (\<not> quoted) cs
      else if \<not> quoted \<and> c = CHR ''{'' then skip_object c (depth + 1) quoted cs
      else if \<not> quoted \<and> c = CHR ''}'' then skip_object c (depth - 1) quoted cs
      else skip_object c depth quoted cs)"

fun skip_array :: "nat \<Rightarrow> string \<Rightarrow> string option" where
  "skip_array depth [] = (if depth = 0 then Some [] else None)"
| "skip_array depth (c # cs) =
     (if depth = 0 then Some (c # cs)
      else if c = CHR ''['' then skip_array (depth + 1) cs
      else if c = CHR '']'' then skip_array (depth - 1) cs
      else skip_array depth cs)"

definition SkipValue :: "string \<Rightarrow> string option" where
  "SkipValue s =
     (case SkipWhitespace s of
        [] \<Rightarrow> None
      | c # cs \<Rightarrow>
          if c = quote_char then map_option snd (ParseString (c # cs))
          else if c = CHR ''{'' then skip_object c 1 False cs
          else if c = CHR ''['' then skip_array 1 cs
          else Some (dropWhile (\<lambda>d. d \<noteq> CHR '','' \<and> d \<noteq> CHR ''}'') (c # cs)))"

section \<open>Consumption\<close>

lemma SkipWhitespace_length: "length (SkipWhitespace s) \<le> length s"
  by (simp add: SkipWhitespace_def length_dropWhile_le)

lemma Consume_shorter: "Consume c s = Some r \<Longrightarrow> length r < length s"
  using SkipWhitespace_length [of s] by (auto simp: Consume_def split: list.splits if_splits)

lemma string_body_shorter: "string_body s = Some (v, r) \<Longrightarrow> length r < length s"
  by (induction s arbitrary: v r rule: string_body.induct)
    (fastforce split: if_splits list.splits option.splits)+

lemma ParseString_shorter: "ParseString s = Some (v, r) \<Longrightarrow> length r < length s"
  by (auto simp: ParseString_def split: option.splits dest!: Consume_shorter string_body_shorter)

lemma ParseUnsigned_shorter: "ParseUnsigned s = Some (v, r) \<Longrightarrow> length r \<le> length s"
proof -
  assume "ParseUnsigned s = Some (v, r)"
  then have "r = dropWhile is_digit (SkipWhitespace s)" by (auto simp: ParseUnsigned_def Let_def split: if_splits)
  then show ?thesis
    using length_dropWhile_le [of is_digit "SkipWhitespace s"] SkipWhitespace_length [of s] by simp
qed

lemma ParseAddress_shorter: "ParseAddress s = Some (v, r) \<Longrightarrow> length r \<le> length s"
  using SkipWhitespace_length [of s]
  by (auto simp: ParseAddress_def Let_def split: if_splits option.splits
      dest!: ParseString_shorter ParseUnsigned_shorter)

lemma skip_object_shorter: "skip_object p d q s = Some r \<Longrightarrow> length r \<le> length s"
  by (induction p d q s rule: skip_object.induct) (auto split: if_splits intro: le_SucI)

lemma skip_array_shorter: "skip_array d s = Some r \<Longrightarrow> length r \<le> length s"
  by (induction d s rule: skip_array.induct) (auto split: if_splits intro: le_SucI)

lemma SkipValue_shorter:
  assumes "SkipValue s = Some r"
  shows "length r \<le> length s"
proof (cases "SkipWhitespace s")
  case Nil
  then show ?thesis using assms by (simp add: SkipValue_def)
next
  case (Cons c cs)
  have le: "length cs < length s" using SkipWhitespace_length [of s] Cons by simp
  have dw: "length (dropWhile (\<lambda>d. d \<noteq> CHR '','' \<and> d \<noteq> CHR ''}'') (c # cs)) \<le> length (c # cs)"
    by (rule length_dropWhile_le)
  consider "c = quote_char" | "c = CHR ''{''" "c \<noteq> quote_char"
    | "c = CHR ''[''" "c \<noteq> quote_char" "c \<noteq> CHR ''{''"
    | "c \<noteq> CHR ''[''" "c \<noteq> quote_char" "c \<noteq> CHR ''{''" by blast
  then show ?thesis
  proof cases
    case 1
    then obtain v where "ParseString (c # cs) = Some (v, r)" using assms Cons by (auto simp: SkipValue_def)
    then show ?thesis using ParseString_shorter le by fastforce
  next
    case 2
    then have "skip_object c 1 False cs = Some r" using assms Cons by (simp add: SkipValue_def)
    then show ?thesis using skip_object_shorter le by fastforce
  next
    case 3
    then have "skip_array 1 cs = Some r" using assms Cons by (simp add: SkipValue_def)
    then show ?thesis using skip_array_shorter le by fastforce
  next
    case 4
    then have "r = dropWhile (\<lambda>d. d \<noteq> CHR '','' \<and> d \<noteq> CHR ''}'') (c # cs)"
      using assms Cons by (auto simp: SkipValue_def)
    then show ?thesis using dw le by simp
  qed
qed

lemmas shorter = Consume_shorter ParseString_shorter ParseUnsigned_shorter ParseAddress_shorter
  SkipValue_shorter

section \<open>Objects\<close>

text \<open>One member of a method object, after its key and the colon.\<close>

definition method_string_key :: "string \<Rightarrow> bool" where
  "method_string_key key \<longleftrightarrow> key = ''library_uri'' \<or> key = ''class'' \<or> key = ''name'' \<or>
     key = ''signature'' \<or> key = ''fingerprint''"

definition set_method_string :: "string \<Rightarrow> string \<Rightarrow> method_record \<Rightarrow> method_record" where
  "set_method_string key v m =
     (if key = ''library_uri'' then m\<lparr>mr_library_uri := v\<rparr>
      else if key = ''class'' then m\<lparr>mr_class_name := v\<rparr>
      else if key = ''name'' then m\<lparr>mr_function_name := v\<rparr>
      else if key = ''signature'' then m\<lparr>mr_signature := v\<rparr>
      else if key = ''fingerprint'' then m\<lparr>mr_fingerprint := v\<rparr>
      else m)"

definition method_number_key :: "string \<Rightarrow> bool" where
  "method_number_key key \<longleftrightarrow> key = ''code_offset'' \<or> key = ''code_size'' \<or> key = ''entry_kind'' \<or>
     key = ''address_kind'' \<or> key = ''code_section_va''"

definition set_method_number :: "string \<Rightarrow> u64 \<Rightarrow> method_record \<Rightarrow> method_record" where
  "set_method_number key v m =
     (if key = ''code_offset'' then m\<lparr>mr_address := v\<rparr>
      else if key = ''code_section_va'' then m\<lparr>mr_section_va := v\<rparr>
      else if key = ''code_size'' then m\<lparr>mr_code_size := ucast v\<rparr>
      else if key = ''entry_kind'' then m\<lparr>mr_entry_kind := ucast v\<rparr>
      else if key = ''address_kind'' then m\<lparr>mr_address_kind := ucast v\<rparr>
      else m)"

definition method_member :: "string \<Rightarrow> string \<Rightarrow> method_record \<Rightarrow> (method_record \<times> string) option" where
  "method_member key s m =
     (if method_string_key key then
        (case ParseString s of
           None \<Rightarrow> None
         | Some (v, r) \<Rightarrow> Some (set_method_string key v m, r))
      else if method_number_key key then
        (case (if key = ''code_offset'' then ParseAddress s else ParseUnsigned s) of
           None \<Rightarrow> None
         | Some (v, r) \<Rightarrow> Some (set_method_number key v m, r))
      else map_option (\<lambda>r. (m, r)) (SkipValue s))"

lemma method_member_shorter: "method_member key s m = Some (m', r) \<Longrightarrow> length r \<le> length s"
  unfolding method_member_def
  by (cases "key = ''code_offset''"; simp only: if_True if_False simp_thms)
    (auto split: if_splits option.splits dest: shorter less_imp_le)

function (sequential) method_loop :: "string \<Rightarrow> method_record \<Rightarrow> (method_record \<times> string) option" where
  "method_loop s m =
     (case ParseString s of
        None \<Rightarrow> None
      | Some (key, r1) \<Rightarrow>
          (case Consume (CHR '':'') r1 of
             None \<Rightarrow> None
           | Some r2 \<Rightarrow>
               (case method_member key r2 m of
                  None \<Rightarrow> None
                | Some (m', r3) \<Rightarrow>
                    (case Consume (CHR ''}'') r3 of
                       Some r4 \<Rightarrow> Some (m', r4)
                     | None \<Rightarrow>
                         (case Consume (CHR '','') r3 of
                            None \<Rightarrow> None
                          | Some r4 \<Rightarrow> method_loop r4 m')))))"
  by pat_completeness auto
termination
  by (relation "measure (length \<circ> fst)") (auto dest!: shorter method_member_shorter)

declare method_loop.simps [simp del]

lemma method_loop_shorter: "method_loop s m = Some (m', r) \<Longrightarrow> length r < length s"
proof (induction "length s" arbitrary: s m rule: less_induct)
  case less
  have IH: "length t < length s \<Longrightarrow> method_loop t z = Some (m', r) \<Longrightarrow> length r < length s" for t z
    using less.hyps [of t z] by simp
  show ?case
    using less.prems unfolding method_loop.simps [of s m]
    by (auto split: option.splits prod.splits if_splits dest!: shorter method_member_shorter intro: IH [rotated])
qed

function (sequential) methods_loop :: "string \<Rightarrow> method_record list \<Rightarrow>
    (method_record list \<times> string) option" where
  "methods_loop s methods =
     (case Consume (CHR ''{'') s of
        None \<Rightarrow> None
      | Some r1 \<Rightarrow>
          (case method_loop r1 method_record_0 of
             None \<Rightarrow> None
           | Some (m, r2) \<Rightarrow>
               if mr_library_uri m = [] \<or> mr_function_name m = [] then None
               else
                 (case Consume (CHR '']'') r2 of
                    Some r3 \<Rightarrow> Some (methods @ [m], r3)
                  | None \<Rightarrow>
                      (case Consume (CHR '','') r2 of
                         None \<Rightarrow> None
                       | Some r3 \<Rightarrow> methods_loop r3 (methods @ [m])))))"
  by pat_completeness auto
termination
  by (relation "measure (length \<circ> fst)") (auto dest!: Consume_shorter method_loop_shorter)

declare methods_loop.simps [simp del]

lemma methods_loop_shorter: "methods_loop s ms = Some (ms', r) \<Longrightarrow> length r < length s"
proof (induction "length s" arbitrary: s ms rule: less_induct)
  case less
  have IH: "length t < length s \<Longrightarrow> methods_loop t z = Some (ms', r) \<Longrightarrow> length r < length s" for t z
    using less.hyps [of t z] by simp
  show ?case
    using less.prems unfolding methods_loop.simps [of s ms]
    by (auto split: option.splits prod.splits if_splits dest!: Consume_shorter method_loop_shorter intro: IH [rotated])
qed

definition ParseMethods :: "string \<Rightarrow> metadata_index \<Rightarrow> (metadata_index \<times> string) option" where
  "ParseMethods s idx =
     (case Consume (CHR ''['') s of
        None \<Rightarrow> None
      | Some r \<Rightarrow>
          (case Consume (CHR '']'') r of
             Some r' \<Rightarrow> Some (idx, r')
           | None \<Rightarrow>
               map_option (\<lambda>(ms, r'). (idx\<lparr>md_methods := ms\<rparr>, r')) (methods_loop r (md_methods idx))))"

definition module_member :: "string \<Rightarrow> string \<Rightarrow> metadata_index \<Rightarrow> (metadata_index \<times> string) option" where
  "module_member key s idx =
     (if key = ''soname'' then
        map_option (\<lambda>(v, r). (idx\<lparr>md_module_name := v\<rparr>, r)) (ParseString s)
      else if key = ''build_id'' then
        map_option (\<lambda>(v, r). (idx\<lparr>md_build_id := v\<rparr>, r)) (ParseString s)
      else map_option (\<lambda>r. (idx, r)) (SkipValue s))"

lemma module_member_shorter: "module_member key s m = Some (m', r) \<Longrightarrow> length r \<le> length s"
  unfolding module_member_def by (auto split: if_splits dest: shorter)

function (sequential) module_loop :: "string \<Rightarrow> metadata_index \<Rightarrow> (metadata_index \<times> string) option" where
  "module_loop s idx =
     (case ParseString s of
        None \<Rightarrow> None
      | Some (key, r1) \<Rightarrow>
          (case Consume (CHR '':'') r1 of
             None \<Rightarrow> None
           | Some r2 \<Rightarrow>
               (case module_member key r2 idx of
                  None \<Rightarrow> None
                | Some (idx', r3) \<Rightarrow>
                    (case Consume (CHR ''}'') r3 of
                       Some r4 \<Rightarrow> Some (idx', r4)
                     | None \<Rightarrow>
                         (case Consume (CHR '','') r3 of
                            None \<Rightarrow> None
                          | Some r4 \<Rightarrow> module_loop r4 idx')))))"
  by pat_completeness auto
termination
  by (relation "measure (length \<circ> fst)") (auto dest!: shorter module_member_shorter)

declare module_loop.simps [simp del]

lemma module_loop_shorter: "module_loop s idx = Some (idx', r) \<Longrightarrow> length r < length s"
proof (induction "length s" arbitrary: s idx rule: less_induct)
  case less
  have IH: "length t < length s \<Longrightarrow> module_loop t z = Some (idx', r) \<Longrightarrow> length r < length s" for t z
    using less.hyps [of t z] by simp
  show ?case
    using less.prems unfolding module_loop.simps [of s idx]
    by (auto split: option.splits prod.splits if_splits dest!: shorter module_member_shorter intro: IH [rotated])
qed

definition ParseModule :: "string \<Rightarrow> metadata_index \<Rightarrow> (metadata_index \<times> string) option" where
  "ParseModule s idx =
     (case Consume (CHR ''{'') s of None \<Rightarrow> None | Some r \<Rightarrow> module_loop r idx)"

definition root_member :: "string \<Rightarrow> string \<Rightarrow> metadata_index \<Rightarrow> (metadata_index \<times> string) option" where
  "root_member key s idx =
     (if key = ''format'' then
        map_option (\<lambda>(v, r). (idx\<lparr>md_format := ucast v\<rparr>, r)) (ParseUnsigned s)
      else if key = ''snapshot_hash'' then
        map_option (\<lambda>(v, r). (idx\<lparr>md_snapshot_hash := v\<rparr>, r)) (ParseString s)
      else if key = ''module'' then ParseModule s idx
      else if key = ''methods'' then ParseMethods s idx
      else map_option (\<lambda>r. (idx, r)) (SkipValue s))"

lemma root_member_shorter: "root_member key s m = Some (m', r) \<Longrightarrow> length r \<le> length s"
  unfolding root_member_def ParseModule_def ParseMethods_def
  by (auto split: if_splits option.splits
      dest!: shorter module_loop_shorter methods_loop_shorter)

function (sequential) root_loop :: "string \<Rightarrow> metadata_index \<Rightarrow> (metadata_index \<times> string) option" where
  "root_loop s idx =
     (case Consume (CHR ''}'') s of
        Some r \<Rightarrow> Some (idx, r)
      | None \<Rightarrow>
          (case ParseString s of
             None \<Rightarrow> None
           | Some (key, r1) \<Rightarrow>
               (case Consume (CHR '':'') r1 of
                  None \<Rightarrow> None
                | Some r2 \<Rightarrow>
                    (case root_member key r2 idx of
                       None \<Rightarrow> None
                     | Some (idx', r3) \<Rightarrow>
                         (case Consume (CHR ''}'') r3 of
                            Some r4 \<Rightarrow> Some (idx', r4)
                          | None \<Rightarrow>
                              (case Consume (CHR '','') r3 of
                                 None \<Rightarrow> None
                               | Some r4 \<Rightarrow> root_loop r4 idx'))))))"
  by pat_completeness auto
termination
  by (relation "measure (length \<circ> fst)") (auto dest!: shorter root_member_shorter)

declare root_loop.simps [simp del]

definition Parse :: "string \<Rightarrow> metadata_index option" where
  "Parse s =
     (case Consume (CHR ''{'') s of
        None \<Rightarrow> None
      | Some r \<Rightarrow>
          (case root_loop r metadata_index_0 of
             None \<Rightarrow> None
           | Some (idx, r') \<Rightarrow>
               if SkipWhitespace r' \<noteq> [] then None
               else if md_format idx \<noteq> 1 \<or> md_module_name idx = [] \<or> md_methods idx = [] then None
               else Some idx))"

definition ParseMetadata :: "string nullable \<Rightarrow> metadata_index option" where
  "ParseMetadata json = (case json of None \<Rightarrow> None | Some s \<Rightarrow> Parse s)"

end
