(* ===== verification/Metadata_Props.thy ===== *)
theory Metadata_Props
  imports Metadata
begin

text \<open>
  What the metadata reader guarantees: a printed index is read back unchanged, whatever
  its strings contain, and what it accepts has the members the program relies on.
\<close>

named_theorems json_simps \<open>the reader's steps on printed text\<close>

section \<open>A printer\<close>

definition escape :: "string \<Rightarrow> string" where
  "escape v = concat (map (\<lambda>c. if c = quote_char \<or> c = backslash then [backslash, c] else [c]) v)"

definition quote_text :: "string \<Rightarrow> string" where
  "quote_text v = quote_char # escape v @ [quote_char]"

definition number_text :: "'a::len word \<Rightarrow> string" where
  "number_text n = decimal (unat n)"

fun commas :: "string list \<Rightarrow> string" where
  "commas [] = []"
| "commas [x] = x"
| "commas (x # xs) = x @ '','' @ commas xs"

definition member_text :: "string \<Rightarrow> string \<Rightarrow> string" where
  "member_text key val = quote_text key @ '':'' @ val"

definition method_text :: "method_record \<Rightarrow> string" where
  "method_text m = ''{'' @ commas
     [member_text ''library_uri'' (quote_text (mr_library_uri m)),
      member_text ''class'' (quote_text (mr_class_name m)),
      member_text ''name'' (quote_text (mr_function_name m)),
      member_text ''signature'' (quote_text (mr_signature m)),
      member_text ''entry_kind'' (number_text (mr_entry_kind m)),
      member_text ''address_kind'' (number_text (mr_address_kind m)),
      member_text ''code_section_va'' (number_text (mr_section_va m)),
      member_text ''code_offset'' (number_text (mr_address m)),
      member_text ''code_size'' (number_text (mr_code_size m)),
      member_text ''fingerprint'' (quote_text (mr_fingerprint m))] @ ''}''"

definition metadata_text :: "metadata_index \<Rightarrow> string" where
  "metadata_text idx = ''{'' @ commas
     [member_text ''format'' (number_text (md_format idx)),
      member_text ''snapshot_hash'' (quote_text (md_snapshot_hash idx)),
      member_text ''module'' (''{'' @ commas
        [member_text ''soname'' (quote_text (md_module_name idx)),
         member_text ''build_id'' (quote_text (md_build_id idx))] @ ''}''),
      member_text ''methods'' (''['' @ commas (map method_text (md_methods idx)) @ '']'')] @ ''}''"

section \<open>Tokens\<close>

lemma skip_nonspace [json_simps]: "\<not> is_space c \<Longrightarrow> SkipWhitespace (c # s) = c # s"
  by (simp add: SkipWhitespace_def)

lemma Consume_nonspace [json_simps]:
  "\<not> is_space c \<Longrightarrow> Consume d (c # s) = (if c = d then Some s else None)"
  by (simp add: Consume_def skip_nonspace)

lemma not_space [simp, json_simps]:
  "\<not> is_space quote_char" "\<not> is_space (CHR ''{'')" "\<not> is_space (CHR ''}'')" "\<not> is_space (CHR '':'')"
  "\<not> is_space (CHR '','')" "\<not> is_space (CHR ''['')" "\<not> is_space (CHR '']'')"
  by (simp_all add: is_space_def quote_char_def)

lemma quote_differs [simp, json_simps]:
  "quote_char \<noteq> CHR ''{''" "quote_char \<noteq> CHR ''}''" "quote_char \<noteq> CHR ''[''" "quote_char \<noteq> CHR '']''"
  "quote_char \<noteq> CHR '':''" "quote_char \<noteq> CHR '',''" "quote_char \<noteq> backslash"
  by (simp_all add: quote_char_def backslash_def)

lemma string_body_escape: "string_body (escape v @ quote_char # r) = Some (v, r)"
proof (induction v)
  case Nil
  then show ?case by (simp add: escape_def)
next
  case (Cons c v)
  have e: "escape (c # v) = (if c = quote_char \<or> c = backslash then [backslash, c] else [c]) @ escape v"
    by (simp add: escape_def)
  show ?case
    using Cons.IH not_sym [OF quote_differs(7)] unfolding e by (auto simp: unescape_def)
qed

lemma ParseString_quote [json_simps]: "ParseString (quote_text v @ r) = Some (v, r)"
  using string_body_escape [of v r] by (simp add: ParseString_def quote_text_def json_simps)

lemma digit_not_space: "is_digit c \<Longrightarrow> \<not> is_space c \<and> c \<noteq> quote_char"
proof -
  assume "is_digit c"
  then have "(48 :: nat) \<le> of_char c" "of_char c \<le> (57 :: nat)"
    by (simp_all add: is_digit_def less_eq_char_def)
  then show ?thesis by (auto simp: is_space_def quote_char_def)
qed

lemma decimal_head:
  obtains d ds where "decimal n = d # ds" "is_digit d" "\<not> is_space d" "d \<noteq> quote_char"
  using decimal_digits [of n] digit_not_space by (cases "decimal n") auto

lemma ParseUnsigned_decimal:
  assumes "n < 2 ^ 64" and "\<not> is_digit c"
  shows "ParseUnsigned (decimal n @ c # r) = Some (of_nat n, c # r)"
    and "ParseAddress (decimal n @ c # r) = Some (of_nat n, c # r)"
proof -
  obtain d ds where d: "decimal n = d # ds" "is_digit d" "\<not> is_space d" "d \<noteq> quote_char"
    by (rule decimal_head)
  have s: "SkipWhitespace (decimal n @ c # r) = decimal n @ c # r"
    using d by (simp add: skip_nonspace)
  have t: "takeWhile is_digit (decimal n @ c # r) = decimal n" "dropWhile is_digit (decimal n @ c # r) = c # r"
    using decimal_digits(1) [of n] assms(2) by (simp_all add: takeWhile_append dropWhile_append)
  show u: "ParseUnsigned (decimal n @ c # r) = Some (of_nat n, c # r)"
    unfolding ParseUnsigned_def Let_def s t
    using decimal_digits(2) [of n] assms(1) by (simp add: decimal_value_decimal saturate64_def)
  show "ParseAddress (decimal n @ c # r) = Some (of_nat n, c # r)"
    unfolding ParseAddress_def Let_def s using u d by simp
qed

lemma separator_not_digit [simp]: "\<not> is_digit (CHR '','')" "\<not> is_digit (CHR ''}'')"
  by (simp_all add: is_digit_def less_eq_char_def)

lemma number_64 [json_simps]:
  "\<not> is_digit c \<Longrightarrow> ParseUnsigned (number_text (v :: u64) @ c # r) = Some (v, c # r)"
  "\<not> is_digit c \<Longrightarrow> ParseAddress (number_text (v :: u64) @ c # r) = Some (v, c # r)"
  using ParseUnsigned_decimal [of "unat v" c r] unat_bound [of v] by (simp_all add: number_text_def)

lemma number_32 [json_simps]:
  "\<not> is_digit c \<Longrightarrow> ParseUnsigned (number_text (v :: u32) @ c # r) = Some (ucast v, c # r)"
proof -
  have "(of_nat (unat v) :: u64) = ucast v" by (simp add: word_unat_eq_iff unat_of_nat64)
  moreover have "unat v < 2 ^ 64" using unat_bound [of v] by simp
  ultimately show "\<not> is_digit c \<Longrightarrow> ParseUnsigned (number_text v @ c # r) = Some (ucast v, c # r)"
    using ParseUnsigned_decimal(1) [of "unat v" c r] by (simp add: number_text_def)
qed

lemma narrow_wide [simp]: "ucast (ucast (v :: u32) :: u64) = v"
  by (rule bit_word_eqI) (auto simp: bit_simps dest: bit_imp_le_length)

section \<open>Objects\<close>

text \<open>A printed member with an effect on the value being built.\<close>

type_synonym 'a json_field = "string \<times> string \<times> ('a \<Rightarrow> 'a)"

definition field_ok :: "(string \<Rightarrow> string \<Rightarrow> 'a \<Rightarrow> ('a \<times> string) option) \<Rightarrow> 'a json_field \<Rightarrow> bool" where
  "field_ok member f \<longleftrightarrow> (\<forall>x c r. c = CHR '','' \<or> c = CHR ''}'' \<longrightarrow>
     member (fst f) (fst (snd f) @ c # r) x = Some (snd (snd f) x, c # r))"

definition fields_text :: "'a json_field list \<Rightarrow> string" where
  "fields_text fs = commas (map (\<lambda>f. member_text (fst f) (fst (snd f))) fs)"

definition apply_fields :: "'a json_field list \<Rightarrow> 'a \<Rightarrow> 'a" where
  "apply_fields fs x = fold (\<lambda>f. snd (snd f)) fs x"

lemma member_text_append: "member_text k v @ r = quote_text k @ CHR '':'' # v @ r"
  by (simp add: member_text_def)

lemma fields_text_Cons:
  "fields_text [f] = member_text (fst f) (fst (snd f))"
  "fields_text (f # g # fs) = member_text (fst f) (fst (snd f)) @ CHR '','' # fields_text (g # fs)"
  by (simp_all add: fields_text_def)

lemma apply_fields_Cons [simp]:
  "apply_fields [] x = x" "apply_fields (f # fs) x = apply_fields fs (snd (snd f) x)"
  by (simp_all add: apply_fields_def)

lemma field_okD:
  "field_ok member f \<Longrightarrow> member (fst f) (fst (snd f) @ CHR '','' # r) x = Some (snd (snd f) x, CHR '','' # r)"
  "field_ok member f \<Longrightarrow> member (fst f) (fst (snd f) @ CHR ''}'' # r) x = Some (snd (snd f) x, CHR ''}'' # r)"
  by (simp_all add: field_ok_def)

lemma method_loop_fields:
  "fs \<noteq> [] \<Longrightarrow> \<forall>f \<in> set fs. field_ok method_member f \<Longrightarrow>
   method_loop (fields_text fs @ CHR ''}'' # r) m = Some (apply_fields fs m, r)"
proof (induction fs arbitrary: m)
  case (Cons f fs)
  then show ?case
    by (cases fs; subst method_loop.simps)
      (simp_all add: fields_text_Cons member_text_append json_simps field_okD)
qed simp

lemma module_loop_fields:
  "fs \<noteq> [] \<Longrightarrow> \<forall>f \<in> set fs. field_ok module_member f \<Longrightarrow>
   module_loop (fields_text fs @ CHR ''}'' # r) m = Some (apply_fields fs m, r)"
proof (induction fs arbitrary: m)
  case (Cons f fs)
  then show ?case
    by (cases fs; subst module_loop.simps)
      (simp_all add: fields_text_Cons member_text_append json_simps field_okD)
qed simp

lemma Consume_brace_quote: "Consume (CHR ''}'') (quote_text k @ r) = None"
  by (simp add: quote_text_def json_simps)

lemma root_loop_fields:
  "fs \<noteq> [] \<Longrightarrow> \<forall>f \<in> set fs. field_ok root_member f \<Longrightarrow>
   root_loop (fields_text fs @ CHR ''}'' # r) m = Some (apply_fields fs m, r)"
proof (induction fs arbitrary: m)
  case (Cons f fs)
  then show ?case
    by (cases fs; subst root_loop.simps)
      (simp_all add: fields_text_Cons member_text_append Consume_brace_quote json_simps field_okD)
qed simp

section \<open>The round trip\<close>

lemma field_okI:
  assumes "\<And>x r. member k (v @ CHR '','' # r) x = Some (eff x, CHR '','' # r)"
    and "\<And>x r. member k (v @ CHR ''}'' # r) x = Some (eff x, CHR ''}'' # r)"
  shows "field_ok member (k, v, eff)"
  using assms by (auto simp: field_ok_def)

definition method_fields :: "method_record \<Rightarrow> method_record json_field list" where
  "method_fields m =
     [(''library_uri'', quote_text (mr_library_uri m), \<lambda>x. x\<lparr>mr_library_uri := mr_library_uri m\<rparr>),
      (''class'', quote_text (mr_class_name m), \<lambda>x. x\<lparr>mr_class_name := mr_class_name m\<rparr>),
      (''name'', quote_text (mr_function_name m), \<lambda>x. x\<lparr>mr_function_name := mr_function_name m\<rparr>),
      (''signature'', quote_text (mr_signature m), \<lambda>x. x\<lparr>mr_signature := mr_signature m\<rparr>),
      (''entry_kind'', number_text (mr_entry_kind m), \<lambda>x. x\<lparr>mr_entry_kind := mr_entry_kind m\<rparr>),
      (''address_kind'', number_text (mr_address_kind m), \<lambda>x. x\<lparr>mr_address_kind := mr_address_kind m\<rparr>),
      (''code_section_va'', number_text (mr_section_va m), \<lambda>x. x\<lparr>mr_section_va := mr_section_va m\<rparr>),
      (''code_offset'', number_text (mr_address m), \<lambda>x. x\<lparr>mr_address := mr_address m\<rparr>),
      (''code_size'', number_text (mr_code_size m), \<lambda>x. x\<lparr>mr_code_size := mr_code_size m\<rparr>),
      (''fingerprint'', quote_text (mr_fingerprint m), \<lambda>x. x\<lparr>mr_fingerprint := mr_fingerprint m\<rparr>)]"

lemma method_fields_ok: "\<forall>f \<in> set (method_fields m). field_ok method_member f"
  unfolding method_fields_def list.set ball_simps
  by (intro conjI ballI field_okI; simp add: method_member_def method_string_key_def method_number_key_def
      set_method_string_def set_method_number_def json_simps)

lemma method_text_fields: "method_text m = CHR ''{'' # fields_text (method_fields m) @ ''}''"
  by (simp add: method_text_def fields_text_def method_fields_def)

lemma method_fields_apply: "apply_fields (method_fields m) x = m"
  by (simp add: method_fields_def)

lemma method_loop_text:
  "method_loop (fields_text (method_fields m) @ CHR ''}'' # r) x = Some (m, r)"
  using method_loop_fields [OF _ method_fields_ok] method_fields_apply [of m x]
  by (simp add: method_fields_def)

definition method_valid :: "method_record \<Rightarrow> bool" where
  "method_valid m \<longleftrightarrow> mr_library_uri m \<noteq> [] \<and> mr_function_name m \<noteq> []"

lemma methods_loop_text:
  "ms \<noteq> [] \<Longrightarrow> \<forall>m \<in> set ms. method_valid m \<Longrightarrow>
   methods_loop (commas (map method_text ms) @ CHR '']'' # r) acc = Some (acc @ ms, r)"
proof (induction ms arbitrary: acc)
  case (Cons m ms)
  then show ?case
    by (cases ms; subst methods_loop.simps)
      (simp_all add: method_text_fields [of m] json_simps method_loop_text method_valid_def)
qed simp

definition module_fields :: "metadata_index \<Rightarrow> metadata_index json_field list" where
  "module_fields idx =
     [(''soname'', quote_text (md_module_name idx), \<lambda>x. x\<lparr>md_module_name := md_module_name idx\<rparr>),
      (''build_id'', quote_text (md_build_id idx), \<lambda>x. x\<lparr>md_build_id := md_build_id idx\<rparr>)]"

lemma module_fields_ok: "\<forall>f \<in> set (module_fields idx). field_ok module_member f"
  unfolding module_fields_def list.set ball_simps
  by (intro conjI ballI field_okI; simp add: module_member_def json_simps)

definition root_fields :: "metadata_index \<Rightarrow> metadata_index json_field list" where
  "root_fields idx =
     [(''format'', number_text (md_format idx), \<lambda>x. x\<lparr>md_format := md_format idx\<rparr>),
      (''snapshot_hash'', quote_text (md_snapshot_hash idx), \<lambda>x. x\<lparr>md_snapshot_hash := md_snapshot_hash idx\<rparr>),
      (''module'', ''{'' @ fields_text (module_fields idx) @ ''}'',
        \<lambda>x. x\<lparr>md_module_name := md_module_name idx, md_build_id := md_build_id idx\<rparr>),
      (''methods'', ''['' @ commas (map method_text (md_methods idx)) @ '']'',
        \<lambda>x. x\<lparr>md_methods := md_methods x @ md_methods idx\<rparr>)]"

lemma commas_head: "ms \<noteq> [] \<Longrightarrow> \<exists>t. commas (map method_text ms) = CHR ''{'' # t"
  by (cases "map method_text ms" rule: commas.cases) (auto simp: method_text_fields)

lemma root_fields_ok:
  assumes "md_methods idx \<noteq> []" and "\<forall>m \<in> set (md_methods idx). method_valid m"
  shows "\<forall>f \<in> set (root_fields idx). field_ok root_member f"
proof -
  obtain t where t: "commas (map method_text (md_methods idx)) = CHR ''{'' # t"
    using commas_head [OF assms(1)] by blast
  have ms: "methods_loop (CHR ''{'' # t @ CHR '']'' # r) acc = Some (acc @ md_methods idx, r)" for r acc
    using methods_loop_text [OF assms, of r acc] t by simp
  have md: "module_loop (fields_text (module_fields idx) @ CHR ''}'' # r) x =
      Some (x\<lparr>md_module_name := md_module_name idx, md_build_id := md_build_id idx\<rparr>, r)" for r x
    using module_loop_fields [OF _ module_fields_ok, of idx r x] by (simp add: module_fields_def)
  show ?thesis
    unfolding root_fields_def list.set ball_simps
    by (intro conjI ballI field_okI;
        simp add: root_member_def ParseModule_def ParseMethods_def json_simps t ms md)
qed

definition printable_index :: "metadata_index \<Rightarrow> bool" where
  "printable_index idx \<longleftrightarrow> md_format idx = 1 \<and> md_module_name idx \<noteq> [] \<and> md_methods idx \<noteq> [] \<and>
     (\<forall>m \<in> set (md_methods idx). method_valid m)"

lemma metadata_text_parses:
  assumes "printable_index idx"
  shows "ParseMetadata (Some (metadata_text idx)) = Some idx"
proof -
  have printed: "metadata_text idx = CHR ''{'' # fields_text (root_fields idx) @ ''}''"
    by (simp add: metadata_text_def root_fields_def fields_text_def module_fields_def)
  have "root_loop (fields_text (root_fields idx) @ CHR ''}'' # []) metadata_index_0 =
      Some (apply_fields (root_fields idx) metadata_index_0, [])"
  proof (rule root_loop_fields)
    show "\<forall>f \<in> set (root_fields idx). field_ok root_member f"
      using assms by (intro root_fields_ok) (simp_all add: printable_index_def)
  qed (simp add: root_fields_def)
  moreover have "apply_fields (root_fields idx) metadata_index_0 = idx"
    by (simp add: root_fields_def metadata_index_0_def)
  ultimately show ?thesis
    using assms by (simp add: printable_index_def ParseMetadata_def Parse_def printed json_simps SkipWhitespace_def)
qed


definition example_index :: metadata_index where
  "example_index = \<lparr>md_format = 1, md_module_name = ''libapp.so'', md_build_id = ''00'',
     md_snapshot_hash = [], md_methods = [method_record_0\<lparr>mr_library_uri := [quote_char, backslash],
       mr_function_name := ''main'', mr_address := 0xfffffffffffffff0\<rparr>]\<rparr>"


section \<open>What is accepted\<close>

lemma methods_loop_step:
  assumes "methods_loop s acc = Some (ms, r)"
  obtains r1 m r2 where "Consume (CHR ''{'') s = Some r1" "method_loop r1 method_record_0 = Some (m, r2)"
    "method_valid m" "ms = acc @ [m]"
  | r1 m r2 r3 where "Consume (CHR ''{'') s = Some r1" "method_loop r1 method_record_0 = Some (m, r2)"
    "method_valid m" "Consume (CHR '','') r2 = Some r3" "methods_loop r3 (acc @ [m]) = Some (ms, r)"
proof -
  note step = assms [unfolded methods_loop.simps [of s acc]]
  obtain r1 where 1: "Consume (CHR ''{'') s = Some r1"
    using step by (cases "Consume (CHR ''{'') s") simp_all
  obtain m r2 where 2: "method_loop r1 method_record_0 = Some (m, r2)"
    using step 1 by (cases "method_loop r1 method_record_0") auto
  have 3: "method_valid m"
    using step 1 2 by (auto simp: method_valid_def split: if_splits)
  show thesis
  proof (cases "Consume (CHR '']'') r2")
    case None
    obtain r3 where 4: "Consume (CHR '','') r2 = Some r3"
      using step 1 2 3 None by (cases "Consume (CHR '','') r2") (simp_all add: method_valid_def)
    then show thesis using that(2) [OF 1 2 3 4] step 1 2 3 None by (simp add: method_valid_def)
  qed (use that(1) [OF 1 2 3] step 1 2 3 in \<open>simp add: method_valid_def\<close>)
qed

lemma methods_loop_valid:
  assumes "methods_loop s acc = Some (ms, r)" and "\<forall>m \<in> set acc. method_valid m"
  shows "ms \<noteq> [] \<and> (\<forall>m \<in> set ms. method_valid m)"
  using assms
proof (induction "length s" arbitrary: s acc rule: less_induct)
  case less
  from less.prems(1) show ?case
  proof (cases rule: methods_loop_step)
    case (2 r1 m r2 r3)
    have "length r3 < length s"
      using Consume_shorter [OF 2(1)] method_loop_shorter [OF 2(2)] Consume_shorter [OF 2(4)] by simp
    then show ?thesis using less.hyps [OF _ 2(5)] 2(3) less.prems(2) by simp
  qed (use less.prems(2) in simp)
qed

lemma module_member_methods:
  "module_member k t i = Some (i', t') \<Longrightarrow> md_methods i' = md_methods i"
  unfolding module_member_def
  by (cases "k = ''soname''"; cases "k = ''build_id''"; simp only: if_True if_False) auto

lemma module_loop_methods: "module_loop s idx = Some (idx', r) \<Longrightarrow> md_methods idx' = md_methods idx"
proof (induction "length s" arbitrary: s idx rule: less_induct)
  case less
  note step = less.prems [unfolded module_loop.simps [of s idx]]
  obtain k r1 where 1: "ParseString s = Some (k, r1)"
    using step by (cases "ParseString s") auto
  obtain r2 where 2: "Consume (CHR '':'') r1 = Some r2"
    using step 1 by (cases "Consume (CHR '':'') r1") auto
  obtain i r3 where 3: "module_member k r2 idx = Some (i, r3)"
    using step 1 2 by (cases "module_member k r2 idx") auto
  note same = module_member_methods [OF 3]
  show ?case
  proof (cases "Consume (CHR ''}'') r3")
    case None
    obtain r4 where 4: "Consume (CHR '','') r3 = Some r4"
      using step 1 2 3 None by (cases "Consume (CHR '','') r3") simp_all
    have "length r4 < length s"
      using ParseString_shorter [OF 1] Consume_shorter [OF 2] module_member_shorter [OF 3]
        Consume_shorter [OF 4] by simp
    moreover have "module_loop r4 i = Some (idx', r)" using step 1 2 3 4 None by simp
    ultimately show ?thesis using less.hyps same by simp
  qed (use step 1 2 3 same in simp)
qed

lemma root_member_valid:
  assumes "root_member k s idx = Some (idx', r)" and "\<forall>m \<in> set (md_methods idx). method_valid m"
  shows "\<forall>m \<in> set (md_methods idx'). method_valid m"
proof -
  consider "k = ''methods''" | "k = ''module''" "k \<noteq> ''methods''" | "k \<noteq> ''module''" "k \<noteq> ''methods''"
    by blast
  then show ?thesis
  proof cases
    case 1
    then have p: "ParseMethods s idx = Some (idx', r)" using assms(1) by (simp add: root_member_def)
    show ?thesis
    proof (cases "\<exists>t. methods_loop t (md_methods idx) = Some (md_methods idx', r)")
      case True
      then show ?thesis using methods_loop_valid assms(2) by blast
    next
      case False
      then have "idx' = idx" using p by (auto simp: ParseMethods_def split: option.splits)
      then show ?thesis using assms(2) by simp
    qed
  next
    case 2
    then have "ParseModule s idx = Some (idx', r)" using assms(1) by (simp add: root_member_def)
    then obtain t where "module_loop t idx = Some (idx', r)"
      by (auto simp: ParseModule_def split: option.splits)
    then show ?thesis using assms(2) module_loop_methods by simp
  next
    case 3
    then have "md_methods idx' = md_methods idx"
      using assms(1) unfolding root_member_def
      by (cases "k = ''format''"; cases "k = ''snapshot_hash''"; simp only: if_True if_False) auto
    then show ?thesis using assms(2) by simp
  qed
qed

lemma root_loop_valid:
  "root_loop s idx = Some (idx', r) \<Longrightarrow> \<forall>m \<in> set (md_methods idx). method_valid m \<Longrightarrow>
   \<forall>m \<in> set (md_methods idx'). method_valid m"
proof (induction "length s" arbitrary: s idx rule: less_induct)
  case less
  have IH: "length t < length s \<Longrightarrow> root_loop t i = Some (idx', r) \<Longrightarrow>
      \<forall>m \<in> set (md_methods i). method_valid m \<Longrightarrow> \<forall>m \<in> set (md_methods idx'). method_valid m" for t i
    using less.hyps by blast
  note step = less.prems(1) [unfolded root_loop.simps [of s idx]]
  show ?case
  proof (cases "Consume (CHR ''}'') s")
    case (Some x)
    then show ?thesis using less.prems step by simp
  next
    case None
    obtain k r1 where 1: "ParseString s = Some (k, r1)"
      using step None by (cases "ParseString s") auto
    obtain r2 where 2: "Consume (CHR '':'') r1 = Some r2"
      using step None 1 by (cases "Consume (CHR '':'') r1") auto
    obtain i r3 where 3: "root_member k r2 idx = Some (i, r3)"
      using step None 1 2 by (cases "root_member k r2 idx") auto
    note v = root_member_valid [OF 3 less.prems(2)]
    show ?thesis
    proof (cases "Consume (CHR ''}'') r3")
      case c: None
      obtain r4 where 4: "Consume (CHR '','') r3 = Some r4"
        using step None 1 2 3 c by (cases "Consume (CHR '','') r3") simp_all
      have "length r4 < length s"
        using ParseString_shorter [OF 1] Consume_shorter [OF 2] root_member_shorter [OF 3]
          Consume_shorter [OF 4] by simp
      moreover have "root_loop r4 i = Some (idx', r)" using step None 1 2 3 4 c by simp
      ultimately show ?thesis using IH v by blast
    qed (use step None 1 2 3 v in simp)
  qed
qed

text \<open>
  Whatever text is accepted, the index it yields is of format 1, names its module, has
  at least one method, and every method names its library and function.
\<close>

theorem accepted_metadata_wellformed:
  assumes "ParseMetadata json = Some idx"
  shows "md_format idx = 1 \<and> md_module_name idx \<noteq> [] \<and> md_methods idx \<noteq> [] \<and>
    (\<forall>m \<in> set (md_methods idx). mr_library_uri m \<noteq> [] \<and> mr_function_name m \<noteq> [])"
proof -
  obtain s where s: "Parse s = Some idx" using assms by (cases json) (auto simp: ParseMetadata_def)
  obtain r where r: "Consume (CHR ''{'') s = Some r"
    using s by (cases "Consume (CHR ''{'') s") (auto simp: Parse_def)
  obtain i r' where l: "root_loop r metadata_index_0 = Some (i, r')"
    using s r by (cases "root_loop r metadata_index_0") (auto simp: Parse_def)
  have ok: "i = idx" "md_format idx = 1" "md_module_name idx \<noteq> []" "md_methods idx \<noteq> []"
    using s r l by (auto simp: Parse_def split: if_splits)
  have "\<forall>m \<in> set (md_methods idx). method_valid m"
    using root_loop_valid [OF l] ok(1) by (simp add: metadata_index_0_def)
  then show ?thesis using ok by (simp add: method_valid_def)
qed

theorem accepted_metadata_wellformed_witness: "md_module_name example_index \<noteq> []"
  using accepted_metadata_wellformed [of "Some (metadata_text example_index)" example_index]
    metadata_text_parses [of example_index]
  by (simp add: printable_index_def method_valid_def example_index_def)

text \<open>The format number is cut to 32 bits before it is compared with 1.\<close>

lemma format_truncated:
  assumes "n < 2 ^ 64"
  shows "root_member ''format'' (decimal n @ CHR '','' # r) idx =
    Some (idx\<lparr>md_format := of_nat n\<rparr>, CHR '','' # r)"
proof -
  have "(ucast (of_nat n :: u64) :: u32) = of_nat n"
    by (rule bit_word_eqI) (auto simp: bit_simps)
  then show ?thesis
    using ParseUnsigned_decimal(1) [OF assms, of "CHR '',''" r] by (simp add: root_member_def)
qed

lemma oversized_format_is_one:
  "root_member ''format'' (decimal 4294967297 @ CHR '','' # r) idx =
    Some (idx\<lparr>md_format := 1\<rparr>, CHR '','' # r)"
  by (subst format_truncated) simp_all

end
