(* ===== verification/Vm_Adapter.thy ===== *)
theory Vm_Adapter
  imports Prelude
begin

text \<open>
  The adapter between hooks and one Dart isolate (\<^verbatim>\<open>src/vm/object_bridge.cpp\<close>): who owns
  it, which scopes, root leases and generated/native transitions are open, the object handles
  it gave out and the capabilities proven for the attached isolate. The embedder's callbacks are
  not part of the program: which of them are present is data, and what a callback answers
  is an argument of the operation that calls it. The calling thread is an argument \<open>me\<close>,
  the result of \<open>try_lock\<close> an argument \<open>locked\<close>, and \<open>args\<close> says that the pointers and
  structure sizes the operation checks first are acceptable.
\<close>

section \<open>Callbacks\<close>

record adapter_callbacks =
  cb_struct_size :: u32
  cb_adapter_version :: u32
  cb_enter_isolate :: bool
  cb_leave_isolate :: bool
  cb_enter_scope :: bool
  cb_leave_scope :: bool
  cb_retain_object :: bool
  cb_release_object :: bool
  cb_object_kind :: bool
  cb_object_to_raw :: bool
  cb_object_is_alive :: bool
  cb_pin_generated_roots :: bool
  cb_generated_root_get :: bool
  cb_generated_root_set :: bool
  cb_unpin_generated_roots :: bool
  cb_enter_generated_to_native :: bool
  cb_leave_native_to_generated :: bool
  cb_read_active_exception :: bool
  cb_read_active_stacktrace :: bool
  cb_read_type_arguments_element :: bool
  cb_prove_capability :: bool
  cb_begin_live_heap_observation :: bool
  cb_end_live_heap_observation :: bool

text \<open>Offsets in the callback structure: two 32-bit words, then one pointer per callback.\<close>

definition kVmAdapterCallbacksV1Size :: u32 where "kVmAdapterCallbacksV1Size = 80"
definition kVmAdapterCallbacksV2Size :: u32 where "kVmAdapterCallbacksV2Size = 112"

definition ValidAdapterCallbacks :: "adapter_callbacks \<Rightarrow> bool" where
  "ValidAdapterCallbacks c \<longleftrightarrow> cb_struct_size c \<ge> kVmAdapterCallbacksV1Size \<and>
     cb_adapter_version c \<noteq> 0 \<and> cb_enter_isolate c \<and> cb_leave_isolate c \<and> cb_enter_scope c \<and>
     cb_leave_scope c \<and> cb_retain_object c \<and> cb_release_object c \<and> cb_object_kind c \<and>
     cb_object_to_raw c \<and> cb_object_is_alive c"

definition GeneratedRootCallbacksAvailable :: "adapter_callbacks \<Rightarrow> bool" where
  "GeneratedRootCallbacksAvailable c \<longleftrightarrow> cb_struct_size c \<ge> kVmAdapterCallbacksV2Size \<and>
     cb_pin_generated_roots c \<and> cb_generated_root_get c \<and> cb_generated_root_set c \<and>
     cb_unpin_generated_roots c"

definition GeneratedTransitionCallbacksAvailable :: "adapter_callbacks \<Rightarrow> bool" where
  "GeneratedTransitionCallbacksAvailable c \<longleftrightarrow>
     cb_struct_size c \<ge> kVmAdapterCallbacksV2Size + 8 + 8 \<and>
     cb_enter_generated_to_native c \<and> cb_leave_native_to_generated c"

definition ActiveObjectCallbacksAvailable :: "adapter_callbacks \<Rightarrow> bool" where
  "ActiveObjectCallbacksAvailable c \<longleftrightarrow> cb_struct_size c \<ge> 136 + 8 \<and>
     cb_read_active_exception c \<and> cb_read_active_stacktrace c"

definition TypeArgumentsElementCallbackAvailable :: "adapter_callbacks \<Rightarrow> bool" where
  "TypeArgumentsElementCallbackAvailable c \<longleftrightarrow> cb_struct_size c \<ge> 144 + 8 \<and>
     cb_read_type_arguments_element c"

definition CapabilityProofCallbackAvailable :: "adapter_callbacks \<Rightarrow> bool" where
  "CapabilityProofCallbackAvailable c \<longleftrightarrow> cb_struct_size c \<ge> 152 + 8 \<and> cb_prove_capability c"

definition LiveHeapObservationCallbacksAvailable :: "adapter_callbacks \<Rightarrow> bool" where
  "LiveHeapObservationCallbacksAvailable c \<longleftrightarrow> cb_struct_size c \<ge> 168 + 8 \<and>
     cb_begin_live_heap_observation c \<and> cb_end_live_heap_observation c"

section \<open>Capabilities\<close>

datatype evidence_kind =
    EvFunctionCode | EvAotEntry | EvArgumentsDescriptor | EvFunctionType | EvClosureCall
  | EvInvocationCallAbi | EvExceptionBridge

fun CapabilityForEvidence :: "evidence_kind \<Rightarrow> u64" where
  "CapabilityForEvidence EvFunctionCode = push_bit 12 1"
| "CapabilityForEvidence EvAotEntry = push_bit 13 1"
| "CapabilityForEvidence EvArgumentsDescriptor = push_bit 10 1"
| "CapabilityForEvidence EvFunctionType = push_bit 14 1"
| "CapabilityForEvidence EvClosureCall = push_bit 15 1"
| "CapabilityForEvidence EvInvocationCallAbi = push_bit 11 1"
| "CapabilityForEvidence EvExceptionBridge = push_bit 16 1"

text \<open>The shift loop; a word is zero after at most 64 shifts.\<close>

fun capability_index_loop :: "nat \<Rightarrow> u64 \<Rightarrow> nat \<Rightarrow> nat" where
  "capability_index_loop 0 c i = i"
| "capability_index_loop (Suc fuel) c i =
     (let c' = drop_bit 1 c in if c' \<noteq> 0 then capability_index_loop fuel c' (i + 1) else i)"

text \<open>\<open>None\<close> is the largest \<open>size_t\<close>: no vector has that many elements.\<close>

definition CapabilityIndex :: "u64 \<Rightarrow> nat option" where
  "CapabilityIndex c =
     (if c = 0 \<or> c AND (c - 1) \<noteq> 0 then None else Some (capability_index_loop 64 c 0))"

record capability_proof =
  cp_capability :: u64
  cp_profile_version :: u32
  cp_artifact_generation :: u64
  cp_isolate_generation :: u64
  cp_resolved_target :: u64

definition capability_proof_0 :: capability_proof where
  "capability_proof_0 = \<lparr>cp_capability = 0, cp_profile_version = 0, cp_artifact_generation = 0,
     cp_isolate_generation = 0, cp_resolved_target = 0\<rparr>"

text \<open>A profile of the generated table is named by its position.\<close>

record capability_binding =
  cb_proof :: capability_proof
  cb_profile :: "nat option"

definition capability_binding_0 :: capability_binding where
  "capability_binding_0 = \<lparr>cb_proof = capability_proof_0, cb_profile = None\<rparr>"

record abi_binding_state =
  ab_capabilities :: "capability_binding list"
  ab_artifact_generation :: u64
  ab_isolate_generation :: u64

section \<open>The adapter\<close>

record isolate_identity =
  iso_isolate :: u64
  iso_group :: u64
  iso_generation :: u64

definition isolate_0 :: isolate_identity where
  "isolate_0 = \<lparr>iso_isolate = 0, iso_group = 0, iso_generation = 0\<rparr>"

definition SameIsolate :: "isolate_identity \<Rightarrow> isolate_identity \<Rightarrow> bool" where
  "SameIsolate l r \<longleftrightarrow> iso_isolate l = iso_isolate r \<and> iso_group l = iso_group r \<and>
     iso_generation l = iso_generation r"

type_synonym thread_id = nat

text \<open>An owner of \<open>None\<close> is the default thread id.\<close>

record vm_adapter =
  va_callbacks :: adapter_callbacks
  va_isolate :: isolate_identity
  va_owner :: "thread_id option"
  va_entered :: u32
  va_live_handles :: u64
  va_hook_refs :: u64
  va_root_leases :: u64
  va_transitions :: u32
  va_observations :: u32
  va_observation_thread :: "thread_id option"
  va_observation_vm_thread :: u64
  va_observation_lease :: u64
  va_admission_open :: bool
  va_abi :: abi_binding_state
  va_released :: nat
  va_attached :: bool
  va_isolate_entered :: bool

definition SameOwner :: "thread_id \<Rightarrow> vm_adapter \<Rightarrow> bool" where
  "SameOwner me a \<longleftrightarrow> va_owner a = Some me"

definition ResetAbiBinding :: "vm_adapter \<Rightarrow> vm_adapter" where
  "ResetAbiBinding a = a\<lparr>va_abi :=
     \<lparr>ab_capabilities = map (\<lambda>_. capability_binding_0) (ab_capabilities (va_abi a)),
      ab_artifact_generation = 0, ab_isolate_generation = 0\<rparr>\<rparr>"

definition CanonicalObservationThread :: "u64 \<Rightarrow> u64" where
  "CanonicalObservationThread thread = thread AND 0x00ffffffffffffff"

text \<open>A successful check of the owner makes the caller the owner of an unowned adapter.\<close>

definition CheckAttachedOwner :: "thread_id \<Rightarrow> vm_adapter \<Rightarrow> dp_status \<times> vm_adapter" where
  "CheckAttachedOwner me a =
     (if \<not> va_attached a then (DP_VM_BRIDGE_UNAVAILABLE, a)
      else
        let transient_owner = (va_owner a = None) in
        if \<not> transient_owner \<and> \<not> SameOwner me a then (DP_VM_THREAD_MISMATCH, a)
        else (DP_OK, if va_owner a = None then a\<lparr>va_owner := Some me\<rparr> else a))"

definition CheckEntered :: "thread_id \<Rightarrow> vm_adapter \<Rightarrow> dp_status" where
  "CheckEntered me a =
     (if \<not> va_attached a then DP_VM_BRIDGE_UNAVAILABLE
      else if va_entered a = 0 then DP_VM_SCOPE_REQUIRED
      else if \<not> SameOwner me a then DP_VM_THREAD_MISMATCH
      else DP_OK)"

definition VmAdapterIsEntered :: "thread_id \<Rightarrow> vm_adapter \<Rightarrow> bool" where
  "VmAdapterIsEntered me a \<longleftrightarrow> CheckEntered me a = DP_OK"

definition VmAdapterAdmissionOpen :: "vm_adapter \<Rightarrow> bool" where
  "VmAdapterAdmissionOpen a = va_admission_open a"

definition VmAdapterCloseAdmission :: "vm_adapter \<Rightarrow> vm_adapter" where
  "VmAdapterCloseAdmission a = a\<lparr>va_admission_open := False\<rparr>"

definition VmAdapterOpenAdmission :: "vm_adapter \<Rightarrow> vm_adapter" where
  "VmAdapterOpenAdmission a = a\<lparr>va_admission_open := True\<rparr>"

definition VmAdapterCheckQuiescent :: "vm_adapter \<Rightarrow> dp_status" where
  "VmAdapterCheckQuiescent a =
     (if va_hook_refs a \<noteq> 0 \<or> va_root_leases a \<noteq> 0 \<or> va_transitions a \<noteq> 0 \<or> va_entered a \<noteq> 0 \<or>
         va_isolate_entered a \<or> va_live_handles a \<noteq> 0 \<or> va_observations a \<noteq> 0
      then DP_VM_ADAPTER_BUSY else DP_OK)"

definition VmAdapterSupportsGeneratedCallbackBridge :: "vm_adapter \<Rightarrow> bool" where
  "VmAdapterSupportsGeneratedCallbackBridge a \<longleftrightarrow>
     GeneratedRootCallbacksAvailable (va_callbacks a) \<and>
     GeneratedTransitionCallbacksAvailable (va_callbacks a)"

section \<open>Life cycle\<close>

definition dartplant_vm_adapter_create :: "adapter_callbacks \<Rightarrow> nat \<Rightarrow> dp_status + vm_adapter" where
  "dartplant_vm_adapter_create c registry_size =
     (if \<not> ValidAdapterCallbacks c \<or>
         (cb_adapter_version c \<ge> 4 \<and> \<not> CapabilityProofCallbackAvailable c) \<or>
         (cb_adapter_version c \<ge> 5 \<and> \<not> LiveHeapObservationCallbacksAvailable c)
      then Inl DP_INVALID_ARGUMENT
      else Inr \<lparr>va_callbacks = c, va_isolate = isolate_0, va_owner = None, va_entered = 0,
             va_live_handles = 0, va_hook_refs = 0, va_root_leases = 0, va_transitions = 0,
             va_observations = 0, va_observation_thread = None, va_observation_vm_thread = 0,
             va_observation_lease = 0, va_admission_open = True,
             va_abi = \<lparr>ab_capabilities = replicate registry_size capability_binding_0,
                       ab_artifact_generation = 0, ab_isolate_generation = 0\<rparr>,
             va_released = 0, va_attached = False, va_isolate_entered = False\<rparr>)"

text \<open>\<open>DP_OK\<close> means that the adapter no longer exists.\<close>

definition dartplant_vm_adapter_destroy :: "vm_adapter \<Rightarrow> dp_status" where
  "dartplant_vm_adapter_destroy a =
     (if va_attached a \<or> va_entered a \<noteq> 0 \<or> va_isolate_entered a \<or> va_live_handles a \<noteq> 0 \<or>
         va_hook_refs a \<noteq> 0 \<or> va_root_leases a \<noteq> 0 \<or> va_transitions a \<noteq> 0 \<or> va_observations a \<noteq> 0
      then DP_VM_ADAPTER_BUSY else DP_OK)"

definition dartplant_vm_adapter_attach_isolate :: "isolate_identity \<Rightarrow> vm_adapter \<Rightarrow>
    dp_status \<times> vm_adapter" where
  "dartplant_vm_adapter_attach_isolate ident a =
     (if \<not> va_admission_open a then (DP_VM_ADAPTER_BUSY, a)
      else if va_attached a \<or> va_entered a \<noteq> 0 then (DP_VM_ADAPTER_BUSY, a)
      else (DP_OK, (ResetAbiBinding (a\<lparr>va_isolate := ident\<rparr>))\<lparr>va_attached := True\<rparr>))"

definition dartplant_vm_adapter_detach_isolate :: "isolate_identity \<Rightarrow> vm_adapter \<Rightarrow>
    dp_status \<times> vm_adapter" where
  "dartplant_vm_adapter_detach_isolate ident a =
     (if \<not> va_attached a \<or> \<not> SameIsolate (va_isolate a) ident then (DP_VM_ISOLATE_MISMATCH, a)
      else if va_entered a \<noteq> 0 \<or> va_isolate_entered a \<or> va_live_handles a \<noteq> 0 \<or> va_hook_refs a \<noteq> 0 \<or>
              va_root_leases a \<noteq> 0 \<or> va_transitions a \<noteq> 0 \<or> va_observations a \<noteq> 0
      then (DP_VM_ADAPTER_BUSY, a)
      else (DP_OK, (ResetAbiBinding (a\<lparr>va_attached := False\<rparr>))
                     \<lparr>va_isolate := isolate_0, va_owner := None\<rparr>))"

section \<open>Isolate and scopes\<close>

definition dartplant_vm_enter_isolate :: "thread_id \<Rightarrow> dp_status \<Rightarrow> vm_adapter \<Rightarrow>
    dp_status \<times> vm_adapter" where
  "dartplant_vm_enter_isolate me answer a =
     (if \<not> va_admission_open a then (DP_VM_ADAPTER_BUSY, a)
      else if \<not> va_attached a then (DP_VM_BRIDGE_UNAVAILABLE, a)
      else if va_entered a \<noteq> 0 \<or> va_isolate_entered a \<or> va_observations a \<noteq> 0
      then (DP_VM_ADAPTER_BUSY, a)
      else if va_owner a \<noteq> None \<and> \<not> SameOwner me a then (DP_VM_THREAD_MISMATCH, a)
      else
        let a' = a\<lparr>va_owner := Some me\<rparr> in
        if answer \<noteq> DP_OK then (answer, a')
        else (DP_OK, a'\<lparr>va_isolate_entered := True\<rparr>))"

definition dartplant_vm_leave_isolate :: "thread_id \<Rightarrow> dp_status \<Rightarrow> vm_adapter \<Rightarrow>
    dp_status \<times> vm_adapter" where
  "dartplant_vm_leave_isolate me answer a =
     (if \<not> va_isolate_entered a \<or> va_entered a \<noteq> 0 \<or> \<not> SameOwner me a
      then (if va_entered a \<noteq> 0 then DP_VM_SCOPE_REQUIRED else DP_VM_THREAD_MISMATCH, a)
      else if answer \<noteq> DP_OK then (answer, a)
      else (DP_OK, a\<lparr>va_isolate_entered := False, va_owner := None\<rparr>))"

definition dartplant_vm_enter_scope :: "thread_id \<Rightarrow> dp_status \<Rightarrow> vm_adapter \<Rightarrow>
    dp_status \<times> vm_adapter" where
  "dartplant_vm_enter_scope me answer a =
     (if \<not> va_admission_open a \<and> va_transitions a = 0 then (DP_VM_ADAPTER_BUSY, a)
      else if \<not> va_attached a then (DP_VM_BRIDGE_UNAVAILABLE, a)
      else if va_observations a \<noteq> 0 then (DP_VM_ADAPTER_BUSY, a)
      else if va_entered a \<noteq> 0 \<and> \<not> SameOwner me a then (DP_VM_THREAD_MISMATCH, a)
      else
        let a' = (if va_entered a = 0 then a\<lparr>va_owner := Some me\<rparr> else a) in
        if answer \<noteq> DP_OK then (answer, a')
        else (DP_OK, a'\<lparr>va_entered := va_entered a' + 1\<rparr>))"

definition dartplant_vm_leave_scope :: "thread_id \<Rightarrow> dp_status \<Rightarrow> vm_adapter \<Rightarrow>
    dp_status \<times> vm_adapter" where
  "dartplant_vm_leave_scope me answer a =
     (if CheckEntered me a \<noteq> DP_OK then (CheckEntered me a, a)
      else if answer \<noteq> DP_OK then (answer, a)
      else
        let a' = a\<lparr>va_entered := va_entered a - 1\<rparr> in
        (DP_OK, if va_entered a' = 0 \<and> \<not> va_isolate_entered a' \<and> va_root_leases a' = 0 \<and>
                   va_transitions a' = 0 then a'\<lparr>va_owner := None\<rparr> else a'))"

section \<open>Hooks\<close>

definition VmAdapterRetainHook :: "vm_adapter \<Rightarrow> vm_adapter" where
  "VmAdapterRetainHook a = a\<lparr>va_hook_refs := va_hook_refs a + 1\<rparr>"

definition VmAdapterReleaseHook :: "vm_adapter \<Rightarrow> vm_adapter" where
  "VmAdapterReleaseHook a =
     (if va_hook_refs a \<noteq> 0 then a\<lparr>va_hook_refs := va_hook_refs a - 1\<rparr> else a)"

section \<open>Generated roots and transitions\<close>

definition VmAdapterPinGeneratedRoots :: "bool \<Rightarrow> bool \<Rightarrow> thread_id \<Rightarrow> dp_status \<Rightarrow> u64 \<Rightarrow> vm_adapter \<Rightarrow>
    dp_status \<times> u64 \<times> vm_adapter" where
  "VmAdapterPinGeneratedRoots args locked me answer lease a =
     (if \<not> args then (DP_INVALID_ARGUMENT, 0, a)
      else if \<not> locked then (DP_VM_ADAPTER_BUSY, 0, a)
      else if \<not> GeneratedRootCallbacksAvailable (va_callbacks a) then (DP_VM_BRIDGE_UNAVAILABLE, 0, a)
      else
        let (owner, a1) = CheckAttachedOwner me a in
        if owner \<noteq> DP_OK then (owner, 0, a1)
        else if va_transitions a1 \<noteq> 0 \<or> va_entered a1 \<noteq> 0 \<or> va_observations a1 \<noteq> 0
        then (DP_VM_ADAPTER_BUSY, 0, a1)
        else if answer \<noteq> DP_OK then (answer, 0, a1)
        else if lease = 0 then (DP_VM_BRIDGE_UNAVAILABLE, 0, a1)
        else (DP_OK, lease, a1\<lparr>va_root_leases := va_root_leases a1 + 1\<rparr>))"

text \<open>Reading and writing one root; the callback's answer is the result.\<close>

definition VmAdapterGeneratedRootGet :: "bool \<Rightarrow> thread_id \<Rightarrow> dp_status \<Rightarrow> vm_adapter \<Rightarrow> dp_status" where
  "VmAdapterGeneratedRootGet args me answer a =
     (if \<not> args then DP_INVALID_ARGUMENT
      else if \<not> GeneratedRootCallbacksAvailable (va_callbacks a) \<or> va_root_leases a = 0
      then DP_VM_BRIDGE_UNAVAILABLE
      else if CheckEntered me a \<noteq> DP_OK then CheckEntered me a
      else answer)"

definition VmAdapterGeneratedRootSet :: "bool \<Rightarrow> thread_id \<Rightarrow> dp_status \<Rightarrow> vm_adapter \<Rightarrow> dp_status" where
  "VmAdapterGeneratedRootSet args me answer a =
     (if \<not> args then DP_INVALID_ARGUMENT
      else if \<not> GeneratedRootCallbacksAvailable (va_callbacks a) \<or> va_root_leases a = 0
      then DP_VM_BRIDGE_UNAVAILABLE
      else if CheckEntered me a \<noteq> DP_OK then CheckEntered me a
      else answer)"

definition VmAdapterUnpinGeneratedRoots :: "bool \<Rightarrow> bool \<Rightarrow> thread_id \<Rightarrow> dp_status \<Rightarrow> vm_adapter \<Rightarrow>
    dp_status \<times> vm_adapter" where
  "VmAdapterUnpinGeneratedRoots args locked me answer a =
     (if \<not> args then (DP_INVALID_ARGUMENT, a)
      else if \<not> locked then (DP_VM_ADAPTER_BUSY, a)
      else if \<not> GeneratedRootCallbacksAvailable (va_callbacks a) \<or> va_root_leases a = 0
      then (DP_VM_BRIDGE_UNAVAILABLE, a)
      else
        let (owner, a1) = CheckAttachedOwner me a in
        if owner \<noteq> DP_OK then (owner, a1)
        else if va_transitions a1 \<noteq> 0 \<or> va_entered a1 \<noteq> 0 \<or> va_observations a1 \<noteq> 0
        then (DP_VM_ADAPTER_BUSY, a1)
        else if answer \<noteq> DP_OK then (answer, a1)
        else
          let a2 = a1\<lparr>va_root_leases := va_root_leases a1 - 1\<rparr> in
          (DP_OK, if va_root_leases a2 = 0 \<and> \<not> va_isolate_entered a2 then a2\<lparr>va_owner := None\<rparr> else a2))"

definition VmAdapterEnterGeneratedToNative :: "bool \<Rightarrow> bool \<Rightarrow> thread_id \<Rightarrow> dp_status \<Rightarrow> vm_adapter \<Rightarrow>
    dp_status \<times> vm_adapter" where
  "VmAdapterEnterGeneratedToNative args locked me answer a =
     (if \<not> args then (DP_INVALID_ARGUMENT, a)
      else if \<not> locked then (DP_VM_ADAPTER_BUSY, a)
      else if \<not> GeneratedTransitionCallbacksAvailable (va_callbacks a) \<or> va_root_leases a = 0
      then (DP_VM_BRIDGE_UNAVAILABLE, a)
      else
        let (owner, a1) = CheckAttachedOwner me a in
        if owner \<noteq> DP_OK then (owner, a1)
        else if va_transitions a1 \<noteq> 0 \<or> va_entered a1 \<noteq> 0 \<or> va_observations a1 \<noteq> 0
        then (DP_VM_ADAPTER_BUSY, a1)
        else if answer \<noteq> DP_OK then (answer, a1)
        else (DP_OK, a1\<lparr>va_transitions := va_transitions a1 + 1\<rparr>))"

definition VmAdapterLeaveNativeToGenerated :: "bool \<Rightarrow> thread_id \<Rightarrow> dp_status \<Rightarrow> vm_adapter \<Rightarrow>
    dp_status \<times> vm_adapter" where
  "VmAdapterLeaveNativeToGenerated args me answer a =
     (if \<not> args then (DP_INVALID_ARGUMENT, a)
      else if \<not> GeneratedTransitionCallbacksAvailable (va_callbacks a) \<or> va_transitions a = 0 \<or>
              va_root_leases a = 0 then (DP_VM_BRIDGE_UNAVAILABLE, a)
      else if va_observations a \<noteq> 0 then (DP_VM_ADAPTER_BUSY, a)
      else if \<not> SameOwner me a then (DP_VM_THREAD_MISMATCH, a)
      else if va_entered a \<noteq> 0 then (DP_VM_SCOPE_REQUIRED, a)
      else if answer \<noteq> DP_OK then (answer, a)
      else (DP_OK, a\<lparr>va_transitions := va_transitions a - 1\<rparr>))"

definition ReadActiveObject :: "bool \<Rightarrow> thread_id \<Rightarrow> dp_status \<Rightarrow> vm_adapter \<Rightarrow> dp_status" where
  "ReadActiveObject args me answer a =
     (if \<not> args then DP_INVALID_ARGUMENT
      else if \<not> ActiveObjectCallbacksAvailable (va_callbacks a) then DP_VM_BRIDGE_UNAVAILABLE
      else if \<not> va_attached a then DP_VM_BRIDGE_UNAVAILABLE
      else if \<not> SameOwner me a then DP_VM_THREAD_MISMATCH
      else if va_transitions a \<noteq> 0 \<or> va_observations a \<noteq> 0 \<or>
              (GeneratedTransitionCallbacksAvailable (va_callbacks a) \<and> va_entered a \<noteq> 0)
      then DP_VM_ADAPTER_BUSY
      else answer)"

definition VmAdapterReadTypeArgumentsElementGenerated :: "bool \<Rightarrow> bool \<Rightarrow> thread_id \<Rightarrow> dp_status \<Rightarrow>
    vm_adapter \<Rightarrow> dp_status \<times> vm_adapter" where
  "VmAdapterReadTypeArgumentsElementGenerated args locked me answer a =
     (if \<not> args then (DP_INVALID_ARGUMENT, a)
      else if \<not> locked then (DP_VM_ADAPTER_BUSY, a)
      else if \<not> TypeArgumentsElementCallbackAvailable (va_callbacks a) then (DP_VM_BRIDGE_UNAVAILABLE, a)
      else
        let (owner, a1) = CheckAttachedOwner me a in
        if owner \<noteq> DP_OK then (owner, a1)
        else if va_transitions a1 \<noteq> 0 \<or> va_entered a1 \<noteq> 0 \<or> va_observations a1 \<noteq> 0
        then (DP_VM_ADAPTER_BUSY, a1)
        else (answer, a1))"

section \<open>Observing the live heap\<close>

definition VmAdapterBeginLiveHeapObservation :: "bool \<Rightarrow> thread_id \<Rightarrow> u64 \<Rightarrow> dp_status \<Rightarrow> u64 \<Rightarrow>
    vm_adapter \<Rightarrow> dp_status \<times> u64 \<times> vm_adapter" where
  "VmAdapterBeginLiveHeapObservation args me thread answer lease a =
     (if \<not> args \<or> thread = 0 then (DP_INVALID_ARGUMENT, 0, a)
      else if \<not> va_attached a \<or> \<not> va_admission_open a then (DP_VM_ADAPTER_BUSY, 0, a)
      else if \<not> LiveHeapObservationCallbacksAvailable (va_callbacks a)
      then (DP_VM_BRIDGE_UNAVAILABLE, 0, a)
      else
        let nested = (va_transitions a = 1 \<and> va_root_leases a \<noteq> 0 \<and> va_entered a \<noteq> 0 \<and>
                      \<not> va_isolate_entered a);
            standalone = (va_transitions a = 0 \<and> va_entered a = 0 \<and> \<not> va_isolate_entered a)
        in if (\<not> nested \<and> \<not> standalone) \<or> va_observations a \<noteq> 0 then (DP_VM_ADAPTER_BUSY, 0, a)
        else
          let transient_owner = (va_owner a = None) in
          if \<not> transient_owner \<and> \<not> SameOwner me a then (DP_VM_THREAD_MISMATCH, 0, a)
          else
            let a1 = a\<lparr>va_owner := Some me\<rparr>;
                undo = (if transient_owner then a1\<lparr>va_owner := None\<rparr> else a1)
            in if answer \<noteq> DP_OK then (answer, 0, undo)
            else if lease = 0 then (DP_VM_BRIDGE_UNAVAILABLE, 0, undo)
            else (DP_OK, lease, a1\<lparr>va_observations := 1, va_observation_thread := Some me,
                    va_observation_vm_thread := CanonicalObservationThread thread,
                    va_observation_lease := lease\<rparr>))"

definition VmAdapterEndLiveHeapObservation :: "thread_id \<Rightarrow> u64 \<Rightarrow> dp_status \<Rightarrow> vm_adapter \<Rightarrow>
    dp_status \<times> vm_adapter" where
  "VmAdapterEndLiveHeapObservation me lease answer a =
     (if lease = 0 then (DP_INVALID_ARGUMENT, a)
      else if va_observations a \<noteq> 1 \<or> va_observation_thread a \<noteq> Some me \<or>
              va_observation_lease a \<noteq> lease \<or>
              \<not> LiveHeapObservationCallbacksAvailable (va_callbacks a)
      then (DP_VM_ADAPTER_BUSY, a)
      else if answer \<noteq> DP_OK then (answer, a)
      else
        let a1 = a\<lparr>va_observations := 0, va_observation_thread := None,
                   va_observation_vm_thread := 0, va_observation_lease := 0\<rparr>
        in (DP_OK, if \<not> va_isolate_entered a1 \<and> va_entered a1 = 0 \<and> va_root_leases a1 = 0 \<and>
                      va_transitions a1 = 0 then a1\<lparr>va_owner := None\<rparr> else a1))"

definition VmAdapterOwnsLiveHeapObservation :: "thread_id \<Rightarrow> u64 \<Rightarrow> u64 \<Rightarrow> vm_adapter \<Rightarrow> bool" where
  "VmAdapterOwnsLiveHeapObservation me thread lease a \<longleftrightarrow>
     \<not> (thread = 0 \<or> lease = 0) \<and>
     va_attached a \<and> va_admission_open a \<and> va_observations a = 1 \<and>
     va_observation_thread a = Some me \<and>
     va_observation_vm_thread a = CanonicalObservationThread thread \<and>
     va_observation_lease a = lease \<and> SameOwner me a"

section \<open>Capability proofs\<close>

definition abi_generation_changed :: "vm_adapter \<Rightarrow> capability_proof \<Rightarrow> bool" where
  "abi_generation_changed a p \<longleftrightarrow> ab_artifact_generation (va_abi a) \<noteq> 0 \<and>
     (ab_artifact_generation (va_abi a) \<noteq> cp_artifact_generation p \<or>
      ab_isolate_generation (va_abi a) \<noteq> cp_isolate_generation p)"

text \<open>What follows a proof the callback accepted; \<open>profiles\<close> finds a profile by version.\<close>

definition record_proof :: "(u32 \<Rightarrow> nat option) \<Rightarrow> evidence_kind \<Rightarrow> capability_proof \<Rightarrow> vm_adapter \<Rightarrow>
    dp_status \<times> vm_adapter" where
  "record_proof profiles kind p a =
     (if kind = EvExceptionBridge \<and> cp_resolved_target p = 0 then (DP_PROFILE_MISMATCH, a)
      else
        let expected = CapabilityForEvidence kind in
        case CapabilityIndex expected of
          None \<Rightarrow> (DP_PROFILE_MISMATCH, a)
        | Some i \<Rightarrow>
            if i \<ge> length (ab_capabilities (va_abi a)) \<or> cp_capability p \<noteq> expected \<or>
               cp_profile_version p = 0 \<or> cp_artifact_generation p = 0 \<or>
               cp_isolate_generation p \<noteq> iso_generation (va_isolate a)
            then (DP_PROFILE_MISMATCH, a)
            else case profiles (cp_profile_version p) of
                   None \<Rightarrow> (DP_PROFILE_MISMATCH, a)
                 | Some profile \<Rightarrow>
                     let a1 = (if abi_generation_changed a p then ResetAbiBinding a else a);
                         a2 = a1\<lparr>va_abi := (va_abi a1)
                                \<lparr>ab_artifact_generation := cp_artifact_generation p,
                                 ab_isolate_generation := cp_isolate_generation p\<rparr>\<rparr>;
                         established = ab_capabilities (va_abi a2) ! i
                     in if cp_capability (cb_proof established) = expected \<and>
                           cp_profile_version (cb_proof established) \<noteq> cp_profile_version p
                        then (DP_PROFILE_MISMATCH, a2)
                        else (DP_OK, a2\<lparr>va_abi := (va_abi a2)
                               \<lparr>ab_capabilities := (ab_capabilities (va_abi a2))
                                  [i := \<lparr>cb_proof = p, cb_profile = Some profile\<rparr>]\<rparr>\<rparr>))"

definition VmAdapterProveCapability :: "(u32 \<Rightarrow> nat option) \<Rightarrow> bool \<Rightarrow> bool \<Rightarrow> thread_id \<Rightarrow>
    evidence_kind \<Rightarrow> dp_status \<Rightarrow> capability_proof \<Rightarrow> vm_adapter \<Rightarrow> dp_status \<times> vm_adapter" where
  "VmAdapterProveCapability profiles args locked me kind answer p a =
     (if \<not> args then (DP_INVALID_ARGUMENT, a)
      else if \<not> locked then (DP_VM_ADAPTER_BUSY, a)
      else if \<not> CapabilityProofCallbackAvailable (va_callbacks a) then (DP_VM_BRIDGE_UNAVAILABLE, a)
      else if \<not> va_admission_open a then (DP_VM_ADAPTER_BUSY, a)
      else
        let transient_owner = (va_owner a = None);
            (owner, a1) = CheckAttachedOwner me a
        in if owner \<noteq> DP_OK then (owner, a1)
        else if va_observations a1 \<noteq> 0 then (DP_VM_ADAPTER_BUSY, a1)
        else
          let a2 = (if transient_owner \<and> \<not> va_isolate_entered a1 \<and> va_entered a1 = 0 \<and>
                       va_root_leases a1 = 0 \<and> va_transitions a1 = 0
                    then a1\<lparr>va_owner := None\<rparr> else a1)
          in if answer \<noteq> DP_OK then (answer, a2) else record_proof profiles kind p a2)"

definition VmAdapterGetCapabilityBinding :: "bool \<Rightarrow> u64 \<Rightarrow> vm_adapter \<Rightarrow>
    dp_status + capability_proof \<times> nat" where
  "VmAdapterGetCapabilityBinding args capability a =
     (if \<not> args then Inl DP_INVALID_ARGUMENT
      else if \<not> va_attached a \<or> \<not> va_admission_open a then Inl DP_VM_ADAPTER_BUSY
      else case CapabilityIndex capability of
             None \<Rightarrow> Inl DP_INVALID_ARGUMENT
           | Some i \<Rightarrow>
               if i \<ge> length (ab_capabilities (va_abi a)) then Inl DP_INVALID_ARGUMENT
               else
                 let binding = ab_capabilities (va_abi a) ! i; p = cb_proof binding in
                 if cp_capability p \<noteq> capability \<or> cp_profile_version p = 0 \<or>
                    cp_artifact_generation p \<noteq> ab_artifact_generation (va_abi a) \<or>
                    cp_isolate_generation p \<noteq> ab_isolate_generation (va_abi a) \<or>
                    cp_isolate_generation p \<noteq> iso_generation (va_isolate a)
                 then Inl DP_PROFILE_MISMATCH
                 else case cb_profile binding of
                        None \<Rightarrow> Inl DP_PROFILE_MISMATCH
                      | Some profile \<Rightarrow> Inr (p, profile))"

section \<open>Object handles\<close>

datatype object_strength = Strong | Weak

record object_handle =
  oh_adapter :: "nat nullable"
  oh_adapter_version :: u32
  oh_isolate :: isolate_identity
  oh_strength :: object_strength
  oh_kind :: u32
  oh_backend :: u64
  oh_released :: bool

definition VmAdapterCheckHandle :: "nat \<Rightarrow> thread_id \<Rightarrow> object_handle \<Rightarrow> vm_adapter \<Rightarrow> dp_status" where
  "VmAdapterCheckHandle self me h a =
     (if oh_adapter h \<noteq> Some self \<or> oh_released h \<or>
         oh_adapter_version h \<noteq> cb_adapter_version (va_callbacks a) then DP_OBJECT_HANDLE_INVALID
      else if \<not> SameIsolate (va_isolate a) (oh_isolate h) then DP_VM_ISOLATE_MISMATCH
      else CheckEntered me a)"

text \<open>The third component is the list of backend handles given back after a failed
  classification.\<close>

definition VmAdapterRetainObject :: "nat \<Rightarrow> thread_id \<Rightarrow> object_strength \<Rightarrow> dp_status \<times> u64 \<Rightarrow>
    dp_status \<times> u32 \<Rightarrow> vm_adapter \<Rightarrow> (dp_status + object_handle) \<times> u64 list \<times> vm_adapter" where
  "VmAdapterRetainObject self me strength retain classify a =
     (if \<not> va_admission_open a \<and> va_transitions a = 0 then (Inl DP_VM_ADAPTER_BUSY, [], a)
      else if CheckEntered me a \<noteq> DP_OK then (Inl (CheckEntered me a), [], a)
      else
        let (retained, backend) = retain; (classified, kind) = classify in
        if retained \<noteq> DP_OK \<or> backend = 0
        then (Inl (if retained = DP_OK then DP_OBJECT_HANDLE_INVALID else retained), [], a)
        else if classified \<noteq> DP_OK then (Inl classified, [backend], a)
        else (Inr \<lparr>oh_adapter = Some self, oh_adapter_version = cb_adapter_version (va_callbacks a),
                   oh_isolate = va_isolate a, oh_strength = strength, oh_kind = kind,
                   oh_backend = backend, oh_released = False\<rparr>, [],
              a\<lparr>va_live_handles := va_live_handles a + 1\<rparr>))"

definition VmAdapterSetRaw :: "thread_id \<Rightarrow> dp_status \<Rightarrow> object_handle \<Rightarrow> vm_adapter \<Rightarrow> dp_status" where
  "VmAdapterSetRaw me answer h a =
     (if oh_adapter h = None \<or> oh_released h then DP_OBJECT_HANDLE_INVALID
      else if CheckEntered me a \<noteq> DP_OK then CheckEntered me a
      else if \<not> SameIsolate (va_isolate a) (oh_isolate h) then DP_VM_ISOLATE_MISMATCH
      else answer)"

definition dartplant_object_release :: "dp_status \<Rightarrow> object_handle \<Rightarrow> vm_adapter \<Rightarrow>
    dp_status \<times> object_handle \<times> vm_adapter" where
  "dartplant_object_release answer h a =
     (if oh_adapter h = None \<or> oh_released h then (DP_OBJECT_HANDLE_INVALID, h, a)
      else if \<not> va_attached a \<or> \<not> SameIsolate (va_isolate a) (oh_isolate h)
      then (DP_VM_ISOLATE_MISMATCH, h, a)
      else if answer \<noteq> DP_OK then (answer, h, a)
      else (DP_OK, h\<lparr>oh_released := True, oh_backend := 0\<rparr>,
            a\<lparr>va_live_handles := (if va_live_handles a \<noteq> 0 then va_live_handles a - 1
                                   else va_live_handles a),
              va_released := va_released a + 1\<rparr>))"

definition dartplant_object_kind :: "object_handle \<Rightarrow> dp_status + u32" where
  "dartplant_object_kind h = (if oh_released h then Inl DP_OBJECT_HANDLE_INVALID else Inr (oh_kind h))"

definition dartplant_object_is_alive :: "thread_id \<Rightarrow> dp_status \<Rightarrow> object_handle \<Rightarrow> vm_adapter \<Rightarrow>
    dp_status" where
  "dartplant_object_is_alive me answer h a =
     (if oh_adapter h = None \<or> oh_released h then DP_OBJECT_HANDLE_INVALID
      else if CheckEntered me a \<noteq> DP_OK then CheckEntered me a
      else if \<not> SameIsolate (va_isolate a) (oh_isolate h) then DP_VM_ISOLATE_MISMATCH
      else answer)"

end
