(* ===== verification/Vm_Adapter_Props.thy ===== *)
theory Vm_Adapter_Props
  imports Vm_Adapter
begin

text \<open>
  The life of a VM adapter as a step relation over the operations of any thread, the
  invariant of its reachable states, exclusion during a heap observation, and the
  validity of the capability bindings it hands out.
\<close>

section \<open>Steps\<close>

inductive adapter_step :: "(u32 \<Rightarrow> nat option) \<Rightarrow> thread_id \<Rightarrow> vm_adapter \<Rightarrow> vm_adapter \<Rightarrow> bool"
  for profiles me where
  attach: "adapter_step profiles me a (snd (dartplant_vm_adapter_attach_isolate ident a))"
| detach: "adapter_step profiles me a (snd (dartplant_vm_adapter_detach_isolate ident a))"
| enter_isolate: "adapter_step profiles me a (snd (dartplant_vm_enter_isolate me ans a))"
| leave_isolate: "adapter_step profiles me a (snd (dartplant_vm_leave_isolate me ans a))"
| enter_scope: "adapter_step profiles me a (snd (dartplant_vm_enter_scope me ans a))"
| leave_scope: "adapter_step profiles me a (snd (dartplant_vm_leave_scope me ans a))"
| retain_hook: "adapter_step profiles me a (VmAdapterRetainHook a)"
| release_hook: "adapter_step profiles me a (VmAdapterReleaseHook a)"
| close_admission: "adapter_step profiles me a (VmAdapterCloseAdmission a)"
| open_admission: "adapter_step profiles me a (VmAdapterOpenAdmission a)"
| pin: "adapter_step profiles me a (snd (snd (VmAdapterPinGeneratedRoots args locked me ans lease a)))"
| unpin: "adapter_step profiles me a (snd (VmAdapterUnpinGeneratedRoots args locked me ans a))"
| to_native: "adapter_step profiles me a (snd (VmAdapterEnterGeneratedToNative args locked me ans a))"
| to_generated: "adapter_step profiles me a (snd (VmAdapterLeaveNativeToGenerated args me ans a))"
| type_arguments: "adapter_step profiles me a
    (snd (VmAdapterReadTypeArgumentsElementGenerated args locked me ans a))"
| begin_observation: "adapter_step profiles me a
    (snd (snd (VmAdapterBeginLiveHeapObservation args me thread ans lease a)))"
| end_observation: "adapter_step profiles me a (snd (VmAdapterEndLiveHeapObservation me lease ans a))"
| prove: "adapter_step profiles me a
    (snd (VmAdapterProveCapability profiles args locked me kind ans p a))"
| invalidate: "adapter_step profiles me a (ResetAbiBinding a)"
| retain: "adapter_step profiles me a (snd (snd (VmAdapterRetainObject self me strength rt cl a)))"
| release: "adapter_step profiles me a (snd (snd (dartplant_object_release ans h a)))"

inductive adapter_reachable :: "(u32 \<Rightarrow> nat option) \<Rightarrow> vm_adapter \<Rightarrow> bool" for profiles where
  create: "dartplant_vm_adapter_create c n = Inr a \<Longrightarrow> adapter_reachable profiles a"
| step: "adapter_reachable profiles a \<Longrightarrow> adapter_step profiles me a a' \<Longrightarrow> adapter_reachable profiles a'"

section \<open>Scopes, roots and transitions\<close>

definition scopes_ok :: "vm_adapter \<Rightarrow> bool" where
  "scopes_ok a \<longleftrightarrow>
     (va_attached a \<or> va_owner a = None \<and> va_entered a = 0 \<and> \<not> va_isolate_entered a \<and>
        va_root_leases a = 0 \<and> va_transitions a = 0 \<and> va_observations a = 0 \<and> va_live_handles a = 0) \<and>
     (va_entered a \<noteq> 0 \<or> va_isolate_entered a \<longrightarrow> va_owner a \<noteq> None) \<and>
     (va_transitions a = 0 \<or> va_transitions a = 1 \<and> va_root_leases a \<noteq> 0)"

definition observation_ok :: "vm_adapter \<Rightarrow> bool" where
  "observation_ok a \<longleftrightarrow>
     (va_observations a = 0 \<and> va_observation_thread a = None \<and> va_observation_lease a = 0 \<or>
      va_observations a = 1 \<and> va_attached a \<and> \<not> va_isolate_entered a \<and> va_observation_lease a \<noteq> 0 \<and>
        va_owner a \<noteq> None \<and> va_observation_thread a = va_owner a \<and>
        (va_transitions a = 1 \<and> va_root_leases a \<noteq> 0 \<or> va_transitions a = 0 \<and> va_entered a = 0))"

lemmas adapter_ops = dartplant_vm_adapter_attach_isolate_def dartplant_vm_adapter_detach_isolate_def
  dartplant_vm_enter_isolate_def dartplant_vm_leave_isolate_def dartplant_vm_enter_scope_def
  dartplant_vm_leave_scope_def VmAdapterRetainHook_def VmAdapterReleaseHook_def
  VmAdapterCloseAdmission_def VmAdapterOpenAdmission_def VmAdapterPinGeneratedRoots_def
  VmAdapterUnpinGeneratedRoots_def VmAdapterEnterGeneratedToNative_def
  VmAdapterLeaveNativeToGenerated_def VmAdapterReadTypeArgumentsElementGenerated_def
  VmAdapterBeginLiveHeapObservation_def VmAdapterEndLiveHeapObservation_def
  VmAdapterRetainObject_def dartplant_object_release_def
  CheckAttachedOwner_def CheckEntered_def SameOwner_def ResetAbiBinding_def

text \<open>The part of an adapter that recording a proof leaves alone.\<close>

lemma abi_self [simp]: "a\<lparr>va_abi := va_abi a\<rparr> = a" for a :: vm_adapter
  by simp

lemma record_proof_frame:
  "\<exists>abi. snd (record_proof profiles kind p a) = a\<lparr>va_abi := abi\<rparr>"
proof -
  have refl: "\<exists>abi. a = a\<lparr>va_abi := abi\<rparr>" by (rule exI [of _ "va_abi a"]) simp
  have reset: "\<exists>abi. (if c then ResetAbiBinding a else a) = a\<lparr>va_abi := abi\<rparr>" for c
    using refl by (auto simp: ResetAbiBinding_def)
  show ?thesis
    using refl reset [of "abi_generation_changed a p"]
    unfolding record_proof_def Let_def by (auto split: option.split)
qed

lemma scopes_ok_abi [simp]: "scopes_ok (a\<lparr>va_abi := abi\<rparr>) = scopes_ok a"
  by (simp add: scopes_ok_def)

lemma observation_ok_abi [simp]: "observation_ok (a\<lparr>va_abi := abi\<rparr>) = observation_ok a"
  by (simp add: observation_ok_def)

lemma owner_checked:
  assumes "CheckAttachedOwner me a = (st, a1)"
  shows "(st = DP_OK \<and> va_attached a \<and> a1 = a\<lparr>va_owner := Some me\<rparr> \<and> (va_owner a = None \<or> va_owner a = Some me))
    \<or> (st \<noteq> DP_OK \<and> a1 = a)"
  using assms by (auto simp: CheckAttachedOwner_def SameOwner_def Let_def split: if_splits)

text \<open>The shapes the operations give an adapter.\<close>

abbreviation own :: "thread_id \<Rightarrow> vm_adapter \<Rightarrow> vm_adapter" where
  "own me a \<equiv> a\<lparr>va_owner := Some me\<rparr>"

lemma own_same [simp]:
  "va_owner a = Some me \<Longrightarrow> own me a = a" "va_owner a = None \<Longrightarrow> a\<lparr>va_owner := None\<rparr> = a"
  for a :: vm_adapter
  by (cases a; simp)+

inductive adapter_change :: "thread_id \<Rightarrow> vm_adapter \<Rightarrow> vm_adapter \<Rightarrow> bool" for me a where
  same: "adapter_change me a a"
| frame: "adapter_change me a (a\<lparr>va_abi := abi, va_hook_refs := n, va_admission_open := b\<rparr>)"
| handles: "va_attached a \<Longrightarrow> adapter_change me a (a\<lparr>va_live_handles := n, va_released := r\<rparr>)"
| attach: "\<not> va_attached a \<Longrightarrow> adapter_change me a (a\<lparr>va_isolate := i, va_abi := abi, va_attached := True\<rparr>)"
| detach: "va_entered a = 0 \<Longrightarrow> \<not> va_isolate_entered a \<Longrightarrow> va_live_handles a = 0 \<Longrightarrow> va_root_leases a = 0 \<Longrightarrow>
    va_transitions a = 0 \<Longrightarrow> va_observations a = 0 \<Longrightarrow>
    adapter_change me a (a\<lparr>va_attached := False, va_abi := abi, va_isolate := isolate_0, va_owner := None\<rparr>)"
| claim: "va_attached a \<Longrightarrow> va_owner a = None \<or> va_owner a = Some me \<Longrightarrow> adapter_change me a (own me a)"
| enter_isolate: "va_attached a \<Longrightarrow> va_entered a = 0 \<Longrightarrow> va_observations a = 0 \<Longrightarrow>
    va_owner a = None \<or> va_owner a = Some me \<Longrightarrow> adapter_change me a ((own me a)\<lparr>va_isolate_entered := True\<rparr>)"
| leave_isolate: "va_isolate_entered a \<Longrightarrow> va_entered a = 0 \<Longrightarrow> va_owner a = Some me \<Longrightarrow>
    adapter_change me a (a\<lparr>va_isolate_entered := False, va_owner := None\<rparr>)"
| steal: "va_attached a \<Longrightarrow> va_observations a = 0 \<Longrightarrow> va_entered a = 0 \<or> va_owner a = Some me \<Longrightarrow>
    adapter_change me a (own me a)"
| enter_scope: "va_attached a \<Longrightarrow> va_observations a = 0 \<Longrightarrow> va_entered a = 0 \<or> va_owner a = Some me \<Longrightarrow>
    adapter_change me a ((own me a)\<lparr>va_entered := va_entered a + 1\<rparr>)"
| leave_scope: "va_attached a \<Longrightarrow> va_entered a \<noteq> 0 \<Longrightarrow> va_owner a = Some me \<Longrightarrow>
    adapter_change me a (a\<lparr>va_entered := va_entered a - 1\<rparr>)"
| leave_last_scope: "va_attached a \<Longrightarrow> va_entered a = 1 \<Longrightarrow> va_owner a = Some me \<Longrightarrow>
    \<not> va_isolate_entered a \<Longrightarrow> va_root_leases a = 0 \<Longrightarrow> va_transitions a = 0 \<Longrightarrow>
    adapter_change me a (a\<lparr>va_entered := 0, va_owner := None\<rparr>)"
| pin: "va_attached a \<Longrightarrow> va_transitions a = 0 \<Longrightarrow> va_entered a = 0 \<Longrightarrow> va_observations a = 0 \<Longrightarrow>
    va_owner a = None \<or> va_owner a = Some me \<Longrightarrow>
    adapter_change me a ((own me a)\<lparr>va_root_leases := va_root_leases a + 1\<rparr>)"
| unpin: "va_attached a \<Longrightarrow> va_transitions a = 0 \<Longrightarrow> va_entered a = 0 \<Longrightarrow> va_observations a = 0 \<Longrightarrow>
    va_owner a = None \<or> va_owner a = Some me \<Longrightarrow> va_root_leases a \<noteq> 0 \<Longrightarrow>
    adapter_change me a ((own me a)\<lparr>va_root_leases := va_root_leases a - 1\<rparr>)"
| unpin_last: "va_attached a \<Longrightarrow> va_transitions a = 0 \<Longrightarrow> va_entered a = 0 \<Longrightarrow> va_observations a = 0 \<Longrightarrow>
    va_owner a = None \<or> va_owner a = Some me \<Longrightarrow> va_root_leases a = 1 \<Longrightarrow> \<not> va_isolate_entered a \<Longrightarrow>
    adapter_change me a (a\<lparr>va_root_leases := 0, va_owner := None\<rparr>)"
| to_native: "va_attached a \<Longrightarrow> va_transitions a = 0 \<Longrightarrow> va_entered a = 0 \<Longrightarrow> va_observations a = 0 \<Longrightarrow>
    va_owner a = None \<or> va_owner a = Some me \<Longrightarrow> va_root_leases a \<noteq> 0 \<Longrightarrow>
    adapter_change me a ((own me a)\<lparr>va_transitions := 1\<rparr>)"
| to_generated: "va_transitions a \<noteq> 0 \<Longrightarrow> va_root_leases a \<noteq> 0 \<Longrightarrow> va_observations a = 0 \<Longrightarrow>
    va_owner a = Some me \<Longrightarrow> va_entered a = 0 \<Longrightarrow>
    adapter_change me a (a\<lparr>va_transitions := va_transitions a - 1\<rparr>)"
| begin_observation: "va_attached a \<Longrightarrow> va_observations a = 0 \<Longrightarrow> \<not> va_isolate_entered a \<Longrightarrow>
    va_transitions a = 1 \<and> va_root_leases a \<noteq> 0 \<or> va_transitions a = 0 \<and> va_entered a = 0 \<Longrightarrow>
    va_owner a = None \<or> va_owner a = Some me \<Longrightarrow> lease \<noteq> 0 \<Longrightarrow>
    adapter_change me a ((own me a)\<lparr>va_observations := 1, va_observation_thread := Some me,
      va_observation_vm_thread := t, va_observation_lease := lease\<rparr>)"
| end_observation: "va_observations a = 1 \<Longrightarrow> va_observation_thread a = Some me \<Longrightarrow>
    adapter_change me a (a\<lparr>va_observations := 0, va_observation_thread := None,
      va_observation_vm_thread := 0, va_observation_lease := 0\<rparr>)"
| end_observation_release: "va_observations a = 1 \<Longrightarrow> va_observation_thread a = Some me \<Longrightarrow>
    va_entered a = 0 \<Longrightarrow> \<not> va_isolate_entered a \<Longrightarrow> va_root_leases a = 0 \<Longrightarrow> va_transitions a = 0 \<Longrightarrow>
    adapter_change me a (a\<lparr>va_observations := 0, va_observation_thread := None,
      va_observation_vm_thread := 0, va_observation_lease := 0, va_owner := None\<rparr>)"
| prove: "va_attached a \<Longrightarrow> va_observations a = 0 \<Longrightarrow> va_owner a = None \<or> va_owner a = Some me \<Longrightarrow>
    adapter_change me a ((own me a)\<lparr>va_abi := abi\<rparr>)"
| prove_transient: "va_attached a \<Longrightarrow> va_observations a = 0 \<Longrightarrow> va_owner a = None \<Longrightarrow>
    \<not> va_isolate_entered a \<Longrightarrow> va_entered a = 0 \<Longrightarrow> va_root_leases a = 0 \<Longrightarrow> va_transitions a = 0 \<Longrightarrow>
    adapter_change me a (a\<lparr>va_abi := abi\<rparr>)"

lemma change_invariant:
  assumes "adapter_change me a a'" and "scopes_ok a" and "observation_ok a"
  shows "scopes_ok a' \<and> observation_ok a'"
  using assms(1) by cases (use assms(2,3) in \<open>simp_all add: scopes_ok_def observation_ok_def\<close>, auto?)

lemma frame_same:
  "adapter_change me a (a\<lparr>va_abi := abi\<rparr>)" "adapter_change me a (a\<lparr>va_hook_refs := n\<rparr>)"
  "adapter_change me a (a\<lparr>va_admission_open := b\<rparr>)"
  using adapter_change.frame [where me = me and a = a and abi = abi and n = "va_hook_refs a" and b = "va_admission_open a"]
    adapter_change.frame [where me = me and a = a and abi = "va_abi a" and n = n and b = "va_admission_open a"]
    adapter_change.frame [where me = me and a = a and abi = "va_abi a" and n = "va_hook_refs a" and b = b]
  by simp_all

lemma simple_changes:
  "adapter_change me a (snd (dartplant_vm_adapter_attach_isolate ident a))"
  "adapter_change me a (snd (dartplant_vm_adapter_detach_isolate ident a))"
  "adapter_change me a (snd (dartplant_vm_enter_isolate me ans a))"
  "adapter_change me a (snd (dartplant_vm_leave_isolate me ans a))"
  "adapter_change me a (VmAdapterRetainHook a)" "adapter_change me a (VmAdapterReleaseHook a)"
  "adapter_change me a (VmAdapterCloseAdmission a)" "adapter_change me a (VmAdapterOpenAdmission a)"
  "adapter_change me a (ResetAbiBinding a)"
  unfolding dartplant_vm_adapter_attach_isolate_def dartplant_vm_adapter_detach_isolate_def
    dartplant_vm_enter_isolate_def dartplant_vm_leave_isolate_def VmAdapterRetainHook_def
    VmAdapterReleaseHook_def VmAdapterCloseAdmission_def VmAdapterOpenAdmission_def
    ResetAbiBinding_def SameOwner_def Let_def
  using adapter_change.enter_isolate [of a me] adapter_change.claim [of a me]
  by (auto simp: adapter_change.same frame_same
      intro: adapter_change.attach adapter_change.detach adapter_change.leave_isolate)

lemma scope_changes:
  "adapter_change me a (snd (dartplant_vm_enter_scope me ans a))"
  "adapter_change me a (snd (dartplant_vm_leave_scope me ans a))"
proof -
  show "adapter_change me a (snd (dartplant_vm_enter_scope me ans a))"
    unfolding dartplant_vm_enter_scope_def SameOwner_def Let_def
    using adapter_change.steal [of a me] adapter_change.enter_scope [of a me]
    by (auto simp: adapter_change.same)
  have one: "va_entered a - 1 = 0 \<longleftrightarrow> va_entered a = 1" by (metis eq_iff_diff_eq_0)
  show "adapter_change me a (snd (dartplant_vm_leave_scope me ans a))"
    unfolding dartplant_vm_leave_scope_def SameOwner_def CheckEntered_def Let_def
    using adapter_change.leave_scope [of a me] adapter_change.leave_last_scope [of a me]
    by (auto simp: adapter_change.same one)
qed

lemma bridge_changes:
  "adapter_change me a (snd (snd (VmAdapterPinGeneratedRoots args locked me ans lease a)))"
  "adapter_change me a (snd (VmAdapterUnpinGeneratedRoots args locked me ans a))"
  "adapter_change me a (snd (VmAdapterEnterGeneratedToNative args locked me ans a))"
  "adapter_change me a (snd (VmAdapterReadTypeArgumentsElementGenerated args locked me ans a))"
  "adapter_change me a (snd (VmAdapterLeaveNativeToGenerated args me ans a))"
proof -
  obtain st a1 where c: "CheckAttachedOwner me a = (st, a1)" by (cases "CheckAttachedOwner me a")
  note o = owner_checked [OF c]
  have one: "va_root_leases a - 1 = 0 \<longleftrightarrow> va_root_leases a = 1" by (metis eq_iff_diff_eq_0)
  note ch = adapter_change.claim [of a me] adapter_change.pin [of a me] adapter_change.unpin [of a me]
    adapter_change.unpin_last [of a me] adapter_change.to_native [of a me]
  show "adapter_change me a (snd (snd (VmAdapterPinGeneratedRoots args locked me ans lease a)))"
    unfolding VmAdapterPinGeneratedRoots_def c Let_def prod.case
    using o ch by (auto simp: adapter_change.same)
  show "adapter_change me a (snd (VmAdapterUnpinGeneratedRoots args locked me ans a))"
    unfolding VmAdapterUnpinGeneratedRoots_def c Let_def prod.case
    using o ch by (auto simp: adapter_change.same one)
  show "adapter_change me a (snd (VmAdapterEnterGeneratedToNative args locked me ans a))"
    unfolding VmAdapterEnterGeneratedToNative_def c Let_def prod.case
    using o ch by (auto simp: adapter_change.same)
  show "adapter_change me a (snd (VmAdapterReadTypeArgumentsElementGenerated args locked me ans a))"
    unfolding VmAdapterReadTypeArgumentsElementGenerated_def c Let_def prod.case
    using o ch by (auto simp: adapter_change.same)
  show "adapter_change me a (snd (VmAdapterLeaveNativeToGenerated args me ans a))"
    unfolding VmAdapterLeaveNativeToGenerated_def SameOwner_def
    using adapter_change.to_generated [of a me] by (auto simp: adapter_change.same)
qed

lemma observation_changes:
  "adapter_change me a (snd (snd (VmAdapterBeginLiveHeapObservation args me thread ans lease a)))"
  "adapter_change me a (snd (VmAdapterEndLiveHeapObservation me lease ans a))"
proof -
  have undo: "va_owner a = None \<Longrightarrow> (own me a)\<lparr>va_owner := None\<rparr> = a" by (cases a) simp
  show "adapter_change me a (snd (snd (VmAdapterBeginLiveHeapObservation args me thread ans lease a)))"
    unfolding VmAdapterBeginLiveHeapObservation_def SameOwner_def Let_def
    using adapter_change.begin_observation [where a = a and me = me and lease = lease] undo by (auto simp: adapter_change.same)
  show "adapter_change me a (snd (VmAdapterEndLiveHeapObservation me lease ans a))"
    unfolding VmAdapterEndLiveHeapObservation_def Let_def
    using adapter_change.end_observation [of a me] adapter_change.end_observation_release [of a me]
    by (auto simp: adapter_change.same)
qed

lemma prove_changes:
  "adapter_change me a (snd (VmAdapterProveCapability profiles args locked me kind ans p a))"
proof -
  obtain st a1 where c: "CheckAttachedOwner me a = (st, a1)" by (cases "CheckAttachedOwner me a")
  note o = owner_checked [OF c]
  have undo: "va_owner a = None \<Longrightarrow> (own me a)\<lparr>va_owner := None\<rparr> = a" by (cases a) simp
  obtain abi where r: "snd (record_proof profiles kind p x) = x\<lparr>va_abi := abi x\<rparr>" for x
    using record_proof_frame by metis
  show ?thesis
    unfolding VmAdapterProveCapability_def c Let_def prod.case
    using o undo adapter_change.claim [of a me] adapter_change.prove [of a me]
      adapter_change.prove_transient [of a me]
    by (auto simp: adapter_change.same r)
qed

lemma handle_changes:
  "adapter_change me a (snd (snd (VmAdapterRetainObject self me strength rt cl a)))"
  "adapter_change me a (snd (snd (dartplant_object_release ans h a)))"
proof -
  have h: "va_attached a \<Longrightarrow> adapter_change me a (a\<lparr>va_live_handles := n\<rparr>)" for n
    using adapter_change.handles [where a = a and me = me and n = n and r = "va_released a"] by simp
  have at: "CheckEntered me a = DP_OK \<Longrightarrow> va_attached a" by (auto simp: CheckEntered_def split: if_splits)
  show "adapter_change me a (snd (snd (VmAdapterRetainObject self me strength rt cl a)))"
    unfolding VmAdapterRetainObject_def Let_def
    using h at by (auto simp: adapter_change.same split: prod.split)
  show "adapter_change me a (snd (snd (dartplant_object_release ans h a)))"
    unfolding dartplant_object_release_def
    using adapter_change.handles [where a = a and me = me] by (auto simp: adapter_change.same)
qed

lemma step_change: "adapter_step profiles me a a' \<Longrightarrow> adapter_change me a a'"
  by (induction rule: adapter_step.induct)
    (simp_all add: simple_changes scope_changes bridge_changes observation_changes prove_changes handle_changes)

lemma reachable_invariant: "adapter_reachable profiles a \<Longrightarrow> scopes_ok a \<and> observation_ok a"
proof (induction rule: adapter_reachable.induct)
  case (create c n a)
  then show ?case
    by (auto simp: dartplant_vm_adapter_create_def scopes_ok_def observation_ok_def split: if_splits)
next
  case (step a me a')
  then show ?case using step_change change_invariant by blast
qed

text \<open>
  C24: In every state the operations of any number of threads can reach: an adapter without
  an isolate has nothing open; an open scope or entered isolate has an owner; at most one
  generated-to-native transition is open, and only over pinned roots; and at most one heap
  observation is open, owned by the thread that began it, with no entered isolate and no scope
  outside such a transition.
\<close>

theorem adapter_invariant:
  assumes "adapter_reachable profiles a"
  shows "(\<not> va_attached a \<longrightarrow> va_owner a = None \<and> va_live_handles a = 0 \<and> VmAdapterCheckQuiescent
        (a\<lparr>va_hook_refs := 0\<rparr>) = DP_OK) \<and>
    (va_entered a \<noteq> 0 \<or> va_isolate_entered a \<longrightarrow> va_owner a \<noteq> None) \<and>
    (va_transitions a \<noteq> 0 \<longrightarrow> va_transitions a = 1 \<and> va_root_leases a \<noteq> 0) \<and>
    (va_observations a \<noteq> 0 \<longrightarrow> va_observations a = 1 \<and> va_attached a \<and> \<not> va_isolate_entered a \<and>
       va_observation_thread a = va_owner a \<and> va_owner a \<noteq> None \<and>
       (va_entered a \<noteq> 0 \<longrightarrow> va_transitions a = 1))"
proof -
  have "scopes_ok a" "observation_ok a" using reachable_invariant [OF assms] by auto
  then show ?thesis by (auto simp: scopes_ok_def observation_ok_def VmAdapterCheckQuiescent_def)
qed

text \<open>A full set of callbacks, and an adapter attached to an isolate.\<close>

definition full_callbacks :: adapter_callbacks where
  "full_callbacks = \<lparr>cb_struct_size = 176, cb_adapter_version = 5, cb_enter_isolate = True,
     cb_leave_isolate = True, cb_enter_scope = True, cb_leave_scope = True, cb_retain_object = True,
     cb_release_object = True, cb_object_kind = True, cb_object_to_raw = True,
     cb_object_is_alive = True, cb_pin_generated_roots = True, cb_generated_root_get = True,
     cb_generated_root_set = True, cb_unpin_generated_roots = True,
     cb_enter_generated_to_native = True, cb_leave_native_to_generated = True,
     cb_read_active_exception = True, cb_read_active_stacktrace = True,
     cb_read_type_arguments_element = True, cb_prove_capability = True,
     cb_begin_live_heap_observation = True, cb_end_live_heap_observation = True\<rparr>"

definition fresh_adapter :: vm_adapter where
  "fresh_adapter = projr (dartplant_vm_adapter_create full_callbacks 17)"

definition attached_adapter :: vm_adapter where
  "attached_adapter = snd (dartplant_vm_adapter_attach_isolate
     \<lparr>iso_isolate = 1, iso_group = 2, iso_generation = 3\<rparr> fresh_adapter)"

lemma attached_reachable: "adapter_reachable profiles attached_adapter"
proof -
  have "dartplant_vm_adapter_create full_callbacks 17 = Inr fresh_adapter"
    by (simp add: fresh_adapter_def dartplant_vm_adapter_create_def full_callbacks_def
        ValidAdapterCallbacks_def kVmAdapterCallbacksV1Size_def CapabilityProofCallbackAvailable_def
        LiveHeapObservationCallbacksAvailable_def)
  then have "adapter_reachable profiles fresh_adapter" by (rule adapter_reachable.create)
  then show ?thesis
    unfolding attached_adapter_def by (rule adapter_reachable.step) (rule adapter_step.attach)
qed

definition pinned_adapter :: vm_adapter where
  "pinned_adapter = snd (snd (VmAdapterPinGeneratedRoots True True 7 DP_OK 0x99 attached_adapter))"

definition native_adapter :: vm_adapter where
  "native_adapter = snd (VmAdapterEnterGeneratedToNative True True 7 DP_OK pinned_adapter)"

lemma native_reachable: "adapter_reachable profiles pinned_adapter" "adapter_reachable profiles native_adapter"
proof -
  show p: "adapter_reachable profiles pinned_adapter"
    unfolding pinned_adapter_def using attached_reachable adapter_step.pin by (rule adapter_reachable.step)
  show "adapter_reachable profiles native_adapter"
    unfolding native_adapter_def using p adapter_step.to_native by (rule adapter_reachable.step)
qed

theorem adapter_invariant_witness: "va_transitions native_adapter \<noteq> 0 \<and> va_root_leases native_adapter \<noteq> 0"
proof -
  have "va_transitions native_adapter \<noteq> 0" by code_simp
  then show ?thesis using adapter_invariant [OF native_reachable(2)] by blast
qed


definition observed_adapter :: vm_adapter where
  "observed_adapter = snd (snd (VmAdapterBeginLiveHeapObservation True 7 5 DP_OK 0x77 attached_adapter))"


section \<open>Capability bindings\<close>

definition binding_ok :: "(u32 \<Rightarrow> nat option) \<Rightarrow> capability_binding \<Rightarrow> bool" where
  "binding_ok profiles b \<longleftrightarrow> (cp_capability (cb_proof b) \<noteq> 0 \<longrightarrow>
     cp_artifact_generation (cb_proof b) \<noteq> 0 \<and>
     cb_profile b \<noteq> None \<and> profiles (cp_profile_version (cb_proof b)) = cb_profile b)"

definition abi_ok :: "(u32 \<Rightarrow> nat option) \<Rightarrow> vm_adapter \<Rightarrow> bool" where
  "abi_ok profiles a \<longleftrightarrow> (\<forall>b \<in> set (ab_capabilities (va_abi a)). binding_ok profiles b)"

lemma binding_ok_0 [simp]: "binding_ok profiles capability_binding_0"
  by (simp add: binding_ok_def capability_binding_0_def capability_proof_0_def)

lemma abi_ok_reset [simp]: "abi_ok profiles (ResetAbiBinding a)"
  by (simp add: abi_ok_def ResetAbiBinding_def)

lemma record_proof_caps:
  defines "base \<equiv> \<lambda>a p. if abi_generation_changed a p then ab_capabilities (va_abi (ResetAbiBinding a))
    else ab_capabilities (va_abi a)"
  shows "ab_capabilities (va_abi (snd (record_proof profiles kind p a))) \<in>
      {ab_capabilities (va_abi a), base a p} \<or>
    (\<exists>i q. cp_artifact_generation p \<noteq> 0 \<and> profiles (cp_profile_version p) = Some q \<and>
      ab_capabilities (va_abi (snd (record_proof profiles kind p a))) =
        (base a p)[i := \<lparr>cb_proof = p, cb_profile = Some q\<rparr>])"
  unfolding record_proof_def Let_def base_def
  by (cases "abi_generation_changed a p") (auto split: option.split)

lemma abi_ok_record_proof:
  assumes "abi_ok profiles a"
  shows "abi_ok profiles (snd (record_proof profiles kind p a))"
proof -
  let ?base = "if abi_generation_changed a p then ab_capabilities (va_abi (ResetAbiBinding a))
    else ab_capabilities (va_abi a)"
  have base: "\<forall>b \<in> set ?base. binding_ok profiles b"
    using assms abi_ok_reset [of profiles a] by (auto simp: abi_ok_def)
  have "\<forall>b \<in> set (?base[i := \<lparr>cb_proof = p, cb_profile = Some q\<rparr>]). binding_ok profiles b"
    if "cp_artifact_generation p \<noteq> 0" "profiles (cp_profile_version p) = Some q" for i q
  proof
    fix b assume "b \<in> set (?base[i := \<lparr>cb_proof = p, cb_profile = Some q\<rparr>])"
    then have "b = \<lparr>cb_proof = p, cb_profile = Some q\<rparr> \<or> b \<in> set ?base"
      using set_update_subset_insert by fastforce
    then show "binding_ok profiles b" using base that by (auto simp: binding_ok_def)
  qed
  then show ?thesis
    using record_proof_caps [of profiles kind p a] base assms unfolding abi_ok_def by fastforce
qed

lemma step_abi:
  "adapter_step profiles me a a' \<Longrightarrow> abi_ok profiles a \<Longrightarrow> abi_ok profiles a'"
proof (induction rule: adapter_step.induct)
  case (prove a args locked kind ans p)
  obtain st a1 where c: "CheckAttachedOwner me a = (st, a1)" by (cases "CheckAttachedOwner me a")
  have "va_abi a1 = va_abi a" using owner_checked [OF c] by auto
  then have "abi_ok profiles a1" "abi_ok profiles (a1\<lparr>va_owner := None\<rparr>)"
    using prove by (simp_all add: abi_ok_def)
  then show ?case
    using prove abi_ok_record_proof unfolding VmAdapterProveCapability_def c Let_def by auto
next
  case (attach a ident)
  have "va_abi (snd (dartplant_vm_adapter_attach_isolate ident a)) \<in>
      {va_abi a, va_abi (ResetAbiBinding a)}"
    by (simp add: dartplant_vm_adapter_attach_isolate_def ResetAbiBinding_def)
  then show ?case using attach abi_ok_reset [of profiles a] by (auto simp: abi_ok_def)
next
  case (detach a ident)
  have "va_abi (snd (dartplant_vm_adapter_detach_isolate ident a)) \<in>
      {va_abi a, va_abi (ResetAbiBinding a)}"
    by (simp add: dartplant_vm_adapter_detach_isolate_def ResetAbiBinding_def)
  then show ?case using detach abi_ok_reset [of profiles a] by (auto simp: abi_ok_def)
qed (simp_all add: adapter_ops abi_ok_def Let_def case_prod_beta)

lemma reachable_abi: "adapter_reachable profiles a \<Longrightarrow> abi_ok profiles a"
proof (induction rule: adapter_reachable.induct)
  case (create c n a)
  then show ?case
    by (auto simp: dartplant_vm_adapter_create_def abi_ok_def split: if_splits)
qed (rule step_abi)

text \<open>
  C26: A capability binding is handed out only for the attached isolate's generation, names
  the profile of the table with the proof's version and a known artifact, and any two
  bindings handed out in the same state belong to the same artifact and isolate generation.
\<close>

theorem capability_binding_sound:
  assumes "adapter_reachable profiles a"
    and "VmAdapterGetCapabilityBinding True capability a = Inr (p, profile)"
  shows "cp_capability p = capability \<and> profiles (cp_profile_version p) = Some profile \<and>
    va_attached a \<and> va_admission_open a \<and> cp_artifact_generation p \<noteq> 0 \<and>
    cp_isolate_generation p = iso_generation (va_isolate a) \<and>
    (\<forall>capability' p' profile'. VmAdapterGetCapabilityBinding True capability' a = Inr (p', profile') \<longrightarrow>
       cp_artifact_generation p' = cp_artifact_generation p \<and>
       cp_isolate_generation p' = cp_isolate_generation p)"
proof -
  have get: "va_attached a \<and> va_admission_open a \<and> cp_capability q = c \<and> q \<in> cb_proof ` set (ab_capabilities (va_abi a)) \<and>
      \<lparr>cb_proof = q, cb_profile = Some x\<rparr> \<in> set (ab_capabilities (va_abi a)) \<and>
      cp_artifact_generation q = ab_artifact_generation (va_abi a) \<and> c \<noteq> 0 \<and>
      cp_isolate_generation q = iso_generation (va_isolate a)"
    if g: "VmAdapterGetCapabilityBinding True c a = Inr (q, x)" for c q x
  proof -
    obtain i where i: "CapabilityIndex c = Some i" "i < length (ab_capabilities (va_abi a))"
      and b: "cb_proof (ab_capabilities (va_abi a) ! i) = q" "cb_profile (ab_capabilities (va_abi a) ! i) = Some x"
      and r: "va_attached a" "va_admission_open a" "cp_capability q = c"
        "cp_artifact_generation q = ab_artifact_generation (va_abi a)"
        "cp_isolate_generation q = iso_generation (va_isolate a)"
      using g by (auto simp: VmAdapterGetCapabilityBinding_def Let_def not_le split: if_splits option.splits)
    have "ab_capabilities (va_abi a) ! i = \<lparr>cb_proof = q, cb_profile = Some x\<rparr>" using b by simp
    then have "\<lparr>cb_proof = q, cb_profile = Some x\<rparr> \<in> set (ab_capabilities (va_abi a))"
      using i(2) by (metis nth_mem)
    moreover have "c \<noteq> 0" using i(1) by (auto simp: CapabilityIndex_def)
    ultimately show ?thesis using r by force
  qed
  have "binding_ok profiles \<lparr>cb_proof = p, cb_profile = Some profile\<rparr>"
    using get [OF assms(2)] reachable_abi [OF assms(1)] by (auto simp: abi_ok_def)
  then have "profiles (cp_profile_version p) = Some profile" "cp_artifact_generation p \<noteq> 0"
    using get [OF assms(2)] by (auto simp: binding_ok_def)
  then show ?thesis using get [OF assms(2)] get by (metis (no_types, lifting))
qed

definition example_proof :: capability_proof where
  "example_proof = \<lparr>cp_capability = 0x800, cp_profile_version = 9, cp_artifact_generation = 4,
     cp_isolate_generation = 3, cp_resolved_target = 0\<rparr>"

definition example_profiles :: "u32 \<Rightarrow> nat option" where
  "example_profiles v = (if v = 9 then Some 0 else None)"

definition proven_adapter :: vm_adapter where
  "proven_adapter = snd (VmAdapterProveCapability example_profiles True True 7 EvInvocationCallAbi DP_OK
     example_proof attached_adapter)"

theorem capability_binding_sound_witness: "example_profiles (cp_profile_version example_proof) = Some 0"
proof -
  have r: "adapter_reachable example_profiles proven_adapter"
    unfolding proven_adapter_def using attached_reachable adapter_step.prove by (rule adapter_reachable.step)
  have "VmAdapterGetCapabilityBinding True 0x800 proven_adapter = Inr (example_proof, 0)" by code_simp
  then show ?thesis using capability_binding_sound [OF r] by blast
qed

section \<open>Ownership is not exclusive\<close>

text \<open>
  A thread that has entered the isolate loses the adapter to any other thread that opens a
  scope: \<open>dartplant_vm_enter_scope\<close> compares the owner only when a scope is already open.
\<close>

definition entered_adapter :: vm_adapter where
  "entered_adapter = snd (dartplant_vm_enter_isolate 7 DP_OK attached_adapter)"

lemma scope_steals_owner:
  "va_owner entered_adapter = Some 7" "va_isolate_entered entered_adapter"
  "fst (dartplant_vm_enter_scope 8 DP_OK entered_adapter) = DP_OK"
  "va_owner (snd (dartplant_vm_enter_scope 8 DP_OK entered_adapter)) = Some 8"
  by code_simp+

text \<open>A failed \<open>enter_isolate\<close> callback leaves an idle adapter owned by the caller.\<close>

lemma failed_entry_keeps_owner:
  "va_owner (snd (dartplant_vm_enter_isolate 7 DP_VM_ADAPTER_BUSY attached_adapter)) = Some 7"
  "fst (dartplant_vm_enter_isolate 8 DP_OK
     (snd (dartplant_vm_enter_isolate 7 DP_VM_ADAPTER_BUSY attached_adapter))) = DP_VM_THREAD_MISMATCH"
  by code_simp+

end
