(* ===== verification/Arm64_Code.thy ===== *)
theory Arm64_Code
  imports Prelude
begin

text \<open>
  The ARM64 instructions \<^verbatim>\<open>src/interceptor/arm64_bridge.cpp\<close> reads and writes: which words
  end or divert control flow, the direct branches it decodes and the one it encodes, and
  \<open>CollectReachableArm64Returns\<close>, which walks the control flow graph of a function body and
  returns every RET an execution can reach, or refuses the body.
\<close>

section \<open>Instructions\<close>

definition IsDartReturn :: "u32 \<Rightarrow> bool" where
  "IsDartReturn instruction = (instruction = 0xd65f03c0)"

definition IsTerminalTrap :: "u32 \<Rightarrow> bool" where
  "IsTerminalTrap instruction = (instruction AND 0xffe0001f = 0xd4200000)"

definition SignExtend :: "u64 \<Rightarrow> nat \<Rightarrow> u64" where
  "SignExtend value bits = (let s = push_bit (bits - 1) 1 in (value XOR s) - s)"

definition IsIndirectBranch :: "u32 \<Rightarrow> bool" where
  "IsIndirectBranch instruction =
     (if instruction AND 0xfe000000 \<noteq> 0xd6000000 then False
      else \<not> (instruction AND push_bit 21 1 \<noteq> 0 \<and> instruction AND push_bit 22 1 = 0))"

text \<open>The displacement (an \<open>int64_t\<close>) and whether the branch may fall through.\<close>

definition DecodeDirectBranch :: "u32 \<Rightarrow> (u64 \<times> bool) option" where
  "DecodeDirectBranch instruction =
     (if instruction AND 0xfc000000 = 0x14000000
      then Some (push_bit 2 (SignExtend (ucast (instruction AND 0x03ffffff)) 26), False)
      else if instruction AND 0xff000010 = 0x54000000
      then Some (push_bit 2 (SignExtend (ucast (drop_bit 5 instruction AND 0x7ffff)) 19), True)
      else if instruction AND 0x7e000000 = 0x34000000
      then Some (push_bit 2 (SignExtend (ucast (drop_bit 5 instruction AND 0x7ffff)) 19), True)
      else if instruction AND 0x7e000000 = 0x36000000
      then Some (push_bit 2 (SignExtend (ucast (drop_bit 5 instruction AND 0x3fff)) 14), True)
      else None)"

definition kArm64BranchReach :: u64 where "kArm64BranchReach = 0x8000000"

definition EncodeDirectBranch :: "ptr \<Rightarrow> ptr \<Rightarrow> u32 option" where
  "EncodeDirectBranch from_pc to_pc =
     (if from_pc AND 3 \<noteq> 0 \<or> to_pc AND 3 \<noteq> 0 then None
      else let delta = to_pc - from_pc in
        if delta AND 3 \<noteq> 0 \<or> sint delta \<le> - sint kArm64BranchReach \<or>
           sint delta \<ge> sint kArm64BranchReach then None
        else let imm26 = signed_drop_bit 2 delta in
          Some (0x14000000 OR (ucast imm26 AND 0x03ffffff)))"

section \<open>The reachable returns\<close>

definition instruction_at :: "u8 list \<Rightarrow> nat \<Rightarrow> u32" where
  "instruction_at code index = of_nat (field code (4 * index) 4)"

definition pc_at :: "ptr \<Rightarrow> nat \<Rightarrow> ptr" where
  "pc_at logical_start index = logical_start + of_nat (4 * index)"

definition enqueue_index :: "ptr \<Rightarrow> nat \<Rightarrow> ptr \<Rightarrow> nat option" where
  "enqueue_index logical_start size' target =
     (if target < logical_start \<or> target \<ge> logical_start + of_nat size' \<or> target AND 3 \<noteq> 0 then None
      else let index = unat (target - logical_start) div 4 in
        if index \<ge> size' div 4 then None else Some index)"

text \<open>
  What one instruction does to the walk: it is a return, it ends the path, it makes the body
  unsupported, or the path goes on at the listed indices (the last pushed first).
\<close>

datatype flow = FlowReturn | FlowStop | FlowRefuse | FlowNext "nat list"

definition fallthrough :: "nat \<Rightarrow> nat \<Rightarrow> nat list \<Rightarrow> flow" where
  "fallthrough n index pushed = (if index + 1 \<ge> n then FlowRefuse else FlowNext ((index + 1) # pushed))"

definition flow_at :: "u8 list \<Rightarrow> ptr \<Rightarrow> nat \<Rightarrow> flow" where
  "flow_at code logical_start index =
     (let instruction = instruction_at code index; n = length code div 4 in
      if IsDartReturn instruction then FlowReturn
      else if IsTerminalTrap instruction then FlowStop
      else if IsIndirectBranch instruction then FlowRefuse
      else case DecodeDirectBranch instruction of
        Some (branch_delta, conditional) \<Rightarrow>
          let signed_target = pc_at logical_start index + branch_delta in
          if sint signed_target < 0 then FlowRefuse
          else (case enqueue_index logical_start (length code) signed_target of
              None \<Rightarrow> FlowRefuse
            | Some t \<Rightarrow> if \<not> conditional then FlowNext [t] else fallthrough n index [t])
      | None \<Rightarrow> fallthrough n index [])"

definition unvisited :: "bool list \<Rightarrow> nat" where
  "unvisited visited = length (filter Not visited)"

lemma unvisited_visit: "i < length v \<Longrightarrow> \<not> v ! i \<Longrightarrow> unvisited (v[i := True]) < unvisited v"
proof (induction v arbitrary: i)
  case (Cons b v)
  then show ?case by (cases i) (auto simp: unvisited_def)
qed simp

text \<open>
  The worklist loop. The back of the vector \<open>pending\<close> is the head of the list. An index out
  of range would be an access out of bounds; \<open>enqueue\<close> and the fallthrough check never push
  one (lemma \<open>flow_next_in_range\<close>), so that branch is not reached from index 0.
\<close>

function collect_loop :: "u8 list \<Rightarrow> ptr \<Rightarrow> bool list \<Rightarrow> nat list \<Rightarrow> (ptr \<times> u32) list \<Rightarrow>
    (ptr \<times> u32) list option" where
  "collect_loop code start visited [] out_returns = Some out_returns"
| "collect_loop code start visited (index # pending) out_returns =
     (if index \<ge> length visited then None
      else if visited ! index then collect_loop code start visited pending out_returns
      else let visited' = visited[index := True] in
        case flow_at code start index of
          FlowReturn \<Rightarrow> collect_loop code start visited' pending
                          (out_returns @ [(pc_at start index, instruction_at code index)])
        | FlowStop \<Rightarrow> collect_loop code start visited' pending out_returns
        | FlowRefuse \<Rightarrow> None
        | FlowNext next_indices \<Rightarrow>
            collect_loop code start visited' (next_indices @ pending) out_returns)"
  by pat_completeness auto

termination
  by (relation "measures [\<lambda>(code, start, visited, pending, out). unvisited visited,
                          \<lambda>(code, start, visited, pending, out). length pending]")
     (auto simp: unvisited_visit)

fun unique_sites :: "(ptr \<times> u32) list \<Rightarrow> (ptr \<times> u32) list" where
  "unique_sites [] = []"
| "unique_sites [r] = [r]"
| "unique_sites (r # s # rs) =
     (if fst r = fst s then unique_sites (r # rs) else r # unique_sites (s # rs))"

definition CollectReachableArm64Returns :: "u8 list \<Rightarrow> ptr \<Rightarrow> (ptr \<times> u32) list option" where
  "CollectReachableArm64Returns code logical_start =
     (if length code < 4 \<or> logical_start AND 3 \<noteq> 0 \<or> length code mod 4 \<noteq> 0 \<or>
         unat logical_start + length code > unat UINT64_MAX then None
      else case collect_loop code logical_start (replicate (length code div 4) False) [0] [] of
        None \<Rightarrow> None
      | Some out_returns \<Rightarrow>
          let sites = unique_sites (sort_key fst out_returns) in
          if sites = [] then None else Some sites)"

end
