(* ===== verification/Arm64_Code_Props.thy ===== *)
theory Arm64_Code_Props
  imports Arm64_Code
begin

text \<open>
  What holds of the ARM64 code functions: a branch the library encodes decodes to the same
  displacement, and the walk over a function body finds exactly the returns that control flow
  can reach.
\<close>

section \<open>Branches\<close>

lemma aligned_eq: "a AND 3 = 0 \<longleftrightarrow> take_bit 2 a = 0" for a :: u64
  by (simp add: take_bit_eq_mask mask_eq_exp_minus_1)

lemma aligned_diff:
  fixes a b :: u64
  assumes "a AND 3 = 0" "b AND 3 = 0"
  shows "(b - a) AND 3 = 0"
proof -
  have "uint (take_bit 2 (b - a)) = take_bit 2 (uint b - uint a)"
    by (simp add: unsigned_take_bit_eq uint_word_arith_bintrs)
  also have "\<dots> = take_bit 2 (take_bit 2 (uint b) - take_bit 2 (uint a))" by (simp add: take_bit_diff)
  also have "\<dots> = 0" using assms by (simp add: aligned_eq flip: unsigned_take_bit_eq)
  finally have "take_bit 2 (b - a) = 0" by (simp only: unsigned_eq_0_iff)
  then show ?thesis by (simp only: aligned_eq)
qed

lemma and_26: "y AND 0x03ffffff = take_bit 26 y" for y :: "'a::len word"
proof -
  have "(0x03ffffff :: 'a word) = mask 26" by (simp add: mask_eq_exp_minus_1)
  then show ?thesis by (simp only: take_bit_eq_mask)
qed

lemma encoded_immediate:
  "(0x14000000 OR take_bit 26 x) AND 0x03ffffff = take_bit 26 (x :: u32)"
  "(0x14000000 OR take_bit 26 x) AND 0xfc000000 = (0x14000000 :: u32)"
proof -
  show "(0x14000000 OR take_bit 26 x) AND 0x03ffffff = take_bit 26 (x :: u32)"
    unfolding and_26 by simp
  have n: "(0xfc000000 :: u32) = NOT (mask 26)" by (simp add: mask_eq_exp_minus_1)
  have "take_bit 26 x AND NOT (mask 26) = 0"
    unfolding take_bit_eq_mask by (simp add: and.assoc)
  moreover have "0x14000000 AND NOT (mask 26) = (0x14000000 :: u32)" by (simp add: mask_eq_exp_minus_1)
  ultimately show "(0x14000000 OR take_bit 26 x) AND 0xfc000000 = (0x14000000 :: u32)"
    unfolding n bit.conj_disj_distrib2 by simp
qed

lemma sign_extend_bits:
  fixes v :: u64
  assumes v: "take_bit 26 v = v"
  shows "bit (SignExtend v 26) n = (if n < 25 then bit v n else n < 64 \<and> bit v 25)"
proof -
  define s where "s = (push_bit 25 1 :: u64)"
  have s: "bit s k \<longleftrightarrow> k = 25" for k
    unfolding s_def bit_push_bit_iff bit_1_iff by (auto simp: possible_bit_def)
  have low: "bit v k \<Longrightarrow> k < 26" for k using v by (metis bit_take_bit_iff)
  have ms: "- s = NOT (mask 25)" unfolding s_def by (simp add: mask_eq_exp_minus_1 push_bit_eq_mult)
  have ext: "SignExtend v 26 = (v XOR s) - s" by (simp add: SignExtend_def s_def)
  show ?thesis
  proof (cases "bit v 25")
    case True
    define u where "u = v XOR s"
    have u: "bit u k \<longleftrightarrow> k < 25 \<and> bit v k" for k
      unfolding u_def bit_xor_iff s using True low [of k] by (auto simp: less_Suc_eq numeral_eq_Suc)
    have "u - s = u + NOT (mask 25)" using ms by (metis diff_conv_add_uminus)
    also have "\<dots> = u OR NOT (mask 25)"
      by (rule disjunctive_add) (auto simp: u bit_not_iff bit_mask_iff)
    finally have "SignExtend v 26 = u OR NOT (mask 25)" unfolding ext u_def .
    then show ?thesis using True
      by (auto simp: bit_or_iff u bit_not_iff bit_mask_iff possible_bit_def)
  next
    case False
    have "v XOR s = v + s"
    proof -
      have "v + s = v OR s" by (rule disjunctive_add) (use s False in auto)
      moreover have "v OR s = v XOR s"
        by (rule bit_word_eqI) (use s False in \<open>auto simp: bit_or_iff bit_xor_iff\<close>)
      ultimately show ?thesis by simp
    qed
    then have "SignExtend v 26 = v" unfolding ext by simp
    then show ?thesis using False low [of n] by (auto simp: less_Suc_eq numeral_eq_Suc)
  qed
qed

lemma high_bits:
  fixes delta :: u64
  assumes "- 0x8000000 < sint delta" "sint delta < 0x8000000" "27 \<le> n" "n < 64"
  shows "bit delta n = bit delta 27"
proof -
  have "signed_take_bit 27 (sint delta) = sint delta"
    using assms by (intro signed_take_bit_int_eq_self) simp_all
  then have "bit (sint delta) n = bit (signed_take_bit 27 (sint delta)) n" by simp
  then have "bit (sint delta) n = bit (sint delta) 27" using assms by (simp add: bit_signed_take_bit_iff min_def)
  then show ?thesis using assms by (simp add: bit_sint_iff)
qed

lemma sign_extend_immediate:
  fixes delta :: u64
  assumes al: "delta AND 3 = 0" and lo: "- 0x8000000 < sint delta" and hi: "sint delta < 0x8000000"
  shows "push_bit 2 (SignExtend (ucast (take_bit 26 (ucast (signed_drop_bit 2 delta) :: u32))) 26) = delta"
proof -
  let ?i = "signed_drop_bit 2 delta"
  have v: "ucast (take_bit 26 (ucast ?i :: u32)) = take_bit 26 ?i"
    by (rule bit_word_eqI) (auto simp: bit_simps)
  have i: "k \<le> 25 \<Longrightarrow> bit ?i k = bit delta (k + 2)" for k
    by (simp add: bit_signed_drop_bit_iff)
  have low: "\<not> bit delta 0" "\<not> bit delta (Suc 0)"
    using al unfolding aligned_eq by (metis bit_take_bit_iff bit_0_eq bot_apply bot_bool_def zero_less_numeral one_less_numeral_iff semiring_norm(76) One_nat_def)+
  show ?thesis
  proof (rule bit_word_eqI)
    fix n assume "n < LENGTH(64)"
    then have n: "n < 64" by simp
    show "bit (push_bit 2 (SignExtend (ucast (take_bit 26 (ucast ?i :: u32))) 26)) n = bit delta n"
    proof (cases "n < 2")
      case True
      then have "n = 0 \<or> n = Suc 0" by auto
      then show ?thesis using low True by (auto simp: bit_push_bit_iff)
    next
      case False
      then obtain m where m: "n = m + 2" by (metis le_add_diff_inverse2 not_less)
      have "bit (push_bit 2 (SignExtend (take_bit 26 ?i) 26)) n = bit (SignExtend (take_bit 26 ?i) 26) m"
        using m n by (simp add: bit_push_bit_iff)
      also have "\<dots> = (if m < 25 then bit ?i m else bit ?i 25)"
        using n m by (simp add: sign_extend_bits bit_take_bit_iff)
      also have "\<dots> = bit delta n"
        using m n high_bits [OF lo hi, of n] by (simp add: i)
      finally show ?thesis unfolding v .
    qed
  qed
qed

lemma decode_encoded:
  assumes e: "EncodeDirectBranch from_pc to_pc = Some w"
  shows "DecodeDirectBranch w = Some (to_pc - from_pc, False)"
proof -
  let ?d = "to_pc - from_pc"
  from e have al: "?d AND 3 = 0" and lo: "- 0x8000000 < sint ?d" and hi: "sint ?d < 0x8000000"
    and w: "w = 0x14000000 OR take_bit 26 (ucast (signed_drop_bit 2 ?d))"
    by (auto simp: EncodeDirectBranch_def Let_def and_26 kArm64BranchReach_def split: if_splits)
  show ?thesis
    unfolding DecodeDirectBranch_def w encoded_immediate if_True simp_thms
    by (simp only: sign_extend_immediate [OF al lo hi] refl if_True)
qed

lemma encode_eq:
  assumes "from_pc AND 3 = 0" "to_pc AND 3 = 0"
  shows "EncodeDirectBranch from_pc to_pc =
    (if \<bar>sint (to_pc - from_pc)\<bar> < 2 ^ 27
     then Some (0x14000000 OR take_bit 26 (ucast (signed_drop_bit 2 (to_pc - from_pc)))) else None)"
proof -
  have "sint kArm64BranchReach = 2 ^ 27" by (simp add: kArm64BranchReach_def)
  moreover have "\<bar>d\<bar> < 2 ^ 27 \<longleftrightarrow> \<not> (d \<le> - (2 ^ 27) \<or> d \<ge> 2 ^ 27)" for d :: int by linarith
  ultimately show ?thesis
    using assms aligned_diff [OF assms] unfolding EncodeDirectBranch_def Let_def and_26 by presburger
qed

lemma encode_succeeds:
  "(EncodeDirectBranch from_pc to_pc \<noteq> None) =
     (from_pc AND 3 = 0 \<and> to_pc AND 3 = 0 \<and> \<bar>sint (to_pc - from_pc)\<bar> < 2 ^ 27)"
proof (cases "from_pc AND 3 = 0 \<and> to_pc AND 3 = 0")
  case True
  then show ?thesis using encode_eq [of from_pc to_pc] by (simp split: if_splits)
next
  case False
  then have "EncodeDirectBranch from_pc to_pc = None" unfolding EncodeDirectBranch_def by presburger
  with False show ?thesis by blast
qed

lemma encoded_is_branch:
  assumes "EncodeDirectBranch from_pc to_pc = Some w"
  shows "w AND 0xfc000000 = 0x14000000"
proof -
  have al: "from_pc AND 3 = 0" "to_pc AND 3 = 0" using assms encode_succeeds [of from_pc to_pc] by auto
  show ?thesis using assms encoded_immediate(2) unfolding encode_eq [OF al]
    by (metis option.distinct(1) option.inject)
qed

lemma and_swap: "(a AND b) AND c = (a AND c) AND (b :: u32)"
  by (simp only: ac_simps)

lemma branch_not_special:
  assumes top: "w AND 0xfc000000 = 0x14000000"
  shows "\<not> IsDartReturn w" "\<not> IsTerminalTrap w" "\<not> IsIndirectBranch w"
proof -
  show "\<not> IsDartReturn w"
  proof
    assume "IsDartReturn w"
    then have "0xd65f03c0 AND 0xfc000000 = (0x14000000 :: u32)" using top by (simp only: IsDartReturn_def)
    then show False by simp
  qed
  show "\<not> IsTerminalTrap w"
  proof
    assume "IsTerminalTrap w"
    then have "0xd4200000 AND 0xfc000000 = (0x14000000 AND 0xffe0001f :: u32)"
      by (simp only: IsTerminalTrap_def top [symmetric] and_swap [of w "0xfc000000"])
    then show False by simp
  qed
  show "\<not> IsIndirectBranch w"
  proof
    assume "IsIndirectBranch w"
    then have "w AND 0xfe000000 = 0xd6000000"
      by (rule contrapos_pp) (simp only: IsIndirectBranch_def if_True not_False_eq_True)
    then have "0xd6000000 AND 0xfc000000 = (0x14000000 AND 0xfe000000 :: u32)"
      by (simp only: top [symmetric] and_swap [of w "0xfc000000"])
    then show False by simp
  qed
qed

text \<open>
  C18: the branches the library writes over return instructions go where they should. Encoding a
  branch succeeds exactly when both ends are instruction addresses less than 128 MiB apart, and
  the encoded word decodes to an unconditional branch with exactly that displacement (so that
  \<open>from_pc\<close> plus the displacement is \<open>to_pc\<close>); it is not mistaken for a return or a trap.
\<close>

theorem branch_encoding_roundtrip:
  "(EncodeDirectBranch from_pc to_pc \<noteq> None) =
     (from_pc AND 3 = 0 \<and> to_pc AND 3 = 0 \<and> \<bar>sint (to_pc - from_pc)\<bar> < 2 ^ 27) \<and>
   (EncodeDirectBranch from_pc to_pc = Some w \<longrightarrow>
     DecodeDirectBranch w = Some (to_pc - from_pc, False) \<and> from_pc + (to_pc - from_pc) = to_pc \<and>
     \<not> IsDartReturn w \<and> \<not> IsTerminalTrap w \<and> \<not> IsIndirectBranch w)"
proof (intro conjI impI)
  show "(EncodeDirectBranch from_pc to_pc \<noteq> None) =
     (from_pc AND 3 = 0 \<and> to_pc AND 3 = 0 \<and> \<bar>sint (to_pc - from_pc)\<bar> < 2 ^ 27)"
    by (rule encode_succeeds)
next
  assume e: "EncodeDirectBranch from_pc to_pc = Some w"
  show "DecodeDirectBranch w = Some (to_pc - from_pc, False)" by (rule decode_encoded [OF e])
  show "from_pc + (to_pc - from_pc) = to_pc" by simp
  show "\<not> IsDartReturn w" "\<not> IsTerminalTrap w" "\<not> IsIndirectBranch w"
    by (rule branch_not_special [OF encoded_is_branch [OF e]])+
qed

theorem branch_encoding_roundtrip_witness:
  "EncodeDirectBranch 0x1008 0x1000 = Some 0x17fffffe \<and>
   DecodeDirectBranch 0x17fffffe = Some (- 8, False) \<and> \<not> IsDartReturn 0x17fffffe"
proof -
  have e: "EncodeDirectBranch 0x1008 0x1000 = Some 0x17fffffe" by code_simp
  then show ?thesis using branch_encoding_roundtrip [of "0x1008" "0x1000" "0x17fffffe"] by simp
qed

section \<open>The walk\<close>

lemma flow_next_in_range:
  "flow_at code start i = FlowNext js \<Longrightarrow> j \<in> set js \<Longrightarrow> j < length code div 4"
  by (auto simp: flow_at_def fallthrough_def enqueue_index_def Let_def split: if_splits option.splits)

text \<open>The instructions of the body an execution can come to, through branches and fallthrough.\<close>

inductive flow_reaches :: "u8 list \<Rightarrow> ptr \<Rightarrow> nat \<Rightarrow> bool" for code start where
  reaches_entry: "flow_reaches code start 0"
| reaches_next: "flow_reaches code start i \<Longrightarrow> flow_at code start i = FlowNext js \<Longrightarrow> j \<in> set js \<Longrightarrow>
    flow_reaches code start j"

definition return_site :: "ptr \<Rightarrow> nat \<Rightarrow> ptr \<times> u32" where
  "return_site start i = (pc_at start i, 0xd65f03c0)"

definition returns_of :: "u8 list \<Rightarrow> ptr \<Rightarrow> nat set \<Rightarrow> (ptr \<times> u32) set" where
  "returns_of code start S = return_site start ` {i \<in> S. flow_at code start i = FlowReturn}"

definition visited_set :: "bool list \<Rightarrow> nat set" where
  "visited_set visited = {i. i < length visited \<and> visited ! i}"

definition walk_ok :: "u8 list \<Rightarrow> ptr \<Rightarrow> bool list \<Rightarrow> nat list \<Rightarrow> (ptr \<times> u32) list \<Rightarrow> bool" where
  "walk_ok code start visited pending out_returns \<longleftrightarrow>
     length visited = length code div 4 \<and>
     (\<forall>i \<in> set pending. i < length visited) \<and>
     (\<forall>i \<in> visited_set visited \<union> set pending. flow_reaches code start i) \<and>
     0 \<in> visited_set visited \<union> set pending \<and>
     (\<forall>i \<in> visited_set visited. flow_at code start i \<noteq> FlowRefuse \<and>
        (\<forall>js. flow_at code start i = FlowNext js \<longrightarrow> set js \<subseteq> visited_set visited \<union> set pending)) \<and>
     distinct (map fst out_returns) \<and> set out_returns = returns_of code start (visited_set visited)"

definition walk_exact :: "u8 list \<Rightarrow> ptr \<Rightarrow> (ptr \<times> u32) list option \<Rightarrow> bool" where
  "walk_exact code start result =
     (case result of
        None \<Rightarrow> \<exists>i. flow_reaches code start i \<and> flow_at code start i = FlowRefuse
      | Some out_returns \<Rightarrow>
          (\<forall>i. flow_reaches code start i \<longrightarrow> flow_at code start i \<noteq> FlowRefuse) \<and>
          distinct (map fst out_returns) \<and>
          set out_returns = returns_of code start {i. flow_reaches code start i})"

lemma unat_pc_at:
  assumes "unat start + length code \<le> unat UINT64_MAX" "i < length code div 4"
  shows "unat (pc_at start i) = unat start + 4 * i"
proof -
  have "4 * i < length code" using assms(2) by linarith
  moreover from this assms(1) have "unat start + 4 * i < 2 ^ 64" by (simp add: UINT64_MAX_def)
  ultimately show ?thesis
    by (simp add: pc_at_def unat_word_ariths unat_of_nat64 take_bit_nat_eq_self flip: take_bit_eq_mod del: of_nat_mult)
qed

lemma pc_at_inject:
  assumes "unat start + length code \<le> unat UINT64_MAX" "i < length code div 4" "j < length code div 4"
  shows "pc_at start i = pc_at start j \<longleftrightarrow> i = j"
    and "pc_at start i < pc_at start j \<longleftrightarrow> i < j"
  using unat_pc_at [OF assms(1,2)] unat_pc_at [OF assms(1,3)]
  by (auto simp: word_unat_eq_iff word_less_nat_alt)

lemma pc_aligned:
  assumes "start AND 3 = 0"
  shows "pc_at start i AND 3 = 0"
proof -
  have "(of_nat (4 * i) :: ptr) = push_bit 2 (of_nat i)" by (simp add: push_bit_eq_mult)
  then have four: "take_bit 2 (of_nat (4 * i) :: ptr) = 0"
    by (simp only:) (rule bit_word_eqI, auto simp: bit_simps)
  have "uint (take_bit 2 (start + of_nat (4 * i))) = take_bit 2 (uint start + uint (of_nat (4 * i) :: ptr))"
    by (simp add: unsigned_take_bit_eq uint_word_arith_bintrs del: of_nat_mult)
  also have "\<dots> = take_bit 2 (take_bit 2 (uint start) + take_bit 2 (uint (of_nat (4 * i) :: ptr)))"
    by (simp only: take_bit_add)
  also have "\<dots> = 0"
    using assms four by (simp add: aligned_eq del: of_nat_mult flip: unsigned_take_bit_eq)
  finally have "take_bit 2 (start + of_nat (4 * i)) = 0" by (simp only: unsigned_eq_0_iff)
  then show ?thesis by (simp only: aligned_eq pc_at_def)
qed

lemma flow_return: "flow_at code start i = FlowReturn \<longleftrightarrow> instruction_at code i = 0xd65f03c0"
  by (auto simp: flow_at_def IsDartReturn_def fallthrough_def Let_def split: if_splits option.splits)

lemma walk_done:
  assumes ok: "walk_ok code start visited [] out_returns"
  shows "walk_exact code start (Some out_returns)"
proof -
  have "flow_reaches code start i \<Longrightarrow> i \<in> visited_set visited" for i
  proof (induction rule: flow_reaches.induct)
    case reaches_entry
    show ?case using ok by (simp add: walk_ok_def)
  next
    case (reaches_next i js j)
    then show ?case using ok unfolding walk_ok_def by (metis Un_empty_right empty_set subsetD)
  qed
  moreover have "i \<in> visited_set visited \<Longrightarrow> flow_reaches code start i" for i
    using ok by (simp add: walk_ok_def)
  ultimately have "{i. flow_reaches code start i} = visited_set visited" by blast
  then show ?thesis using ok unfolding walk_ok_def walk_exact_def by auto
qed

lemma visited_set_upd: "i < length v \<Longrightarrow> visited_set (v[i := True]) = insert i (visited_set v)"
  by (auto simp: visited_set_def nth_list_update)

lemma returns_of_insert:
  "returns_of code start (insert i V) =
     (if flow_at code start i = FlowReturn then insert (return_site start i) (returns_of code start V)
      else returns_of code start V)"
  by (auto simp: returns_of_def)

lemma walk_visit:
  assumes ok: "walk_ok code start visited (i # pending) out_returns" and new: "\<not> visited ! i"
    and fl: "flow_at code start i \<noteq> FlowRefuse"
    and next_is: "js = (case flow_at code start i of FlowNext ks \<Rightarrow> ks | _ \<Rightarrow> [])"
    and out: "out' = (if flow_at code start i = FlowReturn then out_returns @ [return_site start i] else out_returns)"
    and range: "unat start + length code \<le> unat UINT64_MAX"
  shows "walk_ok code start (visited[i := True]) (js @ pending) out'"
proof -
  have i: "i < length visited" and n: "length visited = length code div 4" and r: "flow_reaches code start i"
    using ok by (auto simp: walk_ok_def)
  have js: "\<forall>j \<in> set js. j < length visited \<and> flow_reaches code start j"
    using next_is n flow_next_in_range [of code start i] reaches_next [OF r]
    by (auto split: flow.splits)
  have notin: "i \<notin> visited_set visited" using new by (simp add: visited_set_def)
  have "pc_at start i \<notin> fst ` returns_of code start (visited_set visited)"
    using notin i n pc_at_inject(1) [OF range, of i]
    by (auto simp: returns_of_def return_site_def visited_set_def image_iff)
  then have d: "distinct (map fst out')" and s: "set out' = returns_of code start (visited_set (visited[i := True]))"
    using ok i unfolding out walk_ok_def by (auto simp: visited_set_upd returns_of_insert return_site_def image_iff)
  let ?V = "insert i (visited_set visited)"
  have closed: "\<forall>k \<in> ?V. flow_at code start k \<noteq> FlowRefuse \<and>
      (\<forall>ks. flow_at code start k = FlowNext ks \<longrightarrow> set ks \<subseteq> ?V \<union> (set js \<union> set pending))"
    using ok fl next_is unfolding walk_ok_def by (simp split: flow.splits) blast
  show ?thesis
    unfolding walk_ok_def visited_set_upd [OF i]
  proof (intro conjI)
    show "\<forall>k \<in> ?V \<union> set (js @ pending). flow_reaches code start k"
      using ok js r by (auto simp: walk_ok_def)
    show "\<forall>k \<in> set (js @ pending). k < length (visited[i := True])"
      using ok js by (auto simp: walk_ok_def)
    show "0 \<in> ?V \<union> set (js @ pending)" using ok by (auto simp: walk_ok_def)
    show "\<forall>k \<in> ?V. flow_at code start k \<noteq> FlowRefuse \<and>
        (\<forall>ks. flow_at code start k = FlowNext ks \<longrightarrow> set ks \<subseteq> ?V \<union> set (js @ pending))"
      using closed by simp
  qed (use n d s visited_set_upd [OF i] in auto)
qed

lemma collect_loop_exact:
  assumes "walk_ok code start visited pending out_returns" "unat start + length code \<le> unat UINT64_MAX"
  shows "walk_exact code start (collect_loop code start visited pending out_returns)"
  using assms
proof (induction code start visited pending out_returns rule: collect_loop.induct)
  case (1 code start visited out_returns)
  then show ?case by (simp add: walk_done)
next
  case (2 code start visited i pending out_returns)
  have i: "i < length visited" and r: "flow_reaches code start i" using 2 by (auto simp: walk_ok_def)
  show ?case
  proof (cases "visited ! i")
    case True
    then have "i \<in> visited_set visited" using i by (simp add: visited_set_def)
    then have "visited_set visited \<union> set (i # pending) = visited_set visited \<union> set pending" by auto
    then have "walk_ok code start visited pending out_returns"
      using 2(5) unfolding walk_ok_def by (simp only:) auto
    then show ?thesis using 2(1) 2(6) True i by (simp del: collect_loop.simps add: collect_loop.simps(2))
  next
    case False
    note step = walk_visit [OF 2(5) False _ refl refl 2(6)]
    show ?thesis
    proof (cases "flow_at code start i")
      case FlowReturn
      then have "instruction_at code i = 0xd65f03c0" by (simp add: flow_return)
      then show ?thesis using 2(2) [OF _ False refl FlowReturn] step i False 2(6) FlowReturn
        by (simp add: return_site_def)
    next
      case FlowStop
      then show ?thesis using 2(3) [OF _ False refl FlowStop] step i False 2(6) by simp
    next
      case FlowRefuse
      then show ?thesis using i False r by (auto simp: walk_exact_def)
    next
      case (FlowNext js)
      then show ?thesis using 2(4) [OF _ False refl FlowNext] step i False 2(6) by simp
    qed
  qed
qed

lemma unique_sites_id: "distinct (map fst rs) \<Longrightarrow> unique_sites rs = rs"
  by (induction rs rule: unique_sites.induct) auto

text \<open>What the sorted vector of return sites has to be.\<close>

definition reachable_returns :: "u8 list \<Rightarrow> ptr \<Rightarrow> (ptr \<times> u32) list \<Rightarrow> bool" where
  "reachable_returns code start sites \<longleftrightarrow>
     (\<exists>idx. sites = map (return_site start) idx \<and> sorted_wrt (<) idx \<and>
        set idx = {i. flow_reaches code start i \<and> flow_at code start i = FlowReturn})"

lemma flow_reaches_in_range: "flow_reaches code start i \<Longrightarrow> 4 \<le> length code \<Longrightarrow> i < length code div 4"
  by (induction rule: flow_reaches.induct) (auto dest: flow_next_in_range)

lemma sorted_sites:
  assumes range: "unat start + length code \<le> unat UINT64_MAX" and four: "4 \<le> length code"
    and d: "distinct (map fst out_returns)"
    and s: "set out_returns = returns_of code start {i. flow_reaches code start i}"
  shows "reachable_returns code start (sort_key fst out_returns)"
proof -
  let ?S = "{i. flow_reaches code start i \<and> flow_at code start i = FlowReturn}"
  define idx where "idx = sorted_list_of_set ?S"
  have sub: "?S \<subseteq> {..<length code div 4}" using flow_reaches_in_range four by auto
  then have fin: "finite ?S" by (rule finite_subset) simp
  have idx: "set idx = ?S" "sorted_wrt (<) idx" by (simp_all add: idx_def fin)
  have "sort_key fst out_returns = map (return_site start) idx"
  proof (rule map_sorted_distinct_set_unique [of fst])
    show "inj_on fst (set (sort_key fst out_returns) \<union> set (map (return_site start) idx))"
      using s idx by (auto simp: returns_of_def inj_on_def return_site_def)
    show "sorted (map fst (map (return_site start) idx))" "distinct (map fst (map (return_site start) idx))"
    proof -
      have "\<forall>i \<in> set idx. i < length code div 4" using idx sub by auto
      then have "sorted_wrt (<) (map fst (map (return_site start) idx))"
        using idx(2) by (induction idx) (auto simp: return_site_def pc_at_inject [OF range])
      then show "sorted (map fst (map (return_site start) idx))"
        "distinct (map fst (map (return_site start) idx))"
        by (simp_all only: strict_sorted_imp_sorted strict_sorted_iff)
    qed
    show "set (sort_key fst out_returns) = set (map (return_site start) idx)"
      using s idx by (auto simp: returns_of_def)
    show "distinct (map fst (sort_key fst out_returns))" using d
      by (metis distinct_map distinct_sort set_sort)
  qed simp
  then show ?thesis using idx unfolding reachable_returns_def by blast
qed

lemma walk_start: "4 \<le> length code \<Longrightarrow> walk_ok code start (replicate (length code div 4) False) [0] []"
  by (auto simp: walk_ok_def visited_set_def returns_of_def reaches_entry)

lemma collected_exact:
  "(CollectReachableArm64Returns code start = Some sites) =
     (4 \<le> length code \<and> length code mod 4 = 0 \<and> start AND 3 = 0 \<and>
      unat start + length code \<le> unat UINT64_MAX \<and>
      (\<forall>i. flow_reaches code start i \<longrightarrow> flow_at code start i \<noteq> FlowRefuse) \<and>
      sites \<noteq> [] \<and> reachable_returns code start sites)"
proof (cases "4 \<le> length code \<and> length code mod 4 = 0 \<and> start AND 3 = 0 \<and>
      unat start + length code \<le> unat UINT64_MAX")
  case True
  let ?r = "collect_loop code start (replicate (length code div 4) False) [0] []"
  have exact: "walk_exact code start ?r"
    using True by (intro collect_loop_exact walk_start) simp_all
  have unique: "sites = sites'" if "reachable_returns code start sites" "reachable_returns code start sites'" for sites'
    using that unfolding reachable_returns_def by (metis strict_sorted_equal)
  show ?thesis
  proof (cases ?r)
    case None
    then show ?thesis using exact by (auto simp: CollectReachableArm64Returns_def walk_exact_def)
  next
    case (Some out_returns)
    then have d: "distinct (map fst out_returns)"
      and s: "set out_returns = returns_of code start {i. flow_reaches code start i}"
      and no: "\<forall>i. flow_reaches code start i \<longrightarrow> flow_at code start i \<noteq> FlowRefuse"
      using exact by (auto simp: walk_exact_def)
    have sorted: "reachable_returns code start (sort_key fst out_returns)"
      using True by (intro sorted_sites d s) simp_all
    have "distinct (map fst (sort_key fst out_returns))" using d by (metis distinct_map distinct_sort set_sort)
    then have u: "unique_sites (sort_key fst out_returns) = sort_key fst out_returns" by (rule unique_sites_id)
    have "CollectReachableArm64Returns code start =
        (if sort_key fst out_returns = [] then None else Some (sort_key fst out_returns))"
      using True Some u by (simp add: CollectReachableArm64Returns_def Let_def)
    then show ?thesis using True no sorted unique by (auto split: if_splits)
  qed
next
  case False
  then have "CollectReachableArm64Returns code start = None"
    unfolding CollectReachableArm64Returns_def by (metis le_less_linear not_less)
  with False show ?thesis by auto
qed

lemma collected_sites:
  assumes "CollectReachableArm64Returns code start = Some cs"
  shows "distinct (map fst cs)" "\<forall>c \<in> set cs. fst c AND 3 = 0 \<and> snd c = 0xd65f03c0"
    "\<forall>c \<in> set cs. \<exists>i < length code div 4. fst c = pc_at start i \<and> instruction_at code i = 0xd65f03c0"
    "cs \<noteq> []"
proof -
  have al: "start AND 3 = 0" and range: "unat start + length code \<le> unat UINT64_MAX" and four: "4 \<le> length code"
    and r: "reachable_returns code start cs" and ne: "cs \<noteq> []"
    using assms by (auto simp: collected_exact)
  then obtain idx where idx: "cs = map (return_site start) idx" "sorted_wrt (<) idx"
    and s: "set idx = {i. flow_reaches code start i \<and> flow_at code start i = FlowReturn}"
    by (auto simp: reachable_returns_def)
  have "\<forall>i \<in> set idx. i < length code div 4" using s flow_reaches_in_range four by auto
  moreover have "distinct idx" using idx(2) by (simp add: strict_sorted_iff)
  ultimately show "distinct (map fst cs)"
    by (auto simp: idx(1) distinct_map return_site_def inj_on_def pc_at_inject(1) [OF range])
  show "\<forall>c \<in> set cs. fst c AND 3 = 0 \<and> snd c = 0xd65f03c0"
    using al by (auto simp: idx(1) return_site_def pc_aligned)
  show "\<forall>c \<in> set cs. \<exists>i < length code div 4. fst c = pc_at start i \<and> instruction_at code i = 0xd65f03c0"
    using \<open>\<forall>i \<in> set idx. i < length code div 4\<close> s by (auto simp: idx(1) return_site_def flow_return)
  show "cs \<noteq> []" by (rule ne)
qed

text \<open>
  C17: the return sites of a body are found exactly. \<open>CollectReachableArm64Returns\<close> accepts a
  body exactly when its size and address are well formed, no instruction an execution can come
  to from the entry leaves the body or transfers control in an unsupported way, and some RET can
  be reached; and then it returns each reachable RET once, in ascending order, and nothing else.
\<close>

theorem collected_returns_exact:
  "(CollectReachableArm64Returns code start = Some sites) =
     (4 \<le> length code \<and> length code mod 4 = 0 \<and> start AND 3 = 0 \<and>
      unat start + length code \<le> unat UINT64_MAX \<and>
      (\<forall>i. flow_reaches code start i \<longrightarrow> flow_at code start i \<noteq> FlowRefuse) \<and>
      sites \<noteq> [] \<and> reachable_returns code start sites)"
  by (rule collected_exact)

definition sample_body :: "u8 list" where
  "sample_body = [0x40, 0, 0, 0xb4, 0, 0, 0x20, 0xd4, 0xc0, 0x03, 0x5f, 0xd6]"

lemma sample_instructions:
  "instruction_at sample_body 0 = 0xb4000040" "instruction_at sample_body (Suc 0) = 0xd4200000"
  "instruction_at sample_body 2 = 0xd65f03c0"
  by (simp_all add: instruction_at_def field_def sample_body_def)

lemma sample_flow:
  "flow_at sample_body 0x1000 0 = FlowNext [1, 2]" "flow_at sample_body 0x1000 (Suc 0) = FlowStop"
  "flow_at sample_body 0x1000 2 = FlowReturn"
proof -
  have d: "DecodeDirectBranch 0xb4000040 = Some (8, True)" by code_simp
  show "flow_at sample_body 0x1000 0 = FlowNext [1, 2]"
    unfolding flow_at_def sample_instructions Let_def d
    by (simp add: pc_at_def enqueue_index_def fallthrough_def IsDartReturn_def IsTerminalTrap_def
        IsIndirectBranch_def sample_body_def)
qed (simp_all add: flow_at_def sample_instructions Let_def IsDartReturn_def IsTerminalTrap_def)

lemma sample_collected: "CollectReachableArm64Returns sample_body 0x1000 = Some [(0x1008, 0xd65f03c0)]"
proof -
  have n: "length sample_body = 12" by (simp add: sample_body_def)
  have "replicate 3 False = [False, False, False]" by code_simp
  then show ?thesis
    by (simp add: CollectReachableArm64Returns_def n sample_flow sample_instructions Let_def pc_at_def
        UINT64_MAX_def)
qed

theorem collected_returns_exact_witness:
  "flow_at sample_body 0x1000 0 = FlowNext [1, 2] \<and>
   reachable_returns sample_body 0x1000 [(0x1008, 0xd65f03c0)]"
  using collected_returns_exact [of sample_body "0x1000" "[(0x1008, 0xd65f03c0)]"]
  by (simp add: sample_collected sample_flow)

end
