(* ===== verification/Entry_Targets.thy ===== *)
theory Entry_Targets
  imports Prelude
begin

text \<open>
  The physical code model of \<^verbatim>\<open>src/core/method_model.h\<close>: code payloads (one compiled body with
  the patches its hooks share), entry targets (one entry point of a payload, with the logical
  functions known to alias it), and the registry that gives out one target per owner and entry.
  Objects behind \<open>shared_ptr\<close> are named by numbers; the registry's \<open>weak_ptr\<close> maps are
  association lists whose order stands for the iteration order of the hash maps, and \<open>tw_live\<close>
  says which objects somebody still holds.
\<close>

definition UINT32_MAX :: u32 where "UINT32_MAX = 0xffffffff"

section \<open>Data\<close>

record return_patch =
  rp_address :: ptr
  rp_original :: u32
  rp_patched :: u32
  rp_consumers :: u32

record method_identity =
  dm_library_uri :: string
  dm_class_name :: string
  dm_function_name :: string
  dm_signature :: string
  dm_entry_kind :: u32

definition SameLogicalFunctionIdentity :: "method_identity \<Rightarrow> method_identity \<Rightarrow> bool" where
  "SameLogicalFunctionIdentity left right \<longleftrightarrow>
     dm_library_uri left = dm_library_uri right \<and> dm_class_name left = dm_class_name right \<and>
     dm_function_name left = dm_function_name right \<and> dm_signature left = dm_signature right"

record owner_identity =
  oi_runtime_generation :: u64
  oi_engine_epoch :: u64
  oi_isolate_group_epoch :: u64
  oi_image_id :: u64
  oi_image_epoch :: u64

datatype identity_proof = IdentityUnknown | IdentityUnique | IdentityShared

record code_payload =
  pl_id :: ptr
  pl_image_id :: u64
  pl_owner :: owner_identity
  pl_start :: ptr
  pl_instructions_length :: u32
  pl_code_object :: u64
  pl_exact_identity :: bool
  pl_pristine_bytes :: "u8 list"
  pl_return_entry :: ptr
  pl_return_entry_size :: u64
  pl_return_entry_published :: bool
  pl_return_patches :: "return_patch list"
  pl_return_interception_consumers :: u32

definition payload_end :: "code_payload \<Rightarrow> ptr" where
  "payload_end p =
     (if pl_start p > UINT64_MAX - ucast (pl_instructions_length p) then 0
      else pl_start p + ucast (pl_instructions_length p))"

definition payload_contains :: "code_payload \<Rightarrow> ptr \<Rightarrow> u64 \<Rightarrow> bool" where
  "payload_contains p address n \<longleftrightarrow>
     pl_start p \<noteq> 0 \<and> payload_end p > pl_start p \<and> address \<ge> pl_start p \<and>
     address \<le> payload_end p \<and> n \<le> payload_end p - address"

record entry_target =
  et_id :: ptr
  et_image_id :: u64
  et_owner :: owner_identity
  et_entry :: ptr
  et_code_size :: u32
  et_code_object :: u64
  et_reported_alias_count :: u32
  et_identity_proof :: identity_proof
  et_payload :: "nat option"
  et_aliases :: "method_identity list"
  et_hook_record :: "nat option"

section \<open>Evidence about one target\<close>

fun distinct_logical :: "method_identity list \<Rightarrow> method_identity list \<Rightarrow> nat" where
  "distinct_logical earlier [] = 0"
| "distinct_logical earlier (a # rest) =
     (if list_ex (SameLogicalFunctionIdentity a) earlier then 0 else 1) +
     distinct_logical (earlier @ [a]) rest"

definition DistinctLogicalFunctionAliasCount :: "entry_target \<Rightarrow> u32" where
  "DistinctLogicalFunctionAliasCount t = of_nat (distinct_logical [] (et_aliases t))"

definition merge_identity_proof :: "identity_proof \<Rightarrow> entry_target \<Rightarrow> entry_target" where
  "merge_identity_proof new_proof t =
     (if new_proof = IdentityShared \<or> et_reported_alias_count t > 1
      then t\<lparr>et_identity_proof := IdentityShared\<rparr>
      else if new_proof = IdentityUnique \<and> et_identity_proof t = IdentityUnknown
      then t\<lparr>et_identity_proof := IdentityUnique\<rparr>
      else t)"

definition merge_target :: "u32 \<Rightarrow> u64 \<Rightarrow> u32 \<Rightarrow> identity_proof \<Rightarrow> entry_target \<Rightarrow> entry_target" where
  "merge_target new_code_size new_code_object alias_count new_proof t =
     (let t = (if et_code_size t = 0 then t\<lparr>et_code_size := new_code_size\<rparr> else t);
          t = (if new_code_object \<noteq> 0 then t\<lparr>et_code_object := new_code_object\<rparr> else t);
          t = (if alias_count > et_reported_alias_count t
               then t\<lparr>et_reported_alias_count := alias_count\<rparr> else t)
      in merge_identity_proof new_proof t)"

definition AddAlias :: "method_identity \<Rightarrow> entry_target \<Rightarrow> entry_target" where
  "AddAlias identity t =
     (let t = (if identity \<in> set (et_aliases t) then t
               else t\<lparr>et_aliases := et_aliases t @ [identity]\<rparr>)
      in if DistinctLogicalFunctionAliasCount t > 1
         then t\<lparr>et_reported_alias_count := max (et_reported_alias_count t) (DistinctLogicalFunctionAliasCount t),
                et_identity_proof := IdentityShared\<rparr>
         else t)"

definition KnownAliasCount :: "entry_target \<Rightarrow> u32" where
  "KnownAliasCount t = of_nat (length (et_aliases t))"

definition AliasCount :: "entry_target \<Rightarrow> u32" where
  "AliasCount t = max (et_reported_alias_count t) (of_nat (length (et_aliases t)))"

definition HasAlias :: "entry_target \<Rightarrow> method_identity \<Rightarrow> bool" where
  "HasAlias t identity \<longleftrightarrow> identity \<in> set (et_aliases t)"

definition BindHookRecord :: "nat option \<Rightarrow> entry_target \<Rightarrow> entry_target" where
  "BindHookRecord hook t = t\<lparr>et_hook_record := hook\<rparr>"

definition UnbindHookRecord :: "nat \<Rightarrow> entry_target \<Rightarrow> entry_target" where
  "UnbindHookRecord hook t =
     (if et_hook_record t = Some hook then t\<lparr>et_hook_record := None\<rparr> else t)"

definition IsShared :: "entry_target \<Rightarrow> bool" where
  "IsShared t \<longleftrightarrow> et_identity_proof t = IdentityShared \<or> et_reported_alias_count t > 1 \<or>
     DistinctLogicalFunctionAliasCount t > 1"

definition HasProvenUniqueIdentity :: "entry_target \<Rightarrow> bool" where
  "HasProvenUniqueIdentity t \<longleftrightarrow> et_identity_proof t = IdentityUnique \<and>
     et_reported_alias_count t \<le> 1 \<and> DistinctLogicalFunctionAliasCount t \<le> 1"

section \<open>The registry\<close>

type_synonym address_key = "owner_identity \<times> ptr"

record target_world =
  tw_target :: "nat \<Rightarrow> entry_target"
  tw_payload :: "nat \<Rightarrow> code_payload"
  tw_next_target :: nat
  tw_next_payload :: nat
  tw_live_target :: "nat \<Rightarrow> bool"
  tw_live_payload :: "nat \<Rightarrow> bool"
  tw_targets :: "(address_key \<times> nat) list"
  tw_payloads :: "(address_key \<times> nat) list"

definition set_target :: "nat \<Rightarrow> entry_target \<Rightarrow> target_world \<Rightarrow> target_world" where
  "set_target i t w = w\<lparr>tw_target := (tw_target w)(i := t)\<rparr>"

definition set_payload :: "nat \<Rightarrow> code_payload \<Rightarrow> target_world \<Rightarrow> target_world" where
  "set_payload p pl w = w\<lparr>tw_payload := (tw_payload w)(p := pl)\<rparr>"

definition note_code_object :: "u64 \<Rightarrow> nat option \<Rightarrow> target_world \<Rightarrow> target_world" where
  "note_code_object code_object payload w =
     (case payload of
        None \<Rightarrow> w
      | Some p \<Rightarrow>
          if code_object \<noteq> 0 then set_payload p ((tw_payload w p)\<lparr>pl_code_object := code_object\<rparr>) w else w)"

definition MergeEvidence :: "nat \<Rightarrow> u32 \<Rightarrow> u64 \<Rightarrow> u32 \<Rightarrow> identity_proof \<Rightarrow> target_world \<Rightarrow>
    bool \<times> target_world" where
  "MergeEvidence i new_code_size new_code_object alias_count new_proof w =
     (let t = tw_target w i in
      if et_code_size t \<noteq> 0 \<and> new_code_size \<noteq> 0 \<and> et_code_size t \<noteq> new_code_size then (False, w)
      else (True, set_target i (merge_target new_code_size new_code_object alias_count new_proof t)
                    (note_code_object new_code_object (et_payload t) w)))"

definition MergeEvidenceAndUpgradePayload :: "nat \<Rightarrow> u32 \<Rightarrow> u64 \<Rightarrow> u32 \<Rightarrow> identity_proof \<Rightarrow>
    nat option \<Rightarrow> nat option \<Rightarrow> target_world \<Rightarrow> bool \<times> target_world" where
  "MergeEvidenceAndUpgradePayload i new_code_size new_code_object alias_count new_proof
      expected_payload replacement w =
     (if expected_payload = None \<or> replacement = None then (False, w)
      else let t = tw_target w i in
        if et_payload t \<noteq> expected_payload \<or> et_hook_record t \<noteq> None \<or>
           et_code_size t \<noteq> 0 \<and> new_code_size \<noteq> 0 \<and> et_code_size t \<noteq> new_code_size
        then (False, w)
        else (True,
          note_code_object new_code_object replacement
            (set_target i ((merge_target new_code_size new_code_object alias_count new_proof t)
                             \<lparr>et_payload := replacement\<rparr>) w)))"

text \<open>
  \<open>FindOrCreatePayloadLocked\<close>: the scan drops expired entries up to the first payload of the
  same owner and start. It gives the entries that stay and, if it found one, that payload.
\<close>

fun scan_payloads :: "target_world \<Rightarrow> owner_identity \<Rightarrow> ptr \<Rightarrow> (address_key \<times> nat) list \<Rightarrow>
    (address_key \<times> nat) list \<times> nat option" where
  "scan_payloads w owner' start [] = ([], None)"
| "scan_payloads w owner' start ((k, p) # rest) =
     (if \<not> tw_live_payload w p then scan_payloads w owner' start rest
      else if pl_owner (tw_payload w p) = owner' \<and> pl_start (tw_payload w p) = start
      then ((k, p) # rest, Some p)
      else let (rest', found) = scan_payloads w owner' start rest in ((k, p) # rest', found))"

definition new_payload :: "owner_identity \<Rightarrow> ptr \<Rightarrow> u32 \<Rightarrow> u64 \<Rightarrow> bool \<Rightarrow> code_payload" where
  "new_payload owner' start instructions_length code_object exact =
     \<lparr>pl_id = start, pl_image_id = oi_image_id owner', pl_owner = owner', pl_start = start,
      pl_instructions_length = instructions_length, pl_code_object = code_object,
      pl_exact_identity = exact, pl_pristine_bytes = [], pl_return_entry = 0, pl_return_entry_size = 0,
      pl_return_entry_published = False, pl_return_patches = [], pl_return_interception_consumers = 0\<rparr>"

definition insert_key :: "address_key \<Rightarrow> nat \<Rightarrow> (address_key \<times> nat) list \<Rightarrow> (address_key \<times> nat) list" where
  "insert_key k i m = (k, i) # filter (\<lambda>e. fst e \<noteq> k) m"

definition FindOrCreatePayload :: "owner_identity \<Rightarrow> ptr \<Rightarrow> u32 \<Rightarrow> u64 \<Rightarrow> bool \<Rightarrow> target_world \<Rightarrow>
    nat option \<times> target_world" where
  "FindOrCreatePayload owner' start instructions_length code_object exact w =
     (let (entries, found) = scan_payloads w owner' start (tw_payloads w);
          w = w\<lparr>tw_payloads := entries\<rparr>
      in case found of
        Some p \<Rightarrow>
          let pl = tw_payload w p in
          if pl_instructions_length pl \<noteq> instructions_length then (None, w)
          else
            let pl = (if code_object \<noteq> 0 then pl\<lparr>pl_code_object := code_object\<rparr> else pl);
                pl = (if exact then pl\<lparr>pl_exact_identity := True\<rparr> else pl)
            in (Some p, set_payload p pl w)
      | None \<Rightarrow>
          let p = tw_next_payload w;
              w = set_payload p (new_payload owner' start instructions_length code_object exact) w
          in (Some p, w\<lparr>tw_next_payload := p + 1, tw_live_payload := (tw_live_payload w)(p := True),
                        tw_payloads := insert_key (owner', start) p (tw_payloads w)\<rparr>))"

definition new_target :: "ptr \<Rightarrow> u32 \<Rightarrow> u64 \<Rightarrow> u32 \<Rightarrow> identity_proof \<Rightarrow> u64 \<Rightarrow> owner_identity \<Rightarrow>
    nat option \<Rightarrow> entry_target" where
  "new_target entry code_size code_object alias_count proof image_id owner' payload =
     \<lparr>et_id = entry, et_image_id = image_id, et_owner = owner', et_entry = entry,
      et_code_size = code_size, et_code_object = code_object,
      et_reported_alias_count = max 1 alias_count,
      et_identity_proof = (if max 1 alias_count > 1 then IdentityShared else proof),
      et_payload = payload, et_aliases = [], et_hook_record = None\<rparr>"

text \<open>
  The arguments of \<open>GetOrCreate\<close> after its defaults and checks: the owner, the image, the payload
  range and whether the caller named the payload; \<open>None\<close> where the code returns \<open>nullptr\<close>.
\<close>

record placement =
  pc_owner :: owner_identity
  pc_image_id :: u64
  pc_payload_start :: ptr
  pc_length :: u32
  pc_explicit :: bool

definition owner_of_image :: "owner_identity \<Rightarrow> u64 \<Rightarrow> owner_identity" where
  "owner_of_image owner' image_id =
     (if oi_image_id owner' = 0 then owner'\<lparr>oi_image_id := image_id\<rparr> else owner')"

definition implied_length :: "ptr \<Rightarrow> u32 \<Rightarrow> ptr \<Rightarrow> u32 \<Rightarrow> u32 option" where
  "implied_length entry code_size payload_start instructions_length =
     (if instructions_length \<noteq> 0 then Some instructions_length
      else let prefix = entry - payload_start in
        if prefix > ucast UINT32_MAX \<or> ucast code_size > ucast UINT32_MAX - prefix then None
        else Some (ucast prefix + code_size))"

definition range_fits :: "ptr \<Rightarrow> u32 \<Rightarrow> ptr \<Rightarrow> u32 \<Rightarrow> bool \<Rightarrow> bool" where
  "range_fits entry code_size payload_start instructions_length explicit_payload =
     (let stop = payload_start + ucast instructions_length in
      if instructions_length = 0 \<or> payload_start > UINT64_MAX - ucast instructions_length \<or>
         entry < payload_start \<or> entry \<ge> stop \<or> ucast code_size > stop - entry then False
      else \<not> (explicit_payload \<and> ucast code_size \<noteq> stop - entry))"

definition check_placement :: "ptr \<Rightarrow> u32 \<Rightarrow> ptr \<Rightarrow> u32 \<Rightarrow> u64 \<Rightarrow> owner_identity \<Rightarrow> placement option" where
  "check_placement entry code_size payload_start instructions_length image_id owner' =
     (if entry = 0 then None
      else
        let owner' = owner_of_image owner' image_id;
            image_id = (if image_id = 0 then oi_image_id owner' else image_id);
            explicit_payload = (payload_start \<noteq> 0 \<or> instructions_length \<noteq> 0);
            payload_start = (if payload_start = 0 then entry else payload_start)
        in if oi_image_id owner' \<noteq> image_id \<or> payload_start > entry then None
        else case implied_length entry code_size payload_start instructions_length of
            None \<Rightarrow> None
          | Some len \<Rightarrow>
              if \<not> range_fits entry code_size payload_start len explicit_payload then None
              else Some \<lparr>pc_owner = owner', pc_image_id = image_id, pc_payload_start = payload_start,
                         pc_length = len, pc_explicit = explicit_payload\<rparr>)"

definition reuse_target :: "nat \<Rightarrow> u32 \<Rightarrow> u64 \<Rightarrow> u32 \<Rightarrow> identity_proof \<Rightarrow> placement \<Rightarrow> target_world \<Rightarrow>
    nat option \<times> target_world" where
  "reuse_target i code_size code_object alias_count proof pc w =
     (case et_payload (tw_target w i) of
        None \<Rightarrow> (None, w)
      | Some p \<Rightarrow>
          if \<not> pc_explicit pc then
            (case MergeEvidence i code_size code_object alias_count proof w of
               (merged, w') \<Rightarrow> (if merged then Some i else None, w'))
          else if pl_start (tw_payload w p) \<noteq> pc_payload_start pc \<or>
                  pl_instructions_length (tw_payload w p) \<noteq> pc_length pc then
            if pl_exact_identity (tw_payload w p) \<or> et_hook_record (tw_target w i) \<noteq> None then (None, w)
            else
              (case FindOrCreatePayload (pc_owner pc) (pc_payload_start pc) (pc_length pc) code_object True w of
                 (None, w') \<Rightarrow> (None, w')
               | (Some r, w') \<Rightarrow>
                   (case MergeEvidenceAndUpgradePayload i code_size code_object alias_count proof
                           (Some p) (Some r) w' of
                      (merged, w'') \<Rightarrow> (if merged then Some i else None, w'')))
          else
            (case MergeEvidence i code_size code_object alias_count proof w of
               (merged, w') \<Rightarrow>
                 if \<not> merged then (None, w')
                 else (Some i, set_payload p ((tw_payload w' p)\<lparr>pl_exact_identity := True\<rparr>) w')))"

definition create_target :: "ptr \<Rightarrow> u32 \<Rightarrow> u64 \<Rightarrow> u32 \<Rightarrow> identity_proof \<Rightarrow> placement \<Rightarrow> target_world \<Rightarrow>
    nat option \<times> target_world" where
  "create_target entry code_size code_object alias_count proof pc w =
     (case FindOrCreatePayload (pc_owner pc) (pc_payload_start pc) (pc_length pc) code_object
             (pc_explicit pc) w of
        (None, w') \<Rightarrow> (None, w')
      | (Some p, w') \<Rightarrow>
          let i = tw_next_target w';
              t = new_target entry code_size code_object alias_count proof (pc_image_id pc) (pc_owner pc) (Some p);
              w'' = set_target i t w'
          in (Some i, w''\<lparr>tw_next_target := i + 1, tw_live_target := (tw_live_target w'')(i := True),
                          tw_targets := insert_key (pc_owner pc, entry) i (tw_targets w'')\<rparr>))"

definition GetOrCreate :: "ptr \<Rightarrow> u32 \<Rightarrow> u64 \<Rightarrow> u32 \<Rightarrow> identity_proof \<Rightarrow> ptr \<Rightarrow> u32 \<Rightarrow> u64 \<Rightarrow>
    owner_identity \<Rightarrow> target_world \<Rightarrow> nat option \<times> target_world" where
  "GetOrCreate entry code_size code_object alias_count proof payload_start instructions_length
      image_id owner' w =
     (case check_placement entry code_size payload_start instructions_length image_id owner' of
        None \<Rightarrow> (None, w)
      | Some pc \<Rightarrow>
          let key = (pc_owner pc, entry) in
          case map_of (tw_targets w) key of
            Some i \<Rightarrow>
              if tw_live_target w i then reuse_target i code_size code_object alias_count proof pc w
              else create_target entry code_size code_object alias_count proof pc w
          | None \<Rightarrow> create_target entry code_size code_object alias_count proof pc w)"

definition ClearTargets :: "target_world \<Rightarrow> target_world" where
  "ClearTargets w = w\<lparr>tw_targets := [], tw_payloads := []\<rparr>"

definition key_of_image :: "u64 \<Rightarrow> u64 \<Rightarrow> address_key \<times> nat \<Rightarrow> bool" where
  "key_of_image image_id epoch item \<longleftrightarrow> oi_image_id (fst (fst item)) = image_id \<and>
     (epoch = 0 \<or> oi_image_epoch (fst (fst item)) = epoch)"

definition EraseImage :: "u64 \<Rightarrow> u64 \<Rightarrow> target_world \<Rightarrow> target_world" where
  "EraseImage image_id epoch w =
     w\<lparr>tw_targets := filter (\<lambda>e. \<not> key_of_image image_id epoch e) (tw_targets w),
       tw_payloads := filter (\<lambda>e. \<not> key_of_image image_id epoch e) (tw_payloads w)\<rparr>"

end
