(* ===== verification/Return_Interception.thy ===== *)
theory Return_Interception
  imports Arm64_Code Entry_Targets
begin

text \<open>
  The interception of the returns of a function body (\<^verbatim>\<open>src/interceptor/arm64_bridge.cpp\<close>):
  every reachable RET of an entry is overwritten with a branch to a veneer of the payload, sites
  shared by several hooks are counted, and the last consumer restores the instruction. Code memory
  is a function from addresses to bytes. Whether a write succeeds is the kernel's answer to the
  two \<open>mprotect\<close> calls around it: the first may refuse (nothing is written), the second may fail
  after the instruction has been stored. Running out of memory while the vectors grow and locks
  are left out; the address of a new veneer and whether the payload can be retained are arguments.
\<close>

section \<open>Code memory\<close>

datatype write_answer = WriteDone | WriteRefused | WriteStuck

record code_memory =
  cm_bytes :: "ptr \<Rightarrow> u8"
  cm_answers :: "write_answer list"

definition word_bytes :: "u32 \<Rightarrow> u8 list" where
  "word_bytes w = [ucast (w AND 0xff), ucast (drop_bit 8 w AND 0xff),
     ucast (drop_bit 16 w AND 0xff), ucast (drop_bit 24 w AND 0xff)]"

definition read_instruction :: "code_memory \<Rightarrow> ptr \<Rightarrow> u32" where
  "read_instruction m a = of_nat (le_nat (map (\<lambda>i. cm_bytes m (a + of_nat i)) [0..<4]))"

definition store_instruction :: "ptr \<Rightarrow> u32 \<Rightarrow> (ptr \<Rightarrow> u8) \<Rightarrow> (ptr \<Rightarrow> u8)" where
  "store_instruction a w bytes =
     bytes(a := word_bytes w ! 0, a + 1 := word_bytes w ! 1, a + 2 := word_bytes w ! 2,
           a + 3 := word_bytes w ! 3)"

text \<open>Past the end of the given answers every write succeeds.\<close>

definition WriteExecutableInstruction :: "ptr \<Rightarrow> u32 \<Rightarrow> code_memory \<Rightarrow> bool \<times> code_memory" where
  "WriteExecutableInstruction address instruction m =
     (let answer = (case cm_answers m of [] \<Rightarrow> WriteDone | a # _ \<Rightarrow> a);
          m = m\<lparr>cm_answers := tl (cm_answers m)\<rparr>
      in if answer = WriteRefused then (False, m)
         else (answer = WriteDone,
               m\<lparr>cm_bytes := store_instruction address instruction (cm_bytes m)\<rparr>))"

section \<open>The hook's side\<close>

record intercepted_hook =
  ih_entry :: ptr
  ih_code_size :: u32
  ih_return_consumer :: bool
  ih_return_sites :: "ptr list"

record interception =
  rt_memory :: code_memory
  rt_payload :: code_payload
  rt_hook :: intercepted_hook

definition find_patch :: "return_patch list \<Rightarrow> ptr \<Rightarrow> return_patch option" where
  "find_patch patches address = find (\<lambda>p. rp_address p = address) patches"

definition DestroyUnpublishedReturnEntry :: "code_payload \<Rightarrow> code_payload" where
  "DestroyUnpublishedReturnEntry p =
     (if pl_return_entry p = 0 \<or> pl_return_entry_published p then p
      else p\<lparr>pl_return_entry := 0, pl_return_entry_size := 0\<rparr>)"

definition destroy_if_unused :: "code_payload \<Rightarrow> code_payload" where
  "destroy_if_unused p =
     (if pl_return_interception_consumers p = 0 \<and> pl_return_patches p = []
      then DestroyUnpublishedReturnEntry p else p)"

section \<open>Installing\<close>

text \<open>\<open>rollback_newly_installed\<close>: the patches still in place after it, in the order they are met.\<close>

fun rollback_patches :: "return_patch list \<Rightarrow> code_memory \<Rightarrow> return_patch list \<times> code_memory" where
  "rollback_patches [] m = ([], m)"
| "rollback_patches (p # ps) m =
     (let current = read_instruction m (rp_address p) in
      if current = rp_original p then rollback_patches ps m
      else if current = rp_patched p then
        (case WriteExecutableInstruction (rp_address p) (rp_original p) m of
           (written, m') \<Rightarrow>
             if written then rollback_patches ps m'
             else if read_instruction m' (rp_address p) = rp_patched p
             then (case rollback_patches ps m' of (residual, m'') \<Rightarrow> (p # residual, m''))
             else rollback_patches ps m')
      else rollback_patches ps m)"

definition rollback_newly_installed :: "return_patch list \<Rightarrow> interception \<Rightarrow> dp_status \<times> interception" where
  "rollback_newly_installed newly s =
     (let (residual, m) = rollback_patches (rev newly) (rt_memory s);
          residual = map (\<lambda>p. p\<lparr>rp_consumers := 1\<rparr>) residual;
          h = rt_hook s; p = rt_payload s;
          h' = (if residual = [] then h
                else h\<lparr>ih_return_sites := map rp_address residual, ih_return_consumer := True\<rparr>);
          p' = (if residual = [] then p
                else p\<lparr>pl_return_patches := pl_return_patches p @ residual,
                       pl_return_interception_consumers := pl_return_interception_consumers p + 1\<rparr>)
      in (DP_HOOK_FAILED, \<lparr>rt_memory = m, rt_payload = destroy_if_unused p', rt_hook = h'\<rparr>))"

text \<open>
  The loop over the candidates: the state of the memory, whether the payload has been retained
  by a published branch, the patches written so far, the existing sites consumed and the sites
  acquired. It stops at the first site that cannot be taken.
\<close>

record acquisition =
  aq_memory :: code_memory
  aq_published :: bool
  aq_newly :: "return_patch list"
  aq_existing :: "ptr list"
  aq_sites :: "ptr list"

definition acquire_site :: "return_patch list \<Rightarrow> ptr \<Rightarrow> bool \<Rightarrow> ptr \<times> u32 \<Rightarrow> acquisition \<Rightarrow>
    bool \<times> acquisition" where
  "acquire_site patches return_entry retained candidate q =
     (case candidate of (address, original) \<Rightarrow>
      let current = read_instruction (aq_memory q) address in
      case find_patch patches address of
        Some existing \<Rightarrow>
          if rp_original existing \<noteq> original \<or> rp_consumers existing = 0 \<or> current \<noteq> rp_patched existing
          then (False, q)
          else (True, q\<lparr>aq_existing := aq_existing q @ [address], aq_sites := aq_sites q @ [address]\<rparr>)
      | None \<Rightarrow>
          if current \<noteq> original then (False, q)
          else (case EncodeDirectBranch address return_entry of
              None \<Rightarrow> (False, q)
            | Some branch \<Rightarrow>
                if \<not> (aq_published q \<or> retained) then (False, q)
                else
                  let q = q\<lparr>aq_published := True\<rparr> in
                  (case WriteExecutableInstruction address branch (aq_memory q) of
                     (written, m) \<Rightarrow>
                       if \<not> written then (False, q\<lparr>aq_memory := m\<rparr>)
                       else (True, q\<lparr>aq_memory := m,
                              aq_newly := aq_newly q @ [\<lparr>rp_address = address, rp_original = original,
                                rp_patched = branch, rp_consumers = 1\<rparr>],
                              aq_sites := aq_sites q @ [address]\<rparr>))))"

fun acquire_sites :: "return_patch list \<Rightarrow> ptr \<Rightarrow> bool \<Rightarrow> (ptr \<times> u32) list \<Rightarrow> acquisition \<Rightarrow>
    bool \<times> acquisition" where
  "acquire_sites patches return_entry retained [] q = (True, q)"
| "acquire_sites patches return_entry retained (c # cs) q =
     (case acquire_site patches return_entry retained c q of
        (acquired, q') \<Rightarrow>
          if acquired then acquire_sites patches return_entry retained cs q' else (False, q'))"

fun bump_first :: "ptr \<Rightarrow> return_patch list \<Rightarrow> return_patch list" where
  "bump_first a [] = []"
| "bump_first a (p # ps) =
     (if rp_address p = a then p\<lparr>rp_consumers := rp_consumers p + 1\<rparr> # ps else p # bump_first a ps)"

definition entry_range_ok :: "code_payload \<Rightarrow> intercepted_hook \<Rightarrow> bool" where
  "entry_range_ok p h \<longleftrightarrow>
     (let start = ih_entry h; stop = start + ucast (ih_code_size h) in
      stop > start \<and> start AND 3 = 0 \<and> payload_end p \<noteq> 0 \<and> stop \<le> payload_end p \<and>
      payload_contains p start (ucast (ih_code_size h)) \<and>
      length (pl_pristine_bytes p) = unat (pl_instructions_length p))"

text \<open>\<open>stub\<close> is the veneer \<open>CreateArm64PayloadReturnStub\<close> gives, with its size, or 0.\<close>

definition InstallArm64ReturnInterception :: "ptr \<times> u64 \<Rightarrow> bool \<Rightarrow> interception \<Rightarrow> dp_status \<times> interception" where
  "InstallArm64ReturnInterception stub retained s =
     (let h = rt_hook s; p = rt_payload s in
      if ih_entry h = 0 \<or> ih_code_size h < 4 then (DP_UNSUPPORTED_ABI, s)
      else if \<not> entry_range_ok p h then (DP_PROFILE_MISMATCH, s)
      else if pl_return_entry p = 0 \<and> fst stub = 0
      then (DP_HOOK_FAILED, s)
      else
        let p = (if pl_return_entry p = 0
                 then p\<lparr>pl_return_entry := fst stub, pl_return_entry_size := snd stub\<rparr> else p);
            body = take (unat (ih_code_size h))
                     (drop (unat (ih_entry h - pl_start p)) (pl_pristine_bytes p))
        in case CollectReachableArm64Returns body (ih_entry h) of
          None \<Rightarrow> (DP_UNSUPPORTED_ABI, s\<lparr>rt_payload := destroy_if_unused p\<rparr>)
        | Some candidates \<Rightarrow>
            (case acquire_sites (pl_return_patches p) (pl_return_entry p) retained candidates
                    \<lparr>aq_memory = rt_memory s, aq_published = pl_return_entry_published p, aq_newly = [],
                     aq_existing = [], aq_sites = []\<rparr> of
               (acquired, q) \<Rightarrow>
                 let p = p\<lparr>pl_return_entry_published := aq_published q\<rparr>;
                     s = s\<lparr>rt_payload := p, rt_memory := aq_memory q\<rparr>
                 in if \<not> acquired then rollback_newly_installed (aq_newly q) s
                 else (DP_OK,
                   s\<lparr>rt_payload := p\<lparr>pl_return_patches :=
                         fold bump_first (aq_existing q) (pl_return_patches p) @ aq_newly q,
                       pl_return_interception_consumers := pl_return_interception_consumers p + 1\<rparr>,
                     rt_hook := h\<lparr>ih_return_consumer := True, ih_return_sites := aq_sites q\<rparr>\<rparr>)))"

section \<open>Restoring\<close>

text \<open>The first pass: the sites this consumer is the last of, if it still owns every site.\<close>

fun owned_sites :: "code_memory \<Rightarrow> return_patch list \<Rightarrow> ptr list \<Rightarrow> return_patch list option" where
  "owned_sites m patches [] = Some []"
| "owned_sites m patches (a # as) =
     (case find_patch patches a of
        None \<Rightarrow> None
      | Some p \<Rightarrow>
          if rp_consumers p = 0 \<or> read_instruction m (rp_address p) \<noteq> rp_patched p then None
          else map_option (\<lambda>rest. if rp_consumers p = 1 then p # rest else rest)
                 (owned_sites m patches as))"

fun repatch :: "return_patch list \<Rightarrow> code_memory \<Rightarrow> code_memory" where
  "repatch [] m = m"
| "repatch (p # ps) m = repatch ps (snd (WriteExecutableInstruction (rp_address p) (rp_patched p) m))"

fun restore_sites :: "return_patch list \<Rightarrow> return_patch list \<Rightarrow> code_memory \<Rightarrow> bool \<times> code_memory" where
  "restore_sites restored [] m = (True, m)"
| "restore_sites restored (p # ps) m =
     (if read_instruction m (rp_address p) \<noteq> rp_patched p then (False, repatch (rev restored) m)
      else case WriteExecutableInstruction (rp_address p) (rp_original p) m of
        (written, m') \<Rightarrow>
          if written then restore_sites (restored @ [p]) ps m'
          else (False, repatch (rev restored) m'))"

text \<open>
  The consumer counts of the sites are taken down one by one; \<open>None\<close> where the code finds a site
  without a patch or with no consumer left.
\<close>

fun drop_first :: "ptr \<Rightarrow> return_patch list \<Rightarrow> return_patch list" where
  "drop_first a [] = []"
| "drop_first a (p # ps) =
     (if rp_address p = a then p\<lparr>rp_consumers := rp_consumers p - 1\<rparr> # ps else p # drop_first a ps)"

fun drop_consumers :: "ptr list \<Rightarrow> return_patch list \<Rightarrow> bool \<times> return_patch list" where
  "drop_consumers [] patches = (True, patches)"
| "drop_consumers (a # as) patches =
     (case find_patch patches a of
        None \<Rightarrow> (False, patches)
      | Some p \<Rightarrow> if rp_consumers p = 0 then (False, patches)
                  else drop_consumers as (drop_first a patches))"

definition RestoreArm64ReturnInterception :: "interception \<Rightarrow> bool \<times> interception" where
  "RestoreArm64ReturnInterception s =
     (let h = rt_hook s; p = rt_payload s in
      if \<not> ih_return_consumer h then (True, s)
      else if pl_return_interception_consumers p = 0 \<or> ih_return_sites h = [] then (False, s)
      else case owned_sites (rt_memory s) (pl_return_patches p) (ih_return_sites h) of
        None \<Rightarrow> (False, s)
      | Some sites \<Rightarrow>
          (case restore_sites [] sites (rt_memory s) of
             (restored, m) \<Rightarrow>
               let s = s\<lparr>rt_memory := m\<rparr> in
               if \<not> restored then (False, s)
               else case drop_consumers (ih_return_sites h) (pl_return_patches p) of
                 (dropped, patches) \<Rightarrow>
                   if \<not> dropped then (False, s\<lparr>rt_payload := p\<lparr>pl_return_patches := patches\<rparr>\<rparr>)
                   else
                     let p = p\<lparr>pl_return_patches := filter (\<lambda>r. rp_consumers r \<noteq> 0) patches,
                               pl_return_interception_consumers := pl_return_interception_consumers p - 1\<rparr>;
                         s = s\<lparr>rt_payload := p, rt_hook := h\<lparr>ih_return_consumer := False, ih_return_sites := []\<rparr>\<rparr>
                     in if pl_return_interception_consumers p = 0
                        then if pl_return_patches p \<noteq> [] then (False, s)
                             else (True, s\<lparr>rt_payload := DestroyUnpublishedReturnEntry p\<rparr>)
                        else (True, s)))"

end
