(* ===== verification/Managed_Patches.thy ===== *)
theory Managed_Patches
  imports Module_Image Return_Interception
begin

text \<open>
  The code bytes the library has changed and how it sees through its own changes
  (\<^verbatim>\<open>src/core/hook_registry.cpp\<close>): the snapshot taken before the backend patches an entry,
  the bytes captured afterwards, and the normalisation that peels the entry patches off in
  reverse order of installation and then the return patches of each payload. Code memory is
  a function from addresses to bytes.
\<close>

section \<open>Patches\<close>

record managed_patch =
  mp_address :: ptr
  mp_original :: "u8 list"
  mp_patched :: "u8 list"

text \<open>A hook as the normalisation sees it; payloads are named by their address.\<close>

record managed_hook =
  mh_unhooked :: bool
  mh_patches :: "managed_patch list"
  mh_payload :: "nat option"

definition read_bytes :: "(ptr \<Rightarrow> u8) \<Rightarrow> ptr \<Rightarrow> nat \<Rightarrow> u8 list" where
  "read_bytes mem address n = map (\<lambda>i. mem (address + of_nat i)) [0..<n]"

definition SnapshotEntryTarget :: "(ptr \<Rightarrow> u8) \<Rightarrow> ptr \<Rightarrow> u32 \<Rightarrow> u8 list" where
  "SnapshotEntryTarget mem entry code_size =
     (if entry = 0 \<or> code_size = 0 then [] else read_bytes mem entry (unat code_size))"

definition PrepareManagedPatchSnapshot :: "ptr \<Rightarrow> u32 \<Rightarrow> u8 list \<Rightarrow> managed_patch list option" where
  "PrepareManagedPatchSnapshot entry code_size pristine =
     (if length pristine \<noteq> unat code_size then None
      else if pristine = [] then Some []
      else Some [\<lparr>mp_address = entry, mp_original = pristine,
                  mp_patched = replicate (length pristine) 0\<rparr>])"

definition CaptureManagedPatchedBytes :: "(ptr \<Rightarrow> u8) \<Rightarrow> ptr \<Rightarrow> u32 \<Rightarrow> managed_patch list \<Rightarrow>
    managed_patch list option" where
  "CaptureManagedPatchedBytes mem entry code_size patches =
     (if code_size = 0 then (if patches = [] then Some patches else None)
      else case patches of
        [p] \<Rightarrow>
          if mp_address p \<noteq> entry \<or> length (mp_original p) \<noteq> unat code_size \<or>
             length (mp_patched p) \<noteq> unat code_size then None
          else Some [p\<lparr>mp_patched := read_bytes mem (mp_address p) (length (mp_patched p))\<rparr>]
      | _ \<Rightarrow> None)"

section \<open>Normalisation\<close>

fun overlay_loop :: "managed_patch \<Rightarrow> nat \<Rightarrow> nat \<Rightarrow> nat \<Rightarrow> u8 list \<Rightarrow> u8 list" where
  "overlay_loop patch dst src 0 bytes = bytes"
| "overlay_loop patch dst src (Suc n) bytes =
     overlay_loop patch (dst + 1) (src + 1) n
       (if bytes ! dst = mp_patched patch ! src then bytes[dst := mp_original patch ! src] else bytes)"

text \<open>\<open>stop\<close> is the end of the range.\<close>

definition OverlayOriginalBytes :: "ptr \<Rightarrow> ptr \<Rightarrow> managed_patch \<Rightarrow> u8 list \<Rightarrow> u8 list" where
  "OverlayOriginalBytes start stop patch bytes =
     (if mp_address patch \<ge> stop \<or> mp_original patch = [] \<or>
         length (mp_original patch) \<noteq> length (mp_patched patch) then bytes
      else
        let n = of_nat (length (mp_original patch)) :: u64;
            patch_end = (if mp_address patch > UINT64_MAX - n then UINT64_MAX
                         else mp_address patch + n)
        in if patch_end \<le> start then bytes
        else
          let overlap_start = max start (mp_address patch); overlap_end = min stop patch_end in
          if overlap_start \<ge> overlap_end then bytes
          else overlay_loop patch (unat (overlap_start - start)) (unat (overlap_start - mp_address patch))
                 (unat (overlap_end - overlap_start)) bytes)"

definition return_managed_patch :: "return_patch \<Rightarrow> managed_patch" where
  "return_managed_patch r = \<lparr>mp_address = rp_address r, mp_original = word_bytes (rp_original r),
     mp_patched = word_bytes (rp_patched r)\<rparr>"

text \<open>The entry patches of the hooks that are not unhooked, latest hook first.\<close>

fun peel_backends :: "ptr \<Rightarrow> ptr \<Rightarrow> managed_hook list \<Rightarrow> u8 list \<Rightarrow> u8 list" where
  "peel_backends start stop [] bytes = bytes"
| "peel_backends start stop (h # hs) bytes =
     peel_backends start stop hs
       (if mh_unhooked h then bytes
        else fold (OverlayOriginalBytes start stop) (mh_patches h) bytes)"

text \<open>Then the return patches of every payload, each payload once.\<close>

fun peel_returns :: "(nat \<Rightarrow> return_patch list) \<Rightarrow> ptr \<Rightarrow> ptr \<Rightarrow> nat list \<Rightarrow> managed_hook list \<Rightarrow>
    u8 list \<Rightarrow> u8 list" where
  "peel_returns payloads start stop seen [] bytes = bytes"
| "peel_returns payloads start stop seen (h # hs) bytes =
     (if mh_unhooked h then peel_returns payloads start stop seen hs bytes
      else case mh_payload h of
        None \<Rightarrow> peel_returns payloads start stop seen hs bytes
      | Some p \<Rightarrow>
          if p \<in> set seen then peel_returns payloads start stop seen hs bytes
          else peel_returns payloads start stop (seen @ [p]) hs
                 (fold (OverlayOriginalBytes start stop) (map return_managed_patch (payloads p)) bytes))"

definition NormalizeManagedCodeBytes :: "(ptr \<Rightarrow> u8) \<Rightarrow> (nat \<Rightarrow> return_patch list) \<Rightarrow>
    managed_hook list \<Rightarrow> ptr \<Rightarrow> u64 \<Rightarrow> u8 list option" where
  "NormalizeManagedCodeBytes mem payloads hooks start size' =
     (if start = 0 \<or> size' = 0 \<or> start > UINT64_MAX - size' then None
      else
        let stop = start + size'; bytes = read_bytes mem start (unat size') in
        Some (peel_returns payloads start stop [] (rev hooks)
               (peel_backends start stop (rev hooks) bytes)))"

text \<open>A null address or an empty range is fingerprinted as it stands (the empty input).\<close>

definition FingerprintCodeWithManagedPatches :: "(ptr \<Rightarrow> u8) \<Rightarrow> (nat \<Rightarrow> return_patch list) \<Rightarrow>
    managed_hook list \<Rightarrow> ptr \<Rightarrow> u64 \<Rightarrow> string" where
  "FingerprintCodeWithManagedPatches mem payloads hooks address size' =
     (if address = 0 \<or> size' = 0 then FingerprintCode []
      else if address > UINT64_MAX - size' then []
      else case NormalizeManagedCodeBytes mem payloads hooks address size' of
             None \<Rightarrow> []
           | Some normalized \<Rightarrow> FingerprintCode normalized)"

definition PreparePayloadPristine :: "(ptr \<Rightarrow> u8) \<Rightarrow> (nat \<Rightarrow> return_patch list) \<Rightarrow> managed_hook list \<Rightarrow>
    ptr \<Rightarrow> u32 \<Rightarrow> u8 list \<Rightarrow> bool \<times> u8 list" where
  "PreparePayloadPristine mem payloads hooks start instructions_length pristine =
     (if start = 0 \<or> instructions_length = 0 then (False, pristine)
      else if pristine \<noteq> [] then (length pristine = unat instructions_length, pristine)
      else case NormalizeManagedCodeBytes mem payloads hooks start (ucast instructions_length) of
             None \<Rightarrow> (False, pristine)
           | Some normalized \<Rightarrow> (length normalized = unat instructions_length, normalized))"

end
