(* ===== verification/Return_Interception_Props.thy ===== *)
theory Return_Interception_Props
  imports Return_Interception Arm64_Code_Props
begin

text \<open>
  What holds of the interception of returns: reading and storing instructions, what a successful
  install and a successful restore do to code memory and to the payload's patches, that restoring
  undoes installing, and the one failure after which a branch stays without a record.
\<close>

section \<open>Reading and storing instructions\<close>

lemma upt_four: "[0..<4] = [0, 1, 2, 3::nat]"
  by (simp add: upt_rec)

lemma byte_of: "(ucast (drop_bit n w AND 0xff) :: u8) = of_nat (unat w div 2 ^ n)" for w :: u32
proof -
  have ff: "y AND 0xff = take_bit 8 y" for y :: u32 by (simp add: take_bit_eq_mask mask_eq_exp_minus_1)
  have "(ucast (drop_bit n w AND 0xff) :: u8) = ucast (drop_bit n w)"
    unfolding ff by (intro bit_word_eqI) (auto simp: bit_simps)
  also have "\<dots> = of_nat (unat (drop_bit n w))" by (rule of_nat_unat [symmetric])
  also have "\<dots> = of_nat (unat w div 2 ^ n)" by (simp only: unat_drop_bit_eq) (simp only: drop_bit_eq_div)
  finally show ?thesis .
qed

lemma word_bytes_encode: "word_bytes w = encode_le 4 (unat w)"
  using byte_of [of 0 w] byte_of [of 8 w] byte_of [of 16 w] byte_of [of 24 w]
  by (simp add: word_bytes_def encode_le_def upt_four)

lemma word_of_bytes: "of_nat (le_nat (word_bytes w)) = w"
  using unat_bound [of w] by (simp add: word_bytes_encode le_nat_encode)

lemma length_word_bytes [simp]: "length (word_bytes w) = 4"
  by (simp add: word_bytes_def)

lemma word_bytes_expand: "[word_bytes w ! 0, word_bytes w ! Suc 0, word_bytes w ! 2, word_bytes w ! 3] = word_bytes w"
  by (simp add: word_bytes_def)

text \<open>Two instruction addresses are equal or their words do not overlap.\<close>

lemma aligned_nat: "a AND 3 = 0 \<longleftrightarrow> unat a mod 4 = 0" for a :: ptr
proof -
  have "unat (take_bit 2 a) = unat a mod 4"
    by (simp only: unsigned_take_bit_eq) (simp add: take_bit_eq_mod)
  then show ?thesis unfolding aligned_eq by (metis unsigned_eq_0_iff)
qed

lemma unat_aligned_add:
  fixes a :: ptr
  assumes "a AND 3 = 0" "i < 4"
  shows "unat (a + of_nat i) = unat a + i"
proof -
  have "unat a mod 4 = 0" using assms by (simp add: aligned_nat)
  moreover have "unat a < 2 ^ 64" using unat_bound [of a] by simp
  ultimately have "unat a + i < 2 ^ 64" using assms(2) by (auto simp: dvd_def elim!: dvdE)
  then show ?thesis using assms(2) by (simp add: unat_word_ariths unat_of_nat64)
qed

lemma aligned_apart:
  fixes a b :: ptr
  assumes "a AND 3 = 0" "b AND 3 = 0" "i < 4" "j < 4"
  shows "a + of_nat i = b + of_nat j \<longleftrightarrow> a = b \<and> i = j"
proof
  assume "a + of_nat i = b + of_nat j"
  then have e: "unat a + i = unat b + j" using assms by (metis unat_aligned_add)
  have m: "unat a mod 4 = 0" "unat b mod 4 = 0" using assms by (simp_all add: aligned_nat)
  have "(unat a + i) mod 4 = i" "(unat b + j) mod 4 = j" using m assms by (simp_all add: mod_add_left_eq [symmetric])
  then have "i = j" using e by simp
  with e show "a = b \<and> i = j" by (simp add: word_unat_eq_iff)
qed simp

lemma four_cases: "i < 4 \<Longrightarrow> i = 0 \<or> i = Suc 0 \<or> i = 2 \<or> i = (3::nat)"
  by auto

lemma stored_byte:
  fixes a :: ptr
  assumes "i < 4"
  shows "store_instruction a w bytes (a + of_nat i) = word_bytes w ! i"
  using four_cases [OF assms] by (auto simp: store_instruction_def)

lemma stored_elsewhere: "(\<forall>i < 4. b \<noteq> a + of_nat i) \<Longrightarrow> store_instruction a w bytes b = bytes b"
proof -
  assume n: "\<forall>i < 4. b \<noteq> a + of_nat i"
  have "b \<noteq> a" "b \<noteq> a + 1" "b \<noteq> a + 2" "b \<noteq> a + 3"
    using n [rule_format, of 0] n [rule_format, of 1] n [rule_format, of 2] n [rule_format, of 3] by simp_all
  then show ?thesis by (simp add: store_instruction_def)
qed

lemma read_bytes_word:
  assumes "\<forall>i < 4. cm_bytes m (a + of_nat i) = word_bytes w ! i"
  shows "read_instruction m a = w"
proof -
  have "map (\<lambda>i. cm_bytes m (a + of_nat i)) [0..<4] = word_bytes w"
    using assms by (intro nth_equalityI) simp_all
  then show ?thesis by (simp add: read_instruction_def word_of_bytes)
qed

lemma read_stored: "cm_bytes m = store_instruction a w bytes \<Longrightarrow> read_instruction m a = w"
  by (rule read_bytes_word) (simp add: stored_byte)

lemma read_cong: "(\<forall>i < 4. cm_bytes m (a + of_nat i) = cm_bytes m' (a + of_nat i)) \<Longrightarrow>
    read_instruction m a = read_instruction m' a"
  unfolding read_instruction_def by (intro arg_cong [where f = "\<lambda>l. of_nat (le_nat l)"]) (auto intro: map_cong)

lemma stored_apart:
  assumes "a AND 3 = 0" "b AND 3 = 0" "a \<noteq> b" "i < 4"
  shows "store_instruction a w bytes (b + of_nat i) = bytes (b + of_nat i)"
  by (rule stored_elsewhere) (use assms aligned_apart in metis)

lemma read_stored_apart:
  assumes "a AND 3 = 0" "b AND 3 = 0" "a \<noteq> b" "cm_bytes m' = store_instruction a w (cm_bytes m)"
  shows "read_instruction m' b = read_instruction m b"
  by (rule read_cong) (use assms stored_apart in simp)

lemma encode_le_nat: "encode_le (length bs) (le_nat bs) = bs"
proof (induction bs)
  case (Cons b bs)
  have z: "(256 :: u8) = 0" by simp
  have "unat b div 256 = 0" using unat_bound [of b] by simp
  then have d: "(unat b + 256 * le_nat bs) div 256 = le_nat bs" by simp
  have "(of_nat (unat b + 256 * le_nat bs) :: u8) = b"
    using z by (simp only: of_nat_add of_nat_mult of_nat_numeral of_nat_unat) simp
  then show ?case using Cons.IH d by (simp only: le_nat.simps length_Cons encode_le_Suc)
qed (simp add: encode_le_def)

lemma le_nat_bound: "le_nat bs < 256 ^ length bs"
proof (induction bs)
  case (Cons b bs)
  then show ?case using unat_bound [of b] by simp
qed simp

lemma le_nat_bytes: "length bs = 4 \<Longrightarrow> word_bytes (of_nat (le_nat bs)) = bs"
  using le_nat_bound [of bs] encode_le_nat [of bs] by (simp add: word_bytes_encode unat_of_nat32)

lemma word_bytes_read: "i < 4 \<Longrightarrow> word_bytes (read_instruction m a) ! i = cm_bytes m (a + of_nat i)"
  using le_nat_bytes [of "map (\<lambda>i. cm_bytes m (a + of_nat i)) [0..<4]"]
  by (simp add: read_instruction_def)

lemma store_back:
  "store_instruction a (read_instruction m a) (store_instruction a w (cm_bytes m)) = cm_bytes m"
proof
  fix b
  show "store_instruction a (read_instruction m a) (store_instruction a w (cm_bytes m)) b = cm_bytes m b"
  proof (cases "\<exists>i < 4. b = a + of_nat i")
    case True
    then show ?thesis by (auto simp: stored_byte word_bytes_read)
  qed (simp add: stored_elsewhere)
qed

section \<open>Writing many instructions\<close>

definition put_patched :: "return_patch list \<Rightarrow> (ptr \<Rightarrow> u8) \<Rightarrow> (ptr \<Rightarrow> u8)" where
  "put_patched ps = fold (\<lambda>p. store_instruction (rp_address p) (rp_patched p)) ps"

definition put_original :: "return_patch list \<Rightarrow> (ptr \<Rightarrow> u8) \<Rightarrow> (ptr \<Rightarrow> u8)" where
  "put_original ps = fold (\<lambda>p. store_instruction (rp_address p) (rp_original p)) ps"

lemma put_simps [simp]:
  "put_patched [] b = b" "put_patched (p # ps) b = put_patched ps (store_instruction (rp_address p) (rp_patched p) b)"
  "put_original [] b = b" "put_original (p # ps) b = put_original ps (store_instruction (rp_address p) (rp_original p) b)"
  "put_patched (ps @ qs) b = put_patched qs (put_patched ps b)"
  by (simp_all add: put_patched_def put_original_def)

definition sites_ok :: "return_patch list \<Rightarrow> bool" where
  "sites_ok ps \<longleftrightarrow> distinct (map rp_address ps) \<and> (\<forall>p \<in> set ps. rp_address p AND 3 = 0)"

lemma sites_ok_simps [simp]:
  "sites_ok []"
  "sites_ok (p # ps) \<longleftrightarrow> rp_address p AND 3 = 0 \<and> rp_address p \<notin> rp_address ` set ps \<and> sites_ok ps"
  "sites_ok (ps @ qs) \<longleftrightarrow> sites_ok ps \<and> sites_ok qs \<and> rp_address ` set ps \<inter> rp_address ` set qs = {}"
  by (auto simp: sites_ok_def)

lemma put_patched_apart:
  "a AND 3 = 0 \<Longrightarrow> a \<notin> rp_address ` set ps \<Longrightarrow> sites_ok ps \<Longrightarrow> i < 4 \<Longrightarrow>
     put_patched ps b (a + of_nat i) = b (a + of_nat i)"
  by (induction ps arbitrary: b) (auto simp: stored_apart)

lemma put_original_apart:
  "a AND 3 = 0 \<Longrightarrow> a \<notin> rp_address ` set ps \<Longrightarrow> sites_ok ps \<Longrightarrow> i < 4 \<Longrightarrow>
     put_original ps b (a + of_nat i) = b (a + of_nat i)"
  by (induction ps arbitrary: b) (auto simp: stored_apart)

lemma put_patched_at:
  "sites_ok ps \<Longrightarrow> p \<in> set ps \<Longrightarrow> i < 4 \<Longrightarrow>
     put_patched ps b (rp_address p + of_nat i) = word_bytes (rp_patched p) ! i"
  by (induction ps arbitrary: b) (auto simp: put_patched_apart stored_byte)

lemma put_original_at:
  "sites_ok ps \<Longrightarrow> p \<in> set ps \<Longrightarrow> i < 4 \<Longrightarrow>
     put_original ps b (rp_address p + of_nat i) = word_bytes (rp_original p) ! i"
  by (induction ps arbitrary: b) (auto simp: put_original_apart stored_byte)

lemma put_elsewhere:
  assumes "\<forall>p \<in> set ps. \<forall>i < 4. x \<noteq> rp_address p + of_nat i"
  shows "put_patched ps b x = b x" "put_original ps b x = b x"
  using assms by (induction ps arbitrary: b) (simp_all add: stored_elsewhere)

lemma read_put_patched:
  "sites_ok ps \<Longrightarrow> p \<in> set ps \<Longrightarrow> cm_bytes m = put_patched ps b \<Longrightarrow> read_instruction m (rp_address p) = rp_patched p"
  by (rule read_bytes_word) (simp add: put_patched_at)

lemma read_put_apart:
  assumes "sites_ok ps" "a AND 3 = 0" "a \<notin> rp_address ` set ps"
    and "cm_bytes m' = put_patched ps (cm_bytes m) \<or> cm_bytes m' = put_original ps (cm_bytes m)"
  shows "read_instruction m' a = read_instruction m a"
  by (rule read_cong) (use assms put_patched_apart put_original_apart in auto)

section \<open>Acquiring the sites of an entry\<close>

text \<open>The patch a candidate gets when no hook of the payload has its site yet.\<close>

definition fresh_patch :: "ptr \<Rightarrow> ptr \<times> u32 \<Rightarrow> return_patch" where
  "fresh_patch return_entry c =
     \<lparr>rp_address = fst c, rp_original = snd c,
      rp_patched = the (EncodeDirectBranch (fst c) return_entry), rp_consumers = 1\<rparr>"

definition fresh_patches :: "return_patch list \<Rightarrow> ptr \<Rightarrow> (ptr \<times> u32) list \<Rightarrow> return_patch list" where
  "fresh_patches patches return_entry cs =
     map (fresh_patch return_entry) (filter (\<lambda>c. find_patch patches (fst c) = None) cs)"

definition shared_sites :: "return_patch list \<Rightarrow> (ptr \<times> u32) list \<Rightarrow> ptr list" where
  "shared_sites patches cs = filter (\<lambda>a. find_patch patches a \<noteq> None) (map fst cs)"

lemma fresh_addresses: "rp_address ` set (fresh_patches patches re cs) \<subseteq> fst ` set cs"
  by (force simp: fresh_patches_def fresh_patch_def)

lemma fresh_sites_ok: "distinct (map fst cs) \<Longrightarrow> \<forall>c \<in> set cs. fst c AND 3 = 0 \<Longrightarrow> sites_ok (fresh_patches patches re cs)"
proof (induction cs)
  case (Cons c cs)
  then have "fst c \<notin> rp_address ` set (fresh_patches patches re cs)" using fresh_addresses by force
  with Cons show ?case by (auto simp: fresh_patches_def fresh_patch_def)
qed (simp add: fresh_patches_def)

definition writes_well :: "code_memory \<Rightarrow> bool" where
  "writes_well m \<longleftrightarrow> (\<forall>a \<in> set (cm_answers m). a = WriteDone)"

lemma write_done:
  "WriteExecutableInstruction a w m = (True, m') \<Longrightarrow>
     cm_bytes m' = store_instruction a w (cm_bytes m) \<and> cm_answers m' = tl (cm_answers m)"
  by (auto simp: WriteExecutableInstruction_def Let_def split: list.splits if_splits)

lemma acquire_one:
  assumes "acquire_site patches re retained c q = (True, q')"
  shows "aq_sites q' = aq_sites q @ [fst c] \<and>
    aq_existing q' = aq_existing q @ shared_sites patches [c] \<and>
    aq_newly q' = aq_newly q @ fresh_patches patches re [c] \<and>
    cm_bytes (aq_memory q') = put_patched (fresh_patches patches re [c]) (cm_bytes (aq_memory q)) \<and>
    (case find_patch patches (fst c) of
       None \<Rightarrow> read_instruction (aq_memory q) (fst c) = snd c
     | Some e \<Rightarrow> rp_original e = snd c \<and> rp_consumers e \<noteq> 0 \<and>
         read_instruction (aq_memory q) (fst c) = rp_patched e)"
  using assms
  by (cases c)
     (auto simp: acquire_site_def Let_def fresh_patches_def fresh_patch_def shared_sites_def
        dest!: write_done split: option.splits if_splits prod.splits)

lemma acquire_all:
  assumes "acquire_sites patches re retained cs q = (True, q')"
    and "distinct (map fst cs)" "\<forall>c \<in> set cs. fst c AND 3 = 0"
  shows "aq_sites q' = aq_sites q @ map fst cs \<and>
    aq_existing q' = aq_existing q @ shared_sites patches cs \<and>
    aq_newly q' = aq_newly q @ fresh_patches patches re cs \<and>
    cm_bytes (aq_memory q') = put_patched (fresh_patches patches re cs) (cm_bytes (aq_memory q)) \<and>
    (\<forall>c \<in> set cs. case find_patch patches (fst c) of
       None \<Rightarrow> read_instruction (aq_memory q) (fst c) = snd c
     | Some e \<Rightarrow> rp_original e = snd c \<and> rp_consumers e \<noteq> 0 \<and>
         read_instruction (aq_memory q) (fst c) = rp_patched e)"
  using assms
proof (induction cs arbitrary: q)
  case Nil
  then show ?case by (simp add: fresh_patches_def shared_sites_def)
next
  case (Cons c cs)
  obtain q1 where one: "acquire_site patches re retained c q = (True, q1)"
    and rest: "acquire_sites patches re retained cs q1 = (True, q')"
    using Cons.prems(1) by (auto split: prod.splits if_splits)
  note r = acquire_one [OF one] and IH = Cons.IH [OF rest]
  have app: "fresh_patches patches re (c # cs) = fresh_patches patches re [c] @ fresh_patches patches re cs"
    "shared_sites patches (c # cs) = shared_sites patches [c] @ shared_sites patches cs"
    by (simp_all add: fresh_patches_def shared_sites_def)
  have same: "read_instruction (aq_memory q1) (fst d) = read_instruction (aq_memory q) (fst d)" if "d \<in> set cs" for d
  proof (rule read_put_apart)
    show "sites_ok (fresh_patches patches re [c])" using Cons.prems by (intro fresh_sites_ok) simp_all
    show "fst d AND 3 = 0" using Cons.prems that by simp
    show "fst d \<notin> rp_address ` set (fresh_patches patches re [c])"
    proof -
      have "fst d \<in> fst ` set cs" using that by (rule imageI)
      moreover have "fst c \<notin> fst ` set cs" using Cons.prems(2) by simp
      ultimately have "fst d \<noteq> fst c" by metis
      then show ?thesis using fresh_addresses [of patches re "[c]"] by auto
    qed
    show "cm_bytes (aq_memory q1) = put_patched (fresh_patches patches re [c]) (cm_bytes (aq_memory q)) \<or>
      cm_bytes (aq_memory q1) = put_original (fresh_patches patches re [c]) (cm_bytes (aq_memory q))"
      using r by blast
  qed
  show ?case using r IH Cons.prems same unfolding app by (auto split: option.splits)
qed

section \<open>Consumers\<close>

definition consumers_up :: "ptr set \<Rightarrow> return_patch \<Rightarrow> return_patch" where
  "consumers_up A p = (if rp_address p \<in> A then p\<lparr>rp_consumers := rp_consumers p + 1\<rparr> else p)"

definition consumers_down :: "ptr set \<Rightarrow> return_patch \<Rightarrow> return_patch" where
  "consumers_down A p = (if rp_address p \<in> A then p\<lparr>rp_consumers := rp_consumers p - 1\<rparr> else p)"

lemma consumers_addresses [simp]:
  "rp_address (consumers_up A p) = rp_address p" "rp_address (consumers_down A p) = rp_address p"
  "rp_original (consumers_up A p) = rp_original p" "rp_original (consumers_down A p) = rp_original p"
  "rp_patched (consumers_up A p) = rp_patched p" "rp_patched (consumers_down A p) = rp_patched p"
  by (simp_all add: consumers_up_def consumers_down_def)

lemma bump_first_map: "distinct (map rp_address ps) \<Longrightarrow> bump_first a ps = map (consumers_up {a}) ps"
proof (induction ps)
  case (Cons p ps)
  have "map (consumers_up {rp_address p}) ps = ps"
  proof (rule map_idI)
    fix x assume "x \<in> set ps"
    then have "rp_address x \<in> rp_address ` set ps" by (rule imageI)
    then have "rp_address x \<noteq> rp_address p" using Cons.prems by auto
    then show "consumers_up {rp_address p} x = x" by (simp add: consumers_up_def)
  qed
  then show ?case using Cons by (cases "rp_address p = a") (simp_all, simp_all add: consumers_up_def)
qed simp

lemma drop_first_map: "distinct (map rp_address ps) \<Longrightarrow> drop_first a ps = map (consumers_down {a}) ps"
proof (induction ps)
  case (Cons p ps)
  have "map (consumers_down {rp_address p}) ps = ps"
  proof (rule map_idI)
    fix x assume "x \<in> set ps"
    then have "rp_address x \<in> rp_address ` set ps" by (rule imageI)
    then have "rp_address x \<noteq> rp_address p" using Cons.prems by auto
    then show "consumers_down {rp_address p} x = x" by (simp add: consumers_down_def)
  qed
  then show ?case using Cons by (cases "rp_address p = a") (simp_all, simp_all add: consumers_down_def)
qed simp

lemma map_consumers_down: "rp_address ` set (map (consumers_down A) ps) = rp_address ` set ps"
  "map rp_address (map (consumers_down A) ps) = map rp_address ps"
  "map rp_address (map (consumers_up A) ps) = map rp_address ps"
  by (auto simp: image_image)

lemma fold_bump_first:
  "distinct (map rp_address ps) \<Longrightarrow> distinct as \<Longrightarrow> fold bump_first as ps = map (consumers_up (set as)) ps"
proof (induction as arbitrary: ps)
  case Nil
  then show ?case by (simp add: consumers_up_def)
next
  case (Cons a as)
  have "map (consumers_up (set as)) (map (consumers_up {a}) ps) = map (consumers_up (set (a # as))) ps"
    using Cons.prems(2) by (auto simp: consumers_up_def)
  then show ?case using Cons by (simp add: bump_first_map map_consumers_down(3) del: map_map)
qed

lemma find_patch_iff:
  "distinct (map rp_address ps) \<Longrightarrow> find_patch ps a = Some p \<longleftrightarrow> p \<in> set ps \<and> rp_address p = a"
  by (induction ps) (auto simp: find_patch_def image_iff)

lemma find_patch_None: "find_patch ps a = None \<longleftrightarrow> a \<notin> rp_address ` set ps"
  by (induction ps) (auto simp: find_patch_def)

lemma drop_consumers_ok:
  assumes "distinct (map rp_address ps)" "distinct as" "\<forall>a \<in> set as. \<exists>p \<in> set ps. rp_address p = a \<and> rp_consumers p \<noteq> 0"
  shows "drop_consumers as ps = (True, map (consumers_down (set as)) ps)"
  using assms
proof (induction as arbitrary: ps)
  case Nil
  then show ?case by (simp add: consumers_down_def)
next
  case (Cons a as)
  obtain p where p: "p \<in> set ps" "rp_address p = a" "rp_consumers p \<noteq> 0" using Cons.prems(3) by auto
  have f: "find_patch ps a = Some p" using p Cons.prems(1) by (simp add: find_patch_iff)
  have m: "map (consumers_down (set as)) (map (consumers_down {a}) ps) = map (consumers_down (set (a # as))) ps"
    using Cons.prems(2) by (auto simp: consumers_down_def)
  have left: "\<exists>q \<in> set (map (consumers_down {a}) ps). rp_address q = b \<and> rp_consumers q \<noteq> 0" if b: "b \<in> set as" for b
  proof -
    obtain q where q: "q \<in> set ps" "rp_address q = b" "rp_consumers q \<noteq> 0" using Cons.prems(3) b by auto
    then have "consumers_down {a} q = q" using Cons.prems(2) b by (auto simp: consumers_down_def)
    then show ?thesis using q by force
  qed
  have d: "distinct (map rp_address (map (consumers_down {a}) ps))" "distinct as"
    using Cons.prems by (simp_all only: map_consumers_down distinct.simps)
  have "drop_consumers (a # as) ps = drop_consumers as (map (consumers_down {a}) ps)"
    using f p(3) Cons.prems(1) by (simp add: drop_first_map)
  also have "\<dots> = (True, map (consumers_down (set as)) (map (consumers_down {a}) ps))"
    using Cons.IH [OF d] left by blast
  finally show ?case unfolding m .
qed

lemma owned_sites_iff:
  assumes "distinct (map rp_address ps)"
  shows "owned_sites m ps as = Some rs \<longleftrightarrow>
    (\<forall>a \<in> set as. \<exists>p \<in> set ps. rp_address p = a \<and> rp_consumers p \<noteq> 0 \<and> read_instruction m a = rp_patched p) \<and>
    rs = filter (\<lambda>p. rp_consumers p = 1) (map (\<lambda>a. the (find_patch ps a)) as)"
proof (induction as arbitrary: rs)
  case (Cons a as)
  show ?case
  proof (cases "find_patch ps a")
    case None
    then have "\<not> (\<exists>p \<in> set ps. rp_address p = a)" by (auto simp: find_patch_None)
    then show ?thesis using None by auto
  next
    case (Some p)
    then have p: "p \<in> set ps" "rp_address p = a" using assms by (simp_all add: find_patch_iff)
    have u: "(\<exists>q \<in> set ps. rp_address q = a \<and> rp_consumers q \<noteq> 0 \<and> read_instruction m a = rp_patched q) \<longleftrightarrow>
        rp_consumers p \<noteq> 0 \<and> read_instruction m a = rp_patched p"
      using p assms by (metis find_patch_iff option.inject)
    show ?thesis
      using Some p Cons.IH u by (auto split: if_splits simp: u)
  qed
qed auto

section \<open>Restoring instructions\<close>

lemma write_well:
  assumes "writes_well m"
  obtains m' where "WriteExecutableInstruction a w m = (True, m')"
    "cm_bytes m' = store_instruction a w (cm_bytes m)" "writes_well m'"
  using assms by (cases "cm_answers m") (auto simp: WriteExecutableInstruction_def writes_well_def Let_def)

lemma restore_sites_succeeds:
  assumes "sites_ok ps" "\<forall>p \<in> set ps. read_instruction m (rp_address p) = rp_patched p" "writes_well m"
  shows "\<exists>m'. restore_sites done ps m = (True, m') \<and> cm_bytes m' = put_original ps (cm_bytes m) \<and> writes_well m'"
  using assms
proof (induction ps arbitrary: m "done")
  case (Cons p ps)
  obtain m1 where w: "WriteExecutableInstruction (rp_address p) (rp_original p) m = (True, m1)"
    and b: "cm_bytes m1 = store_instruction (rp_address p) (rp_original p) (cm_bytes m)" and ok: "writes_well m1"
    using write_well [OF Cons.prems(3)] by metis
  have left: "\<forall>q \<in> set ps. read_instruction m1 (rp_address q) = rp_patched q"
  proof
    fix q assume q: "q \<in> set ps"
    have "read_instruction m1 (rp_address q) = read_instruction m (rp_address q)"
    proof (rule read_stored_apart)
      show "rp_address p \<noteq> rp_address q" using Cons.prems(1) q by force
    qed (use Cons.prems(1) q b in \<open>auto simp: sites_ok_def\<close>)
    then show "read_instruction m1 (rp_address q) = rp_patched q" using Cons.prems(2) q by simp
  qed
  have "sites_ok ps" using Cons.prems(1) by simp
  then obtain m' where "restore_sites (done @ [p]) ps m1 = (True, m')"
    "cm_bytes m' = put_original ps (cm_bytes m1)" "writes_well m'"
    using Cons.IH [OF _ left ok, of "done @ [p]"] by blast
  then show ?case using Cons.prems(2) w b by simp
qed simp

lemma restore_sites_bytes:
  "restore_sites done ps m = (True, m') \<Longrightarrow> cm_bytes m' = put_original ps (cm_bytes m)"
proof (induction ps arbitrary: m "done")
  case (Cons p ps)
  then obtain m1 where "WriteExecutableInstruction (rp_address p) (rp_original p) m = (True, m1)"
    and "restore_sites (done @ [p]) ps m1 = (True, m')"
    by (auto split: if_splits prod.splits)
  then show ?case using Cons.IH [of "done @ [p]" m1] write_done by simp
qed simp

section \<open>What installing and restoring do\<close>

definition entry_body :: "code_payload \<Rightarrow> intercepted_hook \<Rightarrow> u8 list" where
  "entry_body p h = take (unat (ih_code_size h)) (drop (unat (ih_entry h - pl_start p)) (pl_pristine_bytes p))"

definition site_taken :: "return_patch list \<Rightarrow> code_memory \<Rightarrow> ptr \<times> u32 \<Rightarrow> bool" where
  "site_taken patches m c =
     (case find_patch patches (fst c) of
        None \<Rightarrow> read_instruction m (fst c) = snd c
      | Some e \<Rightarrow> rp_original e = snd c \<and> rp_consumers e \<noteq> 0 \<and> read_instruction m (fst c) = rp_patched e)"

lemma install_ok:
  assumes "InstallArm64ReturnInterception stub retained s = (DP_OK, s')"
  shows "\<exists>cs re size' published.
    entry_range_ok (rt_payload s) (rt_hook s) \<and>
    CollectReachableArm64Returns (entry_body (rt_payload s) (rt_hook s)) (ih_entry (rt_hook s)) = Some cs \<and>
    (\<forall>c \<in> set cs. site_taken (pl_return_patches (rt_payload s)) (rt_memory s) c) \<and>
    cm_bytes (rt_memory s') = put_patched (fresh_patches (pl_return_patches (rt_payload s)) re cs) (cm_bytes (rt_memory s)) \<and>
    rt_payload s' = (rt_payload s)\<lparr>pl_return_entry := re, pl_return_entry_size := size',
      pl_return_entry_published := published,
      pl_return_patches := fold bump_first (shared_sites (pl_return_patches (rt_payload s)) cs) (pl_return_patches (rt_payload s))
        @ fresh_patches (pl_return_patches (rt_payload s)) re cs,
      pl_return_interception_consumers := pl_return_interception_consumers (rt_payload s) + 1\<rparr> \<and>
    rt_hook s' = (rt_hook s)\<lparr>ih_return_consumer := True, ih_return_sites := map fst cs\<rparr>"
proof -
  let ?h = "rt_hook s" and ?p = "rt_payload s"
  define q where "q = (if pl_return_entry ?p = 0
      then ?p\<lparr>pl_return_entry := fst stub, pl_return_entry_size := snd stub\<rparr> else ?p)"
  have qf: "pl_return_patches q = pl_return_patches ?p" "pl_pristine_bytes q = pl_pristine_bytes ?p"
    "pl_start q = pl_start ?p" by (simp_all add: q_def)
  have range: "entry_range_ok ?p ?h" and c0: "\<not> (pl_return_entry ?p = 0 \<and> fst stub = 0)"
    and c1: "\<not> (ih_entry ?h = 0 \<or> ih_code_size ?h < 4)"
    using assms by (auto simp: InstallArm64ReturnInterception_def Let_def split: if_splits)
  obtain cs where cs: "CollectReachableArm64Returns (entry_body ?p ?h) (ih_entry ?h) = Some cs"
    using assms range c0 c1
    by (cases "CollectReachableArm64Returns (entry_body ?p ?h) (ih_entry ?h)")
       (auto simp: InstallArm64ReturnInterception_def Let_def entry_body_def q_def [symmetric] qf)
  define q0 where "q0 = \<lparr>aq_memory = rt_memory s, aq_published = pl_return_entry_published q,
      aq_newly = [], aq_existing = [], aq_sites = []\<rparr>"
  obtain ok q1 where acq: "acquire_sites (pl_return_patches ?p) (pl_return_entry q) retained cs q0 = (ok, q1)"
    by fastforce
  have inst: "InstallArm64ReturnInterception stub retained s =
     (let p = q\<lparr>pl_return_entry_published := aq_published q1\<rparr>; s = s\<lparr>rt_payload := p, rt_memory := aq_memory q1\<rparr>
      in if \<not> ok then rollback_newly_installed (aq_newly q1) s
         else (DP_OK, s\<lparr>rt_payload := p\<lparr>pl_return_patches := fold bump_first (aq_existing q1) (pl_return_patches ?p) @ aq_newly q1,
             pl_return_interception_consumers := pl_return_interception_consumers q + 1\<rparr>,
           rt_hook := ?h\<lparr>ih_return_consumer := True, ih_return_sites := aq_sites q1\<rparr>\<rparr>))"
    using range c0 c1 cs acq
    unfolding InstallArm64ReturnInterception_def Let_def q_def [symmetric] q0_def entry_body_def
    by (cases "pl_return_entry (rt_payload s) = 0") (simp_all add: qf)
  then have ok: "ok" using assms by (cases ok) (auto simp: Let_def rollback_newly_installed_def split: prod.splits)
  have d: "distinct (map fst cs)" "\<forall>c \<in> set cs. fst c AND 3 = 0"
    using collected_sites [OF cs] by auto
  have all: "acquire_sites (pl_return_patches ?p) (pl_return_entry q) retained cs q0 = (True, q1)"
    using acq ok by simp
  have s': "s' = s\<lparr>rt_memory := aq_memory q1,
      rt_payload := q\<lparr>pl_return_entry_published := aq_published q1,
        pl_return_patches := fold bump_first (aq_existing q1) (pl_return_patches ?p) @ aq_newly q1,
        pl_return_interception_consumers := pl_return_interception_consumers q + 1\<rparr>,
      rt_hook := ?h\<lparr>ih_return_consumer := True, ih_return_sites := aq_sites q1\<rparr>\<rparr>"
    using assms inst ok by (simp add: Let_def)
  have q0: "aq_memory q0 = rt_memory s" "aq_newly q0 = []" "aq_existing q0 = []" "aq_sites q0 = []"
    by (simp_all add: q0_def)
  have pl: "q\<lparr>pl_return_entry_published := b, pl_return_patches := ps, pl_return_interception_consumers := n\<rparr> =
      ?p\<lparr>pl_return_entry := pl_return_entry q, pl_return_entry_size := pl_return_entry_size q,
         pl_return_entry_published := b, pl_return_patches := ps, pl_return_interception_consumers := n\<rparr>" for b ps n
    by (simp add: q_def)
  have n: "pl_return_interception_consumers q = pl_return_interception_consumers ?p" by (simp add: q_def)
  show ?thesis
    using range cs acquire_all [OF all d] unfolding s' site_taken_def q0 pl n
    by (intro exI [of _ cs] exI [of _ "pl_return_entry q"] exI [of _ "pl_return_entry_size q"]
        exI [of _ "aq_published q1"]) simp
qed

lemma restore_unfold:
  assumes "ih_return_consumer (rt_hook s)" "pl_return_interception_consumers (rt_payload s) \<noteq> 0"
    "ih_return_sites (rt_hook s) \<noteq> []"
    "owned_sites (rt_memory s) (pl_return_patches (rt_payload s)) (ih_return_sites (rt_hook s)) = Some rs"
    "restore_sites [] rs (rt_memory s) = (True, m)"
    "drop_consumers (ih_return_sites (rt_hook s)) (pl_return_patches (rt_payload s)) = (True, ps)"
  shows "RestoreArm64ReturnInterception s =
    (let p = (rt_payload s)\<lparr>pl_return_patches := filter (\<lambda>r. rp_consumers r \<noteq> 0) ps,
               pl_return_interception_consumers := pl_return_interception_consumers (rt_payload s) - 1\<rparr>;
         s = s\<lparr>rt_memory := m, rt_payload := p,
               rt_hook := (rt_hook s)\<lparr>ih_return_consumer := False, ih_return_sites := []\<rparr>\<rparr>
     in if pl_return_interception_consumers p = 0
        then if pl_return_patches p \<noteq> [] then (False, s)
             else (True, s\<lparr>rt_payload := DestroyUnpublishedReturnEntry p\<rparr>)
        else (True, s))"
  using assms by (simp add: RestoreArm64ReturnInterception_def Let_def)

lemma destroy_fields [simp]:
  "pl_return_patches (DestroyUnpublishedReturnEntry p) = pl_return_patches p"
  "pl_return_interception_consumers (DestroyUnpublishedReturnEntry p) = pl_return_interception_consumers p"
  "pl_start (DestroyUnpublishedReturnEntry p) = pl_start p"
  "pl_pristine_bytes (DestroyUnpublishedReturnEntry p) = pl_pristine_bytes p"
  by (simp_all add: DestroyUnpublishedReturnEntry_def)

lemma restored_sites_ok:
  assumes "sites_ok ps" "distinct as" "\<forall>a \<in> set as. \<exists>p \<in> set ps. rp_address p = a"
  shows "sites_ok (filter P (map (\<lambda>a. the (find_patch ps a)) as))"
    "rp_address ` set (filter P (map (\<lambda>a. the (find_patch ps a)) as)) \<subseteq> set as"
    "set (filter P (map (\<lambda>a. the (find_patch ps a)) as)) = {p \<in> set ps. rp_address p \<in> set as \<and> P p}"
proof -
  have d: "distinct (map rp_address ps)" using assms(1) by (simp add: sites_ok_def)
  have f: "\<exists>p. find_patch ps a = Some p \<and> p \<in> set ps \<and> rp_address p = a" if "a \<in> set as" for a
    using assms(3) that d by (metis find_patch_iff)
  show "sites_ok (filter P (map (\<lambda>a. the (find_patch ps a)) as))"
    using assms(2) f
  proof (induction as)
    case (Cons a as)
    obtain p where p: "find_patch ps a = Some p" "p \<in> set ps" "rp_address p = a" using Cons.prems(2) by auto
    have "rp_address (the (find_patch ps b)) = b" if "b \<in> set as" for b using Cons.prems(2) that by fastforce
    then have "a \<notin> rp_address ` set (filter P (map (\<lambda>a. the (find_patch ps a)) as))"
      using Cons.prems(1) by force
    then show ?case using Cons p assms(1) by (auto simp: sites_ok_def)
  qed simp
  show "rp_address ` set (filter P (map (\<lambda>a. the (find_patch ps a)) as)) \<subseteq> set as"
    using f by fastforce
  show "set (filter P (map (\<lambda>a. the (find_patch ps a)) as)) = {p \<in> set ps. rp_address p \<in> set as \<and> P p}"
  proof (intro set_eqI iffI)
    fix p assume "p \<in> set (filter P (map (\<lambda>a. the (find_patch ps a)) as))"
    then obtain a where a: "a \<in> set as" "p = the (find_patch ps a)" "P p" by auto
    then show "p \<in> {p \<in> set ps. rp_address p \<in> set as \<and> P p}" using f [OF a(1)] by auto
  next
    fix p assume p: "p \<in> {p \<in> set ps. rp_address p \<in> set as \<and> P p}"
    then have "find_patch ps (rp_address p) = Some p" using d by (simp add: find_patch_iff)
    then have "p = the (find_patch ps (rp_address p))" by simp
    then show "p \<in> set (filter P (map (\<lambda>a. the (find_patch ps a)) as))" using p by auto
  qed
qed

definition last_sites :: "return_patch list \<Rightarrow> ptr list \<Rightarrow> return_patch list" where
  "last_sites ps as = filter (\<lambda>p. rp_consumers p = 1) (map (\<lambda>a. the (find_patch ps a)) as)"

lemma restore_succeeds:
  assumes consumer: "ih_return_consumer (rt_hook s)" "ih_return_sites (rt_hook s) \<noteq> []"
    and ok: "sites_ok (pl_return_patches (rt_payload s))" and d: "distinct (ih_return_sites (rt_hook s))"
    and own: "\<forall>a \<in> set (ih_return_sites (rt_hook s)). \<exists>p \<in> set (pl_return_patches (rt_payload s)).
      rp_address p = a \<and> rp_consumers p \<noteq> 0 \<and> read_instruction (rt_memory s) a = rp_patched p"
    and well: "writes_well (rt_memory s)" and count: "pl_return_interception_consumers (rt_payload s) \<noteq> 0"
    and last_one: "pl_return_interception_consumers (rt_payload s) = 1 \<Longrightarrow>
      \<forall>p \<in> set (pl_return_patches (rt_payload s)). rp_address p \<in> set (ih_return_sites (rt_hook s)) \<and> rp_consumers p = 1"
  shows "\<exists>s'. RestoreArm64ReturnInterception s = (True, s') \<and>
    cm_bytes (rt_memory s') = put_original (last_sites (pl_return_patches (rt_payload s)) (ih_return_sites (rt_hook s)))
      (cm_bytes (rt_memory s)) \<and>
    pl_return_patches (rt_payload s') = filter (\<lambda>r. rp_consumers r \<noteq> 0)
      (map (consumers_down (set (ih_return_sites (rt_hook s)))) (pl_return_patches (rt_payload s))) \<and>
    pl_return_interception_consumers (rt_payload s') = pl_return_interception_consumers (rt_payload s) - 1 \<and>
    rt_hook s' = (rt_hook s)\<lparr>ih_return_consumer := False, ih_return_sites := []\<rparr>"
proof -
  let ?ps = "pl_return_patches (rt_payload s)" and ?as = "ih_return_sites (rt_hook s)"
  have dp: "distinct (map rp_address ?ps)" using ok by (simp add: sites_ok_def)
  have o: "owned_sites (rt_memory s) ?ps ?as = Some (last_sites ?ps ?as)"
    unfolding owned_sites_iff [OF dp] last_sites_def using own by blast
  have ex: "\<forall>a \<in> set ?as. \<exists>p \<in> set ?ps. rp_address p = a" using own by blast
  note r = restored_sites_ok [OF ok d ex, of "\<lambda>p. rp_consumers p = 1", folded last_sites_def]
  have "\<forall>p \<in> set (last_sites ?ps ?as). read_instruction (rt_memory s) (rp_address p) = rp_patched p"
  proof
    fix p assume "p \<in> set (last_sites ?ps ?as)"
    then have "p \<in> set ?ps" "rp_address p \<in> set ?as" using r(3) by auto
    then show "read_instruction (rt_memory s) (rp_address p) = rp_patched p"
      using own dp by (metis find_patch_iff option.inject)
  qed
  then obtain m where m: "restore_sites [] (last_sites ?ps ?as) (rt_memory s) = (True, m)"
    "cm_bytes m = put_original (last_sites ?ps ?as) (cm_bytes (rt_memory s))"
    using restore_sites_succeeds [OF r(1) _ well, of "[]"] by blast
  have dc: "drop_consumers ?as ?ps = (True, map (consumers_down (set ?as)) ?ps)"
    using own by (intro drop_consumers_ok dp d) blast
  note u = restore_unfold [OF consumer(1) count consumer(2) o m(1) dc]
  have gone: "filter (\<lambda>r. rp_consumers r \<noteq> 0) (map (consumers_down (set ?as)) ?ps) = []"
    if "pl_return_interception_consumers (rt_payload s) - 1 = 0"
  proof -
    have "pl_return_interception_consumers (rt_payload s) = 1" using that by simp
    then show ?thesis using last_one by (auto simp: filter_empty_conv consumers_down_def)
  qed
  show ?thesis unfolding u using gone m(2) by (simp add: Let_def)
qed

section \<open>Restoring undoes installing\<close>

text \<open>The bookkeeping of a payload between two operations, with room for one more consumer.\<close>

definition patches_counted :: "code_payload \<Rightarrow> bool" where
  "patches_counted p \<longleftrightarrow> sites_ok (pl_return_patches p) \<and>
     (\<forall>r \<in> set (pl_return_patches p). rp_consumers r \<noteq> 0 \<and> rp_consumers r \<noteq> UINT32_MAX) \<and>
     pl_return_interception_consumers p \<noteq> UINT32_MAX \<and>
     (pl_return_interception_consumers p = 0 \<longrightarrow> pl_return_patches p = [])"

lemma one_more: "c \<noteq> UINT32_MAX \<Longrightarrow> c + 1 \<noteq> 0" for c :: u32
proof
  assume "c \<noteq> UINT32_MAX" "c + 1 = 0"
  then have "c = - 1" by (simp add: eq_neg_iff_add_eq_0)
  with \<open>c \<noteq> UINT32_MAX\<close> show False by (simp add: UINT32_MAX_def)
qed

lemma set_shared_sites: "set (shared_sites ps cs) = fst ` set cs \<inter> rp_address ` set ps"
proof -
  have "find_patch ps a \<noteq> None \<longleftrightarrow> a \<in> rp_address ` set ps" for a
    by (metis find_patch_None)
  then show ?thesis by (auto simp: shared_sites_def)
qed

lemma distinct_shared_sites: "distinct (map fst cs) \<Longrightarrow> distinct (shared_sites ps cs)"
  by (simp add: shared_sites_def)

lemma set_fresh: "set (fresh_patches ps re cs) = fresh_patch re ` {c \<in> set cs. fst c \<notin> rp_address ` set ps}"
  by (auto simp: fresh_patches_def find_patch_None)

lemma fresh_fields [simp]:
  "rp_address (fresh_patch re c) = fst c" "rp_original (fresh_patch re c) = snd c" "rp_consumers (fresh_patch re c) = 1"
  by (simp_all add: fresh_patch_def)

text \<open>The patches and sites of a payload after an entry with candidates \<open>cs\<close> has been taken.\<close>

lemma installed_sites:
  assumes ps: "sites_ok ps" and d: "distinct (map fst cs)" and al: "\<forall>c \<in> set cs. fst c AND 3 = 0"
  shows "fold bump_first (shared_sites ps cs) ps = map (consumers_up (set (shared_sites ps cs))) ps"
    and "sites_ok (fold bump_first (shared_sites ps cs) ps @ fresh_patches ps re cs)"
proof -
  show b: "fold bump_first (shared_sites ps cs) ps = map (consumers_up (set (shared_sites ps cs))) ps"
    using ps d by (intro fold_bump_first distinct_shared_sites) (simp_all add: sites_ok_def)
  have "sites_ok (map (consumers_up A) ps)" for A
    using ps by (auto simp: sites_ok_def comp_def)
  moreover have "rp_address ` set ps \<inter> rp_address ` set (fresh_patches ps re cs) = {}"
    by (auto simp: set_fresh)
  moreover have "rp_address ` set (map (consumers_up A) ps) = rp_address ` set ps" for A
    by (simp add: image_image)
  ultimately show "sites_ok (fold bump_first (shared_sites ps cs) ps @ fresh_patches ps re cs)"
    unfolding b using fresh_sites_ok [OF d al] by simp
qed

lemma taken_sites_owned:
  assumes ps: "sites_ok ps" and few: "\<forall>r \<in> set ps. rp_consumers r \<noteq> 0 \<and> rp_consumers r \<noteq> UINT32_MAX"
    and d: "distinct (map fst cs)" and al: "\<forall>c \<in> set cs. fst c AND 3 = 0"
    and taken: "\<forall>c \<in> set cs. site_taken ps m c"
    and bytes: "cm_bytes m' = put_patched (fresh_patches ps re cs) (cm_bytes m)"
    and a: "a \<in> fst ` set cs"
  shows "\<exists>p \<in> set (map (consumers_up (set (shared_sites ps cs))) ps @ fresh_patches ps re cs).
    rp_address p = a \<and> rp_consumers p \<noteq> 0 \<and> read_instruction m' a = rp_patched p"
proof -
  obtain c where c: "c \<in> set cs" "fst c = a" using a by auto
  note fo = fresh_sites_ok [OF d al, of ps re]
  show ?thesis
  proof (cases "a \<in> rp_address ` set ps")
    case True
    then obtain p where p: "p \<in> set ps" "rp_address p = a" by auto
    then have f: "find_patch ps (fst c) = Some p" using ps c by (simp add: find_patch_iff sites_ok_def)
    have "read_instruction m' a = read_instruction m a"
      using fo al c True bytes by (intro read_put_apart [of "fresh_patches ps re cs"]) (auto simp: set_fresh)
    then have r: "read_instruction m' a = rp_patched p" using taken c f by (auto simp: site_taken_def)
    have "a \<in> set (shared_sites ps cs)" using a True by (simp add: set_shared_sites)
    then have "rp_consumers (consumers_up (set (shared_sites ps cs)) p) \<noteq> 0"
      using p few one_more by (simp add: consumers_up_def)
    then show ?thesis using p r
      by (intro bexI [of _ "consumers_up (set (shared_sites ps cs)) p"]) auto
  next
    case False
    then have "fresh_patch re c \<in> set (fresh_patches ps re cs)" using c by (auto simp: set_fresh)
    moreover from this have "read_instruction m' a = rp_patched (fresh_patch re c)"
      using read_put_patched [OF fo _ bytes, of "fresh_patch re c"] c by simp
    ultimately show ?thesis using c by (intro bexI [of _ "fresh_patch re c"]) auto
  qed
qed

lemma taken_last_sites:
  fixes re :: ptr
  assumes ps: "sites_ok ps" and few: "\<forall>r \<in> set ps. rp_consumers r \<noteq> 0 \<and> rp_consumers r \<noteq> UINT32_MAX"
    and d: "distinct (map fst cs)" and al: "\<forall>c \<in> set cs. fst c AND 3 = 0"
  defines "qs \<equiv> map (consumers_up (set (shared_sites ps cs))) ps @ fresh_patches ps re cs"
  shows "set (last_sites qs (map fst cs)) = set (fresh_patches ps re cs)" "sites_ok (last_sites qs (map fst cs))"
    and "filter (\<lambda>r. rp_consumers r \<noteq> 0) (map (consumers_down (fst ` set cs)) qs) = ps"
proof -
  have qs: "sites_ok qs" using installed_sites(1) [OF ps d al] installed_sites(2) [OF ps d al, of re] by (simp add: qs_def)
  have "rp_address ` set qs = rp_address ` set ps \<union> fst ` {c \<in> set cs. fst c \<notin> rp_address ` set ps}"
    by (simp add: qs_def image_Un image_image set_fresh)
  then have "set (map fst cs) \<subseteq> rp_address ` set qs" by auto
  then have "\<forall>a \<in> set (map fst cs). \<exists>p \<in> set qs. rp_address p = a" by blast
  note r = restored_sites_ok [OF qs d this, of "\<lambda>p. rp_consumers p = 1", folded last_sites_def]
  show "sites_ok (last_sites qs (map fst cs))" by (rule r)
  have not_up: "rp_consumers (consumers_up (set (shared_sites ps cs)) p) \<noteq> 1"
    if "p \<in> set ps" "rp_address p \<in> fst ` set cs" for p
    using that few by (auto simp: consumers_up_def set_shared_sites)
  show "set (last_sites qs (map fst cs)) = set (fresh_patches ps re cs)"
    unfolding r(3)
  proof (intro set_eqI iffI)
    fix p assume "p \<in> {p \<in> set qs. rp_address p \<in> set (map fst cs) \<and> rp_consumers p = 1}"
    then show "p \<in> set (fresh_patches ps re cs)" using not_up by (auto simp: qs_def) (metis image_eqI fst_conv)
  next
    fix p assume "p \<in> set (fresh_patches ps re cs)"
    then show "p \<in> {p \<in> set qs. rp_address p \<in> set (map fst cs) \<and> rp_consumers p = 1}"
      by (auto simp: qs_def set_fresh) force
  qed
  have "map (consumers_down (fst ` set cs)) (map (consumers_up (set (shared_sites ps cs))) ps) = ps"
    by (auto simp: consumers_down_def consumers_up_def set_shared_sites intro!: map_idI)
  moreover have "filter (\<lambda>r. rp_consumers r \<noteq> 0) (map (consumers_down (fst ` set cs)) (fresh_patches ps re cs)) = []"
    by (auto simp: filter_empty_conv set_fresh consumers_down_def) (metis fst_conv image_eqI)
  moreover have "filter (\<lambda>r. rp_consumers r \<noteq> 0) ps = ps" using few by (simp add: filter_id_conv)
  ultimately show "filter (\<lambda>r. rp_consumers r \<noteq> 0) (map (consumers_down (fst ` set cs)) qs) = ps"
    by (simp add: qs_def del: map_map)
qed

lemma put_back:
  assumes fo: "sites_ok fs" and lo: "sites_ok ls" and same: "set ls = set fs"
    and orig: "\<forall>p \<in> set fs. read_instruction m (rp_address p) = rp_original p"
  shows "put_original ls (put_patched fs (cm_bytes m)) = cm_bytes m"
proof
  fix b
  show "put_original ls (put_patched fs (cm_bytes m)) b = cm_bytes m b"
  proof (cases "\<exists>p \<in> set fs. \<exists>i < 4. b = rp_address p + of_nat i")
    case True
    then obtain p i where p: "p \<in> set fs" "i < 4" "b = rp_address p + of_nat i" by blast
    then have "put_original ls (put_patched fs (cm_bytes m)) b = word_bytes (rp_original p) ! i"
      using put_original_at [OF lo] same by simp
    also have "\<dots> = cm_bytes m b" using orig p word_bytes_read [of i m "rp_address p"] by simp
    finally show ?thesis .
  next
    case False
    then show ?thesis using same put_elsewhere [of fs b] put_elsewhere [of ls b] by simp
  qed
qed

text \<open>
  C19: taking the returns of an entry is undone by giving them up. When installing succeeded on a
  payload whose bookkeeping is sound, then restoring at once succeeds provided the kernel lets the
  code be written, and leaves every byte of code memory as it was before, the patches of the
  payload with the consumers they had (sites shared with other hooks stay patched and counted),
  and the hook without any site.
\<close>

theorem restore_undoes_install:
  assumes inst: "InstallArm64ReturnInterception stub retained s = (DP_OK, s1)"
    and counted: "patches_counted (rt_payload s)" and well: "writes_well (rt_memory s1)"
  shows "\<exists>s2. RestoreArm64ReturnInterception s1 = (True, s2) \<and>
    cm_bytes (rt_memory s2) = cm_bytes (rt_memory s) \<and>
    pl_return_patches (rt_payload s2) = pl_return_patches (rt_payload s) \<and>
    pl_return_interception_consumers (rt_payload s2) = pl_return_interception_consumers (rt_payload s) \<and>
    \<not> ih_return_consumer (rt_hook s2) \<and> ih_return_sites (rt_hook s2) = []"
proof -
  let ?ps = "pl_return_patches (rt_payload s)" and ?n = "pl_return_interception_consumers (rt_payload s)"
  obtain cs re size' pub where cs: "CollectReachableArm64Returns (entry_body (rt_payload s) (rt_hook s)) (ih_entry (rt_hook s)) = Some cs"
    and taken: "\<forall>c \<in> set cs. site_taken ?ps (rt_memory s) c"
    and bytes: "cm_bytes (rt_memory s1) = put_patched (fresh_patches ?ps re cs) (cm_bytes (rt_memory s))"
    and pl: "rt_payload s1 = (rt_payload s)\<lparr>pl_return_entry := re, pl_return_entry_size := size',
      pl_return_entry_published := pub,
      pl_return_patches := fold bump_first (shared_sites ?ps cs) ?ps @ fresh_patches ?ps re cs,
      pl_return_interception_consumers := ?n + 1\<rparr>"
    and hook: "rt_hook s1 = (rt_hook s)\<lparr>ih_return_consumer := True, ih_return_sites := map fst cs\<rparr>"
    using install_ok [OF inst] by blast
  have d: "distinct (map fst cs)" and al: "\<forall>c \<in> set cs. fst c AND 3 = 0" and ne: "cs \<noteq> []"
    using collected_sites [OF cs] by auto
  have ps: "sites_ok ?ps" and few: "\<forall>r \<in> set ?ps. rp_consumers r \<noteq> 0 \<and> rp_consumers r \<noteq> UINT32_MAX"
    and n: "?n \<noteq> UINT32_MAX" and z: "?n = 0 \<longrightarrow> ?ps = []"
    using counted by (auto simp: patches_counted_def)
  define qs where "qs = map (consumers_up (set (shared_sites ?ps cs))) ?ps @ fresh_patches ?ps re cs"
  have qs: "pl_return_patches (rt_payload s1) = qs" "sites_ok qs"
    using installed_sites(1) [OF ps d al] installed_sites(2) [OF ps d al, of re] by (simp_all add: pl qs_def)
  have s1: "ih_return_consumer (rt_hook s1)" "ih_return_sites (rt_hook s1) = map fst cs"
    "pl_return_interception_consumers (rt_payload s1) = ?n + 1"
    by (simp_all add: hook pl)
  have own: "\<forall>a \<in> set (map fst cs). \<exists>p \<in> set qs. rp_address p = a \<and> rp_consumers p \<noteq> 0 \<and>
      read_instruction (rt_memory s1) a = rp_patched p"
    unfolding qs_def using taken_sites_owned [OF ps few d al taken bytes] by simp
  have last_one: "\<forall>p \<in> set qs. rp_address p \<in> set (map fst cs) \<and> rp_consumers p = 1" if "?n + 1 = 1"
    using z that by (auto simp: qs_def set_fresh)
  note last = taken_last_sites [OF ps few d al, of re, folded qs_def]
  have "\<exists>s2. RestoreArm64ReturnInterception s1 = (True, s2) \<and>
    cm_bytes (rt_memory s2) = put_original (last_sites qs (map fst cs)) (cm_bytes (rt_memory s1)) \<and>
    pl_return_patches (rt_payload s2) = filter (\<lambda>r. rp_consumers r \<noteq> 0) (map (consumers_down (set (map fst cs))) qs) \<and>
    pl_return_interception_consumers (rt_payload s2) = (?n + 1) - 1 \<and>
    rt_hook s2 = (rt_hook s1)\<lparr>ih_return_consumer := False, ih_return_sites := []\<rparr>"
    using restore_succeeds [of s1, unfolded qs(1) s1(2,3)] s1(1) ne qs(2) d own well one_more [OF n] last_one by auto
  moreover have "put_original (last_sites qs (map fst cs)) (cm_bytes (rt_memory s1)) = cm_bytes (rt_memory s)"
    unfolding bytes
  proof (rule put_back [OF fresh_sites_ok [OF d al] last(2,1)])
    show "\<forall>p \<in> set (fresh_patches ?ps re cs). read_instruction (rt_memory s) (rp_address p) = rp_original p"
      using taken by (force simp: set_fresh site_taken_def find_patch_None [symmetric])
  qed
  ultimately show ?thesis using last(3) by auto
qed

section \<open>A concrete entry\<close>

definition sample_payload :: code_payload where
  "sample_payload =
     \<lparr>pl_id = 0x1000, pl_image_id = 1, pl_owner = \<lparr>oi_runtime_generation = 1, oi_engine_epoch = 1,
        oi_isolate_group_epoch = 1, oi_image_id = 1, oi_image_epoch = 1\<rparr>,
      pl_start = 0x1000, pl_instructions_length = 12, pl_code_object = 0, pl_exact_identity = True,
      pl_pristine_bytes = sample_body, pl_return_entry = 0, pl_return_entry_size = 0,
      pl_return_entry_published = False, pl_return_patches = [], pl_return_interception_consumers = 0\<rparr>"

definition sample_interception :: "write_answer list \<Rightarrow> interception" where
  "sample_interception answers =
     \<lparr>rt_memory = \<lparr>cm_bytes = (\<lambda>a. if a - 0x1000 < 12 then sample_body ! unat (a - 0x1000) else 0),
                   cm_answers = answers\<rparr>,
      rt_payload = sample_payload,
      rt_hook = \<lparr>ih_entry = 0x1000, ih_code_size = 12, ih_return_consumer = False, ih_return_sites = []\<rparr>\<rparr>"

lemma sample_fields:
  "ih_return_sites (rt_hook (sample_interception answers)) = []"
  "cm_answers (rt_memory (sample_interception answers)) = answers"
  "pl_return_patches sample_payload = []" "pl_return_interception_consumers sample_payload = 0"
  by (simp_all add: sample_interception_def sample_payload_def)

lemma sample_ret: "read_instruction (rt_memory (sample_interception answers)) 0x1008 = 0xd65f03c0"
  by (simp add: read_instruction_def sample_interception_def upt_four sample_body_def)

lemma sample_branch: "EncodeDirectBranch 0x1008 0x2000 = Some 0x140003fe"
  by code_simp

lemma sample_range: "entry_range_ok sample_payload (rt_hook (sample_interception answers))"
  by (simp add: entry_range_ok_def sample_payload_def sample_interception_def payload_end_def
      payload_contains_def UINT64_MAX_def sample_body_def)

lemma sample_entry_body: "entry_body sample_payload (rt_hook (sample_interception answers)) = sample_body"
  by (simp add: entry_body_def sample_payload_def sample_interception_def sample_body_def)

lemma sample_acquire:
  "acquire_site [] 0x2000 True (0x1008, 0xd65f03c0) q =
     (if read_instruction (aq_memory q) 0x1008 \<noteq> 0xd65f03c0 then (False, q)
      else (case WriteExecutableInstruction 0x1008 0x140003fe (aq_memory q) of
        (written, m) \<Rightarrow>
          if \<not> written then (False, q\<lparr>aq_published := True, aq_memory := m\<rparr>)
          else (True, q\<lparr>aq_published := True, aq_memory := m,
            aq_newly := aq_newly q @ [\<lparr>rp_address = 0x1008, rp_original = 0xd65f03c0,
              rp_patched = 0x140003fe, rp_consumers = 1\<rparr>],
            aq_sites := aq_sites q @ [0x1008]\<rparr>)))"
  by (simp add: acquire_site_def find_patch_def sample_branch Let_def split: prod.split)

lemma sample_install_unfold:
  "InstallArm64ReturnInterception (0x2000, 0) True (sample_interception answers) =
    (case acquire_site [] 0x2000 True (0x1008, 0xd65f03c0)
        \<lparr>aq_memory = rt_memory (sample_interception answers), aq_published = False, aq_newly = [],
         aq_existing = [], aq_sites = []\<rparr> of
       (acquired, q) \<Rightarrow>
         let p = sample_payload\<lparr>pl_return_entry := 0x2000, pl_return_entry_size := 0,
                   pl_return_entry_published := aq_published q\<rparr>;
             s = (sample_interception answers)\<lparr>rt_payload := p, rt_memory := aq_memory q\<rparr>
         in if \<not> acquired then rollback_newly_installed (aq_newly q) s
            else (DP_OK, s\<lparr>rt_payload := p\<lparr>pl_return_patches := fold bump_first (aq_existing q) [] @ aq_newly q,
                pl_return_interception_consumers := 1\<rparr>,
              rt_hook := (rt_hook (sample_interception answers))\<lparr>ih_return_consumer := True,
                ih_return_sites := aq_sites q\<rparr>\<rparr>))"
proof -
  have f: "rt_payload (sample_interception answers) = sample_payload"
    "ih_entry (rt_hook (sample_interception answers)) = 0x1000"
    "ih_code_size (rt_hook (sample_interception answers)) = 12"
    by (simp_all add: sample_interception_def)
  have b: "take 12 (drop (unat (0x1000 - pl_start sample_payload)) (pl_pristine_bytes sample_payload)) = sample_body"
    by (simp add: sample_payload_def sample_body_def)
  have p: "pl_return_entry sample_payload = 0" "pl_return_entry_published sample_payload = False"
    "pl_return_patches sample_payload = []" "pl_return_interception_consumers sample_payload = 0"
    "sample_payload\<lparr>pl_return_entry_size := 0\<rparr> = sample_payload"
    by (simp_all add: sample_payload_def)
  show ?thesis
    unfolding InstallArm64ReturnInterception_def Let_def f
    by (simp add: sample_range p b sample_collected split: prod.split)
qed

text \<open>
  When the second \<open>mprotect\<close> fails after the branch has been stored, the site is in no list: the
  rollback does not look at it, no patch records it, and the body stays diverted.
\<close>

lemma stuck_write_leaves_branch:
  "\<exists>s'. InstallArm64ReturnInterception (0x2000, 0) True (sample_interception [WriteStuck]) = (DP_HOOK_FAILED, s') \<and>
    pl_return_patches (rt_payload s') = [] \<and> ih_return_sites (rt_hook s') = [] \<and>
    read_instruction (rt_memory s') 0x1008 = 0x140003fe"
proof -
  let ?m = "rt_memory (sample_interception [WriteStuck])"
  have w: "WriteExecutableInstruction 0x1008 0x140003fe ?m =
      (False, ?m\<lparr>cm_answers := [], cm_bytes := store_instruction 0x1008 0x140003fe (cm_bytes ?m)\<rparr>)"
    by (simp add: WriteExecutableInstruction_def sample_interception_def)
  have r: "read_instruction (?m\<lparr>cm_answers := [], cm_bytes := store_instruction 0x1008 0x140003fe (cm_bytes ?m)\<rparr>) 0x1008 = 0x140003fe"
    by (rule read_stored) simp
  show ?thesis
    using r by (simp add: sample_install_unfold sample_acquire sample_ret w Let_def rollback_newly_installed_def
        destroy_if_unused_def sample_fields)
qed

lemma sample_installed:
  "\<exists>s'. InstallArm64ReturnInterception (0x2000, 0) True (sample_interception []) = (DP_OK, s') \<and>
    writes_well (rt_memory s') \<and> read_instruction (rt_memory s') 0x1008 = 0x140003fe"
proof -
  let ?m = "rt_memory (sample_interception [])"
  have w: "WriteExecutableInstruction 0x1008 0x140003fe ?m =
      (True, ?m\<lparr>cm_bytes := store_instruction 0x1008 0x140003fe (cm_bytes ?m)\<rparr>)"
    by (simp add: WriteExecutableInstruction_def sample_interception_def)
  have r: "read_instruction (?m\<lparr>cm_bytes := store_instruction 0x1008 0x140003fe (cm_bytes ?m)\<rparr>) 0x1008 = 0x140003fe"
    by (rule read_stored) simp
  show ?thesis
    using r by (simp add: sample_install_unfold sample_acquire sample_ret w Let_def writes_well_def sample_fields)
qed

theorem restore_undoes_install_witness:
  "\<exists>s1 s2. InstallArm64ReturnInterception (0x2000, 0) True (sample_interception []) = (DP_OK, s1) \<and>
    read_instruction (rt_memory s1) 0x1008 = 0x140003fe \<and>
    RestoreArm64ReturnInterception s1 = (True, s2) \<and>
    cm_bytes (rt_memory s2) = cm_bytes (rt_memory (sample_interception []))"
proof -
  obtain s1 where s1: "InstallArm64ReturnInterception (0x2000, 0) True (sample_interception []) = (DP_OK, s1)"
    "writes_well (rt_memory s1)" "read_instruction (rt_memory s1) 0x1008 = 0x140003fe"
    using sample_installed by blast
  have "patches_counted (rt_payload (sample_interception []))"
    by (simp add: patches_counted_def sample_interception_def sample_payload_def UINT32_MAX_def)
  then show ?thesis using restore_undoes_install [OF s1(1) _ s1(2)] s1 by blast
qed

end
