(* ===== verification/Entry_Targets_Props.thy ===== *)
theory Entry_Targets_Props
  imports Entry_Targets
begin

text \<open>
  What holds of the registry of entry targets in every reachable state: every target that is still
  held lies in a held payload of its own owner and its code runs to the payload's end; the index
  is keyed by what it points to. A target that a hook is bound to keeps its payload, and evidence
  that it is shared is never lost.
\<close>

section \<open>Steps\<close>

inductive registry_step :: "target_world \<Rightarrow> target_world \<Rightarrow> bool" where
  step_get: "GetOrCreate entry code_size code_object alias_count proof payload_start instructions_length
      image_id owner' w = (r, w') \<Longrightarrow> registry_step w w'"
| step_alias: "tw_live_target w i \<Longrightarrow> registry_step w (set_target i (AddAlias a (tw_target w i)) w)"
| step_bind: "tw_live_target w i \<Longrightarrow> et_hook_record (tw_target w i) = None \<Longrightarrow>
    registry_step w (set_target i (BindHookRecord (Some h) (tw_target w i)) w)"
| step_unbind: "tw_live_target w i \<Longrightarrow> registry_step w (set_target i (UnbindHookRecord h (tw_target w i)) w)"
| step_clear: "registry_step w (ClearTargets w)"
| step_erase: "registry_step w (EraseImage image_id epoch w)"
| step_drop_target: "tw_live_target w i \<Longrightarrow> et_hook_record (tw_target w i) = None \<Longrightarrow>
    registry_step w (w\<lparr>tw_live_target := (tw_live_target w)(i := False)\<rparr>)"
| step_drop_payload: "\<forall>i. tw_live_target w i \<longrightarrow> et_payload (tw_target w i) \<noteq> Some p \<Longrightarrow>
    registry_step w (w\<lparr>tw_live_payload := (tw_live_payload w)(p := False)\<rparr>)"

definition initial_world :: "target_world \<Rightarrow> bool" where
  "initial_world w \<longleftrightarrow> (\<forall>i. \<not> tw_live_target w i) \<and> (\<forall>p. \<not> tw_live_payload w p) \<and>
     tw_targets w = [] \<and> tw_payloads w = []"

inductive registry_reachable :: "target_world \<Rightarrow> bool" where
  reach_start: "initial_world w \<Longrightarrow> registry_reachable w"
| reach_step: "registry_reachable w \<Longrightarrow> registry_step w w' \<Longrightarrow> registry_reachable w'"

section \<open>The invariant\<close>

text \<open>What never changes about a payload or a target once it exists.\<close>

definition payload_range :: "code_payload \<Rightarrow> owner_identity \<times> ptr \<times> u32" where
  "payload_range p = (pl_owner p, pl_start p, pl_instructions_length p)"

definition target_key :: "entry_target \<Rightarrow> address_key" where
  "target_key t = (et_owner t, et_entry t)"

definition placed_in :: "entry_target \<Rightarrow> code_payload \<Rightarrow> bool" where
  "placed_in t p \<longleftrightarrow> pl_owner p = et_owner t \<and> unat (pl_start p) \<le> unat (et_entry t) \<and>
     et_code_size t \<noteq> 0 \<and> unat (et_entry t) + unat (et_code_size t) = unat (pl_start p) + unat (pl_instructions_length p) \<and>
     unat (pl_start p) + unat (pl_instructions_length p) < 2 ^ 64"

definition target_placed :: "target_world \<Rightarrow> nat \<Rightarrow> bool" where
  "target_placed w i \<longleftrightarrow> (\<exists>p. et_payload (tw_target w i) = Some p \<and> tw_live_payload w p \<and>
     placed_in (tw_target w i) (tw_payload w p))"

definition index_ok :: "(address_key \<times> nat) list \<Rightarrow> nat \<Rightarrow> (nat \<Rightarrow> address_key) \<Rightarrow> bool" where
  "index_ok m bound key \<longleftrightarrow> distinct (map fst m) \<and> (\<forall>(k, i) \<in> set m. i < bound \<and> k = key i)"

definition registry_ok :: "target_world \<Rightarrow> bool" where
  "registry_ok w \<longleftrightarrow>
     (\<forall>i. tw_live_target w i \<longrightarrow> i < tw_next_target w \<and> target_placed w i) \<and>
     (\<forall>p. tw_live_payload w p \<longrightarrow> p < tw_next_payload w) \<and>
     index_ok (tw_targets w) (tw_next_target w) (\<lambda>i. target_key (tw_target w i)) \<and>
     index_ok (tw_payloads w) (tw_next_payload w) (\<lambda>p. (pl_owner (tw_payload w p), pl_start (tw_payload w p)))"

lemma index_ok_filter: "index_ok m n key \<Longrightarrow> index_ok (filter P m) n key"
  by (auto simp: index_ok_def distinct_map inj_on_def)

lemma index_ok_insert:
  "index_ok m n key \<Longrightarrow> n \<le> n' \<Longrightarrow> i < n' \<Longrightarrow> k = key' i \<Longrightarrow> (\<forall>j < n. key' j = key j) \<Longrightarrow>
   index_ok (insert_key k i m) n' key'"
  by (auto simp: index_ok_def insert_key_def distinct_map inj_on_def dest: less_le_trans split: prod.splits)

lemma index_ok_cong: "index_ok m n key \<Longrightarrow> (\<forall>j < n. key' j = key j) \<Longrightarrow> n \<le> n' \<Longrightarrow> index_ok m n' key'"
  by (fastforce simp: index_ok_def)

lemma index_ok_empty [simp]: "index_ok [] n key"
  by (simp add: index_ok_def)

section \<open>Payloads\<close>

lemma scan_payloads_spec:
  "scan_payloads w ow st m = (m', found) \<Longrightarrow>
     set m' \<subseteq> set m \<and> (distinct (map fst m) \<longrightarrow> distinct (map fst m')) \<and>
     (\<forall>p. found = Some p \<longrightarrow> tw_live_payload w p \<and> pl_owner (tw_payload w p) = ow \<and> pl_start (tw_payload w p) = st)"
proof (induction m arbitrary: m' found)
  case (Cons e m)
  obtain k p where e: "e = (k, p)" by (cases e)
  obtain r f where r: "scan_payloads w ow st m = (r, f)" by fastforce
  note IH = Cons.IH [OF r]
  then have "fst ` set r \<subseteq> fst ` set m" by blast
  then have "k \<notin> fst ` set m \<Longrightarrow> k \<notin> fst ` set r" by blast
  then show ?case using IH Cons.prems r by (auto simp: e split: if_splits)
qed simp

text \<open>How a registry operation may change the payloads: existing ones keep their range.\<close>

definition payloads_grow :: "target_world \<Rightarrow> target_world \<Rightarrow> bool" where
  "payloads_grow w w' \<longleftrightarrow>
     tw_next_payload w \<le> tw_next_payload w' \<and>
     (\<forall>p < tw_next_payload w. payload_range (tw_payload w' p) = payload_range (tw_payload w p)) \<and>
     (\<forall>p. tw_live_payload w p \<longrightarrow> tw_live_payload w' p) \<and>
     tw_target w' = tw_target w \<and> tw_next_target w' = tw_next_target w \<and>
     tw_live_target w' = tw_live_target w \<and> tw_targets w' = tw_targets w"

lemma placed_in_range: "payload_range p = payload_range q \<Longrightarrow> placed_in t p = placed_in t q"
  by (simp add: placed_in_def payload_range_def)

lemma grow_placed:
  assumes "payloads_grow w w'" "registry_ok w" "tw_live_target w i"
  shows "i < tw_next_target w' \<and> target_placed w' i"
proof -
  have t: "i < tw_next_target w" "target_placed w i" using assms(2,3) by (auto simp: registry_ok_def)
  then obtain p where p: "et_payload (tw_target w i) = Some p" "tw_live_payload w p"
    "placed_in (tw_target w i) (tw_payload w p)" by (auto simp: target_placed_def)
  then have "p < tw_next_payload w" using assms(2) by (auto simp: registry_ok_def)
  then have "placed_in (tw_target w i) (tw_payload w' p)"
    using p(3) assms(1) placed_in_range by (metis payloads_grow_def)
  then show ?thesis using p t(1) assms(1) by (auto simp: payloads_grow_def target_placed_def)
qed

lemma set_payload_ok:
  assumes ok: "registry_ok w" and range: "payload_range pl = payload_range (tw_payload w p)"
  shows "registry_ok (set_payload p pl w) \<and> payloads_grow w (set_payload p pl w)"
proof -
  have grow: "payloads_grow w (set_payload p pl w)" using range by (auto simp: payloads_grow_def set_payload_def)
  have "(\<lambda>q. (pl_owner (tw_payload (set_payload p pl w) q), pl_start (tw_payload (set_payload p pl w) q))) =
      (\<lambda>q. (pl_owner (tw_payload w q), pl_start (tw_payload w q)))"
    using range by (auto simp: set_payload_def payload_range_def)
  then show ?thesis using ok grow grow_placed [OF grow ok]
    by (auto simp: registry_ok_def set_payload_def)
qed

lemma grow_trans: "payloads_grow a b \<Longrightarrow> payloads_grow b c \<Longrightarrow> payloads_grow a c"
  by (auto simp: payloads_grow_def)

lemma find_or_create:
  assumes run: "FindOrCreatePayload ow st len obj exact w = (r, w')" and ok: "registry_ok w"
  shows "registry_ok w' \<and> payloads_grow w w' \<and>
    (\<forall>p. r = Some p \<longrightarrow> tw_live_payload w' p \<and> payload_range (tw_payload w' p) = (ow, st, len))"
proof -
  obtain m found where scan: "scan_payloads w ow st (tw_payloads w) = (m, found)" by fastforce
  define w1 where "w1 = w\<lparr>tw_payloads := m\<rparr>"
  have m: "index_ok m (tw_next_payload w) (\<lambda>p. (pl_owner (tw_payload w p), pl_start (tw_payload w p)))"
    using ok scan_payloads_spec [OF scan] by (auto simp: registry_ok_def index_ok_def)
  have ok1: "registry_ok w1" using ok m by (auto simp: registry_ok_def w1_def target_placed_def)
  have g1: "payloads_grow w w1" by (simp add: payloads_grow_def w1_def)
  show ?thesis
  proof (cases found)
    case (Some p)
    have p: "tw_live_payload w p" "pl_owner (tw_payload w p) = ow" "pl_start (tw_payload w p) = st"
      using scan_payloads_spec [OF scan] Some by auto
    define pl where "pl = (let pl = tw_payload w p; pl = (if obj \<noteq> 0 then pl\<lparr>pl_code_object := obj\<rparr> else pl)
      in if exact then pl\<lparr>pl_exact_identity := True\<rparr> else pl)"
    have range: "payload_range pl = payload_range (tw_payload w1 p)"
      by (simp add: pl_def payload_range_def w1_def Let_def)
    show ?thesis
    proof (cases "pl_instructions_length (tw_payload w p) = len")
      case False
      then have "r = None" "w' = w1" using run scan Some by (auto simp: FindOrCreatePayload_def Let_def w1_def)
      then show ?thesis using ok1 g1 by simp
    next
      case True
      then have w': "w' = set_payload p pl w1" "r = Some p"
        using run scan Some by (auto simp: FindOrCreatePayload_def Let_def w1_def pl_def)
      have "payload_range pl = (ow, st, len)" using range p True by (simp add: payload_range_def w1_def)
      moreover have "tw_live_payload w' p" "tw_payload w' p = pl"
        using p by (simp_all add: w' set_payload_def w1_def)
      ultimately show ?thesis using set_payload_ok [OF ok1 range] g1 grow_trans w' by auto
    qed
  next
    case None
    let ?p = "tw_next_payload w"
    let ?pl = "new_payload ow st len obj exact"
    have w': "r = Some ?p" "w' = w\<lparr>tw_payload := (tw_payload w)(?p := ?pl), tw_next_payload := ?p + 1,
        tw_live_payload := (tw_live_payload w)(?p := True), tw_payloads := insert_key (ow, st) ?p m\<rparr>"
      using run scan None by (auto simp: FindOrCreatePayload_def Let_def set_payload_def)
    have grow: "payloads_grow w w'" by (simp add: payloads_grow_def w')
    have idx: "index_ok (tw_payloads w') (tw_next_payload w') (\<lambda>p. (pl_owner (tw_payload w' p), pl_start (tw_payload w' p)))"
      unfolding w' using m by (simp, intro index_ok_insert [OF m]) (auto simp: new_payload_def)
    have tgt: "tw_target w' = tw_target w" "tw_targets w' = tw_targets w" "tw_next_target w' = tw_next_target w"
      "tw_live_target w' = tw_live_target w" by (simp_all add: w')
    have "tw_live_payload w' p \<Longrightarrow> p < tw_next_payload w'" for p
      using ok by (auto simp: w' registry_ok_def less_SucI split: if_splits)
    then have "registry_ok w'"
      using ok idx grow_placed [OF grow ok] unfolding registry_ok_def tgt by auto
    then show ?thesis using grow by (simp add: w' payload_range_def new_payload_def)
  qed
qed

section \<open>Targets\<close>

text \<open>An operation on one target that keeps its key and leaves it placed.\<close>

lemma set_target_ok:
  assumes ok: "registry_ok w" and key: "target_key t = target_key (tw_target w i)"
    and placed: "tw_live_target w i \<Longrightarrow> target_placed (set_target i t w) i"
  shows "registry_ok (set_target i t w)"
proof -
  have k: "(\<lambda>j. target_key (tw_target (set_target i t w) j)) = (\<lambda>j. target_key (tw_target w j))"
    using key by (auto simp: set_target_def)
  have "tw_live_target w j \<Longrightarrow> target_placed (set_target i t w) j" for j
    using placed ok by (cases "j = i") (auto simp: registry_ok_def target_placed_def set_target_def)
  then show ?thesis using ok k by (simp add: registry_ok_def set_target_def)
qed

lemma merge_target_key [simp]: "target_key (merge_target cs co ac pr t) = target_key t"
  "et_payload (merge_target cs co ac pr t) = et_payload t"
  "et_hook_record (merge_target cs co ac pr t) = et_hook_record t"
  "et_owner (merge_target cs co ac pr t) = et_owner t" "et_entry (merge_target cs co ac pr t) = et_entry t"
  "et_aliases (merge_target cs co ac pr t) = et_aliases t"
  by (simp_all add: merge_target_def merge_identity_proof_def target_key_def Let_def)

lemma merge_target_size:
  "et_code_size (merge_target cs co ac pr t) = (if et_code_size t = 0 then cs else et_code_size t)"
  by (simp add: merge_target_def merge_identity_proof_def Let_def)

lemma note_code_object_ok:
  assumes "registry_ok w"
  shows "registry_ok (note_code_object obj pl w) \<and> payloads_grow w (note_code_object obj pl w)"
proof -
  have refl: "payloads_grow w w" by (simp add: payloads_grow_def)
  show ?thesis using assms refl
    by (auto simp: note_code_object_def payload_range_def split: option.splits intro: set_payload_ok [THEN conjunct1] set_payload_ok [THEN conjunct2])
qed

lemma MergeEvidence_ok:
  assumes ok: "registry_ok w" and run: "MergeEvidence i cs obj ac pr w = (merged, w')"
  shows "registry_ok w'"
proof (cases merged)
  case False
  then show ?thesis using run ok by (auto simp: MergeEvidence_def Let_def split: if_splits)
next
  case True
  let ?t = "tw_target w i" and ?w1 = "note_code_object obj (et_payload (tw_target w i)) w"
  note n = note_code_object_ok [OF ok, of obj "et_payload ?t"]
  have same: "tw_target ?w1 = tw_target w" "tw_live_target ?w1 = tw_live_target w" using n by (auto simp: payloads_grow_def)
  have w': "w' = set_target i (merge_target cs obj ac pr ?t) ?w1"
    and size: "et_code_size ?t \<noteq> 0 \<and> cs \<noteq> 0 \<longrightarrow> et_code_size ?t = cs"
    using run True by (auto simp: MergeEvidence_def Let_def split: if_splits)
  show ?thesis unfolding w'
  proof (rule set_target_ok)
    assume "tw_live_target ?w1 i"
    then have "target_placed ?w1 i" using n by (auto simp: registry_ok_def)
    then show "target_placed (set_target i (merge_target cs obj ac pr ?t) ?w1) i"
      by (auto simp: target_placed_def set_target_def same placed_in_def merge_target_size)
  qed (use n same in \<open>auto\<close>)
qed

lemma Upgrade_ok:
  assumes ok: "registry_ok w" and run: "MergeEvidenceAndUpgradePayload i cs obj ac pr (Some p) (Some r) w = (merged, w')"
    and live: "tw_live_payload w r" and range: "payload_range (tw_payload w r) = (et_owner (tw_target w i), st, len)"
    and entry: "unat st \<le> unat (et_entry (tw_target w i))" "cs \<noteq> 0"
      "unat (et_entry (tw_target w i)) + unat cs = unat st + unat len" "unat st + unat len < 2 ^ 64"
  shows "registry_ok w'"
proof (cases merged)
  case False
  then show ?thesis using run ok by (auto simp: MergeEvidenceAndUpgradePayload_def Let_def split: if_splits)
next
  case True
  let ?t = "(merge_target cs obj ac pr (tw_target w i))\<lparr>et_payload := Some r\<rparr>"
  have w': "w' = note_code_object obj (Some r) (set_target i ?t w)"
    and size: "et_code_size (tw_target w i) \<noteq> 0 \<and> cs \<noteq> 0 \<longrightarrow> et_code_size (tw_target w i) = cs"
    using run True by (auto simp: MergeEvidenceAndUpgradePayload_def Let_def split: if_splits)
  have "registry_ok (set_target i ?t w)"
  proof (rule set_target_ok [OF ok])
    show "target_key ?t = target_key (tw_target w i)" by (simp add: target_key_def)
    show "target_placed (set_target i ?t w) i"
      using live range entry size
      by (auto simp: target_placed_def set_target_def placed_in_def merge_target_size payload_range_def)
  qed
  then show ?thesis unfolding w' by (rule note_code_object_ok [THEN conjunct1])
qed

section \<open>Placement\<close>

lemma unat_stop:
  fixes st :: ptr and len :: u32
  assumes "\<not> st > UINT64_MAX - ucast len"
  shows "unat st + unat len < 2 ^ 64" "unat (st + ucast len) = unat st + unat len"
proof -
  have l: "unat (ucast len :: u64) = unat len" by simp
  have "unat st \<le> unat (UINT64_MAX - ucast len)" using assms by (simp only: word_le_nat_alt [symmetric] not_less)
  moreover have "unat (UINT64_MAX - ucast len :: u64) = 2 ^ 64 - 1 - unat len"
  proof -
    have "unat (UINT64_MAX :: u64) = 2 ^ 64 - 1" by (simp add: UINT64_MAX_def)
    moreover have "(ucast len :: u64) \<le> UINT64_MAX" by (simp add: UINT64_MAX_def word_le_nat_alt) (use unat_bound [of len] in simp)
    ultimately show ?thesis using l by (simp add: unat_sub)
  qed
  ultimately show f: "unat st + unat len < 2 ^ 64" using unat_bound [of len] by simp
  then show "unat (st + ucast len) = unat st + unat len" using l by (simp add: unat_word_ariths)
qed

lemma range_fits_spec:
  assumes "range_fits entry cs st len explicit_payload"
  shows "unat entry < unat st + unat len" "unat entry + unat cs \<le> unat st + unat len"
    "unat st + unat len < 2 ^ 64" "explicit_payload \<Longrightarrow> unat entry + unat cs = unat st + unat len"
    "len \<noteq> 0" "unat st \<le> unat entry"
proof -
  let ?stop = "st + ucast len"
  have c: "len \<noteq> 0" "\<not> st > UINT64_MAX - ucast len" "\<not> entry < st" "\<not> entry \<ge> ?stop" "\<not> ucast cs > ?stop - entry"
    and ex: "explicit_payload \<Longrightarrow> ucast cs = ?stop - entry"
    using assms unfolding range_fits_def Let_def by metis+
  show "unat st + unat len < 2 ^ 64" by (rule unat_stop(1) [OF c(2)])
  have stop: "unat ?stop = unat st + unat len" by (rule unat_stop(2) [OF c(2)])
  have e: "unat entry < unat ?stop" using c(4) by (simp only: word_less_nat_alt [symmetric] not_le)
  then have d: "unat (?stop - entry) = unat ?stop - unat entry" by (intro unat_sub) (simp add: word_le_nat_alt)
  show "unat entry < unat st + unat len" using e stop by simp
  show "unat st \<le> unat entry" using c(3) by (simp only: word_le_nat_alt [symmetric] not_less)
  have "unat (ucast cs :: u64) \<le> unat (?stop - entry)" using c(5) by (simp only: word_le_nat_alt [symmetric] not_less)
  then show "unat entry + unat cs \<le> unat st + unat len" using e d stop by simp
  show "unat entry + unat cs = unat st + unat len" if explicit_payload
  proof -
    have "unat (ucast cs :: u64) = unat (?stop - entry)" using ex [OF that] by simp
    then show ?thesis using e d stop by simp
  qed
  show "len \<noteq> 0" by (rule c(1))
qed

lemma check_placement_spec:
  assumes "check_placement entry cs ps il img ow = Some pc"
  shows "unat (pc_payload_start pc) \<le> unat entry \<and> cs \<noteq> 0 \<and>
    unat entry + unat cs = unat (pc_payload_start pc) + unat (pc_length pc) \<and>
    unat (pc_payload_start pc) + unat (pc_length pc) < 2 ^ 64"
proof -
  have e: "pc_explicit pc = (ps \<noteq> 0 \<or> il \<noteq> 0)" "pc_payload_start pc = (if ps = 0 then entry else ps)"
    and l: "implied_length entry cs (pc_payload_start pc) il = Some (pc_length pc)"
    and f: "range_fits entry cs (pc_payload_start pc) (pc_length pc) (pc_explicit pc)"
    using assms by (auto simp: check_placement_def Let_def split: if_split_asm option.splits)
  note r = range_fits_spec [OF f]
  have run: "unat entry + unat cs = unat (pc_payload_start pc) + unat (pc_length pc)"
  proof (cases "pc_explicit pc")
    case False
    then have "pc_payload_start pc = entry" "il = 0" using e by auto
    then have "pc_length pc = cs" using l by (auto simp: implied_length_def Let_def split: if_split_asm)
    then show ?thesis using \<open>pc_payload_start pc = entry\<close> by simp
  qed (use r in simp)
  then have "cs \<noteq> 0" using r(1) by auto
  then show ?thesis using r run by blast
qed

section \<open>The registry keeps its invariant\<close>

lemma create_target_ok:
  assumes run: "create_target entry cs obj ac pr pc w = (r, w')" and ok: "registry_ok w"
    and place: "check_placement entry cs ps il img ow = Some pc"
  shows "registry_ok w'"
proof -
  obtain f w1 where f: "FindOrCreatePayload (pc_owner pc) (pc_payload_start pc) (pc_length pc) obj (pc_explicit pc) w = (f, w1)"
    by fastforce
  note n = find_or_create [OF f ok]
  show ?thesis
  proof (cases f)
    case None
    then show ?thesis using run f n by (simp add: create_target_def)
  next
    case (Some p)
    let ?i = "tw_next_target w1"
    let ?t = "new_target entry cs obj ac pr (pc_image_id pc) (pc_owner pc) (Some p)"
    have w': "w' = w1\<lparr>tw_target := (tw_target w1)(?i := ?t), tw_next_target := ?i + 1,
        tw_live_target := (tw_live_target w1)(?i := True),
        tw_targets := insert_key (pc_owner pc, entry) ?i (tw_targets w1)\<rparr>"
      using run f Some by (auto simp: create_target_def Let_def set_target_def)
    have p: "tw_live_payload w1 p" "payload_range (tw_payload w1 p) = (pc_owner pc, pc_payload_start pc, pc_length pc)"
      using n Some by auto
    have new: "target_placed w' ?i"
      using p check_placement_spec [OF place]
      by (auto simp: w' target_placed_def placed_in_def new_target_def payload_range_def)
    have old: "tw_live_target w1 j \<Longrightarrow> j < ?i \<and> target_placed w' j" for j
      using n by (auto simp: registry_ok_def target_placed_def w')
    have idx: "index_ok (tw_targets w') (tw_next_target w') (\<lambda>i. target_key (tw_target w' i))"
      unfolding w' using n by (simp, intro index_ok_insert) (auto simp: registry_ok_def new_target_def target_key_def)
    have rest: "tw_payload w' = tw_payload w1" "tw_next_payload w' = tw_next_payload w1"
      "tw_live_payload w' = tw_live_payload w1" "tw_payloads w' = tw_payloads w1"
      "tw_next_target w' = ?i + 1" "tw_live_target w' = (tw_live_target w1)(?i := True)" by (simp_all add: w')
    have live: "tw_live_target w' j \<longrightarrow> j < tw_next_target w' \<and> target_placed w' j" for j
      using new old [of j] by (auto simp: rest)
    show ?thesis using live idx n unfolding registry_ok_def rest by simp
  qed
qed

lemma reuse_target_ok:
  assumes run: "reuse_target i cs obj ac pr pc w = (r, w')" and ok: "registry_ok w"
    and live: "tw_live_target w i" and key: "target_key (tw_target w i) = (pc_owner pc, entry)"
    and place: "check_placement entry cs ps il img ow = Some pc"
  shows "registry_ok w'"
proof -
  obtain p where p: "et_payload (tw_target w i) = Some p" "tw_live_payload w p"
    using ok live by (auto simp: registry_ok_def target_placed_def)
  let ?same = "pl_start (tw_payload w p) = pc_payload_start pc \<and> pl_instructions_length (tw_payload w p) = pc_length pc"
  consider (merge) "\<not> pc_explicit pc \<or> ?same" | (keep) "pc_explicit pc" "\<not> ?same"
      "pl_exact_identity (tw_payload w p) \<or> et_hook_record (tw_target w i) \<noteq> None"
    | (upgrade) "pc_explicit pc" "\<not> ?same" "\<not> (pl_exact_identity (tw_payload w p) \<or> et_hook_record (tw_target w i) \<noteq> None)"
    by blast
  then show ?thesis
  proof cases
    case merge
    obtain m w1 where m: "MergeEvidence i cs obj ac pr w = (m, w1)" by fastforce
    have "registry_ok w1" by (rule MergeEvidence_ok [OF ok m])
    moreover have "payload_range ((tw_payload w1 p)\<lparr>pl_exact_identity := True\<rparr>) = payload_range (tw_payload w1 p)"
      by (simp add: payload_range_def)
    ultimately show ?thesis
      using run p m merge set_payload_ok by (auto simp: reuse_target_def split: if_splits)
  next
    case keep
    then show ?thesis using run p ok by (auto simp: reuse_target_def split: if_splits)
  next
    case upgrade
    obtain f w1 where f: "FindOrCreatePayload (pc_owner pc) (pc_payload_start pc) (pc_length pc) obj True w = (f, w1)"
      by fastforce
    note n = find_or_create [OF f ok]
    show ?thesis
    proof (cases f)
      case None
      then show ?thesis using run p f n upgrade by (auto simp: reuse_target_def split: if_splits)
    next
      case (Some q)
      obtain m w2 where m: "MergeEvidenceAndUpgradePayload i cs obj ac pr (Some p) (Some q) w1 = (m, w2)" by fastforce
      have t: "tw_target w1 i = tw_target w i" using n by (auto simp: payloads_grow_def)
      have "registry_ok w2"
        by (rule Upgrade_ok [OF _ m])
           (use n Some key check_placement_spec [OF place] in \<open>auto simp: t target_key_def\<close>)
      then show ?thesis using run p f m upgrade Some by (auto simp: reuse_target_def split: if_splits)
    qed
  qed
qed

lemma GetOrCreate_ok:
  assumes run: "GetOrCreate entry cs obj ac pr ps il img ow w = (r, w')" and ok: "registry_ok w"
  shows "registry_ok w'"
proof (cases "check_placement entry cs ps il img ow")
  case None
  then show ?thesis using run ok by (simp add: GetOrCreate_def)
next
  case (Some pc)
  show ?thesis
  proof (cases "\<exists>i. map_of (tw_targets w) (pc_owner pc, entry) = Some i \<and> tw_live_target w i")
    case True
    then obtain i where i: "map_of (tw_targets w) (pc_owner pc, entry) = Some i" "tw_live_target w i" by blast
    have "target_key (tw_target w i) = (pc_owner pc, entry)"
      using ok map_of_SomeD [OF i(1)] by (auto simp: registry_ok_def index_ok_def)
    then show ?thesis using reuse_target_ok [OF _ ok i(2) _ Some] run i Some by (simp add: GetOrCreate_def)
  next
    case False
    then have "create_target entry cs obj ac pr pc w = (r, w')"
      using run Some by (auto simp: GetOrCreate_def split: option.splits if_splits)
    then show ?thesis by (rule create_target_ok [OF _ ok Some])
  qed
qed

lemma alias_fields [simp]:
  "et_owner (AddAlias a t) = et_owner t" "et_entry (AddAlias a t) = et_entry t"
  "et_payload (AddAlias a t) = et_payload t" "et_code_size (AddAlias a t) = et_code_size t"
  "et_hook_record (AddAlias a t) = et_hook_record t"
  by (simp_all add: AddAlias_def Let_def)

lemma bind_fields [simp]:
  "et_owner (BindHookRecord h t) = et_owner t" "et_entry (BindHookRecord h t) = et_entry t"
  "et_payload (BindHookRecord h t) = et_payload t" "et_code_size (BindHookRecord h t) = et_code_size t"
  "et_owner (UnbindHookRecord k t) = et_owner t" "et_entry (UnbindHookRecord k t) = et_entry t"
  "et_payload (UnbindHookRecord k t) = et_payload t" "et_code_size (UnbindHookRecord k t) = et_code_size t"
  by (simp_all add: BindHookRecord_def UnbindHookRecord_def)

lemma set_target_same:
  assumes "registry_ok w" "et_owner t = et_owner (tw_target w i)" "et_entry t = et_entry (tw_target w i)"
    "et_payload t = et_payload (tw_target w i)" "et_code_size t = et_code_size (tw_target w i)"
  shows "registry_ok (set_target i t w)"
  using assms by (intro set_target_ok)
    (auto simp: registry_ok_def target_key_def target_placed_def set_target_def placed_in_def)

lemma registry_step_ok: "registry_step w w' \<Longrightarrow> registry_ok w \<Longrightarrow> registry_ok w'"
proof (induction rule: registry_step.induct)
  case (step_get entry cs obj ac pr ps il img ow w r w')
  then show ?case using GetOrCreate_ok by blast
next
  case (step_alias w i a)
  then show ?case by (intro set_target_same) simp_all
next
  case (step_bind w i h)
  then show ?case by (intro set_target_same) simp_all
next
  case (step_unbind w i h)
  then show ?case by (intro set_target_same) simp_all
next
  case (step_drop_payload w p)
  let ?w = "w\<lparr>tw_live_payload := (tw_live_payload w)(p := False)\<rparr>"
  have "target_placed ?w i" if i: "tw_live_target w i" for i
  proof -
    have "target_placed w i" using step_drop_payload i by (simp add: registry_ok_def)
    then obtain q where "et_payload (tw_target w i) = Some q" "tw_live_payload w q"
      "placed_in (tw_target w i) (tw_payload w q)" by (auto simp: target_placed_def)
    moreover from this have "q \<noteq> p" using step_drop_payload i by auto
    ultimately show ?thesis by (simp add: target_placed_def)
  qed
  then show ?case using step_drop_payload by (simp add: registry_ok_def)
qed (auto simp: registry_ok_def target_placed_def ClearTargets_def EraseImage_def index_ok_filter)

lemma registry_reachable_ok: "registry_reachable w \<Longrightarrow> registry_ok w"
proof (induction rule: registry_reachable.induct)
  case (reach_start w)
  then show ?case by (simp add: initial_world_def registry_ok_def)
next
  case (reach_step w w')
  then show ?case using registry_step_ok by blast
qed

section \<open>What one step does to a target\<close>

text \<open>The evidence about a target: a count above one has made it shared.\<close>

definition evidence_kept :: "entry_target \<Rightarrow> entry_target \<Rightarrow> bool" where
  "evidence_kept t t' \<longleftrightarrow>
     target_key t' = target_key t \<and> (et_code_size t \<noteq> 0 \<longrightarrow> et_code_size t' = et_code_size t) \<and>
     (et_hook_record t \<noteq> None \<longrightarrow> et_payload t' = et_payload t) \<and>
     (et_identity_proof t = IdentityShared \<longrightarrow> et_identity_proof t' = IdentityShared) \<and>
     set (et_aliases t) \<subseteq> set (et_aliases t')"

definition evidence_ok :: "entry_target \<Rightarrow> bool" where
  "evidence_ok t \<longleftrightarrow> (et_reported_alias_count t > 1 \<or> DistinctLogicalFunctionAliasCount t > 1 \<longrightarrow>
     et_identity_proof t = IdentityShared)"

lemma shared_iff: "evidence_ok t \<Longrightarrow> IsShared t \<longleftrightarrow> et_identity_proof t = IdentityShared"
  by (auto simp: evidence_ok_def IsShared_def)

lemma evidence_kept_refl [simp]: "evidence_kept t t"
  by (simp add: evidence_kept_def)

lemma max_by_less: "max a b = (if a < b then b else a)" for a b :: u32
  by (auto simp: max_def)

lemma merge_target_evidence:
  "et_reported_alias_count (merge_target cs co ac pr t) = max (et_reported_alias_count t) ac"
  "et_identity_proof (merge_target cs co ac pr t) =
     (if pr = IdentityShared \<or> max (et_reported_alias_count t) ac > 1 then IdentityShared
      else if pr = IdentityUnique \<and> et_identity_proof t = IdentityUnknown then IdentityUnique
      else et_identity_proof t)"
  unfolding merge_target_def merge_identity_proof_def Let_def
  by (simp_all add: if_distrib [of et_identity_proof] if_distrib [of et_reported_alias_count] max_by_less)

lemma merge_evidence:
  "et_code_size t \<noteq> 0 \<and> cs \<noteq> 0 \<longrightarrow> et_code_size t = cs \<Longrightarrow> evidence_kept t (merge_target cs co ac pr t)"
  "evidence_ok t \<Longrightarrow> evidence_ok (merge_target cs co ac pr t)"
  by (auto simp: evidence_kept_def merge_target_size merge_target_evidence)
     (auto simp: evidence_ok_def merge_target_evidence DistinctLogicalFunctionAliasCount_def)

lemma payload_evidence:
  "et_hook_record t = None \<Longrightarrow> evidence_kept s t \<Longrightarrow> et_hook_record s = None \<Longrightarrow> evidence_kept s (t\<lparr>et_payload := x\<rparr>)"
  "evidence_ok t \<Longrightarrow> evidence_ok (t\<lparr>et_payload := x\<rparr>)"
  by (auto simp: evidence_kept_def evidence_ok_def target_key_def DistinctLogicalFunctionAliasCount_def)

lemma alias_evidence: "evidence_kept t (AddAlias a t)" "evidence_ok t \<Longrightarrow> evidence_ok (AddAlias a t)"
  by (auto simp: evidence_kept_def evidence_ok_def AddAlias_def target_key_def DistinctLogicalFunctionAliasCount_def Let_def)

lemma bind_evidence:
  "et_hook_record t = None \<Longrightarrow> evidence_kept t (BindHookRecord h t)" "evidence_kept t (UnbindHookRecord k t)"
  "evidence_ok t \<Longrightarrow> evidence_ok (BindHookRecord h t)" "evidence_ok t \<Longrightarrow> evidence_ok (UnbindHookRecord k t)"
  by (auto simp: evidence_kept_def evidence_ok_def BindHookRecord_def UnbindHookRecord_def target_key_def
      DistinctLogicalFunctionAliasCount_def)

lemma new_evidence: "evidence_ok (new_target entry cs obj ac pr img ow p)"
  by (auto simp: evidence_ok_def new_target_def DistinctLogicalFunctionAliasCount_def)

text \<open>How an operation treats the targets: each is kept, and new ones are sound.\<close>

definition targets_kept :: "target_world \<Rightarrow> target_world \<Rightarrow> bool" where
  "targets_kept w w' \<longleftrightarrow>
     (\<forall>i. tw_live_target w i \<longrightarrow> evidence_kept (tw_target w i) (tw_target w' i)) \<and>
     ((\<forall>i. tw_live_target w i \<longrightarrow> evidence_ok (tw_target w i)) \<longrightarrow>
      (\<forall>i. tw_live_target w' i \<longrightarrow> evidence_ok (tw_target w' i)))"

lemma targets_kept_same: "tw_target w' = tw_target w \<Longrightarrow> (\<And>i. tw_live_target w' i \<Longrightarrow> tw_live_target w i) \<Longrightarrow> targets_kept w w'"
  by (auto simp: targets_kept_def)

lemma targets_kept_trans:
  "targets_kept a b \<Longrightarrow> tw_live_target b = tw_live_target a \<Longrightarrow> tw_target b = tw_target a \<Longrightarrow> targets_kept b c \<Longrightarrow> targets_kept a c"
  by (simp add: targets_kept_def)

lemma targets_kept_set:
  assumes "evidence_kept (tw_target w i) t" "evidence_ok (tw_target w i) \<Longrightarrow> evidence_ok t"
  shows "targets_kept w (set_target i t w)"
  using assms by (auto simp: targets_kept_def set_target_def)

lemma grow_kept: "payloads_grow w w' \<Longrightarrow> targets_kept w w'"
  by (rule targets_kept_same) (auto simp: payloads_grow_def)

lemma note_same [simp]: "tw_target (note_code_object obj pl w) = tw_target w"
  "tw_live_target (note_code_object obj pl w) = tw_live_target w"
  by (simp_all add: note_code_object_def set_payload_def split: option.split)

lemma set_payload_same [simp]: "tw_target (set_payload p pl w) = tw_target w"
  "tw_live_target (set_payload p pl w) = tw_live_target w"
  by (simp_all add: set_payload_def)

lemma MergeEvidence_kept:
  assumes "MergeEvidence i cs obj ac pr w = (merged, w')" "tw_live_target w i"
  shows "targets_kept w w' \<and> tw_live_target w' = tw_live_target w"
proof (cases merged)
  case True
  then have w': "w' = set_target i (merge_target cs obj ac pr (tw_target w i)) (note_code_object obj (et_payload (tw_target w i)) w)"
    and size: "et_code_size (tw_target w i) \<noteq> 0 \<and> cs \<noteq> 0 \<longrightarrow> et_code_size (tw_target w i) = cs"
    using assms by (auto simp: MergeEvidence_def Let_def split: if_splits)
  show ?thesis unfolding w'
    using merge_evidence [of "tw_target w i" cs obj ac pr] size assms(2)
    by (auto simp: targets_kept_def set_target_def)
next
  case False
  then show ?thesis using assms by (auto simp: MergeEvidence_def Let_def targets_kept_same split: if_splits)
qed

lemma Upgrade_kept:
  assumes "MergeEvidenceAndUpgradePayload i cs obj ac pr (Some p) (Some r) w = (merged, w')" "tw_live_target w i"
  shows "targets_kept w w' \<and> tw_live_target w' = tw_live_target w"
proof (cases merged)
  case True
  let ?t = "tw_target w i"
  from True have w': "w' = note_code_object obj (Some r) (set_target i ((merge_target cs obj ac pr ?t)\<lparr>et_payload := Some r\<rparr>) w)"
    and size: "et_code_size ?t \<noteq> 0 \<and> cs \<noteq> 0 \<longrightarrow> et_code_size ?t = cs" and no: "et_hook_record ?t = None"
    using assms by (auto simp: MergeEvidenceAndUpgradePayload_def Let_def split: if_splits)
  have "evidence_kept ?t ((merge_target cs obj ac pr ?t)\<lparr>et_payload := Some r\<rparr>)"
    using no merge_evidence(1) [OF size] by (intro payload_evidence) simp_all
  moreover have "evidence_ok ?t \<Longrightarrow> evidence_ok ((merge_target cs obj ac pr ?t)\<lparr>et_payload := Some r\<rparr>)"
    by (intro payload_evidence merge_evidence)
  ultimately show ?thesis unfolding w' using assms(2) by (auto simp: targets_kept_def set_target_def)
next
  case False
  then show ?thesis using assms by (auto simp: MergeEvidenceAndUpgradePayload_def Let_def targets_kept_same split: if_splits)
qed

lemma create_target_kept:
  assumes run: "create_target entry cs obj ac pr pc w = (r, w')" and ok: "registry_ok w"
  shows "targets_kept w w' \<and> (\<forall>i. r = Some i \<longrightarrow> tw_live_target w' i \<and>
    target_key (tw_target w' i) = (pc_owner pc, entry) \<and> et_code_size (tw_target w' i) = cs)"
proof -
  obtain f w1 where f: "FindOrCreatePayload (pc_owner pc) (pc_payload_start pc) (pc_length pc) obj (pc_explicit pc) w = (f, w1)"
    by fastforce
  have g: "payloads_grow w w1" using find_or_create [OF f ok] by blast
  show ?thesis
  proof (cases f)
    case None
    then show ?thesis using run f g by (auto simp: create_target_def grow_kept)
  next
    case (Some p)
    let ?i = "tw_next_target w1"
    let ?t = "new_target entry cs obj ac pr (pc_image_id pc) (pc_owner pc) (Some p)"
    have w': "r = Some ?i" "tw_target w' = (tw_target w1)(?i := ?t)" "tw_live_target w' = (tw_live_target w1)(?i := True)"
      using run f Some by (auto simp: create_target_def Let_def set_target_def)
    have "\<not> tw_live_target w ?i" using ok g by (auto simp: registry_ok_def payloads_grow_def)
    then have "targets_kept w w'"
      using g new_evidence by (auto simp: targets_kept_def w' payloads_grow_def)
    then show ?thesis by (simp add: w' new_target_def target_key_def)
  qed
qed

lemma reuse_target_kept:
  assumes run: "reuse_target i cs obj ac pr pc w = (r, w')" and ok: "registry_ok w" and live: "tw_live_target w i"
  shows "targets_kept w w' \<and> (\<forall>j. r = Some j \<longrightarrow> j = i \<and> tw_live_target w' i)"
proof -
  obtain p where p: "et_payload (tw_target w i) = Some p"
    using ok live by (auto simp: registry_ok_def target_placed_def)
  let ?same = "pl_start (tw_payload w p) = pc_payload_start pc \<and> pl_instructions_length (tw_payload w p) = pc_length pc"
  consider (merge) "\<not> pc_explicit pc \<or> ?same" | (keep) "pc_explicit pc" "\<not> ?same"
      "pl_exact_identity (tw_payload w p) \<or> et_hook_record (tw_target w i) \<noteq> None"
    | (upgrade) "pc_explicit pc" "\<not> ?same" "\<not> (pl_exact_identity (tw_payload w p) \<or> et_hook_record (tw_target w i) \<noteq> None)"
    by blast
  then show ?thesis
  proof cases
    case merge
    obtain m w1 where m: "MergeEvidence i cs obj ac pr w = (m, w1)" by fastforce
    show ?thesis
      using run p m merge MergeEvidence_kept [OF m live] live
      by (auto simp: reuse_target_def targets_kept_def split: if_splits)
  next
    case keep
    then show ?thesis using run p by (auto simp: reuse_target_def targets_kept_same split: if_splits)
  next
    case upgrade
    obtain f w1 where f: "FindOrCreatePayload (pc_owner pc) (pc_payload_start pc) (pc_length pc) obj True w = (f, w1)"
      by fastforce
    have g: "payloads_grow w w1" using find_or_create [OF f ok] by blast
    then have same: "tw_target w1 = tw_target w" "tw_live_target w1 = tw_live_target w" by (auto simp: payloads_grow_def)
    show ?thesis
    proof (cases f)
      case None
      then show ?thesis using run p f g upgrade by (auto simp: reuse_target_def grow_kept split: if_splits)
    next
      case (Some q)
      obtain m w2 where m: "MergeEvidenceAndUpgradePayload i cs obj ac pr (Some p) (Some q) w1 = (m, w2)" by fastforce
      have "targets_kept w1 w2 \<and> tw_live_target w2 = tw_live_target w1" by (rule Upgrade_kept [OF m]) (simp add: same live)
      then have "targets_kept w w2" "tw_live_target w2 i"
        using targets_kept_trans [OF grow_kept [OF g] same(2,1)] live by (auto simp: same)
      then show ?thesis using run p f m upgrade Some by (auto simp: reuse_target_def split: if_splits)
    qed
  qed
qed

lemma GetOrCreate_kept:
  assumes run: "GetOrCreate entry cs obj ac pr ps il img ow w = (r, w')" and ok: "registry_ok w"
  shows "targets_kept w w' \<and> (\<forall>i. r = Some i \<longrightarrow> tw_live_target w' i \<and>
    target_key (tw_target w' i) = (owner_of_image ow img, entry))"
proof (cases "check_placement entry cs ps il img ow")
  case None
  then show ?thesis using run by (auto simp: GetOrCreate_def targets_kept_same)
next
  case (Some pc)
  have ow: "pc_owner pc = owner_of_image ow img"
    using Some by (auto simp: check_placement_def Let_def split: if_split_asm option.splits)
  show ?thesis
  proof (cases "\<exists>i. map_of (tw_targets w) (pc_owner pc, entry) = Some i \<and> tw_live_target w i")
    case True
    then obtain i where i: "map_of (tw_targets w) (pc_owner pc, entry) = Some i" "tw_live_target w i" by blast
    have key: "target_key (tw_target w i) = (pc_owner pc, entry)"
      using ok map_of_SomeD [OF i(1)] by (auto simp: registry_ok_def index_ok_def)
    have "reuse_target i cs obj ac pr pc w = (r, w')" using run i Some by (simp add: GetOrCreate_def)
    note k = reuse_target_kept [OF this ok i(2)]
    then have "target_key (tw_target w' i) = target_key (tw_target w i)"
      using i(2) by (auto simp: targets_kept_def evidence_kept_def)
    then show ?thesis using k unfolding key ow by blast
  next
    case False
    then have "create_target entry cs obj ac pr pc w = (r, w')"
      using run Some by (auto simp: GetOrCreate_def split: option.splits if_splits)
    then show ?thesis using create_target_kept [OF _ ok] ow by auto
  qed
qed

lemma step_kept: "registry_step w w' \<Longrightarrow> registry_ok w \<Longrightarrow> targets_kept w w'"
proof (induction rule: registry_step.induct)
  case (step_get entry cs obj ac pr ps il img ow w r w')
  then show ?case using GetOrCreate_kept by blast
next
  case (step_alias w i a)
  then show ?case by (intro targets_kept_set alias_evidence)
next
  case (step_bind w i h)
  then show ?case by (intro targets_kept_set bind_evidence)
next
  case (step_unbind w i h)
  then show ?case by (intro targets_kept_set bind_evidence)
qed (auto intro!: targets_kept_same simp: ClearTargets_def EraseImage_def split: if_splits)

lemma reachable_evidence: "registry_reachable w \<Longrightarrow> \<forall>i. tw_live_target w i \<longrightarrow> evidence_ok (tw_target w i)"
proof (induction rule: registry_reachable.induct)
  case (reach_start w)
  then show ?case by (simp add: initial_world_def)
next
  case (reach_step w w')
  then have "targets_kept w w'" using step_kept registry_reachable_ok by blast
  then show ?case using reach_step by (auto simp: targets_kept_def)
qed

lemma live_target_placed:
  assumes ok: "registry_ok w" and live: "tw_live_target w j"
  obtains p where "et_payload (tw_target w j) = Some p" "tw_live_payload w p"
    "pl_owner (tw_payload w p) = et_owner (tw_target w j)"
    "unat (pl_start (tw_payload w p)) \<le> unat (et_entry (tw_target w j))"
    "unat (et_entry (tw_target w j)) < unat (pl_start (tw_payload w p)) + unat (pl_instructions_length (tw_payload w p))"
    "unat (et_entry (tw_target w j)) + unat (et_code_size (tw_target w j)) =
       unat (pl_start (tw_payload w p)) + unat (pl_instructions_length (tw_payload w p))"
proof -
  have "target_placed w j" using ok live unfolding registry_ok_def by blast
  then obtain p where p: "et_payload (tw_target w j) = Some p" "tw_live_payload w p"
    and q: "placed_in (tw_target w j) (tw_payload w p)" unfolding target_placed_def by blast
  have "et_code_size (tw_target w j) \<noteq> 0" using q unfolding placed_in_def by blast
  then have n: "0 < unat (et_code_size (tw_target w j))" by (simp add: unat_gt_0)
  have e: "unat (et_entry (tw_target w j)) + unat (et_code_size (tw_target w j)) =
       unat (pl_start (tw_payload w p)) + unat (pl_instructions_length (tw_payload w p))"
    using q unfolding placed_in_def by blast
  show thesis
  proof (rule that [OF p _ _ _ e])
    show "unat (et_entry (tw_target w j)) < unat (pl_start (tw_payload w p)) + unat (pl_instructions_length (tw_payload w p))"
      using n e by linarith
  qed (use q in \<open>unfold placed_in_def, blast+\<close>)
qed

definition empty_world :: target_world where
  "empty_world = \<lparr>tw_target = (\<lambda>_. new_target 0 0 0 0 IdentityUnknown 0 \<lparr>oi_runtime_generation = 0,
        oi_engine_epoch = 0, oi_isolate_group_epoch = 0, oi_image_id = 0, oi_image_epoch = 0\<rparr> None),
     tw_payload = (\<lambda>_. new_payload \<lparr>oi_runtime_generation = 0, oi_engine_epoch = 0,
        oi_isolate_group_epoch = 0, oi_image_id = 0, oi_image_epoch = 0\<rparr> 0 0 0 False),
     tw_next_target = 0, tw_next_payload = 0, tw_live_target = (\<lambda>_. False), tw_live_payload = (\<lambda>_. False),
     tw_targets = [], tw_payloads = []\<rparr>"

definition sample_owner :: owner_identity where
  "sample_owner = \<lparr>oi_runtime_generation = 1, oi_engine_epoch = 1, oi_isolate_group_epoch = 1,
     oi_image_id = 3, oi_image_epoch = 2\<rparr>"

definition world1 :: target_world where
  "world1 = snd (GetOrCreate 0x1000 16 0 1 IdentityUnknown 0 0 3 sample_owner empty_world)"

definition world2 :: target_world where
  "world2 = set_target 0 (BindHookRecord (Some 7) (tw_target world1 0)) world1"

definition world3 :: target_world where
  "world3 = snd (GetOrCreate 0x1000 16 0 2 IdentityUnknown 0xff0 32 3 sample_owner world2)"

lemma world_reachable: "registry_reachable empty_world" "registry_reachable world1" "registry_reachable world2"
  "registry_step world2 world3"
proof -
  show r0: "registry_reachable empty_world"
    by (rule reach_start) (simp add: initial_world_def empty_world_def)
  have "registry_step empty_world world1" unfolding world1_def by (rule step_get) (rule prod.collapse [symmetric])
  then show r1: "registry_reachable world1" using r0 by (rule reach_step [rotated])
  have "tw_live_target world1 0" "et_hook_record (tw_target world1 0) = None" by code_simp+
  then have "registry_step world1 world2" unfolding world2_def by (rule step_bind)
  then show "registry_reachable world2" using r1 by (rule reach_step [rotated])
  show "registry_step world2 world3" unfolding world3_def by (rule step_get) (rule prod.collapse [symmetric])
qed

text \<open>
  a target is what was asked for and lies where its code lies. In every reachable state each
  held target has a held payload of the same owner, its entry is inside the payload's range and its
  code ends where the payload ends; and whatever \<open>GetOrCreate\<close> returns is held and is the target
  of exactly the requested owner and entry.
\<close>

theorem entry_target_placed:
  assumes reach: "registry_reachable w"
  shows "(\<forall>i. tw_live_target w i \<longrightarrow>
      (\<exists>p. et_payload (tw_target w i) = Some p \<and> tw_live_payload w p \<and>
         pl_owner (tw_payload w p) = et_owner (tw_target w i) \<and>
         unat (pl_start (tw_payload w p)) \<le> unat (et_entry (tw_target w i)) \<and>
         unat (et_entry (tw_target w i)) < unat (pl_start (tw_payload w p)) + unat (pl_instructions_length (tw_payload w p)) \<and>
         unat (et_entry (tw_target w i)) + unat (et_code_size (tw_target w i)) =
           unat (pl_start (tw_payload w p)) + unat (pl_instructions_length (tw_payload w p)))) \<and>
    (GetOrCreate entry cs obj ac pr ps il img ow w = (Some i, w') \<longrightarrow>
       tw_live_target w' i \<and> et_entry (tw_target w' i) = entry \<and>
       et_owner (tw_target w' i) = owner_of_image ow img)"
proof (intro conjI impI)
  show "\<forall>i. tw_live_target w i \<longrightarrow>
      (\<exists>p. et_payload (tw_target w i) = Some p \<and> tw_live_payload w p \<and>
         pl_owner (tw_payload w p) = et_owner (tw_target w i) \<and>
         unat (pl_start (tw_payload w p)) \<le> unat (et_entry (tw_target w i)) \<and>
         unat (et_entry (tw_target w i)) < unat (pl_start (tw_payload w p)) + unat (pl_instructions_length (tw_payload w p)) \<and>
         unat (et_entry (tw_target w i)) + unat (et_code_size (tw_target w i)) =
           unat (pl_start (tw_payload w p)) + unat (pl_instructions_length (tw_payload w p)))"
    using live_target_placed [OF registry_reachable_ok [OF reach]] by metis
next
  assume "GetOrCreate entry cs obj ac pr ps il img ow w = (Some i, w')"
  note k = GetOrCreate_kept [OF this registry_reachable_ok [OF reach], THEN conjunct2, rule_format, OF refl]
  show "tw_live_target w' i" using k by (rule conjunct1)
  show "et_entry (tw_target w' i) = entry"
    "et_owner (tw_target w' i) = owner_of_image ow img"
    using k [THEN conjunct2] by (simp_all only: target_key_def prod.inject)
qed

theorem entry_target_placed_witness:
  "fst (GetOrCreate 0x1000 16 0 1 IdentityUnknown 0 0 3 sample_owner empty_world) = Some 0 \<and>
   tw_live_target world1 0 \<and> et_entry (tw_target world1 0) = 0x1000 \<and>
   (\<exists>p. et_payload (tw_target world1 0) = Some p \<and> pl_owner (tw_payload world1 p) = sample_owner)"
proof -
  have g: "GetOrCreate 0x1000 16 0 1 IdentityUnknown 0 0 3 sample_owner empty_world = (Some 0, world1)"
    unfolding world1_def by (rule prod_eqI) (code_simp, simp)
  have o: "et_owner (tw_target world1 0) = sample_owner" and l: "tw_live_target world1 0" by code_simp+
  have "\<exists>p. et_payload (tw_target world1 0) = Some p \<and> pl_owner (tw_payload world1 p) = et_owner (tw_target world1 0)"
    using entry_target_placed [OF world_reachable(2), THEN conjunct1, rule_format, OF l] by metis
  moreover have "et_entry (tw_target world1 0) = 0x1000"
    using entry_target_placed [OF world_reachable(1), of "0x1000" 16 0 1 IdentityUnknown 0 0 3 sample_owner 0 world1] g by simp
  ultimately show ?thesis using g o l by simp
qed

text \<open>
  C20: a hooked target is never moved and shared code never becomes unique again. Whatever the
  registry and its clients do next, a held target keeps its entry, its owner and its code size; as
  long as a hook is bound to it, it keeps its payload; once it counts as shared it stays shared,
  and then it is never reported as uniquely identified; no alias is forgotten.
\<close>

theorem hooked_target_keeps_payload:
  assumes reach: "registry_reachable w" and step: "registry_step w w'" and live: "tw_live_target w i" "tw_live_target w' i"
  shows "et_entry (tw_target w' i) = et_entry (tw_target w i) \<and> et_owner (tw_target w' i) = et_owner (tw_target w i) \<and>
    et_code_size (tw_target w' i) = et_code_size (tw_target w i) \<and>
    (et_hook_record (tw_target w i) \<noteq> None \<longrightarrow> et_payload (tw_target w' i) = et_payload (tw_target w i)) \<and>
    (IsShared (tw_target w i) \<longrightarrow> IsShared (tw_target w' i) \<and> \<not> HasProvenUniqueIdentity (tw_target w' i)) \<and>
    (\<forall>a. HasAlias (tw_target w i) a \<longrightarrow> HasAlias (tw_target w' i) a)"
proof -
  have ok: "registry_ok w" by (rule registry_reachable_ok [OF reach])
  have k: "evidence_kept (tw_target w i) (tw_target w' i)"
    using step_kept [OF step ok] live by (auto simp: targets_kept_def)
  have size: "et_code_size (tw_target w i) \<noteq> 0"
    using ok live by (auto simp: registry_ok_def target_placed_def placed_in_def)
  have e: "evidence_ok (tw_target w i)" using reachable_evidence [OF reach] live by blast
  have e': "evidence_ok (tw_target w' i)" using reachable_evidence [OF reach_step [OF reach step]] live by blast
  show ?thesis
    using k size shared_iff [OF e] shared_iff [OF e']
    by (auto simp: evidence_kept_def target_key_def HasAlias_def HasProvenUniqueIdentity_def)
qed

theorem hooked_target_keeps_payload_witness:
  "et_hook_record (tw_target world2 0) = Some 7 \<and> et_payload (tw_target world3 0) = Some 0 \<and>
   et_code_size (tw_target world3 0) = 16"
proof -
  have live: "tw_live_target world2 0" "tw_live_target world3 0" by code_simp+
  have h: "et_hook_record (tw_target world2 0) = Some 7" "et_payload (tw_target world2 0) = Some 0"
    "et_code_size (tw_target world2 0) = 16" by code_simp+
  show ?thesis using hooked_target_keeps_payload [OF world_reachable(3,4) live] h by simp
qed

end
