(* ===== verification/Hook_Registry.thy ===== *)
theory Hook_Registry
  imports Gate_Protocol Entry_Targets Vm_Adapter Abi_Types
begin

text \<open>
  The registry of hooks and listeners (\<^verbatim>\<open>src/core/hook_registry.cpp\<close>, with the records of
  \<^verbatim>\<open>src/core/internal.h\<close> and \<^verbatim>\<open>src/core/method_model.h\<close>). Hooks, listeners, generation
  counters and adapters are named by their address, a natural number; a vector of shared
  pointers is a list of names. The gate of a hook is the one of \<open>Publication_Gate\<close>, its
  adapters those of \<open>Vm_Adapter\<close> and its entry target one of \<open>Entry_Targets\<close>.

  Every operation here runs under the registry's mutex or the hook's, so it is one step;
  the interleaving of the gate's words with the dispatcher is \<open>Gate_Protocol\<close>. Whether the
  return interception of a hook could be restored is an argument \<open>restore\<close> (the operation is
  \<open>RestoreArm64ReturnInterception\<close> of \<open>Return_Interception\<close>), a function of the hook's name.
  Running out of memory and last-error texts are left out.
\<close>

section \<open>Methods and options\<close>

datatype function_source = SourceLegacyMetadata | SourceOfflineIndex | SourceLiveVm | SourceSynthetic

record dart_function =
  df_source :: function_source
  df_owner :: owner_identity
  df_identity :: method_identity
  df_target :: "nat option"
  df_closure_call_entry_only :: bool
  df_live_observation_receipt :: bool
  df_function_object :: u64
  df_code_object :: u64
  df_profile_version :: u32
  df_isolate_group_identity :: u64
  df_jump_to_frame_offset :: u32

record hook_method =
  hm_function :: "dart_function option"
  hm_entry_kind :: u32
  hm_generation :: "nat option"
  hm_expected :: u64

record hook_options =
  ho_struct_size :: u32
  ho_flags :: u32
  ho_on_enter :: bool
  ho_on_leave :: bool
  ho_adapter :: "nat option"

definition kHookOptionsSize :: u32 where "kHookOptionsSize = 40"
definition HOOK_ALLOW_SHARED_CODE :: u32 where "HOOK_ALLOW_SHARED_CODE = 1"

definition ValidCallbackOptions :: "hook_options \<Rightarrow> bool" where
  "ValidCallbackOptions options \<longleftrightarrow> ho_struct_size options \<ge> kHookOptionsSize \<and>
     ho_flags options AND NOT HOOK_ALLOW_SHARED_CODE = 0 \<and>
     (ho_on_enter options \<or> ho_on_leave options)"

definition AllowsSharedCode :: "hook_options \<Rightarrow> bool" where
  "AllowsSharedCode options \<longleftrightarrow> ho_flags options AND HOOK_ALLOW_SHARED_CODE \<noteq> 0"

definition MethodTarget :: "target_world \<Rightarrow> hook_method nullable \<Rightarrow> ptr" where
  "MethodTarget w m =
     (case m of None \<Rightarrow> 0
      | Some m \<Rightarrow> (case hm_function m of None \<Rightarrow> 0
          | Some f \<Rightarrow> (case df_target f of None \<Rightarrow> 0 | Some t \<Rightarrow> et_entry (tw_target w t))))"

definition HasSharedCodeEvidence :: "target_world \<Rightarrow> hook_method \<Rightarrow> bool" where
  "HasSharedCodeEvidence w m =
     (case hm_function m of None \<Rightarrow> False
      | Some f \<Rightarrow> (case df_target f of None \<Rightarrow> False
          | Some t \<Rightarrow> IsShared (tw_target w t) \<and> HasAlias (tw_target w t) (df_identity f)))"

section \<open>Records\<close>

text \<open>The register map a caller may give instead of a verified layout.\<close>

datatype legacy_kind = LegacyGp | LegacyFp

record legacy_location =
  ll_kind :: legacy_kind
  ll_index :: u8

record legacy_profile =
  lp_flags :: u32
  lp_argument_count :: u32
  lp_arguments :: "legacy_location list"
  lp_result :: legacy_location

definition legacy_profile_0 :: legacy_profile where
  "legacy_profile_0 = \<lparr>lp_flags = 0, lp_argument_count = 0, lp_arguments = [],
     lp_result = \<lparr>ll_kind = LegacyGp, ll_index = 0\<rparr>\<rparr>"

record exception_binding =
  xb_verified :: bool
  xb_target :: ptr
  xb_thread_offset :: u32
  xb_artifact_generation :: u64
  xb_isolate_generation :: u64
  xb_profile_version :: u32
  xb_domain_key :: string

text \<open>A priority is only ever compared, so it is an integer.\<close>

record listener_record =
  lr_id :: u64
  lr_priority :: int
  lr_order :: u64
  lr_options :: hook_options
  lr_adapter :: "nat option"
  lr_generation :: "nat option"
  lr_expected :: u64
  lr_null_value :: u64
  lr_true_value :: u64
  lr_false_value :: u64
  lr_layout :: "call_layout option"
  lr_exception :: exception_binding
  lr_retained :: bool
  lr_method :: "hook_method option"
  lr_active :: bool
  lr_in_flight :: u64
  lr_on_exception :: bool

record hook_record =
  hk_target :: "nat option"
  hk_backup :: ptr
  hk_active :: bool
  hk_has_method :: bool
  hk_shared_code_opt_in :: bool
  hk_state :: rec_state
  hk_next_listener_id :: u64
  hk_next_order :: u64
  hk_in_flight :: u64
  hk_listener_handles :: u64
  hk_release_requested :: bool
  hk_listeners :: "nat list"
  hk_adapter :: "nat option"
  hk_adapter_retained :: bool
  hk_binding :: "host_binding option"
  hk_backend_installed :: bool
  hk_entry_published :: bool
  hk_entry_ready :: bool
  hk_published :: "published_hook option"
  hk_generation :: "nat option"
  hk_expected :: u64
  hk_replacement :: ptr
  hk_replacement_size :: u64
  hk_bridge_consumer :: bool
  hk_method :: "hook_method option"
  hk_profile :: legacy_profile
  hk_layout :: "call_layout option"
  hk_null_value :: u64
  hk_true_value :: u64
  hk_false_value :: u64

record registry =
  hr_hooks :: "nat list"
  hr_retained_hooks :: "nat list"
  hr_hook :: "nat \<Rightarrow> hook_record"
  hr_next_hook :: nat
  hr_listener :: "nat \<Rightarrow> listener_record"
  hr_next_listener :: nat
  hr_generation :: "nat \<Rightarrow> u64"
  hr_adapter :: "nat \<Rightarrow> vm_adapter"
  hr_world :: target_world
  hr_binding :: "host_binding nullable"
  hr_bridge_consumers :: u64

definition set_hook :: "nat \<Rightarrow> hook_record \<Rightarrow> registry \<Rightarrow> registry" where
  "set_hook i h s = s\<lparr>hr_hook := (hr_hook s)(i := h)\<rparr>"

definition set_listener :: "nat \<Rightarrow> listener_record \<Rightarrow> registry \<Rightarrow> registry" where
  "set_listener l r s = s\<lparr>hr_listener := (hr_listener s)(l := r)\<rparr>"

definition set_adapter :: "nat \<Rightarrow> vm_adapter \<Rightarrow> registry \<Rightarrow> registry" where
  "set_adapter a v s = s\<lparr>hr_adapter := (hr_adapter s)(a := v)\<rparr>"

section \<open>Listeners\<close>

definition ReleaseListenerVmAdapterIfIdle :: "nat \<Rightarrow> registry \<Rightarrow> registry" where
  "ReleaseListenerVmAdapterIfIdle l s =
     (let r = hr_listener s l in
      case lr_adapter r of
        None \<Rightarrow> s
      | Some a \<Rightarrow>
          if lr_active r \<or> lr_in_flight r \<noteq> 0 then s
          else if lr_retained r
          then set_adapter a (VmAdapterReleaseHook (hr_adapter s a))
                 (set_listener l (r\<lparr>lr_retained := False\<rparr>) s)
          else s)"

text \<open>The destructor of a record, run when its last reference goes.\<close>

definition DestroyListenerRecord :: "nat \<Rightarrow> registry \<Rightarrow> registry" where
  "DestroyListenerRecord l s =
     (let r = hr_listener s l; s1 = set_listener l (r\<lparr>lr_retained := False\<rparr>) s in
      case (lr_retained r, lr_adapter r) of
        (True, Some a) \<Rightarrow> set_adapter a (VmAdapterReleaseHook (hr_adapter s a)) s1
      | _ \<Rightarrow> s1)"

text \<open>What a listener is made from, in the order of the parameters.\<close>

record listener_request =
  lq_method :: "hook_method nullable"
  lq_options :: hook_options
  lq_priority :: int
  lq_generation :: "nat option"
  lq_expected :: u64
  lq_null_value :: u64
  lq_true_value :: u64
  lq_false_value :: u64
  lq_layout :: "call_layout option"
  lq_exception :: exception_binding

definition new_listener :: "listener_request \<Rightarrow> hook_record \<Rightarrow> listener_record" where
  "new_listener q h =
     \<lparr>lr_id = hk_next_listener_id h, lr_priority = lq_priority q, lr_order = hk_next_order h,
      lr_options = lq_options q, lr_adapter = ho_adapter (lq_options q),
      lr_generation = (if lq_generation q \<noteq> None then lq_generation q
         else Option.bind (lq_method q) hm_generation),
      lr_expected = (if lq_expected q \<noteq> 0 then lq_expected q
         else (case lq_method q of None \<Rightarrow> 0 | Some m \<Rightarrow> hm_expected m)),
      lr_null_value = lq_null_value q, lr_true_value = lq_true_value q,
      lr_false_value = lq_false_value q, lr_layout = lq_layout q, lr_exception = lq_exception q,
      lr_retained = (ho_adapter (lq_options q) \<noteq> None), lr_method = lq_method q,
      lr_active = True, lr_in_flight = 0, lr_on_exception = False\<rparr>"

definition MakeListenerLocked :: "nat \<Rightarrow> listener_request \<Rightarrow> registry \<Rightarrow> nat \<times> registry" where
  "MakeListenerLocked i q s =
     (let h = hr_hook s i; l = hr_next_listener s;
          s1 = set_hook i (h\<lparr>hk_next_listener_id := hk_next_listener_id h + 1,
                             hk_next_order := hk_next_order h + 1\<rparr>)
                 (set_listener l (new_listener q h) (s\<lparr>hr_next_listener := l + 1\<rparr>))
      in (l, case ho_adapter (lq_options q) of
               None \<Rightarrow> s1
             | Some a \<Rightarrow> set_adapter a (VmAdapterRetainHook (hr_adapter s1 a)) s1))"

definition listener_precedes :: "listener_record \<Rightarrow> listener_record \<Rightarrow> bool" where
  "listener_precedes v c =
     (if lr_priority v \<noteq> lr_priority c then lr_priority v > lr_priority c
      else lr_order v < lr_order c)"

text \<open>
  \<open>std::upper_bound\<close> on a list ordered by the comparison: the first element the new one
  precedes.
\<close>

fun insert_listener :: "(nat \<Rightarrow> listener_record) \<Rightarrow> nat \<Rightarrow> nat list \<Rightarrow> nat list" where
  "insert_listener rec l [] = [l]"
| "insert_listener rec l (c # cs) =
     (if listener_precedes (rec l) (rec c) then l # c # cs else c # insert_listener rec l cs)"

definition InsertListenerLocked :: "nat \<Rightarrow> nat \<Rightarrow> registry \<Rightarrow> registry" where
  "InsertListenerLocked i l s =
     (let h = hr_hook s i in
      set_hook i (h\<lparr>hk_listeners := insert_listener (hr_listener s) l (hk_listeners h)\<rparr>) s)"

definition deactivate_listener :: "nat \<Rightarrow> registry \<Rightarrow> registry" where
  "deactivate_listener l s =
     ReleaseListenerVmAdapterIfIdle l
       (set_listener l ((hr_listener s l)\<lparr>lr_active := False\<rparr>) s)"

text \<open>
  \<open>std::remove_if\<close> visits the listeners in order; a listener that goes is deactivated on the
  way.
\<close>

fun remove_matching :: "(listener_record \<Rightarrow> bool) \<Rightarrow> nat list \<Rightarrow> registry \<Rightarrow> nat list \<times> registry" where
  "remove_matching P [] s = ([], s)"
| "remove_matching P (l # ls) s =
     (if \<not> P (hr_listener s l)
      then (case remove_matching P ls s of (kept, s') \<Rightarrow> (l # kept, s'))
      else remove_matching P ls (deactivate_listener l s))"

definition RemoveMatchingListenersLocked :: "nat \<Rightarrow> (listener_record \<Rightarrow> bool) \<Rightarrow> registry \<Rightarrow>
    bool \<times> registry" where
  "RemoveMatchingListenersLocked i P s =
     (case remove_matching P (hk_listeners (hr_hook s i)) s of
        (kept, s') \<Rightarrow>
          (length kept \<noteq> length (hk_listeners (hr_hook s i)),
           set_hook i ((hr_hook s' i)\<lparr>hk_listeners := kept\<rparr>) s'))"

section \<open>Invocations\<close>

text \<open>\<open>profile_at\<close> is the address of an entry of the generated profile table.\<close>

definition binding_matches :: "(nat \<Rightarrow> ptr) \<Rightarrow> vm_adapter \<Rightarrow> u64 \<Rightarrow> ptr \<Rightarrow> call_layout \<Rightarrow> bool" where
  "binding_matches profile_at a capability expected cl =
     (case VmAdapterGetCapabilityBinding True capability a of
        Inl e \<Rightarrow> False
      | Inr (p, profile) \<Rightarrow> profile_at profile = expected \<and>
          cp_artifact_generation p = cl_vm_artifact_generation cl \<and>
          cp_isolate_generation p = cl_vm_isolate_generation cl)"

definition generation_current :: "registry \<Rightarrow> listener_record \<Rightarrow> bool" where
  "generation_current s r =
     (case lr_generation r of
        None \<Rightarrow> True
      | Some g \<Rightarrow> lr_expected r \<noteq> 0 \<and> hr_generation s g = lr_expected r)"

definition abi_binding_current :: "(nat \<Rightarrow> ptr) \<Rightarrow> registry \<Rightarrow> listener_record \<Rightarrow> bool" where
  "abi_binding_current profile_at s r =
     (case (lr_adapter r, lr_layout r) of
        (Some a, Some cl) \<Rightarrow>
          cl_vm_artifact_generation cl = 0 \<or>
          binding_matches profile_at (hr_adapter s a) (CapabilityForEvidence EvInvocationCallAbi)
            (cl_vm_call_profile cl) cl \<and>
          (cl_closure_signature cl = None \<or>
           binding_matches profile_at (hr_adapter s a) (CapabilityForEvidence EvFunctionType)
             (cl_vm_object_profile cl) cl)
      | _ \<Rightarrow> True)"

definition listener_admitted :: "(nat \<Rightarrow> ptr) \<Rightarrow> registry \<Rightarrow> listener_record \<Rightarrow> bool" where
  "listener_admitted profile_at s r \<longleftrightarrow> lr_active r \<and> generation_current s r \<and>
     (case lr_adapter r of None \<Rightarrow> True | Some a \<Rightarrow> VmAdapterAdmissionOpen (hr_adapter s a)) \<and>
     abi_binding_current profile_at s r"

definition enter_listener :: "nat \<Rightarrow> registry \<Rightarrow> registry" where
  "enter_listener l s =
     set_listener l ((hr_listener s l)\<lparr>lr_in_flight := lr_in_flight (hr_listener s l) + 1\<rparr>) s"

fun admit_listeners :: "(nat \<Rightarrow> ptr) \<Rightarrow> nat list \<Rightarrow> registry \<Rightarrow> nat list \<times> registry" where
  "admit_listeners profile_at [] s = ([], s)"
| "admit_listeners profile_at (l # ls) s =
     (if listener_admitted profile_at s (hr_listener s l)
      then (case admit_listeners profile_at ls (enter_listener l s) of (ad, s') \<Rightarrow> (l # ad, s'))
      else admit_listeners profile_at ls s)"

text \<open>The hooks' own test is \<open>begin_admits\<close> of \<open>Gate_Protocol\<close> for a gated hook.\<close>

definition BeginInvocation :: "(nat \<Rightarrow> ptr) \<Rightarrow> nat \<Rightarrow> registry \<Rightarrow> bool \<times> nat list \<times> registry" where
  "BeginInvocation profile_at i s =
     (let h = hr_hook s i in
      if \<not> hk_has_method h \<or> hk_state h = RRetired \<or> hk_state h = RUnhooked \<or>
         hk_state h = RInstalling then (False, [], s)
      else if hk_state h = RFailed \<and> \<not> (hk_published h \<noteq> None \<and> hk_backend_installed h)
      then (False, [], s)
      else
        let s = set_hook i (h\<lparr>hk_in_flight := hk_in_flight h + 1\<rparr>) s in
        if hk_state h \<noteq> RInstalled \<or> \<not> hk_active h then (True, [], s)
        else (True, admit_listeners profile_at (hk_listeners h) s))"

text \<open>The dispatcher's release of a listener it entered.\<close>

definition exit_listener :: "nat \<Rightarrow> registry \<Rightarrow> registry" where
  "exit_listener l s =
     ReleaseListenerVmAdapterIfIdle l
       (set_listener l ((hr_listener s l)\<lparr>lr_in_flight := lr_in_flight (hr_listener s l) - 1\<rparr>) s)"

section \<open>Unhooking\<close>

definition ReleaseArm64ExceptionBridgeConsumer :: "nat \<Rightarrow> registry \<Rightarrow> registry" where
  "ReleaseArm64ExceptionBridgeConsumer i s =
     (if \<not> hk_bridge_consumer (hr_hook s i) then s
      else
        let s1 = set_hook i ((hr_hook s i)\<lparr>hk_bridge_consumer := False\<rparr>) s in
        if hr_bridge_consumers s1 \<noteq> 0
        then s1\<lparr>hr_bridge_consumers := hr_bridge_consumers s1 - 1\<rparr> else s1)"

definition RegisterArm64ExceptionBridgeConsumer :: "nat \<Rightarrow> registry \<Rightarrow> registry" where
  "RegisterArm64ExceptionBridgeConsumer i s =
     (if hk_bridge_consumer (hr_hook s i) then s
      else (set_hook i ((hr_hook s i)\<lparr>hk_bridge_consumer := True\<rparr>) s)
             \<lparr>hr_bridge_consumers := hr_bridge_consumers s + 1\<rparr>)"

definition HookTarget :: "registry \<Rightarrow> hook_record \<Rightarrow> ptr" where
  "HookTarget s h = (case hk_target h of None \<Rightarrow> 0 | Some t \<Rightarrow> et_entry (tw_target (hr_world s) t))"

definition fail_hook :: "nat \<Rightarrow> registry \<Rightarrow> registry" where
  "fail_hook i s = set_hook i ((hr_hook s i)\<lparr>hk_state := RFailed\<rparr>) s"

text \<open>
  Taking the backend's patch away: \<open>Some\<close> is the early return of \<open>FinishUnhookLocked\<close>, with
  its status; a deferred unhook returns \<open>DP_OK\<close>.
\<close>

definition remove_backend :: "nat \<Rightarrow> registry \<Rightarrow> dp_status option \<times> registry" where
  "remove_backend i s =
     (let h = hr_hook s i in
      case hk_published h of
        Some p \<Rightarrow>
          if \<not> hk_backend_installed h then (None, s)
          else
            let draining = BeginDrainPublishedHostHook (Some p);
                s1 = set_hook i (h\<lparr>hk_published := draining\<rparr>) s
            in if hk_in_flight h \<noteq> 0 then (Some DP_OK, s1)
            else (case ClosePublishedHostHook draining of
                (False, unclosed) \<Rightarrow> (Some DP_OK, set_hook i (h\<lparr>hk_published := unclosed\<rparr>) s)
              | (True, closed) \<Rightarrow>
                  (case UninstallPublishedHostHook closed of
                     (status, after) \<Rightarrow>
                       let installed = (case after of None \<Rightarrow> False | Some q \<Rightarrow> ph_backend_installed q);
                           s2 = set_hook i (h\<lparr>hk_published := after,
                                              hk_backend_installed := installed\<rparr>) s
                       in if status \<noteq> DP_OK then (Some status, fail_hook i s2) else (None, s2)))
      | None \<Rightarrow>
          if \<not> hk_backend_installed h then (None, s)
          else
            let binding = (case hk_binding h of None \<Rightarrow> hr_binding s | Some b \<Rightarrow> Some b);
                target = HookTarget s h;
                unhooked = target \<noteq> 0 \<and>
                  (case Option.bind binding hb_unhook of None \<Rightarrow> False | Some f \<Rightarrow> f target = 0)
            in if \<not> unhooked then (Some DP_UNHOOK_FAILED, fail_hook i s)
               else (None, set_hook i (h\<lparr>hk_backend_installed := False\<rparr>) s))"

definition unbind_target :: "nat \<Rightarrow> registry \<Rightarrow> registry" where
  "unbind_target i s =
     (case hk_target (hr_hook s i) of
        None \<Rightarrow> s
      | Some t \<Rightarrow> s\<lparr>hr_world := set_target t (UnbindHookRecord i (tw_target (hr_world s) t)) (hr_world s)\<rparr>)"

definition FinishUnhookLocked :: "(nat \<Rightarrow> bool) \<Rightarrow> nat \<Rightarrow> registry \<Rightarrow> dp_status \<times> registry" where
  "FinishUnhookLocked restore i s =
     (case remove_backend i s of
        (Some status, s1) \<Rightarrow> (status, s1)
      | (None, s1) \<Rightarrow>
          let s2 = set_hook i ((hr_hook s1 i)\<lparr>hk_active := False\<rparr>) s1 in
          if \<not> restore i then (DP_UNHOOK_FAILED, fail_hook i s2)
          else
            let s3 = ReleaseArm64ExceptionBridgeConsumer i
                       (set_hook i ((hr_hook s2 i)\<lparr>hk_entry_ready := False\<rparr>) s2);
                s4 = unbind_target i s3;
                h = hr_hook s4 i;
                s5 = set_hook i (h\<lparr>hk_state := RUnhooked,
                       hk_adapter := (if hk_adapter_retained h then None else hk_adapter h),
                       hk_adapter_retained := False\<rparr>) s4
            in (DP_OK, case (hk_adapter_retained h, hk_adapter h) of
                         (True, Some a) \<Rightarrow> set_adapter a (VmAdapterReleaseHook (hr_adapter s5 a)) s5
                       | _ \<Rightarrow> s5))"

definition UnhookRecordLocked :: "(nat \<Rightarrow> bool) \<Rightarrow> nat \<Rightarrow> registry \<Rightarrow> dp_status \<times> registry" where
  "UnhookRecordLocked restore i s =
     (let h = hr_hook s i in
      if hk_state h = RUnhooked then (DP_OK, s)
      else if hk_state h = RRetired then (DP_UNHOOK_FAILED, s)
      else if hk_state h = RUnhooking then (DP_OK, s)
      else
        let s1 = fold deactivate_listener (hk_listeners h)
                   (set_hook i (h\<lparr>hk_state := RUnhooking, hk_active := False\<rparr>) s);
            s2 = set_hook i ((hr_hook s1 i)\<lparr>hk_listeners := [],
                   hk_published := (if hk_published h \<noteq> None \<and> hk_backend_installed h
                                    then BeginDrainPublishedHostHook (hk_published h)
                                    else hk_published h)\<rparr>) s1
        in if hk_in_flight h \<noteq> 0 then (DP_OK, s2) else FinishUnhookLocked restore i s2)"

definition InvocationExited :: "(nat \<Rightarrow> bool) \<Rightarrow> nat \<Rightarrow> registry \<Rightarrow> registry" where
  "InvocationExited restore i s =
     (let h = hr_hook s i;
          n = (if hk_in_flight h \<noteq> 0 then hk_in_flight h - 1 else hk_in_flight h);
          s1 = set_hook i (h\<lparr>hk_in_flight := n\<rparr>) s
      in if n = 0 \<and> hk_state h = RUnhooking then snd (FinishUnhookLocked restore i s1) else s1)"

definition RemoveHook :: "(nat \<Rightarrow> bool) \<Rightarrow> nat option \<Rightarrow> registry \<Rightarrow> dp_status \<times> registry" where
  "RemoveHook restore hook s =
     (case hook of None \<Rightarrow> (DP_INVALID_ARGUMENT, s) | Some i \<Rightarrow> UnhookRecordLocked restore i s)"

section \<open>Invalidation and retirement\<close>

text \<open>
  One hook of the loops that take an owner's listeners away: \<open>skip\<close> are the states passed over,
  \<open>fallback\<close> decides for a hook without listeners and \<open>P\<close> for a listener. A hook left without
  listeners is unhooked.
\<close>

definition invalidate_one :: "(nat \<Rightarrow> bool) \<Rightarrow> (rec_state \<Rightarrow> bool) \<Rightarrow> (registry \<Rightarrow> hook_record \<Rightarrow> bool) \<Rightarrow>
    (listener_record \<Rightarrow> bool) \<Rightarrow> nat \<Rightarrow> registry \<Rightarrow> dp_status \<times> registry" where
  "invalidate_one restore skip fallback P i s =
     (let h = hr_hook s i in
      if skip (hk_state h) then (DP_OK, s)
      else
        (case (if hk_listeners h = [] then (fallback s h, s)
               else RemoveMatchingListenersLocked i P s) of
           (matched, s1) \<Rightarrow>
             if \<not> matched \<or> hk_listeners (hr_hook s1 i) \<noteq> [] then (DP_OK, s1)
             else UnhookRecordLocked restore i s1))"

text \<open>The status is the last one that is not \<open>DP_OK\<close>.\<close>

fun over_hooks :: "(nat \<Rightarrow> registry \<Rightarrow> dp_status \<times> registry) \<Rightarrow> nat list \<Rightarrow> dp_status \<Rightarrow> registry \<Rightarrow>
    dp_status \<times> registry" where
  "over_hooks f [] status s = (status, s)"
| "over_hooks f (i # is) status s =
     (case f i s of (st, s') \<Rightarrow> over_hooks f is (if st \<noteq> DP_OK then st else status) s')"

definition of_generation :: "nat \<Rightarrow> listener_record \<Rightarrow> bool" where
  "of_generation g r \<longleftrightarrow> lr_generation r = Some g"

definition owner_is :: "u64 \<Rightarrow> u64 \<Rightarrow> owner_identity \<Rightarrow> bool" where
  "owner_is img epoch ow \<longleftrightarrow> oi_image_id ow = img \<and> (epoch = 0 \<or> oi_image_epoch ow = epoch)"

definition of_image :: "nat \<Rightarrow> u64 \<Rightarrow> u64 \<Rightarrow> listener_record \<Rightarrow> bool" where
  "of_image g img epoch r \<longleftrightarrow> lr_generation r = Some g \<and>
     (case Option.bind (lr_method r) hm_function of
        None \<Rightarrow> False
      | Some f \<Rightarrow> owner_is img epoch (df_owner f))"

definition hook_of_image :: "nat \<Rightarrow> u64 \<Rightarrow> u64 \<Rightarrow> registry \<Rightarrow> hook_record \<Rightarrow> bool" where
  "hook_of_image g img epoch s h \<longleftrightarrow> hk_generation h = Some g \<and>
     (case hk_target h of
        None \<Rightarrow> False
      | Some t \<Rightarrow> et_image_id (tw_target (hr_world s) t) = img \<and>
          (epoch = 0 \<or> oi_image_epoch (et_owner (tw_target (hr_world s) t)) = epoch))"

definition InvalidateRuntimeHooks :: "(nat \<Rightarrow> bool) \<Rightarrow> nat option \<Rightarrow> registry \<Rightarrow> dp_status \<times> registry" where
  "InvalidateRuntimeHooks restore generation s =
     (case generation of
        None \<Rightarrow> (DP_OK, s)
      | Some g \<Rightarrow> over_hooks (invalidate_one restore (\<lambda>st. st = RRetired)
                    (\<lambda>s h. hk_generation h = Some g) (of_generation g)) (hr_hooks s) DP_OK s)"

definition InvalidateRuntimeImageHooks :: "(nat \<Rightarrow> bool) \<Rightarrow> nat option \<Rightarrow> u64 \<Rightarrow> u64 \<Rightarrow> registry \<Rightarrow>
    dp_status \<times> registry" where
  "InvalidateRuntimeImageHooks restore generation img epoch s =
     (case generation of
        None \<Rightarrow> (DP_OK, s)
      | Some g \<Rightarrow>
          if img = 0 then (DP_OK, s)
          else over_hooks (invalidate_one restore (\<lambda>st. st = RRetired)
                 (hook_of_image g img epoch) (of_image g img epoch)) (hr_hooks s) DP_OK s)"

definition QuiesceVmAdapterHooks :: "(nat \<Rightarrow> bool) \<Rightarrow> nat option \<Rightarrow> registry \<Rightarrow> dp_status \<times> registry" where
  "QuiesceVmAdapterHooks restore adapter s =
     (case adapter of
        None \<Rightarrow> (DP_INVALID_ARGUMENT, s)
      | Some a \<Rightarrow>
          over_hooks (invalidate_one restore (\<lambda>st. st = RRetired \<or> st = RUnhooked)
              (\<lambda>s h. hk_adapter h = Some a \<and> hk_adapter_retained h) (\<lambda>r. lr_adapter r = Some a))
            (hr_hooks s) DP_OK (set_adapter a (VmAdapterCloseAdmission (hr_adapter s a)) s))"

definition retire_hook :: "nat \<Rightarrow> registry \<Rightarrow> registry" where
  "retire_hook i s =
     ReleaseArm64ExceptionBridgeConsumer i
       (set_hook i ((hr_hook s i)\<lparr>hk_active := False, hk_state := RRetired\<rparr>) s)"

definition retire_generation :: "nat \<Rightarrow> nat \<Rightarrow> registry \<Rightarrow> registry" where
  "retire_generation g i s =
     (let h = hr_hook s i in
      if hk_state h = RUnhooked then s
      else
        (case (if hk_listeners h = [] then (hk_generation h = Some g, s)
               else RemoveMatchingListenersLocked i (of_generation g) s) of
           (matched, s1) \<Rightarrow>
             if \<not> matched \<or> hk_listeners (hr_hook s1 i) \<noteq> [] then s1 else retire_hook i s1))"

definition RetireRuntimeHooks :: "nat option \<Rightarrow> registry \<Rightarrow> registry" where
  "RetireRuntimeHooks generation s =
     (case generation of None \<Rightarrow> s | Some g \<Rightarrow> fold (retire_generation g) (hr_hooks s) s)"

text \<open>Once the mapping is gone every listener of a matching hook goes, whoever owns it.\<close>

definition retire_image :: "nat \<Rightarrow> u64 \<Rightarrow> u64 \<Rightarrow> nat \<Rightarrow> registry \<Rightarrow> registry" where
  "retire_image g img epoch i s =
     (let h = hr_hook s i in
      if hk_state h = RUnhooked then s
      else if \<not> (if hk_listeners h = [] then hook_of_image g img epoch s h
                 else list_ex (\<lambda>l. of_image g img epoch (hr_listener s l)) (hk_listeners h))
      then s
      else
        let s1 = fold deactivate_listener (hk_listeners h) (set_hook i (h\<lparr>hk_active := False\<rparr>) s)
        in retire_hook i (set_hook i ((hr_hook s1 i)\<lparr>hk_listeners := []\<rparr>) s1))"

definition RetireRuntimeImageHooks :: "nat option \<Rightarrow> u64 \<Rightarrow> u64 \<Rightarrow> registry \<Rightarrow> registry" where
  "RetireRuntimeImageHooks generation img epoch s =
     (case generation of
        None \<Rightarrow> s
      | Some g \<Rightarrow> if img = 0 then s else fold (retire_image g img epoch) (hr_hooks s) s)"

section \<open>Installing and releasing\<close>

definition FindHookLocked :: "ptr \<Rightarrow> registry \<Rightarrow> nat option" where
  "FindHookLocked target s =
     find (\<lambda>i. HookTarget s (hr_hook s i) = target \<and> hk_state (hr_hook s i) \<noteq> RUnhooked) (hr_hooks s)"

definition IsTargetHooked :: "ptr \<Rightarrow> registry \<Rightarrow> bool" where
  "IsTargetHooked target s =
     (case FindHookLocked target s of None \<Rightarrow> False | Some i \<Rightarrow> hk_active (hr_hook s i))"

definition new_hook :: "nat option \<Rightarrow> hook_record" where
  "new_hook target =
     \<lparr>hk_target = target, hk_backup = 0, hk_active = False, hk_has_method = False,
      hk_shared_code_opt_in = False, hk_state = RCreated, hk_next_listener_id = 1,
      hk_next_order = 1, hk_in_flight = 0, hk_listener_handles = 0, hk_release_requested = False,
      hk_listeners = [], hk_adapter = None, hk_adapter_retained = False, hk_binding = None,
      hk_backend_installed = False, hk_entry_published = False, hk_entry_ready = False,
      hk_published = None, hk_generation = None, hk_expected = 0, hk_replacement = 0,
      hk_replacement_size = 0, hk_bridge_consumer = False, hk_method = None,
      hk_profile = legacy_profile_0, hk_layout = None,
      hk_null_value = 0, hk_true_value = 0, hk_false_value = 0\<rparr>"

definition add_hook :: "nat \<Rightarrow> hook_record \<Rightarrow> registry \<Rightarrow> registry" where
  "add_hook i h s =
     (set_hook i h s)\<lparr>hr_hooks := hr_hooks s @ [i], hr_next_hook := i + 1\<rparr>"

definition bind_target :: "nat \<Rightarrow> registry \<Rightarrow> registry" where
  "bind_target i s =
     (case hk_target (hr_hook s i) of
        None \<Rightarrow> s
      | Some t \<Rightarrow> s\<lparr>hr_world := set_target t (BindHookRecord (Some i) (tw_target (hr_world s) t)) (hr_world s)\<rparr>)"

definition usable_binding :: "host_binding nullable \<Rightarrow>
    ((ptr \<Rightarrow> ptr \<Rightarrow> int \<times> ptr) \<times> (ptr \<Rightarrow> int)) option" where
  "usable_binding binding =
     (case binding of
        None \<Rightarrow> None
      | Some b \<Rightarrow> (case (hb_hook b, hb_unhook b) of (Some f, Some g) \<Rightarrow> Some (f, g) | _ \<Rightarrow> None))"

text \<open>
  The raw hook. \<open>outputs\<close> says that the two output pointers are given and \<open>captured\<close> is the answer
  of \<open>CaptureManagedPatchedBytes\<close>. The result holds the trampoline and the new record.
\<close>

definition InstallHook :: "bool \<Rightarrow> bool \<Rightarrow> nat option \<Rightarrow> ptr \<Rightarrow> registry \<Rightarrow>
    dp_status \<times> (ptr \<times> nat) option \<times> registry" where
  "InstallHook outputs captured code_target replacement s =
     (let target = HookTarget s (new_hook code_target); i = hr_next_hook s in
      if target = 0 \<or> replacement = 0 \<or> \<not> outputs then (DP_INVALID_ARGUMENT, None, s)
      else case usable_binding (hr_binding s) of
        None \<Rightarrow> (DP_HOST_API_UNAVAILABLE, None, s)
      | Some (host_hook, host_unhook) \<Rightarrow>
          if FindHookLocked target s \<noteq> None then (DP_ALREADY_HOOKED, None, s)
          else
            (case host_hook target replacement of
               (status, original) \<Rightarrow>
                 let h = (new_hook code_target)\<lparr>hk_backend_installed := True, hk_backup := original,
                           hk_binding := hr_binding s\<rparr>
                 in if status \<noteq> 0 \<or> original = 0 then (DP_HOOK_FAILED, None, s)
                 else if \<not> captured then
                   (DP_HOOK_FAILED, None,
                    if host_unhook target \<noteq> 0 then add_hook i (h\<lparr>hk_state := RFailed\<rparr>) s else s)
                 else (DP_OK, Some (original, i),
                       bind_target i (add_hook i (h\<lparr>hk_state := RInstalled, hk_active := True\<rparr>) s))))"

definition ReleaseHook :: "nat option \<Rightarrow> registry \<Rightarrow> registry" where
  "ReleaseHook hook s =
     (case hook of None \<Rightarrow> s
      | Some i \<Rightarrow> set_hook i ((hr_hook s i)\<lparr>hk_release_requested := True\<rparr>) s)"

definition CanDestroyLocked :: "hook_record \<Rightarrow> bool" where
  "CanDestroyLocked h \<longleftrightarrow> hk_state h = RUnhooked \<and> hk_in_flight h = 0 \<and> hk_listener_handles h = 0"

fun reset_unhook :: "(nat \<Rightarrow> bool) \<Rightarrow> nat list \<Rightarrow> registry \<Rightarrow> registry" where
  "reset_unhook restore [] s = s"
| "reset_unhook restore (i # is) s =
     reset_unhook restore is
       (if hk_state (hr_hook s i) \<noteq> RUnhooked then snd (UnhookRecordLocked restore i s) else s)"

text \<open>A published veneer keeps its record for ever; other records are destroyed.\<close>

definition reclaim_hook :: "nat \<Rightarrow> registry \<Rightarrow> registry" where
  "reclaim_hook i s =
     (let h = hr_hook s i in
      if \<not> CanDestroyLocked h then s
      else
        let s1 = set_hook i (h\<lparr>hk_adapter := (if hk_replacement h \<noteq> 0 then None else hk_adapter h),
                               hk_adapter_retained := False\<rparr>) s;
            s2 = s1\<lparr>hr_hooks := filter (\<lambda>j. j \<noteq> i) (hr_hooks s1),
                    hr_retained_hooks := hr_retained_hooks s1 @ (if hk_replacement h \<noteq> 0 then [i] else [])\<rparr>
        in case (hk_adapter_retained h, hk_adapter h) of
             (True, Some a) \<Rightarrow> set_adapter a (VmAdapterReleaseHook (hr_adapter s2 a)) s2
           | _ \<Rightarrow> s2)"

definition ResetHooks :: "(nat \<Rightarrow> bool) \<Rightarrow> registry \<Rightarrow> registry" where
  "ResetHooks restore s =
     (let s1 = reset_unhook restore (hr_hooks s) s in fold reclaim_hook (hr_hooks s1) s1)"

section \<open>Listener handles\<close>

text \<open>The public removal of a listener from its hook (\<^verbatim>\<open>src/interceptor/runtime_hook.cpp\<close>).\<close>

record listener_handle =
  lh_hook :: nat
  lh_record :: nat

definition dartplant_remove_listener :: "(nat \<Rightarrow> bool) \<Rightarrow> listener_handle \<Rightarrow> registry \<Rightarrow>
    dp_status \<times> registry" where
  "dartplant_remove_listener restore handle s =
     (let i = lh_hook handle; l = lh_record handle;
          s1 = set_listener l ((hr_listener s l)\<lparr>lr_active := False\<rparr>) s;
          s2 = set_hook i ((hr_hook s1 i)
                 \<lparr>hk_listeners := filter (\<lambda>k. k \<noteq> l) (hk_listeners (hr_hook s1 i))\<rparr>) s1;
          remove_hook = (hk_listeners (hr_hook s2 i) = [] \<and> hk_state (hr_hook s2 i) = RInstalled);
          s3 = ReleaseListenerVmAdapterIfIdle l s2
      in if remove_hook then RemoveHook restore (Some i) s3 else (DP_OK, s3))"

text \<open>The flag says whether the handle has been deleted.\<close>

definition dartplant_release_listener :: "(nat \<Rightarrow> bool) \<Rightarrow> listener_handle \<Rightarrow> registry \<Rightarrow>
    bool \<times> registry" where
  "dartplant_release_listener restore handle s =
     (if lr_in_flight (hr_listener s (lh_record handle)) \<noteq> 0 then (False, s)
      else
        let s1 = snd (dartplant_remove_listener restore handle s);
            h = hr_hook s1 (lh_hook handle)
        in (True, if hk_listener_handles h \<noteq> 0
                  then set_hook (lh_hook handle) (h\<lparr>hk_listener_handles := hk_listener_handles h - 1\<rparr>) s1
                  else s1))"

definition dartplant_listener_is_active :: "listener_handle \<Rightarrow> registry \<Rightarrow> bool" where
  "dartplant_listener_is_active handle s = lr_active (hr_listener s (lh_record handle))"

definition dartplant_listener_is_idle :: "listener_handle \<Rightarrow> registry \<Rightarrow> bool" where
  "dartplant_listener_is_idle handle s \<longleftrightarrow> lr_in_flight (hr_listener s (lh_record handle)) = 0"

end
