(* ===== verification/Hook_Install.thy ===== *)
theory Hook_Install
  imports Hook_Registry
begin

text \<open>
  How a callback hook or a further listener is admitted (\<^verbatim>\<open>src/core/hook_registry.cpp\<close>): the
  legacy register profile, the capability proofs of the VM adapter and the binding of the call
  layout to them, then \<open>InstallCallbackHook\<close>, \<open>AddCallbackListener\<close> and
  \<open>AddCallbackListenerForMethod\<close>. The generated table of runtime profiles, the embedder's
  proof callback and the answers of the ARM64 bridge, which are other components or not part
  of the program, are the fields of an environment.
\<close>

section \<open>The legacy register profile\<close>

definition PROFILE_RAW_GP_ARGUMENTS :: u32 where "PROFILE_RAW_GP_ARGUMENTS = 1"
definition PROFILE_RAW_GP_RESULT :: u32 where "PROFILE_RAW_GP_RESULT = 2"
definition kSupportedCallbackProfileFlags :: u32 where "kSupportedCallbackProfileFlags = 15"

definition IsSupportedArgumentRegister :: "u8 \<Rightarrow> bool" where
  "IsSupportedArgumentRegister reg \<longleftrightarrow> reg < 30 \<and> reg \<noteq> 16 \<and> reg \<noteq> 17"

definition IsSupportedLocation :: "legacy_location \<Rightarrow> bool" where
  "IsSupportedLocation loc =
     (if ll_kind loc = LegacyFp then ll_index loc < 32 else IsSupportedArgumentRegister (ll_index loc))"

text \<open>The tests of the tagged flags follow from the first two and are left out.\<close>

definition ValidateCallbackProfile :: "legacy_profile \<Rightarrow> bool" where
  "ValidateCallbackProfile p \<longleftrightarrow>
     lp_flags p AND NOT kSupportedCallbackProfileFlags = 0 \<and>
     lp_flags p AND PROFILE_RAW_GP_ARGUMENTS \<noteq> 0 \<and> lp_flags p AND PROFILE_RAW_GP_RESULT \<noteq> 0 \<and>
     lp_argument_count p \<le> 8 \<and> IsSupportedLocation (lp_result p) \<and>
     list_all IsSupportedLocation (take (unat (lp_argument_count p)) (lp_arguments p))"

definition HasLegacyCallbackMapping :: "legacy_profile \<Rightarrow> bool" where
  "HasLegacyCallbackMapping p \<longleftrightarrow> lp_flags p AND kSupportedCallbackProfileFlags \<noteq> 0"

section \<open>Capability proofs of one method\<close>

record capability_evidence =
  ce_kind :: evidence_kind
  ce_function :: u64
  ce_code :: u64
  ce_expected_entry :: ptr
  ce_entry_kind :: u32
  ce_flags :: u32

definition EVIDENCE_ALLOW_SHARED_CODE_OWNER :: u32 where "EVIDENCE_ALLOW_SHARED_CODE_OWNER = 1"
definition EVIDENCE_OBSERVATION_RECEIPT :: u32 where "EVIDENCE_OBSERVATION_RECEIPT = 2"
definition EVIDENCE_SEMANTIC_RECEIPT :: u32 where "EVIDENCE_SEMANTIC_RECEIPT = 4"

text \<open>
  The environment: the calling thread, whether the adapter's mutex is free, the profile of a
  version and its address, the register of the arguments descriptor and the capability key of
  a profile, and the embedder's callback, which answers with a status and a proof.
\<close>

record proof_env =
  pe_thread :: thread_id
  pe_unlocked :: bool
  pe_profiles :: "u32 \<Rightarrow> nat option"
  pe_profile_at :: "nat \<Rightarrow> ptr"
  pe_descriptor_register :: "ptr \<Rightarrow> u8"
  pe_abi_key :: "ptr \<Rightarrow> u64 \<Rightarrow> string"
  pe_prove :: "capability_evidence \<Rightarrow> dp_status \<times> capability_proof"

record method_binding =
  mb_call :: capability_proof
  mb_object :: capability_proof
  mb_exception :: capability_proof
  mb_call_profile :: ptr
  mb_object_profile :: ptr
  mb_exception_profile :: ptr

definition method_binding_0 :: method_binding where
  "method_binding_0 = \<lparr>mb_call = capability_proof_0, mb_object = capability_proof_0,
     mb_exception = capability_proof_0, mb_call_profile = 0, mb_object_profile = 0,
     mb_exception_profile = 0\<rparr>"

definition is_live :: "dart_function \<Rightarrow> bool" where
  "is_live f \<longleftrightarrow> df_source f = SourceLiveVm"

definition semantic_receipt :: "target_world \<Rightarrow> dart_function \<Rightarrow> call_layout option \<Rightarrow> bool" where
  "semantic_receipt w f layout \<longleftrightarrow>
     df_source f = SourceOfflineIndex \<and> df_closure_call_entry_only f \<and>
     (case df_target f of None \<Rightarrow> False | Some t \<Rightarrow> HasProvenUniqueIdentity (tw_target w t)) \<and>
     (case layout of None \<Rightarrow> False | Some cl \<Rightarrow> cl_vm_semantic_observation_receipt cl)"

definition evidence_for :: "target_world \<Rightarrow> hook_method \<Rightarrow> dart_function \<Rightarrow> call_layout option \<Rightarrow> ptr \<Rightarrow>
    bool \<Rightarrow> evidence_kind \<Rightarrow> capability_evidence" where
  "evidence_for w m f layout expected_entry allow_shared kind =
     (let observation = is_live f \<and> kind \<noteq> EvExceptionBridge;
          semantic = semantic_receipt w f layout \<and> (kind = EvInvocationCallAbi \<or> kind = EvFunctionType);
          shared = (if allow_shared \<and> HasSharedCodeEvidence w m
                    then EVIDENCE_ALLOW_SHARED_CODE_OWNER else 0)
      in \<lparr>ce_kind = kind,
          ce_function = (if observation \<or> semantic then 0 else df_function_object f),
          ce_code = (if observation \<or> semantic then 0 else df_code_object f),
          ce_expected_entry = expected_entry, ce_entry_kind = hm_entry_kind m,
          ce_flags = (if observation then shared OR EVIDENCE_OBSERVATION_RECEIPT
                      else if semantic then shared OR EVIDENCE_SEMANTIC_RECEIPT else shared)\<rparr>)"

text \<open>
  The lambda \<open>prove\<close>: the pair is the artifact and isolate generation of the first proof, zero
  before it.
\<close>

definition prove_one :: "proof_env \<Rightarrow> capability_evidence \<Rightarrow> u64 \<times> u64 \<Rightarrow> vm_adapter \<Rightarrow>
    dp_status \<times> (u64 \<times> u64) \<times> vm_adapter" where
  "prove_one env ev gens a =
     (case pe_prove env ev of
        (answer, p) \<Rightarrow>
          (case VmAdapterProveCapability (pe_profiles env) True (pe_unlocked env) (pe_thread env)
                  (ce_kind ev) answer p a of
             (status, a') \<Rightarrow>
               if status \<noteq> DP_OK then (status, gens, a')
               else if cp_capability p \<noteq> CapabilityForEvidence (ce_kind ev) \<or> cp_profile_version p = 0 \<or>
                       cp_artifact_generation p = 0 \<or> cp_isolate_generation p = 0
               then (DP_PROFILE_MISMATCH, gens, a')
               else if fst gens = 0
               then (DP_OK, (cp_artifact_generation p, cp_isolate_generation p), a')
               else if gens \<noteq> (cp_artifact_generation p, cp_isolate_generation p)
               then (DP_PROFILE_MISMATCH, gens, a')
               else (DP_OK, gens, a')))"

fun prove_all :: "proof_env \<Rightarrow> capability_evidence list \<Rightarrow> u64 \<times> u64 \<Rightarrow> vm_adapter \<Rightarrow>
    dp_status \<times> (u64 \<times> u64) \<times> vm_adapter" where
  "prove_all env [] gens a = (DP_OK, gens, a)"
| "prove_all env (ev # evs) gens a =
     (case prove_one env ev gens a of
        (status, gens', a') \<Rightarrow>
          if status \<noteq> DP_OK then (status, gens', a') else prove_all env evs gens' a')"

definition evidence_kinds :: "target_world \<Rightarrow> dart_function \<Rightarrow> call_layout option \<Rightarrow> evidence_kind list" where
  "evidence_kinds w f layout =
     (if is_live f then [EvFunctionCode, EvInvocationCallAbi, EvAotEntry] @
           (if df_closure_call_entry_only f then [EvFunctionType] else [])
      else if semantic_receipt w f layout then [EvInvocationCallAbi, EvFunctionType]
      else []) @ [EvExceptionBridge]"

definition capability_binding_of :: "proof_env \<Rightarrow> evidence_kind \<Rightarrow> vm_adapter \<Rightarrow>
    dp_status + capability_proof \<times> ptr" where
  "capability_binding_of env kind a =
     (case VmAdapterGetCapabilityBinding True (CapabilityForEvidence kind) a of
        Inl status \<Rightarrow> Inl status
      | Inr (p, profile) \<Rightarrow> Inr (p, pe_profile_at env profile))"

text \<open>Reading the bindings back, once everything is proven.\<close>

definition read_call_binding :: "proof_env \<Rightarrow> bool \<Rightarrow> vm_adapter \<Rightarrow> method_binding \<Rightarrow>
    dp_status \<times> method_binding" where
  "read_call_binding env wanted a b =
     (if \<not> wanted then (DP_OK, b)
      else case capability_binding_of env EvInvocationCallAbi a of
        Inl status \<Rightarrow> (status, b)
      | Inr (p, profile) \<Rightarrow> (DP_OK, b\<lparr>mb_call := p, mb_call_profile := profile\<rparr>))"

definition read_object_binding :: "proof_env \<Rightarrow> bool \<Rightarrow> vm_adapter \<Rightarrow> method_binding \<Rightarrow>
    dp_status \<times> method_binding" where
  "read_object_binding env wanted a b =
     (if \<not> wanted then (DP_OK, b)
      else case capability_binding_of env EvFunctionType a of
        Inl status \<Rightarrow> (status, b)
      | Inr (p, profile) \<Rightarrow>
          let b' = b\<lparr>mb_object := p, mb_object_profile := profile\<rparr> in
          if cp_artifact_generation (mb_call b') \<noteq> cp_artifact_generation p \<or>
             cp_isolate_generation (mb_call b') \<noteq> cp_isolate_generation p
          then (DP_PROFILE_MISMATCH, b') else (DP_OK, b'))"

definition read_exception_binding :: "proof_env \<Rightarrow> bool \<Rightarrow> vm_adapter \<Rightarrow> method_binding \<Rightarrow>
    dp_status \<times> method_binding" where
  "read_exception_binding env same_generation a b =
     (case capability_binding_of env EvExceptionBridge a of
        Inl status \<Rightarrow> (DP_PROFILE_MISMATCH, b)
      | Inr (p, profile) \<Rightarrow>
          let b' = b\<lparr>mb_exception := p, mb_exception_profile := profile\<rparr> in
          if cp_resolved_target p = 0 \<or>
             (same_generation \<and> (cp_artifact_generation p \<noteq> cp_artifact_generation (mb_call b') \<or>
                                 cp_isolate_generation p \<noteq> cp_isolate_generation (mb_call b')))
          then (DP_PROFILE_MISMATCH, b') else (DP_OK, b'))"

text \<open>A live Function must carry an observation receipt and an entry with a payload.\<close>

definition live_receipt_ok :: "target_world \<Rightarrow> dart_function \<Rightarrow> bool" where
  "live_receipt_ok w f \<longleftrightarrow> df_live_observation_receipt f \<and>
     (case df_target f of None \<Rightarrow> False | Some t \<Rightarrow> et_payload (tw_target w t) \<noteq> None)"

definition ProveLiveFunctionBinding :: "proof_env \<Rightarrow> target_world \<Rightarrow> hook_method \<Rightarrow> vm_adapter nullable \<Rightarrow>
    call_layout option \<Rightarrow> ptr \<Rightarrow> bool \<Rightarrow> dp_status \<times> method_binding \<times> vm_adapter nullable" where
  "ProveLiveFunctionBinding env w m adapter layout expected_entry allow_shared =
     (case (adapter, hm_function m) of
        (Some a, Some f) \<Rightarrow>
          if df_source f = SourceSynthetic \<or> \<not> CapabilityProofCallbackAvailable (va_callbacks a)
          then (DP_OK, method_binding_0, adapter)
          else if is_live f \<and> \<not> live_receipt_ok w f
          then (DP_VM_BRIDGE_UNAVAILABLE, method_binding_0, adapter)
          else
            (case prove_all env
                    (map (evidence_for w m f layout expected_entry allow_shared)
                       (evidence_kinds w f layout)) (0, 0) a of
               (status, gens, a1) \<Rightarrow>
                 if status \<noteq> DP_OK then (status, method_binding_0, Some a1)
                 else
                   let typed = is_live f \<or> semantic_receipt w f layout;
                       (status1, b1) = read_call_binding env typed a1 method_binding_0;
                       (status2, b2) = (if status1 \<noteq> DP_OK then (status1, b1)
                          else read_object_binding env (typed \<and> df_closure_call_entry_only f) a1 b1);
                       (status3, b3) = (if status2 \<noteq> DP_OK then (status2, b2)
                          else read_exception_binding env typed a1 b2)
                   in (status3, b3, Some a1))
      | _ \<Rightarrow> (DP_OK, method_binding_0, adapter))"

section \<open>Binding the call layout\<close>

definition supports_proof :: "vm_adapter nullable \<Rightarrow> bool" where
  "supports_proof adapter =
     (case adapter of None \<Rightarrow> False | Some a \<Rightarrow> CapabilityProofCallbackAvailable (va_callbacks a))"

definition profile_of_version :: "proof_env \<Rightarrow> u32 \<Rightarrow> ptr" where
  "profile_of_version env version =
     (case pe_profiles env version of None \<Rightarrow> 0 | Some i \<Rightarrow> pe_profile_at env i)"

text \<open>The call and object profiles, in the order of preference of the code.\<close>

definition layout_profiles :: "proof_env \<Rightarrow> dart_function \<Rightarrow> vm_adapter nullable \<Rightarrow> method_binding \<Rightarrow>
    call_layout \<Rightarrow> ptr \<times> ptr" where
  "layout_profiles env f adapter b cl =
     (if cp_profile_version (mb_call b) \<noteq> 0 \<and> supports_proof adapter
      then (mb_call_profile b,
            if mb_object_profile b = 0 then cl_vm_object_profile cl else mb_object_profile b)
      else if cl_vm_call_profile cl \<noteq> 0 \<and> cl_vm_object_profile cl \<noteq> 0
      then (cl_vm_call_profile cl, cl_vm_object_profile cl)
      else (profile_of_version env (df_profile_version f), profile_of_version env (df_profile_version f)))"

definition BindCallLayoutProfile :: "proof_env \<Rightarrow> dart_function \<Rightarrow> vm_adapter nullable \<Rightarrow> method_binding \<Rightarrow>
    call_layout option \<Rightarrow> dp_status \<times> call_layout option" where
  "BindCallLayoutProfile env f adapter b layout =
     (case layout of
        None \<Rightarrow> (DP_OK, None)
      | Some cl \<Rightarrow>
          if is_live f \<and> \<not> supports_proof adapter
          then (if cl_has_arguments_descriptor cl \<or> cl_closure_signature cl \<noteq> None
                then (DP_VM_BRIDGE_UNAVAILABLE, layout) else (DP_OK, layout))
          else
            (case layout_profiles env f adapter b cl of
               (call_profile, object_profile) \<Rightarrow>
                 if call_profile = 0 \<or> pe_descriptor_register env call_profile \<ge> 31
                 then (DP_PROFILE_MISMATCH, layout)
                 else if cp_profile_version (mb_call b) \<noteq> 0 \<and> cl_closure_signature cl \<noteq> None \<and>
                    (object_profile = 0 \<or> cl_vm_object_profile cl = 0 \<or>
                     pe_abi_key env (cl_vm_object_profile cl) (CapabilityForEvidence EvFunctionType) \<noteq>
                     pe_abi_key env object_profile (CapabilityForEvidence EvFunctionType))
                 then (DP_PROFILE_MISMATCH, layout)
                 else (DP_OK, Some (cl
                   \<lparr>cl_vm_call_profile := call_profile, cl_vm_object_profile := object_profile,
                    cl_vm_artifact_generation := cp_artifact_generation (mb_call b),
                    cl_vm_isolate_generation := cp_isolate_generation (mb_call b),
                    cl_arguments_descriptor_location :=
                      (if cl_has_arguments_descriptor cl
                       then \<lparr>loc_kind = LocGpRegister,
                             loc_register_index = pe_descriptor_register env call_profile,
                             loc_stack_offset = 0\<rparr>
                       else cl_arguments_descriptor_location cl)\<rparr>))))"

definition exception_binding_0 :: exception_binding where
  "exception_binding_0 = \<lparr>xb_verified = False, xb_target = 0, xb_thread_offset = 0,
     xb_artifact_generation = 0, xb_isolate_generation = 0, xb_profile_version = 0,
     xb_domain_key = []\<rparr>"

definition exception_binding_for :: "proof_env \<Rightarrow> dart_function \<Rightarrow> method_binding \<Rightarrow> exception_binding" where
  "exception_binding_for env f b =
     (if df_source f = SourceSynthetic then exception_binding_0
      else if mb_exception_profile b \<noteq> 0
      then \<lparr>xb_verified = True, xb_target = cp_resolved_target (mb_exception b), xb_thread_offset = 0,
            xb_artifact_generation = cp_artifact_generation (mb_exception b),
            xb_isolate_generation = cp_isolate_generation (mb_exception b),
            xb_profile_version = cp_profile_version (mb_exception b),
            xb_domain_key = pe_abi_key env (mb_exception_profile b) (CapabilityForEvidence EvExceptionBridge)\<rparr>
      else exception_binding_0\<lparr>xb_verified := df_jump_to_frame_offset f \<noteq> 0,
             xb_thread_offset := df_jump_to_frame_offset f\<rparr>)"

definition is_shared_target :: "target_world \<Rightarrow> dart_function \<Rightarrow> bool" where
  "is_shared_target w f = (case df_target f of None \<Rightarrow> False | Some t \<Rightarrow> IsShared (tw_target w t))"

definition adapter_of :: "registry \<Rightarrow> nat option \<Rightarrow> vm_adapter nullable" where
  "adapter_of s a = map_option (hr_adapter s) a"

text \<open>The proofs and the layout for one method, with the adapter's new state.\<close>

definition bind_method :: "proof_env \<Rightarrow> hook_method \<Rightarrow> dart_function \<Rightarrow> nat option \<Rightarrow> call_layout option \<Rightarrow>
    ptr \<Rightarrow> bool \<Rightarrow> registry \<Rightarrow> dp_status \<times> method_binding \<times> call_layout option \<times> registry" where
  "bind_method env m f adapter layout target allow_shared s =
     (case ProveLiveFunctionBinding env (hr_world s) m (adapter_of s adapter) layout target allow_shared of
        (status, b, after) \<Rightarrow>
          let s1 = (case (adapter, after) of (Some a, Some v) \<Rightarrow> set_adapter a v s | _ \<Rightarrow> s) in
          if status \<noteq> DP_OK then (status, b, layout, s1)
          else (case BindCallLayoutProfile env f after b layout of
                  (status', layout') \<Rightarrow> (status', b, layout', s1)))"

section \<open>Installing a callback hook\<close>

text \<open>
  What the memory and the ARM64 bridge answer on the way: whether the target's bytes could be
  recorded, whether the pristine payload could be captured, the callback stub, the status of the return interception and whether the hook is left as one of
  its consumers, the gate's stub, and whether the patched bytes could be recorded and the
  returns restored.
\<close>

record bridge_answers =
  ba_snapshot :: bool
  ba_pristine :: bool
  ba_stub :: "ptr \<times> u64"
  ba_returns :: dp_status
  ba_return_consumer :: bool
  ba_gate_stub :: "ptr \<Rightarrow> bool \<Rightarrow> ptr \<times> u64"
  ba_captured :: bool
  ba_restored :: bool

text \<open>What is asked for; the listener's method, options and values are those of the request.\<close>

record install_request =
  ir_profile :: legacy_profile
  ir_listener :: listener_request
  ir_out_hook :: bool
  ir_out_listener :: bool

definition install_arguments_ok :: "registry \<Rightarrow> install_request \<Rightarrow> bool" where
  "install_arguments_ok s q \<longleftrightarrow>
     MethodTarget (hr_world s) (lq_method (ir_listener q)) \<noteq> 0 \<and>
     (ir_out_hook q \<or> ir_out_listener q) \<and> ValidCallbackOptions (lq_options (ir_listener q))"

text \<open>Everything before the registry's mutex is taken: the bound request.\<close>

definition admit_install :: "proof_env \<Rightarrow> install_request \<Rightarrow> hook_method \<Rightarrow> dart_function \<Rightarrow> registry \<Rightarrow>
    (dp_status + method_binding \<times> call_layout option) \<times> registry" where
  "admit_install env q m f s =
     (let w = hr_world s; options = lq_options (ir_listener q); layout = lq_layout (ir_listener q);
          target = MethodTarget w (Some m); shared = is_shared_target w f in
      if layout = None \<and> HasLegacyCallbackMapping (ir_profile q) \<and> \<not> ValidateCallbackProfile (ir_profile q)
      then (Inl DP_UNSUPPORTED_ABI, s)
      else if lp_flags (ir_profile q) AND NOT kSupportedCallbackProfileFlags \<noteq> 0
      then (Inl DP_UNSUPPORTED_ABI, s)
      else if (case layout of None \<Rightarrow> False | Some cl \<Rightarrow> cl_dart_sp_register cl \<ge> 31)
      then (Inl DP_PROFILE_MISMATCH, s)
      else if shared \<and> \<not> AllowsSharedCode options then (Inl DP_SHARED_CODE_ENTRY, s)
      else if shared \<and> \<not> HasSharedCodeEvidence w m then (Inl DP_SHARED_CODE_ENTRY, s)
      else
        (case (if ho_adapter options \<noteq> None \<and> df_source f \<noteq> SourceSynthetic
               then (if layout = None \<or> \<not> VmAdapterSupportsGeneratedCallbackBridge
                           (hr_adapter s (the (ho_adapter options)))
                     then (DP_UNSUPPORTED_ABI, method_binding_0, layout, s)
                     else bind_method env m f (ho_adapter options) layout target (AllowsSharedCode options) s)
               else if layout \<noteq> None
               then (case BindCallLayoutProfile env f None method_binding_0 layout of
                       (status, layout') \<Rightarrow> (status, method_binding_0, layout', s))
               else (DP_OK, method_binding_0, None, s)) of
           (status, b, layout', s1) \<Rightarrow>
             if status \<noteq> DP_OK then (Inl status, s1)
             else if df_source f \<noteq> SourceSynthetic \<and>
                ((ho_adapter options \<noteq> None \<and> cp_resolved_target (mb_exception b) = 0) \<or>
                 (ho_adapter options = None \<and> df_jump_to_frame_offset f = 0))
             then (Inl DP_VM_BRIDGE_UNAVAILABLE, s1)
             else (Inr (b, if is_shared_target (hr_world s1) f then None else layout'), s1)))"

text \<open>A new record that does not stay takes its listener with it.\<close>

definition drop_hook :: "nat \<Rightarrow> nat \<Rightarrow> registry \<Rightarrow> registry" where
  "drop_hook i l s =
     DestroyListenerRecord l (set_hook i ((hr_hook s i)\<lparr>hk_listeners := []\<rparr>) s)"

definition keep_failed_hook :: "rec_state \<Rightarrow> nat \<Rightarrow> nat \<Rightarrow> registry \<Rightarrow> registry" where
  "keep_failed_hook state i l s =
     DestroyListenerRecord l
       (add_hook i ((hr_hook s i)\<lparr>hk_active := False, hk_state := state, hk_listeners := []\<rparr>) s)"

definition empty_published :: published_hook where
  "empty_published = \<lparr>ph_gate = \<lparr>g_control = EncodeGateControl GInstalling 0, g_callback_entry = 0,
     g_backup = 0, g_target = 0\<rparr>, ph_binding = None, ph_target = 0, ph_gate_entry = 0,
     ph_gate_entry_size = 0, ph_track_generated_entrants = False, ph_backend_installed = False,
     ph_ever_published = False\<rparr>"

text \<open>Publishing a real Dart entry through its gate: a status and the trampoline.\<close>

definition publish_gated :: "bridge_answers \<Rightarrow> nat \<Rightarrow> nat \<Rightarrow> ptr \<Rightarrow> registry \<Rightarrow>
    dp_status \<times> ptr \<times> registry" where
  "publish_gated ba i l target s =
     (case PreparePublishedHostHook (ba_gate_stub ba) (Some empty_published) (hr_binding s) target
             (hk_replacement (hr_hook s i)) True 0 of
        (status, prepared) \<Rightarrow>
          if status \<noteq> DP_OK then (status, 0, drop_hook i l s)
          else
            (case InstallPublishedHostHook prepared True of
               (status, original, published) \<Rightarrow>
                 let ever = (case published of None \<Rightarrow> False | Some p \<Rightarrow> ph_ever_published p);
                     h = (hr_hook s i)\<lparr>hk_published := published,
                       hk_backend_installed :=
                         (case published of None \<Rightarrow> False | Some p \<Rightarrow> ph_backend_installed p),
                       hk_entry_published := ever\<rparr>
                 in if status = DP_OK
                    then (DP_OK, (case original of None \<Rightarrow> 0 | Some b \<Rightarrow> b), set_hook i h s)
                    else
                      let h' = (if ever then h\<lparr>hk_backup := (case published of None \<Rightarrow> 0
                                                             | Some p \<Rightarrow> backup p)\<rparr> else h)
                      in (status, 0,
                          if ever \<or> \<not> ba_restored ba
                          then keep_failed_hook (if ever then RFailedAfterPublished else RFailed) i l
                                 (set_hook i h' s)
                          else drop_hook i l s)))"

text \<open>Publishing a native fixture straight through the host's hook.\<close>

definition publish_raw :: "(ptr \<Rightarrow> ptr \<Rightarrow> int \<times> ptr) \<Rightarrow> nat \<Rightarrow> nat \<Rightarrow> ptr \<Rightarrow> registry \<Rightarrow>
    dp_status \<times> ptr \<times> registry" where
  "publish_raw host_hook i l target s =
     (let h = hr_hook s i in
      case host_hook target (hk_replacement h) of
        (status, original) \<Rightarrow>
          if status = 0 \<and> original \<noteq> 0
          then (DP_OK, original,
                set_hook i (h\<lparr>hk_backend_installed := True, hk_entry_published := True\<rparr>) s)
          else if status = HOST_HOOK_FAILED_AFTER_PUBLISHED \<or>
                  status = HOST_HOOK_FAILED_RECOVERY_REQUIRED \<or> status = 0
          then (DP_HOOK_FAILED, 0,
                keep_failed_hook RFailedAfterPublished i l
                  (set_hook i (h\<lparr>hk_backup := original,
                      hk_backend_installed := (status = HOST_HOOK_FAILED_RECOVERY_REQUIRED \<or> status = 0),
                      hk_entry_published := True\<rparr>) s))
          else (DP_HOOK_FAILED, 0, drop_hook i l s))"

text \<open>The patched bytes could not be recorded: the entry is given back.\<close>

definition undo_publication :: "bool \<Rightarrow> bool \<Rightarrow> (ptr \<Rightarrow> int) \<Rightarrow> nat \<Rightarrow> nat \<Rightarrow> ptr \<Rightarrow> registry \<Rightarrow> registry" where
  "undo_publication real_dart returns_restored host_unhook i l target s =
     (let h = hr_hook s i in
      if real_dart then
        (case UninstallPublishedHostHook (snd (ClosePublishedHostHook (hk_published h))) of
           (status, published) \<Rightarrow>
             let ever = (case published of None \<Rightarrow> False | Some p \<Rightarrow> ph_ever_published p);
                 s1 = set_hook i (h\<lparr>hk_published := published, hk_backend_installed :=
                        (case published of None \<Rightarrow> False | Some p \<Rightarrow> ph_backend_installed p)\<rparr>) s
             in if \<not> ever \<and> status = DP_OK \<and> returns_restored then drop_hook i l s1
                else keep_failed_hook RFailed i l s1)
      else keep_failed_hook RFailed i l
             (set_hook i (h\<lparr>hk_backend_installed := (host_unhook target \<noteq> 0)\<rparr>) s))"

text \<open>The record as it is before anything is published, with its first listener.\<close>

definition prepare_hook :: "install_request \<Rightarrow> call_layout option \<Rightarrow> exception_binding \<Rightarrow> nat option \<Rightarrow>
    registry \<Rightarrow> nat \<times> registry" where
  "prepare_hook q layout xb code_target s =
     (let i = hr_next_hook s; lq = ir_listener q; options = lq_options lq;
          h = (new_hook code_target)
                \<lparr>hk_has_method := True, hk_shared_code_opt_in := AllowsSharedCode options,
                 hk_adapter := ho_adapter options, hk_binding := hr_binding s,
                 hk_generation := lq_generation lq, hk_expected := lq_expected lq,
                 hk_method := lq_method lq, hk_profile := ir_profile q, hk_layout := layout,
                 hk_null_value := lq_null_value lq,
                 hk_true_value := lq_true_value lq, hk_false_value := lq_false_value lq,
                 hk_state := RInstalling\<rparr>
      in case MakeListenerLocked i (lq\<lparr>lq_layout := layout, lq_exception := xb\<rparr>) (set_hook i h s) of
           (l, s1) \<Rightarrow> (l, InsertListenerLocked i l s1))"

text \<open>The last steps, once the entry has been published.\<close>

definition finish_install :: "bool \<Rightarrow> bool \<Rightarrow> nat \<Rightarrow> registry \<Rightarrow> registry" where
  "finish_install real_dart handle i s =
     (let s5 = (if real_dart then RegisterArm64ExceptionBridgeConsumer i s else s); h = hr_hook s5 i in
      bind_target i (add_hook i (h\<lparr>hk_state := RInstalled, hk_adapter_retained := False, hk_active := True,
         hk_published := (if real_dart then ArmPublishedHostHook (hk_published h) else hk_published h),
         hk_listener_handles := hk_listener_handles h + (if handle then 1 else 0)\<rparr>) s5))"

text \<open>From the published entry on: a published hook is completed or given back.\<close>

definition complete_install :: "bridge_answers \<Rightarrow> bool \<Rightarrow> bool \<Rightarrow> (ptr \<Rightarrow> int) \<Rightarrow> nat \<Rightarrow> nat \<Rightarrow> ptr \<Rightarrow>
    dp_status \<times> ptr \<times> registry \<Rightarrow> dp_status \<times> registry" where
  "complete_install ba real_dart handle host_unhook i l target publication =
     (case publication of
        (status, original, s) \<Rightarrow>
          if status \<noteq> DP_OK then (status, s)
          else
            let s' = set_hook i ((hr_hook s i)\<lparr>hk_backup := original, hk_entry_ready := True\<rparr>) s in
            if \<not> ba_captured ba
            then (DP_HOOK_FAILED, undo_publication real_dart (ba_restored ba) host_unhook i l target s')
            else (DP_OK, finish_install real_dart handle i s'))"

text \<open>The new record \<open>i\<close> with its listener \<open>l\<close>: the stub, the returns, the publication.\<close>

definition install_new_hook :: "bridge_answers \<Rightarrow> bool \<Rightarrow> bool \<Rightarrow> (ptr \<Rightarrow> ptr \<Rightarrow> int \<times> ptr) \<Rightarrow>
    (ptr \<Rightarrow> int) \<Rightarrow> nat \<Rightarrow> nat \<Rightarrow> ptr \<Rightarrow> registry \<Rightarrow> dp_status \<times> registry" where
  "install_new_hook ba real_dart handle host_hook host_unhook i l target s =
     (if \<not> ba_snapshot ba \<or> (real_dart \<and> \<not> ba_pristine ba) then (DP_HOOK_FAILED, drop_hook i l s)
      else if fst (ba_stub ba) = 0 then (DP_HOOK_FAILED, drop_hook i l s)
      else
        let h = (hr_hook s i)\<lparr>hk_replacement := fst (ba_stub ba), hk_replacement_size := snd (ba_stub ba)\<rparr>;
            s1 = set_hook i h s
        in if real_dart \<and> ba_returns ba \<noteq> DP_OK
           then (ba_returns ba,
                 if ba_return_consumer ba
                 then keep_failed_hook RFailed i l
                        (set_hook i (h\<lparr>hk_replacement := 0, hk_replacement_size := 0\<rparr>) s)
                 else drop_hook i l s)
           else complete_install ba real_dart handle host_unhook i l target
                  (if real_dart then publish_gated ba i l target s1
                   else publish_raw host_hook i l target s1))"

text \<open>What is tested under the registry's mutex.\<close>

definition install_allowed :: "install_request \<Rightarrow> bool \<Rightarrow> ptr \<Rightarrow> registry \<Rightarrow> dp_status" where
  "install_allowed q real_dart target s =
     (if (case ho_adapter (lq_options (ir_listener q)) of None \<Rightarrow> False
          | Some a \<Rightarrow> \<not> VmAdapterAdmissionOpen (hr_adapter s a)) then DP_VM_ADAPTER_BUSY
      else if real_dart \<and> \<not> HostBindingSupportsPublishedHooks (hr_binding s) then DP_UNSUPPORTED_ABI
      else if FindHookLocked target s \<noteq> None then DP_ALREADY_HOOKED
      else DP_OK)"

text \<open>
  Under the registry's mutex. The result holds the hook and, if asked for, the listener's
  handle.
\<close>

definition install_locked :: "proof_env \<Rightarrow> bridge_answers \<Rightarrow> install_request \<Rightarrow> dart_function \<Rightarrow>
    method_binding \<Rightarrow> call_layout option \<Rightarrow> registry \<Rightarrow>
    dp_status \<times> (nat \<times> listener_handle option) option \<times> registry" where
  "install_locked env ba q f b layout s =
     (let real_dart = (df_source f \<noteq> SourceSynthetic);
          target = MethodTarget (hr_world s) (lq_method (ir_listener q)); i = hr_next_hook s in
      case usable_binding (hr_binding s) of
        None \<Rightarrow> (DP_HOST_API_UNAVAILABLE, None, s)
      | Some (host_hook, host_unhook) \<Rightarrow>
          if install_allowed q real_dart target s \<noteq> DP_OK
          then (install_allowed q real_dart target s, None, s)
          else
            (case prepare_hook q layout (exception_binding_for env f b) (df_target f) s of
               (l, s1) \<Rightarrow>
                 (case install_new_hook ba real_dart (ir_out_listener q) host_hook host_unhook i l target s1 of
                    (status, s2) \<Rightarrow>
                      (status,
                       if status \<noteq> DP_OK then None
                       else Some (i, if ir_out_listener q then Some \<lparr>lh_hook = i, lh_record = l\<rparr> else None),
                       s2))))"

definition InstallCallbackHook :: "proof_env \<Rightarrow> bridge_answers \<Rightarrow> install_request \<Rightarrow> registry \<Rightarrow>
    dp_status \<times> (nat \<times> listener_handle option) option \<times> registry" where
  "InstallCallbackHook env ba q s =
     (if \<not> install_arguments_ok s q then (DP_INVALID_ARGUMENT, None, s)
      else
        (case lq_method (ir_listener q) of
           None \<Rightarrow> (DP_INVALID_ARGUMENT, None, s)
         | Some m \<Rightarrow>
             (case hm_function m of
                None \<Rightarrow> (DP_INVALID_ARGUMENT, None, s)
              | Some f \<Rightarrow>
                  (case admit_install env q m f s of
                     (Inl status, s1) \<Rightarrow> (status, None, s1)
                   | (Inr (b, layout), s1) \<Rightarrow> install_locked env ba q f b layout s1))))"

section \<open>Adding a listener\<close>

definition not_synthetic :: "hook_method \<Rightarrow> bool" where
  "not_synthetic m = (case hm_function m of None \<Rightarrow> False | Some f \<Rightarrow> df_source f \<noteq> SourceSynthetic)"

definition method_is_shared :: "target_world \<Rightarrow> hook_method \<Rightarrow> bool" where
  "method_is_shared w m = (case hm_function m of None \<Rightarrow> False | Some f \<Rightarrow> is_shared_target w f)"

definition add_arguments_ok :: "nat \<Rightarrow> hook_method \<Rightarrow> listener_request \<Rightarrow> registry \<Rightarrow> dp_status" where
  "add_arguments_ok i m q s =
     (let h = hr_hook s i; options = lq_options q; target = MethodTarget (hr_world s) (Some m) in
      if \<not> ValidCallbackOptions options then DP_INVALID_ARGUMENT
      else if target \<noteq> 0 \<and> target \<noteq> HookTarget s h then DP_INVALID_ARGUMENT
      else if method_is_shared (hr_world s) m \<and> (\<not> hk_shared_code_opt_in h \<or> \<not> AllowsSharedCode options)
      then DP_SHARED_CODE_ENTRY
      else if (case lq_generation q of None \<Rightarrow> False
               | Some g \<Rightarrow> lq_expected q = 0 \<or> hr_generation s g \<noteq> lq_expected q)
      then DP_RUNTIME_NOT_READY
      else case ho_adapter options of
             None \<Rightarrow> DP_OK
           | Some a \<Rightarrow>
               if not_synthetic m \<and>
                  (lq_layout q = None \<or> \<not> VmAdapterSupportsGeneratedCallbackBridge (hr_adapter s a))
               then DP_UNSUPPORTED_ABI
               else if \<not> VmAdapterAdmissionOpen (hr_adapter s a) then DP_VM_ADAPTER_BUSY else DP_OK)"

text \<open>The last part, under the hook's mutex.\<close>

definition add_listener_locked :: "nat \<Rightarrow> listener_request \<Rightarrow> registry \<Rightarrow>
    dp_status \<times> listener_handle option \<times> registry" where
  "add_listener_locked i q s =
     (if hk_state (hr_hook s i) \<noteq> RInstalled \<or> \<not> hk_active (hr_hook s i)
      then (DP_UNHOOK_FAILED, None, s)
      else
        (case MakeListenerLocked i q s of
           (l, s1) \<Rightarrow>
             let s2 = InsertListenerLocked i l s1; h = hr_hook s2 i in
             (DP_OK, Some \<lparr>lh_hook = i, lh_record = l\<rparr>,
              set_hook i (h\<lparr>hk_listener_handles := hk_listener_handles h + 1\<rparr>) s2)))"

definition AddCallbackListener :: "proof_env \<Rightarrow> nat nullable \<Rightarrow> bool \<Rightarrow> listener_request \<Rightarrow> registry \<Rightarrow>
    dp_status \<times> listener_handle option \<times> registry" where
  "AddCallbackListener env hook output q s =
     (case (hook, lq_method q) of
        (Some i, Some m) \<Rightarrow>
          if \<not> output then (DP_INVALID_ARGUMENT, None, s)
          else if add_arguments_ok i m q s \<noteq> DP_OK then (add_arguments_ok i m q s, None, s)
          else (case hm_function m of
                  None \<Rightarrow> add_listener_locked i (q\<lparr>lq_exception := exception_binding_0\<rparr>) s
                | Some f \<Rightarrow>
                    if df_source f = SourceSynthetic
                    then add_listener_locked i (q\<lparr>lq_exception := exception_binding_0\<rparr>) s
                    else (case bind_method env m f (ho_adapter (lq_options q)) (lq_layout q)
                                 (HookTarget s (hr_hook s i)) (AllowsSharedCode (lq_options q)) s of
                        (status, b, layout, s1) \<Rightarrow>
                          if status \<noteq> DP_OK then (status, None, s1)
                          else add_listener_locked i
                                 (q\<lparr>lq_layout := (if is_shared_target (hr_world s1) f then None else layout),
                                    lq_exception := exception_binding_for env f b\<rparr>) s1))
      | _ \<Rightarrow> (DP_INVALID_ARGUMENT, None, s))"

definition AddCallbackListenerForMethod :: "proof_env \<Rightarrow> bool \<Rightarrow> listener_request \<Rightarrow> registry \<Rightarrow>
    dp_status \<times> listener_handle option \<times> registry" where
  "AddCallbackListenerForMethod env output q s =
     (case lq_method q of
        None \<Rightarrow> (DP_INVALID_ARGUMENT, None, s)
      | Some m \<Rightarrow>
          (case FindHookLocked (MethodTarget (hr_world s) (Some m)) s of
             None \<Rightarrow> (DP_NOT_INITIALIZED, None, s)
           | Some i \<Rightarrow>
               if \<not> hk_has_method (hr_hook s i) then (DP_NOT_INITIALIZED, None, s)
               else AddCallbackListener env (Some i) output q s))"

end
