(* ===== verification/Hook_Registry_Props.thy ===== *)
theory Hook_Registry_Props
  imports Hook_Install
begin

text \<open>
  What the hook registry keeps: the listeners of a hook are ordered, each belongs to one hook,
  and the number of hook references of a VM adapter is the number of listeners that hold it.
\<close>

section \<open>The invariant\<close>

definition listed :: "registry \<Rightarrow> nat \<Rightarrow> bool" where
  "listed s l \<longleftrightarrow> (\<exists>i. l \<in> set (hk_listeners (hr_hook s i)))"

definition holders :: "registry \<Rightarrow> nat \<Rightarrow> nat set" where
  "holders s a = {l. l < hr_next_listener s \<and> lr_retained (hr_listener s l) \<and>
                     lr_adapter (hr_listener s l) = Some a}"

abbreviation precedes_in :: "registry \<Rightarrow> nat \<Rightarrow> nat \<Rightarrow> bool" where
  "precedes_in s k l \<equiv> listener_precedes (hr_listener s k) (hr_listener s l)"

definition lists_ok :: "registry \<Rightarrow> bool" where
  "lists_ok s \<longleftrightarrow>
     (\<forall>i. sorted_wrt (precedes_in s) (hk_listeners (hr_hook s i))) \<and>
     (\<forall>i. \<forall>l \<in> set (hk_listeners (hr_hook s i)). l < hr_next_listener s \<and>
        unat (lr_order (hr_listener s l)) < unat (hk_next_order (hr_hook s i))) \<and>
     (\<forall>i j l. l \<in> set (hk_listeners (hr_hook s i)) \<longrightarrow> l \<in> set (hk_listeners (hr_hook s j)) \<longrightarrow> i = j)"

text \<open>\<open>D\<close> holds the listeners an operation has deactivated but not yet taken off its list.\<close>

definition holds_ok :: "nat set \<Rightarrow> registry \<Rightarrow> bool" where
  "holds_ok D s \<longleftrightarrow>
     (\<forall>l. listed s l \<longrightarrow> l \<notin> D \<longrightarrow> lr_active (hr_listener s l)) \<and>
     (\<forall>l. lr_adapter (hr_listener s l) \<noteq> None \<longrightarrow>
        (listed s l \<and> l \<notin> D) \<or> lr_in_flight (hr_listener s l) \<noteq> 0 \<longrightarrow> lr_retained (hr_listener s l)) \<and>
     (\<forall>l. hr_next_listener s \<le> l \<longrightarrow>
        \<not> lr_retained (hr_listener s l) \<and> lr_in_flight (hr_listener s l) = 0)"

definition refs_ok :: "registry \<Rightarrow> bool" where
  "refs_ok s \<longleftrightarrow> (\<forall>a. va_hook_refs (hr_adapter s a) = of_nat (card (holders s a))) \<and>
     (\<forall>i. \<not> hk_adapter_retained (hr_hook s i)) \<and> hr_next_listener s < 2 ^ 64"

definition reg_inv :: "nat set \<Rightarrow> registry \<Rightarrow> bool" where
  "reg_inv D s \<longleftrightarrow> lists_ok s \<and> holds_ok D s \<and> refs_ok s"

section \<open>Elementary updates\<close>

lemma upd_simps [simp]:
  "hr_hook (set_hook i h s) = (hr_hook s)(i := h)"
  "hr_listener (set_hook i h s) = hr_listener s"
  "hr_next_listener (set_hook i h s) = hr_next_listener s"
  "hr_adapter (set_hook i h s) = hr_adapter s"
  "hr_hooks (set_hook i h s) = hr_hooks s"
  "hr_next_hook (set_hook i h s) = hr_next_hook s"
  "hr_world (set_hook i h s) = hr_world s"
  "hr_binding (set_hook i h s) = hr_binding s"
  "hr_generation (set_hook i h s) = hr_generation s"
  "hr_hook (set_listener l r s) = hr_hook s"
  "hr_listener (set_listener l r s) = (hr_listener s)(l := r)"
  "hr_next_listener (set_listener l r s) = hr_next_listener s"
  "hr_adapter (set_listener l r s) = hr_adapter s"
  "hr_hooks (set_listener l r s) = hr_hooks s"
  "hr_next_hook (set_listener l r s) = hr_next_hook s"
  "hr_world (set_listener l r s) = hr_world s"
  "hr_binding (set_listener l r s) = hr_binding s"
  "hr_generation (set_listener l r s) = hr_generation s"
  "hr_hook (set_adapter a v s) = hr_hook s"
  "hr_listener (set_adapter a v s) = hr_listener s"
  "hr_next_listener (set_adapter a v s) = hr_next_listener s"
  "hr_adapter (set_adapter a v s) = (hr_adapter s)(a := v)"
  "hr_hooks (set_adapter a v s) = hr_hooks s"
  "hr_next_hook (set_adapter a v s) = hr_next_hook s"
  "hr_world (set_adapter a v s) = hr_world s"
  "hr_binding (set_adapter a v s) = hr_binding s"
  "hr_generation (set_adapter a v s) = hr_generation s"
  by (simp_all add: set_hook_def set_listener_def set_adapter_def)

text \<open>The invariant reads only these parts of the registry.\<close>

lemma reg_inv_cong:
  assumes "hr_hook s' = hr_hook s" "hr_listener s' = hr_listener s"
    "hr_next_listener s' = hr_next_listener s"
    "\<And>a. va_hook_refs (hr_adapter s' a) = va_hook_refs (hr_adapter s a)"
  shows "reg_inv D s' = reg_inv D s"
  using assms by (simp add: reg_inv_def lists_ok_def holds_ok_def refs_ok_def listed_def holders_def)

text \<open>A hook's record changes, and its list becomes a sublist of what it was.\<close>

lemma reg_inv_hook:
  assumes inv: "reg_inv D s"
    and sorted: "sorted_wrt (precedes_in s) (hk_listeners h)"
    and sub: "set (hk_listeners h) \<subseteq> set (hk_listeners (hr_hook s i))"
    and order: "hk_next_order h = hk_next_order (hr_hook s i)"
    and ret: "\<not> hk_adapter_retained h"
    and keep: "\<And>j l. l \<in> set (hk_listeners (((hr_hook s)(i := h)) j)) \<Longrightarrow> l \<notin> D' \<Longrightarrow> l \<notin> D"
  shows "reg_inv D' (set_hook i h s)"
proof -
  have listed': "listed (set_hook i h s) l \<Longrightarrow> listed s l" for l
    using sub by (auto simp: listed_def split: if_splits)
  have notD: "listed (set_hook i h s) l \<Longrightarrow> l \<notin> D' \<Longrightarrow> l \<notin> D" for l
    using keep by (auto simp: listed_def)
  have 1: "lists_ok (set_hook i h s)"
    using inv sorted sub order unfolding reg_inv_def lists_ok_def
    by (auto simp: subset_iff)
  have 2: "holds_ok D' (set_hook i h s)"
    using inv listed' notD unfolding reg_inv_def holds_ok_def upd_simps by blast
  have 3: "refs_ok (set_hook i h s)"
    using inv ret by (simp add: reg_inv_def refs_ok_def holders_def)
  from 1 2 3 show ?thesis by (simp add: reg_inv_def)
qed

lemma reg_inv_quiet:
  assumes inv: "reg_inv D s" and same: "hk_listeners h = hk_listeners (hr_hook s i)"
    "hk_next_order h = hk_next_order (hr_hook s i)" and ret: "\<not> hk_adapter_retained h"
  shows "reg_inv D (set_hook i h s)"
  by (rule reg_inv_hook [OF inv])
    (use inv same ret in \<open>auto simp: reg_inv_def lists_ok_def\<close>)

text \<open>A listener's record changes without its place, its adapter or its hold on it.\<close>

lemma reg_inv_listener:
  assumes inv: "reg_inv D s" and DD: "D \<subseteq> D'"
    and same: "lr_priority r = lr_priority (hr_listener s l)" "lr_order r = lr_order (hr_listener s l)"
      "lr_adapter r = lr_adapter (hr_listener s l)" "lr_retained r = lr_retained (hr_listener s l)"
    and active: "listed s l \<Longrightarrow> l \<notin> D' \<Longrightarrow> lr_active r"
    and held: "lr_adapter r \<noteq> None \<Longrightarrow> (listed s l \<and> l \<notin> D') \<or> lr_in_flight r \<noteq> 0 \<Longrightarrow> lr_retained r"
    and fresh: "hr_next_listener s \<le> l \<Longrightarrow> lr_in_flight r = 0"
  shows "reg_inv D' (set_listener l r s)"
proof -
  have pre: "precedes_in (set_listener l r s) = precedes_in s"
    using same(1,2) by (intro ext) (simp add: listener_precedes_def)
  have hold: "holders (set_listener l r s) a = holders s a" for a
    using same(3,4) by (auto simp: holders_def)
  have lst: "listed (set_listener l r s) = listed s"
    by (intro ext) (simp add: listed_def)
  have 1: "lists_ok (set_listener l r s)"
    using inv same(2) unfolding reg_inv_def lists_ok_def pre by auto
  have 2: "holds_ok D' (set_listener l r s)"
    using inv DD active held fresh same(4) unfolding reg_inv_def holds_ok_def lst
    by (auto simp: subset_iff)
  have 3: "refs_ok (set_listener l r s)"
    using inv hold by (simp add: reg_inv_def refs_ok_def)
  from 1 2 3 show ?thesis by (simp add: reg_inv_def)
qed

lemma holders_finite [simp]: "finite (holders s a)"
  by (rule finite_subset [of _ "{..<hr_next_listener s}"]) (auto simp: holders_def)

lemma holders_bound: "card (holders s a) \<le> hr_next_listener s"
proof -
  have "card (holders s a) \<le> card {..<hr_next_listener s}"
    by (rule card_mono) (auto simp: holders_def)
  then show ?thesis by simp
qed

definition counters_fit :: "registry \<Rightarrow> bool" where
  "counters_fit s \<longleftrightarrow> hr_next_listener s < 2 ^ 64 - 1 \<and>
     (\<forall>i. hk_next_order (hr_hook s i) \<noteq> UINT64_MAX)"

lemma of_nat_u64_neq_0: "0 < n \<Longrightarrow> n < 2 ^ 64 \<Longrightarrow> (of_nat n :: u64) \<noteq> 0"
  by (metis less_not_refl unat_of_nat64 unsigned_0)

lemma reg_inv_refs: "reg_inv D s \<Longrightarrow> va_hook_refs (hr_adapter s a) = of_nat (card (holders s a))"
  by (simp add: reg_inv_def refs_ok_def)

lemma reg_inv_unretained: "reg_inv D s \<Longrightarrow> \<not> hk_adapter_retained (hr_hook s i)"
  by (simp add: reg_inv_def refs_ok_def)

lemma reg_inv_few: "reg_inv D s \<Longrightarrow> hr_next_listener s < 2 ^ 64"
  by (simp add: reg_inv_def refs_ok_def)

text \<open>A listener with no claim on its adapter gives it back.\<close>

lemma reg_inv_unhold:
  assumes inv: "reg_inv D s" and few: "hr_next_listener s < 2 ^ 64"
    and ret: "lr_retained (hr_listener s l)" and ad: "lr_adapter (hr_listener s l) = Some a"
    and idle: "lr_in_flight (hr_listener s l) = 0" and off: "listed s l \<Longrightarrow> l \<in> D"
  shows "reg_inv D (set_adapter a (VmAdapterReleaseHook (hr_adapter s a))
           (set_listener l ((hr_listener s l)\<lparr>lr_retained := False\<rparr>) s))"
    (is "reg_inv D ?s")
proof -
  have mem: "l \<in> holders s a"
    using inv ret ad by (auto simp: holders_def reg_inv_def holds_ok_def intro: ccontr)
  then have pos: "0 < card (holders s a)"
    by (metis card_gt_0_iff empty_iff holders_finite)
  have hold: "holders ?s b = (if b = a then holders s a - {l} else holders s b)" for b
    using ad by (auto simp: holders_def)
  have card: "card (holders ?s a) = card (holders s a) - 1"
    using mem hold by simp
  have nz: "(of_nat (card (holders s a)) :: u64) \<noteq> 0"
    using pos few holders_bound [of s a] by (intro of_nat_u64_neq_0) auto
  have pre: "precedes_in ?s = precedes_in s"
    by (intro ext) (simp add: listener_precedes_def)
  have lst: "listed ?s = listed s"
    by (intro ext) (simp add: listed_def)
  have 1: "lists_ok ?s"
    using inv unfolding reg_inv_def lists_ok_def pre by auto
  have 2: "holds_ok D ?s"
    using inv idle off unfolding reg_inv_def holds_ok_def lst by auto
  have 3: "refs_ok ?s"
    unfolding refs_ok_def
  proof (intro conjI allI)
    fix b
    show "va_hook_refs (hr_adapter ?s b) = of_nat (card (holders ?s b))"
    proof (cases "b = a")
      case True
      then show ?thesis
        using nz pos card reg_inv_refs [OF inv, of a]
        by (simp add: VmAdapterReleaseHook_def of_nat_diff)
    next
      case False
      then show ?thesis using hold reg_inv_refs [OF inv, of b] by simp
    qed
  next
    fix i
    show "\<not> hk_adapter_retained (hr_hook ?s i)" using reg_inv_unretained [OF inv] by simp
  next
    show "hr_next_listener ?s < 2 ^ 64" using few by simp
  qed
  from 1 2 3 show ?thesis by (simp add: reg_inv_def)
qed

section \<open>Listener operations\<close>

lemma release_frame [simp]:
  "hr_hook (ReleaseListenerVmAdapterIfIdle l s) = hr_hook s"
  "hr_next_listener (ReleaseListenerVmAdapterIfIdle l s) = hr_next_listener s"
  "hr_hooks (ReleaseListenerVmAdapterIfIdle l s) = hr_hooks s"
  "hr_next_hook (ReleaseListenerVmAdapterIfIdle l s) = hr_next_hook s"
  "hr_world (ReleaseListenerVmAdapterIfIdle l s) = hr_world s"
  by (simp_all add: ReleaseListenerVmAdapterIfIdle_def Let_def split: option.split)

text \<open>Releasing touches one field of the listener.\<close>

lemma release_listener:
  "\<exists>ret. hr_listener (ReleaseListenerVmAdapterIfIdle l s) =
     (hr_listener s)(l := (hr_listener s l)\<lparr>lr_retained := ret\<rparr>)"
proof -
  have same: "(hr_listener s)(l := (hr_listener s l)\<lparr>lr_retained := lr_retained (hr_listener s l)\<rparr>) =
      hr_listener s" by simp
  have "hr_listener (ReleaseListenerVmAdapterIfIdle l s) = hr_listener s \<or>
      hr_listener (ReleaseListenerVmAdapterIfIdle l s) =
         (hr_listener s)(l := (hr_listener s l)\<lparr>lr_retained := False\<rparr>)"
    by (simp add: ReleaseListenerVmAdapterIfIdle_def Let_def split: option.split)
  then show ?thesis using same by metis
qed

lemma reg_inv_release:
  assumes inv: "reg_inv D s" and few: "hr_next_listener s < 2 ^ 64"
  shows "reg_inv D (ReleaseListenerVmAdapterIfIdle l s)"
proof -
  have "\<not> lr_active (hr_listener s l) \<Longrightarrow> listed s l \<Longrightarrow> l \<in> D"
    using inv by (auto simp: reg_inv_def holds_ok_def)
  then show ?thesis
    using assms reg_inv_unhold [OF inv few, of l]
    by (auto simp: ReleaseListenerVmAdapterIfIdle_def Let_def split: option.split)
qed

lemma reg_inv_deactivate:
  assumes inv: "reg_inv D s" and few: "hr_next_listener s < 2 ^ 64"
  shows "reg_inv (insert l D) (deactivate_listener l s)"
  unfolding deactivate_listener_def
proof (rule reg_inv_release)
  have "reg_inv D s \<Longrightarrow> lr_adapter (hr_listener s l) \<noteq> None \<Longrightarrow>
      lr_in_flight (hr_listener s l) \<noteq> 0 \<Longrightarrow> lr_retained (hr_listener s l)"
    by (auto simp: reg_inv_def holds_ok_def)
  moreover have "hr_next_listener s \<le> l \<Longrightarrow> lr_in_flight (hr_listener s l) = 0"
    using inv by (auto simp: reg_inv_def holds_ok_def)
  ultimately show "reg_inv (insert l D) (set_listener l ((hr_listener s l)\<lparr>lr_active := False\<rparr>) s)"
    by (intro reg_inv_listener [OF inv]) (use inv in auto)
  show "hr_next_listener (set_listener l ((hr_listener s l)\<lparr>lr_active := False\<rparr>) s) < 2 ^ 64"
    using few by simp
qed

lemma deactivate_frame [simp]:
  "hr_hook (deactivate_listener l s) = hr_hook s"
  "hr_next_listener (deactivate_listener l s) = hr_next_listener s"
  "hr_hooks (deactivate_listener l s) = hr_hooks s"
  "hr_next_hook (deactivate_listener l s) = hr_next_hook s"
  "hr_world (deactivate_listener l s) = hr_world s"
  by (simp_all add: deactivate_listener_def)

lemma deactivate_fold [simp]:
  "hr_hook (fold deactivate_listener ls s) = hr_hook s"
  "hr_next_listener (fold deactivate_listener ls s) = hr_next_listener s"
  "hr_hooks (fold deactivate_listener ls s) = hr_hooks s"
  "hr_next_hook (fold deactivate_listener ls s) = hr_next_hook s"
  "hr_world (fold deactivate_listener ls s) = hr_world s"
  by (induction ls arbitrary: s) simp_all

lemma reg_inv_deactivate_fold:
  assumes "reg_inv D s" "hr_next_listener s < 2 ^ 64"
  shows "reg_inv (set ls \<union> D) (fold deactivate_listener ls s)"
  using assms
proof (induction ls arbitrary: D s)
  case (Cons l ls)
  have "reg_inv (set ls \<union> insert l D) (fold deactivate_listener ls (deactivate_listener l s))"
    by (rule Cons.IH [OF reg_inv_deactivate [OF Cons.prems]]) (use Cons.prems(2) in simp)
  then show ?case by (simp add: Un_commute insert_commute)
qed simp

lemma reg_inv_enter:
  assumes inv: "reg_inv {} s" and l: "listed s l"
  shows "reg_inv {} (enter_listener l s)"
  unfolding enter_listener_def
proof (rule reg_inv_listener [OF inv])
  show "hr_next_listener s \<le> l \<Longrightarrow> lr_in_flight
      ((hr_listener s l)\<lparr>lr_in_flight := lr_in_flight (hr_listener s l) + 1\<rparr>) = 0"
    using inv l by (auto simp: reg_inv_def lists_ok_def listed_def not_le [symmetric])
qed (use inv l in \<open>auto simp: reg_inv_def holds_ok_def\<close>)

lemma reg_inv_exit:
  assumes inv: "reg_inv D s" and few: "hr_next_listener s < 2 ^ 64"
    and flying: "lr_in_flight (hr_listener s l) \<noteq> 0"
  shows "reg_inv D (exit_listener l s)"
  unfolding exit_listener_def
proof (rule reg_inv_release)
  show "reg_inv D (set_listener l ((hr_listener s l)
      \<lparr>lr_in_flight := lr_in_flight (hr_listener s l) - 1\<rparr>) s)"
  proof (rule reg_inv_listener [OF inv])
    show "hr_next_listener s \<le> l \<Longrightarrow> lr_in_flight ((hr_listener s l)
      \<lparr>lr_in_flight := lr_in_flight (hr_listener s l) - 1\<rparr>) = 0"
      using inv flying by (auto simp: reg_inv_def holds_ok_def)
  qed (use inv flying in \<open>auto simp: reg_inv_def holds_ok_def\<close>)
qed (use few in simp)

text \<open>Every listener operation leaves the other listeners, and the fixed parts, alone.\<close>

definition same_listener_fixed :: "registry \<Rightarrow> registry \<Rightarrow> nat \<Rightarrow> bool" where
  "same_listener_fixed s s' l \<longleftrightarrow> (\<exists>act fl ret. hr_listener s' l =
     (hr_listener s l)\<lparr>lr_active := act, lr_in_flight := fl, lr_retained := ret\<rparr>)"

lemma same_listener_fixed_refl [simp]: "same_listener_fixed s s l"
  unfolding same_listener_fixed_def
  by (rule exI [of _ "lr_active (hr_listener s l)"], rule exI [of _ "lr_in_flight (hr_listener s l)"],
      rule exI [of _ "lr_retained (hr_listener s l)"]) simp

lemma deactivate_listener_at:
  "k \<noteq> l \<Longrightarrow> hr_listener (deactivate_listener l s) k = hr_listener s k"
  "\<not> lr_active (hr_listener (deactivate_listener l s) l)"
  "lr_in_flight (hr_listener (deactivate_listener l s) k) = lr_in_flight (hr_listener s k)"
  "lr_generation (hr_listener (deactivate_listener l s) k) = lr_generation (hr_listener s k)"
  "lr_method (hr_listener (deactivate_listener l s) k) = lr_method (hr_listener s k)"
  "lr_adapter (hr_listener (deactivate_listener l s) k) = lr_adapter (hr_listener s k)"
  using release_listener [of l "set_listener l ((hr_listener s l)\<lparr>lr_active := False\<rparr>) s"]
  by (auto simp: deactivate_listener_def)

lemma remove_matching_eq:
  assumes "distinct ls"
  shows "remove_matching P ls s =
     (filter (\<lambda>l. \<not> P (hr_listener s l)) ls,
      fold deactivate_listener (filter (\<lambda>l. P (hr_listener s l)) ls) s)"
  using assms
proof (induction ls arbitrary: s)
  case (Cons l ls)
  have eq: "k \<in> set ls \<Longrightarrow> hr_listener (deactivate_listener l s) k = hr_listener s k" for k
    using Cons.prems by (intro deactivate_listener_at(1)) auto
  have "filter (\<lambda>k. P (hr_listener (deactivate_listener l s) k)) ls =
      filter (\<lambda>k. P (hr_listener s k)) ls"
    "filter (\<lambda>k. \<not> P (hr_listener (deactivate_listener l s) k)) ls =
      filter (\<lambda>k. \<not> P (hr_listener s k)) ls"
    by (simp_all add: eq cong: filter_cong)
  then show ?case using Cons by simp
qed simp

lemma precedes_irrefl [simp]: "\<not> listener_precedes r r"
  by (simp add: listener_precedes_def)

lemma precedes_trans: "listener_precedes a b \<Longrightarrow> listener_precedes b c \<Longrightarrow> listener_precedes a c"
  by (auto simp: listener_precedes_def split: if_splits)

lemma sorted_listeners_distinct:
  "sorted_wrt (precedes_in s) ls \<Longrightarrow> distinct ls"
  by (induction ls) auto

lemma reg_inv_distinct: "reg_inv D s \<Longrightarrow> distinct (hk_listeners (hr_hook s i))"
  by (auto simp: reg_inv_def lists_ok_def intro: sorted_listeners_distinct)

text \<open>Listeners leave a list together.\<close>

lemma reg_inv_take_off:
  assumes inv: "reg_inv {} s" and few: "hr_next_listener s < 2 ^ 64"
    and gone: "set gone \<subseteq> set (hk_listeners (hr_hook s i))"
    and keep: "hk_listeners h = filter (\<lambda>l. l \<notin> set gone) (hk_listeners (hr_hook s i))"
    and same: "hk_next_order h = hk_next_order (hr_hook s i)" "\<not> hk_adapter_retained h"
  shows "reg_inv {} (set_hook i h (fold deactivate_listener gone s))"
proof (rule reg_inv_hook)
  let ?s = "fold deactivate_listener gone s"
  show "reg_inv (set gone) ?s"
    using reg_inv_deactivate_fold [OF inv few, of gone] by simp
  then have "sorted_wrt (precedes_in ?s) (hk_listeners (hr_hook s i))"
    by (simp add: reg_inv_def lists_ok_def)
  then show "sorted_wrt (precedes_in ?s) (hk_listeners h)"
    unfolding keep by (rule sorted_wrt_filter)
  show "set (hk_listeners h) \<subseteq> set (hk_listeners (hr_hook ?s i))" by (auto simp: keep)
  show "hk_next_order h = hk_next_order (hr_hook ?s i)" by (simp add: same)
  show "\<not> hk_adapter_retained h" by (rule same)
  fix j l
  assume l: "l \<in> set (hk_listeners (((hr_hook ?s)(i := h)) j))"
  show "l \<notin> set gone"
  proof (cases "j = i")
    case True
    then show ?thesis using l by (simp add: keep)
  next
    case False
    then have "l \<in> set (hk_listeners (hr_hook s j))" using l by simp
    then show ?thesis
      using inv False gone unfolding reg_inv_def lists_ok_def by blast
  qed
qed

lemma reg_inv_remove_matching:
  assumes inv: "reg_inv {} s" and few: "hr_next_listener s < 2 ^ 64"
    and run: "RemoveMatchingListenersLocked i P s = (matched, s')"
  shows "reg_inv {} s'"
    and "hr_hook s' = (hr_hook s)(i := (hr_hook s i)\<lparr>hk_listeners :=
       filter (\<lambda>l. \<not> P (hr_listener s l)) (hk_listeners (hr_hook s i))\<rparr>)"
    and "s' = set_hook i ((hr_hook s i)\<lparr>hk_listeners :=
          filter (\<lambda>l. \<not> P (hr_listener s l)) (hk_listeners (hr_hook s i))\<rparr>)
          (fold deactivate_listener (filter (\<lambda>l. P (hr_listener s l)) (hk_listeners (hr_hook s i))) s)"
proof -
  have run': "s' = set_hook i ((hr_hook s i)\<lparr>hk_listeners :=
          filter (\<lambda>l. \<not> P (hr_listener s l)) (hk_listeners (hr_hook s i))\<rparr>)
          (fold deactivate_listener (filter (\<lambda>l. P (hr_listener s l)) (hk_listeners (hr_hook s i))) s)"
    using run by (simp add: RemoveMatchingListenersLocked_def
        remove_matching_eq [OF reg_inv_distinct [OF inv]])
  show "reg_inv {} s'"
    unfolding run' by (rule reg_inv_take_off [OF inv few])
      (use reg_inv_unretained [OF inv] in \<open>auto intro!: filter_cong\<close>)
  show "s' = set_hook i ((hr_hook s i)\<lparr>hk_listeners :=
          filter (\<lambda>l. \<not> P (hr_listener s l)) (hk_listeners (hr_hook s i))\<rparr>)
          (fold deactivate_listener (filter (\<lambda>l. P (hr_listener s l)) (hk_listeners (hr_hook s i))) s)"
    by (rule run')
  show "hr_hook s' = (hr_hook s)(i := (hr_hook s i)\<lparr>hk_listeners :=
       filter (\<lambda>l. \<not> P (hr_listener s l)) (hk_listeners (hr_hook s i))\<rparr>)"
    by (simp add: run')
qed

section \<open>A new listener\<close>

lemma insert_listener_set [simp]: "set (insert_listener rec l ls) = insert l (set ls)"
  by (induction ls) auto

text \<open>The new listener goes behind those of its priority, as its order is the largest.\<close>

lemma insert_listener_sorted:
  assumes "sorted_wrt (\<lambda>k l. listener_precedes (rec k) (rec l)) ls"
    and "\<forall>k \<in> set ls. lr_order (rec k) < lr_order (rec l)"
  shows "sorted_wrt (\<lambda>k l. listener_precedes (rec k) (rec l)) (insert_listener rec l ls)"
  using assms
proof (induction ls)
  case (Cons c cs)
  show ?case
  proof (cases "listener_precedes (rec l) (rec c)")
    case True
    then show ?thesis using Cons.prems by (auto intro: precedes_trans)
  next
    case False
    have less: "lr_order (rec c) < lr_order (rec l)" using Cons.prems(2) by simp
    have "\<not> (lr_priority (rec l) > lr_priority (rec c))"
      using False by (simp add: listener_precedes_def split: if_splits)
    then have "listener_precedes (rec c) (rec l)" using less by (auto simp: listener_precedes_def)
    then show ?thesis using Cons False by auto
  qed
qed simp

lemma unat_inc64: "x \<noteq> UINT64_MAX \<Longrightarrow> unat (x + 1) = unat x + 1" for x :: u64
proof -
  assume "x \<noteq> UINT64_MAX"
  then have "unat x + 1 < 2 ^ 64"
    using unsigned_less [of x, where ?'a = nat] by (auto simp: word_unat_eq_iff UINT64_MAX_def)
  then show ?thesis by (simp add: unat_word_ariths)
qed

text \<open>\<open>MakeListenerLocked\<close> and \<open>InsertListenerLocked\<close> together.\<close>

definition add_new_listener :: "nat \<Rightarrow> listener_request \<Rightarrow> registry \<Rightarrow> nat \<times> registry" where
  "add_new_listener i q s =
     (case MakeListenerLocked i q s of (l, s1) \<Rightarrow> (l, InsertListenerLocked i l s1))"

lemma new_listener_simps [simp]:
  "lr_active (new_listener q h)" "lr_in_flight (new_listener q h) = 0"
  "lr_order (new_listener q h) = hk_next_order h"
  "lr_priority (new_listener q h) = lq_priority q"
  "lr_adapter (new_listener q h) = ho_adapter (lq_options q)"
  "lr_retained (new_listener q h) \<longleftrightarrow> ho_adapter (lq_options q) \<noteq> None"
  by (simp_all add: new_listener_def)

lemma add_new_listener_eq:
  "add_new_listener i q s =
     (let l = hr_next_listener s; h = hr_hook s i; rec = (hr_listener s)(l := new_listener q h) in
      (l, s\<lparr>hr_next_listener := l + 1, hr_listener := rec,
            hr_hook := (hr_hook s)(i := h\<lparr>hk_next_listener_id := hk_next_listener_id h + 1,
               hk_next_order := hk_next_order h + 1,
               hk_listeners := insert_listener rec l (hk_listeners h)\<rparr>),
            hr_adapter := (case ho_adapter (lq_options q) of None \<Rightarrow> hr_adapter s
               | Some a \<Rightarrow> (hr_adapter s)(a := VmAdapterRetainHook (hr_adapter s a)))\<rparr>))"
  by (simp add: add_new_listener_def MakeListenerLocked_def InsertListenerLocked_def Let_def
      set_hook_def set_listener_def set_adapter_def split: option.split)

lemma reg_inv_add:
  assumes inv: "reg_inv {} s" and fit: "counters_fit s" and run: "add_new_listener i q s = (l, s')"
  shows "reg_inv {} s'"
proof -
  let ?h = "hr_hook s i" and ?r = "(hr_listener s)(l := new_listener q (hr_hook s i))"
  have l: "l = hr_next_listener s"
    and hooks: "hr_hook s' = (hr_hook s)(i := ?h\<lparr>hk_next_listener_id := hk_next_listener_id ?h + 1,
        hk_next_order := hk_next_order ?h + 1, hk_listeners := insert_listener ?r l (hk_listeners ?h)\<rparr>)"
    and recs: "hr_listener s' = ?r" and nxt: "hr_next_listener s' = l + 1"
    and ads: "hr_adapter s' = (case ho_adapter (lq_options q) of None \<Rightarrow> hr_adapter s
               | Some a \<Rightarrow> (hr_adapter s)(a := VmAdapterRetainHook (hr_adapter s a)))"
    using run by (auto simp: add_new_listener_eq Let_def)
  have off: "l \<notin> set (hk_listeners (hr_hook s j))" for j
    using inv by (auto simp: reg_inv_def lists_ok_def l)
  have old: "\<forall>k \<in> set (hk_listeners (hr_hook s j)). ?r k = hr_listener s k" for j
    using off by auto
  have order: "unat (hk_next_order ?h + 1) = unat (hk_next_order ?h) + 1"
    using fit by (intro unat_inc64) (simp add: counters_fit_def)
  have sorted: "sorted_wrt (\<lambda>j k. listener_precedes (?r j) (?r k)) (hk_listeners (hr_hook s j))" for j
  proof -
    have "sorted_wrt (precedes_in s) (hk_listeners (hr_hook s j))"
      using inv by (simp add: reg_inv_def lists_ok_def)
    then show ?thesis
      by (rule sorted_wrt_mono_rel [rotated]) (use off in auto)
  qed
  have sorted_i: "sorted_wrt (\<lambda>j k. listener_precedes (?r j) (?r k)) (insert_listener ?r l (hk_listeners ?h))"
  proof (rule insert_listener_sorted [OF sorted])
    show "\<forall>k\<in>set (hk_listeners ?h). lr_order (?r k) < lr_order (?r l)"
      using inv off by (auto simp: reg_inv_def lists_ok_def word_less_nat_alt)
  qed
  have 1: "lists_ok s'"
    unfolding lists_ok_def hooks recs nxt
  proof (intro conjI allI ballI impI)
    fix j
    show "sorted_wrt (\<lambda>j k. listener_precedes (?r j) (?r k))
        (hk_listeners (((hr_hook s)(i := ?h\<lparr>hk_next_listener_id := hk_next_listener_id ?h + 1,
        hk_next_order := hk_next_order ?h + 1, hk_listeners := insert_listener ?r l (hk_listeners ?h)\<rparr>)) j))"
      using sorted sorted_i by simp
  qed (use inv off order in \<open>auto simp: reg_inv_def lists_ok_def l less_Suc_eq split: if_splits\<close>)
  have lst: "listed s' k \<longleftrightarrow> k = l \<or> listed s k" for k
    by (auto simp: listed_def hooks)
  have 2: "holds_ok {} s'"
    using inv unfolding reg_inv_def holds_ok_def recs nxt lst by (auto simp: l)
  have few: "hr_next_listener s < 2 ^ 64 - 1" using fit by (simp add: counters_fit_def)
  have new: "l \<notin> holders s a" for a by (simp add: holders_def l)
  have hold: "holders s' a = (if ho_adapter (lq_options q) = Some a then insert l (holders s a)
      else holders s a)" for a
    by (auto simp: holders_def recs nxt l less_Suc_eq)
  have 3: "refs_ok s'"
    unfolding refs_ok_def
  proof (intro conjI allI)
    fix a
    show "va_hook_refs (hr_adapter s' a) = of_nat (card (holders s' a))"
      using reg_inv_refs [OF inv, of a] new
      by (auto simp: hold ads VmAdapterRetainHook_def split: option.split)
  next
    fix j
    show "\<not> hk_adapter_retained (hr_hook s' j)"
      using reg_inv_unretained [OF inv] by (simp add: hooks)
  next
    show "hr_next_listener s' < 2 ^ 64" using few by (simp add: nxt l)
  qed
  from 1 2 3 show ?thesis by (simp add: reg_inv_def)
qed

text \<open>The last reference to a listener that is on no list and in no invocation goes.\<close>

lemma reg_inv_destroy:
  assumes inv: "reg_inv D s" and few: "hr_next_listener s < 2 ^ 64"
    and idle: "lr_in_flight (hr_listener s l) = 0" and off: "listed s l \<Longrightarrow> l \<in> D"
  shows "reg_inv D (DestroyListenerRecord l s)"
proof (cases "lr_retained (hr_listener s l) \<and> lr_adapter (hr_listener s l) \<noteq> None")
  case True
  then obtain a where a: "lr_adapter (hr_listener s l) = Some a" "lr_retained (hr_listener s l)" by blast
  then have "DestroyListenerRecord l s = set_adapter a (VmAdapterReleaseHook (hr_adapter s a))
      (set_listener l ((hr_listener s l)\<lparr>lr_retained := False\<rparr>) s)"
    by (simp add: DestroyListenerRecord_def Let_def)
  then show ?thesis using reg_inv_unhold [OF inv few a(2,1) idle off] by simp
next
  case False
  have pre: "precedes_in (set_listener l ((hr_listener s l)\<lparr>lr_retained := False\<rparr>) s) = precedes_in s"
    by (intro ext) (simp add: listener_precedes_def)
  have hold: "holders (set_listener l ((hr_listener s l)\<lparr>lr_retained := False\<rparr>) s) a = holders s a" for a
    using False by (auto simp: holders_def)
  have lst: "listed (set_listener l ((hr_listener s l)\<lparr>lr_retained := False\<rparr>) s) = listed s"
    by (intro ext) (simp add: listed_def)
  have 1: "lists_ok (set_listener l ((hr_listener s l)\<lparr>lr_retained := False\<rparr>) s)"
    using inv unfolding reg_inv_def lists_ok_def pre by simp
  have 2: "holds_ok D (set_listener l ((hr_listener s l)\<lparr>lr_retained := False\<rparr>) s)"
  proof -
    have h: "holds_ok D s" using inv by (simp add: reg_inv_def)
    show ?thesis
      unfolding holds_ok_def lst upd_simps
    proof (intro conjI allI impI)
      fix k
      show "lr_active (((hr_listener s)(l := (hr_listener s l)\<lparr>lr_retained := False\<rparr>)) k)"
        if "listed s k" "k \<notin> D"
        using h that by (cases "k = l") (simp_all add: holds_ok_def)
      show "lr_retained (((hr_listener s)(l := (hr_listener s l)\<lparr>lr_retained := False\<rparr>)) k)"
        if "lr_adapter (((hr_listener s)(l := (hr_listener s l)\<lparr>lr_retained := False\<rparr>)) k) \<noteq> None"
          "listed s k \<and> k \<notin> D \<or>
           lr_in_flight (((hr_listener s)(l := (hr_listener s l)\<lparr>lr_retained := False\<rparr>)) k) \<noteq> 0"
      proof (cases "k = l")
        case True
        then show ?thesis using that idle off by simp
      next
        case False
        then show ?thesis using h that unfolding holds_ok_def by simp blast
      qed
    qed (use h in \<open>simp_all add: holds_ok_def\<close>)
  qed
  have 3: "refs_ok (set_listener l ((hr_listener s l)\<lparr>lr_retained := False\<rparr>) s)"
    using inv by (simp add: reg_inv_def refs_ok_def hold)
  from 1 2 3 have "reg_inv D (set_listener l ((hr_listener s l)\<lparr>lr_retained := False\<rparr>) s)"
    by (simp add: reg_inv_def)
  moreover have "DestroyListenerRecord l s = set_listener l ((hr_listener s l)\<lparr>lr_retained := False\<rparr>) s"
    using False by (cases "lr_adapter (hr_listener s l)") (simp_all add: DestroyListenerRecord_def Let_def split: bool.split)
  ultimately show ?thesis by simp
qed

section \<open>Operations that leave the listeners alone\<close>

definition quiet :: "registry \<Rightarrow> registry \<Rightarrow> bool" where
  "quiet s s' \<longleftrightarrow> hr_listener s' = hr_listener s \<and> hr_next_listener s' = hr_next_listener s \<and>
     hr_next_hook s' = hr_next_hook s \<and>
     (\<forall>a. va_hook_refs (hr_adapter s' a) = va_hook_refs (hr_adapter s a)) \<and>
     (\<forall>i. hk_listeners (hr_hook s' i) = hk_listeners (hr_hook s i) \<and>
          hk_next_order (hr_hook s' i) = hk_next_order (hr_hook s i) \<and>
          \<not> hk_adapter_retained (hr_hook s' i))"

lemma reg_inv_quietly: "reg_inv D s \<Longrightarrow> quiet s s' \<Longrightarrow> reg_inv D s'"
  by (auto simp: quiet_def reg_inv_def lists_ok_def holds_ok_def refs_ok_def listed_def holders_def)

lemma quiet_trans: "quiet s t \<Longrightarrow> quiet t u \<Longrightarrow> quiet s u"
  by (simp add: quiet_def)

lemma quiet_refl: "(\<forall>i. \<not> hk_adapter_retained (hr_hook s i)) \<Longrightarrow> quiet s s"
  by (simp add: quiet_def)

lemma quiet_hook:
  "quiet s t \<Longrightarrow> hk_listeners h = hk_listeners (hr_hook t i) \<Longrightarrow>
     hk_next_order h = hk_next_order (hr_hook t i) \<Longrightarrow> \<not> hk_adapter_retained h \<Longrightarrow>
     quiet s (set_hook i h t)"
  by (simp add: quiet_def)

lemma quiet_unretained: "quiet s t \<Longrightarrow> \<not> hk_adapter_retained (hr_hook t i)"
  by (simp add: quiet_def)

lemma quiet_bridge: "quiet s t \<Longrightarrow> quiet s (ReleaseArm64ExceptionBridgeConsumer i t)"
  "quiet s t \<Longrightarrow> quiet s (RegisterArm64ExceptionBridgeConsumer i t)"
  by (auto simp: quiet_def ReleaseArm64ExceptionBridgeConsumer_def
      RegisterArm64ExceptionBridgeConsumer_def Let_def set_hook_def)

lemma quiet_unbind: "quiet s t \<Longrightarrow> quiet s (unbind_target i t)" "quiet s t \<Longrightarrow> quiet s (bind_target i t)"
  by (auto simp: quiet_def unbind_target_def bind_target_def split: option.split)

lemma quiet_fail: "quiet s t \<Longrightarrow> quiet s (fail_hook i t)"
  by (simp add: fail_hook_def quiet_hook quiet_unretained)

lemma remove_backend_shape:
  assumes "remove_backend i t = (r, t')"
  shows "\<exists>p b st. t' = set_hook i ((hr_hook t i)\<lparr>hk_published := p, hk_backend_installed := b,
     hk_state := st\<rparr>) t"
proof (cases "hk_backend_installed (hr_hook t i)")
  case False
  then have "t' = t"
    using assms by (simp add: remove_backend_def Let_def split: option.splits)
  then have "t' = set_hook i ((hr_hook t i)\<lparr>hk_published := hk_published (hr_hook t i),
      hk_backend_installed := hk_backend_installed (hr_hook t i), hk_state := hk_state (hr_hook t i)\<rparr>) t"
    by (simp add: set_hook_def)
  then show ?thesis by blast
next
  case installed: True
  show ?thesis
  proof (cases "hk_published (hr_hook t i)")
    case None
    then have "t' = fail_hook i t \<or> t' = set_hook i ((hr_hook t i)\<lparr>hk_backend_installed := False\<rparr>) t"
      using assms installed by (simp add: remove_backend_def Let_def split: if_splits)
    then have "t' = set_hook i ((hr_hook t i)\<lparr>hk_published := hk_published (hr_hook t i),
        hk_backend_installed := hk_backend_installed (hr_hook t i), hk_state := RFailed\<rparr>) t \<or>
      t' = set_hook i ((hr_hook t i)\<lparr>hk_published := hk_published (hr_hook t i),
        hk_backend_installed := False, hk_state := hk_state (hr_hook t i)\<rparr>) t"
      by (simp add: fail_hook_def set_hook_def)
    then show ?thesis by blast
  next
    case (Some p)
    let ?d = "BeginDrainPublishedHostHook (Some p)"
    obtain ok c where c: "ClosePublishedHostHook ?d = (ok, c)" by fastforce
    obtain st u where u: "UninstallPublishedHostHook c = (st, u)" by fastforce
    let ?b = "case u of None \<Rightarrow> False | Some q \<Rightarrow> ph_backend_installed q"
    have "t' = set_hook i ((hr_hook t i)\<lparr>hk_published := ?d\<rparr>) t \<or>
        t' = set_hook i ((hr_hook t i)\<lparr>hk_published := c\<rparr>) t \<or>
        t' = fail_hook i (set_hook i ((hr_hook t i)\<lparr>hk_published := u, hk_backend_installed := ?b\<rparr>) t) \<or>
        t' = set_hook i ((hr_hook t i)\<lparr>hk_published := u, hk_backend_installed := ?b\<rparr>) t"
      using assms installed Some c u
      by (simp add: remove_backend_def Let_def split: if_splits bool.splits)
    then have "t' = set_hook i ((hr_hook t i)\<lparr>hk_published := ?d, hk_backend_installed := hk_backend_installed (hr_hook t i),
          hk_state := hk_state (hr_hook t i)\<rparr>) t \<or>
        t' = set_hook i ((hr_hook t i)\<lparr>hk_published := c, hk_backend_installed := hk_backend_installed (hr_hook t i),
          hk_state := hk_state (hr_hook t i)\<rparr>) t \<or>
        t' = set_hook i ((hr_hook t i)\<lparr>hk_published := u, hk_backend_installed := ?b,
          hk_state := RFailed\<rparr>) t \<or>
        t' = set_hook i ((hr_hook t i)\<lparr>hk_published := u, hk_backend_installed := ?b,
          hk_state := hk_state (hr_hook t i)\<rparr>) t"
      by (simp add: fail_hook_def set_hook_def)
    then show ?thesis by blast
  qed
qed

lemma quiet_remove_backend:
  assumes "quiet s t" "remove_backend i t = (r, t')"
  shows "quiet s t'"
  using remove_backend_shape [OF assms(2)] assms(1) quiet_unretained [OF assms(1)]
  by (auto intro!: quiet_hook)

lemma quiet_finish:
  assumes q: "quiet s t" and run: "FinishUnhookLocked restore i t = (st, t')"
  shows "quiet s t'"
proof (cases "remove_backend i t")
  case (Pair r t1)
  have 1: "quiet s t1" by (rule quiet_remove_backend [OF q Pair])
  have 2: "quiet s (set_hook i ((hr_hook t1 i)\<lparr>hk_active := False\<rparr>) t1)"
    by (rule quiet_hook [OF 1]) (simp_all add: quiet_unretained [OF 1])
  have 3: "quiet s (unbind_target i (ReleaseArm64ExceptionBridgeConsumer i
      (set_hook i ((hr_hook t1 i)\<lparr>hk_active := False, hk_entry_ready := False\<rparr>)
         (set_hook i ((hr_hook t1 i)\<lparr>hk_active := False\<rparr>) t1))))"
    by (intro quiet_unbind quiet_bridge quiet_hook [OF 2]) (simp_all add: quiet_unretained [OF 1])
  show ?thesis
    using run 1 Pair quiet_fail [OF 2, of i] quiet_unretained [OF 3, of i]
      quiet_hook [OF 3, of _ i]
    by (auto simp: FinishUnhookLocked_def Let_def split: option.splits if_splits)
qed

section \<open>Unhooking and invalidation\<close>

lemma reg_inv_unhook:
  assumes inv: "reg_inv {} s" and few: "hr_next_listener s < 2 ^ 64"
    and run: "UnhookRecordLocked restore i s = (st, s')"
  shows "reg_inv {} s'"
proof (cases "hk_state (hr_hook s i) \<in> {RUnhooked, RRetired, RUnhooking}")
  case True
  then show ?thesis using run inv by (auto simp: UnhookRecordLocked_def Let_def split: if_splits)
next
  case False
  let ?h = "hr_hook s i"
  let ?s0 = "set_hook i (?h\<lparr>hk_state := RUnhooking, hk_active := False\<rparr>) s"
  let ?s1 = "fold deactivate_listener (hk_listeners ?h) ?s0"
  let ?s2 = "set_hook i ((hr_hook ?s1 i)\<lparr>hk_listeners := [],
                   hk_published := (if hk_published ?h \<noteq> None \<and> hk_backend_installed ?h
                                    then BeginDrainPublishedHostHook (hk_published ?h)
                                    else hk_published ?h)\<rparr>) ?s1"
  have 0: "reg_inv {} ?s0"
    by (rule reg_inv_quiet [OF inv]) (simp_all add: reg_inv_unretained [OF inv])
  have 2: "reg_inv {} ?s2"
    by (rule reg_inv_take_off [OF 0]) (use few in \<open>simp_all add: reg_inv_unretained [OF inv]\<close>)
  have un: "\<forall>j. \<not> hk_adapter_retained (hr_hook ?s2 j)"
    using reg_inv_unretained [OF 2] by blast
  have eq: "UnhookRecordLocked restore i s =
      (if hk_in_flight ?h \<noteq> 0 then (DP_OK, ?s2) else FinishUnhookLocked restore i ?s2)"
    using False by (simp add: UnhookRecordLocked_def Let_def)
  show ?thesis
  proof (cases "hk_in_flight ?h \<noteq> 0")
    case True
    then show ?thesis using run eq 2 by simp
  next
    case False
    then have "FinishUnhookLocked restore i ?s2 = (st, s')" using run eq by simp
    then show ?thesis by (rule reg_inv_quietly [OF 2 quiet_finish [OF quiet_refl [OF un]]])
  qed
qed

text \<open>One hook of the invalidation loops.\<close>

lemma reg_inv_invalidate_one:
  assumes inv: "reg_inv {} s" and run: "invalidate_one restore skip fallback P i s = (st, s')"
  shows "reg_inv {} s'"
proof -
  obtain m s1 where m: "(if hk_listeners (hr_hook s i) = [] then (fallback s (hr_hook s i), s)
      else RemoveMatchingListenersLocked i P s) = (m, s1)" by fastforce
  then have 1: "reg_inv {} s1"
    using inv reg_inv_remove_matching(1) [OF inv reg_inv_few [OF inv]] by (auto split: if_splits)
  show ?thesis
    using run m 1 inv reg_inv_unhook [OF 1 reg_inv_few [OF 1]]
    by (auto simp: invalidate_one_def Let_def split: if_splits)
qed

lemma reg_inv_over_hooks:
  assumes step: "\<And>i s st s'. reg_inv {} s \<Longrightarrow> f i s = (st, s') \<Longrightarrow> reg_inv {} s'"
    and inv: "reg_inv {} s" and run: "over_hooks f is st s = (st', s')"
  shows "reg_inv {} s'"
  using inv run
proof (induction "is" arbitrary: st s)
  case (Cons i "is")
  obtain st1 s1 where 1: "f i s = (st1, s1)" by fastforce
  show ?case
    using Cons.IH [OF step [OF Cons.prems(1) 1]] Cons.prems(2) 1 by (auto split: if_splits)
qed simp

lemma reg_inv_retire_hook: "reg_inv D s \<Longrightarrow> reg_inv D (retire_hook i s)"
proof -
  assume inv: "reg_inv D s"
  have un: "\<forall>j. \<not> hk_adapter_retained (hr_hook s j)" using reg_inv_unretained [OF inv] by blast
  have "quiet s (retire_hook i s)"
    unfolding retire_hook_def by (intro quiet_bridge quiet_hook quiet_refl) (use un in simp_all)
  then show ?thesis by (rule reg_inv_quietly [OF inv])
qed

lemma reg_inv_retire_generation:
  assumes inv: "reg_inv {} s"
  shows "reg_inv {} (retire_generation g i s)"
proof -
  obtain m s1 where m: "(if hk_listeners (hr_hook s i) = [] then (hk_generation (hr_hook s i) = Some g, s)
      else RemoveMatchingListenersLocked i (of_generation g) s) = (m, s1)" by fastforce
  then have 1: "reg_inv {} s1"
    using inv reg_inv_remove_matching(1) [OF inv reg_inv_few [OF inv]] by (auto split: if_splits)
  show ?thesis
    using m 1 inv reg_inv_retire_hook [OF 1] by (simp add: retire_generation_def Let_def)
qed

lemma reg_inv_retire_image:
  assumes inv: "reg_inv {} s"
  shows "reg_inv {} (retire_image g img epoch i s)"
proof -
  let ?h = "hr_hook s i"
  let ?s0 = "set_hook i (?h\<lparr>hk_active := False\<rparr>) s"
  let ?s1 = "fold deactivate_listener (hk_listeners ?h) ?s0"
  have 0: "reg_inv {} ?s0"
    by (rule reg_inv_quiet [OF inv]) (simp_all add: reg_inv_unretained [OF inv])
  have 2: "reg_inv {} (set_hook i ((hr_hook ?s1 i)\<lparr>hk_listeners := []\<rparr>) ?s1)"
    by (rule reg_inv_take_off [OF 0 reg_inv_few [OF 0]]) (simp_all add: reg_inv_unretained [OF inv])
  show ?thesis
    using inv reg_inv_retire_hook [OF 2] by (simp add: retire_image_def Let_def)
qed

lemma reg_inv_fold:
  assumes "\<And>i s. reg_inv {} s \<Longrightarrow> reg_inv {} (f i s)" "reg_inv {} s"
  shows "reg_inv {} (fold f is s)"
  using assms(2) by (induction "is" arbitrary: s) (simp_all add: assms(1))

section \<open>Installing\<close>

lemma reg_inv_add_hook:
  assumes "reg_inv D (set_hook i h s)"
  shows "reg_inv D (add_hook i h s)"
proof -
  have "reg_inv D (add_hook i h s) = reg_inv D (set_hook i h s)"
    by (rule reg_inv_cong) (simp_all add: add_hook_def)
  then show ?thesis using assms by simp
qed

lemma reg_inv_empty_list:
  assumes inv: "reg_inv {} s" and few: "hr_next_listener s < 2 ^ 64"
    and only: "hk_listeners (hr_hook s i) = [l]" and idle: "lr_in_flight (hr_listener s l) = 0"
    and h: "hk_listeners h = []" "hk_next_order h = hk_next_order (hr_hook s i)" "\<not> hk_adapter_retained h"
  shows "reg_inv {} (DestroyListenerRecord l (set_hook i h s))"
proof (rule reg_inv_destroy)
  show "reg_inv {} (set_hook i h s)"
    by (rule reg_inv_hook [OF inv]) (use h in auto)
  show "hr_next_listener (set_hook i h s) < 2 ^ 64" using few by simp
  show "lr_in_flight (hr_listener (set_hook i h s) l) = 0" using idle by simp
  have "\<And>j. l \<in> set (hk_listeners (hr_hook s j)) \<Longrightarrow> j = i"
    using inv only unfolding reg_inv_def lists_ok_def by (metis list.set_intros(1))
  then show "listed (set_hook i h s) l \<Longrightarrow> l \<in> {}"
    using h(1) by (auto simp: listed_def split: if_splits)
qed

lemma reg_inv_fresh:
  assumes inv: "reg_inv {} s" and h: "hk_listeners h = []" "\<not> hk_adapter_retained h"
  shows "reg_inv {} (set_hook i h s)"
proof -
  have sub: "\<And>l. listed (set_hook i h s) l \<Longrightarrow> listed s l"
    using h(1) by (auto simp: listed_def split: if_splits)
  have 1: "lists_ok (set_hook i h s)"
    using inv h(1) unfolding reg_inv_def lists_ok_def by auto
  have 2: "holds_ok {} (set_hook i h s)"
    using inv sub unfolding reg_inv_def holds_ok_def upd_simps by blast
  have 3: "refs_ok (set_hook i h s)"
    using inv h(2) by (simp add: reg_inv_def refs_ok_def holders_def)
  from 1 2 3 show ?thesis by (simp add: reg_inv_def)
qed

text \<open>A record that is being installed holds its first listener only.\<close>

definition installing :: "nat \<Rightarrow> nat \<Rightarrow> registry \<Rightarrow> bool" where
  "installing i l s \<longleftrightarrow> reg_inv {} s \<and> hk_listeners (hr_hook s i) = [l] \<and>
     lr_in_flight (hr_listener s l) = 0"

lemma installing_prepare:
  assumes inv: "reg_inv {} s" and fit: "counters_fit s"
    and run: "prepare_hook q layout xb target s = (l, s')"
  shows "installing (hr_next_hook s) l s'"
proof -
  let ?i = "hr_next_hook s" and ?lq = "ir_listener q"
  let ?h = "(new_hook target)\<lparr>hk_has_method := True,
      hk_shared_code_opt_in := AllowsSharedCode (lq_options ?lq),
      hk_adapter := ho_adapter (lq_options ?lq), hk_binding := hr_binding s,
      hk_generation := lq_generation ?lq, hk_expected := lq_expected ?lq,
                 hk_method := lq_method ?lq, hk_profile := ir_profile q, hk_layout := layout,
                 hk_null_value := lq_null_value ?lq,
                 hk_true_value := lq_true_value ?lq, hk_false_value := lq_false_value ?lq,
                 hk_state := RInstalling\<rparr>"
  let ?s0 = "set_hook ?i ?h s"
  have h: "hk_listeners ?h = []" "\<not> hk_adapter_retained ?h" "hk_next_order ?h = 1"
    by (simp_all add: new_hook_def)
  have 0: "reg_inv {} ?s0" by (rule reg_inv_fresh [OF inv h(1,2)])
  have fit0: "counters_fit ?s0"
    using fit h(3) by (simp add: counters_fit_def UINT64_MAX_def)
  have add: "add_new_listener ?i (?lq\<lparr>lq_layout := layout, lq_exception := xb\<rparr>) ?s0 = (l, s')"
    using run by (simp add: prepare_hook_def add_new_listener_def Let_def split: prod.splits)
  have "reg_inv {} s'" by (rule reg_inv_add [OF 0 fit0 add])
  moreover have "hk_listeners (hr_hook s' ?i) = [l]" "lr_in_flight (hr_listener s' l) = 0"
    using add h(1) by (auto simp: add_new_listener_eq Let_def)
  ultimately show ?thesis by (simp add: installing_def)
qed

lemma installing_hook:
  assumes "installing i l s" "hk_listeners h = hk_listeners (hr_hook s i)"
    "hk_next_order h = hk_next_order (hr_hook s i)" "\<not> hk_adapter_retained h"
  shows "installing i l (set_hook i h s)"
  using assms reg_inv_quiet [of "{}" s h i] by (simp add: installing_def)

lemma installing_unretained: "installing i l s \<Longrightarrow> \<not> hk_adapter_retained (hr_hook s j)"
  unfolding installing_def using reg_inv_unretained by blast

lemma installing_drop:
  assumes "installing i l s"
  shows "reg_inv {} (drop_hook i l s)"
proof -
  have inv: "reg_inv {} s" using assms by (simp add: installing_def)
  show ?thesis
    unfolding drop_hook_def
    by (rule reg_inv_empty_list [OF inv reg_inv_few [OF inv]])
      (use assms reg_inv_unretained [OF inv] in \<open>simp_all add: installing_def\<close>)
qed

lemma destroy_frame [simp]:
  "hr_hook (DestroyListenerRecord l s) = hr_hook s"
  "hr_next_listener (DestroyListenerRecord l s) = hr_next_listener s"
  "hr_hooks (DestroyListenerRecord l s) = hr_hooks s"
  "hr_next_hook (DestroyListenerRecord l s) = hr_next_hook s"
  "hr_world (DestroyListenerRecord l s) = hr_world s"
  by (simp_all add: DestroyListenerRecord_def Let_def split: bool.split option.split)

lemma installing_keep:
  assumes ins: "installing i l s"
  shows "reg_inv {} (keep_failed_hook st i l s)"
proof -
  let ?h = "(hr_hook s i)\<lparr>hk_active := False, hk_state := st, hk_listeners := []\<rparr>"
  have inv: "reg_inv {} s" and only: "hk_listeners (hr_hook s i) = [l]"
    and idle: "lr_in_flight (hr_listener s l) = 0"
    using ins by (simp_all add: installing_def)
  have 1: "reg_inv {} (set_hook i ?h s)"
    by (rule reg_inv_fresh [OF inv]) (simp_all add: reg_inv_unretained [OF inv])
  have off: "\<And>j. l \<in> set (hk_listeners (hr_hook s j)) \<Longrightarrow> j = i"
    using inv only unfolding reg_inv_def lists_ok_def by (metis list.set_intros(1))
  show ?thesis
    unfolding keep_failed_hook_def
  proof (rule reg_inv_destroy)
    show "reg_inv {} (add_hook i ?h s)" by (rule reg_inv_add_hook [OF 1])
    show "hr_next_listener (add_hook i ?h s) < 2 ^ 64"
      using reg_inv_few [OF inv] by (simp add: add_hook_def)
    show "lr_in_flight (hr_listener (add_hook i ?h s) l) = 0"
      using idle by (simp add: add_hook_def)
    show "listed (add_hook i ?h s) l \<Longrightarrow> l \<in> {}"
      using off by (auto simp: listed_def add_hook_def split: if_splits)
  qed
qed

lemma reg_inv_publish_gated:
  assumes ins: "installing i l s" and run: "publish_gated ba i l target s = (st, original, s')"
  shows "st \<noteq> DP_OK \<Longrightarrow> reg_inv {} s'" "st = DP_OK \<Longrightarrow> installing i l s'"
proof -
  obtain st1 p1 where 1: "PreparePublishedHostHook (ba_gate_stub ba) (Some empty_published) (hr_binding s)
      target (hk_replacement (hr_hook s i)) True 0 = (st1, p1)" by fastforce
  obtain st2 og p2 where 2: "InstallPublishedHostHook p1 True = (st2, og, p2)" by (metis prod_cases3)
  note un = installing_unretained [OF ins]
  have hook: "installing i l (set_hook i h s)"
    if "hk_listeners h = hk_listeners (hr_hook s i)" "hk_next_order h = hk_next_order (hr_hook s i)"
      "\<not> hk_adapter_retained h" for h
    by (rule installing_hook [OF ins that])
  show "st \<noteq> DP_OK \<Longrightarrow> reg_inv {} s'" "st = DP_OK \<Longrightarrow> installing i l s'"
    using run 1 2 installing_drop [OF ins]
    by (auto simp: publish_gated_def Let_def un intro!: hook installing_keep split: if_splits)
qed

lemma reg_inv_publish_raw:
  assumes ins: "installing i l s" and run: "publish_raw f i l target s = (st, original, s')"
  shows "st \<noteq> DP_OK \<Longrightarrow> reg_inv {} s'" "st = DP_OK \<Longrightarrow> installing i l s'"
proof -
  obtain st1 og where 1: "f target (hk_replacement (hr_hook s i)) = (st1, og)" by fastforce
  note un = installing_unretained [OF ins]
  show "st \<noteq> DP_OK \<Longrightarrow> reg_inv {} s'" "st = DP_OK \<Longrightarrow> installing i l s'"
    using run 1 installing_drop [OF ins]
    by (auto simp: publish_raw_def Let_def un intro!: installing_hook [OF ins] installing_keep
        split: if_splits)
qed

lemma reg_inv_undo:
  assumes ins: "installing i l s"
  shows "reg_inv {} (undo_publication real_dart restored f i l target s)"
proof -
  obtain st p where 1: "UninstallPublishedHostHook (snd (ClosePublishedHostHook
      (hk_published (hr_hook s i)))) = (st, p)" by fastforce
  note un = installing_unretained [OF ins]
  show ?thesis
    using 1 by (auto simp: undo_publication_def Let_def un
        intro!: installing_hook [OF ins] installing_keep installing_drop)
qed

lemma reg_inv_bind_target: "reg_inv D s \<Longrightarrow> reg_inv D (bind_target i s)"
proof -
  assume inv: "reg_inv D s"
  have un: "\<forall>j. \<not> hk_adapter_retained (hr_hook s j)" using reg_inv_unretained [OF inv] by blast
  show ?thesis by (rule reg_inv_quietly [OF inv quiet_unbind(2) [OF quiet_refl [OF un]]])
qed

lemma installing_register:
  "installing i l s \<Longrightarrow> installing i l (RegisterArm64ExceptionBridgeConsumer i s)"
proof -
  assume ins: "installing i l s"
  have un: "\<forall>j. \<not> hk_adapter_retained (hr_hook s j)" using installing_unretained [OF ins] by blast
  have q: "quiet s (RegisterArm64ExceptionBridgeConsumer i s)" by (rule quiet_bridge [OF quiet_refl [OF un]])
  then show ?thesis
    using ins reg_inv_quietly [OF _ q] by (simp add: installing_def quiet_def)
qed

lemma reg_inv_finish_install:
  assumes "installing i l s"
  shows "reg_inv {} (finish_install real_dart handle i s)"
proof -
  let ?s5 = "if real_dart then RegisterArm64ExceptionBridgeConsumer i s else s"
  have ins: "installing i l ?s5" using assms installing_register by simp
  then have inv: "reg_inv {} ?s5" by (simp add: installing_def)
  show ?thesis
    unfolding finish_install_def Let_def
    by (intro reg_inv_bind_target reg_inv_add_hook reg_inv_quiet [OF inv]) simp_all
qed

lemma reg_inv_complete:
  assumes "fst p \<noteq> DP_OK \<Longrightarrow> reg_inv {} (snd (snd p))" "fst p = DP_OK \<Longrightarrow> installing i l (snd (snd p))"
  shows "reg_inv {} (snd (complete_install ba real_dart handle hu i l target p))"
proof -
  obtain st og s where p: "p = (st, og, s)" by (metis prod_cases3)
  let ?s = "set_hook i ((hr_hook s i)\<lparr>hk_backup := og, hk_entry_ready := True\<rparr>) s"
  have "st = DP_OK \<Longrightarrow> installing i l ?s"
    using assms(2) p by (intro installing_hook) (simp_all add: installing_unretained)
  then show ?thesis
    using assms(1) p reg_inv_undo [of i l ?s] reg_inv_finish_install [of i l ?s]
    by (simp add: complete_install_def Let_def)
qed

lemma reg_inv_install_new:
  assumes ins: "installing i l s"
  shows "reg_inv {} (snd (install_new_hook ba real_dart handle hf hu i l target s))"
proof -
  let ?h = "(hr_hook s i)\<lparr>hk_replacement := fst (ba_stub ba), hk_replacement_size := snd (ba_stub ba)\<rparr>"
  note un = installing_unretained [OF ins]
  have 1: "installing i l (set_hook i ?h s)"
    and 2: "installing i l (set_hook i (?h\<lparr>hk_replacement := 0, hk_replacement_size := 0\<rparr>) s)"
    by (rule installing_hook [OF ins]; simp add: un)+
  let ?p = "if real_dart then publish_gated ba i l target (set_hook i ?h s)
     else publish_raw hf i l target (set_hook i ?h s)"
  obtain st og s' where p: "?p = (st, og, s')" by (metis prod_cases3)
  have "st \<noteq> DP_OK \<Longrightarrow> reg_inv {} s'" "st = DP_OK \<Longrightarrow> installing i l s'"
    using p reg_inv_publish_gated [OF 1] reg_inv_publish_raw [OF 1] by (metis (full_types))+
  then have "reg_inv {} (snd (complete_install ba real_dart handle hu i l target ?p))"
    by (intro reg_inv_complete) (simp_all add: p)
  then show ?thesis
    using installing_drop [OF ins] installing_keep [OF 2] by (simp add: install_new_hook_def Let_def)
qed

lemma reg_inv_install_locked:
  assumes inv: "reg_inv {} s" and fit: "counters_fit s"
    and run: "install_locked env ba q f b layout s = (st, out, s')"
  shows "reg_inv {} s'"
proof -
  let ?real = "df_source f \<noteq> SourceSynthetic"
  let ?t = "MethodTarget (hr_world s) (lq_method (ir_listener q))"
  have "s' = s \<or> (\<exists>l s1 hf hu. prepare_hook q layout (exception_binding_for env f b) (df_target f) s = (l, s1) \<and>
      s' = snd (install_new_hook ba ?real (ir_out_listener q) hf hu (hr_next_hook s) l ?t s1))"
    using run by (auto simp: install_locked_def Let_def split: option.splits if_splits prod.splits)
      (metis snd_conv)+
  then show ?thesis
    using inv reg_inv_install_new [OF installing_prepare [OF inv fit]] by blast
qed

text \<open>Proving capabilities leaves the hook references of the adapter alone.\<close>

lemma hook_refs_owner: "CheckAttachedOwner me a = (st, a') \<Longrightarrow> va_hook_refs a' = va_hook_refs a"
  by (auto simp: CheckAttachedOwner_def Let_def split: if_splits)

lemma hook_refs_record: "record_proof profiles kind p a = (st, a') \<Longrightarrow> va_hook_refs a' = va_hook_refs a"
  by (auto simp: record_proof_def Let_def ResetAbiBinding_def split: if_splits option.splits)

lemma hook_refs_prove:
  "VmAdapterProveCapability profiles args unlocked me kind answer p a = (st, a') \<Longrightarrow>
     va_hook_refs a' = va_hook_refs a"
  by (auto simp: VmAdapterProveCapability_def Let_def split: if_splits prod.splits
      dest!: hook_refs_owner hook_refs_record)

lemma hook_refs_prove_one: "prove_one env ev gens a = (st, gens', a') \<Longrightarrow> va_hook_refs a' = va_hook_refs a"
  by (auto simp: prove_one_def split: if_splits prod.splits dest!: hook_refs_prove)

lemma hook_refs_prove_all: "prove_all env evs gens a = (st, gens', a') \<Longrightarrow> va_hook_refs a' = va_hook_refs a"
proof (induction evs arbitrary: gens a)
  case (Cons ev evs)
  then show ?case
    by (auto split: if_splits prod.splits dest!: hook_refs_prove_one)
qed simp

lemma hook_refs_binding:
  assumes "ProveLiveFunctionBinding env w m (Some a) layout entry shared = (st, b, after)"
  shows "\<exists>a'. after = Some a' \<and> va_hook_refs a' = va_hook_refs a"
  using assms
  by (auto simp: ProveLiveFunctionBinding_def Let_def split: option.splits if_splits prod.splits
      dest!: hook_refs_prove_all)

lemma bind_method_frame:
  assumes "bind_method env m f adapter layout target shared s = (st, b, layout', s')"
  shows "hr_hook s' = hr_hook s" "hr_listener s' = hr_listener s"
    "hr_next_listener s' = hr_next_listener s" "hr_next_hook s' = hr_next_hook s"
    "va_hook_refs (hr_adapter s' a) = va_hook_refs (hr_adapter s a)"
proof -
  obtain st1 b1 after where 1: "ProveLiveFunctionBinding env (hr_world s) m (adapter_of s adapter)
      layout target shared = (st1, b1, after)" by (metis prod_cases3)
  have s': "s' = (case (adapter, after) of (Some a, Some v) \<Rightarrow> set_adapter a v s | _ \<Rightarrow> s)"
    using assms 1 by (auto simp: bind_method_def Let_def split: if_splits prod.splits)
  show "hr_hook s' = hr_hook s" "hr_listener s' = hr_listener s"
    "hr_next_listener s' = hr_next_listener s" "hr_next_hook s' = hr_next_hook s"
    by (simp_all add: s' split: option.split)
  show "va_hook_refs (hr_adapter s' a) = va_hook_refs (hr_adapter s a)"
  proof (cases adapter)
    case (Some c)
    have "ProveLiveFunctionBinding env (hr_world s) m (Some (hr_adapter s c))
        layout target shared = (st1, b1, after)" using 1 Some by (simp add: adapter_of_def)
    from hook_refs_binding [OF this] obtain v
      where "after = Some v" "va_hook_refs v = va_hook_refs (hr_adapter s c)" by blast
    then show ?thesis using Some s' by simp
  qed (simp add: s')
qed

lemma counters_fit_cong:
  "hr_hook s' = hr_hook s \<Longrightarrow> hr_next_listener s' = hr_next_listener s \<Longrightarrow>
     counters_fit s' = counters_fit s"
  by (simp add: counters_fit_def)

lemma admit_install_frame:
  assumes "admit_install env q m f s = (r, s')"
  shows "hr_hook s' = hr_hook s" "hr_listener s' = hr_listener s"
    "hr_next_listener s' = hr_next_listener s" "hr_next_hook s' = hr_next_hook s"
    "va_hook_refs (hr_adapter s' a) = va_hook_refs (hr_adapter s a)"
proof -
  let ?ad = "ho_adapter (lq_options (ir_listener q))"
  obtain st b layout s1 where b: "bind_method env m f ?ad (lq_layout (ir_listener q))
      (MethodTarget (hr_world s) (Some m)) (AllowsSharedCode (lq_options (ir_listener q))) s = (st, b, layout, s1)"
    by (metis prod_cases4)
  have "s' = s \<or> s' = s1"
    using assms b by (auto simp: admit_install_def Let_def split: if_splits prod.splits)
  then show "hr_hook s' = hr_hook s" "hr_listener s' = hr_listener s"
    "hr_next_listener s' = hr_next_listener s" "hr_next_hook s' = hr_next_hook s"
    "va_hook_refs (hr_adapter s' a) = va_hook_refs (hr_adapter s a)"
    using bind_method_frame [OF b] by auto
qed

lemma reg_inv_install:
  assumes inv: "reg_inv {} s" and fit: "counters_fit s"
    and run: "InstallCallbackHook env ba q s = (st, out, s')"
  shows "reg_inv {} s'"
proof -
  have ok: "reg_inv {} s1 \<and> counters_fit s1" if "admit_install env q m f s = (r, s1)" for m f r s1
    using reg_inv_cong [OF admit_install_frame(1,2,3,5) [OF that], of "{}"]
      counters_fit_cong [OF admit_install_frame(1,3) [OF that]] inv fit by simp
  show ?thesis
    using run inv
    by (auto simp: InstallCallbackHook_def split: option.splits if_splits prod.splits sum.splits
        dest!: ok intro: reg_inv_install_locked)
qed

lemma reg_inv_add_locked:
  assumes inv: "reg_inv {} s" and fit: "counters_fit s"
    and run: "add_listener_locked i q s = (st, out, s')"
  shows "reg_inv {} s'"
proof -
  obtain l s1 where 1: "add_new_listener i q s = (l, s1)" by fastforce
  have 2: "reg_inv {} s1" by (rule reg_inv_add [OF inv fit 1])
  have 3: "reg_inv {} (set_hook i ((hr_hook s1 i)
      \<lparr>hk_listener_handles := hk_listener_handles (hr_hook s1 i) + 1\<rparr>) s1)"
    by (rule reg_inv_quiet [OF 2]) (simp_all add: reg_inv_unretained [OF 2])
  show ?thesis
    using run inv 1 3
    by (auto simp: add_listener_locked_def add_new_listener_def Let_def split: if_splits prod.splits)
qed

lemma reg_inv_add_listener:
  assumes inv: "reg_inv {} s" and fit: "counters_fit s"
    and run: "AddCallbackListener env hook output q s = (st, out, s')"
  shows "reg_inv {} s'"
proof -
  have ok: "reg_inv {} s1 \<and> counters_fit s1"
    if "bind_method env m f ad layout t shared s = (r, b, layout', s1)" for m f ad layout t shared r b layout' s1
    using reg_inv_cong [OF bind_method_frame(1,2,3,5) [OF that], of "{}"]
      counters_fit_cong [OF bind_method_frame(1,3) [OF that]] inv fit by simp
  show ?thesis
    using run inv fit
    by (auto simp: AddCallbackListener_def split: option.splits if_splits prod.splits
        dest!: ok intro: reg_inv_add_locked)
qed

lemma reg_inv_raw_install:
  assumes inv: "reg_inv {} s" and run: "InstallHook outputs captured target replacement s = (st, out, s')"
  shows "reg_inv {} s'"
proof -
  have add: "reg_inv {} (add_hook i h s)" if "hk_listeners h = []" "\<not> hk_adapter_retained h" for i h
    by (rule reg_inv_add_hook [OF reg_inv_fresh [OF inv that]])
  show ?thesis
    using run inv
    by (auto simp: InstallHook_def Let_def new_hook_def split: option.splits if_splits prod.splits
        intro!: add reg_inv_bind_target)
qed

section \<open>Removal, release and reset\<close>

lemma reg_inv_remove_listener:
  assumes inv: "reg_inv {} s"
    and own: "\<And>j. lh_record handle \<in> set (hk_listeners (hr_hook s j)) \<Longrightarrow> j = lh_hook handle"
    and run: "dartplant_remove_listener restore handle s = (st, s')"
  shows "reg_inv {} s'"
proof -
  let ?i = "lh_hook handle" and ?l = "lh_record handle"
  let ?s1 = "set_listener ?l ((hr_listener s ?l)\<lparr>lr_active := False\<rparr>) s"
  let ?s2 = "set_hook ?i ((hr_hook ?s1 ?i)
     \<lparr>hk_listeners := filter (\<lambda>k. k \<noteq> ?l) (hk_listeners (hr_hook ?s1 ?i))\<rparr>) ?s1"
  have h: "holds_ok {} s" using inv by (simp add: reg_inv_def)
  have 1: "reg_inv {?l} ?s1"
    by (rule reg_inv_listener [OF inv]) (use h in \<open>auto simp: holds_ok_def\<close>)
  have sorted: "sorted_wrt (precedes_in ?s1) (hk_listeners (hr_hook ?s1 ?i))"
    using 1 unfolding reg_inv_def lists_ok_def by blast
  have 2: "reg_inv {} ?s2"
  proof (rule reg_inv_hook [OF 1])
    show "sorted_wrt (precedes_in ?s1) (hk_listeners ((hr_hook ?s1 ?i)
        \<lparr>hk_listeners := filter (\<lambda>k. k \<noteq> ?l) (hk_listeners (hr_hook ?s1 ?i))\<rparr>))"
      using sorted_wrt_filter [OF sorted, of "\<lambda>k. k \<noteq> ?l"] by (simp del: upd_simps)
  qed (use own reg_inv_unretained [OF inv] in \<open>auto split: if_splits\<close>)
  have 3: "reg_inv {} (ReleaseListenerVmAdapterIfIdle ?l ?s2)"
    by (rule reg_inv_release [OF 2 reg_inv_few [OF 2]])
  show ?thesis
    using run 3 reg_inv_unhook [OF 3 reg_inv_few [OF 3]]
    by (auto simp: dartplant_remove_listener_def RemoveHook_def Let_def split: if_splits)
qed

lemma reg_inv_release_listener:
  assumes inv: "reg_inv {} s"
    and own: "\<And>j. lh_record handle \<in> set (hk_listeners (hr_hook s j)) \<Longrightarrow> j = lh_hook handle"
    and run: "dartplant_release_listener restore handle s = (deleted, s')"
  shows "reg_inv {} s'"
proof (cases "lr_in_flight (hr_listener s (lh_record handle)) \<noteq> 0")
  case True
  then show ?thesis using run inv by (simp add: dartplant_release_listener_def)
next
  case False
  obtain st s1 where 1: "dartplant_remove_listener restore handle s = (st, s1)" by fastforce
  have 2: "reg_inv {} s1" by (rule reg_inv_remove_listener [OF inv own 1])
  have "reg_inv {} (set_hook (lh_hook handle) ((hr_hook s1 (lh_hook handle))\<lparr>hk_listener_handles :=
      hk_listener_handles (hr_hook s1 (lh_hook handle)) - 1\<rparr>) s1)"
    by (rule reg_inv_quiet [OF 2]) (simp_all add: reg_inv_unretained [OF 2])
  then show ?thesis
    using run 1 2 False by (auto simp: dartplant_release_listener_def Let_def split: if_splits)
qed

lemma reg_inv_release_hook:
  assumes "reg_inv {} s"
  shows "reg_inv {} (ReleaseHook hook s)"
  using assms by (auto simp: ReleaseHook_def reg_inv_unretained [OF assms] split: option.split
      intro!: reg_inv_quiet)

lemma reg_inv_reclaim:
  assumes inv: "reg_inv {} s"
  shows "reg_inv {} (reclaim_hook i s)"
proof -
  let ?h = "(hr_hook s i)\<lparr>hk_adapter := (if hk_replacement (hr_hook s i) \<noteq> 0 then None else hk_adapter (hr_hook s i)),
                               hk_adapter_retained := False\<rparr>"
  have 1: "reg_inv {} (set_hook i ?h s)"
    by (rule reg_inv_quiet [OF inv]) simp_all
  have "reg_inv {} (set_hook i ?h s\<lparr>hr_hooks := a, hr_retained_hooks := b\<rparr>)" for a b
    using 1 reg_inv_cong [of "set_hook i ?h s\<lparr>hr_hooks := a, hr_retained_hooks := b\<rparr>" "set_hook i ?h s" "{}"]
    by simp
  then show ?thesis
    using inv reg_inv_unretained [OF inv, of i] by (simp add: reclaim_hook_def Let_def)
qed

lemma reg_inv_reset:
  assumes "reg_inv {} s"
  shows "reg_inv {} (ResetHooks restore s)"
proof -
  have "reg_inv {} (reset_unhook restore is s)" for "is"
    using assms
  proof (induction "is" arbitrary: s)
    case (Cons i "is")
    obtain st s1 where 1: "UnhookRecordLocked restore i s = (st, s1)" by fastforce
    show ?case
      using Cons.IH [OF Cons.prems] Cons.IH [OF reg_inv_unhook [OF Cons.prems reg_inv_few [OF Cons.prems] 1]] 1
      by simp
  qed simp
  then show ?thesis by (simp add: ResetHooks_def Let_def reg_inv_fold [OF reg_inv_reclaim])
qed

lemma reg_inv_exited:
  assumes inv: "reg_inv {} s"
  shows "reg_inv {} (InvocationExited restore i s)"
proof -
  let ?n = "if hk_in_flight (hr_hook s i) \<noteq> 0 then hk_in_flight (hr_hook s i) - 1 else hk_in_flight (hr_hook s i)"
  let ?s = "set_hook i ((hr_hook s i)\<lparr>hk_in_flight := ?n\<rparr>) s"
  have 1: "reg_inv {} ?s"
    by (rule reg_inv_quiet [OF inv]) (simp_all add: reg_inv_unretained [OF inv])
  obtain st s1 where 2: "FinishUnhookLocked restore i ?s = (st, s1)" by fastforce
  have un: "\<forall>j. \<not> hk_adapter_retained (hr_hook ?s j)" using reg_inv_unretained [OF 1] by blast
  have "reg_inv {} s1" by (rule reg_inv_quietly [OF 1 quiet_finish [OF quiet_refl [OF un] 2]])
  moreover have "InvocationExited restore i s =
      (if ?n = 0 \<and> hk_state (hr_hook s i) = RUnhooking then s1 else ?s)"
    by (simp only: InvocationExited_def Let_def 2 snd_conv)
  ultimately show ?thesis using 1 by simp
qed

text \<open>The listeners a dispatch enters.\<close>

lemma enter_frame [simp]:
  "hr_hook (enter_listener l s) = hr_hook s"
  "hr_next_listener (enter_listener l s) = hr_next_listener s"
  "hr_next_hook (enter_listener l s) = hr_next_hook s"
  "hr_generation (enter_listener l s) = hr_generation s"
  "hr_adapter (enter_listener l s) = hr_adapter s"
  "hr_hooks (enter_listener l s) = hr_hooks s"
  by (simp_all add: enter_listener_def)

lemma enter_other: "k \<noteq> l \<Longrightarrow> hr_listener (enter_listener l s) k = hr_listener s k"
  by (simp add: enter_listener_def)

lemma admitted_frame [simp]: "listener_admitted pa (enter_listener l s) = listener_admitted pa s"
  by (intro ext) (simp add: listener_admitted_def generation_current_def abi_binding_current_def
      split: option.split)

lemma admit_listeners_eq:
  "distinct ls \<Longrightarrow> admit_listeners pa ls s =
     (let entered = filter (\<lambda>l. listener_admitted pa s (hr_listener s l)) ls
      in (entered, fold enter_listener entered s))"
proof (induction ls arbitrary: s)
  case (Cons l ls)
  have same: "listener_admitted pa (enter_listener l s) (hr_listener (enter_listener l s) k) =
      listener_admitted pa s (hr_listener s k)" if "k \<in> set ls" for k
  proof -
    have "k \<noteq> l" using Cons.prems that by auto
    then show ?thesis by (simp add: enter_other)
  qed
  have "filter (\<lambda>k. listener_admitted pa (enter_listener l s) (hr_listener (enter_listener l s) k)) ls =
      filter (\<lambda>k. listener_admitted pa s (hr_listener s k)) ls"
    using same by (intro filter_cong) simp_all
  then show ?case using Cons by (simp add: Let_def)
qed simp

end
