(* ===== verification/Hook_System.thy ===== *)
theory Hook_System
  imports Hook_Registry_Props
begin

text \<open>
  The registry together with the invocations that are open: each holds the hook it entered and
  the listeners it still has to leave (\<^verbatim>\<open>BeginInvocation\<close>, the releases of
  \<^verbatim>\<open>src/interceptor/callback_dispatch.cpp\<close> and \<^verbatim>\<open>InvocationExited\<close>), in any interleaving with
  the public operations.
\<close>

section \<open>What an operation may change\<close>

text \<open>No counter of a record changes, and no old listener moves to another hook.\<close>

definition calm :: "registry \<Rightarrow> registry \<Rightarrow> bool" where
  "calm s s' \<longleftrightarrow> hr_next_listener s \<le> hr_next_listener s' \<and> hr_next_hook s \<le> hr_next_hook s' \<and>
     (\<forall>l. lr_in_flight (hr_listener s' l) = lr_in_flight (hr_listener s l)) \<and>
     (\<forall>i. hk_in_flight (hr_hook s' i) = hk_in_flight (hr_hook s i)) \<and>
     (\<forall>i. \<forall>l \<in> set (hk_listeners (hr_hook s' i)).
          l \<in> set (hk_listeners (hr_hook s i)) \<or> hr_next_listener s \<le> l)"

text \<open>Only an installed hook has listeners, and an unhooked one has no invocation.\<close>

definition states_ok :: "registry \<Rightarrow> bool" where
  "states_ok s \<longleftrightarrow> (\<forall>i. hk_listeners (hr_hook s i) \<noteq> [] \<longrightarrow> hk_state (hr_hook s i) = RInstalled) \<and>
     (\<forall>i. hk_state (hr_hook s i) = RUnhooked \<longrightarrow> hk_in_flight (hr_hook s i) = 0)"

definition settles :: "registry \<Rightarrow> registry \<Rightarrow> bool" where
  "settles s s' \<longleftrightarrow> calm s s' \<and> (states_ok s \<longrightarrow> states_ok s')"

lemma calm_trans: "calm s t \<Longrightarrow> calm t u \<Longrightarrow> calm s u"
  unfolding calm_def using order_trans by (simp, blast)

lemma settles_refl [simp]: "settles s s"
  by (simp add: settles_def calm_def)

lemma settles_trans: "settles s t \<Longrightarrow> settles t u \<Longrightarrow> settles s u"
  unfolding settles_def using calm_trans by blast

text \<open>One hook changes, and listeners change only in their flags.\<close>

definition one_hook :: "nat \<Rightarrow> registry \<Rightarrow> registry \<Rightarrow> bool" where
  "one_hook i s s' \<longleftrightarrow> (\<forall>j. j \<noteq> i \<longrightarrow> hr_hook s' j = hr_hook s j) \<and>
     hk_in_flight (hr_hook s' i) = hk_in_flight (hr_hook s i) \<and>
     set (hk_listeners (hr_hook s' i)) \<subseteq> set (hk_listeners (hr_hook s i)) \<and>
     (hk_listeners (hr_hook s' i) \<noteq> [] \<longrightarrow> hk_state (hr_hook s' i) = hk_state (hr_hook s i)) \<and>
     (hk_state (hr_hook s' i) = RUnhooked \<longrightarrow>
        hk_state (hr_hook s i) = RUnhooked \<or> hk_in_flight (hr_hook s i) = 0) \<and>
     (\<forall>l. lr_in_flight (hr_listener s' l) = lr_in_flight (hr_listener s l)) \<and>
     hr_next_listener s' = hr_next_listener s \<and> hr_next_hook s' = hr_next_hook s"

lemma one_hook_settles: "one_hook i s s' \<Longrightarrow> settles s s'"
proof -
  assume one: "one_hook i s s'"
  have hooks: "hr_hook s' j = hr_hook s j \<or> j = i" for j using one by (auto simp: one_hook_def)
  have 1: "calm s s'"
    unfolding calm_def
  proof (intro conjI allI ballI)
    fix j l
    show "hk_in_flight (hr_hook s' j) = hk_in_flight (hr_hook s j)"
      using one hooks [of j] by (auto simp: one_hook_def)
    show "l \<in> set (hk_listeners (hr_hook s j)) \<or> hr_next_listener s \<le> l"
      if "l \<in> set (hk_listeners (hr_hook s' j))"
      using one hooks [of j] that by (auto simp: one_hook_def)
  qed (use one in \<open>auto simp: one_hook_def\<close>)
  have 2: "states_ok s'" if st: "states_ok s"
    unfolding states_ok_def
  proof (intro conjI allI impI)
    fix j
    show "hk_state (hr_hook s' j) = RInstalled" if "hk_listeners (hr_hook s' j) \<noteq> []"
    proof (cases "j = i")
      case True
      then have "hk_listeners (hr_hook s i) \<noteq> []" using one that by (auto simp: one_hook_def)
      then show ?thesis using one that st True by (auto simp: one_hook_def states_ok_def)
    next
      case False
      then show ?thesis using hooks [of j] that st by (auto simp: states_ok_def)
    qed
    show "hk_in_flight (hr_hook s' j) = 0" if "hk_state (hr_hook s' j) = RUnhooked"
      using hooks [of j] one that st by (auto simp: one_hook_def states_ok_def)
  qed
  show ?thesis using 1 2 by (simp add: settles_def)
qed

lemma one_hook_refl [simp]: "one_hook i s s"
  by (simp add: one_hook_def)

lemma one_hook_trans:
  "one_hook i s t \<Longrightarrow> one_hook i t u \<Longrightarrow> one_hook i s u"
  unfolding one_hook_def by (smt (verit) subset_empty subset_trans set_empty)

lemma flight_release [simp]:
  "lr_in_flight (hr_listener (ReleaseListenerVmAdapterIfIdle l s) k) = lr_in_flight (hr_listener s k)"
  using release_listener [of l s] by auto

lemma flight_deactivate [simp]:
  "lr_in_flight (hr_listener (fold deactivate_listener ls s) k) = lr_in_flight (hr_listener s k)"
  by (induction ls arbitrary: s) (simp_all add: deactivate_listener_at(3))

section \<open>Every operation settles\<close>

lemma one_hook_set:
  "hk_in_flight h = hk_in_flight (hr_hook s i) \<Longrightarrow>
   set (hk_listeners h) \<subseteq> set (hk_listeners (hr_hook s i)) \<Longrightarrow>
   (hk_listeners h \<noteq> [] \<Longrightarrow> hk_state h = hk_state (hr_hook s i)) \<Longrightarrow>
   (hk_state h = RUnhooked \<Longrightarrow> hk_state (hr_hook s i) = RUnhooked \<or> hk_in_flight (hr_hook s i) = 0) \<Longrightarrow>
   one_hook i s (set_hook i h s)"
  by (simp add: one_hook_def)

text \<open>The shape of \<open>FinishUnhookLocked\<close>: one hook, and nothing the dispatcher counts.\<close>

definition same_listeners :: "nat \<Rightarrow> registry \<Rightarrow> registry \<Rightarrow> bool" where
  "same_listeners i s s' \<longleftrightarrow> (\<forall>j. j \<noteq> i \<longrightarrow> hr_hook s' j = hr_hook s j) \<and>
     hk_in_flight (hr_hook s' i) = hk_in_flight (hr_hook s i) \<and>
     hk_listeners (hr_hook s' i) = hk_listeners (hr_hook s i) \<and>
     hk_adapter_retained (hr_hook s' i) = hk_adapter_retained (hr_hook s i) \<and>
     hr_listener s' = hr_listener s \<and> hr_next_listener s' = hr_next_listener s \<and>
     hr_next_hook s' = hr_next_hook s"

lemma same_listeners_set:
  "same_listeners i s t \<Longrightarrow> hk_in_flight h = hk_in_flight (hr_hook t i) \<Longrightarrow>
   hk_listeners h = hk_listeners (hr_hook t i) \<Longrightarrow>
   hk_adapter_retained h = hk_adapter_retained (hr_hook t i) \<Longrightarrow>
   same_listeners i s (set_hook i h t)"
  by (simp add: same_listeners_def)

lemma same_listeners_refl [simp]: "same_listeners i s s"
  by (simp add: same_listeners_def)

lemma same_listeners_bridge:
  "same_listeners i s t \<Longrightarrow> same_listeners i s (ReleaseArm64ExceptionBridgeConsumer i t)"
  "same_listeners i s t \<Longrightarrow> same_listeners i s (unbind_target i t)"
  "same_listeners i s t \<Longrightarrow> same_listeners i s (bind_target i t)"
  "same_listeners i s t \<Longrightarrow> same_listeners i s (fail_hook i t)"
  by (auto simp: same_listeners_def ReleaseArm64ExceptionBridgeConsumer_def unbind_target_def
      bind_target_def fail_hook_def Let_def split: option.split)

lemma finish_shape:
  assumes run: "FinishUnhookLocked restore i s = (st, s')" and un: "\<not> hk_adapter_retained (hr_hook s i)"
  shows "same_listeners i s s'"
proof (cases "remove_backend i s")
  case (Pair r s1)
  have 1: "same_listeners i s s1"
    using remove_backend_shape [OF Pair] by (auto intro!: same_listeners_set)
  have 2: "same_listeners i s (set_hook i ((hr_hook s1 i)\<lparr>hk_active := False\<rparr>) s1)"
    by (rule same_listeners_set [OF 1]) simp_all
  let ?s4 = "unbind_target i (ReleaseArm64ExceptionBridgeConsumer i
      (set_hook i ((hr_hook s1 i)\<lparr>hk_active := False, hk_entry_ready := False\<rparr>)
         (set_hook i ((hr_hook s1 i)\<lparr>hk_active := False\<rparr>) s1)))"
  have 4: "same_listeners i s ?s4"
    by (intro same_listeners_bridge same_listeners_set [OF 2]) simp_all
  then have un4: "\<not> hk_adapter_retained (hr_hook ?s4 i)" using un by (simp add: same_listeners_def)
  have 5: "same_listeners i s (set_hook i ((hr_hook ?s4 i)\<lparr>hk_state := RUnhooked,
      hk_adapter := hk_adapter (hr_hook ?s4 i), hk_adapter_retained := False\<rparr>) ?s4)"
    by (rule same_listeners_set [OF 4]) (simp_all add: un4)
  show ?thesis
    using run 1 same_listeners_bridge(4) [OF 2] Pair 5 un4
    by (auto simp: FinishUnhookLocked_def Let_def split: option.splits if_splits)
qed

lemma one_hook_same:
  assumes "same_listeners i s s'" "hk_listeners (hr_hook s i) = []"
    "hk_state (hr_hook s' i) = RUnhooked \<Longrightarrow>
       hk_state (hr_hook s i) = RUnhooked \<or> hk_in_flight (hr_hook s i) = 0"
  shows "one_hook i s s'"
  using assms by (auto simp: one_hook_def same_listeners_def)

lemma one_hook_unhook:
  assumes un: "\<not> hk_adapter_retained (hr_hook s i)" and run: "UnhookRecordLocked restore i s = (st, s')"
  shows "one_hook i s s'"
proof (cases "hk_state (hr_hook s i) \<in> {RUnhooked, RRetired, RUnhooking}")
  case True
  then show ?thesis using run by (auto simp: UnhookRecordLocked_def Let_def split: if_splits)
next
  case False
  let ?h = "hr_hook s i"
  let ?s0 = "set_hook i (?h\<lparr>hk_state := RUnhooking, hk_active := False\<rparr>) s"
  let ?s1 = "fold deactivate_listener (hk_listeners ?h) ?s0"
  let ?s2 = "set_hook i ((hr_hook ?s1 i)\<lparr>hk_listeners := [],
                   hk_published := (if hk_published ?h \<noteq> None \<and> hk_backend_installed ?h
                                    then BeginDrainPublishedHostHook (hk_published ?h)
                                    else hk_published ?h)\<rparr>) ?s1"
  have 2: "one_hook i s ?s2" by (simp add: one_hook_def)
  have eq: "UnhookRecordLocked restore i s =
      (if hk_in_flight ?h \<noteq> 0 then (DP_OK, ?s2) else FinishUnhookLocked restore i ?s2)"
    using False by (simp add: UnhookRecordLocked_def Let_def)
  show ?thesis
  proof (cases "hk_in_flight ?h \<noteq> 0")
    case True
    then show ?thesis using run eq 2 by simp
  next
    case False
    then have fin: "FinishUnhookLocked restore i ?s2 = (st, s')" using run eq by simp
    have "one_hook i ?s2 s'"
      by (rule one_hook_same [OF finish_shape [OF fin]]) (use un False in simp_all)
    then show ?thesis by (rule one_hook_trans [OF 2])
  qed
qed

lemma one_hook_remove_matching:
  assumes inv: "reg_inv {} s" and run: "RemoveMatchingListenersLocked i P s = (m, s')"
  shows "one_hook i s s'"
  unfolding reg_inv_remove_matching(3) [OF inv reg_inv_few [OF inv] run]
  by (auto simp: one_hook_def)

lemma one_hook_invalidate:
  assumes inv: "reg_inv {} s" and run: "invalidate_one restore skip fallback P i s = (st, s')"
  shows "one_hook i s s'"
proof -
  obtain m s1 where m: "(if hk_listeners (hr_hook s i) = [] then (fallback s (hr_hook s i), s)
      else RemoveMatchingListenersLocked i P s) = (m, s1)" by fastforce
  then have 1: "one_hook i s s1" "reg_inv {} s1"
    using inv one_hook_remove_matching [OF inv] reg_inv_remove_matching(1) [OF inv reg_inv_few [OF inv]]
    by (auto split: if_splits)
  show ?thesis
    using run m 1 one_hook_trans [OF 1(1) one_hook_unhook [OF reg_inv_unretained [OF 1(2)]]]
    by (auto simp: invalidate_one_def Let_def split: if_splits)
qed

lemma settles_over_hooks:
  assumes step: "\<And>i s st s'. reg_inv {} s \<Longrightarrow> f i s = (st, s') \<Longrightarrow> reg_inv {} s' \<and> settles s s'"
    and inv: "reg_inv {} s" and run: "over_hooks f is st s = (st', s')"
  shows "settles s s'"
  using inv run
proof (induction "is" arbitrary: st s)
  case (Cons i "is")
  obtain st1 s1 where 1: "f i s = (st1, s1)" by fastforce
  have "reg_inv {} s1" "settles s s1" using step [OF Cons.prems(1) 1] by simp_all
  then show ?case
    using Cons.IH [of s1] Cons.prems(2) 1 settles_trans by (auto split: if_splits)
qed simp

lemma settles_fold:
  assumes "\<And>i s. reg_inv {} s \<Longrightarrow> reg_inv {} (f i s) \<and> settles s (f i s)" "reg_inv {} s"
  shows "settles s (fold f is s)"
  using assms(2)
proof (induction "is" arbitrary: s)
  case (Cons i "is")
  then show ?case using assms(1) [OF Cons.prems] settles_trans [of s "f i s"] by simp
qed simp

text \<open>The invalidations and the quiescing of an adapter.\<close>

lemma invalidate_step:
  "reg_inv {} s \<Longrightarrow> invalidate_one restore skip fallback P i s = (st, s') \<Longrightarrow>
     reg_inv {} s' \<and> settles s s'"
  using reg_inv_invalidate_one one_hook_invalidate one_hook_settles by blast

lemma invalidate_ok:
  assumes inv: "reg_inv {} s"
    and run: "over_hooks (invalidate_one restore skip fallback P) is st s = (st', s')"
  shows "reg_inv {} s' \<and> settles s s'"
  using reg_inv_over_hooks [OF _ inv run] settles_over_hooks [OF _ inv run]
    invalidate_step [of _ restore skip fallback P] by blast

lemma runtime_hooks_ok:
  assumes inv: "reg_inv {} s"
  shows "InvalidateRuntimeHooks restore g s = (st, s') \<Longrightarrow> reg_inv {} s' \<and> settles s s'"
    and "InvalidateRuntimeImageHooks restore g img epoch s = (st, s') \<Longrightarrow> reg_inv {} s' \<and> settles s s'"
  using inv invalidate_ok [OF inv]
  by (auto simp: InvalidateRuntimeHooks_def InvalidateRuntimeImageHooks_def split: option.splits if_splits)

lemma set_adapter_ok:
  assumes "reg_inv {} s" "va_hook_refs v = va_hook_refs (hr_adapter s a)"
  shows "reg_inv {} (set_adapter a v s)" "settles s (set_adapter a v s)"
proof -
  have "reg_inv {} (set_adapter a v s) = reg_inv {} s"
    by (rule reg_inv_cong) (use assms(2) in simp_all)
  then show "reg_inv {} (set_adapter a v s)" using assms(1) by simp
  show "settles s (set_adapter a v s)" by (simp add: settles_def calm_def states_ok_def)
qed

lemma quiesce_ok:
  assumes inv: "reg_inv {} s" and run: "QuiesceVmAdapterHooks restore adapter s = (st, s')"
  shows "reg_inv {} s' \<and> settles s s'"
proof (cases adapter)
  case None
  then show ?thesis using run inv by (simp add: QuiesceVmAdapterHooks_def)
next
  case (Some a)
  let ?s = "set_adapter a (VmAdapterCloseAdmission (hr_adapter s a)) s"
  have 1: "reg_inv {} ?s" "settles s ?s"
    by (rule set_adapter_ok [OF inv]; simp add: VmAdapterCloseAdmission_def)+
  have "reg_inv {} s' \<and> settles ?s s'"
    using run Some by (intro invalidate_ok [OF 1(1)]) (simp add: QuiesceVmAdapterHooks_def)
  then show ?thesis using settles_trans [OF 1(2)] by blast
qed

lemma retire_hook_state [simp]: "hk_state (hr_hook (retire_hook i s) i) = RRetired"
  by (simp add: retire_hook_def ReleaseArm64ExceptionBridgeConsumer_def Let_def set_hook_def)

lemma one_hook_retire_hook:
  assumes "hk_listeners (hr_hook s i) = []"
  shows "one_hook i s (retire_hook i s)"
proof (rule one_hook_same [OF _ assms])
  show "same_listeners i s (retire_hook i s)"
    unfolding retire_hook_def by (intro same_listeners_bridge same_listeners_set) simp_all
qed simp

lemma retire_generation_ok:
  assumes inv: "reg_inv {} s"
  shows "reg_inv {} (retire_generation g i s) \<and> settles s (retire_generation g i s)"
proof -
  obtain m s1 where m: "(if hk_listeners (hr_hook s i) = [] then (hk_generation (hr_hook s i) = Some g, s)
      else RemoveMatchingListenersLocked i (of_generation g) s) = (m, s1)" by fastforce
  then have 1: "one_hook i s s1"
    using one_hook_remove_matching [OF inv] by (auto split: if_splits)
  have "one_hook i s (retire_generation g i s)"
    using m 1 one_hook_trans [OF 1 one_hook_retire_hook] by (simp add: retire_generation_def Let_def)
  then show ?thesis using reg_inv_retire_generation [OF inv] one_hook_settles by blast
qed

lemma retire_image_ok:
  assumes inv: "reg_inv {} s"
  shows "reg_inv {} (retire_image g img epoch i s) \<and> settles s (retire_image g img epoch i s)"
proof -
  let ?h = "hr_hook s i"
  let ?s1 = "fold deactivate_listener (hk_listeners ?h) (set_hook i (?h\<lparr>hk_active := False\<rparr>) s)"
  let ?s2 = "set_hook i ((hr_hook ?s1 i)\<lparr>hk_listeners := []\<rparr>) ?s1"
  have "hk_state ?h \<noteq> RUnhooked \<Longrightarrow> one_hook i s ?s2" by (simp add: one_hook_def)
  moreover have "one_hook i ?s2 (retire_hook i ?s2)" by (rule one_hook_retire_hook) simp
  ultimately have "one_hook i s (retire_image g img epoch i s)"
    using one_hook_trans [of i s ?s2] by (simp add: retire_image_def Let_def)
  then show ?thesis using reg_inv_retire_image [OF inv] one_hook_settles by blast
qed

lemma retire_ok:
  assumes inv: "reg_inv {} s"
  shows "reg_inv {} (RetireRuntimeHooks g s) \<and> settles s (RetireRuntimeHooks g s)"
    and "reg_inv {} (RetireRuntimeImageHooks g img epoch s) \<and> settles s (RetireRuntimeImageHooks g img epoch s)"
  using inv reg_inv_fold [OF reg_inv_retire_generation inv] settles_fold [OF retire_generation_ok inv]
    reg_inv_fold [OF reg_inv_retire_image inv] settles_fold [OF retire_image_ok inv]
  by (auto simp: RetireRuntimeHooks_def RetireRuntimeImageHooks_def split: option.split)

text \<open>Release, reset and the removal of one listener.\<close>

lemma one_hook_cong:
  "hr_hook t = hr_hook s' \<Longrightarrow> hr_listener t = hr_listener s' \<Longrightarrow> hr_next_listener t = hr_next_listener s' \<Longrightarrow>
     hr_next_hook t = hr_next_hook s' \<Longrightarrow> one_hook i s t = one_hook i s s'"
  by (simp add: one_hook_def)

lemma reclaim_ok:
  assumes inv: "reg_inv {} s"
  shows "reg_inv {} (reclaim_hook i s) \<and> settles s (reclaim_hook i s)"
proof -
  have "one_hook i s (reclaim_hook i s)"
    using reg_inv_unretained [OF inv, of i] by (simp add: reclaim_hook_def Let_def one_hook_def)
  then show ?thesis using reg_inv_reclaim [OF inv] one_hook_settles by blast
qed

lemma reset_ok:
  assumes inv: "reg_inv {} s"
  shows "reg_inv {} (ResetHooks restore s) \<and> settles s (ResetHooks restore s)"
proof -
  have *: "reg_inv {} (reset_unhook restore is s) \<and> settles s (reset_unhook restore is s)" for "is"
    using inv
  proof (induction "is" arbitrary: s)
    case (Cons i "is")
    obtain st s1 where 1: "UnhookRecordLocked restore i s = (st, s1)" by fastforce
    have 2: "reg_inv {} s1" "settles s s1"
      using reg_inv_unhook [OF Cons.prems reg_inv_few [OF Cons.prems] 1]
        one_hook_settles [OF one_hook_unhook [OF reg_inv_unretained [OF Cons.prems] 1]] by simp_all
    show ?case
      using Cons.IH [OF Cons.prems] Cons.IH [OF 2(1)] settles_trans [OF 2(2)] 1 by simp
  qed simp
  let ?s = "reset_unhook restore (hr_hooks s) s"
  have "settles ?s (fold reclaim_hook (hr_hooks ?s) ?s)"
    by (rule settles_fold [OF reclaim_ok conjunct1 [OF *]])
  then show ?thesis
    using reg_inv_reset [OF inv] * [of "hr_hooks s"] settles_trans by (simp add: ResetHooks_def Let_def) blast
qed

lemma release_hook_ok:
  assumes inv: "reg_inv {} s"
  shows "reg_inv {} (ReleaseHook hook s) \<and> settles s (ReleaseHook hook s)"
proof -
  have "settles s (ReleaseHook hook s)"
    by (auto simp: ReleaseHook_def split: option.split intro!: one_hook_settles one_hook_set)
  then show ?thesis using reg_inv_release_hook [OF inv] by blast
qed

lemma unhook_ok:
  assumes inv: "reg_inv {} s" and run: "RemoveHook restore hook s = (st, s')"
  shows "reg_inv {} s' \<and> settles s s'"
proof (cases hook)
  case None
  then show ?thesis using run inv by (simp add: RemoveHook_def)
next
  case (Some i)
  then have "UnhookRecordLocked restore i s = (st, s')" using run by (simp add: RemoveHook_def)
  then show ?thesis
    using reg_inv_unhook [OF inv reg_inv_few [OF inv]]
      one_hook_settles [OF one_hook_unhook [OF reg_inv_unretained [OF inv]]] by blast
qed

lemma one_hook_remove_listener:
  assumes inv: "reg_inv {} s" and run: "dartplant_remove_listener restore handle s = (st, s')"
  shows "one_hook (lh_hook handle) s s'"
proof -
  let ?i = "lh_hook handle" and ?l = "lh_record handle"
  let ?s1 = "set_listener ?l ((hr_listener s ?l)\<lparr>lr_active := False\<rparr>) s"
  let ?s2 = "set_hook ?i ((hr_hook ?s1 ?i)
     \<lparr>hk_listeners := filter (\<lambda>k. k \<noteq> ?l) (hk_listeners (hr_hook ?s1 ?i))\<rparr>) ?s1"
  let ?s3 = "ReleaseListenerVmAdapterIfIdle ?l ?s2"
  have 3: "one_hook ?i s ?s3" by (auto simp: one_hook_def)
  have un: "\<not> hk_adapter_retained (hr_hook ?s3 ?i)"
    using reg_inv_unretained [OF inv] by simp
  show ?thesis
    using run 3 one_hook_trans [OF 3 one_hook_unhook [OF un]]
    by (auto simp: dartplant_remove_listener_def RemoveHook_def Let_def split: if_splits)
qed

lemma remove_listener_ok:
  assumes inv: "reg_inv {} s"
    and own: "\<And>j. lh_record handle \<in> set (hk_listeners (hr_hook s j)) \<Longrightarrow> j = lh_hook handle"
  shows "dartplant_remove_listener restore handle s = (st, s') \<Longrightarrow> reg_inv {} s' \<and> settles s s'"
    and "dartplant_release_listener restore handle s = (gone, s') \<Longrightarrow> reg_inv {} s' \<and> settles s s'"
proof -
  show "dartplant_remove_listener restore handle s = (st, s') \<Longrightarrow> reg_inv {} s' \<and> settles s s'"
    using reg_inv_remove_listener [OF inv own] one_hook_settles [OF one_hook_remove_listener [OF inv]] by blast
  assume run: "dartplant_release_listener restore handle s = (gone, s')"
  obtain st1 s1 where 1: "dartplant_remove_listener restore handle s = (st1, s1)" by fastforce
  have 2: "one_hook (lh_hook handle) s s1" by (rule one_hook_remove_listener [OF inv 1])
  have 3: "one_hook (lh_hook handle) s1 (set_hook (lh_hook handle) ((hr_hook s1 (lh_hook handle))
      \<lparr>hk_listener_handles := hk_listener_handles (hr_hook s1 (lh_hook handle)) - 1\<rparr>) s1)"
    by (rule one_hook_set) simp_all
  have "one_hook (lh_hook handle) s s'"
    using run 1 2 one_hook_trans [OF 2 3]
    by (auto simp: dartplant_release_listener_def Let_def split: if_splits)
  then show "reg_inv {} s' \<and> settles s s'"
    using reg_inv_release_listener [OF inv own run] one_hook_settles by blast
qed

section \<open>Installing\<close>

text \<open>A new record at the next name: no invocation, and listeners only once it is installed.\<close>

definition new_record :: "registry \<Rightarrow> registry \<Rightarrow> bool" where
  "new_record s s' \<longleftrightarrow> (let i = hr_next_hook s in
     (\<forall>j. j \<noteq> i \<longrightarrow> hr_hook s' j = hr_hook s j) \<and> hk_in_flight (hr_hook s' i) = 0 \<and>
     (\<forall>l \<in> set (hk_listeners (hr_hook s' i)). hr_next_listener s \<le> l) \<and>
     hr_next_listener s \<le> hr_next_listener s' \<and> i \<le> hr_next_hook s' \<and>
     (\<forall>l. lr_in_flight (hr_listener s' l) = lr_in_flight (hr_listener s l)))"

lemma new_record_settles:
  assumes new: "new_record s s'" and idle: "hk_in_flight (hr_hook s (hr_next_hook s)) = 0"
    and st: "hk_listeners (hr_hook s' (hr_next_hook s)) \<noteq> [] \<Longrightarrow>
      hk_state (hr_hook s' (hr_next_hook s)) = RInstalled"
  shows "settles s s'"
proof -
  let ?i = "hr_next_hook s"
  have hooks: "hr_hook s' j = hr_hook s j \<or> j = ?i" for j using new by (auto simp: new_record_def Let_def)
  have zero: "hk_in_flight (hr_hook s' ?i) = 0" using new by (simp add: new_record_def Let_def)
  have 1: "calm s s'"
    unfolding calm_def
  proof (intro conjI allI ballI)
    fix j l
    show "hk_in_flight (hr_hook s' j) = hk_in_flight (hr_hook s j)"
      using hooks [of j] zero idle by auto
    show "l \<in> set (hk_listeners (hr_hook s j)) \<or> hr_next_listener s \<le> l"
      if "l \<in> set (hk_listeners (hr_hook s' j))"
      using new hooks [of j] that by (auto simp: new_record_def Let_def)
  qed (use new in \<open>auto simp: new_record_def Let_def\<close>)
  have "states_ok s'" if "states_ok s"
    unfolding states_ok_def
  proof (intro conjI allI impI)
    fix j
    show "hk_state (hr_hook s' j) = RInstalled" if "hk_listeners (hr_hook s' j) \<noteq> []"
      using hooks [of j] st that \<open>states_ok s\<close> by (auto simp: states_ok_def)
    show "hk_in_flight (hr_hook s' j) = 0" if "hk_state (hr_hook s' j) = RUnhooked"
      using hooks [of j] zero that \<open>states_ok s\<close> by (auto simp: states_ok_def)
  qed
  then show ?thesis using 1 by (simp add: settles_def)
qed

lemma flight_destroy [simp]:
  "lr_in_flight (hr_listener (DestroyListenerRecord l s) k) = lr_in_flight (hr_listener s k)"
  by (simp add: DestroyListenerRecord_def Let_def split: bool.split option.split)

lemma new_record_set:
  "new_record s t \<Longrightarrow> hk_in_flight h = hk_in_flight (hr_hook t (hr_next_hook s)) \<Longrightarrow>
   set (hk_listeners h) \<subseteq> set (hk_listeners (hr_hook t (hr_next_hook s))) \<Longrightarrow>
   new_record s (set_hook (hr_next_hook s) h t)"
  by (auto simp: new_record_def Let_def)

lemma new_record_bridge:
  "new_record s t \<Longrightarrow> new_record s (RegisterArm64ExceptionBridgeConsumer (hr_next_hook s) t)"
  "new_record s t \<Longrightarrow> new_record s (bind_target i t)"
  "new_record s t \<Longrightarrow> new_record s (DestroyListenerRecord l t)"
  by (auto simp: new_record_def Let_def RegisterArm64ExceptionBridgeConsumer_def bind_target_def
      split: option.split)

lemma new_record_add:
  "new_record s t \<Longrightarrow> hk_in_flight h = hk_in_flight (hr_hook t (hr_next_hook s)) \<Longrightarrow>
   set (hk_listeners h) \<subseteq> set (hk_listeners (hr_hook t (hr_next_hook s))) \<Longrightarrow>
   new_record s (add_hook (hr_next_hook s) h t)"
  by (auto simp: new_record_def Let_def add_hook_def)

lemma new_record_prepare:
  assumes inv: "reg_inv {} s" and run: "prepare_hook q layout xb target s = (l, s')"
  shows "new_record s s'"
proof -
  have fresh: "lr_in_flight (hr_listener s (hr_next_listener s)) = 0"
    using inv by (simp add: reg_inv_def holds_ok_def)
  let ?lq = "ir_listener q"
  let ?h = "(new_hook target)\<lparr>hk_has_method := True,
      hk_shared_code_opt_in := AllowsSharedCode (lq_options ?lq),
      hk_adapter := ho_adapter (lq_options ?lq), hk_binding := hr_binding s,
      hk_generation := lq_generation ?lq, hk_expected := lq_expected ?lq,
                 hk_method := lq_method ?lq, hk_profile := ir_profile q, hk_layout := layout,
                 hk_null_value := lq_null_value ?lq,
                 hk_true_value := lq_true_value ?lq, hk_false_value := lq_false_value ?lq,
                 hk_state := RInstalling\<rparr>"
  have "add_new_listener (hr_next_hook s) (?lq\<lparr>lq_layout := layout, lq_exception := xb\<rparr>)
      (set_hook (hr_next_hook s) ?h s) = (l, s')"
    using run by (simp add: prepare_hook_def add_new_listener_def Let_def split: prod.splits)
  then show ?thesis
    using fresh by (auto simp: add_new_listener_eq Let_def new_record_def new_hook_def)
qed

lemma new_record_drop:
  "new_record s t \<Longrightarrow> new_record s (drop_hook (hr_next_hook s) l t)"
  unfolding drop_hook_def by (intro new_record_bridge(3) new_record_set) simp_all

lemma new_record_keep:
  "new_record s t \<Longrightarrow> new_record s (keep_failed_hook st (hr_next_hook s) l t)"
  unfolding keep_failed_hook_def by (intro new_record_bridge(3) new_record_add) simp_all

lemma dropped_lists [simp]:
  "hk_listeners (hr_hook (drop_hook i l t) i) = []"
  "hk_listeners (hr_hook (keep_failed_hook st i l t) i) = []"
  by (simp_all add: drop_hook_def keep_failed_hook_def add_hook_def)

text \<open>A step of the installation ends with a new record that is installed or has no listener.\<close>

definition ends_well :: "registry \<Rightarrow> registry \<Rightarrow> bool" where
  "ends_well s s' \<longleftrightarrow> new_record s s' \<and> (hk_listeners (hr_hook s' (hr_next_hook s)) \<noteq> [] \<longrightarrow>
     hk_state (hr_hook s' (hr_next_hook s)) = RInstalled)"

lemma ends_well_drop:
  "new_record s t \<Longrightarrow> ends_well s (drop_hook (hr_next_hook s) l t)"
  "new_record s t \<Longrightarrow> ends_well s (keep_failed_hook st (hr_next_hook s) l t)"
  by (simp_all add: ends_well_def new_record_drop new_record_keep)

lemma ends_well_gated:
  assumes new: "new_record s t" and run: "publish_gated ba (hr_next_hook s) l target t = (st, og, t')"
  shows "st \<noteq> DP_OK \<Longrightarrow> ends_well s t'" "st = DP_OK \<Longrightarrow> new_record s t'"
proof -
  let ?i = "hr_next_hook s"
  obtain st1 p1 where 1: "PreparePublishedHostHook (ba_gate_stub ba) (Some empty_published) (hr_binding t)
      target (hk_replacement (hr_hook t ?i)) True 0 = (st1, p1)" by fastforce
  obtain st2 og2 p2 where 2: "InstallPublishedHostHook p1 True = (st2, og2, p2)" by (metis prod_cases3)
  show "st \<noteq> DP_OK \<Longrightarrow> ends_well s t'" "st = DP_OK \<Longrightarrow> new_record s t'"
    using run 1 2
    by (auto simp: publish_gated_def Let_def intro!: ends_well_drop new_record_set [OF new] new split: if_splits)
qed

lemma ends_well_raw:
  assumes new: "new_record s t" and run: "publish_raw hf (hr_next_hook s) l target t = (st, og, t')"
  shows "st \<noteq> DP_OK \<Longrightarrow> ends_well s t'" "st = DP_OK \<Longrightarrow> new_record s t'"
proof -
  obtain st1 og1 where 1: "hf target (hk_replacement (hr_hook t (hr_next_hook s))) = (st1, og1)" by fastforce
  show "st \<noteq> DP_OK \<Longrightarrow> ends_well s t'" "st = DP_OK \<Longrightarrow> new_record s t'"
    using run 1
    by (auto simp: publish_raw_def Let_def intro!: ends_well_drop new_record_set [OF new] new split: if_splits)
qed

lemma ends_well_undo:
  assumes new: "new_record s t"
  shows "ends_well s (undo_publication real_dart restored hu (hr_next_hook s) l target t)"
proof -
  obtain st p where 1: "UninstallPublishedHostHook (snd (ClosePublishedHostHook
      (hk_published (hr_hook t (hr_next_hook s))))) = (st, p)" by fastforce
  show ?thesis
    using 1 by (auto simp: undo_publication_def Let_def intro!: ends_well_drop new_record_set [OF new])
qed

lemma ends_well_finish:
  assumes new: "new_record s t"
  shows "ends_well s (finish_install real_dart handle (hr_next_hook s) t)"
proof -
  let ?t = "if real_dart then RegisterArm64ExceptionBridgeConsumer (hr_next_hook s) t else t"
  have 1: "new_record s ?t" using new new_record_bridge(1) by simp
  have "new_record s (finish_install real_dart handle (hr_next_hook s) t)"
    unfolding finish_install_def Let_def by (intro new_record_bridge(2) new_record_add [OF 1]) simp_all
  moreover have "hk_state (hr_hook (finish_install real_dart handle (hr_next_hook s) t) (hr_next_hook s)) = RInstalled"
    by (simp add: finish_install_def Let_def bind_target_def add_hook_def split: option.split)
  ultimately show ?thesis by (simp add: ends_well_def)
qed

lemma ends_well_complete:
  assumes "fst p \<noteq> DP_OK \<Longrightarrow> ends_well s (snd (snd p))" "fst p = DP_OK \<Longrightarrow> new_record s (snd (snd p))"
  shows "ends_well s (snd (complete_install ba real_dart handle hu (hr_next_hook s) l target p))"
proof -
  obtain st og t where p: "p = (st, og, t)" by (metis prod_cases3)
  have "st = DP_OK \<Longrightarrow> new_record s (set_hook (hr_next_hook s)
      ((hr_hook t (hr_next_hook s))\<lparr>hk_backup := og, hk_entry_ready := True\<rparr>) t)"
    using assms(2) p by (intro new_record_set) simp_all
  then show ?thesis
    using assms(1) p ends_well_undo ends_well_finish by (simp add: complete_install_def Let_def)
qed

lemma ends_well_new:
  assumes new: "new_record s t"
  shows "ends_well s (snd (install_new_hook ba real_dart handle hf hu (hr_next_hook s) l target t))"
proof -
  let ?i = "hr_next_hook s"
  let ?h = "(hr_hook t ?i)\<lparr>hk_replacement := fst (ba_stub ba), hk_replacement_size := snd (ba_stub ba)\<rparr>"
  have 1: "new_record s (set_hook ?i ?h t)"
    and 2: "new_record s (set_hook ?i (?h\<lparr>hk_replacement := 0, hk_replacement_size := 0\<rparr>) t)"
    by (rule new_record_set [OF new]; simp)+
  let ?p = "if real_dart then publish_gated ba ?i l target (set_hook ?i ?h t)
     else publish_raw hf ?i l target (set_hook ?i ?h t)"
  obtain st og t' where p: "?p = (st, og, t')" by (metis prod_cases3)
  have "st \<noteq> DP_OK \<Longrightarrow> ends_well s t'" "st = DP_OK \<Longrightarrow> new_record s t'"
    using p ends_well_gated [OF 1] ends_well_raw [OF 1] by (metis (full_types))+
  then have "ends_well s (snd (complete_install ba real_dart handle hu ?i l target ?p))"
    by (intro ends_well_complete) (simp_all add: p)
  then show ?thesis
    using ends_well_drop(1) [OF new] ends_well_drop(2) [OF 2] by (simp add: install_new_hook_def Let_def)
qed

lemma settles_cong:
  assumes "hr_hook t = hr_hook s" "hr_listener t = hr_listener s"
    "hr_next_listener t = hr_next_listener s" "hr_next_hook t = hr_next_hook s"
  shows "settles s t"
  using assms by (simp add: settles_def calm_def states_ok_def)

lemma install_locked_ok:
  assumes inv: "reg_inv {} s" and fit: "counters_fit s"
    and idle: "hk_in_flight (hr_hook s (hr_next_hook s)) = 0"
    and run: "install_locked env ba q f b layout s = (st, out, s')"
  shows "reg_inv {} s' \<and> settles s s'"
proof -
  let ?real = "df_source f \<noteq> SourceSynthetic"
  let ?t = "MethodTarget (hr_world s) (lq_method (ir_listener q))"
  have "s' = s \<or> (\<exists>l s1 hf hu. prepare_hook q layout (exception_binding_for env f b) (df_target f) s = (l, s1) \<and>
      s' = snd (install_new_hook ba ?real (ir_out_listener q) hf hu (hr_next_hook s) l ?t s1))"
    using run by (auto simp: install_locked_def Let_def split: option.splits if_splits prod.splits)
      (metis snd_conv)+
  then have "settles s s'"
    using new_record_settles [OF _ idle] ends_well_new [OF new_record_prepare [OF inv]]
    by (auto simp: ends_well_def)
  then show ?thesis using reg_inv_install_locked [OF inv fit run] by blast
qed

text \<open>The binding of a method touches adapters only.\<close>

lemma hook_install_ok:
  assumes inv: "reg_inv {} s" and fit: "counters_fit s"
    and idle: "hk_in_flight (hr_hook s (hr_next_hook s)) = 0"
    and run: "InstallCallbackHook env ba q s = (st, out, s')"
  shows "reg_inv {} s' \<and> settles s s'"
proof -
  have ok: "reg_inv {} s1 \<and> counters_fit s1 \<and> settles s s1 \<and> hk_in_flight (hr_hook s1 (hr_next_hook s1)) = 0"
    if "admit_install env q m f s = (r, s1)" for m f r s1
    using reg_inv_cong [OF admit_install_frame(1,2,3,5) [OF that], of "{}"] idle
      counters_fit_cong [OF admit_install_frame(1,3) [OF that]] inv fit
      settles_cong [OF admit_install_frame(1-4) [OF that]] admit_install_frame(1,4) [OF that] by simp
  show ?thesis
    using run inv
    by (auto simp: InstallCallbackHook_def split: option.splits if_splits prod.splits sum.splits
        dest!: ok dest: install_locked_ok intro: settles_trans)
qed

lemma install_other:
  assumes inv: "reg_inv {} s" and run: "InstallCallbackHook env ba q s = (st, out, s')"
    and j: "j \<noteq> hr_next_hook s"
  shows "hr_hook s' j = hr_hook s j"
proof -
  have locked: "hr_hook s2 j = hr_hook s1 j"
    if ok: "reg_inv {} s1" "j \<noteq> hr_next_hook s1"
      and run: "install_locked env ba q f b layout s1 = (st, out, s2)" for f b layout s1 s2
  proof -
    have "s2 = s1 \<or> (\<exists>l t hf hu real_dart t'. prepare_hook q layout (exception_binding_for env f b) (df_target f) s1 = (l, t) \<and>
        s2 = snd (install_new_hook ba real_dart (ir_out_listener q) hf hu (hr_next_hook s1) l t' t))"
      using run by (auto simp: install_locked_def Let_def split: option.splits if_splits prod.splits)
        (metis snd_conv)+
    then show ?thesis
      using ends_well_new [OF new_record_prepare [OF ok(1)]] ok(2)
      by (fastforce simp: ends_well_def new_record_def Let_def)
  qed
  have admit: "reg_inv {} s1 \<and> hr_hook s1 = hr_hook s \<and> hr_next_hook s1 = hr_next_hook s"
    if "admit_install env q m f s = (r, s1)" for m f r s1
    using reg_inv_cong [OF admit_install_frame(1,2,3,5) [OF that], of "{}"] inv
      admit_install_frame(1,4) [OF that] by simp
  show ?thesis
    using run j
    by (auto simp: InstallCallbackHook_def split: option.splits if_splits prod.splits sum.splits
        dest!: admit dest: locked)
qed

lemma add_locked_ok:
  assumes inv: "reg_inv {} s" and fit: "counters_fit s"
    and run: "add_listener_locked i q s = (st, out, s')"
  shows "reg_inv {} s' \<and> settles s s'"
proof -
  have fresh: "lr_in_flight (hr_listener s (hr_next_listener s)) = 0"
    using inv by (simp add: reg_inv_def holds_ok_def)
  obtain l s1 where 1: "add_new_listener i q s = (l, s1)" by fastforce
  have "s' = s \<or> (hk_state (hr_hook s i) = RInstalled \<and>
      s' = set_hook i ((hr_hook s1 i)\<lparr>hk_listener_handles := hk_listener_handles (hr_hook s1 i) + 1\<rparr>) s1)"
    using run 1
    by (auto simp: add_listener_locked_def add_new_listener_def Let_def split: if_splits prod.splits)
  moreover have "settles s (set_hook i ((hr_hook s1 i)
      \<lparr>hk_listener_handles := hk_listener_handles (hr_hook s1 i) + 1\<rparr>) s1)"
    if st: "hk_state (hr_hook s i) = RInstalled"
    using 1 fresh st by (auto simp: add_new_listener_eq Let_def settles_def calm_def states_ok_def)
  ultimately show ?thesis using reg_inv_add_locked [OF inv fit run] by auto
qed

lemma add_listener_ok:
  assumes inv: "reg_inv {} s" and fit: "counters_fit s"
    and run: "AddCallbackListener env hook output q s = (st, out, s')"
  shows "reg_inv {} s' \<and> settles s s'"
proof -
  have ok: "reg_inv {} s1 \<and> counters_fit s1 \<and> settles s s1"
    if "bind_method env m f ad layout t shared s = (r, b, layout', s1)" for m f ad layout t shared r b layout' s1
    using reg_inv_cong [OF bind_method_frame(1,2,3,5) [OF that], of "{}"]
      counters_fit_cong [OF bind_method_frame(1,3) [OF that]] inv fit
      settles_cong [OF bind_method_frame(1-4) [OF that]] by simp
  show ?thesis
    using run inv fit
    by (auto simp: AddCallbackListener_def split: option.splits if_splits prod.splits
        dest!: ok dest: add_locked_ok intro: settles_trans)
qed

lemma bind_frame [simp]:
  "hr_hook (bind_target i s) = hr_hook s" "hr_listener (bind_target i s) = hr_listener s"
  "hr_next_listener (bind_target i s) = hr_next_listener s"
  "hr_next_hook (bind_target i s) = hr_next_hook s"
  by (simp_all add: bind_target_def split: option.split)

lemma raw_install_ok:
  assumes inv: "reg_inv {} s" and idle: "hk_in_flight (hr_hook s (hr_next_hook s)) = 0"
    and run: "InstallHook outputs captured target replacement s = (st, out, s')"
  shows "reg_inv {} s' \<and> settles s s'"
proof -
  have "s' = s \<or> (\<exists>h. hk_listeners h = [] \<and> hk_in_flight h = 0 \<and>
      (s' = add_hook (hr_next_hook s) h s \<or> s' = bind_target (hr_next_hook s) (add_hook (hr_next_hook s) h s)))"
    using run
    by (simp add: InstallHook_def Let_def split: option.splits if_splits prod.splits; (clarsimp simp: new_hook_def)?)
      (metis (no_types, lifting) hook_record.select_convs hook_record.update_convs)+
  moreover have "settles s t" if "hk_listeners h = []" "hk_in_flight h = 0"
      "t = add_hook (hr_next_hook s) h s \<or> t = bind_target (hr_next_hook s) (add_hook (hr_next_hook s) h s)" for h t
    using that
    by (intro new_record_settles [OF _ idle])
      (auto simp: new_record_def Let_def add_hook_def)
  ultimately show ?thesis using reg_inv_raw_install [OF inv run] by auto
qed

section \<open>The dispatcher's side\<close>

lemma enter_fold_frame [simp]:
  "hr_hook (fold enter_listener ls s) = hr_hook s"
  "hr_next_listener (fold enter_listener ls s) = hr_next_listener s"
  "hr_next_hook (fold enter_listener ls s) = hr_next_hook s"
  by (induction ls arbitrary: s) simp_all

lemma enter_fold_flight:
  "lr_in_flight (hr_listener (fold enter_listener ls s) k) =
     lr_in_flight (hr_listener s k) + of_nat (count_list ls k)"
  by (induction ls arbitrary: s) (auto simp: enter_listener_def)

lemma reg_inv_enter_fold:
  "reg_inv {} s \<Longrightarrow> \<forall>l \<in> set ls. listed s l \<Longrightarrow> reg_inv {} (fold enter_listener ls s)"
proof (induction ls arbitrary: s)
  case (Cons l ls)
  have "\<forall>k \<in> set ls. listed (enter_listener l s) k"
    using Cons.prems(2) by (simp add: listed_def)
  then show ?case using Cons reg_inv_enter by simp
qed simp

text \<open>\<open>BeginInvocation\<close>: the hook is counted, and exactly the admitted listeners are.\<close>

lemma begin_eq:
  assumes inv: "reg_inv {} s" and run: "BeginInvocation pa i s = (True, ls, s')"
  defines "entered \<equiv> (if hk_state (hr_hook s i) = RInstalled \<and> hk_active (hr_hook s i)
     then filter (\<lambda>l. listener_admitted pa s (hr_listener s l)) (hk_listeners (hr_hook s i)) else [])"
  shows "ls = entered"
    and "s' = fold enter_listener entered
       (set_hook i ((hr_hook s i)\<lparr>hk_in_flight := hk_in_flight (hr_hook s i) + 1\<rparr>) s)"
    and "hk_state (hr_hook s i) \<notin> {RRetired, RUnhooked, RInstalling}"
proof -
  let ?s = "set_hook i ((hr_hook s i)\<lparr>hk_in_flight := hk_in_flight (hr_hook s i) + 1\<rparr>) s"
  have ad: "listener_admitted pa ?s = listener_admitted pa s"
    by (intro ext) (simp add: listener_admitted_def generation_current_def abi_binding_current_def
      split: option.split)
  note eq = admit_listeners_eq [OF reg_inv_distinct [OF inv], of pa i ?s]
  show "ls = entered"
    "s' = fold enter_listener entered
       (set_hook i ((hr_hook s i)\<lparr>hk_in_flight := hk_in_flight (hr_hook s i) + 1\<rparr>) s)"
    "hk_state (hr_hook s i) \<notin> {RRetired, RUnhooked, RInstalling}"
    using run eq by (auto simp: BeginInvocation_def Let_def ad entered_def split: if_splits)
qed

lemma reg_inv_begin:
  assumes inv: "reg_inv {} s" and run: "BeginInvocation pa i s = (True, ls, s')"
  shows "reg_inv {} s'"
proof -
  let ?s = "set_hook i ((hr_hook s i)\<lparr>hk_in_flight := hk_in_flight (hr_hook s i) + 1\<rparr>) s"
  have 1: "reg_inv {} ?s" by (rule reg_inv_quiet [OF inv]) (simp_all add: reg_inv_unretained [OF inv])
  show ?thesis
    unfolding begin_eq(2) [OF inv run]
    by (rule reg_inv_enter_fold [OF 1]) (auto simp: listed_def)
qed

lemma exit_frame [simp]:
  "hr_hook (exit_listener l s) = hr_hook s"
  "hr_next_listener (exit_listener l s) = hr_next_listener s"
  "hr_next_hook (exit_listener l s) = hr_next_hook s"
  "lr_in_flight (hr_listener (exit_listener l s) k) =
     (if k = l then lr_in_flight (hr_listener s k) - 1 else lr_in_flight (hr_listener s k))"
  by (simp_all add: exit_listener_def)

lemma exited_eq:
  assumes inv: "reg_inv {} s" and flying: "hk_in_flight (hr_hook s i) \<noteq> 0"
  shows "\<forall>j. j \<noteq> i \<longrightarrow> hr_hook (InvocationExited restore i s) j = hr_hook s j"
    and "hk_in_flight (hr_hook (InvocationExited restore i s) i) = hk_in_flight (hr_hook s i) - 1"
    and "hk_listeners (hr_hook (InvocationExited restore i s) i) = hk_listeners (hr_hook s i)"
    and "hr_listener (InvocationExited restore i s) = hr_listener s"
    and "hr_next_listener (InvocationExited restore i s) = hr_next_listener s"
    and "hr_next_hook (InvocationExited restore i s) = hr_next_hook s"
    and "hk_state (hr_hook (InvocationExited restore i s) i) = RUnhooked \<longrightarrow>
      hk_state (hr_hook s i) = RUnhooked \<or> hk_in_flight (hr_hook s i) - 1 = 0"
    and "hk_listeners (hr_hook s i) \<noteq> [] \<longrightarrow> states_ok s \<longrightarrow>
      hk_state (hr_hook (InvocationExited restore i s) i) = RInstalled"
proof -
  let ?s = "set_hook i ((hr_hook s i)\<lparr>hk_in_flight := hk_in_flight (hr_hook s i) - 1\<rparr>) s"
  obtain st s1 where fin: "FinishUnhookLocked restore i ?s = (st, s1)" by fastforce
  have "same_listeners i ?s s1"
    by (rule finish_shape [OF fin]) (simp add: reg_inv_unretained [OF inv])
  moreover have "InvocationExited restore i s =
      (if hk_in_flight (hr_hook s i) - 1 = 0 \<and> hk_state (hr_hook s i) = RUnhooking then s1 else ?s)"
    using flying by (simp only: InvocationExited_def Let_def fin snd_conv if_True simp_thms)
  ultimately show "\<forall>j. j \<noteq> i \<longrightarrow> hr_hook (InvocationExited restore i s) j = hr_hook s j"
    "hk_in_flight (hr_hook (InvocationExited restore i s) i) = hk_in_flight (hr_hook s i) - 1"
    "hk_listeners (hr_hook (InvocationExited restore i s) i) = hk_listeners (hr_hook s i)"
    "hr_listener (InvocationExited restore i s) = hr_listener s"
    "hr_next_listener (InvocationExited restore i s) = hr_next_listener s"
    "hr_next_hook (InvocationExited restore i s) = hr_next_hook s"
    "hk_state (hr_hook (InvocationExited restore i s) i) = RUnhooked \<longrightarrow>
      hk_state (hr_hook s i) = RUnhooked \<or> hk_in_flight (hr_hook s i) - 1 = 0"
    "hk_listeners (hr_hook s i) \<noteq> [] \<longrightarrow> states_ok s \<longrightarrow>
      hk_state (hr_hook (InvocationExited restore i s) i) = RInstalled"
    by (auto simp: same_listeners_def states_ok_def)
qed

section \<open>The system\<close>

record hook_system =
  sy_registry :: registry
  sy_open :: "(nat \<times> nat list) list"
  sy_handles :: "listener_handle list"

text \<open>
  The public operations that need no listener handle, and what others do to the parts of the
  registry that the hooks only read: the generations, the host's binding, the entry targets and
  the adapters, whose hook references only the hooks change.
\<close>

inductive registry_op :: "registry \<Rightarrow> registry \<Rightarrow> bool" where
  raw_hook: "InstallHook outputs captured target replacement s = (st, out, s') \<Longrightarrow> registry_op s s'"
| unhook: "RemoveHook restore hook s = (st, s') \<Longrightarrow> registry_op s s'"
| release: "registry_op s (ReleaseHook hook s)"
| reset: "registry_op s (ResetHooks restore s)"
| invalidate: "InvalidateRuntimeHooks restore g s = (st, s') \<Longrightarrow> registry_op s s'"
| invalidate_image: "InvalidateRuntimeImageHooks restore g img epoch s = (st, s') \<Longrightarrow> registry_op s s'"
| retire: "registry_op s (RetireRuntimeHooks g s)"
| retire_images: "registry_op s (RetireRuntimeImageHooks g img epoch s)"
| quiesce: "QuiesceVmAdapterHooks restore adapter s = (st, s') \<Longrightarrow> registry_op s s'"
| adapter: "va_hook_refs v = va_hook_refs (hr_adapter s a) \<Longrightarrow> registry_op s (set_adapter a v s)"
| others: "registry_op s (s\<lparr>hr_generation := gens, hr_world := w, hr_binding := b\<rparr>)"

text \<open>
  A hook names a record the program has: calls pass the registry's hooks. An open invocation
  leaves its listeners one by one, in any order, and then the hook.
\<close>

inductive system_step :: "hook_system \<Rightarrow> hook_system \<Rightarrow> bool" where
  op: "registry_op (sy_registry y) s' \<Longrightarrow> system_step y (y\<lparr>sy_registry := s'\<rparr>)"
| install: "InstallCallbackHook env ba q (sy_registry y) = (st, out, s') \<Longrightarrow>
    system_step y (y\<lparr>sy_registry := s', sy_handles :=
      (case out of Some (i, Some h) \<Rightarrow> h # sy_handles y | _ \<Rightarrow> sy_handles y)\<rparr>)"
| add: "AddCallbackListener env (Some i) output q (sy_registry y) = (st, out, s') \<Longrightarrow>
    system_step y (y\<lparr>sy_registry := s', sy_handles :=
      (case out of Some h \<Rightarrow> h # sy_handles y | None \<Rightarrow> sy_handles y)\<rparr>)"
| remove: "h \<in> set (sy_handles y) \<Longrightarrow>
    dartplant_remove_listener restore h (sy_registry y) = (st, s') \<Longrightarrow>
    system_step y (y\<lparr>sy_registry := s'\<rparr>)"
| release_handle: "h \<in> set (sy_handles y) \<Longrightarrow>
    dartplant_release_listener restore h (sy_registry y) = (gone, s') \<Longrightarrow>
    system_step y (y\<lparr>sy_registry := s', sy_handles :=
      (if gone then remove1 h (sy_handles y) else sy_handles y)\<rparr>)"
| begin_invocation: "i < hr_next_hook (sy_registry y) \<Longrightarrow>
    BeginInvocation pa i (sy_registry y) = (True, ls, s') \<Longrightarrow>
    system_step y (y\<lparr>sy_registry := s', sy_open := (i, ls) # sy_open y\<rparr>)"
| leave_listener: "sy_open y = fs @ (i, ks @ l # ls) # gs \<Longrightarrow>
    system_step y (y\<lparr>sy_registry := exit_listener l (sy_registry y),
                     sy_open := fs @ (i, ks @ ls) # gs\<rparr>)"
| exit_hook: "sy_open y = fs @ (i, []) # gs \<Longrightarrow>
    system_step y (y\<lparr>sy_registry := InvocationExited restore i (sy_registry y), sy_open := fs @ gs\<rparr>)"

text \<open>
  The 64-bit counters do not overflow: this is a bound on the number of registrations and of
  invocations that are open at one time.
\<close>

definition held :: "hook_system \<Rightarrow> nat list" where
  "held y = concat (map snd (sy_open y))"

definition system_fits :: "hook_system \<Rightarrow> bool" where
  "system_fits y \<longleftrightarrow> counters_fit (sy_registry y) \<and> length (sy_open y) < 2 ^ 64 \<and>
     length (held y) < 2 ^ 64"

definition empty_registry :: "registry \<Rightarrow> bool" where
  "empty_registry s \<longleftrightarrow> hr_hooks s = [] \<and> hr_next_hook s = 0 \<and> hr_next_listener s = 0 \<and>
     (\<forall>i. hr_hook s i = new_hook None) \<and>
     (\<forall>l. \<not> lr_retained (hr_listener s l) \<and> lr_in_flight (hr_listener s l) = 0) \<and>
     (\<forall>a. va_hook_refs (hr_adapter s a) = 0)"

inductive system_reachable :: "hook_system \<Rightarrow> bool" where
  start: "empty_registry (sy_registry y) \<Longrightarrow> sy_open y = [] \<Longrightarrow> sy_handles y = [] \<Longrightarrow>
    system_fits y \<Longrightarrow> system_reachable y"
| step: "system_reachable y \<Longrightarrow> system_step y y' \<Longrightarrow> system_fits y' \<Longrightarrow> system_reachable y'"

section \<open>The invariant of the system\<close>

definition open_at :: "hook_system \<Rightarrow> nat \<Rightarrow> nat" where
  "open_at y i = length (filter (\<lambda>f. fst f = i) (sy_open y))"

definition handles_ok :: "hook_system \<Rightarrow> bool" where
  "handles_ok y \<longleftrightarrow> (\<forall>h \<in> set (sy_handles y). lh_record h < hr_next_listener (sy_registry y) \<and>
     (\<forall>j. lh_record h \<in> set (hk_listeners (hr_hook (sy_registry y) j)) \<longrightarrow> j = lh_hook h))"

definition system_inv :: "hook_system \<Rightarrow> bool" where
  "system_inv y \<longleftrightarrow> reg_inv {} (sy_registry y) \<and> states_ok (sy_registry y) \<and> handles_ok y \<and>
     (\<forall>i. hk_in_flight (hr_hook (sy_registry y) i) = of_nat (open_at y i)) \<and>
     (\<forall>l. lr_in_flight (hr_listener (sy_registry y) l) = of_nat (count_list (held y) l)) \<and>
     (\<forall>f \<in> set (sy_open y). fst f < hr_next_hook (sy_registry y))"

lemma registry_op_ok:
  assumes op: "registry_op s s'" and inv: "reg_inv {} s"
    and idle: "hk_in_flight (hr_hook s (hr_next_hook s)) = 0"
  shows "reg_inv {} s' \<and> settles s s'"
  using op
proof cases
  case (adapter v a)
  then show ?thesis using set_adapter_ok [OF inv] by simp
next
  case (others gens w b)
  have "reg_inv {} s' = reg_inv {} s" by (rule reg_inv_cong) (simp_all add: others)
  then show ?thesis using inv settles_cong [of s' s] by (simp add: others)
next
  case raw_hook
  then show ?thesis using raw_install_ok [OF inv idle] by blast
next
  case unhook
  then show ?thesis using unhook_ok [OF inv] by blast
next
  case release
  then show ?thesis using release_hook_ok [OF inv] by simp
next
  case reset
  then show ?thesis using reset_ok [OF inv] by simp
next
  case invalidate
  then show ?thesis using runtime_hooks_ok(1) [OF inv] by blast
next
  case invalidate_image
  then show ?thesis using runtime_hooks_ok(2) [OF inv] by blast
next
  case retire
  then show ?thesis using retire_ok(1) [OF inv] by simp
next
  case retire_images
  then show ?thesis using retire_ok(2) [OF inv] by simp
next
  case quiesce
  then show ?thesis using quiesce_ok [OF inv] by blast
qed

lemma idle_next:
  assumes "system_inv y"
  shows "hk_in_flight (hr_hook (sy_registry y) (hr_next_hook (sy_registry y))) = 0"
proof -
  have "open_at y (hr_next_hook (sy_registry y)) = 0"
    using assms unfolding system_inv_def open_at_def by (force simp: filter_empty_conv)
  then show ?thesis using assms by (simp add: system_inv_def)
qed

text \<open>A settled step keeps the counts.\<close>

lemma system_inv_settles:
  assumes inv: "system_inv y" and reg: "reg_inv {} s'" and set: "settles (sy_registry y) s'"
    and same: "sy_open y' = sy_open y" "sy_registry y' = s'"
    and hs: "\<And>h. h \<in> set (sy_handles y') \<Longrightarrow> h \<notin> set (sy_handles y) \<Longrightarrow>
      lh_record h < hr_next_listener s' \<and>
      (\<forall>j. lh_record h \<in> set (hk_listeners (hr_hook s' j)) \<longrightarrow> j = lh_hook h)"
  shows "system_inv y'"
proof -
  have calm: "calm (sy_registry y) s'" and st: "states_ok s'"
    using set inv by (simp_all add: settles_def system_inv_def)
  have "handles_ok y'"
    unfolding handles_ok_def same(2)
  proof (intro ballI)
    fix h
    assume h: "h \<in> set (sy_handles y')"
    show "lh_record h < hr_next_listener s' \<and>
      (\<forall>j. lh_record h \<in> set (hk_listeners (hr_hook s' j)) \<longrightarrow> j = lh_hook h)"
    proof (cases "h \<in> set (sy_handles y)")
      case True
      then have "lh_record h < hr_next_listener (sy_registry y)"
        "\<forall>j. lh_record h \<in> set (hk_listeners (hr_hook (sy_registry y) j)) \<longrightarrow> j = lh_hook h"
        using inv by (simp_all add: system_inv_def handles_ok_def)
      then show ?thesis using calm by (meson calm_def le_less_trans less_le_trans not_less)
    next
      case False
      then show ?thesis using hs [OF h] by blast
    qed
  qed
  then show ?thesis
    using inv calm st reg
    by (fastforce simp: system_inv_def calm_def same open_at_def held_def)
qed

text \<open>A handle that is given out names a listener on its hook's list.\<close>

lemma finish_lists:
  "hk_listeners (hr_hook (finish_install real_dart handle i s) i) = hk_listeners (hr_hook s i)"
  by (simp add: finish_install_def Let_def add_hook_def RegisterArm64ExceptionBridgeConsumer_def)

lemma complete_lists:
  assumes "complete_install ba real_dart handle hu i l target (st, og, s) = (DP_OK, s')"
  shows "st = DP_OK \<and> hk_listeners (hr_hook s' i) = hk_listeners (hr_hook s i)"
  using assms by (auto simp: complete_install_def Let_def finish_lists split: if_splits)

lemma install_new_lists:
  assumes ins: "installing i l s"
    and run: "install_new_hook ba real_dart handle hf hu i l target s = (DP_OK, s')"
  shows "hk_listeners (hr_hook s' i) = [l]"
proof -
  let ?h = "(hr_hook s i)\<lparr>hk_replacement := fst (ba_stub ba), hk_replacement_size := snd (ba_stub ba)\<rparr>"
  have 1: "installing i l (set_hook i ?h s)"
    by (rule installing_hook [OF ins]) (simp_all add: installing_unretained [OF ins])
  let ?p = "if real_dart then publish_gated ba i l target (set_hook i ?h s)
     else publish_raw hf i l target (set_hook i ?h s)"
  obtain st og t where p: "?p = (st, og, t)" by (metis prod_cases3)
  have "complete_install ba real_dart handle hu i l target ?p = (DP_OK, s')"
    using run by (auto simp: install_new_hook_def Let_def split: if_splits)
  then have "st = DP_OK" "hk_listeners (hr_hook s' i) = hk_listeners (hr_hook t i)"
    using complete_lists unfolding p by blast+
  moreover have "st = DP_OK \<Longrightarrow> installing i l t"
    using p reg_inv_publish_gated(2) [OF 1] reg_inv_publish_raw(2) [OF 1] by (metis (full_types))
  ultimately show ?thesis by (simp add: installing_def)
qed

lemma install_handle:
  assumes inv: "reg_inv {} s" and fit: "counters_fit s"
    and run: "InstallCallbackHook env ba q s = (st, Some (i, Some h), s')"
  shows "lh_record h \<in> set (hk_listeners (hr_hook s' (lh_hook h)))"
proof -
  obtain m f b layout s1 where 1: "admit_install env q m f s = (Inr (b, layout), s1)"
    and 2: "install_locked env ba q f b layout s1 = (st, Some (i, Some h), s')"
    using run by (auto simp: InstallCallbackHook_def split: option.splits if_splits prod.splits sum.splits)
  have ok: "reg_inv {} s1" "counters_fit s1"
    using reg_inv_cong [OF admit_install_frame(1,2,3,5) [OF 1], of "{}"]
      counters_fit_cong [OF admit_install_frame(1,3) [OF 1]] inv fit by simp_all
  obtain l s2 hf hu where 3: "prepare_hook q layout (exception_binding_for env f b) (df_target f) s1 = (l, s2)"
    and 4: "install_new_hook ba (df_source f \<noteq> SourceSynthetic) (ir_out_listener q) hf hu (hr_next_hook s1) l
      (MethodTarget (hr_world s1) (lq_method (ir_listener q))) s2 = (DP_OK, s')"
    and 5: "h = \<lparr>lh_hook = hr_next_hook s1, lh_record = l\<rparr>"
    using 2 by (auto simp: install_locked_def Let_def split: option.splits if_splits prod.splits)
  show ?thesis
    using install_new_lists [OF installing_prepare [OF ok 3] 4] 5 by simp
qed

lemma add_handle:
  assumes run: "AddCallbackListener env hook output q s = (st, Some h, s')"
  shows "lh_record h \<in> set (hk_listeners (hr_hook s' (lh_hook h)))"
proof -
  obtain i q' s1 where 1: "add_listener_locked i q' s1 = (st, Some h, s')"
    using run by (auto simp: AddCallbackListener_def split: option.splits if_splits prod.splits)
  obtain l s2 where 2: "add_new_listener i q' s1 = (l, s2)" by fastforce
  have "l \<in> set (hk_listeners (hr_hook s2 i))"
    using 2 by (auto simp: add_new_listener_eq Let_def)
  then show ?thesis
    using 1 2 by (auto simp: add_listener_locked_def add_new_listener_def Let_def split: if_splits prod.splits)
qed

lemma listed_unique:
  "reg_inv {} s \<Longrightarrow> l \<in> set (hk_listeners (hr_hook s i)) \<Longrightarrow>
     l < hr_next_listener s \<and> (\<forall>j. l \<in> set (hk_listeners (hr_hook s j)) \<longrightarrow> j = i)"
  unfolding reg_inv_def lists_ok_def by blast

section \<open>Every step keeps the invariant\<close>

lemma of_nat_pred64: "0 < n \<Longrightarrow> (of_nat n :: u64) - 1 = of_nat (n - 1)"
  by (simp add: of_nat_diff)

lemma count_list_le: "count_list xs x \<le> length xs"
  by (induction xs) (auto simp: le_SucI)

lemma system_inv_begin:
  assumes inv: "system_inv y" and i: "i < hr_next_hook (sy_registry y)"
    and run: "BeginInvocation pa i (sy_registry y) = (True, ls, s')"
  shows "system_inv (y\<lparr>sy_registry := s', sy_open := (i, ls) # sy_open y\<rparr>)"
proof -
  let ?s = "sy_registry y"
  have reg: "reg_inv {} ?s" using inv by (simp add: system_inv_def)
  note eq = begin_eq [OF reg run]
  have hooks: "hr_hook s' = (hr_hook ?s)(i := (hr_hook ?s i)
      \<lparr>hk_in_flight := hk_in_flight (hr_hook ?s i) + 1\<rparr>)"
    and nxt: "hr_next_listener s' = hr_next_listener ?s" "hr_next_hook s' = hr_next_hook ?s"
    by (simp_all add: eq(2))
  have fl: "lr_in_flight (hr_listener s' k) = lr_in_flight (hr_listener ?s k) + of_nat (count_list ls k)" for k
    unfolding eq(2) enter_fold_flight eq(1) [symmetric] by simp
  have "states_ok s'"
    using inv eq(3) by (auto simp: system_inv_def states_ok_def hooks)
  then show ?thesis
    using inv i reg_inv_begin [OF reg run]
    by (auto simp: system_inv_def handles_ok_def hooks nxt open_at_def held_def fl add.commute)
qed

lemma system_inv_leave:
  assumes inv: "system_inv y" and fits: "system_fits y"
    and split: "sy_open y = fs @ (i, ks @ l # ls) # gs"
  shows "system_inv (y\<lparr>sy_registry := exit_listener l (sy_registry y),
                        sy_open := fs @ (i, ks @ ls) # gs\<rparr>)"
    (is "system_inv ?y")
proof -
  let ?s = "sy_registry y" and ?c = "count_list (held y) l"
  have reg: "reg_inv {} ?s" using inv by (simp add: system_inv_def)
  have one: "count_list (held y) k = count_list (held ?y) k + (if k = l then 1 else 0)" for k
    by (simp add: held_def split)
  have pos: "0 < ?c" using one [of l] by simp
  have "?c < 2 ^ 64"
    using fits count_list_le [of "held y" l] by (simp add: system_fits_def)
  then have flying: "lr_in_flight (hr_listener ?s l) \<noteq> 0"
    using of_nat_u64_neq_0 [OF pos] inv by (simp add: system_inv_def)
  have fl: "lr_in_flight (hr_listener (exit_listener l ?s) k) = of_nat (count_list (held ?y) k)" for k
    using inv one [of k] of_nat_pred64 [OF pos] by (auto simp: system_inv_def)
  show ?thesis
    using inv reg_inv_exit [OF reg reg_inv_few [OF reg] flying] fl
    by (auto simp: system_inv_def handles_ok_def states_ok_def open_at_def split)
qed

lemma system_inv_exit:
  assumes inv: "system_inv y" and fits: "system_fits y" and split: "sy_open y = fs @ (i, []) # gs"
  shows "system_inv (y\<lparr>sy_registry := InvocationExited restore i (sy_registry y), sy_open := fs @ gs\<rparr>)"
    (is "system_inv ?y")
proof -
  let ?s = "sy_registry y" and ?t = "InvocationExited restore i (sy_registry y)"
  have reg: "reg_inv {} ?s" and st: "states_ok ?s" using inv by (simp_all add: system_inv_def)
  have one: "open_at y j = open_at ?y j + (if j = i then 1 else 0)" for j
    by (simp add: open_at_def split)
  have pos: "0 < open_at y i" using one [of i] by simp
  have "open_at y i \<le> length (sy_open y)" by (simp add: open_at_def)
  then have "open_at y i < 2 ^ 64" using fits by (simp add: system_fits_def)
  then have flying: "hk_in_flight (hr_hook ?s i) \<noteq> 0"
    using of_nat_u64_neq_0 [OF pos] inv by (simp add: system_inv_def)
  note eq = exited_eq [OF reg flying, where restore = restore]
  have lists: "hk_listeners (hr_hook ?t j) = hk_listeners (hr_hook ?s j)" for j
    using eq(1,3) by (cases "j = i") simp_all
  have count: "hk_in_flight (hr_hook ?t j) = of_nat (open_at ?y j)" for j
    using inv one [of j] of_nat_pred64 [OF pos] eq(1,2) by (cases "j = i") (auto simp: system_inv_def)
  have "states_ok ?t"
    unfolding states_ok_def
  proof (intro conjI allI impI)
    fix j
    show "hk_state (hr_hook ?t j) = RInstalled" if "hk_listeners (hr_hook ?t j) \<noteq> []"
      using that lists [of j] eq(1,8) st by (cases "j = i") (auto simp: states_ok_def)
    show "hk_in_flight (hr_hook ?t j) = 0" if "hk_state (hr_hook ?t j) = RUnhooked"
    proof (cases "j = i")
      case True
      then show ?thesis using that eq(2,7) flying st by (auto simp: states_ok_def)
    next
      case False
      then show ?thesis using that eq(1) st by (auto simp: states_ok_def)
    qed
  qed
  then show ?thesis
    using inv reg_inv_exited [OF reg, of restore i] count lists
    by (auto simp: system_inv_def handles_ok_def eq(4,5,6) held_def split)
qed

lemma system_inv_step:
  assumes inv: "system_inv y" and fits: "system_fits y" and step: "system_step y y'"
  shows "system_inv y'"
proof -
  have reg: "reg_inv {} (sy_registry y)" and fit: "counters_fit (sy_registry y)"
    using inv fits by (simp_all add: system_inv_def system_fits_def)
  note idle = idle_next [OF inv]
  have own: "j = lh_hook h" if "h \<in> set (sy_handles y)"
      "lh_record h \<in> set (hk_listeners (hr_hook (sy_registry y) j))" for h j
    using inv that by (auto simp: system_inv_def handles_ok_def)
  show ?thesis
    using step
  proof cases
    case (op s')
    have "reg_inv {} s' \<and> settles (sy_registry y) s'" by (rule registry_op_ok [OF op(2) reg idle])
    then show ?thesis using system_inv_settles [OF inv, of s' y'] by (simp add: op(1))
  next
    case (install env ba q st out s')
    have ok: "reg_inv {} s'" "settles (sy_registry y) s'"
      using hook_install_ok [OF reg fit idle install(2)] by simp_all
    show ?thesis
    proof (rule system_inv_settles [OF inv ok])
      fix h
      assume "h \<in> set (sy_handles y')" "h \<notin> set (sy_handles y)"
      then obtain i where "out = Some (i, Some h)"
        by (auto simp: install(1) split: option.splits)
      then show "lh_record h < hr_next_listener s' \<and>
          (\<forall>j. lh_record h \<in> set (hk_listeners (hr_hook s' j)) \<longrightarrow> j = lh_hook h)"
        using listed_unique [OF ok(1) install_handle [OF reg fit]] install(2) by blast
    qed (simp_all add: install(1))
  next
    case (add env i given q st out s')
    have ok: "reg_inv {} s'" "settles (sy_registry y) s'"
      using add_listener_ok [OF reg fit add(2)] by simp_all
    show ?thesis
    proof (rule system_inv_settles [OF inv ok])
      fix h
      assume "h \<in> set (sy_handles y')" "h \<notin> set (sy_handles y)"
      then have "out = Some h"
        by (auto simp: add(1) split: option.splits)
      then show "lh_record h < hr_next_listener s' \<and>
          (\<forall>j. lh_record h \<in> set (hk_listeners (hr_hook s' j)) \<longrightarrow> j = lh_hook h)"
        using listed_unique [OF ok(1) add_handle] add(2) by blast
    qed (simp_all add: add(1))
  next
    case (remove h restore st s')
    have "reg_inv {} s' \<and> settles (sy_registry y) s'"
      by (rule remove_listener_ok(1) [OF reg own [OF remove(2)] remove(3)])
    then show ?thesis using system_inv_settles [OF inv, of s' y'] by (simp add: remove(1))
  next
    case (release_handle h restore gone s')
    have "reg_inv {} s' \<and> settles (sy_registry y) s'"
      by (rule remove_listener_ok(2) [OF reg own [OF release_handle(2)] release_handle(3)])
    then show ?thesis
      using system_inv_settles [OF inv, of s' y'] set_remove1_subset [of h "sy_handles y"]
      by (auto simp: release_handle(1) split: if_splits)
  next
    case (begin_invocation i pa ls s')
    then show ?thesis using system_inv_begin [OF inv] by simp
  next
    case (leave_listener fs i ks l ls gs)
    then show ?thesis using system_inv_leave [OF inv fits] by simp
  next
    case (exit_hook fs i gs restore)
    then show ?thesis using system_inv_exit [OF inv fits] by simp
  qed
qed

lemma system_inv_start:
  assumes "empty_registry (sy_registry y)" "sy_open y = []" "sy_handles y = []"
  shows "system_inv y"
  using assms
  by (simp add: system_inv_def empty_registry_def reg_inv_def lists_ok_def holds_ok_def refs_ok_def
      states_ok_def handles_ok_def open_at_def held_def listed_def holders_def new_hook_def)

lemma system_reachable_inv: "system_reachable y \<Longrightarrow> system_inv y \<and> system_fits y"
proof (induction rule: system_reachable.induct)
  case (start y)
  then show ?case using system_inv_start by blast
next
  case (step y y')
  then show ?case using system_inv_step by blast
qed

end
