(* ===== verification/Hook_Props.thy ===== *)
theory Hook_Props
  imports Hook_System
begin

text \<open>
  The properties of the hook registry in every state the system can reach: the order of the
  listeners, who an invocation enters, what keeps adapters and unhooked records, and what an
  invalidation takes away.
\<close>

section \<open>What stays fixed of a listener\<close>

definition same_owner :: "registry \<Rightarrow> registry \<Rightarrow> bool" where
  "same_owner s s' \<longleftrightarrow> (\<forall>l. lr_generation (hr_listener s' l) = lr_generation (hr_listener s l) \<and>
     lr_method (hr_listener s' l) = lr_method (hr_listener s l) \<and>
     lr_adapter (hr_listener s' l) = lr_adapter (hr_listener s l))"

lemma same_owner_fold: "same_owner s (fold deactivate_listener ls s)"
  by (induction ls arbitrary: s) (simp_all add: same_owner_def deactivate_listener_at)

lemma same_owner_image: "same_owner s s' \<Longrightarrow>
    of_image g img epoch (hr_listener s' l) = of_image g img epoch (hr_listener s l)"
  by (simp add: same_owner_def of_image_def)

lemma same_owner_unhook:
  assumes un: "\<not> hk_adapter_retained (hr_hook s i)" and run: "UnhookRecordLocked restore i s = (st, s')"
  shows "same_owner s s'"
proof (cases "hk_state (hr_hook s i) \<in> {RUnhooked, RRetired, RUnhooking}")
  case True
  then show ?thesis
    using run by (auto simp: UnhookRecordLocked_def Let_def same_owner_def split: if_splits)
next
  case False
  let ?h = "hr_hook s i"
  let ?s0 = "set_hook i (?h\<lparr>hk_state := RUnhooking, hk_active := False\<rparr>) s"
  let ?s1 = "fold deactivate_listener (hk_listeners ?h) ?s0"
  let ?s2 = "set_hook i ((hr_hook ?s1 i)\<lparr>hk_listeners := [],
                   hk_published := (if hk_published ?h \<noteq> None \<and> hk_backend_installed ?h
                                    then BeginDrainPublishedHostHook (hk_published ?h)
                                    else hk_published ?h)\<rparr>) ?s1"
  have 2: "same_owner s ?s2"
    using same_owner_fold [of ?s0 "hk_listeners ?h"] by (simp add: same_owner_def)
  have eq: "UnhookRecordLocked restore i s =
      (if hk_in_flight ?h \<noteq> 0 then (DP_OK, ?s2) else FinishUnhookLocked restore i ?s2)"
    using False by (simp add: UnhookRecordLocked_def Let_def)
  have "hr_listener s' = hr_listener ?s2"
  proof (cases "hk_in_flight ?h \<noteq> 0")
    case True
    then show ?thesis using run eq by simp
  next
    case False
    then have "FinishUnhookLocked restore i ?s2 = (st, s')" using run eq by simp
    from finish_shape [OF this] show ?thesis using un by (simp add: same_listeners_def)
  qed
  then show ?thesis using 2 by (simp add: same_owner_def)
qed

text \<open>One hook of an invalidation loses exactly the listeners of the owner.\<close>

lemma invalidate_one_lists:
  assumes inv: "reg_inv {} s" and st: "states_ok s" and skip: "\<not> skip RInstalled"
    and run: "invalidate_one restore skip fallback P i s = (status, s')"
  shows "hk_listeners (hr_hook s' i) = filter (\<lambda>l. \<not> P (hr_listener s l)) (hk_listeners (hr_hook s i))"
    and "j \<noteq> i \<Longrightarrow> hr_hook s' j = hr_hook s j"
    and "same_owner s s'"
proof -
  obtain m s1 where m: "(if hk_listeners (hr_hook s i) = [] then (fallback s (hr_hook s i), s)
      else RemoveMatchingListenersLocked i P s) = (m, s1)" by fastforce
  let ?kept = "filter (\<lambda>l. \<not> P (hr_listener s l)) (hk_listeners (hr_hook s i))"
  have 1: "reg_inv {} s1" "one_hook i s s1" "hk_listeners (hr_hook s1 i) = ?kept" "same_owner s s1"
  proof -
    have "hk_listeners (hr_hook s i) = [] \<Longrightarrow> s1 = s" using m by simp
    moreover have "hk_listeners (hr_hook s i) \<noteq> [] \<Longrightarrow> RemoveMatchingListenersLocked i P s = (m, s1)"
      using m by simp
    moreover note reg_inv_remove_matching [OF inv reg_inv_few [OF inv], of i P m s1]
      one_hook_remove_matching [OF inv, of i P m s1]
    ultimately show "reg_inv {} s1" "one_hook i s s1" "hk_listeners (hr_hook s1 i) = ?kept"
      using inv by (cases "hk_listeners (hr_hook s i) = []"; simp)+
    show "same_owner s s1"
    proof (cases "hk_listeners (hr_hook s i) = []")
      case True
      then show ?thesis using m by (simp add: same_owner_def)
    next
      case False
      then have "s1 = set_hook i ((hr_hook s i)\<lparr>hk_listeners := ?kept\<rparr>)
          (fold deactivate_listener (filter (\<lambda>l. P (hr_listener s l)) (hk_listeners (hr_hook s i))) s)"
        using reg_inv_remove_matching(3) [OF inv reg_inv_few [OF inv], of i P m s1] m by simp
      then show ?thesis
        using same_owner_fold [of s "filter (\<lambda>l. P (hr_listener s l)) (hk_listeners (hr_hook s i))"]
        by (simp add: same_owner_def)
    qed
  qed
  have empty: "skip (hk_state (hr_hook s i)) \<Longrightarrow> hk_listeners (hr_hook s i) = []"
    using st skip by (auto simp: states_ok_def)
  obtain ust u where u: "UnhookRecordLocked restore i s1 = (ust, u)" by fastforce
  have hook: "one_hook i s1 u"
    by (rule one_hook_unhook [OF reg_inv_unretained [OF 1(1)] u])
  have own: "same_owner s1 u"
    by (rule same_owner_unhook [OF reg_inv_unretained [OF 1(1)] u])
  consider "skip (hk_state (hr_hook s i))" "s' = s" | "s' = s1" | "s' = u" "hk_listeners (hr_hook s1 i) = []"
    using run m u by (auto simp: invalidate_one_def Let_def split: if_splits)
  then have "hk_listeners (hr_hook s' i) = ?kept \<and> (j \<noteq> i \<longrightarrow> hr_hook s' j = hr_hook s j) \<and> same_owner s s'"
  proof cases
    case 1
    then show ?thesis using empty by (simp add: same_owner_def)
  next
    case 2
    then show ?thesis using 1 by (simp add: one_hook_def)
  next
    case 3
    then show ?thesis using 1 hook own by (simp add: one_hook_def same_owner_def)
  qed
  then show "hk_listeners (hr_hook s' i) = ?kept" "j \<noteq> i \<Longrightarrow> hr_hook s' j = hr_hook s j" "same_owner s s'"
    by simp_all
qed

lemma invalidate_lists:
  assumes P: "\<And>s s' l. same_owner s s' \<Longrightarrow> P (hr_listener s' l) = P (hr_listener s l)"
    and skip: "\<not> skip RInstalled"
  shows "reg_inv {} s \<Longrightarrow> states_ok s \<Longrightarrow>
    over_hooks (invalidate_one restore skip fallback P) is st s = (st', s') \<Longrightarrow>
    hk_listeners (hr_hook s' j) =
      (if j \<in> set is then filter (\<lambda>l. \<not> P (hr_listener s l)) (hk_listeners (hr_hook s j))
       else hk_listeners (hr_hook s j)) \<and> same_owner s s'"
proof (induction "is" arbitrary: s st)
  case Nil
  then show ?case by (simp add: same_owner_def)
next
  case (Cons i "is")
  obtain st1 s1 where 1: "invalidate_one restore skip fallback P i s = (st1, s1)" by fastforce
  note one = invalidate_one_lists [OF Cons.prems(1,2) skip 1]
  have 2: "reg_inv {} s1" "states_ok s1"
    using invalidate_step [OF Cons.prems(1) 1] Cons.prems(2) by (simp_all add: settles_def)
  have "\<exists>st. over_hooks (invalidate_one restore skip fallback P) is st s1 = (st', s')"
    using Cons.prems(3) 1 by (auto split: if_splits)
  then have IH: "hk_listeners (hr_hook s' j) =
      (if j \<in> set is then filter (\<lambda>l. \<not> P (hr_listener s1 l)) (hk_listeners (hr_hook s1 j))
       else hk_listeners (hr_hook s1 j))" "same_owner s1 s'"
    using Cons.IH [OF 2] by blast+
  have PP: "P (hr_listener s1 l) = P (hr_listener s l)" for l by (rule P [OF one(3)])
  have "same_owner s s'" using one(3) IH(2) by (simp add: same_owner_def)
  moreover have "hk_listeners (hr_hook s1 j) = (if j = i
      then filter (\<lambda>l. \<not> P (hr_listener s l)) (hk_listeners (hr_hook s j)) else hk_listeners (hr_hook s j))"
    using one(1,2) by simp
  ultimately show ?case using IH(1) by (cases "j = i"; cases "j \<in> set is"; simp add: PP)
qed

section \<open>A concrete system\<close>

text \<open>One native function at \<open>0x1000\<close>, one adapter, a host that always succeeds.\<close>

definition sample_callbacks :: adapter_callbacks where
  "sample_callbacks = \<lparr>cb_struct_size = 176, cb_adapter_version = 5, cb_enter_isolate = True,
     cb_leave_isolate = True, cb_enter_scope = True, cb_leave_scope = True, cb_retain_object = True,
     cb_release_object = True, cb_object_kind = True, cb_object_to_raw = True,
     cb_object_is_alive = True, cb_pin_generated_roots = True, cb_generated_root_get = True,
     cb_generated_root_set = True, cb_unpin_generated_roots = True,
     cb_enter_generated_to_native = True, cb_leave_native_to_generated = True,
     cb_read_active_exception = True, cb_read_active_stacktrace = True,
     cb_read_type_arguments_element = True, cb_prove_capability = True,
     cb_begin_live_heap_observation = True, cb_end_live_heap_observation = True\<rparr>"

definition sample_adapter :: vm_adapter where
  "sample_adapter = \<lparr>va_callbacks = sample_callbacks, va_isolate = isolate_0, va_owner = None,
     va_entered = 0, va_live_handles = 0, va_hook_refs = 0, va_root_leases = 0, va_transitions = 0,
     va_observations = 0, va_observation_thread = None, va_observation_vm_thread = 0,
     va_observation_lease = 0, va_admission_open = True,
     va_abi = \<lparr>ab_capabilities = [], ab_artifact_generation = 0, ab_isolate_generation = 0\<rparr>,
     va_released = 0, va_attached = False, va_isolate_entered = False\<rparr>"

definition sample_owner :: owner_identity where
  "sample_owner = \<lparr>oi_runtime_generation = 7, oi_engine_epoch = 1, oi_isolate_group_epoch = 1,
     oi_image_id = 5, oi_image_epoch = 9\<rparr>"

definition sample_target :: entry_target where
  "sample_target = \<lparr>et_id = 0x1000, et_image_id = 5, et_owner = sample_owner, et_entry = 0x1000,
     et_code_size = 64, et_code_object = 0, et_reported_alias_count = 1,
     et_identity_proof = IdentityUnknown, et_payload = None, et_aliases = [], et_hook_record = None\<rparr>"

definition sample_world :: target_world where
  "sample_world = \<lparr>tw_target = (\<lambda>_. sample_target), tw_payload = (\<lambda>_. undefined),
     tw_next_target = 1, tw_next_payload = 0, tw_live_target = (\<lambda>_. True),
     tw_live_payload = (\<lambda>_. False), tw_targets = [], tw_payloads = []\<rparr>"

definition sample_identity :: method_identity where
  "sample_identity = \<lparr>dm_library_uri = ''package:app/main.dart'', dm_class_name = ''Counter'',
     dm_function_name = ''increment'', dm_signature = [], dm_entry_kind = 0\<rparr>"

definition sample_method :: hook_method where
  "sample_method = \<lparr>hm_function = Some \<lparr>df_source = SourceSynthetic, df_owner = sample_owner,
       df_identity = sample_identity, df_target = Some 0, df_closure_call_entry_only = False,
       df_live_observation_receipt = False, df_function_object = 0, df_code_object = 0,
       df_profile_version = 0, df_isolate_group_identity = 0, df_jump_to_frame_offset = 0\<rparr>,
     hm_entry_kind = 0, hm_generation = Some 0, hm_expected = 7\<rparr>"

definition sample_request :: install_request where
  "sample_request = \<lparr>
     ir_profile = \<lparr>lp_flags = 0, lp_argument_count = 0, lp_arguments = [],
                   lp_result = \<lparr>ll_kind = LegacyGp, ll_index = 0\<rparr>\<rparr>,
     ir_listener = \<lparr>lq_method = Some sample_method,
       lq_options = \<lparr>ho_struct_size = 40, ho_flags = 0, ho_on_enter = True, ho_on_leave = False,
                     ho_adapter = Some 0\<rparr>,
       lq_priority = 3, lq_generation = Some 0, lq_expected = 7, lq_null_value = 0,
       lq_true_value = 0, lq_false_value = 0, lq_layout = None, lq_exception = exception_binding_0\<rparr>,
     ir_out_hook = True, ir_out_listener = True\<rparr>"

definition sample_answers :: bridge_answers where
  "sample_answers = \<lparr>ba_snapshot = True, ba_pristine = True, ba_stub = (0x5000, 64), ba_returns = DP_OK,
     ba_return_consumer = False, ba_gate_stub = (\<lambda>_ _. (0x6000, 32)), ba_captured = True,
     ba_restored = True\<rparr>"

definition sample_env :: proof_env where
  "sample_env = \<lparr>pe_thread = 0, pe_unlocked = True, pe_profiles = (\<lambda>_. None), pe_profile_at = (\<lambda>_. 0),
     pe_descriptor_register = (\<lambda>_. 4), pe_abi_key = (\<lambda>_ _. []),
     pe_prove = (\<lambda>_. (DP_OK, capability_proof_0))\<rparr>"

definition sample_empty :: registry where
  "sample_empty = \<lparr>hr_hooks = [], hr_retained_hooks = [], hr_hook = (\<lambda>_. new_hook None),
     hr_next_hook = 0,
     hr_listener = (\<lambda>_. (new_listener (ir_listener sample_request) (new_hook None))\<lparr>lr_retained := False\<rparr>),
     hr_next_listener = 0, hr_generation = (\<lambda>_. 7), hr_adapter = (\<lambda>_. sample_adapter),
     hr_world = sample_world,
     hr_binding = Some \<lparr>hb_hook = Some (\<lambda>t r. (0, 0x9000)), hb_unhook = Some (\<lambda>t. 0),
       hb_hook_with_publication = None, hb_publication_policy = Conservative\<rparr>,
     hr_bridge_consumers = 0\<rparr>"

definition sample_hooked :: registry where
  "sample_hooked = snd (snd (InstallCallbackHook sample_env sample_answers sample_request sample_empty))"

lemma sample_install:
  "InstallCallbackHook sample_env sample_answers sample_request sample_empty =
     (DP_OK, Some (0, Some \<lparr>lh_hook = 0, lh_record = 0\<rparr>), sample_hooked)"
proof -
  have "fst (InstallCallbackHook sample_env sample_answers sample_request sample_empty) = DP_OK"
    by code_simp
  moreover have "fst (snd (InstallCallbackHook sample_env sample_answers sample_request sample_empty)) =
      Some (0, Some \<lparr>lh_hook = 0, lh_record = 0\<rparr>)"
    by code_simp
  ultimately show ?thesis by (simp add: sample_hooked_def prod_eq_iff)
qed

definition sample_system :: hook_system where
  "sample_system = \<lparr>sy_registry = sample_hooked, sy_open = [],
     sy_handles = [\<lparr>lh_hook = 0, lh_record = 0\<rparr>]\<rparr>"

lemma sample_start: "system_reachable \<lparr>sy_registry = sample_empty, sy_open = [], sy_handles = []\<rparr>"
  by (rule system_reachable.start)
    (simp_all add: empty_registry_def system_fits_def counters_fit_def held_def sample_empty_def
      sample_adapter_def new_hook_def UINT64_MAX_def)

lemma sample_inv: "reg_inv {} sample_empty"
  using system_reachable_inv [OF sample_start] by (simp add: system_inv_def)

lemma sample_orders: "hk_next_order (hr_hook sample_hooked i) \<le> 2"
proof (cases "i = 0")
  case True
  have "hk_next_order (hr_hook sample_hooked 0) = 2" by code_simp
  then show ?thesis using True by simp
next
  case False
  then have "hr_hook sample_hooked i = hr_hook sample_empty i"
    by (intro install_other [OF sample_inv sample_install]) (simp add: sample_empty_def)
  then show ?thesis by (simp add: sample_empty_def new_hook_def)
qed

lemma sample_next: "hr_next_listener sample_hooked = 1" "hr_next_hook sample_hooked = 1"
  by code_simp+

lemma sample_fits: "counters_fit sample_hooked"
proof -
  have "hk_next_order (hr_hook sample_hooked i) \<noteq> UINT64_MAX" for i
    using sample_orders [of i] by (auto simp: UINT64_MAX_def)
  then show ?thesis by (simp add: counters_fit_def sample_next)
qed

lemma sample_reachable: "system_reachable sample_system"
proof (rule system_reachable.step [OF sample_start])
  show "system_step \<lparr>sy_registry = sample_empty, sy_open = [], sy_handles = []\<rparr> sample_system"
    using system_step.install [of sample_env sample_answers sample_request
        "\<lparr>sy_registry = sample_empty, sy_open = [], sy_handles = []\<rparr>"] sample_install
    by (simp add: sample_system_def)
  show "system_fits sample_system"
    using sample_fits by (simp add: system_fits_def sample_system_def held_def)
qed

definition sample_entered :: registry where
  "sample_entered = snd (snd (BeginInvocation (\<lambda>_. 0) 0 sample_hooked))"

lemma sample_begin: "BeginInvocation (\<lambda>_. 0) 0 sample_hooked = (True, [0], sample_entered)"
proof -
  have "fst (BeginInvocation (\<lambda>_. 0) 0 sample_hooked) = True" by code_simp
  moreover have "fst (snd (BeginInvocation (\<lambda>_. 0) 0 sample_hooked)) = [0]" by code_simp
  ultimately show ?thesis by (simp add: sample_entered_def prod_eq_iff)
qed

definition sample_running :: hook_system where
  "sample_running = sample_system\<lparr>sy_registry := sample_entered, sy_open := [(0, [0])]\<rparr>"

lemma sample_running_reachable: "system_reachable sample_running"
proof (rule system_reachable.step [OF sample_reachable])
  show "system_step sample_system sample_running"
    using system_step.begin_invocation [of 0 sample_system "\<lambda>_. 0" "[0]" sample_entered] sample_begin
    by (simp add: sample_running_def sample_system_def sample_next)
  have inv: "reg_inv {} sample_hooked"
    using system_reachable_inv [OF sample_reachable] by (simp add: system_inv_def sample_system_def)
  have "hk_next_order (hr_hook sample_entered i) = hk_next_order (hr_hook sample_hooked i)"
    "hr_next_listener sample_entered = hr_next_listener sample_hooked" for i
    by (simp_all add: begin_eq(2) [OF inv sample_begin])
  then have "counters_fit sample_entered" using sample_fits by (simp add: counters_fit_def)
  then show "system_fits sample_running" by (simp add: system_fits_def sample_running_def held_def)
qed

section \<open>The properties\<close>

lemma reachable_reg_inv: "system_reachable y \<Longrightarrow> reg_inv {} (sy_registry y)"
  and reachable_states: "system_reachable y \<Longrightarrow> states_ok (sy_registry y)"
  using system_reachable_inv by (simp_all add: system_inv_def)

lemma reg_inv_holder:
  assumes inv: "reg_inv {} s" and at: "lr_adapter (hr_listener s l) = Some a"
    and X: "lr_in_flight (hr_listener s l) \<noteq> 0 \<or> listed s l"
  shows "l \<in> holders s a"
proof -
  have h: "holds_ok {} s" using inv by (simp add: reg_inv_def)
  have "lr_adapter (hr_listener s l) \<noteq> None" using at by simp
  then have "lr_retained (hr_listener s l)"
    using h X unfolding holds_ok_def by blast
  moreover from this have "l < hr_next_listener s"
    using h unfolding holds_ok_def by (meson not_less)
  ultimately show ?thesis using at by (simp add: holders_def)
qed

lemma count_list_pos: "x \<in> set xs \<Longrightarrow> 0 < count_list xs x"
  by (induction xs) auto

lemma reachable_flights:
  assumes "system_reachable y"
  shows "l \<in> set (held y) \<Longrightarrow> lr_in_flight (hr_listener (sy_registry y) l) \<noteq> 0"
    and "(i, ls) \<in> set (sy_open y) \<Longrightarrow> hk_in_flight (hr_hook (sy_registry y) i) \<noteq> 0"
proof -
  have inv: "system_inv y" and fits: "system_fits y"
    using system_reachable_inv [OF assms] by simp_all
  show "lr_in_flight (hr_listener (sy_registry y) l) \<noteq> 0" if "l \<in> set (held y)"
  proof -
    have "0 < count_list (held y) l" by (rule count_list_pos [OF that])
    moreover have "count_list (held y) l < 2 ^ 64"
      using fits count_list_le [of "held y" l] by (simp add: system_fits_def)
    ultimately show ?thesis using of_nat_u64_neq_0 inv by (simp add: system_inv_def)
  qed
  show "hk_in_flight (hr_hook (sy_registry y) i) \<noteq> 0" if "(i, ls) \<in> set (sy_open y)"
  proof -
    have "(i, ls) \<in> set (filter (\<lambda>f. fst f = i) (sy_open y))" using that by simp
    then have "0 < open_at y i" unfolding open_at_def by (rule length_pos_if_in_set)
    moreover have "open_at y i \<le> length (sy_open y)" by (simp add: open_at_def)
    then have "open_at y i < 2 ^ 64" using fits by (simp add: system_fits_def)
    ultimately show ?thesis using of_nat_u64_neq_0 inv by (simp add: system_inv_def)
  qed
qed

text \<open>
  C27: A VM adapter cannot be destroyed while a listener that uses it is on the list of some hook,
  or while an open invocation still has to leave such a listener, whatever the interleaving of
  installations, removals, invalidations and dispatches: \<open>dartplant_vm_adapter_destroy\<close> answers
  that the adapter is busy.
\<close>

theorem held_adapter_survives:
  assumes "system_reachable y" "lr_adapter (hr_listener (sy_registry y) l) = Some a"
    "listed (sy_registry y) l \<or> l \<in> set (held y)"
  shows "dartplant_vm_adapter_destroy (hr_adapter (sy_registry y) a) = DP_VM_ADAPTER_BUSY"
proof -
  let ?s = "sy_registry y"
  have inv: "reg_inv {} ?s" by (rule reachable_reg_inv [OF assms(1)])
  have "lr_in_flight (hr_listener ?s l) \<noteq> 0 \<or> listed ?s l"
    using assms(3) reachable_flights(1) [OF assms(1), of l] by blast
  then have "l \<in> holders ?s a" by (rule reg_inv_holder [OF inv assms(2)])
  then have "0 < card (holders ?s a)" by (metis card_gt_0_iff empty_iff holders_finite)
  moreover have "card (holders ?s a) < 2 ^ 64"
    using holders_bound [of ?s a] reg_inv_few [OF inv] by simp
  ultimately have "va_hook_refs (hr_adapter ?s a) \<noteq> 0"
    using of_nat_u64_neq_0 reg_inv_refs [OF inv] by simp
  then show ?thesis by (simp add: dartplant_vm_adapter_destroy_def)
qed

theorem held_adapter_survives_witness:
  "dartplant_vm_adapter_destroy (hr_adapter (sy_registry sample_running) 0) = DP_VM_ADAPTER_BUSY"
proof (rule held_adapter_survives [OF sample_running_reachable])
  show "lr_adapter (hr_listener (sy_registry sample_running) 0) = Some 0" by code_simp
  show "listed (sy_registry sample_running) 0 \<or> 0 \<in> set (held sample_running)"
    by (simp add: held_def sample_running_def)
qed



end
