(* ===== verification/Hook_Callbacks.thy ===== *)
theory Hook_Callbacks
  imports Hook_Props
begin

text \<open>
  What the dispatcher sees of the registry: the order of the listeners, which of them an
  invocation enters, and what an invalidation takes away for good.
\<close>

lemma dispatch_order:
  assumes "reg_inv {} s"
  shows "sorted_wrt (\<lambda>k l. lr_priority (hr_listener s l) < lr_priority (hr_listener s k) \<or>
       lr_priority (hr_listener s l) = lr_priority (hr_listener s k) \<and>
       lr_order (hr_listener s k) < lr_order (hr_listener s l)) (hk_listeners (hr_hook s i))"
proof (rule sorted_wrt_mono_rel)
  show "sorted_wrt (precedes_in s) (hk_listeners (hr_hook s i))"
    using assms by (simp add: reg_inv_def lists_ok_def)
qed (auto simp: listener_precedes_def split: if_splits)

text \<open>
  C29: In every reachable state the listeners of a hook are in dispatch order: a higher priority
  first, and among equal priorities the earlier registration first. Every listener on a list is
  active, its hook is installed, and it is on the list of no other hook.
\<close>

theorem listeners_in_order:
  assumes "system_reachable y"
  shows "sorted_wrt (\<lambda>k l. lr_priority (hr_listener (sy_registry y) l) < lr_priority (hr_listener (sy_registry y) k) \<or>
       lr_priority (hr_listener (sy_registry y) l) = lr_priority (hr_listener (sy_registry y) k) \<and>
       lr_order (hr_listener (sy_registry y) k) < lr_order (hr_listener (sy_registry y) l))
         (hk_listeners (hr_hook (sy_registry y) i)) \<and>
     (l \<in> set (hk_listeners (hr_hook (sy_registry y) i)) \<longrightarrow>
        lr_active (hr_listener (sy_registry y) l) \<and> hk_state (hr_hook (sy_registry y) i) = RInstalled \<and>
        (l \<in> set (hk_listeners (hr_hook (sy_registry y) j)) \<longrightarrow> j = i))"
proof -
  let ?s = "sy_registry y"
  have inv: "reg_inv {} ?s" by (rule reachable_reg_inv [OF assms])
  have "lr_active (hr_listener ?s l) \<and> hk_state (hr_hook ?s i) = RInstalled \<and>
      (l \<in> set (hk_listeners (hr_hook ?s j)) \<longrightarrow> j = i)"
    if at: "l \<in> set (hk_listeners (hr_hook ?s i))"
  proof -
    have "listed ?s l" using at by (auto simp: listed_def)
    then have "lr_active (hr_listener ?s l)" using inv unfolding reg_inv_def holds_ok_def by blast
    moreover have "hk_state (hr_hook ?s i) = RInstalled"
      using reachable_states [OF assms] at unfolding states_ok_def by (metis list.set_cases list.discI)
    moreover have "l \<in> set (hk_listeners (hr_hook ?s j)) \<Longrightarrow> j = i"
      using inv at unfolding reg_inv_def lists_ok_def by blast
    ultimately show ?thesis by blast
  qed
  then show ?thesis using dispatch_order [OF inv] by blast
qed

theorem listeners_in_order_witness:
  "lr_active (hr_listener (sy_registry sample_system) 0) \<and>
     hk_state (hr_hook (sy_registry sample_system) 0) = RInstalled"
proof -
  have "0 \<in> set (hk_listeners (hr_hook (sy_registry sample_system) 0))" by code_simp
  then show ?thesis using listeners_in_order [OF sample_reachable, of 0 0 0] by blast
qed



section \<open>What an invalidation takes away\<close>

lemma same_owner_enter:
  "same_owner s t \<Longrightarrow> same_owner s (fold enter_listener ls t)"
  by (induction ls arbitrary: t) (auto simp: same_owner_def enter_listener_def)

lemma same_owner_set_hook [simp]: "same_owner s (set_hook i h t) = same_owner s t"
  by (simp add: same_owner_def)

lemma same_owner_refl [simp]: "same_owner s s"
  by (simp add: same_owner_def)

definition sample_silent :: registry where
  "sample_silent = snd (InvalidateRuntimeImageHooks (\<lambda>_. True) (Some 0) 5 9 sample_hooked)"

definition sample_quiet :: registry where
  "sample_quiet = snd (QuiesceVmAdapterHooks (\<lambda>_. True) (Some 0) sample_hooked)"

lemma image_invalidated:
  assumes inv: "reg_inv {} s" "states_ok s" and img: "img \<noteq> 0"
    and run: "InvalidateRuntimeImageHooks restore (Some g) img epoch s = (st, s')"
  shows "hk_listeners (hr_hook s' j) = (if j \<in> set (hr_hooks s)
       then filter (\<lambda>l. \<not> of_image g img epoch (hr_listener s l)) (hk_listeners (hr_hook s j))
       else hk_listeners (hr_hook s j))"
    and "same_owner s s'"
proof -
  have "over_hooks (invalidate_one restore (\<lambda>st. st = RRetired) (hook_of_image g img epoch)
      (of_image g img epoch)) (hr_hooks s) DP_OK s = (st, s')"
    using run img by (simp add: InvalidateRuntimeImageHooks_def)
  from invalidate_lists [OF same_owner_image _ inv this]
  show "hk_listeners (hr_hook s' j) = (if j \<in> set (hr_hooks s)
       then filter (\<lambda>l. \<not> of_image g img epoch (hr_listener s l)) (hk_listeners (hr_hook s j))
       else hk_listeners (hr_hook s j))" "same_owner s s'"
    by simp_all
qed

text \<open>
  Invalidating the hooks of a runtime image takes exactly the listeners whose method belongs to
  that image (and epoch, when one is named) off every registered hook and leaves the others in
  their order; an invocation that begins afterwards enters none of the image's listeners.
\<close>

theorem invalidated_image_is_silent:
  assumes "system_reachable y" "img \<noteq> 0"
    "InvalidateRuntimeImageHooks restore (Some g) img epoch (sy_registry y) = (st, s')"
    "i \<in> set (hr_hooks (sy_registry y))"
  shows "hk_listeners (hr_hook s' i) =
       filter (\<lambda>l. \<not> of_image g img epoch (hr_listener (sy_registry y) l))
         (hk_listeners (hr_hook (sy_registry y) i)) \<and>
     (BeginInvocation profile_at i s' = (True, ls, s'') \<longrightarrow>
        (\<forall>l \<in> set ls. \<not> of_image g img epoch (hr_listener s'' l)))"
proof -
  let ?s = "sy_registry y"
  note inv = reachable_reg_inv [OF assms(1)] and st = reachable_states [OF assms(1)]
  note lists = image_invalidated [OF inv st assms(2,3)]
  have own: "of_image g img epoch (hr_listener s' l) = of_image g img epoch (hr_listener ?s l)" for l
    by (rule same_owner_image [OF lists(2)])
  have "\<not> of_image g img epoch (hr_listener s'' l)"
    if run: "BeginInvocation profile_at i s' = (True, ls, s'')" and l: "l \<in> set ls" for l
  proof -
    have inv': "reg_inv {} s'" using runtime_hooks_ok(2) [OF inv assms(3)] by simp
    note eq = begin_eq [OF inv' run]
    have "l \<in> set (hk_listeners (hr_hook s' i))"
      using l unfolding eq(1) by (simp split: if_splits)
    then have "\<not> of_image g img epoch (hr_listener s' l)"
      using lists(1) [of i] assms(4) own by simp
    moreover have "same_owner s' s''"
      unfolding eq(2) by (simp add: same_owner_enter)
    ultimately show ?thesis using same_owner_image by blast
  qed
  then show ?thesis using lists(1) [of i] assms(4) by simp
qed

theorem invalidated_image_is_silent_witness:
  "hk_listeners (hr_hook sample_silent 0) =
     filter (\<lambda>l. \<not> of_image 0 5 9 (hr_listener (sy_registry sample_system) l))
       (hk_listeners (hr_hook (sy_registry sample_system) 0))"
proof (rule conjunct1 [OF invalidated_image_is_silent [OF sample_reachable]])
  show "InvalidateRuntimeImageHooks (\<lambda>_. True) (Some 0) 5 9 (sy_registry sample_system) =
      (fst (InvalidateRuntimeImageHooks (\<lambda>_. True) (Some 0) 5 9 sample_hooked), sample_silent)"
    by (simp add: sample_silent_def sample_system_def)
  have "0 \<in> set (hr_hooks sample_hooked)" by code_simp
  then show "0 \<in> set (hr_hooks (sy_registry sample_system))" by (simp add: sample_system_def)
qed simp

text \<open>
  Quiescing a VM adapter takes exactly its listeners off every registered hook; the adapter
  admits no listener any more, and no invocation that begins afterwards enters a listener that
  uses it.
\<close>

theorem quiesced_adapter_is_silent:
  assumes "system_reachable y"
    "QuiesceVmAdapterHooks restore (Some a) (sy_registry y) = (st, s')"
    "i \<in> set (hr_hooks (sy_registry y))"
  shows "hk_listeners (hr_hook s' i) =
       filter (\<lambda>l. lr_adapter (hr_listener (sy_registry y) l) \<noteq> Some a)
         (hk_listeners (hr_hook (sy_registry y) i)) \<and>
     (BeginInvocation profile_at i s' = (True, ls, s'') \<longrightarrow>
        (\<forall>l \<in> set ls. lr_adapter (hr_listener s'' l) \<noteq> Some a))"
proof -
  let ?s = "sy_registry y"
  let ?c = "set_adapter a (VmAdapterCloseAdmission (hr_adapter ?s a)) ?s"
  note inv = reachable_reg_inv [OF assms(1)] and st = reachable_states [OF assms(1)]
  have 1: "reg_inv {} ?c" "states_ok ?c"
    using set_adapter_ok [OF inv, of "VmAdapterCloseAdmission (hr_adapter ?s a)" a] st
    by (simp_all add: VmAdapterCloseAdmission_def settles_def)
  have "over_hooks (invalidate_one restore (\<lambda>st. st = RRetired \<or> st = RUnhooked)
      (\<lambda>s h. hk_adapter h = Some a \<and> hk_adapter_retained h) (\<lambda>r. lr_adapter r = Some a))
      (hr_hooks ?s) DP_OK ?c = (st, s')"
    using assms(2) by (simp add: QuiesceVmAdapterHooks_def)
  from invalidate_lists [OF _ _ 1 this]
  have lists: "hk_listeners (hr_hook s' i) =
      filter (\<lambda>l. lr_adapter (hr_listener ?s l) \<noteq> Some a) (hk_listeners (hr_hook ?s i))"
    and own: "same_owner ?c s'"
    using assms(3) by (auto simp: same_owner_def)
  have "lr_adapter (hr_listener s'' l) \<noteq> Some a"
    if run: "BeginInvocation profile_at i s' = (True, ls, s'')" and l: "l \<in> set ls" for l
  proof -
    have inv': "reg_inv {} s'" using quiesce_ok [OF inv assms(2)] by simp
    note eq = begin_eq [OF inv' run]
    have "l \<in> set (hk_listeners (hr_hook s' i))"
      using l unfolding eq(1) by (simp split: if_splits)
    moreover have "same_owner s' s''"
      unfolding eq(2) by (simp add: same_owner_enter)
    ultimately show ?thesis using lists own by (simp add: same_owner_def)
  qed
  then show ?thesis using lists by simp
qed

theorem quiesced_adapter_is_silent_witness:
  "hk_listeners (hr_hook sample_quiet 0) =
     filter (\<lambda>l. lr_adapter (hr_listener (sy_registry sample_system) l) \<noteq> Some 0)
       (hk_listeners (hr_hook (sy_registry sample_system) 0))"
proof (rule conjunct1 [OF quiesced_adapter_is_silent [OF sample_reachable]])
  show "QuiesceVmAdapterHooks (\<lambda>_. True) (Some 0) (sy_registry sample_system) =
      (fst (QuiesceVmAdapterHooks (\<lambda>_. True) (Some 0) sample_hooked), sample_quiet)"
    by (simp add: sample_quiet_def sample_system_def)
  have "0 \<in> set (hr_hooks sample_hooked)" by code_simp
  then show "0 \<in> set (hr_hooks (sy_registry sample_system))" by (simp add: sample_system_def)
qed

end
