(* ===== verification/Dart_Objects.thy ===== *)
theory Dart_Objects
  imports Prelude
begin

text \<open>
  Reading Dart objects out of memory (\<^verbatim>\<open>src/vm/dart_string.h\<close>, the Smi decoders of
  \<^verbatim>\<open>src/vm/abi/proof.cpp\<close> and \<^verbatim>\<open>src/interceptor/invocation.cpp\<close>). A reader takes an address
  and a size and gives the bytes, or fails. The layout constants are the fields of the profile
  the code uses.
\<close>

type_synonym reader = "ptr \<Rightarrow> nat \<Rightarrow> u8 list option"

record raw_layout =
  rw_heap_object_tag :: u8
  rw_smi_tag :: u8
  rw_smi_tag_mask :: u8
  rw_smi_tag_shift :: u8
  rw_class_id_tag_shift :: u8
  rw_class_id_tag_bits :: u8
  rw_compressed_word_size :: u8

record string_layout =
  sl_cid_one_byte :: u32
  sl_cid_two_byte :: u32
  sl_length_offset :: u32
  sl_data_offset :: u32

definition read_word :: "nat \<Rightarrow> reader \<Rightarrow> ptr \<Rightarrow> u64 option" where
  "read_word n rd a = map_option (\<lambda>bs. of_nat (le_nat bs)) (rd a n)"

section \<open>Small integers\<close>

definition DecodePositiveCompressedSmi :: "u32 \<Rightarrow> raw_layout \<Rightarrow> u32 option" where
  "DecodePositiveCompressedSmi raw layout =
     (if rw_compressed_word_size layout \<noteq> 4 \<or> rw_smi_tag_shift layout \<ge> 32 \<or>
         raw AND ucast (rw_smi_tag_mask layout) \<noteq> ucast (rw_smi_tag layout) then None
      else let decoded = signed_drop_bit (unat (rw_smi_tag_shift layout)) raw in
        if sint decoded < 0 then None else Some decoded)"

definition ReadPositiveCompressedSmi :: "reader \<Rightarrow> ptr \<Rightarrow> raw_layout \<Rightarrow> u32 option" where
  "ReadPositiveCompressedSmi rd a layout =
     (if rw_compressed_word_size layout = 0 \<or> rw_smi_tag_shift layout \<ge> 64 then None
      else if rw_compressed_word_size layout = 4 then
        Option.bind (read_word 4 rd a) (\<lambda>w. DecodePositiveCompressedSmi (ucast w) layout)
      else if rw_compressed_word_size layout = 8 then
        Option.bind (read_word 8 rd a) (\<lambda>raw.
          if raw AND ucast (rw_smi_tag_mask layout) \<noteq> ucast (rw_smi_tag layout) then None
          else let v = signed_drop_bit (unat (rw_smi_tag_shift layout)) raw in
            if sint v < 0 \<or> sint v > 0xffffffff then None else Some (ucast v))
      else None)"

section \<open>Strings\<close>

text \<open>The UTF-8 bytes of a code point, or none beyond the last one.\<close>

definition utf8 :: "u32 \<Rightarrow> u8 list option" where
  "utf8 c =
     (if c \<le> 0x7f then Some [ucast c]
      else if c \<le> 0x7ff then Some [ucast (0xc0 OR drop_bit 6 c), ucast (0x80 OR (c AND 0x3f))]
      else if c \<le> 0xffff
      then Some [ucast (0xe0 OR drop_bit 12 c), ucast (0x80 OR (drop_bit 6 c AND 0x3f)),
                 ucast (0x80 OR (c AND 0x3f))]
      else if c \<le> 0x10ffff
      then Some [ucast (0xf0 OR drop_bit 18 c), ucast (0x80 OR (drop_bit 12 c AND 0x3f)),
                 ucast (0x80 OR (drop_bit 6 c AND 0x3f)), ucast (0x80 OR (c AND 0x3f))]
      else None)"

text \<open>
  The lambda \<open>append\<close>: the output so far, which must leave room for the final zero. \<open>cursor\<close> is
  its length.
\<close>

definition append_code_point :: "nat \<Rightarrow> u32 \<Rightarrow> u8 list \<Rightarrow> u8 list option" where
  "append_code_point capacity c out =
     (case utf8 c of
        None \<Rightarrow> None
      | Some bs \<Rightarrow>
          if length out \<ge> capacity \<or> length bs \<ge> capacity - length out then None
          else Some (out @ bs))"

fun append_bytes :: "nat \<Rightarrow> u8 list \<Rightarrow> u8 list \<Rightarrow> u8 list option" where
  "append_bytes capacity [] out = Some out"
| "append_bytes capacity (b # bs) out =
     Option.bind (append_code_point capacity (ucast b) out) (append_bytes capacity bs)"

definition kChunkBytes :: nat where "kChunkBytes = 256"

text \<open>The one-byte payload is read in chunks.\<close>

function one_byte_loop :: "reader \<Rightarrow> nat \<Rightarrow> ptr \<Rightarrow> nat \<Rightarrow> nat \<Rightarrow> u8 list \<Rightarrow> u8 list option" where
  "one_byte_loop rd capacity base len start out =
     (if start \<ge> len then Some out
      else
        let chunk = min kChunkBytes (len - start) in
        Option.bind (rd (base + of_nat start) chunk) (\<lambda>bytes.
          Option.bind (append_bytes capacity bytes out)
            (one_byte_loop rd capacity base len (start + kChunkBytes))))"
  by pat_completeness auto
termination by (relation "measure (\<lambda>(_, _, _, len, start, _). len - start)") (auto simp: kChunkBytes_def)

declare one_byte_loop.simps [simp del]

fun utf16_units :: "u8 list \<Rightarrow> u16 list" where
  "utf16_units (a # b # bs) = of_nat (le_nat [a, b]) # utf16_units bs"
| "utf16_units _ = []"

fun append_units :: "nat \<Rightarrow> u16 list \<Rightarrow> u8 list \<Rightarrow> u8 list option" where
  "append_units capacity [] out = Some out"
| "append_units capacity (u # us) out =
     (if 0xd800 \<le> u \<and> u \<le> 0xdbff then
        (case us of
           [] \<Rightarrow> None
         | v # vs \<Rightarrow>
             if v < 0xdc00 \<or> v > 0xdfff then None
             else Option.bind (append_code_point capacity
                    (0x10000 + push_bit 10 (ucast u - 0xd800) + (ucast v - 0xdc00)) out)
                    (append_units capacity vs))
      else if 0xdc00 \<le> u \<and> u \<le> 0xdfff then None
      else Option.bind (append_code_point capacity (ucast u) out) (append_units capacity us))"

text \<open>
  The result is the text before the final zero byte. The class id is cut to 32 bits as in the
  code, and the additions of offsets to the object's address wrap.
\<close>

definition ReadDartStringUtf8 :: "raw_layout \<Rightarrow> string_layout \<Rightarrow> u64 \<Rightarrow> reader \<Rightarrow> nat \<Rightarrow> u8 list option" where
  "ReadDartStringUtf8 raw vm tagged rd capacity =
     (if capacity = 0 \<or> rw_compressed_word_size raw \<noteq> 4 \<or>
         tagged AND ucast (rw_smi_tag_mask raw) \<noteq> ucast (rw_heap_object_tag raw) \<or>
         tagged < ucast (rw_heap_object_tag raw) \<or> rw_class_id_tag_bits raw = 0 \<or>
         rw_class_id_tag_bits raw \<ge> 64 then None
      else
        let object = tagged - ucast (rw_heap_object_tag raw) in
        Option.bind (read_word 8 rd object) (\<lambda>tags.
          let mask = push_bit (unat (rw_class_id_tag_bits raw)) 1 - 1;
              cid = ucast (drop_bit (unat (rw_class_id_tag_shift raw)) tags AND mask) :: u32
          in if cid \<noteq> sl_cid_one_byte vm \<and> cid \<noteq> sl_cid_two_byte vm then None
             else Option.bind (read_word 4 rd (object + ucast (sl_length_offset vm))) (\<lambda>raw_length.
               if raw_length AND ucast (rw_smi_tag_mask raw) \<noteq> ucast (rw_smi_tag raw) \<or>
                  rw_smi_tag_shift raw \<ge> 32 then None
               else
                 let len = unat (drop_bit (unat (rw_smi_tag_shift raw)) raw_length);
                     data = object + ucast (sl_data_offset vm)
                 in if len > 2 ^ 20 then None
                    else if cid = sl_cid_one_byte vm then one_byte_loop rd capacity data len 0 []
                    else if len = 0 then Some []
                    else Option.bind (rd data (2 * len)) (\<lambda>bytes.
                           append_units capacity (utf16_units bytes) []))))"

end
