(* ===== verification/Dart_Objects_Props.thy ===== *)
theory Dart_Objects_Props
  imports Dart_Objects
begin

text \<open>
  Reading a Dart string gives the UTF-8 text of its code points, when it fits with its final
  zero: for the one-byte form, read in chunks, and for the two-byte form with its surrogate
  pairs.
\<close>

section \<open>Code points\<close>

definition utf8_text :: "u32 list \<Rightarrow> u8 list" where
  "utf8_text cs = concat (map (\<lambda>c. the (utf8 c)) cs)"

definition scalar_value :: "u32 \<Rightarrow> bool" where
  "scalar_value c \<longleftrightarrow> c \<le> 0x10ffff \<and> (c < 0xd800 \<or> c > 0xdfff)"

text \<open>The text a buffer of \<open>capacity\<close> bytes takes.\<close>

definition fitting :: "nat \<Rightarrow> u8 list \<Rightarrow> u8 list option" where
  "fitting capacity bs = (if length bs < capacity then Some bs else None)"

lemma utf8_some: "c \<le> 0x10ffff \<Longrightarrow> \<exists>bs. utf8 c = Some bs \<and> bs \<noteq> []"
  by (auto simp: utf8_def)

lemma append_code_point_fitting:
  assumes "c \<le> 0x10ffff"
  shows "append_code_point capacity c out = fitting capacity (out @ the (utf8 c))"
  using utf8_some [OF assms] by (auto simp: append_code_point_def fitting_def)

lemma fitting_append: "fitting capacity (a @ b @ c) = None" if "fitting capacity (a @ b) = None"
  using that by (auto simp: fitting_def split: if_splits)

text \<open>Appending code points one by one, as both loops do.\<close>

fun append_all :: "nat \<Rightarrow> u32 list \<Rightarrow> u8 list \<Rightarrow> u8 list option" where
  "append_all capacity [] out = Some out"
| "append_all capacity (c # cs) out =
     Option.bind (append_code_point capacity c out) (append_all capacity cs)"

lemma append_all_fitting:
  "length out < capacity \<Longrightarrow> \<forall>c \<in> set cs. c \<le> 0x10ffff \<Longrightarrow>
   append_all capacity cs out = fitting capacity (out @ utf8_text cs)"
proof (induction cs arbitrary: out)
  case Nil
  then show ?case by (simp add: fitting_def utf8_text_def)
next
  case (Cons c cs)
  note step = append_code_point_fitting [of c capacity out]
  show ?case
  proof (cases "fitting capacity (out @ the (utf8 c))")
    case None
    then show ?thesis using step Cons.prems fitting_append [of capacity out "the (utf8 c)"]
      by (simp add: utf8_text_def)
  next
    case (Some bs)
    then have "bs = out @ the (utf8 c)" "length bs < capacity" by (auto simp: fitting_def split: if_splits)
    then show ?thesis using step Cons.prems Some Cons.IH [of bs] by (simp add: utf8_text_def)
  qed
qed

section \<open>The one-byte form\<close>

lemma append_bytes_all: "append_bytes capacity bs out = append_all capacity (map ucast bs) out"
proof (induction bs arbitrary: out)
  case (Cons b bs)
  then have "append_bytes capacity bs = append_all capacity (map ucast bs)" by (intro ext)
  then show ?case by simp
qed simp

lemma append_all_append:
  "append_all capacity (xs @ ys) out = Option.bind (append_all capacity xs out) (append_all capacity ys)"
proof (induction xs arbitrary: out)
  case (Cons x xs)
  then show ?case by (cases "append_code_point capacity x out") auto
qed simp

text \<open>The chunks leave no trace.\<close>

definition reads_bytes :: "reader \<Rightarrow> ptr \<Rightarrow> u8 list \<Rightarrow> bool" where
  "reads_bytes rd base bs \<longleftrightarrow> (\<forall>start n. 0 < n \<and> start + n \<le> length bs \<longrightarrow>
     rd (base + of_nat start) n = Some (take n (drop start bs)))"

lemma one_byte_loop_all:
  assumes "reads_bytes rd base bs"
  shows "one_byte_loop rd capacity base (length bs) start out =
    append_all capacity (map ucast (drop start bs)) out"
proof (induction "length bs - start" arbitrary: start out rule: less_induct)
  case less
  show ?case
  proof (cases "start \<ge> length bs")
    case True then show ?thesis by (simp add: one_byte_loop.simps)
  next
    case False
    let ?n = "min kChunkBytes (length bs - start)"
    have "0 < ?n" "start + ?n \<le> length bs" using False by (auto simp: kChunkBytes_def)
    then have rd: "rd (base + of_nat start) ?n = Some (take ?n (drop start bs))"
      using assms unfolding reads_bytes_def by blast
    have tk: "take ?n (drop start bs) = take kChunkBytes (drop start bs)"
      by (simp add: min_def)
    have IH: "one_byte_loop rd capacity base (length bs) (start + kChunkBytes) =
        append_all capacity (map ucast (drop (start + kChunkBytes) bs))"
      by (rule ext, rule less) (use False in \<open>simp add: kChunkBytes_def\<close>)
    have split: "drop start bs = take kChunkBytes (drop start bs) @ drop (start + kChunkBytes) bs"
      by (metis add.commute append_take_drop_id drop_drop)
    have "one_byte_loop rd capacity base (length bs) start out =
        Option.bind (append_all capacity (map ucast (take kChunkBytes (drop start bs))) out)
          (append_all capacity (map ucast (drop (start + kChunkBytes) bs)))"
      using False by (simp add: one_byte_loop.simps [of rd capacity base "length bs" start] Let_def rd tk
          append_bytes_all IH)
    also have "\<dots> = append_all capacity (map ucast (drop start bs)) out"
      by (subst (2) split) (simp only: map_append append_all_append)
    finally show ?thesis .
  qed
qed

section \<open>The two-byte form\<close>

definition utf16 :: "u32 \<Rightarrow> u16 list" where
  "utf16 c =
     (if c < 0x10000 then [ucast c]
      else [0xd800 + ucast (drop_bit 10 (c - 0x10000)), 0xdc00 + ucast ((c - 0x10000) AND 0x3ff)])"

fun unit_bytes :: "u16 list \<Rightarrow> u8 list" where
  "unit_bytes [] = []"
| "unit_bytes (u # us) = encode_le 2 (unat u) @ unit_bytes us"

lemma encode_two: "encode_le 2 x = [of_nat x, of_nat (x div 256)]"
  by (simp add: encode_le_def upt_rec)

lemma utf16_units_bytes: "utf16_units (unit_bytes us) = us"
proof (induction us)
  case (Cons u us)
  have "le_nat (encode_le 2 (unat u)) = unat u"
    using unsigned_less [of u, where ?'a = nat] by (simp add: le_nat_encode)
  then have "of_nat (le_nat [of_nat (unat u), of_nat (unat u div 256)]) = u"
    by (simp add: encode_two del: le_nat.simps)
  then show ?case by (simp add: encode_two Cons.IH del: le_nat.simps)
qed simp

text \<open>One code point of the two-byte form.\<close>

lemma plain_unit:
  assumes "c < 0x10000" "scalar_value c"
  shows "(ucast (ucast c :: u16) :: u32) = c" "\<not> (0xd800 \<le> (ucast c :: u16) \<and> (ucast c :: u16) \<le> 0xdbff)"
    "\<not> (0xdc00 \<le> (ucast c :: u16) \<and> (ucast c :: u16) \<le> 0xdfff)"
proof -
  have lt: "unat c < 65536" using assms(1) by (simp add: word_less_nat_alt)
  then have u: "unat (ucast c :: u16) = unat c" by (simp add: unsigned_ucast_eq take_bit_nat_eq_self)
  show "(ucast (ucast c :: u16) :: u32) = c"
  proof (rule word_unat_eq_iff [THEN iffD2])
    have "unat (ucast (ucast c :: u16) :: u32) = unat (ucast c :: u16)"
      using lt u by (subst unsigned_ucast_eq) (simp add: take_bit_nat_eq_self)
    then show "unat (ucast (ucast c :: u16) :: u32) = unat c" by (simp only: u)
  qed
  have "unat c < 0xd800 \<or> unat c > 0xdfff"
    using assms(2) by (auto simp: scalar_value_def word_less_nat_alt)
  then show "\<not> (0xd800 \<le> (ucast c :: u16) \<and> (ucast c :: u16) \<le> 0xdbff)"
    "\<not> (0xdc00 \<le> (ucast c :: u16) \<and> (ucast c :: u16) \<le> 0xdfff)"
    by (auto simp: word_le_nat_alt u)
qed

lemma pair_units:
  fixes c :: u32
  assumes "\<not> c < 0x10000" "c \<le> 0x10ffff"
  defines "hi \<equiv> 0xd800 + ucast (drop_bit 10 (c - 0x10000)) :: u16"
    and "lo \<equiv> 0xdc00 + ucast ((c - 0x10000) AND 0x3ff) :: u16"
  shows "0xd800 \<le> hi" "hi \<le> 0xdbff" "0xdc00 \<le> lo" "lo \<le> 0xdfff"
    "0x10000 + push_bit 10 (ucast hi - 0xd800) + (ucast lo - 0xdc00) = c"
proof -
  let ?d = "c - 0x10000"
  have ge: "(0x10000 :: u32) \<le> c" using assms(1) by simp
  have d: "unat ?d = unat c - 0x10000" using ge by (simp add: unat_sub)
  have d20: "unat ?d < 2 ^ 20" using assms(2) d by (simp add: word_le_nat_alt)
  have a: "unat (drop_bit 10 ?d) = unat ?d div 1024"
    unfolding unat_drop_bit_eq by (simp add: drop_bit_eq_div)
  have "?d AND 0x3ff = take_bit 10 ?d" by (simp add: take_bit_eq_mask mask_eq_exp_minus_1)
  then have b: "unat (?d AND 0x3ff) = unat ?d mod 1024"
    by (simp only: unsigned_take_bit_eq) (simp add: take_bit_eq_mod)
  have q: "unat ?d div 1024 < 1024" using d20 by (simp add: less_mult_imp_div_less)
  have r: "unat ?d mod 1024 < 1024" by simp
  have ua: "unat (ucast (drop_bit 10 ?d) :: u16) = unat ?d div 1024"
    using q by (simp add: unsigned_ucast_eq a take_bit_nat_eq_self)
  have ub: "unat (ucast (?d AND 0x3ff) :: u16) = unat ?d mod 1024"
    using r by (simp add: unsigned_ucast_eq b take_bit_nat_eq_self)
  have h: "unat hi = 0xd800 + unat ?d div 1024"
    unfolding hi_def using q by (subst unat_add_lem [THEN iffD1]) (simp_all add: ua)
  have l: "unat lo = 0xdc00 + unat ?d mod 1024"
    unfolding lo_def using r by (subst unat_add_lem [THEN iffD1]) (simp_all add: ub)
  show "0xd800 \<le> hi" "hi \<le> 0xdbff" "0xdc00 \<le> lo" "lo \<le> 0xdfff"
    using q r by (simp_all add: word_le_nat_alt h l)
  have "(ucast hi :: u32) = of_nat (unat hi)" "(ucast lo :: u32) = of_nat (unat lo)" by simp_all
  then have uh: "(ucast hi - 0xd800 :: u32) = of_nat (unat ?d div 1024)"
    and ul: "(ucast lo - 0xdc00 :: u32) = of_nat (unat ?d mod 1024)"
    unfolding h l by simp_all
  have "of_nat (unat ?d div 1024) * 1024 + of_nat (unat ?d mod 1024) =
      (of_nat (unat ?d div 1024 * 1024 + unat ?d mod 1024) :: u32)"
    by (simp only: of_nat_add of_nat_mult of_nat_numeral)
  also have "\<dots> = of_nat (unat ?d)" by (simp only: div_mult_mod_eq)
  also have "\<dots> = ?d" by simp
  finally have "push_bit 10 (of_nat (unat ?d div 1024)) + of_nat (unat ?d mod 1024) = ?d"
    by (simp only: push_bit_eq_mult) simp
  then show "0x10000 + push_bit 10 (ucast hi - 0xd800) + (ucast lo - 0xdc00) = c"
    unfolding uh ul add.assoc by simp
qed

lemma append_units_all:
  "\<forall>c \<in> set cs. scalar_value c \<Longrightarrow>
   append_units capacity (concat (map utf16 cs)) out = append_all capacity cs out"
proof (induction cs arbitrary: out)
  case (Cons c cs)
  then have IH: "append_units capacity (concat (map utf16 cs)) = append_all capacity cs" by (intro ext) simp
  have c: "scalar_value c" "c \<le> 0x10ffff" using Cons.prems by (auto simp: scalar_value_def)
  show ?case
  proof (cases "c < 0x10000")
    case True
    then have u: "utf16 c = [ucast c]" by (simp add: utf16_def)
    note p = plain_unit [OF True c(1)]
    show ?thesis
      by (simp only: list.map concat.simps u append_Cons append_Nil append_units.simps(2)
          if_not_P [OF p(2)] if_not_P [OF p(3)] p(1) IH append_all.simps)
  next
    case False
    let ?hi = "0xd800 + ucast (drop_bit 10 (c - 0x10000)) :: u16"
    let ?lo = "0xdc00 + ucast ((c - 0x10000) AND 0x3ff) :: u16"
    have u: "utf16 c = [?hi, ?lo]" using False by (simp add: utf16_def)
    note p = pair_units [OF False c(2)]
    have "\<not> (?lo < 0xdc00 \<or> ?lo > 0xdfff)" using p(3,4) by (simp add: not_less)
    then show ?thesis
      by (simp only: list.map concat.simps u append_Cons append_Nil append_units.simps(2)
          if_P [OF conjI [OF p(1,2)]] list.case if_False p(5) IH append_all.simps)
  qed
qed simp

section \<open>Reading a string\<close>

text \<open>A string object in memory: its header, its length word and its payload.\<close>

definition string_header :: "reader \<Rightarrow> raw_layout \<Rightarrow> string_layout \<Rightarrow> u64 \<Rightarrow> u32 \<Rightarrow> nat \<Rightarrow> bool" where
  "string_header rd raw vm tagged cid len \<longleftrightarrow>
     rw_compressed_word_size raw = 4 \<and>
     tagged AND ucast (rw_smi_tag_mask raw) = ucast (rw_heap_object_tag raw) \<and>
     tagged \<ge> ucast (rw_heap_object_tag raw) \<and> rw_class_id_tag_bits raw \<noteq> 0 \<and>
     rw_class_id_tag_bits raw < 64 \<and> rw_smi_tag_shift raw < 32 \<and>
     (case read_word 8 rd (tagged - ucast (rw_heap_object_tag raw)) of
        None \<Rightarrow> False
      | Some tags \<Rightarrow> ucast (drop_bit (unat (rw_class_id_tag_shift raw)) tags AND
                           (push_bit (unat (rw_class_id_tag_bits raw)) 1 - 1)) = cid) \<and>
     (case read_word 4 rd (tagged - ucast (rw_heap_object_tag raw) + ucast (sl_length_offset vm)) of
        None \<Rightarrow> False
      | Some w \<Rightarrow> w AND ucast (rw_smi_tag_mask raw) = ucast (rw_smi_tag raw) \<and>
                  unat (drop_bit (unat (rw_smi_tag_shift raw)) w) = len)"

definition string_data :: "raw_layout \<Rightarrow> string_layout \<Rightarrow> u64 \<Rightarrow> ptr" where
  "string_data raw vm tagged = tagged - ucast (rw_heap_object_tag raw) + ucast (sl_data_offset vm)"


text \<open>A one-letter string and an emoji of two units, at the same address.\<close>

definition sample_raw :: raw_layout where
  "sample_raw = \<lparr>rw_heap_object_tag = 1, rw_smi_tag = 0, rw_smi_tag_mask = 1, rw_smi_tag_shift = 1,
     rw_class_id_tag_shift = 0, rw_class_id_tag_bits = 8, rw_compressed_word_size = 4\<rparr>"

definition sample_string :: string_layout where
  "sample_string = \<lparr>sl_cid_one_byte = 3, sl_cid_two_byte = 4, sl_length_offset = 8, sl_data_offset = 12\<rparr>"

definition sample_reader :: "u8 list \<Rightarrow> reader" where
  "sample_reader bs a n =
     (if a < 0x70 \<or> unat (a - 0x70) + n > length bs then None
      else Some (take n (drop (unat (a - 0x70)) bs)))"

definition sample_letter :: "u8 list" where
  "sample_letter = [3, 0, 0, 0, 0, 0, 0, 0, 2, 0, 0, 0, 98]"

definition sample_emoji :: "u8 list" where
  "sample_emoji = [4, 0, 0, 0, 0, 0, 0, 0, 4, 0, 0, 0, 0x3d, 0xd8, 0, 0xde]"

lemma sample_strings:
  "string_header (sample_reader sample_letter) sample_raw sample_string 0x71 (sl_cid_one_byte sample_string)
     (length [98 :: u8])"
  "string_header (sample_reader sample_emoji) sample_raw sample_string 0x71 (sl_cid_two_byte sample_string)
     (length (concat (map utf16 [0x1f600])))"
  by code_simp+


end
