(* ===== verification/Dispatch_Frame.thy ===== *)
theory Dispatch_Frame
  imports Hook_Install Value_Codec Dart_Objects
begin

text \<open>
  The frame a dispatched call leaves on its thread's stack
  (\<^verbatim>\<open>src/interceptor/callback_dispatch.cpp\<close>, with \<open>DartPlantInvocation\<close> of
  \<^verbatim>\<open>src/runtime/runtime_internal.h\<close>): saved registers, the selected owner and layout, the
  tagged locations that become roots of the VM, and which listeners a call may share.
  Memory is a function from addresses to bytes. Registers are numbered; only the low half of a
  vector register is used by the program, so a vector register is a 64-bit word here.
\<close>

section \<open>Memory words\<close>

definition load64 :: "(ptr \<Rightarrow> u8) \<Rightarrow> ptr \<Rightarrow> u64" where
  "load64 mem a = of_nat (le_nat (map (\<lambda>i. mem (a + of_nat i)) [0..<8]))"

definition store64 :: "ptr \<Rightarrow> u64 \<Rightarrow> (ptr \<Rightarrow> u8) \<Rightarrow> ptr \<Rightarrow> u8" where
  "store64 a v mem = (\<lambda>b. if b - a < 8 then ucast (drop_bit (8 * unat (b - a)) v) else mem b)"

section \<open>Frames\<close>

record arm64_context =
  cx_x :: "nat \<Rightarrow> u64"
  cx_v :: "nat \<Rightarrow> u64"

definition context_0 :: arm64_context where
  "context_0 = \<lparr>cx_x = (\<lambda>_. 0), cx_v = (\<lambda>_. 0)\<rparr>"

datatype invocation_phase = PhaseEnter | PhaseLeave | PhaseException

datatype root_role = RootPadding | RootInput | RootTypeArgument | RootResult

record root_binding =
  rb_location :: abi_location
  rb_role :: root_role

text \<open>\<open>generated_root_accesses\<close>: how the invocation's readers find a root.\<close>

record root_access =
  ra_location :: abi_location
  ra_index :: nat
  ra_is_result :: bool

record transition_frame =
  tf_thread :: u64
  tf_dart_sp :: u64
  tf_exit_frame :: u64
  tf_caller_fp :: u64
  tf_caller_lr :: u64

definition transition_frame_0 :: transition_frame where
  "transition_frame_0 = \<lparr>tf_thread = 0, tf_dart_sp = 0, tf_exit_frame = 0, tf_caller_fp = 0,
     tf_caller_lr = 0\<rparr>"

text \<open>
  The frame with its invocation. The roots are the used part of the two arrays, so the count is
  their length; \<open>fr_lease\<close> is zero for the null lease.
\<close>

record dispatch_frame =
  fr_context :: arm64_context
  fr_hook :: "nat option"
  fr_method :: "hook_method option"
  fr_target :: "nat option"
  fr_aliases :: "method_identity list"
  fr_profile :: "legacy_profile option"
  fr_layout :: "call_layout option"
  fr_phase :: invocation_phase
  fr_depth :: u32
  fr_adapter :: "nat option"
  fr_generation :: "nat option"
  fr_expected :: u64
  fr_null_value :: u64
  fr_true_value :: u64
  fr_false_value :: u64
  fr_accesses :: "root_access list"
  fr_ambiguous :: bool
  fr_receiver_in_x0 :: bool
  fr_scope_entered :: bool
  fr_bridge_active :: bool
  fr_mapped :: "parameter_layout list"
  fr_type_arguments :: abi_location
  fr_type_root_base :: nat
  fr_type_root_count :: nat
  fr_mapping_attempted :: bool
  fr_mapping_valid :: bool
  fr_skip_original :: bool
  fr_call_original :: bool
  fr_original_called :: bool
  fr_entered :: "nat list"
  fr_payload :: "nat option"
  fr_entry_spreg :: ptr
  fr_entry_caller_fp :: ptr
  fr_native_frame :: ptr
  fr_roots :: "root_binding list"
  fr_root_values :: "u64 list"
  fr_lease :: u64
  fr_transition :: transition_frame

definition kMaxInvocationDepth :: nat where "kMaxInvocationDepth = 64"
definition kMaxGeneratedRootBindings :: nat where "kMaxGeneratedRootBindings = 96"

definition frame_0 :: dispatch_frame where
  "frame_0 = \<lparr>fr_context = context_0, fr_hook = None, fr_method = None, fr_target = None,
     fr_aliases = [], fr_profile = None, fr_layout = None, fr_phase = PhaseEnter, fr_depth = 0,
     fr_adapter = None,
     fr_generation = None, fr_expected = 0, fr_null_value = 0, fr_true_value = 0,
     fr_false_value = 0, fr_accesses = [], fr_ambiguous = False, fr_receiver_in_x0 = False,
     fr_scope_entered = False, fr_bridge_active = False, fr_mapped = [],
     fr_type_arguments = abi_location_0, fr_type_root_base = 0, fr_type_root_count = 0,
     fr_mapping_attempted = False, fr_mapping_valid = False, fr_skip_original = False,
     fr_call_original = False, fr_original_called = False, fr_entered = [], fr_payload = None,
     fr_entry_spreg = 0, fr_entry_caller_fp = 0, fr_native_frame = 0, fr_roots = [],
     fr_root_values = [], fr_lease = 0, fr_transition = transition_frame_0\<rparr>"

section \<open>Owners of a call\<close>

definition CanonicalNativePointer :: "u64 \<Rightarrow> u64" where
  "CanonicalNativePointer v = v AND 0x00ffffffffffffff"

text \<open>
  What the dispatcher reads of a runtime profile, by version: the thread register and the offset
  of the isolate group in the thread.
\<close>

record thread_profile =
  tp_thr_register :: nat
  tp_group_offset :: u64

definition MethodOwnerMatchesCurrentIsolateGroup :: "(u32 \<Rightarrow> thread_profile option) \<Rightarrow> (ptr \<Rightarrow> u8) \<Rightarrow>
    registry \<Rightarrow> hook_method option \<Rightarrow> arm64_context \<Rightarrow> bool" where
  "MethodOwnerMatchesCurrentIsolateGroup profiles mem s m cx =
     (case m of None \<Rightarrow> True
      | Some m \<Rightarrow> (case hm_function m of None \<Rightarrow> True
        | Some f \<Rightarrow>
            if df_source f = SourceSynthetic then True
            else if (case hm_generation m of None \<Rightarrow> True
                     | Some g \<Rightarrow> hm_expected m = 0 \<or> hr_generation s g \<noteq> hm_expected m) then False
            else if oi_runtime_generation (df_owner f) \<noteq> 0 \<and>
                    oi_runtime_generation (df_owner f) \<noteq> hm_expected m then False
            else if df_isolate_group_identity f = 0 then True
            else (case profiles (df_profile_version f) of
                    None \<Rightarrow> False
                  | Some p \<Rightarrow>
                      if tp_thr_register p \<ge> 31 \<or> tp_group_offset p = 0 then False
                      else let thread = CanonicalNativePointer (cx_x cx (tp_thr_register p)) in
                        if thread = 0 then False
                        else CanonicalNativePointer (load64 mem (thread + tp_group_offset p)) =
                             CanonicalNativePointer (df_isolate_group_identity f))))"

definition SameAbiValueLocation :: "value_location \<Rightarrow> value_location \<Rightarrow> bool" where
  "SameAbiValueLocation l r \<longleftrightarrow> vl_count l = vl_count r \<and> unat (vl_count l) \<le> 2 \<and>
     take (unat (vl_count l)) (vl_locations l) = take (unat (vl_count l)) (vl_locations r)"

definition SameParameterLayout :: "parameter_layout \<Rightarrow> parameter_layout \<Rightarrow> bool" where
  "SameParameterLayout l r \<longleftrightarrow> pl_representation l = pl_representation r \<and>
     SameAbiValueLocation (pl_location l) (pl_location r)"

definition SameClosureSignature :: "closure_signature_layout option \<Rightarrow> closure_signature_layout option \<Rightarrow>
    bool" where
  "SameClosureSignature l r =
     (case (l, r) of
        (None, None) \<Rightarrow> True
      | (Some a, Some b) \<Rightarrow>
          cs_implicit_parameter_count a = cs_implicit_parameter_count b \<and>
          cs_fixed_parameter_count a = cs_fixed_parameter_count b \<and>
          cs_optional_parameter_count a = cs_optional_parameter_count b \<and>
          cs_type_parameter_count a = cs_type_parameter_count b \<and>
          cs_parent_type_argument_count a = cs_parent_type_argument_count b \<and>
          cs_has_named_optional_parameters a = cs_has_named_optional_parameters b \<and>
          list_all2 (\<lambda>f g. cf_signature_index f = cf_signature_index g \<and> cf_kind f = cf_kind g \<and>
             cf_is_required f = cf_is_required g \<and> cf_name f = cf_name g) (cs_formals a) (cs_formals b)
      | _ \<Rightarrow> False)"

definition SameCallLayout :: "call_layout \<Rightarrow> call_layout \<Rightarrow> bool" where
  "SameCallLayout l r \<longleftrightarrow>
     cl_vm_artifact_generation l = cl_vm_artifact_generation r \<and>
     cl_vm_isolate_generation l = cl_vm_isolate_generation r \<and>
     cl_vm_call_profile l = cl_vm_call_profile r \<and>
     cl_vm_object_profile l = cl_vm_object_profile r \<and>
     cl_vm_semantic_observation_receipt l = cl_vm_semantic_observation_receipt r \<and>
     cl_stack_words l = cl_stack_words r \<and> cl_dart_sp_register l = cl_dart_sp_register r \<and>
     cl_has_closure_receiver l = cl_has_closure_receiver r \<and>
     cl_has_arguments_descriptor l = cl_has_arguments_descriptor r \<and>
     SameParameterLayout (cl_result l) (cl_result r) \<and>
     list_all2 SameParameterLayout (cl_parameters l) (cl_parameters r) \<and>
     (cl_has_closure_receiver l \<longrightarrow>
        cl_closure_receiver_location l = cl_closure_receiver_location r) \<and>
     (cl_has_arguments_descriptor l \<longrightarrow>
        cl_arguments_descriptor_location l = cl_arguments_descriptor_location r) \<and>
     SameClosureSignature (cl_closure_signature l) (cl_closure_signature r)"

definition SameExecutionBinding :: "listener_record \<Rightarrow> listener_record \<Rightarrow> bool" where
  "SameExecutionBinding l r \<longleftrightarrow>
     lr_adapter l = lr_adapter r \<and> lr_generation l = lr_generation r \<and>
     lr_expected l = lr_expected r \<and> lr_null_value l = lr_null_value r \<and>
     lr_true_value l = lr_true_value r \<and> lr_false_value l = lr_false_value r \<and>
     lr_exception l = lr_exception r \<and>
     (case (lr_layout l, lr_layout r) of
        (None, None) \<Rightarrow> True
      | (Some a, Some b) \<Rightarrow> SameCallLayout a b
      | _ \<Rightarrow> False)"

section \<open>The identity of an invocation\<close>

definition RefreshIdentityState :: "registry \<Rightarrow> dispatch_frame \<Rightarrow> dispatch_frame" where
  "RefreshIdentityState s f =
     (let ambiguous = (case fr_target f of None \<Rightarrow> False
                       | Some t \<Rightarrow> IsShared (tw_target (hr_world s) t));
          in_x0 = (\<not> ambiguous \<and>
            (case fr_method f of None \<Rightarrow> False
             | Some m \<Rightarrow> (case hm_function m of None \<Rightarrow> False
                 | Some g \<Rightarrow> df_closure_call_entry_only g \<and> hm_entry_kind m = 0)))
      in f\<lparr>fr_ambiguous := ambiguous, fr_receiver_in_x0 := in_x0,
           fr_layout := (if ambiguous then None else fr_layout f)\<rparr>)"

definition SelectListenerIdentity :: "registry \<Rightarrow> nat \<Rightarrow> dispatch_frame \<Rightarrow> dispatch_frame" where
  "SelectListenerIdentity s l f =
     RefreshIdentityState s (f\<lparr>fr_method := lr_method (hr_listener s l)\<rparr>)"

section \<open>Locations\<close>

definition stack_base :: "dispatch_frame \<Rightarrow> abi_location \<Rightarrow> ptr option" where
  "stack_base f loc =
     (case fr_layout f of
        None \<Rightarrow> None
      | Some cl \<Rightarrow>
          if cl_dart_sp_register cl \<ge> 31 \<or> sint (loc_stack_offset loc) < 0 then None
          else let base = cx_x (fr_context f) (unat (cl_dart_sp_register cl)) in
            if base = 0 \<or> ucast (loc_stack_offset loc) > UINT64_MAX - base then None
            else Some (base + ucast (loc_stack_offset loc)))"

definition ReadGeneratedRootLocation :: "(ptr \<Rightarrow> u8) \<Rightarrow> dispatch_frame \<Rightarrow> abi_location \<Rightarrow> u64 option" where
  "ReadGeneratedRootLocation mem f loc =
     (case loc_kind loc of
        LocGpRegister \<Rightarrow> if loc_register_index loc \<ge> 31 then None
                         else Some (cx_x (fr_context f) (unat (loc_register_index loc)))
      | LocEntryStack \<Rightarrow> map_option (load64 mem) (stack_base f loc)
      | _ \<Rightarrow> None)"

definition set_register :: "nat \<Rightarrow> u64 \<Rightarrow> dispatch_frame \<Rightarrow> dispatch_frame" where
  "set_register r v f =
     f\<lparr>fr_context := (fr_context f)\<lparr>cx_x := (cx_x (fr_context f))(r := v)\<rparr>\<rparr>"

definition WriteGeneratedRootLocation :: "abi_location \<Rightarrow> u64 \<Rightarrow> (ptr \<Rightarrow> u8) \<Rightarrow> dispatch_frame \<Rightarrow>
    ((ptr \<Rightarrow> u8) \<times> dispatch_frame) option" where
  "WriteGeneratedRootLocation loc v mem f =
     (case loc_kind loc of
        LocGpRegister \<Rightarrow> if loc_register_index loc \<ge> 31 then None
                         else Some (mem, set_register (unat (loc_register_index loc)) v f)
      | LocEntryStack \<Rightarrow> map_option (\<lambda>a. (store64 a v mem, f)) (stack_base f loc)
      | _ \<Rightarrow> None)"

section \<open>Root bindings\<close>

text \<open>A value that has not been read yet stands as zero; it is set before it is used.\<close>

definition AddGeneratedRootBinding :: "abi_location \<Rightarrow> root_role \<Rightarrow> dispatch_frame \<Rightarrow> dispatch_frame option" where
  "AddGeneratedRootBinding loc role f =
     (if role = RootPadding \<or> role = RootTypeArgument \<or>
         (loc_kind loc \<noteq> LocGpRegister \<and> loc_kind loc \<noteq> LocEntryStack) then None
      else if \<lparr>rb_location = loc, rb_role = role\<rparr> \<in> set (fr_roots f) then Some f
      else if length (fr_roots f) \<ge> kMaxGeneratedRootBindings then None
      else Some (f\<lparr>fr_roots := fr_roots f @ [\<lparr>rb_location = loc, rb_role = role\<rparr>],
                   fr_root_values := fr_root_values f @ [0]\<rparr>))"

definition AddGeneratedRootValue :: "u64 \<Rightarrow> dispatch_frame \<Rightarrow> (nat \<times> dispatch_frame) option" where
  "AddGeneratedRootValue v f =
     (if length (fr_roots f) \<ge> kMaxGeneratedRootBindings then None
      else Some (length (fr_roots f),
        f\<lparr>fr_roots := fr_roots f @ [\<lparr>rb_location = abi_location_0, rb_role = RootTypeArgument\<rparr>],
          fr_root_values := fr_root_values f @ [v]\<rparr>))"

definition RootRoleActive :: "root_binding \<Rightarrow> bool \<Rightarrow> bool" where
  "RootRoleActive b include_result \<longleftrightarrow> rb_role b = RootInput \<or> rb_role b = RootTypeArgument \<or>
     (include_result \<and> rb_role b = RootResult)"

definition RootHasPhysicalLocation :: "root_binding \<Rightarrow> bool" where
  "RootHasPhysicalLocation b \<longleftrightarrow> rb_role b = RootInput \<or> rb_role b = RootResult"

definition IsResultLocation :: "dispatch_frame \<Rightarrow> abi_location \<Rightarrow> bool" where
  "IsResultLocation f loc =
     (case fr_layout f of
        None \<Rightarrow> False
      | Some cl \<Rightarrow> loc \<in> set (take (unat (vl_count (pl_location (cl_result cl))))
                                (vl_locations (pl_location (cl_result cl)))))"

section \<open>The world of a dispatch\<close>

datatype callback_kind = OnEnter | OnLeave | OnException

text \<open>The process-wide hook of Dart's \<open>JumpToFrame\<close> (\<open>ExceptionBridge()\<close>).\<close>

record exception_bridge =
  xs_target :: ptr
  xs_backup :: ptr
  xs_published :: "published_hook option"

text \<open>
  What a dispatch works on: the registry, memory, the VM's table of rooted values by lease, the
  exception bridge. \<open>dw_clock\<close> numbers the calls to the embedder, so that its answers may differ
  from call to call, and \<open>dw_calls\<close> records the user callbacks that ran, newest first.
\<close>

record dispatch_world =
  dw_registry :: registry
  dw_memory :: "ptr \<Rightarrow> u8"
  dw_roots :: "u64 \<Rightarrow> u64 list"
  dw_bridge :: exception_bridge
  dw_clock :: nat
  dw_calls :: "(callback_kind \<times> nat) list"

definition set_registry :: "registry \<Rightarrow> dispatch_world \<Rightarrow> dispatch_world" where
  "set_registry s w = w\<lparr>dw_registry := s\<rparr>"

definition tick :: "dispatch_world \<Rightarrow> dispatch_world" where
  "tick w = w\<lparr>dw_clock := dw_clock w + 1\<rparr>"

text \<open>What a user callback leaves behind; \<open>cr_threw\<close> says that it left by a C++ exception.\<close>

record callback_result =
  cr_threw :: bool
  cr_frame :: dispatch_frame
  cr_world :: dispatch_world

text \<open>
  Where the values of an arguments descriptor and of the object profile are found, by the address
  of the profile.
\<close>

record descriptor_layout =
  dl_type_args_len_offset :: u32
  dl_count_offset :: u32
  dl_size_offset :: u32
  dl_positional_count_offset :: u32
  dl_first_named_entry_offset :: u32
  dl_named_entry_size :: u32
  dl_name_offset :: u32
  dl_position_offset :: u32
  dl_thr_register :: nat
  dl_heap_base_offset :: u64

record object_profile =
  op_raw :: raw_layout
  op_string :: string_layout
  op_cid_array :: u32
  op_cid_immutable_array :: u32

text \<open>
  The surroundings: the calling thread and whether it has a dispatch stack, the generated
  profiles, the embedder's answers by clock, the collector (which may move rooted values whenever
  the thread leaves generated state), the registry's return restoration, the memory reader, the
  user's callbacks and the veneer allocator.
\<close>

record dispatch_env =
  ev_thread :: thread_id
  ev_stack :: bool
  ev_profiles :: "u32 \<Rightarrow> thread_profile option"
  ev_profile_at :: "nat \<Rightarrow> ptr"
  ev_versions :: "u32 \<Rightarrow> nat option"
  ev_descriptor_layout :: "ptr \<Rightarrow> descriptor_layout"
  ev_object_profile :: "ptr \<Rightarrow> object_profile"
  ev_abi_key :: "ptr \<Rightarrow> u64 \<Rightarrow> string"
  ev_descriptor_key :: "ptr \<Rightarrow> ptr \<Rightarrow> string"
  ev_free :: "nat \<Rightarrow> bool"
  ev_status :: "nat \<Rightarrow> dp_status"
  ev_lease :: "nat \<Rightarrow> u64"
  ev_element :: "nat \<Rightarrow> u64"
  ev_retain :: "nat \<Rightarrow> u64 \<Rightarrow> dp_status \<times> u64"
  ev_classify :: "nat \<Rightarrow> u64 \<Rightarrow> dp_status \<times> u32"
  ev_raw :: "nat \<Rightarrow> u64 \<Rightarrow> dp_status \<times> u64"
  ev_proof :: "nat \<Rightarrow> capability_proof"
  ev_gc :: "nat \<Rightarrow> u64 list \<Rightarrow> u64 list"
  ev_restore :: "nat \<Rightarrow> bool"
  ev_reader :: "(ptr \<Rightarrow> u8) \<Rightarrow> reader"
  ev_executable :: "ptr \<Rightarrow> bool"
  ev_gate_stub :: "ptr \<Rightarrow> bool \<Rightarrow> ptr \<times> u64"
  ev_jump_hook :: ptr
  ev_call :: "callback_kind \<Rightarrow> nat \<Rightarrow> dispatch_frame \<Rightarrow> dispatch_world \<Rightarrow> callback_result"

text \<open>A call on the adapter of an invocation; no adapter is an invalid argument.\<close>

definition adapter_op :: "(vm_adapter \<Rightarrow> dp_status \<times> vm_adapter) \<Rightarrow> dispatch_frame \<Rightarrow> dispatch_world \<Rightarrow>
    dp_status \<times> dispatch_world" where
  "adapter_op oper f w =
     (case fr_adapter f of
        None \<Rightarrow> (DP_INVALID_ARGUMENT, w)
      | Some a \<Rightarrow>
          (case oper (hr_adapter (dw_registry w) a) of
             (status, v) \<Rightarrow> (status, tick (set_registry (set_adapter a v (dw_registry w)) w))))"

section \<open>Verified locations\<close>

text \<open>
  The root of a location, when the call is inside the bridge with a lease. The stack slot is
  addressed without the overflow test of the roots.
\<close>

definition root_of :: "dispatch_frame \<Rightarrow> abi_location \<Rightarrow> bool \<Rightarrow> nat option" where
  "root_of f loc is_result =
     (if fr_bridge_active f \<and> fr_lease f \<noteq> 0 \<and> fr_adapter f \<noteq> None
      then map_option ra_index
             (find (\<lambda>r. ra_location r = loc \<and> ra_is_result r = is_result) (fr_accesses f))
      else None)"

definition root_read :: "dispatch_env \<Rightarrow> dispatch_frame \<Rightarrow> dispatch_world \<Rightarrow> nat \<Rightarrow> dp_status + u64" where
  "root_read env f w i =
     (case fr_adapter f of
        None \<Rightarrow> Inl DP_INVALID_ARGUMENT
      | Some a \<Rightarrow>
          let status = VmAdapterGeneratedRootGet True (ev_thread env) (ev_status env (dw_clock w))
                         (hr_adapter (dw_registry w) a)
          in if status \<noteq> DP_OK then Inl status
             else if i < length (dw_roots w (fr_lease f)) then Inr (dw_roots w (fr_lease f) ! i)
             else Inl DP_INVALID_ARGUMENT)"

definition root_get :: "dispatch_env \<Rightarrow> dispatch_frame \<Rightarrow> dispatch_world \<Rightarrow> nat \<Rightarrow> u64 option" where
  "root_get env f w i = (case root_read env f w i of Inl _ \<Rightarrow> None | Inr v \<Rightarrow> Some v)"

definition root_set :: "dispatch_env \<Rightarrow> dispatch_frame \<Rightarrow> dispatch_world \<Rightarrow> nat \<Rightarrow> u64 \<Rightarrow>
    bool \<times> dispatch_world" where
  "root_set env f w i v =
     (case fr_adapter f of
        None \<Rightarrow> (False, w)
      | Some a \<Rightarrow>
          if VmAdapterGeneratedRootSet True (ev_thread env) (ev_status env (dw_clock w))
               (hr_adapter (dw_registry w) a) \<noteq> DP_OK \<or> i \<ge> length (dw_roots w (fr_lease f))
          then (False, tick w)
          else (True, tick (w\<lparr>dw_roots := (dw_roots w)(fr_lease f := (dw_roots w (fr_lease f))[i := v])\<rparr>)))"

definition entry_slot :: "dispatch_frame \<Rightarrow> abi_location \<Rightarrow> ptr option" where
  "entry_slot f loc =
     (case fr_layout f of
        None \<Rightarrow> None
      | Some cl \<Rightarrow>
          if cl_dart_sp_register cl \<ge> 31 \<or> sint (loc_stack_offset loc) < 0 then None
          else let base = cx_x (fr_context f) (unat (cl_dart_sp_register cl)) in
            if base = 0 then None else Some (base + ucast (loc_stack_offset loc)))"

definition ReadVerifiedLocation :: "dispatch_env \<Rightarrow> dispatch_frame \<Rightarrow> dispatch_world \<Rightarrow> abi_location \<Rightarrow>
    bool \<Rightarrow> u64 option" where
  "ReadVerifiedLocation env f w loc is_result =
     (case root_of f loc is_result of
        Some i \<Rightarrow> root_get env f w i
      | None \<Rightarrow>
          (case loc_kind loc of
             LocGpRegister \<Rightarrow> if loc_register_index loc \<ge> 31 then None
                              else Some (cx_x (fr_context f) (unat (loc_register_index loc)))
           | LocFpuRegister \<Rightarrow> if loc_register_index loc \<ge> 32 then None
                               else Some (cx_v (fr_context f) (unat (loc_register_index loc)))
           | LocEntryStack \<Rightarrow> map_option (load64 (dw_memory w)) (entry_slot f loc)
           | LocUnknown \<Rightarrow> None))"

text \<open>
  Writing: the context or the stack first, then the root. A floating-point register has no root.
  The flag is the function's result; what was written stays written when it is false.
\<close>

definition write_root :: "dispatch_env \<Rightarrow> abi_location \<Rightarrow> bool \<Rightarrow> u64 \<Rightarrow> dispatch_frame \<Rightarrow> dispatch_world \<Rightarrow>
    bool \<times> dispatch_frame \<times> dispatch_world" where
  "write_root env loc is_result v f w =
     (case root_of f loc is_result of
        None \<Rightarrow> (True, f, w)
      | Some i \<Rightarrow> (case root_set env f w i v of (ok, w') \<Rightarrow> (ok, f, w')))"

definition WriteVerifiedLocation :: "dispatch_env \<Rightarrow> abi_location \<Rightarrow> bool \<Rightarrow> u64 \<Rightarrow> dispatch_frame \<Rightarrow>
    dispatch_world \<Rightarrow> bool \<times> dispatch_frame \<times> dispatch_world" where
  "WriteVerifiedLocation env loc is_result v f w =
     (case loc_kind loc of
        LocGpRegister \<Rightarrow>
          if loc_register_index loc \<ge> 31 then (False, f, w)
          else write_root env loc is_result v (set_register (unat (loc_register_index loc)) v f) w
      | LocFpuRegister \<Rightarrow>
          if loc_register_index loc \<ge> 32 then (False, f, w)
          else (True, f\<lparr>fr_context := (fr_context f)\<lparr>cx_v :=
                  (cx_v (fr_context f))(unat (loc_register_index loc) := v)\<rparr>\<rparr>, w)
      | LocEntryStack \<Rightarrow>
          (case entry_slot f loc of
             None \<Rightarrow> (False, f, w)
           | Some a \<Rightarrow> write_root env loc is_result v f (w\<lparr>dw_memory := store64 a v (dw_memory w)\<rparr>))
      | LocUnknown \<Rightarrow> (False, f, w))"

end
