(* ===== verification/Closure_Arguments.thy ===== *)
theory Closure_Arguments
  imports Dispatch_Frame
begin

text \<open>
  What \<^verbatim>\<open>src/interceptor/invocation.cpp\<close> reads of a call: which accesses the invocation's
  profile or verified layout allows, the arguments descriptor of a closure call, and the map
  from the formal parameters of a closure's function type to the stack slots of the call.
  Operations that are \<open>const\<close> in the code but fill its mutable fields return the frame.
\<close>

section \<open>What an invocation may access\<close>

definition PROFILE_TAGGED_GP_ARGUMENTS :: u32 where "PROFILE_TAGGED_GP_ARGUMENTS = 4"
definition PROFILE_TAGGED_GP_RESULT :: u32 where "PROFILE_TAGGED_GP_RESULT = 8"

definition HasVerifiedCallLayout :: "dispatch_frame \<Rightarrow> bool" where
  "HasVerifiedCallLayout f \<longleftrightarrow> fr_layout f \<noteq> None"

definition profile_flag :: "dispatch_frame \<Rightarrow> u32 \<Rightarrow> bool" where
  "profile_flag f flag = (case fr_profile f of None \<Rightarrow> False | Some p \<Rightarrow> lp_flags p AND flag \<noteq> 0)"

definition ArgumentAccessEnabled :: "dispatch_frame \<Rightarrow> bool" where
  "ArgumentAccessEnabled f \<longleftrightarrow> HasVerifiedCallLayout f \<or> profile_flag f PROFILE_RAW_GP_ARGUMENTS"

definition ResultAccessEnabled :: "dispatch_frame \<Rightarrow> bool" where
  "ResultAccessEnabled f \<longleftrightarrow> HasVerifiedCallLayout f \<or> profile_flag f PROFILE_RAW_GP_RESULT"

definition ClosureReceiverAccessEnabled :: "dispatch_frame \<Rightarrow> bool" where
  "ClosureReceiverAccessEnabled f \<longleftrightarrow> fr_receiver_in_x0 f \<or>
     (case fr_layout f of None \<Rightarrow> False
      | Some cl \<Rightarrow> cl_has_closure_receiver cl \<and>
                  loc_kind (cl_closure_receiver_location cl) = LocGpRegister)"

definition ReadClosureReceiverRaw :: "dispatch_env \<Rightarrow> dispatch_frame \<Rightarrow> dispatch_world \<Rightarrow> u64 option" where
  "ReadClosureReceiverRaw env f w =
     (if fr_receiver_in_x0 f then Some (cx_x (fr_context f) 0)
      else case fr_layout f of
             None \<Rightarrow> None
           | Some cl \<Rightarrow> if cl_has_closure_receiver cl
                        then ReadVerifiedLocation env f w (cl_closure_receiver_location cl) False
                        else None)"

definition LegacyTaggedArgumentAccessEnabled :: "dispatch_frame \<Rightarrow> bool" where
  "LegacyTaggedArgumentAccessEnabled f \<longleftrightarrow>
     ArgumentAccessEnabled f \<and> profile_flag f PROFILE_TAGGED_GP_ARGUMENTS"

definition LegacyTaggedResultAccessEnabled :: "dispatch_frame \<Rightarrow> bool" where
  "LegacyTaggedResultAccessEnabled f \<longleftrightarrow>
     ResultAccessEnabled f \<and> profile_flag f PROFILE_TAGGED_GP_RESULT"

definition dartplant_invocation_argument_count :: "dispatch_frame \<Rightarrow> u32" where
  "dartplant_invocation_argument_count f =
     (if \<not> ArgumentAccessEnabled f then 0
      else case fr_layout f of
             Some cl \<Rightarrow> of_nat (length (cl_parameters cl))
           | None \<Rightarrow> (case fr_profile f of None \<Rightarrow> 0 | Some p \<Rightarrow> lp_argument_count p))"

section \<open>Reading the process's own memory\<close>

definition ReadSelfValue :: "reader \<Rightarrow> reader" where
  "ReadSelfValue rd a n = (if a = 0 then None else rd a n)"

text \<open>Sizes that are no machine width are read byte by byte.\<close>

definition ReadInvocationMemory :: "reader \<Rightarrow> reader" where
  "ReadInvocationMemory rd a n =
     (if n = 0 then None
      else if n \<in> {1, 2, 4, 8} then ReadSelfValue rd a n
      else map_option concat (those (map (\<lambda>i. ReadSelfValue rd (a + of_nat i) 1) [0..<n])))"

definition self_reader :: "dispatch_env \<Rightarrow> dispatch_world \<Rightarrow> reader" where
  "self_reader env w = ReadSelfValue (ev_reader env (dw_memory w))"

definition AddOffset :: "ptr \<Rightarrow> u64 \<Rightarrow> ptr option" where
  "AddOffset base offset = (if offset > UINT64_MAX - base then None else Some (base + offset))"

section \<open>The arguments descriptor\<close>

record descriptor_info =
  di_type_args_len :: u32
  di_count :: u32
  di_size :: u32
  di_positional_count :: u32
  di_named_count :: u32
  di_raw :: u64

text \<open>
  The capability binding a proof published: the checks that the binding is the proof's, of the
  generation the layout was bound to.
\<close>

definition published_binding :: "call_layout \<Rightarrow> u64 \<Rightarrow> capability_proof \<Rightarrow> vm_adapter \<Rightarrow> nat option" where
  "published_binding cl capability p a =
     (case VmAdapterGetCapabilityBinding True capability a of
        Inl _ \<Rightarrow> None
      | Inr (bound, profile) \<Rightarrow>
          if cp_profile_version bound \<noteq> cp_profile_version p \<or>
             cp_artifact_generation bound \<noteq> cp_artifact_generation p \<or>
             cp_isolate_generation bound \<noteq> cp_isolate_generation p \<or>
             cp_artifact_generation bound \<noteq> cl_vm_artifact_generation cl \<or>
             cp_isolate_generation bound \<noteq> cl_vm_isolate_generation cl
          then None else Some profile)"

text \<open>A proof asked of the invocation's adapter; the clock picks the embedder's answer.\<close>

definition prove_capability :: "dispatch_env \<Rightarrow> evidence_kind \<Rightarrow> dispatch_frame \<Rightarrow> dispatch_world \<Rightarrow>
    dp_status \<times> capability_proof \<times> dispatch_world" where
  "prove_capability env kind f w =
     (case adapter_op (VmAdapterProveCapability (ev_versions env) True (ev_free env (dw_clock w))
             (ev_thread env) kind (ev_status env (dw_clock w)) (ev_proof env (dw_clock w))) f w of
        (status, w') \<Rightarrow> (status, ev_proof env (dw_clock w), w'))"

definition adapter_supports_proof :: "dispatch_frame \<Rightarrow> dispatch_world \<Rightarrow> bool" where
  "adapter_supports_proof f w =
     supports_proof (map_option (hr_adapter (dw_registry w)) (fr_adapter f))"

definition descriptor_needs_proof :: "call_layout \<Rightarrow> dispatch_frame \<Rightarrow> dispatch_world \<Rightarrow> bool" where
  "descriptor_needs_proof cl f w \<longleftrightarrow> adapter_supports_proof f w \<and>
     ((case fr_method f of None \<Rightarrow> False
       | Some m \<Rightarrow> (case hm_function m of None \<Rightarrow> False | Some g \<Rightarrow> df_source g = SourceLiveVm)) \<or>
      cl_vm_semantic_observation_receipt cl)"

definition prove_descriptor :: "dispatch_env \<Rightarrow> call_layout \<Rightarrow> dispatch_frame \<Rightarrow> dispatch_world \<Rightarrow>
    dp_status \<times> dispatch_world" where
  "prove_descriptor env cl f w =
     (if \<not> descriptor_needs_proof cl f w then (DP_OK, w)
      else case prove_capability env EvArgumentsDescriptor f w of
        (status, p, w') \<Rightarrow>
          if status \<noteq> DP_OK \<or> cp_capability p \<noteq> CapabilityForEvidence EvArgumentsDescriptor \<or>
             cp_profile_version p = 0
          then ((if status = DP_OK then DP_PROFILE_MISMATCH else status), w')
          else case fr_adapter f of
                 None \<Rightarrow> (DP_PROFILE_MISMATCH, w')
               | Some a \<Rightarrow>
                   (case published_binding cl (CapabilityForEvidence EvArgumentsDescriptor) p
                           (hr_adapter (dw_registry w') a) of
                      None \<Rightarrow> (DP_PROFILE_MISMATCH, w')
                    | Some profile \<Rightarrow>
                        if ev_abi_key env (ev_profile_at env profile)
                             (CapabilityForEvidence EvArgumentsDescriptor) \<noteq>
                           ev_descriptor_key env (cl_vm_call_profile cl) (cl_vm_object_profile cl)
                        then (DP_PROFILE_MISMATCH, w') else (DP_OK, w')))"

definition descriptor_is_tagged :: "raw_layout \<Rightarrow> u64 \<Rightarrow> bool" where
  "descriptor_is_tagged raw v \<longleftrightarrow>
     v AND ucast (rw_smi_tag_mask raw) = ucast (rw_heap_object_tag raw) \<and>
     v \<ge> ucast (rw_heap_object_tag raw)"

definition descriptor_class_ok :: "reader \<Rightarrow> object_profile \<Rightarrow> ptr \<Rightarrow> bool" where
  "descriptor_class_ok rd op object =
     (let raw = op_raw op in
      if rw_class_id_tag_bits raw = 0 \<or> rw_class_id_tag_bits raw \<ge> 64 \<or>
         rw_class_id_tag_shift raw \<ge> 64 - rw_class_id_tag_bits raw then False
      else case read_word 8 rd object of
             None \<Rightarrow> False
           | Some tags \<Rightarrow>
               let cid = ucast (drop_bit (unat (rw_class_id_tag_shift raw)) tags AND
                                (push_bit (unat (rw_class_id_tag_bits raw)) 1 - 1)) :: u32
               in cid = op_cid_array op \<or> cid = op_cid_immutable_array op)"

text \<open>The four counters, in the order they are read.\<close>

definition read_counters :: "reader \<Rightarrow> raw_layout \<Rightarrow> descriptor_layout \<Rightarrow> ptr \<Rightarrow> u64 \<Rightarrow>
    descriptor_info option" where
  "read_counters rd raw dl object word =
     Option.bind (ReadPositiveCompressedSmi rd (object + ucast (dl_type_args_len_offset dl)) raw)
       (\<lambda>type_args_len.
     Option.bind (ReadPositiveCompressedSmi rd (object + ucast (dl_count_offset dl)) raw) (\<lambda>count.
     Option.bind (ReadPositiveCompressedSmi rd (object + ucast (dl_size_offset dl)) raw) (\<lambda>size.
     Option.bind (ReadPositiveCompressedSmi rd (object + ucast (dl_positional_count_offset dl)) raw)
       (\<lambda>positional.
          if positional > count \<or> count > size then None
          else Some \<lparr>di_type_args_len = type_args_len, di_count = count, di_size = size,
                     di_positional_count = positional, di_named_count = count - positional,
                     di_raw = word\<rparr>))))"

text \<open>
  A closure call without a function type has a fixed arity: the receiver and every formal are
  positional.
\<close>

definition fixed_arity_ok :: "call_layout \<Rightarrow> descriptor_info \<Rightarrow> bool" where
  "fixed_arity_ok cl info \<longleftrightarrow>
     \<not> (cl_has_closure_receiver cl \<and> cl_closure_signature cl = None) \<or>
     (length (cl_parameters cl) < 2 ^ 32 - 1 \<and>
      unat (di_count info) = length (cl_parameters cl) + 1 \<and>
      unat (di_size info) = length (cl_parameters cl) + 1 \<and>
      unat (di_positional_count info) = length (cl_parameters cl) + 1)"

definition method_has_function :: "dispatch_frame \<Rightarrow> bool" where
  "method_has_function f = (case fr_method f of None \<Rightarrow> False | Some m \<Rightarrow> hm_function m \<noteq> None)"

definition descriptor_of :: "dispatch_env \<Rightarrow> call_layout \<Rightarrow> u64 \<Rightarrow> dispatch_world \<Rightarrow>
    dp_status + descriptor_info" where
  "descriptor_of env cl raw w =
     (let op = ev_object_profile env (cl_vm_object_profile cl);
          rd = self_reader env w;
          object = raw - ucast (rw_heap_object_tag (op_raw op))
      in if \<not> descriptor_class_ok rd op object then Inl DP_PROFILE_MISMATCH
         else case read_counters rd (op_raw op) (ev_descriptor_layout env (cl_vm_call_profile cl))
                     object raw of
                None \<Rightarrow> Inl DP_PROFILE_MISMATCH
              | Some info \<Rightarrow> if fixed_arity_ok cl info then Inr info else Inl DP_PROFILE_MISMATCH)"

definition dartplant_invocation_get_arguments_descriptor :: "dispatch_env \<Rightarrow> dispatch_frame \<Rightarrow>
    dispatch_world \<Rightarrow> (dp_status + descriptor_info) \<times> dispatch_world" where
  "dartplant_invocation_get_arguments_descriptor env f w =
     (case fr_layout f of
        None \<Rightarrow> (Inl DP_UNSUPPORTED_ABI, w)
      | Some cl \<Rightarrow>
          if \<not> cl_has_arguments_descriptor cl \<or> \<not> method_has_function f
          then (Inl DP_UNSUPPORTED_ABI, w)
          else if fr_phase f \<noteq> PhaseEnter then (Inl DP_INVALID_INVOCATION_PHASE, w)
          else if cl_vm_call_profile cl = 0 \<or> cl_vm_object_profile cl = 0
          then (Inl DP_PROFILE_MISMATCH, w)
          else (case ReadVerifiedLocation env f w (cl_arguments_descriptor_location cl) False of
                  None \<Rightarrow> (Inl DP_PROFILE_MISMATCH, w)
                | Some raw \<Rightarrow>
                    if raw = 0 \<or>
                       \<not> descriptor_is_tagged (op_raw (ev_object_profile env (cl_vm_object_profile cl))) raw
                    then (Inl DP_PROFILE_MISMATCH, w)
                    else (case prove_descriptor env cl f w of
                            (status, w') \<Rightarrow>
                              if status \<noteq> DP_OK then (Inl status, w')
                              else (descriptor_of env cl raw w', w'))))"

section \<open>Named entries\<close>

text \<open>
  The heap base comes from the thread: the invocation's own \<open>live_vm_heap_base\<close> is zero in
  every invocation the program builds.
\<close>

definition ReadLiveVmHeapBase :: "dispatch_env \<Rightarrow> dispatch_frame \<Rightarrow> dispatch_world \<Rightarrow> u64 option" where
  "ReadLiveVmHeapBase env f w =
     (case fr_layout f of
        None \<Rightarrow> None
      | Some cl \<Rightarrow>
          if fr_profile f = None \<or> \<not> method_has_function f \<or> cl_vm_call_profile cl = 0 then None
          else let dl = ev_descriptor_layout env (cl_vm_call_profile cl) in
            if dl_thr_register dl \<ge> 31 \<or> dl_heap_base_offset dl = 0 then None
            else Option.bind (AddOffset (cx_x (fr_context f) (dl_thr_register dl)) (dl_heap_base_offset dl))
              (\<lambda>a. Option.bind (read_word 8 (self_reader env w) a)
                (\<lambda>base. if base = 0 then None else Some base)))"

definition kNameCapacity :: nat where "kNameCapacity = 160"

text \<open>A C string ends at its first zero byte.\<close>

definition c_string :: "u8 list \<Rightarrow> string" where
  "c_string bs = map (\<lambda>b. char_of (unat b)) (takeWhile (\<lambda>b. b \<noteq> 0) bs)"

text \<open>The addresses of a named entry's name and position.\<close>

definition named_entry_addresses :: "descriptor_layout \<Rightarrow> ptr \<Rightarrow> u32 \<Rightarrow> (ptr \<times> ptr) option" where
  "named_entry_addresses dl object i =
     (if ucast i > (UINT64_MAX - ucast (dl_first_named_entry_offset dl)) div
                   ucast (dl_named_entry_size dl) then None
      else Option.bind (AddOffset object (ucast (dl_first_named_entry_offset dl) +
                                          ucast i * ucast (dl_named_entry_size dl))) (\<lambda>entry.
           Option.bind (AddOffset entry (ucast (dl_name_offset dl))) (\<lambda>name.
           Option.bind (AddOffset entry (ucast (dl_position_offset dl))) (\<lambda>position.
             Some (name, position)))))"

definition read_named_entry :: "dispatch_env \<Rightarrow> object_profile \<Rightarrow> dispatch_frame \<Rightarrow> dispatch_world \<Rightarrow>
    ptr \<times> ptr \<Rightarrow> (u32 \<times> string) option" where
  "read_named_entry env op f w = (\<lambda>(name_address, position_address).
     Option.bind (read_word 4 (self_reader env w) name_address) (\<lambda>compressed.
     Option.bind (read_word 4 (self_reader env w) position_address) (\<lambda>raw_position.
       if compressed AND ucast (rw_smi_tag_mask (op_raw op)) \<noteq> ucast (rw_heap_object_tag (op_raw op))
       then None
       else Option.bind (DecodePositiveCompressedSmi (ucast raw_position) (op_raw op)) (\<lambda>position.
            Option.bind (ReadLiveVmHeapBase env f w) (\<lambda>base.
              if base > UINT64_MAX - compressed then None
              else map_option (\<lambda>bs. (position, c_string bs))
                     (ReadDartStringUtf8 (op_raw op) (op_string op) (base + compressed)
                        (ReadInvocationMemory (ev_reader env (dw_memory w))) kNameCapacity))))))"

definition ReadDescriptorNamedEntry :: "dispatch_env \<Rightarrow> dispatch_frame \<Rightarrow> dispatch_world \<Rightarrow> nat \<Rightarrow>
    (u32 \<times> string) option" where
  "ReadDescriptorNamedEntry env f w i =
     (case fr_layout f of
        None \<Rightarrow> None
      | Some cl \<Rightarrow>
          let dl = ev_descriptor_layout env (cl_vm_call_profile cl);
              op = ev_object_profile env (cl_vm_object_profile cl);
              raw = op_raw op
          in if fr_profile f = None \<or> \<not> method_has_function f \<or> cl_vm_call_profile cl = 0 \<or>
                cl_vm_object_profile cl = 0 \<or> dl_named_entry_size dl = 0 then None
             else case ReadVerifiedLocation env f w (cl_arguments_descriptor_location cl) False of
                    None \<Rightarrow> None
                  | Some v \<Rightarrow>
                      if rw_compressed_word_size raw \<noteq> 4 \<or> \<not> descriptor_is_tagged raw v then None
                      else Option.bind
                             (named_entry_addresses dl (v - ucast (rw_heap_object_tag raw)) (of_nat i))
                             (read_named_entry env op f w))"

section \<open>From formals to actuals\<close>

text \<open>
  \<open>actual_for_formal\<close>: one signed word per formal, \<open>-1\<close> for a formal the call does not
  supply.
\<close>

definition signature_ok :: "call_layout \<Rightarrow> closure_signature_layout \<Rightarrow> bool" where
  "signature_ok cl s \<longleftrightarrow>
     cl_has_closure_receiver cl \<and> cl_has_arguments_descriptor cl \<and>
     cs_implicit_parameter_count s = 1 \<and> length (cs_formals s) = length (cl_parameters cl) \<and>
     cs_fixed_parameter_count s \<ge> cs_implicit_parameter_count s \<and>
     unat (cs_fixed_parameter_count s - cs_implicit_parameter_count s + cs_optional_parameter_count s)
       = length (cs_formals s)"

definition user_fixed_count :: "closure_signature_layout \<Rightarrow> u32" where
  "user_fixed_count s = cs_fixed_parameter_count s - cs_implicit_parameter_count s"

definition descriptor_shape_ok :: "descriptor_info \<Rightarrow> bool" where
  "descriptor_shape_ok info \<longleftrightarrow> di_count info \<noteq> 0 \<and> di_size info = di_count info \<and>
     di_positional_count info \<noteq> 0 \<and> di_positional_count info \<le> di_count info"

definition descriptor_matches :: "closure_signature_layout \<Rightarrow> descriptor_info \<Rightarrow> bool" where
  "descriptor_matches s info =
     (let users = di_count info - 1; positional = di_positional_count info - 1;
          named = cs_has_named_optional_parameters s in
      \<not> (unat users > length (cs_formals s) \<or> (\<not> named \<and> di_named_count info \<noteq> 0) \<or>
         (named \<and> positional \<noteq> user_fixed_count s) \<or> (\<not> named \<and> positional \<noteq> users) \<or>
         di_named_count info > cs_optional_parameter_count s) \<and>
      (di_type_args_len info = 0 \<or> di_type_args_len info = cs_type_parameter_count s))"

fun map_positionals :: "u32 \<Rightarrow> nat list \<Rightarrow> u32 list \<Rightarrow> u32 list option" where
  "map_positionals limit [] acc = Some acc"
| "map_positionals limit (a # as) acc =
     (if of_nat a \<ge> limit then None else map_positionals limit as (acc[a := of_nat a]))"

definition named_formal :: "closure_signature_layout \<Rightarrow> string \<Rightarrow> nat option" where
  "named_formal s name =
     find (\<lambda>i. cf_kind (cs_formals s ! i) = FormalNamed \<and> cf_name (cs_formals s ! i) = name)
       [0..<length (cs_formals s)]"

text \<open>One named entry of the descriptor: its position counts the receiver.\<close>

definition place_named :: "closure_signature_layout \<Rightarrow> u32 \<Rightarrow> (u32 \<times> string) option \<Rightarrow> u32 list \<Rightarrow>
    u32 list option" where
  "place_named s count entry acc =
     (case entry of
        None \<Rightarrow> None
      | Some (position, name) \<Rightarrow>
          if position = 0 \<or> position \<ge> count then None
          else case named_formal s name of
                 None \<Rightarrow> None
               | Some i \<Rightarrow>
                   if sint (acc ! i) \<ge> 0 \<or> position - 1 \<ge> count - 1 then None
                   else Some (acc[i := position - 1]))"

fun map_named :: "closure_signature_layout \<Rightarrow> u32 \<Rightarrow> (nat \<Rightarrow> (u32 \<times> string) option) \<Rightarrow> nat list \<Rightarrow>
    u32 list \<Rightarrow> u32 list option" where
  "map_named s count entry [] acc = Some acc"
| "map_named s count entry (n # ns) acc =
     Option.bind (place_named s count (entry n) acc) (map_named s count entry ns)"

definition formals_ok :: "closure_signature_layout \<Rightarrow> u32 list \<Rightarrow> bool" where
  "formals_ok s acc \<longleftrightarrow>
     list_all2 (\<lambda>p a. \<not> (cf_is_required p \<and> sint a < 0) \<and>
                      \<not> (cf_kind p = FormalNamed \<and> \<not> cs_has_named_optional_parameters s))
       (cs_formals s) acc"

definition actuals :: "closure_signature_layout \<Rightarrow> descriptor_info \<Rightarrow> (nat \<Rightarrow> (u32 \<times> string) option) \<Rightarrow>
    u32 list option" where
  "actuals s info entry =
     Option.bind
       (map_positionals
          (user_fixed_count s +
           (if cs_has_named_optional_parameters s then 0 else cs_optional_parameter_count s))
          [0..<unat (di_positional_count info - 1)] (replicate (length (cs_formals s)) (-1)))
       (\<lambda>acc. Option.bind (map_named s (di_count info) entry [0..<unat (di_named_count info)] acc)
         (\<lambda>acc'. if formals_ok s acc' then Some acc' else None))"

definition kInt32Max :: u64 where "kInt32Max = 0x7fffffff"

definition stack_slot :: "u64 \<Rightarrow> abi_location option" where
  "stack_slot offset =
     (if offset > kInt32Max then None
      else Some \<lparr>loc_kind = LocEntryStack, loc_register_index = 0, loc_stack_offset = ucast offset\<rparr>)"

text \<open>A formal the call does not supply has no location.\<close>

definition formal_location :: "u32 \<Rightarrow> u32 \<Rightarrow> value_location option" where
  "formal_location users actual =
     (if sint actual < 0 then Some value_location_0
      else map_option (\<lambda>l. \<lparr>vl_locations = [l, abi_location_0], vl_count = 1\<rparr>)
             (stack_slot (ucast (users - 1 - actual) * 8)))"

fun map_locations :: "u32 \<Rightarrow> u32 list \<Rightarrow> parameter_layout list \<Rightarrow> parameter_layout list option" where
  "map_locations users (a # as) (p # ps) =
     Option.bind (formal_location users a) (\<lambda>l.
       map_option (Cons (p\<lparr>pl_location := l\<rparr>)) (map_locations users as ps))"
| "map_locations users _ ps = Some ps"

section \<open>The mapping of a closure call\<close>

definition prove_closure_call :: "dispatch_env \<Rightarrow> call_layout \<Rightarrow> dispatch_frame \<Rightarrow> dispatch_world \<Rightarrow>
    bool \<times> dispatch_world" where
  "prove_closure_call env cl f w =
     (if \<not> (cl_vm_semantic_observation_receipt cl \<and> adapter_supports_proof f w) then (True, w)
      else case prove_capability env EvClosureCall f w of
        (status, p, w') \<Rightarrow>
          if status \<noteq> DP_OK \<or> cp_capability p \<noteq> CapabilityForEvidence EvClosureCall then (False, w')
          else case fr_adapter f of
                 None \<Rightarrow> (False, w')
               | Some a \<Rightarrow>
                   (published_binding cl (CapabilityForEvidence EvClosureCall) p
                      (hr_adapter (dw_registry w') a) \<noteq> None, w'))"

text \<open>The location of the type arguments, above the arguments, is set before it is read.\<close>

definition locate_type_arguments :: "dispatch_env \<Rightarrow> descriptor_info \<Rightarrow> dispatch_frame \<Rightarrow> dispatch_world \<Rightarrow>
    bool \<times> dispatch_frame" where
  "locate_type_arguments env info f w =
     (if di_type_args_len info = 0 then (True, f)
      else case stack_slot (ucast (di_count info) * 8) of
             None \<Rightarrow> (False, f)
           | Some loc \<Rightarrow> (ReadVerifiedLocation env f w loc False \<noteq> None,
                          f\<lparr>fr_type_arguments := loc\<rparr>))"

definition finish_mapping :: "call_layout \<Rightarrow> descriptor_info \<Rightarrow> u32 list \<Rightarrow> dispatch_frame \<Rightarrow>
    bool \<times> dispatch_frame" where
  "finish_mapping cl info acc f =
     (case map_locations (di_count info - 1) acc (cl_parameters cl) of
        None \<Rightarrow> (False, f\<lparr>fr_mapped := []\<rparr>)
      | Some ps \<Rightarrow> (True, f\<lparr>fr_mapped := ps, fr_mapping_valid := True\<rparr>))"

definition map_arguments :: "dispatch_env \<Rightarrow> call_layout \<Rightarrow> closure_signature_layout \<Rightarrow> dispatch_frame \<Rightarrow>
    dispatch_world \<Rightarrow> bool \<times> dispatch_frame \<times> dispatch_world" where
  "map_arguments env cl s f w =
     (case dartplant_invocation_get_arguments_descriptor env f w of
        (Inl _, w1) \<Rightarrow> (False, f, w1)
      | (Inr info, w1) \<Rightarrow>
          if \<not> descriptor_shape_ok info \<or> \<not> descriptor_matches s info then (False, f, w1)
          else (case actuals s info (ReadDescriptorNamedEntry env f w1) of
                  None \<Rightarrow> (False, f, w1)
                | Some acc \<Rightarrow>
                    (case locate_type_arguments env info f w1 of
                       (False, f1) \<Rightarrow> (False, f1, w1)
                     | (True, f1) \<Rightarrow>
                         (case prove_closure_call env cl f1 w1 of
                            (False, w2) \<Rightarrow> (False, f1, w2)
                          | (True, w2) \<Rightarrow>
                              (case finish_mapping cl info acc f1 of (ok, f2) \<Rightarrow> (ok, f2, w2))))))"

definition EnsureClosureArgumentMapping :: "dispatch_env \<Rightarrow> dispatch_frame \<Rightarrow> dispatch_world \<Rightarrow>
    bool \<times> dispatch_frame \<times> dispatch_world" where
  "EnsureClosureArgumentMapping env f w =
     (case fr_layout f of
        None \<Rightarrow> (True, f, w)
      | Some cl \<Rightarrow>
          (case cl_closure_signature cl of
             None \<Rightarrow> (True, f, w)
           | Some s \<Rightarrow>
               if fr_mapping_attempted f then (fr_mapping_valid f, f, w)
               else if \<not> signature_ok cl s then (False, f\<lparr>fr_mapping_attempted := True\<rparr>, w)
               else map_arguments env cl s (f\<lparr>fr_mapping_attempted := True\<rparr>) w))"

definition active_parameters :: "dispatch_frame \<Rightarrow> parameter_layout list option" where
  "active_parameters f =
     (if fr_mapping_valid f then Some (fr_mapped f) else map_option cl_parameters (fr_layout f))"

definition ActiveParameters :: "dispatch_env \<Rightarrow> dispatch_frame \<Rightarrow> dispatch_world \<Rightarrow>
    parameter_layout list option \<times> dispatch_frame \<times> dispatch_world" where
  "ActiveParameters env f w =
     (case EnsureClosureArgumentMapping env f w of
        (ok, f', w') \<Rightarrow> (if ok then active_parameters f' else None, f', w'))"

end
