(* ===== verification/Invocation.thy ===== *)
theory Invocation
  imports Closure_Arguments
begin

text \<open>
  The invocation interface a callback works with (\<^verbatim>\<open>src/interceptor/invocation.cpp\<close>): reading
  and writing arguments, results, result pairs and retained objects, through the verified layout
  or the raw profile, and deciding whether the original runs. An operation returns its answer
  with the frame and the world it leaves; a value the code writes through an out-pointer only on
  success is the right half of the answer.
\<close>

type_synonym 'a answer = "(dp_status + 'a) \<times> dispatch_frame \<times> dispatch_world"
type_synonym outcome = "dp_status \<times> dispatch_frame \<times> dispatch_world"

section \<open>Semantic values\<close>

definition generation_is_current :: "registry \<Rightarrow> dispatch_frame \<Rightarrow> bool" where
  "generation_is_current s f =
     (case fr_generation f of None \<Rightarrow> True | Some g \<Rightarrow> hr_generation s g = fr_expected f)"

definition ActiveValidatedNullValue :: "registry \<Rightarrow> dispatch_frame \<Rightarrow> u64" where
  "ActiveValidatedNullValue s f = (if generation_is_current s f then fr_null_value f else 0)"

text \<open>The true and the false object, when they are known and distinct.\<close>

definition ActiveValidatedBoolValues :: "registry \<Rightarrow> dispatch_frame \<Rightarrow> (u64 \<times> u64) option" where
  "ActiveValidatedBoolValues s f =
     (if \<not> generation_is_current s f \<or> fr_true_value f = 0 \<or> fr_false_value f = 0 \<or>
         fr_true_value f = fr_false_value f then None
      else Some (fr_true_value f, fr_false_value f))"

definition bool_value :: "u64 \<Rightarrow> dp_value" where
  "bool_value b = \<lparr>val_kind = ValBool, val_reserved = 0, val_raw = b\<rparr>"

definition RefineTaggedSemanticValue :: "registry \<Rightarrow> dispatch_frame \<Rightarrow> dp_value \<Rightarrow> dp_value" where
  "RefineTaggedSemanticValue s f v =
     (if val_kind v \<noteq> ValHeapObject then v
      else case ActiveValidatedBoolValues s f of
             None \<Rightarrow> v
           | Some (t, e) \<Rightarrow> if val_raw v = t then bool_value 1
                           else if val_raw v = e then bool_value 0 else v)"

definition word_answer :: "dp_status \<times> u64 nullable \<Rightarrow> dp_status + u64" where
  "word_answer r = (case r of (DP_OK, Some w) \<Rightarrow> Inr w | (status, _) \<Rightarrow> Inl status)"

definition EncodeGpSemanticValue :: "registry \<Rightarrow> dispatch_frame \<Rightarrow> dp_value nullable \<Rightarrow> bool \<Rightarrow>
    dp_status + u64" where
  "EncodeGpSemanticValue s f value is_tagged =
     (case value of
        None \<Rightarrow> Inl DP_INVALID_ARGUMENT
      | Some v \<Rightarrow>
          if val_kind v \<noteq> ValBool
          then word_answer (encode_gp_word (Some v) is_tagged (ActiveValidatedNullValue s f) (Some 0))
          else if \<not> is_tagged then Inl DP_UNSUPPORTED_ABI
          else if val_raw v > 1 then Inl DP_PROFILE_MISMATCH
          else case ActiveValidatedBoolValues s f of
                 None \<Rightarrow> Inl DP_UNSUPPORTED_ABI
               | Some (t, e) \<Rightarrow>
                   word_answer (encode_gp_word
                     (Some \<lparr>val_kind = ValHeapObject, val_reserved = 0,
                            val_raw = (if val_raw v \<noteq> 0 then t else e)\<rparr>)
                     True (ActiveValidatedNullValue s f) (Some 0)))"

definition decode_tagged :: "registry \<Rightarrow> dispatch_frame \<Rightarrow> bool \<Rightarrow> u64 \<Rightarrow> dp_value" where
  "decode_tagged s f is_tagged raw =
     RefineTaggedSemanticValue s f (decode_gp_word raw is_tagged (ActiveValidatedNullValue s f))"

section \<open>Locations of the raw profile\<close>

definition ReadLocation :: "dispatch_frame \<Rightarrow> legacy_location \<Rightarrow> u64 option" where
  "ReadLocation f loc =
     (if ll_kind loc = LegacyFp
      then if ll_index loc \<ge> 32 then None else Some (cx_v (fr_context f) (unat (ll_index loc)))
      else if ll_index loc \<ge> 31 then None else Some (cx_x (fr_context f) (unat (ll_index loc))))"

definition set_fp_register :: "nat \<Rightarrow> u64 \<Rightarrow> dispatch_frame \<Rightarrow> dispatch_frame" where
  "set_fp_register r v f =
     f\<lparr>fr_context := (fr_context f)\<lparr>cx_v := (cx_v (fr_context f))(r := v)\<rparr>\<rparr>"

definition WriteLocation :: "legacy_location \<Rightarrow> u64 \<Rightarrow> dispatch_frame \<Rightarrow> dispatch_frame option" where
  "WriteLocation loc v f =
     (if ll_kind loc = LegacyFp
      then if ll_index loc \<ge> 32 then None else Some (set_fp_register (unat (ll_index loc)) v f)
      else if ll_index loc \<ge> 31 then None else Some (set_register (unat (ll_index loc)) v f))"

definition decode_raw_location :: "registry \<Rightarrow> dispatch_frame \<Rightarrow> bool \<Rightarrow> legacy_location \<Rightarrow>
    dp_status + dp_value" where
  "decode_raw_location s f is_tagged loc =
     (case ReadLocation f loc of
        None \<Rightarrow> Inl DP_PROFILE_MISMATCH
      | Some raw \<Rightarrow> Inr (if ll_kind loc = LegacyFp then decode_fp_word raw
                        else decode_tagged s f is_tagged raw))"

definition encode_raw_location :: "registry \<Rightarrow> bool \<Rightarrow> legacy_location \<Rightarrow> dp_value nullable \<Rightarrow>
    dispatch_frame \<Rightarrow> dp_status \<times> dispatch_frame" where
  "encode_raw_location s is_tagged loc value f =
     (case (if ll_kind loc = LegacyFp then word_answer (encode_fp_word value (Some 0))
            else EncodeGpSemanticValue s f value is_tagged) of
        Inl status \<Rightarrow> (status, f)
      | Inr raw \<Rightarrow> (case WriteLocation loc raw f of
                     None \<Rightarrow> (DP_PROFILE_MISMATCH, f)
                   | Some f' \<Rightarrow> (DP_OK, f')))"

section \<open>Slots of the verified layout\<close>

definition slot_location :: "parameter_layout \<Rightarrow> nat \<Rightarrow> abi_location" where
  "slot_location p i = vl_locations (pl_location p) ! i"

definition slot_ok :: "parameter_layout \<Rightarrow> bool" where
  "slot_ok p \<longleftrightarrow> vl_count (pl_location p) = 1 \<and> loc_kind (slot_location p 0) \<noteq> LocUnknown"

definition decode_word :: "registry \<Rightarrow> dispatch_frame \<Rightarrow> representation \<Rightarrow> u64 \<Rightarrow>
    dp_status + dp_value" where
  "decode_word s f rep raw =
     (case rep of
        RepTagged \<Rightarrow> Inr (decode_tagged s f True raw)
      | RepUnboxedInt64 \<Rightarrow> Inr \<lparr>val_kind = ValInt64, val_reserved = 0, val_raw = raw\<rparr>
      | RepUnboxedDouble \<Rightarrow> Inr (decode_fp_word raw)
      | _ \<Rightarrow> Inl DP_UNSUPPORTED_ABI)"

definition DecodeVerifiedValue :: "dispatch_env \<Rightarrow> dispatch_frame \<Rightarrow> dispatch_world \<Rightarrow>
    parameter_layout \<Rightarrow> bool \<Rightarrow> dp_status + dp_value" where
  "DecodeVerifiedValue env f w p is_result =
     (if pl_representation p = RepPairOfTagged then Inl DP_UNSUPPORTED_ABI
      else if \<not> slot_ok p then Inl DP_PROFILE_MISMATCH
      else case ReadVerifiedLocation env f w (slot_location p 0) is_result of
             None \<Rightarrow> Inl DP_PROFILE_MISMATCH
           | Some raw \<Rightarrow> decode_word (dw_registry w) f (pl_representation p) raw)"

definition encode_word :: "registry \<Rightarrow> dispatch_frame \<Rightarrow> representation \<Rightarrow> dp_value \<Rightarrow>
    dp_status + u64" where
  "encode_word s f rep v =
     (case rep of
        RepTagged \<Rightarrow> EncodeGpSemanticValue s f (Some v) True
      | RepUnboxedInt64 \<Rightarrow> if val_kind v \<noteq> ValInt64 then Inl DP_PROFILE_MISMATCH else Inr (val_raw v)
      | RepUnboxedDouble \<Rightarrow> if val_kind v \<noteq> ValDouble then Inl DP_PROFILE_MISMATCH else Inr (val_raw v)
      | _ \<Rightarrow> Inl DP_UNSUPPORTED_ABI)"

definition EncodeVerifiedValue :: "dispatch_env \<Rightarrow> parameter_layout \<Rightarrow> dp_value nullable \<Rightarrow> bool \<Rightarrow>
    dispatch_frame \<Rightarrow> dispatch_world \<Rightarrow> outcome" where
  "EncodeVerifiedValue env p value is_result f w =
     (if pl_representation p = RepPairOfTagged then (DP_UNSUPPORTED_ABI, f, w)
      else case value of
             None \<Rightarrow> (DP_PROFILE_MISMATCH, f, w)
           | Some v \<Rightarrow>
               if \<not> slot_ok p then (DP_PROFILE_MISMATCH, f, w)
               else (case encode_word (dw_registry w) f (pl_representation p) v of
                       Inl status \<Rightarrow> (status, f, w)
                     | Inr raw \<Rightarrow>
                         (case WriteVerifiedLocation env (slot_location p 0) is_result raw f w of
                            (ok, f', w') \<Rightarrow> ((if ok then DP_OK else DP_PROFILE_MISMATCH), f', w'))))"

definition pair_ok :: "parameter_layout \<Rightarrow> bool" where
  "pair_ok p \<longleftrightarrow> pl_representation p = RepPairOfTagged \<and> vl_count (pl_location p) = 2"

definition DecodeVerifiedTaggedPair :: "dispatch_env \<Rightarrow> dispatch_frame \<Rightarrow> dispatch_world \<Rightarrow>
    parameter_layout \<Rightarrow> bool \<Rightarrow> dp_status + dp_value \<times> dp_value" where
  "DecodeVerifiedTaggedPair env f w p is_result =
     (if \<not> pair_ok p then Inl DP_UNSUPPORTED_ABI
      else case (ReadVerifiedLocation env f w (slot_location p 0) is_result,
                 ReadVerifiedLocation env f w (slot_location p 1) is_result) of
             (Some a, Some b) \<Rightarrow>
               Inr (decode_tagged (dw_registry w) f True a, decode_tagged (dw_registry w) f True b)
           | _ \<Rightarrow> Inl DP_PROFILE_MISMATCH)"

text \<open>Both words are encoded before the first is written.\<close>

definition EncodeVerifiedTaggedPair :: "dispatch_env \<Rightarrow> parameter_layout \<Rightarrow>
    (dp_value \<times> dp_value) nullable \<Rightarrow> bool \<Rightarrow> dispatch_frame \<Rightarrow> dispatch_world \<Rightarrow> outcome" where
  "EncodeVerifiedTaggedPair env p value is_result f w =
     (case value of
        None \<Rightarrow> (DP_UNSUPPORTED_ABI, f, w)
      | Some (v1, v2) \<Rightarrow>
          if \<not> pair_ok p then (DP_UNSUPPORTED_ABI, f, w)
          else (case (EncodeGpSemanticValue (dw_registry w) f (Some v1) True,
                      EncodeGpSemanticValue (dw_registry w) f (Some v2) True) of
                  (Inl status, _) \<Rightarrow> (status, f, w)
                | (Inr _, Inl status) \<Rightarrow> (status, f, w)
                | (Inr a, Inr b) \<Rightarrow>
                    (case WriteVerifiedLocation env (slot_location p 0) is_result a f w of
                       (False, f1, w1) \<Rightarrow> (DP_PROFILE_MISMATCH, f1, w1)
                     | (True, f1, w1) \<Rightarrow>
                         (case WriteVerifiedLocation env (slot_location p 1) is_result b f1 w1 of
                            (ok, f2, w2) \<Rightarrow> ((if ok then DP_OK else DP_PROFILE_MISMATCH), f2, w2)))))"

section \<open>Who was called\<close>

definition dartplant_invocation_logical_method :: "dispatch_frame \<Rightarrow> hook_method option" where
  "dartplant_invocation_logical_method f = (if fr_ambiguous f then None else fr_method f)"

definition dartplant_invocation_code_target_address :: "registry \<Rightarrow> dispatch_frame \<Rightarrow> ptr" where
  "dartplant_invocation_code_target_address s f =
     (case fr_target f of None \<Rightarrow> 0 | Some t \<Rightarrow> et_entry (tw_target (hr_world s) t))"

definition dartplant_invocation_get_code_alias :: "dispatch_frame \<Rightarrow> u32 \<Rightarrow> dp_status + method_identity" where
  "dartplant_invocation_get_code_alias f i =
     (if unat i \<ge> length (fr_aliases f) then Inl DP_INVALID_ARGUMENT
      else Inr (fr_aliases f ! unat i))"

section \<open>Raw registers\<close>

definition dartplant_invocation_get_gp_register :: "dispatch_frame \<Rightarrow> u32 \<Rightarrow> dp_status + u64" where
  "dartplant_invocation_get_gp_register f i =
     (if i \<ge> 31 then Inl DP_INVALID_ARGUMENT
      else if fr_phase f = PhaseException then Inl DP_INVALID_INVOCATION_PHASE
      else Inr (cx_x (fr_context f) (unat i)))"

definition dartplant_invocation_get_fp_register :: "dispatch_frame \<Rightarrow> u32 \<Rightarrow> dp_status + u64" where
  "dartplant_invocation_get_fp_register f i =
     (if i \<ge> 32 then Inl DP_INVALID_ARGUMENT
      else if fr_phase f = PhaseException then Inl DP_INVALID_INVOCATION_PHASE
      else Inr (cx_v (fr_context f) (unat i)))"

definition dartplant_invocation_set_fp_register :: "u32 \<Rightarrow> u64 \<Rightarrow> dispatch_frame \<Rightarrow>
    dp_status \<times> dispatch_frame" where
  "dartplant_invocation_set_fp_register i v f =
     (if i \<ge> 32 then (DP_INVALID_ARGUMENT, f)
      else if fr_phase f = PhaseException then (DP_INVALID_INVOCATION_PHASE, f)
      else (DP_OK, set_fp_register (unat i) v f))"

definition dartplant_invocation_set_gp_register :: "u32 \<Rightarrow> u64 \<Rightarrow> dispatch_frame \<Rightarrow>
    dp_status \<times> dispatch_frame" where
  "dartplant_invocation_set_gp_register i v f =
     (if i \<ge> 31 then (DP_INVALID_ARGUMENT, f)
      else if fr_phase f = PhaseException then (DP_INVALID_INVOCATION_PHASE, f)
      else (DP_OK, set_register (unat i) v f))"

section \<open>Receiver and type arguments\<close>

definition dartplant_invocation_get_closure_receiver :: "dispatch_env \<Rightarrow> dispatch_frame \<Rightarrow>
    dispatch_world \<Rightarrow> dp_status + dp_value" where
  "dartplant_invocation_get_closure_receiver env f w =
     (if \<not> ClosureReceiverAccessEnabled f then Inl DP_UNSUPPORTED_ABI
      else if fr_phase f \<noteq> PhaseEnter then Inl DP_INVALID_INVOCATION_PHASE
      else case ReadClosureReceiverRaw env f w of
             None \<Rightarrow> Inl DP_PROFILE_MISMATCH
           | Some raw \<Rightarrow> Inr (decode_tagged (dw_registry w) f True raw))"

definition dartplant_invocation_get_closure_type_arguments :: "dispatch_env \<Rightarrow> dispatch_frame \<Rightarrow>
    dispatch_world \<Rightarrow> dp_value answer" where
  "dartplant_invocation_get_closure_type_arguments env f w =
     (if fr_phase f \<noteq> PhaseEnter then (Inl DP_INVALID_INVOCATION_PHASE, f, w)
      else case EnsureClosureArgumentMapping env f w of
        (ok, f', w') \<Rightarrow>
          if \<not> ok \<or> loc_kind (fr_type_arguments f') = LocUnknown then (Inl DP_UNSUPPORTED_ABI, f', w')
          else case ReadVerifiedLocation env f' w' (fr_type_arguments f') False of
                 None \<Rightarrow> (Inl DP_PROFILE_MISMATCH, f', w')
               | Some raw \<Rightarrow> (Inr (decode_tagged (dw_registry w') f' True raw), f', w'))"

text \<open>
  A handle on an object of the call. The embedder's answers are read at the clock: what
  \<open>retain\<close> gives for the word, and what \<open>classify\<close> gives for the retained handle.
\<close>

definition retain_object :: "dispatch_env \<Rightarrow> object_strength \<Rightarrow> u64 \<Rightarrow> dispatch_frame \<Rightarrow>
    dispatch_world \<Rightarrow> (dp_status + object_handle) \<times> dispatch_world" where
  "retain_object env strength raw f w =
     (case fr_adapter f of
        None \<Rightarrow> (Inl DP_VM_BRIDGE_UNAVAILABLE, w)
      | Some a \<Rightarrow>
          let retained = ev_retain env (dw_clock w) raw;
              classified = ev_classify env (dw_clock w) (snd retained)
          in (case VmAdapterRetainObject a (ev_thread env) strength retained classified
                     (hr_adapter (dw_registry w) a) of
                (r, _, v) \<Rightarrow> (r, tick (set_registry (set_adapter a v (dw_registry w)) w))))"

definition rooted_frame :: "dispatch_frame \<Rightarrow> bool" where
  "rooted_frame f \<longleftrightarrow> fr_adapter f \<noteq> None \<and> fr_scope_entered f \<and> fr_bridge_active f"

definition dartplant_invocation_retain_closure_type_arguments :: "dispatch_env \<Rightarrow> dispatch_frame \<Rightarrow>
    dispatch_world \<Rightarrow> object_handle answer" where
  "dartplant_invocation_retain_closure_type_arguments env f w =
     (case dartplant_invocation_get_closure_type_arguments env f w of
        (Inl status, f', w') \<Rightarrow> (Inl status, f', w')
      | (Inr v, f', w') \<Rightarrow>
          if val_kind v \<noteq> ValHeapObject \<or> \<not> rooted_frame f'
          then (Inl DP_VM_BRIDGE_UNAVAILABLE, f', w')
          else (case retain_object env Strong (val_raw v) f' w' of (r, w'') \<Rightarrow> (r, f', w'')))"

definition dartplant_invocation_get_closure_type_argument :: "dispatch_env \<Rightarrow> dispatch_frame \<Rightarrow>
    dispatch_world \<Rightarrow> u32 \<Rightarrow> dp_status + dp_value" where
  "dartplant_invocation_get_closure_type_argument env f w i =
     (if fr_phase f \<noteq> PhaseEnter then Inl DP_INVALID_INVOCATION_PHASE
      else if fr_type_root_count f = 0 then Inl DP_UNSUPPORTED_ABI
      else if unat i \<ge> fr_type_root_count f then Inl DP_INVALID_ARGUMENT
      else if fr_lease f = 0 \<or> \<not> rooted_frame f then Inl DP_VM_BRIDGE_UNAVAILABLE
      else case root_read env f w (fr_type_root_base f + unat i) of
             Inl status \<Rightarrow> Inl status
           | Inr raw \<Rightarrow> Inr (decode_tagged (dw_registry w) f True raw))"

definition ReadActiveExceptionObject :: "dispatch_env \<Rightarrow> dispatch_frame \<Rightarrow> dispatch_world \<Rightarrow>
    dp_status + dp_value" where
  "ReadActiveExceptionObject env f w =
     (if fr_phase f \<noteq> PhaseException then Inl DP_INVALID_INVOCATION_PHASE
      else case fr_adapter f of
             None \<Rightarrow> Inl DP_INVALID_INVOCATION_PHASE
           | Some a \<Rightarrow>
               let status = ReadActiveObject True (ev_thread env) (ev_status env (dw_clock w))
                              (hr_adapter (dw_registry w) a)
               in if status \<noteq> DP_OK then Inl status
                  else Inr (decode_gp_word (ev_element env (dw_clock w)) True
                              (ActiveValidatedNullValue (dw_registry w) f)))"

section \<open>Arguments\<close>

definition raw_argument :: "dispatch_frame \<Rightarrow> u32 \<Rightarrow> legacy_location" where
  "raw_argument f i =
     (case fr_profile f of
        None \<Rightarrow> \<lparr>ll_kind = LegacyGp, ll_index = 0\<rparr>
      | Some p \<Rightarrow> lp_arguments p ! unat i)"

definition raw_result :: "dispatch_frame \<Rightarrow> legacy_location" where
  "raw_result f =
     (case fr_profile f of None \<Rightarrow> \<lparr>ll_kind = LegacyGp, ll_index = 0\<rparr> | Some p \<Rightarrow> lp_result p)"

definition argument_accessible :: "dispatch_frame \<Rightarrow> u32 \<Rightarrow> bool" where
  "argument_accessible f i \<longleftrightarrow> ArgumentAccessEnabled f \<and> i < dartplant_invocation_argument_count f"

text \<open>The layout's parameter of an index, with the mapping of a closure call made first.\<close>

definition active_parameter :: "dispatch_env \<Rightarrow> u32 \<Rightarrow> dispatch_frame \<Rightarrow> dispatch_world \<Rightarrow>
    parameter_layout option \<times> dispatch_frame \<times> dispatch_world" where
  "active_parameter env i f w =
     (case ActiveParameters env f w of
        (ps, f', w') \<Rightarrow>
          ((case ps of None \<Rightarrow> None
            | Some ps \<Rightarrow> if unat i \<ge> length ps then None else Some (ps ! unat i)), f', w'))"

definition dartplant_invocation_get_argument :: "dispatch_env \<Rightarrow> u32 \<Rightarrow> dispatch_frame \<Rightarrow>
    dispatch_world \<Rightarrow> dp_value answer" where
  "dartplant_invocation_get_argument env i f w =
     (if fr_phase f = PhaseException then (Inl DP_INVALID_INVOCATION_PHASE, f, w)
      else if \<not> argument_accessible f i then (Inl DP_UNSUPPORTED_ABI, f, w)
      else if HasVerifiedCallLayout f then
        (case active_parameter env i f w of
           (None, f', w') \<Rightarrow> (Inl DP_PROFILE_MISMATCH, f', w')
         | (Some p, f', w') \<Rightarrow> (DecodeVerifiedValue env f' w' p False, f', w'))
      else (decode_raw_location (dw_registry w) f (LegacyTaggedArgumentAccessEnabled f)
              (raw_argument f i), f, w))"

definition dartplant_invocation_set_argument :: "dispatch_env \<Rightarrow> u32 \<Rightarrow> dp_value nullable \<Rightarrow>
    dispatch_frame \<Rightarrow> dispatch_world \<Rightarrow> outcome" where
  "dartplant_invocation_set_argument env i value f w =
     (if \<not> argument_accessible f i \<or> value = None then (DP_UNSUPPORTED_ABI, f, w)
      else if fr_phase f \<noteq> PhaseEnter then (DP_INVALID_INVOCATION_PHASE, f, w)
      else if HasVerifiedCallLayout f then
        (case active_parameter env i f w of
           (None, f', w') \<Rightarrow> (DP_PROFILE_MISMATCH, f', w')
         | (Some p, f', w') \<Rightarrow> EncodeVerifiedValue env p value False f' w')
      else (case encode_raw_location (dw_registry w) (LegacyTaggedArgumentAccessEnabled f)
                   (raw_argument f i) value f of
              (status, f') \<Rightarrow> (status, f', w)))"

definition ArgumentIsTagged :: "dispatch_env \<Rightarrow> u32 \<Rightarrow> dispatch_frame \<Rightarrow> dispatch_world \<Rightarrow>
    bool \<times> dispatch_frame \<times> dispatch_world" where
  "ArgumentIsTagged env i f w =
     (if HasVerifiedCallLayout f then
        (case active_parameter env i f w of
           (None, f', w') \<Rightarrow> (False, f', w')
         | (Some p, f', w') \<Rightarrow> (pl_representation p = RepTagged, f', w'))
      else (LegacyTaggedArgumentAccessEnabled f, f, w))"

text \<open>The word of an object slot, as the retaining and the setting operations address it.\<close>

definition object_raw :: "dispatch_env \<Rightarrow> parameter_layout option \<Rightarrow> legacy_location \<Rightarrow> bool \<Rightarrow>
    dispatch_frame \<Rightarrow> dispatch_world \<Rightarrow> u64 option" where
  "object_raw env slot loc is_result f w =
     (if HasVerifiedCallLayout f
      then case slot of
             None \<Rightarrow> None
           | Some p \<Rightarrow> if vl_count (pl_location p) \<noteq> 1 then None
                       else ReadVerifiedLocation env f w (slot_location p 0) is_result
      else if ll_kind loc = LegacyFp then None else ReadLocation f loc)"

definition dartplant_invocation_retain_argument_object :: "dispatch_env \<Rightarrow> u32 \<Rightarrow> object_strength \<Rightarrow>
    dispatch_frame \<Rightarrow> dispatch_world \<Rightarrow> object_handle answer" where
  "dartplant_invocation_retain_argument_object env i strength f w =
     (if fr_phase f = PhaseException then (Inl DP_INVALID_INVOCATION_PHASE, f, w)
      else case ArgumentIsTagged env i f w of
        (tagged, f1, w1) \<Rightarrow>
          if \<not> tagged \<or> i \<ge> dartplant_invocation_argument_count f then (Inl DP_UNSUPPORTED_ABI, f1, w1)
          else if fr_adapter f1 = None then (Inl DP_VM_BRIDGE_UNAVAILABLE, f1, w1)
          else (case active_parameter env i f1 w1 of
                  (slot, f2, w2) \<Rightarrow>
                    (case object_raw env slot (raw_argument f2 i) False f2 w2 of
                       None \<Rightarrow> (Inl DP_PROFILE_MISMATCH, f2, w2)
                     | Some raw \<Rightarrow>
                         (case retain_object env strength raw f2 w2 of (r, w3) \<Rightarrow> (r, f2, w3)))))"

definition write_object :: "dispatch_env \<Rightarrow> parameter_layout option \<Rightarrow> legacy_location \<Rightarrow> bool \<Rightarrow> u64 \<Rightarrow>
    dispatch_frame \<Rightarrow> dispatch_world \<Rightarrow> outcome" where
  "write_object env slot loc is_result raw f w =
     (if HasVerifiedCallLayout f
      then case slot of
             None \<Rightarrow> (DP_PROFILE_MISMATCH, f, w)
           | Some p \<Rightarrow>
               if vl_count (pl_location p) \<noteq> 1 then (DP_PROFILE_MISMATCH, f, w)
               else (case WriteVerifiedLocation env (slot_location p 0) is_result raw f w of
                       (ok, f', w') \<Rightarrow> ((if ok then DP_OK else DP_PROFILE_MISMATCH), f', w'))
      else if ll_kind loc = LegacyFp then (DP_PROFILE_MISMATCH, f, w)
      else case WriteLocation loc raw f of
             None \<Rightarrow> (DP_PROFILE_MISMATCH, f, w)
           | Some f' \<Rightarrow> (DP_OK, f', w))"

text \<open>The word of a handle: valid for the adapter, then read by the embedder.\<close>

definition handle_word :: "dispatch_env \<Rightarrow> object_handle \<Rightarrow> nat \<Rightarrow> dispatch_world \<Rightarrow> dp_status + u64" where
  "handle_word env h a w =
     (let v = hr_adapter (dw_registry w) a;
          answer = ev_raw env (dw_clock w) (oh_backend h);
          valid = VmAdapterCheckHandle a (ev_thread env) h v;
          read = VmAdapterSetRaw (ev_thread env) (fst answer) h v
      in if valid \<noteq> DP_OK then Inl valid
         else if read \<noteq> DP_OK then Inl read
         else Inr (snd answer))"

definition dartplant_invocation_set_argument_object :: "dispatch_env \<Rightarrow> u32 \<Rightarrow> object_handle \<Rightarrow>
    dispatch_frame \<Rightarrow> dispatch_world \<Rightarrow> outcome" where
  "dartplant_invocation_set_argument_object env i h f w =
     (case ArgumentIsTagged env i f w of
        (tagged, f1, w1) \<Rightarrow>
          if \<not> tagged \<or> i \<ge> dartplant_invocation_argument_count f then (DP_INVALID_ARGUMENT, f1, w1)
          else if fr_phase f1 \<noteq> PhaseEnter then (DP_INVALID_INVOCATION_PHASE, f1, w1)
          else (case fr_adapter f1 of
                  None \<Rightarrow> (DP_VM_BRIDGE_UNAVAILABLE, f1, w1)
                | Some a \<Rightarrow>
                    (case handle_word env h a w1 of
                       Inl status \<Rightarrow> (status, f1, w1)
                     | Inr raw \<Rightarrow>
                         (case active_parameter env i f1 (tick w1) of
                            (slot, f2, w2) \<Rightarrow>
                              write_object env slot (raw_argument f2 i) False raw f2 w2))))"

section \<open>Results\<close>

definition result_readable :: "dispatch_frame \<Rightarrow> bool" where
  "result_readable f \<longleftrightarrow> fr_phase f = PhaseLeave \<or> fr_skip_original f"

definition ResultIsTagged :: "dispatch_frame \<Rightarrow> bool" where
  "ResultIsTagged f =
     (case fr_layout f of
        Some cl \<Rightarrow> pl_representation (cl_result cl) = RepTagged
      | None \<Rightarrow> LegacyTaggedResultAccessEnabled f)"

text \<open>A result set while entering replaces the call.\<close>

definition replace_call :: "dispatch_frame \<Rightarrow> dispatch_frame" where
  "replace_call f =
     (if fr_phase f = PhaseEnter then f\<lparr>fr_skip_original := True, fr_call_original := False\<rparr> else f)"

definition dartplant_invocation_get_result :: "dispatch_env \<Rightarrow> dispatch_frame \<Rightarrow> dispatch_world \<Rightarrow>
    dp_status + dp_value" where
  "dartplant_invocation_get_result env f w =
     (if \<not> ResultAccessEnabled f then Inl DP_UNSUPPORTED_ABI
      else if \<not> result_readable f then Inl DP_INVALID_INVOCATION_PHASE
      else case fr_layout f of
             Some cl \<Rightarrow> DecodeVerifiedValue env f w (cl_result cl) True
           | None \<Rightarrow> decode_raw_location (dw_registry w) f (LegacyTaggedResultAccessEnabled f)
                       (raw_result f))"

text \<open>The phase is tested after the location has been written.\<close>

definition dartplant_invocation_set_result :: "dispatch_env \<Rightarrow> dp_value nullable \<Rightarrow> dispatch_frame \<Rightarrow>
    dispatch_world \<Rightarrow> outcome" where
  "dartplant_invocation_set_result env value f w =
     (if \<not> ResultAccessEnabled f \<or> value = None then (DP_UNSUPPORTED_ABI, f, w)
      else case (case fr_layout f of
                   Some cl \<Rightarrow> EncodeVerifiedValue env (cl_result cl) value True f w
                 | None \<Rightarrow> (case encode_raw_location (dw_registry w) (LegacyTaggedResultAccessEnabled f)
                                   (raw_result f) value f of (status, f') \<Rightarrow> (status, f', w))) of
             (status, f', w') \<Rightarrow>
               if status \<noteq> DP_OK then (status, f', w')
               else if fr_phase f' = PhaseException then (DP_INVALID_INVOCATION_PHASE, f', w')
               else (DP_OK, replace_call f', w'))"

definition dartplant_invocation_get_result_pair :: "dispatch_env \<Rightarrow> dispatch_frame \<Rightarrow> dispatch_world \<Rightarrow>
    dp_status + dp_value \<times> dp_value" where
  "dartplant_invocation_get_result_pair env f w =
     (case fr_layout f of
        None \<Rightarrow> Inl DP_UNSUPPORTED_ABI
      | Some cl \<Rightarrow>
          if \<not> result_readable f then Inl DP_INVALID_INVOCATION_PHASE
          else DecodeVerifiedTaggedPair env f w (cl_result cl) True)"

definition dartplant_invocation_set_result_pair :: "dispatch_env \<Rightarrow> (dp_value \<times> dp_value) nullable \<Rightarrow>
    dispatch_frame \<Rightarrow> dispatch_world \<Rightarrow> outcome" where
  "dartplant_invocation_set_result_pair env value f w =
     (case fr_layout f of
        None \<Rightarrow> (DP_UNSUPPORTED_ABI, f, w)
      | Some cl \<Rightarrow>
          if value = None then (DP_UNSUPPORTED_ABI, f, w)
          else if fr_phase f = PhaseException then (DP_INVALID_INVOCATION_PHASE, f, w)
          else (case EncodeVerifiedTaggedPair env (cl_result cl) value True f w of
                  (status, f', w') \<Rightarrow>
                    if status \<noteq> DP_OK then (status, f', w') else (DP_OK, replace_call f', w')))"

definition dartplant_invocation_retain_result_object :: "dispatch_env \<Rightarrow> object_strength \<Rightarrow>
    dispatch_frame \<Rightarrow> dispatch_world \<Rightarrow> object_handle answer" where
  "dartplant_invocation_retain_result_object env strength f w =
     (if \<not> ResultIsTagged f then (Inl DP_UNSUPPORTED_ABI, f, w)
      else if fr_adapter f = None then (Inl DP_VM_BRIDGE_UNAVAILABLE, f, w)
      else if \<not> result_readable f then (Inl DP_INVALID_INVOCATION_PHASE, f, w)
      else case object_raw env (map_option cl_result (fr_layout f)) (raw_result f) True f w of
             None \<Rightarrow> (Inl DP_PROFILE_MISMATCH, f, w)
           | Some raw \<Rightarrow> (case retain_object env strength raw f w of (r, w') \<Rightarrow> (r, f, w')))"

definition dartplant_invocation_set_result_object :: "dispatch_env \<Rightarrow> object_handle \<Rightarrow> dispatch_frame \<Rightarrow>
    dispatch_world \<Rightarrow> outcome" where
  "dartplant_invocation_set_result_object env h f w =
     (if \<not> ResultIsTagged f then (DP_INVALID_ARGUMENT, f, w)
      else if fr_phase f = PhaseException then (DP_INVALID_INVOCATION_PHASE, f, w)
      else case fr_adapter f of
             None \<Rightarrow> (DP_VM_BRIDGE_UNAVAILABLE, f, w)
           | Some a \<Rightarrow>
               (case handle_word env h a w of
                  Inl status \<Rightarrow> (status, f, w)
                | Inr raw \<Rightarrow>
                    (case write_object env (map_option cl_result (fr_layout f)) (raw_result f) True raw
                            f (tick w) of
                       (status, f', w') \<Rightarrow>
                         if status \<noteq> DP_OK then (status, f', w') else (DP_OK, replace_call f', w'))))"

section \<open>The original\<close>

definition dartplant_invocation_skip_original :: "dispatch_frame \<Rightarrow> dp_status \<times> dispatch_frame" where
  "dartplant_invocation_skip_original f =
     (if fr_phase f \<noteq> PhaseEnter then (DP_INVALID_INVOCATION_PHASE, f)
      else (DP_OK, f\<lparr>fr_skip_original := True, fr_call_original := False\<rparr>))"

text \<open>
  The synchronous call of the original is assembly: \<open>ev_invoke\<close> is what it does to the saved
  registers and the world, or its failure.
\<close>

definition dartplant_invocation_call_original :: "(ptr \<Rightarrow> dispatch_frame \<Rightarrow> dispatch_world \<Rightarrow>
    (dispatch_frame \<times> dispatch_world) option) \<Rightarrow> dispatch_frame \<Rightarrow> dispatch_world \<Rightarrow> outcome" where
  "dartplant_invocation_call_original invoke f w =
     (if fr_phase f \<noteq> PhaseEnter then (DP_INVALID_INVOCATION_PHASE, f, w)
      else if fr_original_called f then (DP_INVALID_INVOCATION_PHASE, f, w)
      else case fr_hook f of
             None \<Rightarrow> (DP_HOOK_FAILED, f, w)
           | Some h \<Rightarrow>
               if hk_backup (hr_hook (dw_registry w) h) = 0 then (DP_HOOK_FAILED, f, w)
               else if fr_bridge_active f then (DP_UNSUPPORTED_ABI, f, w)
               else (case invoke (hk_backup (hr_hook (dw_registry w) h)) f w of
                       None \<Rightarrow> (DP_HOOK_FAILED, f, w)
                     | Some (f', w') \<Rightarrow>
                         (DP_OK, f'\<lparr>fr_original_called := True, fr_call_original := True,
                                   fr_skip_original := True\<rparr>, w')))"

end
