(* ===== verification/Closure_Arguments_Props.thy ===== *)
theory Closure_Arguments_Props
  imports Closure_Arguments
begin

text \<open>
  The mapping of a closure call: what a successful mapping says of each formal, and that a
  descriptor with distinct positions makes it a one-to-one map onto the stack slots.
\<close>

section \<open>The loops\<close>

lemma map_positionals_spec:
  "map_positionals limit as acc = Some acc' \<Longrightarrow>
   length acc' = length acc \<and>
   (\<forall>i < length acc. acc' ! i = (if i \<in> set as then of_nat i else acc ! i))"
proof (induction as arbitrary: acc)
  case (Cons a as)
  then have "map_positionals limit as (acc[a := of_nat a]) = Some acc'"
    by (auto split: if_splits)
  from Cons.IH [OF this] show ?case by (auto simp: nth_list_update)
qed simp

lemma named_formal_some:
  assumes "named_formal s name = Some i"
  shows "i < length (cs_formals s)" "cf_kind (cs_formals s ! i) = FormalNamed"
    "cf_name (cs_formals s ! i) = name"
  using assms by (auto simp: named_formal_def find_Some_iff)

text \<open>What a named entry gives a formal.\<close>

definition named_at :: "closure_signature_layout \<Rightarrow> u32 \<Rightarrow> (u32 \<times> string) option \<Rightarrow> nat \<Rightarrow> u32 \<Rightarrow> bool" where
  "named_at s count e i a \<longleftrightarrow>
     (\<exists>position name. e = Some (position, name) \<and> position \<noteq> 0 \<and> position < count \<and>
        named_formal s name = Some i \<and> a = position - 1)"

lemma unat_pred: "unat (c - 1) = unat c - 1" if "c \<noteq> 0" for c :: u32
  using that by (simp add: unat_minus_one)

lemma pred_less_u32: "p - 1 < c - 1" if "p \<noteq> 0" "p < c" for p c :: u32
proof -
  have lt: "unat p < unat c" using that(2) by (simp only: word_less_nat_alt)
  have p: "unat p \<noteq> 0" using that(1) unat_eq_zero by blast
  have "c \<noteq> 0" using lt by auto
  from unat_pred [OF this] unat_pred [OF that(1)] have "unat (p - 1) < unat (c - 1)"
    using lt p by linarith
  then show ?thesis by (simp only: word_less_nat_alt)
qed

lemma named_at_less: "named_at s count e i a \<Longrightarrow> a < count - 1"
  by (auto simp: named_at_def intro: pred_less_u32)

lemma nonneg_of_small: "sint a = int (unat a)" if "unat a < 2 ^ 31" for a :: u32
proof -
  have lt: "int (unat a) < 2 ^ 31" using that by (metis of_nat_less_iff of_nat_numeral of_nat_power)
  have ge: "- (2 ^ 31) \<le> int (unat a)" by (rule order_trans [of _ 0]) simp_all
  have "sint a = signed_take_bit 31 (int (unat a))" by (simp add: sint_uint)
  also have "\<dots> = int (unat a)" by (rule signed_take_bit_int_eq_self [OF ge lt])
  finally show ?thesis .
qed

lemma map_named_spec:
  assumes "map_named s count entry ns acc = Some acc'" "length acc = length (cs_formals s)"
    "unat (count - 1) < 2 ^ 31"
  shows "length acc' = length acc \<and>
    (\<forall>i < length acc. 0 \<le> sint (acc ! i) \<longrightarrow> acc' ! i = acc ! i) \<and>
    (\<forall>i < length acc. acc' ! i = acc ! i \<or>
       sint (acc ! i) < 0 \<and> (\<exists>n \<in> set ns. named_at s count (entry n) i (acc' ! i))) \<and>
    (\<forall>n \<in> set ns. \<exists>i < length acc. sint (acc ! i) < 0 \<and> named_at s count (entry n) i (acc' ! i))"
  using assms(1,2)
proof (induction ns arbitrary: acc)
  case Nil then show ?case by simp
next
  case (Cons n ns)
  from Cons.prems obtain acc1 where step: "place_named s count (entry n) acc = Some acc1"
    and rest: "map_named s count entry ns acc1 = Some acc'"
    by (auto simp: bind_eq_Some_conv)
  from step obtain position name k where e: "entry n = Some (position, name)"
    and k: "named_formal s name = Some k" and neg: "sint (acc ! k) < 0"
    and pos: "position \<noteq> 0" "position < count" and acc1: "acc1 = acc[k := position - 1]"
    by (auto simp: place_named_def split: option.splits prod.splits if_splits)
  have kl: "k < length acc" using named_formal_some(1) [OF k] Cons.prems(2) by simp
  have at: "named_at s count (entry n) k (position - 1)"
    using e k pos by (auto simp: named_at_def)
  have small: "unat (position - 1) < 2 ^ 31"
    using pred_less_u32 [OF pos] assms(3) by (simp add: word_less_nat_alt)
  have nn: "0 \<le> sint (acc1 ! k)" using nonneg_of_small [OF small] kl by (simp add: acc1)
  have same: "acc1 ! i = acc ! i" if "i \<noteq> k" for i using that by (simp add: acc1)
  have len: "length acc1 = length acc" by (simp add: acc1)
  have l1: "length acc1 = length (cs_formals s)" using len Cons.prems(2) by simp
  note IH = Cons.IH [OF rest l1, unfolded len]
  have lens: "length acc' = length acc" using IH by (rule conjunct1)
  have keep: "acc' ! i = acc1 ! i" if "i < length acc" "0 \<le> sint (acc1 ! i)" for i
    using IH that by (meson IH)
  have mid: "acc' ! i = acc1 ! i \<or>
       sint (acc1 ! i) < 0 \<and> (\<exists>n \<in> set ns. named_at s count (entry n) i (acc' ! i))"
    if "i < length acc" for i using IH that by (meson IH)
  have last: "\<exists>i < length acc. sint (acc1 ! i) < 0 \<and> named_at s count (entry m) i (acc' ! i)"
    if "m \<in> set ns" for m using IH that by (meson IH)
  have fixed: "acc' ! k = position - 1" using keep [OF kl nn] kl by (simp add: acc1)
  show ?case
  proof (intro conjI allI impI ballI)
    show "length acc' = length acc" by (rule lens)
  next
    fix i assume i: "i < length acc" "0 \<le> sint (acc ! i)"
    then have "i \<noteq> k" using neg by auto
    then show "acc' ! i = acc ! i" using keep [OF i(1)] i same by simp
  next
    fix i assume i: "i < length acc"
    show "acc' ! i = acc ! i \<or>
        sint (acc ! i) < 0 \<and> (\<exists>m \<in> set (n # ns). named_at s count (entry m) i (acc' ! i))"
    proof (cases "i = k")
      case True then show ?thesis using neg at fixed by auto
    next
      case False
      then show ?thesis using mid [OF i] same [OF False] by auto
    qed
  next
    fix m assume m: "m \<in> set (n # ns)"
    show "\<exists>i < length acc. sint (acc ! i) < 0 \<and> named_at s count (entry m) i (acc' ! i)"
    proof (cases "m = n")
      case True then show ?thesis using kl at fixed neg by auto
    next
      case False
      then obtain i where i: "i < length acc" "sint (acc1 ! i) < 0" "named_at s count (entry m) i (acc' ! i)"
        using last m by auto
      moreover have "i \<noteq> k" using i(2) nn by auto
      ultimately show ?thesis using same by auto
    qed
  qed
qed

section \<open>The actual arguments\<close>

text \<open>What the checks before the loops say of the counts.\<close>

lemma counts_ok:
  assumes sig: "signature_ok cl s" and shape: "descriptor_shape_ok info"
    and mt: "descriptor_matches s info"
    and named: "di_named_count info = di_count info - di_positional_count info"
  shows "unat (di_count info - 1) \<le> length (cs_formals s)"
    "unat (di_positional_count info - 1) \<le> unat (di_count info - 1)"
    "unat (di_named_count info) = unat (di_count info - 1) - unat (di_positional_count info - 1)"
proof -
  show "unat (di_count info - 1) \<le> length (cs_formals s)"
    using mt by (simp add: descriptor_matches_def Let_def not_less)
  have nz: "di_count info \<noteq> 0" "di_positional_count info \<noteq> 0"
    and le: "unat (di_positional_count info) \<le> unat (di_count info)"
    using shape by (auto simp: descriptor_shape_ok_def word_le_nat_alt)
  show "unat (di_positional_count info - 1) \<le> unat (di_count info - 1)"
    using le nz by (simp add: unat_pred)
  have "unat (di_positional_count info) \<noteq> 0" using nz unat_eq_zero by blast
  then show "unat (di_named_count info) = unat (di_count info - 1) - unat (di_positional_count info - 1)"
    using le nz by (simp add: unat_pred named unat_sub word_le_nat_alt)
qed

lemma actuals_spec:
  assumes act: "actuals s info entry = Some acc"
    and small: "unat (di_count info - 1) < 2 ^ 31"
    and pos: "unat (di_positional_count info - 1) \<le> length (cs_formals s)"
    and psmall: "unat (di_positional_count info - 1) < 2 ^ 31"
  shows "length acc = length (cs_formals s)"
    "\<forall>i < unat (di_positional_count info - 1). acc ! i = of_nat i"
    "\<forall>i < length acc. 0 \<le> sint (acc ! i) \<longrightarrow> unat (di_positional_count info - 1) \<le> i \<longrightarrow>
       (\<exists>n < unat (di_named_count info). named_at s (di_count info) (entry n) i (acc ! i))"
    "\<forall>n < unat (di_named_count info). \<exists>i < length acc. unat (di_positional_count info - 1) \<le> i \<and>
       named_at s (di_count info) (entry n) i (acc ! i) \<and> 0 \<le> sint (acc ! i)"
    "\<forall>i < length acc. cf_is_required (cs_formals s ! i) \<longrightarrow> 0 \<le> sint (acc ! i)"
proof -
  let ?p = "unat (di_positional_count info - 1)"
  let ?n = "length (cs_formals s)"
  from act obtain limit acc0 where
    m1: "map_positionals limit [0..<?p] (replicate ?n (-1)) = Some acc0"
    and m2: "map_named s (di_count info) entry [0..<unat (di_named_count info)] acc0 = Some acc"
    and ok: "formals_ok s acc"
    by (auto simp: actuals_def bind_eq_Some_conv split: if_splits)
  have l0: "length acc0 = ?n" and
    a0: "\<And>i. i < ?n \<Longrightarrow> acc0 ! i = (if i < ?p then of_nat i else -1)"
    using map_positionals_spec [OF m1] by simp_all
  note s2 = map_named_spec [OF m2 l0 small]
  have len0: "length acc = length acc0" using s2 by (rule conjunct1)
  have keep: "acc ! i = acc0 ! i" if "i < ?n" "0 \<le> sint (acc0 ! i)" for i
    using s2 [THEN conjunct2, THEN conjunct1, rule_format, of i] that l0 by simp
  have mid: "acc ! i = acc0 ! i \<or>
      (\<exists>n < unat (di_named_count info). named_at s (di_count info) (entry n) i (acc ! i))"
    if "i < ?n" for i
    using s2 [THEN conjunct2, THEN conjunct2, THEN conjunct1, rule_format, of i] that l0 by auto
  have last: "\<exists>i < ?n. sint (acc0 ! i) < 0 \<and> named_at s (di_count info) (entry n) i (acc ! i)"
    if "n < unat (di_named_count info)" for n
    using s2 [THEN conjunct2, THEN conjunct2, THEN conjunct2, rule_format, of n] that l0 by simp
  have nn: "0 \<le> sint (of_nat i :: u32)" if "i < ?p" for i
  proof -
    have "unat (of_nat i :: u32) < 2 ^ 31"
      using that psmall by (simp add: unat_of_nat)
    then show ?thesis by (simp only: nonneg_of_small of_nat_0_le_iff)
  qed
  show len: "length acc = ?n" using len0 l0 by simp
  show first: "\<forall>i < ?p. acc ! i = of_nat i"
  proof (intro allI impI)
    fix i assume i: "i < ?p"
    then have "i < ?n" using pos by linarith
    then show "acc ! i = of_nat i" using keep [of i] a0 [of i] nn [OF i] i by simp
  qed
  show "\<forall>i < length acc. 0 \<le> sint (acc ! i) \<longrightarrow> ?p \<le> i \<longrightarrow>
       (\<exists>n < unat (di_named_count info). named_at s (di_count info) (entry n) i (acc ! i))"
  proof (intro allI impI)
    fix i assume i: "i < length acc" "0 \<le> sint (acc ! i)" "?p \<le> i"
    then have "acc0 ! i = -1" using a0 len by simp
    then have "acc ! i \<noteq> acc0 ! i" using i(2) by auto
    then show "\<exists>n < unat (di_named_count info). named_at s (di_count info) (entry n) i (acc ! i)"
      using mid i(1) len by auto
  qed
  show "\<forall>n < unat (di_named_count info). \<exists>i < length acc. ?p \<le> i \<and>
       named_at s (di_count info) (entry n) i (acc ! i) \<and> 0 \<le> sint (acc ! i)"
  proof (intro allI impI)
    fix n assume "n < unat (di_named_count info)"
    then obtain i where i: "i < ?n" "named_at s (di_count info) (entry n) i (acc ! i)"
      and neg: "sint (acc0 ! i) < 0" using last by auto
    have "unat (acc ! i) < 2 ^ 31"
      using named_at_less [OF i(2)] small unfolding word_less_nat_alt by linarith
    then have nn': "0 \<le> sint (acc ! i)" by (simp only: nonneg_of_small of_nat_0_le_iff)
    have "?p \<le> i"
    proof (rule ccontr)
      assume "\<not> ?p \<le> i"
      then have "i < ?p" by simp
      then have "0 \<le> sint (acc0 ! i)" using a0 [OF i(1)] nn by simp
      then show False using neg by simp
    qed
    then show "\<exists>i < length acc. ?p \<le> i \<and>
       named_at s (di_count info) (entry n) i (acc ! i) \<and> 0 \<le> sint (acc ! i)"
      using i nn' len by auto
  qed
  show "\<forall>i < length acc. cf_is_required (cs_formals s ! i) \<longrightarrow> 0 \<le> sint (acc ! i)"
    using ok len by (auto simp: formals_ok_def list_all2_conv_all_nth not_less)
qed

section \<open>Locations\<close>

text \<open>
  The slot of user argument \<open>a\<close> of \<open>users\<close>: the arguments are pushed in order, so the last one
  is at the stack pointer.
\<close>

definition argument_slot :: "nat \<Rightarrow> nat \<Rightarrow> value_location" where
  "argument_slot users a =
     \<lparr>vl_locations = [\<lparr>loc_kind = LocEntryStack, loc_register_index = 0,
        loc_stack_offset = of_nat (8 * (users - 1 - a))\<rparr>, abi_location_0], vl_count = 1\<rparr>"

lemma slot_offset:
  fixes a users :: u32
  assumes "a < users"
  shows "unat (ucast (users - 1 - a) * 8 :: u64) = 8 * (unat users - 1 - unat a)"
proof -
  have lt: "unat a < unat users" using assms by (simp only: word_less_nat_alt)
  then have nz: "users \<noteq> 0" by auto
  have le: "a \<le> users - 1" unfolding word_le_nat_alt unat_pred [OF nz] using lt by linarith
  have d: "unat (users - 1 - a) = unat users - 1 - unat a"
    using le by (simp add: unat_sub unat_pred [OF nz])
  have b: "unat users < 2 ^ 32" using unsigned_less [of users, where ?'a=nat] by simp
  have "unat (ucast (users - 1 - a) :: u64) = unat users - 1 - unat a"
    using d b by (simp add: unsigned_ucast_eq take_bit_nat_eq_self)
  then show ?thesis using b by (simp add: unat_word_ariths)
qed

lemma formal_location_supplied:
  assumes loc: "formal_location users a = Some l" and nn: "0 \<le> sint a" and lt: "a < users"
  shows "l = argument_slot (unat users) (unat a)" "8 * (unat users - 1 - unat a) < 2 ^ 31"
proof -
  let ?o = "ucast (users - 1 - a) * 8 :: u64"
  from loc nn have le: "?o \<le> kInt32Max"
    and l: "l = \<lparr>vl_locations = [\<lparr>loc_kind = LocEntryStack, loc_register_index = 0,
        loc_stack_offset = ucast ?o\<rparr>, abi_location_0], vl_count = 1\<rparr>"
    by (auto simp: formal_location_def stack_slot_def split: if_splits)
  have n: "unat ?o = 8 * (unat users - 1 - unat a)" by (rule slot_offset [OF lt])
  show "8 * (unat users - 1 - unat a) < 2 ^ 31"
    using le unfolding word_le_nat_alt n kInt32Max_def by simp
  have "(ucast ?o :: u32) = of_nat (unat ?o)" by (simp add: word_of_nat_eq_iff) 
  then show "l = argument_slot (unat users) (unat a)"
    unfolding l argument_slot_def n by simp
qed

lemma map_locations_spec:
  "map_locations users as ps = Some qs \<Longrightarrow> length as = length ps \<Longrightarrow>
   length qs = length ps \<and>
   (\<forall>i < length ps. formal_location users (as ! i) = Some (pl_location (qs ! i)) \<and>
      pl_representation (qs ! i) = pl_representation (ps ! i))"
proof (induction users as ps arbitrary: qs rule: map_locations.induct)
  case (1 users a as p ps)
  then obtain l qs' where l: "formal_location users a = Some l"
    and m: "map_locations users as ps = Some qs'" and qs: "qs = p\<lparr>pl_location := l\<rparr> # qs'"
    by (auto simp: bind_eq_Some_conv)
  from "1.IH" [OF l m] "1.prems"(2) show ?case by (auto simp: qs l nth_Cons split: nat.splits)
qed auto

section \<open>A successful mapping\<close>

lemma counters_named:
  assumes "read_counters rd raw dl object v = Some info"
  shows "di_named_count info = di_count info - di_positional_count info"
  using assms by (auto simp: read_counters_def bind_eq_Some_conv split: if_splits)

lemma descriptor_named:
  assumes "dartplant_invocation_get_arguments_descriptor env f w = (Inr info, w')"
  shows "di_named_count info = di_count info - di_positional_count info"
  using assms counters_named
  by (auto simp: dartplant_invocation_get_arguments_descriptor_def descriptor_of_def Let_def
      split: option.splits if_splits prod.splits)

lemma mapping_success:
  assumes e: "EnsureClosureArgumentMapping env f w = (True, f', w')"
    and cl: "fr_layout f = Some cl" "cl_closure_signature cl = Some s" "\<not> fr_mapping_attempted f"
  obtains info w1 acc where "signature_ok cl s"
    "dartplant_invocation_get_arguments_descriptor env (f\<lparr>fr_mapping_attempted := True\<rparr>) w = (Inr info, w1)"
    "descriptor_shape_ok info" "descriptor_matches s info"
    "actuals s info (ReadDescriptorNamedEntry env (f\<lparr>fr_mapping_attempted := True\<rparr>) w1) = Some acc"
    "map_locations (di_count info - 1) acc (cl_parameters cl) = Some (fr_mapped f')"
    "fr_mapping_valid f'"
proof -
  let ?f = "f\<lparr>fr_mapping_attempted := True\<rparr>"
  from e cl have sig: "signature_ok cl s" and m: "map_arguments env cl s ?f w = (True, f', w')"
    by (auto simp: EnsureClosureArgumentMapping_def split: if_splits)
  from m obtain info w1 where d: "dartplant_invocation_get_arguments_descriptor env ?f w = (Inr info, w1)"
    by (auto simp: map_arguments_def split: prod.splits sum.splits)
  with m obtain acc where ok: "descriptor_shape_ok info" "descriptor_matches s info"
    and a: "actuals s info (ReadDescriptorNamedEntry env ?f w1) = Some acc"
    by (auto simp: map_arguments_def split: if_splits option.splits)
  from m d ok a obtain f1 w2 where fin: "finish_mapping cl info acc f1 = (True, f')"
    by (auto simp: map_arguments_def split: prod.splits bool.splits)
  then have "map_locations (di_count info - 1) acc (cl_parameters cl) = Some (fr_mapped f')"
    "fr_mapping_valid f'" by (auto simp: finish_mapping_def split: option.splits)
  with that sig d ok a show thesis by blast
qed

text \<open>Each formal of a successful mapping, by the word the loops left for it.\<close>

lemma mapped_formal:
  assumes act: "actuals s info entry = Some acc" and cl: "signature_ok cl s"
    and ok: "descriptor_shape_ok info" "descriptor_matches s info"
    and named: "di_named_count info = di_count info - di_positional_count info"
    and ml: "map_locations (di_count info - 1) acc (cl_parameters cl) = Some ps"
    and small: "length (cl_parameters cl) < 2 ^ 31" and i: "i < length (cl_parameters cl)"
  shows "length ps = length (cl_parameters cl)"
    "pl_representation (ps ! i) = pl_representation (cl_parameters cl ! i)"
    "sint (acc ! i) < 0 \<Longrightarrow> pl_location (ps ! i) = value_location_0 \<and> \<not> cf_is_required (cs_formals s ! i)"
    "0 \<le> sint (acc ! i) \<Longrightarrow> unat (acc ! i) < unat (di_count info - 1) \<and>
       pl_location (ps ! i) = argument_slot (unat (di_count info - 1)) (unat (acc ! i)) \<and>
       8 * (unat (di_count info - 1) - 1 - unat (acc ! i)) < 2 ^ 31"
proof -
  have fl: "length (cs_formals s) = length (cl_parameters cl)" using cl by (simp add: signature_ok_def)
  note c = counts_ok [OF cl ok named]
  have us: "unat (di_count info - 1) < 2 ^ 31" using c(1) small fl by linarith
  have pl: "unat (di_positional_count info - 1) \<le> length (cs_formals s)" using c by linarith
  have ps31: "unat (di_positional_count info - 1) < 2 ^ 31" using c us by linarith
  note a = actuals_spec [OF act us pl ps31]
  have al: "length acc = length (cl_parameters cl)" using a(1) fl by simp
  note m = map_locations_spec [OF ml al]
  show "length ps = length (cl_parameters cl)" using m by simp
  show "pl_representation (ps ! i) = pl_representation (cl_parameters cl ! i)" using m i by simp
  have loc: "formal_location (di_count info - 1) (acc ! i) = Some (pl_location (ps ! i))" using m i by simp
  show "pl_location (ps ! i) = value_location_0 \<and> \<not> cf_is_required (cs_formals s ! i)"
    if "sint (acc ! i) < 0"
    using loc a(5) that i al by (force simp: formal_location_def)
  assume nn: "0 \<le> sint (acc ! i)"
  have lt: "acc ! i < di_count info - 1"
  proof (cases "unat (di_positional_count info - 1) \<le> i")
    case True
    then obtain n where "named_at s (di_count info) (entry n) i (acc ! i)" using a(3) i al nn by auto
    then show ?thesis by (rule named_at_less)
  next
    case False
    then have "acc ! i = of_nat i" "i < unat (di_count info - 1)" using a(2) c(2) by auto
    moreover have "unat (of_nat i :: u32) = i"
      using False ps31 by (simp add: unat_of_nat take_bit_nat_eq_self)
    ultimately show ?thesis by (simp only: word_less_nat_alt)
  qed
  from formal_location_supplied [OF loc nn lt] lt
  show "unat (acc ! i) < unat (di_count info - 1) \<and>
      pl_location (ps ! i) = argument_slot (unat (di_count info - 1)) (unat (acc ! i)) \<and>
      8 * (unat (di_count info - 1) - 1 - unat (acc ! i)) < 2 ^ 31"
    by (simp add: word_less_nat_alt)
qed


text \<open>Distinct positions after the positional ones fill the rest of the call's arguments.\<close>

lemma positions_cover:
  fixes position :: "nat \<Rightarrow> nat"
  assumes inj: "inj_on position {..<named}" and range: "\<And>n. n < named \<Longrightarrow> first \<le> position n \<and> position n < users"
    and card: "named = users - first" and a: "first \<le> a" "a < users"
  shows "\<exists>n < named. position n = a"
proof -
  have sub: "position ` {..<named} \<subseteq> {first..<users}" using range by auto
  have "card (position ` {..<named}) = card {first..<users}" using card_image [OF inj] card by simp
  then have "position ` {..<named} = {first..<users}" using card_subset_eq [OF _ sub] by simp
  then have "a \<in> position ` {..<named}" using a by simp
  then show ?thesis by auto
qed

lemma unat_pred_inj: "unat (p - 1) = unat (q - 1) \<longleftrightarrow> p = q" if "p \<noteq> 0" "q \<noteq> 0" for p q :: u32
  by (metis diff_add_cancel unsigned_word_eqI)

text \<open>A descriptor whose named entries name distinct positions after the positional ones.\<close>

definition well_placed :: "descriptor_info \<Rightarrow> (nat \<Rightarrow> (u32 \<times> string) option) \<Rightarrow> bool" where
  "well_placed info entry \<longleftrightarrow>
     (\<forall>n < unat (di_named_count info). entry n \<noteq> None \<and>
        fst (the (entry n)) \<ge> di_positional_count info) \<and>
     inj_on (\<lambda>n. fst (the (entry n))) {..<unat (di_named_count info)}"

lemma well_placed_position:
  assumes "well_placed info entry" "n < unat (di_named_count info)" "di_positional_count info \<noteq> 0"
  shows "fst (the (entry n)) \<noteq> 0"
    "unat (di_positional_count info - 1) \<le> unat (fst (the (entry n)) - 1)"
proof -
  have le: "unat (di_positional_count info) \<le> unat (fst (the (entry n)))"
    using assms(1,2) by (simp add: well_placed_def word_le_nat_alt)
  have "unat (di_positional_count info) \<noteq> 0" using assms(3) unat_eq_zero by blast
  with le show nz: "fst (the (entry n)) \<noteq> 0" by auto
  show "unat (di_positional_count info - 1) \<le> unat (fst (the (entry n)) - 1)"
    using le unat_pred [OF nz] unat_pred [OF assms(3)] by linarith
qed

text \<open>The loops under that condition, as a map of numbers.\<close>

lemma actuals_injective:
  assumes wp: "well_placed info entry" "di_positional_count info \<noteq> 0"
    and first: "\<And>i. i < p \<Longrightarrow> unat (acc ! i) = i" and p: "p = unat (di_positional_count info - 1)"
    and later: "\<And>i. i \<in> S \<Longrightarrow> p \<le> i \<Longrightarrow>
      \<exists>n < unat (di_named_count info). named_at s count (entry n) i (acc ! i)"
  shows "inj_on (\<lambda>i. unat (acc ! i)) S"
proof (rule inj_onI)
  fix i j assume i: "i \<in> S" and j: "j \<in> S" and eq: "unat (acc ! i) = unat (acc ! j)"
  have late: "\<exists>n < unat (di_named_count info). acc ! k = fst (the (entry n)) - 1 \<and>
      named_formal s (snd (the (entry n))) = Some k \<and> p \<le> unat (acc ! k)"
    if k: "k \<in> S" "p \<le> k" for k
  proof -
    obtain n where n: "n < unat (di_named_count info)" "named_at s count (entry n) k (acc ! k)"
      using later [OF k] by blast
    then show ?thesis using well_placed_position(2) [OF wp(1) n(1) wp(2)]
      by (auto simp: named_at_def p)
  qed
  show "i = j"
  proof (cases "i < p \<or> j < p")
    case True
    then show ?thesis using first [of i] first [of j] late [OF i] late [OF j] eq
      by (metis leD linorder_not_less)
  next
    case False
    then obtain m n where mn: "m < unat (di_named_count info)" "n < unat (di_named_count info)"
      "acc ! i = fst (the (entry m)) - 1" "acc ! j = fst (the (entry n)) - 1"
      "named_formal s (snd (the (entry m))) = Some i" "named_formal s (snd (the (entry n))) = Some j"
      using late [OF i] late [OF j] by auto
    then have "fst (the (entry m)) = fst (the (entry n))"
      using eq unat_pred_inj well_placed_position(1) [OF wp(1) _ wp(2)] by metis
    then have "m = n" using wp(1) mn(1,2) by (auto simp: well_placed_def dest: inj_onD)
    then show ?thesis using mn(5,6) by simp
  qed
qed

lemma actuals_surjective:
  assumes wp: "well_placed info entry" "di_positional_count info \<noteq> 0"
    and first: "\<And>i. i < p \<Longrightarrow> i \<in> S \<and> unat (acc ! i) = i" and p: "p = unat (di_positional_count info - 1)"
    and named: "unat (di_named_count info) = unat (count - 1) - p"
    and all: "\<And>n. n < unat (di_named_count info) \<Longrightarrow> \<exists>i \<in> S. named_at s count (entry n) i (acc ! i)"
    and a: "a < unat (count - 1)"
  shows "\<exists>i \<in> S. unat (acc ! i) = a"
proof (cases "a < p")
  case True then show ?thesis using first by blast
next
  case False
  let ?q = "\<lambda>n. unat (fst (the (entry n)) - 1)"
  have "inj_on ?q {..<unat (di_named_count info)}"
    using wp(1) well_placed_position(1) [OF wp(1) _ wp(2)] by (auto simp: well_placed_def inj_on_def unat_pred_inj)
  moreover have "p \<le> ?q n \<and> ?q n < unat (count - 1)" if n: "n < unat (di_named_count info)" for n
  proof -
    obtain i where "named_at s count (entry n) i (acc ! i)" using all [OF n] by blast
    then have "fst (the (entry n)) - 1 < count - 1" by (auto simp: named_at_def intro: pred_less_u32)
    then show ?thesis using well_placed_position(2) [OF wp(1) n wp(2)] p by (simp only: word_less_nat_alt)
  qed
  ultimately obtain n where n: "n < unat (di_named_count info)" "?q n = a"
    using positions_cover [of ?q "unat (di_named_count info)" p "unat (count - 1)" a] False a named by auto
  then show ?thesis using all [OF n(1)] by (force simp: named_at_def)
qed

lemma actuals_length:
  assumes act: "actuals s info entry = Some acc" and cl: "signature_ok cl s"
    and ok: "descriptor_shape_ok info" "descriptor_matches s info"
    and named: "di_named_count info = di_count info - di_positional_count info"
    and small: "length (cl_parameters cl) < 2 ^ 31"
  shows "length acc = length (cl_parameters cl)"
proof -
  note c = counts_ok [OF cl ok named]
  have al: "length (cs_formals s) = length (cl_parameters cl)" using cl by (simp add: signature_ok_def)
  have us: "unat (di_count info - 1) < 2 ^ 31" using c(1) small al by linarith
  have "unat (di_positional_count info - 1) \<le> length (cs_formals s)"
    "unat (di_positional_count info - 1) < 2 ^ 31" using c us by linarith+
  then show ?thesis using actuals_spec(1) [OF act us] al by simp
qed

lemma actuals_bijective:
  assumes act: "actuals s info entry = Some acc" and cl: "signature_ok cl s"
    and ok: "descriptor_shape_ok info" "descriptor_matches s info"
    and named: "di_named_count info = di_count info - di_positional_count info"
    and small: "length (cl_parameters cl) < 2 ^ 31" and wp: "well_placed info entry"
  shows "bij_betw (\<lambda>i. unat (acc ! i)) {i. i < length acc \<and> 0 \<le> sint (acc ! i)}
      {..<unat (di_count info - 1)}"
    "\<And>i. i < unat (di_positional_count info - 1) \<Longrightarrow> unat (acc ! i) = i"
proof -
  let ?p = "unat (di_positional_count info - 1)" and ?u = "unat (di_count info - 1)"
  let ?S = "{i. i < length acc \<and> 0 \<le> sint (acc ! i)}"
  note c = counts_ok [OF cl ok named]
  have al: "length (cs_formals s) = length (cl_parameters cl)" using cl by (simp add: signature_ok_def)
  have us: "?u < 2 ^ 31" using c(1) small al by linarith
  have pl: "?p \<le> length (cs_formals s)" using c by linarith
  have ps31: "?p < 2 ^ 31" using c us by linarith
  note spec = actuals_spec [OF act us pl ps31]
  have nz: "di_positional_count info \<noteq> 0" using ok(1) by (auto simp: descriptor_shape_ok_def)
  show first: "unat (acc ! i) = i" if "i < ?p" for i
    using spec(2) that ps31 by (simp add: unat_of_nat take_bit_nat_eq_self)
  have firstS: "i \<in> ?S \<and> unat (acc ! i) = i" if i: "i < ?p" for i
    using first [OF i] i pl ps31 spec(1) by (simp add: nonneg_of_small)
  have inj: "inj_on (\<lambda>i. unat (acc ! i)) ?S"
    by (rule actuals_injective [OF wp nz first refl]) (use spec(3) in auto)
  have less: "unat (acc ! i) < ?u" if i: "i \<in> ?S" for i
  proof (cases "i < ?p")
    case True then show ?thesis using first c(2) by simp
  next
    case False
    then show ?thesis using spec(3) i named_at_less by (fastforce simp: word_less_nat_alt)
  qed
  have "\<exists>i \<in> ?S. unat (acc ! i) = a" if "a < ?u" for a
    by (rule actuals_surjective [OF wp nz firstS refl c(3) _ that]) (use spec(4) in auto)
  then have "(\<lambda>i. unat (acc ! i)) ` ?S = {..<?u}" using less by auto
  with inj show "bij_betw (\<lambda>i. unat (acc ! i)) ?S {..<?u}" by (rule bij_betw_imageI)
qed

text \<open>
  C33: When the descriptor's named entries name distinct positions after the positional
  arguments, the mapping of a closure call is one-to-one: the supplied formals and the call's
  user arguments correspond exactly, positional arguments in order.
\<close>

theorem closure_mapping_bijective:
  assumes "EnsureClosureArgumentMapping env f w = (True, f', w')" and "fr_layout f = Some cl"
    and "cl_closure_signature cl = Some s" and "\<not> fr_mapping_attempted f"
    and "length (cl_parameters cl) < 2 ^ 31"
    and d: "dartplant_invocation_get_arguments_descriptor env (f\<lparr>fr_mapping_attempted := True\<rparr>) w =
      (Inr info, w1)"
    and wp: "well_placed info (ReadDescriptorNamedEntry env (f\<lparr>fr_mapping_attempted := True\<rparr>) w1)"
  shows "\<exists>actual. bij_betw actual
      {i. i < length (cl_parameters cl) \<and> vl_count (pl_location (fr_mapped f' ! i)) = 1}
      {..<unat (di_count info - 1)} \<and>
    (\<forall>i < length (cl_parameters cl). vl_count (pl_location (fr_mapped f' ! i)) = 1 \<longrightarrow>
       pl_location (fr_mapped f' ! i) = argument_slot (unat (di_count info - 1)) (actual i)) \<and>
    (\<forall>i < unat (di_positional_count info - 1). actual i = i)"
proof -
  let ?n = "length (cl_parameters cl)"
  obtain info' w1' acc where sig: "signature_ok cl s" and ok': "descriptor_shape_ok info'" "descriptor_matches s info'"
    and d': "dartplant_invocation_get_arguments_descriptor env (f\<lparr>fr_mapping_attempted := True\<rparr>) w =
      (Inr info', w1')"
    and a': "actuals s info' (ReadDescriptorNamedEntry env (f\<lparr>fr_mapping_attempted := True\<rparr>) w1') = Some acc"
    and ml': "map_locations (di_count info' - 1) acc (cl_parameters cl) = Some (fr_mapped f')"
    using mapping_success [OF assms(1-4)] by metis
  have i: "info' = info" "w1' = w1" using d d' by auto
  note ok = ok' [unfolded i] and a = a' [unfolded i] and ml = ml' [unfolded i]
  note named = descriptor_named [OF d]
  note formal = mapped_formal [OF a sig ok named ml assms(5)]
  have len: "length acc = ?n" by (rule actuals_length [OF a sig ok named assms(5)])
  have S: "{i. i < ?n \<and> vl_count (pl_location (fr_mapped f' ! i)) = 1} =
      {i. i < length acc \<and> 0 \<le> sint (acc ! i)}"
    using formal(3,4) by (force simp: value_location_0_def argument_slot_def not_le len)
  note bij = actuals_bijective [OF a sig ok named assms(5) wp]
  show ?thesis
    unfolding S
    using bij(1,2) formal(4) S len by (intro exI [of _ "\<lambda>i. unat (acc ! i)"]) auto
qed

section \<open>A call in memory\<close>

text \<open>
  An arguments descriptor at \<open>0x10\<close> for a call with the receiver, one positional argument and
  one argument named \<open>b\<close> at position 2; the name is a one-byte string at \<open>0x70\<close>, 0x30 above the
  heap base, which the thread at \<open>0x80\<close> holds.
\<close>

definition call_bytes :: "(ptr \<times> u8) list" where
  "call_bytes =
     [(0x10, 2), (0x24, 6), (0x28, 6), (0x2c, 4), (0x30, 0x31), (0x34, 4),
      (0x88, 0x40), (0x70, 3), (0x78, 2), (0x7c, 98)]"

definition call_memory :: "ptr \<Rightarrow> u8" where
  "call_memory a = (case map_of call_bytes a of None \<Rightarrow> 0 | Some b \<Rightarrow> b)"

definition call_raw :: raw_layout where
  "call_raw = \<lparr>rw_heap_object_tag = 1, rw_smi_tag = 0, rw_smi_tag_mask = 1, rw_smi_tag_shift = 1,
     rw_class_id_tag_shift = 0, rw_class_id_tag_bits = 8, rw_compressed_word_size = 4\<rparr>"

definition call_object_profile :: object_profile where
  "call_object_profile = \<lparr>op_raw = call_raw,
     op_string = \<lparr>sl_cid_one_byte = 3, sl_cid_two_byte = 4, sl_length_offset = 8, sl_data_offset = 12\<rparr>,
     op_cid_array = 2, op_cid_immutable_array = 1\<rparr>"

definition call_descriptor_layout :: descriptor_layout where
  "call_descriptor_layout = \<lparr>dl_type_args_len_offset = 16, dl_count_offset = 20, dl_size_offset = 24,
     dl_positional_count_offset = 28, dl_first_named_entry_offset = 32, dl_named_entry_size = 8,
     dl_name_offset = 0, dl_position_offset = 4, dl_thr_register = 26, dl_heap_base_offset = 8\<rparr>"

definition call_env :: dispatch_env where
  "call_env = \<lparr>ev_thread = 0, ev_stack = True, ev_profiles = (\<lambda>_. None), ev_profile_at = (\<lambda>_. 0),
     ev_versions = (\<lambda>_. None), ev_descriptor_layout = (\<lambda>_. call_descriptor_layout),
     ev_object_profile = (\<lambda>_. call_object_profile), ev_abi_key = (\<lambda>_ _. []),
     ev_descriptor_key = (\<lambda>_ _. []), ev_free = (\<lambda>_. True), ev_status = (\<lambda>_. DP_OK),
     ev_lease = (\<lambda>_. 1), ev_element = (\<lambda>_. 0), ev_retain = (\<lambda>_ _. (DP_OK, 1)),
     ev_classify = (\<lambda>_ _. (DP_OK, 0)), ev_raw = (\<lambda>_ _. (DP_OK, 0)),
     ev_proof = (\<lambda>_. undefined), ev_gc = (\<lambda>_ vs. vs), ev_restore = (\<lambda>_. True),
     ev_reader = (\<lambda>mem a n. Some (map (\<lambda>i. mem (a + of_nat i)) [0..<n])),
     ev_executable = (\<lambda>_. True), ev_gate_stub = (\<lambda>_ _. (0, 0)), ev_jump_hook = 0,
     ev_call = (\<lambda>_ _ f w. \<lparr>cr_threw = False, cr_frame = f, cr_world = w\<rparr>)\<rparr>"

definition tagged_parameter :: parameter_layout where
  "tagged_parameter = \<lparr>pl_representation = RepTagged, pl_location = value_location_0\<rparr>"

text \<open>\<open>f(a, {required b})\<close>.\<close>

definition call_signature :: closure_signature_layout where
  "call_signature = \<lparr>cs_implicit_parameter_count = 1, cs_fixed_parameter_count = 2,
     cs_optional_parameter_count = 1, cs_type_parameter_count = 0, cs_parent_type_argument_count = 0,
     cs_has_named_optional_parameters = True,
     cs_formals = [\<lparr>cf_signature_index = 1, cf_kind = FormalRequiredPositional, cf_is_required = True, cf_name = []\<rparr>,
       \<lparr>cf_signature_index = 2, cf_kind = FormalNamed, cf_is_required = True, cf_name = ''b''\<rparr>]\<rparr>"

definition call_sample_layout :: call_layout where
  "call_sample_layout = call_layout_0\<lparr>cl_vm_call_profile := 1, cl_vm_object_profile := 1,
     cl_parameters := [tagged_parameter, tagged_parameter], cl_result := tagged_parameter,
     cl_dart_sp_register := 15, cl_has_closure_receiver := True, cl_has_arguments_descriptor := True,
     cl_arguments_descriptor_location :=
       \<lparr>loc_kind = LocGpRegister, loc_register_index = 4, loc_stack_offset = 0\<rparr>,
     cl_closure_signature := Some call_signature\<rparr>"

definition call_method :: hook_method where
  "call_method = \<lparr>hm_function = Some \<lparr>df_source = SourceSynthetic,
       df_owner = \<lparr>oi_runtime_generation = 0, oi_engine_epoch = 0, oi_isolate_group_epoch = 0,
         oi_image_id = 0, oi_image_epoch = 0\<rparr>,
       df_identity = \<lparr>dm_library_uri = [], dm_class_name = [], dm_function_name = [], dm_signature = [], dm_entry_kind = 0\<rparr>,
       df_target = None, df_closure_call_entry_only = False, df_live_observation_receipt = False,
       df_function_object = 0, df_code_object = 0, df_profile_version = 0,
       df_isolate_group_identity = 0, df_jump_to_frame_offset = 0\<rparr>, hm_entry_kind = 0,
     hm_generation = None, hm_expected = 0\<rparr>"

definition call_frame :: dispatch_frame where
  "call_frame = frame_0\<lparr>fr_layout := Some call_sample_layout, fr_profile := Some legacy_profile_0,
     fr_method := Some call_method,
     fr_context := \<lparr>cx_x = (\<lambda>_. 0)(4 := 0x11, 15 := 0x8000, 26 := 0x80), cx_v = (\<lambda>_. 0)\<rparr>\<rparr>"

definition call_world :: "registry \<Rightarrow> dispatch_world" where
  "call_world s = \<lparr>dw_registry = s, dw_memory = call_memory, dw_roots = (\<lambda>_. []),
     dw_bridge = \<lparr>xs_target = 0, xs_backup = 0, xs_published = None\<rparr>, dw_clock = 0, dw_calls = []\<rparr>"

abbreviation call_started :: dispatch_frame where
  "call_started \<equiv> call_frame\<lparr>fr_mapping_attempted := True\<rparr>"

definition call_info :: descriptor_info where
  "call_info = \<lparr>di_type_args_len = 0, di_count = 3, di_size = 3, di_positional_count = 2,
     di_named_count = 1, di_raw = 0x11\<rparr>"

lemma call_location: "ReadVerifiedLocation call_env call_started (call_world s)
    (cl_arguments_descriptor_location call_sample_layout) False = Some 0x11" by code_simp

lemma call_class: "descriptor_class_ok (self_reader call_env (call_world s)) call_object_profile 0x10" by code_simp

lemma call_counters: "read_counters (self_reader call_env (call_world s)) call_raw call_descriptor_layout 0x10 0x11 =
  Some call_info" unfolding call_info_def by code_simp

lemma call_arity: "fixed_arity_ok call_sample_layout call_info" by code_simp

lemma call_proof: "prove_descriptor call_env call_sample_layout call_started (call_world s) = (DP_OK, call_world s)"
  by (simp add: prove_descriptor_def descriptor_needs_proof_def adapter_supports_proof_def
      supports_proof_def call_frame_def frame_0_def)

lemma call_tagged: "descriptor_is_tagged call_raw 0x11" by (simp add: descriptor_is_tagged_def call_raw_def)

lemma call_tag: "ucast (rw_heap_object_tag call_raw) = (1::u64)" by (simp add: call_raw_def)

lemma call_of: "descriptor_of call_env call_sample_layout 0x11 (call_world s) = Inr call_info"
  unfolding descriptor_of_def Let_def
  using call_class [of s] call_counters [of s] call_arity call_tag
  by (simp add: call_env_def call_sample_layout_def call_object_profile_def)

lemma call_layout_of: "fr_layout call_started = Some call_sample_layout" "fr_phase call_started = PhaseEnter"
  "method_has_function call_started" "cl_has_arguments_descriptor call_sample_layout" "cl_vm_call_profile call_sample_layout = 1"
  "cl_vm_object_profile call_sample_layout = 1" "op_raw (ev_object_profile call_env x) = call_raw"
  by (simp_all add: call_frame_def frame_0_def method_has_function_def call_method_def call_sample_layout_def call_env_def call_object_profile_def)

lemma call_descriptor:
  "dartplant_invocation_get_arguments_descriptor call_env call_started (call_world s) = (Inr call_info, call_world s)"
    unfolding dartplant_invocation_get_arguments_descriptor_def 
    by (simp only: call_layout_of call_location call_of call_proof call_tagged option.case prod.case if_True if_False simp_thms zero_neq_numeral invocation_phase.simps dp_status.simps numeral_eq_iff one_neq_zero refl) simp

lemma call_string: "ReadDartStringUtf8 call_raw (op_string call_object_profile) 0x71
    (ReadInvocationMemory (ev_reader call_env call_memory)) kNameCapacity = Some [98]"
proof -
  let ?rd = "ReadInvocationMemory (ev_reader call_env call_memory)"
  have w: "read_word 8 ?rd 0x70 = Some 3" by code_simp
  have l: "read_word 4 ?rd 0x78 = Some 2" by code_simp
  have b: "?rd 0x7c (Suc 0) = Some [98]" by code_simp
  have s: "\<not> (32 :: 8 word) \<le> 1" by code_simp
  show ?thesis
    by (simp add: ReadDartStringUtf8_def Let_def call_raw_def call_object_profile_def w l kNameCapacity_def
        one_byte_loop.simps kChunkBytes_def b s append_code_point_def utf8_def)
qed

lemma call_heap: "ReadLiveVmHeapBase call_env call_started (call_world s) = Some 0x40" by code_simp

lemma call_words: "read_word 4 (self_reader call_env (call_world s)) 0x30 = Some 0x31" 
   "read_word 4 (self_reader call_env (call_world s)) 0x34 = Some 4" by (code_simp, code_simp)

lemma call_smi: "DecodePositiveCompressedSmi 4 call_raw = Some 2" by code_simp

lemma call_addresses: "named_entry_addresses call_descriptor_layout 0x10 0 = Some (0x30,0x34)" by code_simp

lemma call_name: "c_string [98] = ''b''" by code_simp

lemma call_named: "read_named_entry call_env call_object_profile call_started (call_world s) (0x30, 0x34) = Some (2, ''b'')"
proof -
  have o: "op_raw call_object_profile = call_raw" by (simp add: call_object_profile_def)
  have m: "dw_memory (call_world s) = call_memory" by (simp add: call_world_def)
  have t: "ucast (rw_smi_tag_mask call_raw) = (1 :: u64)"  by (simp add: call_raw_def)
  show ?thesis
    unfolding read_named_entry_def prod.case o m
    by (simp add: call_words t call_tag call_smi call_heap call_string call_name UINT64_MAX_def)
qed

lemma call_entry: "ReadDescriptorNamedEntry call_env call_started (call_world s) 0 = Some (2, ''b'')"
proof -
  have o: "ev_object_profile call_env x = call_object_profile" "op_raw call_object_profile = call_raw"
    "ev_descriptor_layout call_env x = call_descriptor_layout"
    "fr_profile call_started \<noteq> None" "dl_named_entry_size call_descriptor_layout \<noteq> 0" "rw_compressed_word_size call_raw = 4" for x
    by (simp_all add: call_env_def call_object_profile_def call_frame_def frame_0_def call_descriptor_layout_def call_raw_def)
  have d: "0x11 - 1 = (0x10 :: u64)" by simp
  show ?thesis
    unfolding ReadDescriptorNamedEntry_def Let_def
    by (simp only: call_layout_of o call_location call_tagged call_tag option.case if_False simp_thms d bind.bind_lunit call_addresses of_nat_0 call_named one_neq_zero)
 (simp add: call_addresses call_named)
qed

lemma call_actuals: "actuals call_signature call_info (ReadDescriptorNamedEntry call_env call_started (call_world s)) = Some [0, 1]"
proof -
  have u: "[0..<unat (2 - 1 :: u32)] = [0]" "[0..<unat (1 :: u32)] = [0]" by simp_all
  have c: "\<not> (2 :: u32) \<le> 1" by code_simp
  have n: "named_formal call_signature ''b'' = Some 1" by code_simp
  have p: "map_positionals (user_fixed_count call_signature) [0] (replicate 2 (-1)) = Some [0, -1]" by code_simp
  have k: "place_named call_signature 3 (Some (2, ''b'')) [0, -1] = Some [0, 1]" 
    using n by (simp add: place_named_def c)
  have f: "formals_ok call_signature [0, 1]" by code_simp
  have s: "length (cs_formals call_signature) = 2" "cs_has_named_optional_parameters call_signature"
    by (simp_all add: call_signature_def)
  show ?thesis
    unfolding actuals_def call_info_def descriptor_info.simps u s
    using p by (simp add: s call_entry k f)
qed

definition call_mapped :: dispatch_frame where
  "call_mapped = call_started\<lparr>fr_mapped := [tagged_parameter\<lparr>pl_location := argument_slot 2 0\<rparr>,
     tagged_parameter\<lparr>pl_location := argument_slot 2 1\<rparr>], fr_mapping_valid := True\<rparr>"

lemma call_mapping: "map_arguments call_env call_sample_layout call_signature call_started (call_world s) =
   (True, call_mapped, call_world s)"
proof -
  have a: "descriptor_shape_ok call_info" "descriptor_matches call_signature call_info" by code_simp+
  have b: "locate_type_arguments call_env call_info call_started (call_world s) = (True, call_started)"
    by (simp add: locate_type_arguments_def call_info_def)
  have c: "prove_closure_call call_env call_sample_layout call_started (call_world s) = (True, call_world s)"
    by (simp add: prove_closure_call_def adapter_supports_proof_def supports_proof_def call_frame_def frame_0_def)
  have d: "finish_mapping call_sample_layout call_info [0, 1] call_started = (True, call_mapped)" 
    by (simp add: finish_mapping_def call_mapped_def call_sample_layout_def call_info_def formal_location_def stack_slot_def kInt32Max_def argument_slot_def)
  show ?thesis
    unfolding map_arguments_def by (simp add: call_descriptor a call_actuals b c d)
qed

lemma call_ensure:
  "EnsureClosureArgumentMapping call_env call_frame (call_world s) = (True, call_mapped, call_world s)"
proof -
  have l: "fr_layout call_frame = Some call_sample_layout" "\<not> fr_mapping_attempted call_frame"
    "cl_closure_signature call_sample_layout = Some call_signature"
    by (simp_all add: call_frame_def frame_0_def call_sample_layout_def)
  have "signature_ok call_sample_layout call_signature" by code_simp
  then show ?thesis using l by (simp add: EnsureClosureArgumentMapping_def call_mapping)
qed

lemmas call_facts = call_layout_of(1) call_ensure [of undefined] call_descriptor [of undefined]

lemma call_hypotheses:
  "fr_layout call_frame = Some call_sample_layout" "cl_closure_signature call_sample_layout = Some call_signature"
  "\<not> fr_mapping_attempted call_frame" "length (cl_parameters call_sample_layout) = 2"
  by (simp_all add: call_frame_def frame_0_def call_sample_layout_def)


theorem closure_mapping_bijective_witness:
  "\<exists>actual. bij_betw actual
     {i. i < 2 \<and> vl_count (pl_location (fr_mapped call_mapped ! i)) = 1} {..<2 :: nat}"
proof -
  have wp: "well_placed call_info (ReadDescriptorNamedEntry call_env call_started (call_world undefined))"
    by (simp add: well_placed_def call_info_def call_entry lessThan_Suc)
  have "length (cl_parameters call_sample_layout) < 2 ^ 31" by (simp add: call_hypotheses(4))
  from closure_mapping_bijective [OF call_ensure [of undefined] call_hypotheses(1,2,3) this
      call_descriptor [of undefined] wp]
  show ?thesis by (auto simp: call_hypotheses(4) call_info_def)
qed

end
