(* ===== verification/Invocation_Props.thy ===== *)
theory Invocation_Props
  imports Invocation Closure_Arguments_Props
begin

text \<open>
  What the invocation interface promises: the kinds of the values it reads, that a value written
  is the value read back, that a refused operation leaves the call alone, and which operations a
  phase admits.
\<close>

section \<open>Words in memory\<close>

lemma load_store_same: "load64 (store64 a v mem) a = v"
proof -
  have "map (\<lambda>i. store64 a v mem (a + of_nat i)) [0..<8] = encode_le 8 (unat v)"
    unfolding encode_le_def
  proof (rule map_cong [OF refl])
    fix i assume "i \<in> set [0..<8]"
    then have i: "i < 8" by simp
    then have u: "unat (of_nat i :: u64) = i" by (simp add: unat_of_nat take_bit_nat_eq_self)
    have "(of_nat i :: u64) < 8" using i by (simp only: word_less_nat_alt u) simp
    moreover have "(ucast (drop_bit (8 * i) v) :: u8) = of_nat (unat (drop_bit (8 * i) v))"
      by (simp add: word_of_nat_eq_iff)
    moreover have "unat (drop_bit (8 * i) v) = unat v div 256 ^ i"
      unfolding unat_drop_bit_eq by (simp add: drop_bit_eq_div power_mult)
    ultimately show "store64 a v mem (a + of_nat i) = of_nat (unat v div 256 ^ i)"
      by (simp add: store64_def u)
  qed
  moreover have "unat v mod 256 ^ 8 = unat v" using unsigned_less [of v, where ?'a = nat] by simp
  ultimately show ?thesis by (simp add: load64_def le_nat_encode)
qed

section \<open>Values of a kind\<close>

text \<open>The kinds a representation is read as.\<close>

fun kinds_of :: "representation \<Rightarrow> value_kind list" where
  "kinds_of RepTagged = [ValNull, ValBool, ValSmi, ValHeapObject]"
| "kinds_of RepUnboxedInt64 = [ValInt64]"
| "kinds_of RepUnboxedDouble = [ValDouble]"
| "kinds_of _ = []"

lemma decode_tagged_kind: "val_kind (decode_tagged s f True raw) \<in> set (kinds_of RepTagged)"
  by (auto simp: decode_tagged_def decode_gp_word_def RefineTaggedSemanticValue_def bool_value_def
      split: option.splits)

lemma decode_word_kind: "decode_word s f rep raw = Inr v \<Longrightarrow> val_kind v \<in> set (kinds_of rep)"
  using decode_tagged_kind [of s f raw]
  by (cases rep) (auto simp: decode_word_def decode_fp_word_def simp del: kinds_of.simps(1))

lemma decode_verified_kind:
  "DecodeVerifiedValue env f w p r = Inr v \<Longrightarrow> val_kind v \<in> set (kinds_of (pl_representation p))"
  by (auto simp: DecodeVerifiedValue_def dest: decode_word_kind split: if_splits option.splits)

section \<open>Words encode what they decode to\<close>

lemma encode_decode_tagged: "EncodeGpSemanticValue s f (Some (decode_tagged s f True raw)) True = Inr raw"
proof (cases "val_kind (decode_gp_word raw True (ActiveValidatedNullValue s f)) = ValHeapObject")
  case False
  then have "decode_tagged s f True raw = decode_gp_word raw True (ActiveValidatedNullValue s f)"
    by (simp add: decode_tagged_def RefineTaggedSemanticValue_def)
  then show ?thesis using False
    by (auto simp: EncodeGpSemanticValue_def word_answer_def codec_defs tag_dichotomy)
next
  case True
  then have heap: "is_tagged_heap_object raw"
    and raw: "val_raw (decode_gp_word raw True (ActiveValidatedNullValue s f)) = raw"
    by (auto simp: decode_gp_word_def split: if_splits)
  show ?thesis
  proof (cases "ActiveValidatedBoolValues s f")
    case None
    then have "decode_tagged s f True raw = decode_gp_word raw True (ActiveValidatedNullValue s f)"
      by (simp add: decode_tagged_def RefineTaggedSemanticValue_def)
    then show ?thesis using True heap raw
      by (simp add: EncodeGpSemanticValue_def word_answer_def encode_gp_word_def)
  next
    case (Some b)
    obtain t e where b: "b = (t, e)" by (cases b)
    have te: "t \<noteq> e" using Some by (auto simp: b ActiveValidatedBoolValues_def split: if_splits)
    show ?thesis using Some True heap raw te
      by (cases "raw = t"; cases "raw = e") (auto simp: b decode_tagged_def RefineTaggedSemanticValue_def bool_value_def
          EncodeGpSemanticValue_def word_answer_def encode_gp_word_def)
  qed
qed

lemma encode_decode_word: "decode_word s f rep raw = Inr v \<Longrightarrow> encode_word s f rep v = Inr raw"
  by (cases rep) (auto simp: decode_word_def encode_word_def decode_fp_word_def encode_decode_tagged)

lemma encode_word_kind:
  assumes "encode_word s f rep v = Inr w" "decode_word s f rep' raw = Inr v"
  shows "rep' = rep"
  using assms decode_word_kind [OF assms(2)]
  by (cases rep; cases rep')
    (auto simp: encode_word_def EncodeGpSemanticValue_def word_answer_def encode_gp_word_def split: if_splits)

section \<open>Writing a verified location\<close>

text \<open>Only general registers and stack slots have roots.\<close>

definition accesses_ok :: "dispatch_frame \<Rightarrow> bool" where
  "accesses_ok f \<longleftrightarrow>
     (\<forall>r \<in> set (fr_accesses f). loc_kind (ra_location r) = LocGpRegister \<or> loc_kind (ra_location r) = LocEntryStack)"

lemma root_of_kind:
  assumes "accesses_ok f" "root_of f loc r = Some i"
  shows "loc_kind loc = LocGpRegister \<or> loc_kind loc = LocEntryStack"
  using assms by (fastforce simp: root_of_def accesses_ok_def find_Some_iff split: if_splits)

lemma root_of_context [simp]: "root_of (f\<lparr>fr_context := c\<rparr>) = root_of f"
  by (intro ext) (auto simp: root_of_def)

lemma root_of_register [simp]: "root_of (set_register i v f) = root_of f"
  by (simp add: set_register_def)

lemma root_set_get:
  assumes "root_set env f w i v = (True, w')" and "ev_status env (dw_clock w') = DP_OK"
    and "fr_adapter g = fr_adapter f" "fr_lease g = fr_lease f"
  shows "root_get env g w' i = Some v"
  using assms
  by (auto simp: root_set_def root_get_def root_read_def tick_def VmAdapterGeneratedRootSet_def
      VmAdapterGeneratedRootGet_def Let_def split: option.splits if_splits)

lemma root_set_registry: "root_set env f w i v = (ok, w') \<Longrightarrow> dw_registry w' = dw_registry w"
  by (auto simp: root_set_def tick_def split: option.splits if_splits)

lemma write_verified_fields:
  assumes "WriteVerifiedLocation env loc r v f w = (ok, f', w')"
  shows "\<exists>c. f' = f\<lparr>fr_context := c\<rparr>" "dw_registry w' = dw_registry w"
  using assms
  by (auto simp: WriteVerifiedLocation_def write_root_def set_register_def dest!: root_set_registry
      intro: exI [of _ "fr_context f"] split: location_kind.splits if_splits option.splits prod.splits)

lemma write_read_register:
  assumes "WriteVerifiedLocation env loc r v f w = (True, f', w')" "loc_kind loc = LocGpRegister"
    and "ev_status env (dw_clock w') = DP_OK"
  shows "ReadVerifiedLocation env f' w' loc r = Some v"
proof -
  from assms have i: "\<not> loc_register_index loc \<ge> 31"
    and w: "write_root env loc r v (set_register (unat (loc_register_index loc)) v f) w = (True, f', w')"
    by (simp_all add: WriteVerifiedLocation_def split: if_splits)
  show ?thesis
  proof (cases "root_of f loc r")
    case None
    then have "f' = set_register (unat (loc_register_index loc)) v f" "root_of f' loc r = None"
      using w by (auto simp: write_root_def)
    then show ?thesis using assms(2) i by (simp add: ReadVerifiedLocation_def) (simp add: set_register_def)
  next
    case (Some k)
    then have u: "root_set env f' w k v = (True, w')" "f' = set_register (unat (loc_register_index loc)) v f"
      using w by (auto simp: write_root_def split: prod.splits)
    have "root_of f' loc r = Some k" using Some by (simp add: u(2))
    then show ?thesis using root_set_get [OF u(1) assms(3) refl refl] by (simp add: ReadVerifiedLocation_def)
  qed
qed

lemma write_read_stack:
  assumes "WriteVerifiedLocation env loc r v f w = (True, f', w')" "loc_kind loc = LocEntryStack"
    and "ev_status env (dw_clock w') = DP_OK"
  shows "ReadVerifiedLocation env f' w' loc r = Some v"
proof -
  from assms obtain a where a: "entry_slot f loc = Some a"
    and w: "write_root env loc r v f (w\<lparr>dw_memory := store64 a v (dw_memory w)\<rparr>) = (True, f', w')"
    by (auto simp: WriteVerifiedLocation_def split: option.splits)
  show ?thesis
  proof (cases "root_of f loc r")
    case None
    then have "f' = f" "w' = w\<lparr>dw_memory := store64 a v (dw_memory w)\<rparr>" using w by (auto simp: write_root_def)
    then show ?thesis using assms(2) None a by (simp add: ReadVerifiedLocation_def load_store_same)
  next
    case (Some k)
    then have u: "root_set env f (w\<lparr>dw_memory := store64 a v (dw_memory w)\<rparr>) k v = (True, w')" "f' = f"
      using w by (auto simp: write_root_def split: prod.splits)
    then show ?thesis using root_set_get [OF u(1) assms(3) refl refl] Some by (simp add: ReadVerifiedLocation_def)
  qed
qed

lemma write_read_fp:
  assumes "WriteVerifiedLocation env loc r v f w = (True, f', w')" "loc_kind loc = LocFpuRegister"
    and "accesses_ok f"
  shows "ReadVerifiedLocation env f' w' loc r = Some v"
proof -
  have "root_of f loc r = None" using root_of_kind [OF assms(3), of loc r] assms(2) by (cases "root_of f loc r") auto
  with assms(1,2) show ?thesis
    by (auto simp: WriteVerifiedLocation_def ReadVerifiedLocation_def split: if_splits)
qed

lemma write_read_location:
  assumes "WriteVerifiedLocation env loc r v f w = (True, f', w')" "accesses_ok f"
    and "ev_status env (dw_clock w') = DP_OK"
  shows "ReadVerifiedLocation env f' w' loc r = Some v"
proof (cases "loc_kind loc")
  case LocUnknown
  then show ?thesis using assms(1) by (simp add: WriteVerifiedLocation_def)
next
  case LocGpRegister
  then show ?thesis using write_read_register assms by blast
next
  case LocFpuRegister
  then show ?thesis using write_read_fp assms by blast
next
  case LocEntryStack
  then show ?thesis using write_read_stack assms by blast
qed

section \<open>The mapping is made once\<close>

text \<open>The mapping changes the frame's four mapping fields and, in the world, the adapter.\<close>

definition remapped :: "dispatch_frame \<Rightarrow> dispatch_frame \<Rightarrow> bool" where
  "remapped f g \<longleftrightarrow> (\<exists>a m v t. g = fr_mapping_attempted_update a (fr_mapped_update m
     (fr_mapping_valid_update v (fr_type_arguments_update t f))))"

lemma remapped_refl [intro]: "remapped f f"
proof -
  have "f = fr_mapping_attempted_update id (fr_mapped_update id
      (fr_mapping_valid_update id (fr_type_arguments_update id f)))" by simp
  then show ?thesis unfolding remapped_def by blast
qed

lemma remapped_updates:
  assumes "remapped f g"
  shows "remapped f (fr_mapping_attempted_update a g)" "remapped f (fr_mapped_update m g)"
    "remapped f (fr_mapping_valid_update v g)" "remapped f (fr_type_arguments_update t g)"
proof -
  obtain a' m' v' t' where g: "g = fr_mapping_attempted_update a' (fr_mapped_update m'
      (fr_mapping_valid_update v' (fr_type_arguments_update t' f)))"
    using assms by (auto simp: remapped_def)
  show "remapped f (fr_mapping_attempted_update a g)" "remapped f (fr_mapped_update m g)"
    "remapped f (fr_mapping_valid_update v g)" "remapped f (fr_type_arguments_update t g)"
    unfolding remapped_def g
    by (rule exI [of _ "a \<circ> a'"] exI [of _ a'], rule exI [of _ m'] exI [of _ "m \<circ> m'"],
        rule exI [of _ v'], rule exI [of _ t'], simp add: comp_def)
      (rule exI [of _ a'], rule exI [of _ "m \<circ> m'"], rule exI [of _ v'], rule exI [of _ t'], simp add: comp_def,
       rule exI [of _ a'], rule exI [of _ m'], rule exI [of _ "v \<circ> v'"], rule exI [of _ t'], simp add: comp_def,
       rule exI [of _ a'], rule exI [of _ m'], rule exI [of _ v'], rule exI [of _ "t \<circ> t'"], simp add: comp_def)
qed

lemma remapped_trans: "remapped f g \<Longrightarrow> remapped g h \<Longrightarrow> remapped f h"
  unfolding remapped_def [of g h] by (elim exE) (simp add: remapped_updates)

lemma remapped_fields:
  assumes "remapped f g"
  shows "fr_layout g = fr_layout f" "fr_phase g = fr_phase f" "fr_profile g = fr_profile f"
    "fr_accesses g = fr_accesses f" "fr_context g = fr_context f" "fr_adapter g = fr_adapter f"
    "fr_generation g = fr_generation f" "fr_expected g = fr_expected f" "fr_null_value g = fr_null_value f"
    "fr_true_value g = fr_true_value f" "fr_false_value g = fr_false_value f"
  using assms by (auto simp: remapped_def)

lemma adapter_op_generation: "adapter_op oper f w = (st, w') \<Longrightarrow> hr_generation (dw_registry w') = hr_generation (dw_registry w)"
  by (auto simp: adapter_op_def set_adapter_def set_registry_def tick_def split: option.splits prod.splits)

lemma prove_capability_generation:
  "prove_capability env kind f w = (st, p, w') \<Longrightarrow> hr_generation (dw_registry w') = hr_generation (dw_registry w)"
  by (auto simp: prove_capability_def dest: adapter_op_generation split: prod.splits)

lemma prove_descriptor_generation:
  "prove_descriptor env cl f w = (st, w') \<Longrightarrow> hr_generation (dw_registry w') = hr_generation (dw_registry w)"
  by (auto simp: prove_descriptor_def dest!: prove_capability_generation
      split: prod.splits option.splits if_splits)

lemma get_descriptor_generation:
  "dartplant_invocation_get_arguments_descriptor env f w = (r, w') \<Longrightarrow>
   hr_generation (dw_registry w') = hr_generation (dw_registry w)"
  by (auto simp: dartplant_invocation_get_arguments_descriptor_def dest!: prove_descriptor_generation
      split: prod.splits option.splits if_splits)

lemma prove_closure_generation:
  "prove_closure_call env cl f w = (ok, w') \<Longrightarrow> hr_generation (dw_registry w') = hr_generation (dw_registry w)"
  by (auto simp: prove_closure_call_def dest!: prove_capability_generation
      split: prod.splits option.splits if_splits)

lemma locate_effect:
  assumes "locate_type_arguments env info f w = (ok, f')"
  shows "remapped f f'" "fr_mapping_attempted f' = fr_mapping_attempted f"
    "fr_mapping_valid f' = fr_mapping_valid f"
  using assms
  by (auto simp: locate_type_arguments_def remapped_updates remapped_refl split: if_splits option.splits)

lemma finish_remapped: "finish_mapping cl info acc f = (ok, f') \<Longrightarrow> remapped f f'"
  by (auto simp: finish_mapping_def remapped_updates remapped_refl split: option.splits)

lemma map_arguments_effect:
  assumes "map_arguments env cl s f w = (ok, f', w')"
  shows "remapped f f' \<and> fr_mapping_attempted f' = fr_mapping_attempted f \<and>
    hr_generation (dw_registry w') = hr_generation (dw_registry w) \<and>
    (ok \<longrightarrow> fr_mapping_valid f') \<and> (\<not> fr_mapping_valid f \<longrightarrow> fr_mapping_valid f' = ok)"
proof -
  obtain r w1 where d: "dartplant_invocation_get_arguments_descriptor env f w = (r, w1)" by fastforce
  note g1 = get_descriptor_generation [OF d]
  show ?thesis
  proof (cases "\<exists>info acc f1. r = Inr info \<and> descriptor_shape_ok info \<and> descriptor_matches s info \<and>
      actuals s info (ReadDescriptorNamedEntry env f w1) = Some acc \<and>
      locate_type_arguments env info f w1 = (True, f1)")
    case False
    then show ?thesis using assms d g1
      by (auto simp: map_arguments_def remapped_refl dest: locate_effect
          split: sum.splits if_splits option.splits prod.splits bool.splits)
  next
    case True
    then obtain info acc f1 where r: "r = Inr info" "descriptor_shape_ok info" "descriptor_matches s info"
      "actuals s info (ReadDescriptorNamedEntry env f w1) = Some acc"
      and loc: "locate_type_arguments env info f w1 = (True, f1)" by auto
    obtain p w2 where pr: "prove_closure_call env cl f1 w1 = (p, w2)" by fastforce
    obtain ok2 f2 where fin: "finish_mapping cl info acc f1 = (ok2, f2)" by fastforce
    note keep = locate_effect(2,3) [OF loc]
    have keep2: "fr_mapping_attempted f2 = fr_mapping_attempted f1" "ok2 \<longrightarrow> fr_mapping_valid f2"
      "\<not> ok2 \<longrightarrow> fr_mapping_valid f2 = fr_mapping_valid f1"
      using fin by (auto simp: finish_mapping_def split: option.splits)
    have res: "(ok, f', w') = (if p then (ok2, f2, w2) else (False, f1, w2))"
      using assms d r loc pr fin by (auto simp: map_arguments_def split: bool.splits)
    show ?thesis
      using res g1 prove_closure_generation [OF pr] keep keep2 locate_effect(1) [OF loc]
        remapped_trans [OF locate_effect(1) [OF loc] finish_remapped [OF fin]]
      by (cases p) auto
  qed
qed

lemma ensure_effect:
  assumes "EnsureClosureArgumentMapping env f w = (ok, f', w')"
  shows "remapped f f'" "hr_generation (dw_registry w') = hr_generation (dw_registry w)"
proof -
  have "remapped f f' \<and> hr_generation (dw_registry w') = hr_generation (dw_registry w)"
  proof (cases "\<exists>cl s. fr_layout f = Some cl \<and> cl_closure_signature cl = Some s \<and>
      \<not> fr_mapping_attempted f \<and> signature_ok cl s")
    case True
    then obtain cl s where "map_arguments env cl s (f\<lparr>fr_mapping_attempted := True\<rparr>) w = (ok, f', w')"
      using assms by (auto simp: EnsureClosureArgumentMapping_def)
    from map_arguments_effect [OF this] show ?thesis
      using remapped_trans [OF remapped_updates(1) [OF remapped_refl]] by blast
  next
    case False
    then show ?thesis using assms
      by (auto simp: EnsureClosureArgumentMapping_def remapped_updates remapped_refl
          split: option.splits if_splits)
  qed
  then show "remapped f f'" "hr_generation (dw_registry w') = hr_generation (dw_registry w)" by auto
qed

text \<open>Asking again, for a frame with the same mapping, changes nothing.\<close>

lemma ensure_again:
  assumes "EnsureClosureArgumentMapping env f w = (True, f', w')"
    and "fr_layout g = fr_layout f'" "fr_mapping_attempted g = fr_mapping_attempted f'"
    "fr_mapping_valid g = fr_mapping_valid f'"
  shows "EnsureClosureArgumentMapping env g u = (True, g, u)"
proof (cases "\<exists>cl s. fr_layout f = Some cl \<and> cl_closure_signature cl = Some s")
  case False
  moreover have "fr_layout f' = fr_layout f" using remapped_fields(1) [OF ensure_effect(1) [OF assms(1)]] .
  ultimately show ?thesis using assms(2)
    by (auto simp: EnsureClosureArgumentMapping_def split: option.splits)
next
  case True
  then obtain cl s where cl: "fr_layout f = Some cl" "cl_closure_signature cl = Some s" by auto
  moreover have "fr_layout f' = fr_layout f" using remapped_fields(1) [OF ensure_effect(1) [OF assms(1)]] .
  moreover have "fr_mapping_attempted f' \<and> fr_mapping_valid f'"
  proof (cases "fr_mapping_attempted f")
    case True
    then show ?thesis using assms(1) cl by (auto simp: EnsureClosureArgumentMapping_def)
  next
    case False
    then have "map_arguments env cl s (f\<lparr>fr_mapping_attempted := True\<rparr>) w = (True, f', w')"
      using assms(1) cl by (auto simp: EnsureClosureArgumentMapping_def split: if_splits)
    from map_arguments_effect [OF this] show ?thesis by simp
  qed
  ultimately show ?thesis using assms(2-4) by (simp add: EnsureClosureArgumentMapping_def)
qed

lemma active_parameter_effect:
  assumes "active_parameter env i f w = (p, f', w')"
  shows "remapped f f'" "hr_generation (dw_registry w') = hr_generation (dw_registry w)"
  using assms ensure_effect [of env f w]
  by (auto simp: active_parameter_def ActiveParameters_def split: prod.splits)

lemma active_parameter_again:
  assumes "active_parameter env i f w = (Some p, f', w')"
    and "fr_layout g = fr_layout f'" "fr_mapping_attempted g = fr_mapping_attempted f'"
    "fr_mapping_valid g = fr_mapping_valid f'" "fr_mapped g = fr_mapped f'"
  shows "active_parameter env i g u = (Some p, g, u)"
proof -
  from assms(1) obtain ok where e: "EnsureClosureArgumentMapping env f w = (ok, f', w')"
    by (auto simp: active_parameter_def ActiveParameters_def split: prod.splits)
  with assms(1) have ok: "ok = True" by (auto simp: active_parameter_def ActiveParameters_def split: if_splits)
  have "EnsureClosureArgumentMapping env g u = (True, g, u)"
    by (rule ensure_again [OF e [unfolded ok] assms(2-4)])
  moreover have "active_parameters g = active_parameters f'" using assms(2-5) by (simp add: active_parameters_def)
  ultimately show ?thesis using assms(1) e
    by (auto simp: active_parameter_def ActiveParameters_def split: if_splits)
qed

section \<open>Setting an argument\<close>

lemma same_values:
  assumes "hr_generation s' = hr_generation s" "fr_generation g = fr_generation f" "fr_expected g = fr_expected f"
    "fr_null_value g = fr_null_value f" "fr_true_value g = fr_true_value f" "fr_false_value g = fr_false_value f"
  shows "decode_word s' g = decode_word s f"
  using assms by (intro ext) (simp add: decode_word_def decode_tagged_def RefineTaggedSemanticValue_def
      ActiveValidatedBoolValues_def ActiveValidatedNullValue_def generation_is_current_def
      cong: representation.case_cong option.case_cong)

lemma encode_word_error: "encode_word s f rep v \<noteq> Inl DP_OK"
  by (cases rep) (auto simp: encode_word_def EncodeGpSemanticValue_def word_answer_def encode_gp_word_def
      split: if_splits option.splits)

lemma encode_verified_success:
  assumes "EncodeVerifiedValue env p (Some v) r f w = (DP_OK, f', w')"
  obtains raw where "pl_representation p \<noteq> RepPairOfTagged" "slot_ok p"
    "encode_word (dw_registry w) f (pl_representation p) v = Inr raw"
    "WriteVerifiedLocation env (slot_location p 0) r raw f w = (True, f', w')"
  using assms encode_word_error
  by (auto simp: EncodeVerifiedValue_def split: if_splits sum.splits prod.splits)

text \<open>A slot that took a value some word decodes to gives that value back.\<close>

lemma verified_roundtrip:
  assumes en: "EncodeVerifiedValue env p (Some v) r f w = (DP_OK, f', w')" and ok: "accesses_ok f"
    and status: "ev_status env (dw_clock w') = DP_OK"
    and v: "decode_word (dw_registry w) f rep raw = Inr v"
  shows "DecodeVerifiedValue env f' w' p r = Inr v"
proof -
  obtain raw' where p: "pl_representation p \<noteq> RepPairOfTagged" "slot_ok p"
    and e: "encode_word (dw_registry w) f (pl_representation p) v = Inr raw'"
    and wr: "WriteVerifiedLocation env (slot_location p 0) r raw' f w = (True, f', w')"
    using encode_verified_success [OF en] by blast
  have rep: "rep = pl_representation p" by (rule encode_word_kind [OF e v])
  have "raw' = raw" using e encode_decode_word [OF v] rep by simp
  then have rd: "ReadVerifiedLocation env f' w' (slot_location p 0) r = Some raw"
    using write_read_location [OF wr ok status] by simp
  obtain c where c: "f' = f\<lparr>fr_context := c\<rparr>" using write_verified_fields(1) [OF wr] by blast
  have "decode_word (dw_registry w') f' = decode_word (dw_registry w) f"
    by (rule same_values) (simp_all add: c write_verified_fields(2) [OF wr])
  then show ?thesis using p rd v rep by (simp add: DecodeVerifiedValue_def)
qed


text \<open>The named argument of the call in memory, set to a heap object.\<close>

definition call_object :: dp_value where
  "call_object = \<lparr>val_kind = ValHeapObject, val_reserved = 0, val_raw = 0x21\<rparr>"

lemma call_object_word: "decode_word s call_frame RepTagged 0x21 = Inr call_object"
  by (simp add: decode_word_def decode_tagged_def decode_gp_word_def RefineTaggedSemanticValue_def
      ActiveValidatedNullValue_def ActiveValidatedBoolValues_def generation_is_current_def call_frame_def
      frame_0_def is_tagged_heap_object_def VM_TAG_MASK_def VM_HEAP_OBJECT_TAG_def call_object_def)

lemma call_set:
  "fst (dartplant_invocation_set_argument call_env 1 (Some call_object) call_frame (call_world s)) = DP_OK"
proof -
  have acc: "argument_accessible call_frame 1" "fr_phase call_frame = PhaseEnter" "HasVerifiedCallLayout call_frame"
    by (simp_all add: argument_accessible_def ArgumentAccessEnabled_def HasVerifiedCallLayout_def
        dartplant_invocation_argument_count_def call_frame_def frame_0_def call_sample_layout_def)
  let ?p = "tagged_parameter\<lparr>pl_location := argument_slot 2 1\<rparr>"
  have act: "active_parameter call_env 1 call_frame (call_world s) = (Some ?p, call_mapped, call_world s)"
    by (simp add: active_parameter_def ActiveParameters_def call_ensure active_parameters_def call_mapped_def)
  have "encode_word s call_mapped RepTagged call_object = Inr 0x21"
  proof (rule encode_decode_word)
    have "decode_word s call_mapped = decode_word s call_frame"
      by (rule same_values) (simp_all add: call_mapped_def)
    then show "decode_word s call_mapped RepTagged 0x21 = Inr call_object" by (simp add: call_object_word)
  qed
  moreover have "root_of call_mapped l False = None" for l
    by (simp add: root_of_def call_mapped_def call_frame_def frame_0_def)
  moreover have "entry_slot call_mapped \<lparr>loc_kind = LocEntryStack, loc_register_index = 0, loc_stack_offset = 0\<rparr> = Some 0x8000"
    by (simp add: entry_slot_def call_mapped_def call_frame_def call_sample_layout_def call_layout_0_def)
  ultimately have "fst (EncodeVerifiedValue call_env ?p (Some call_object) False call_mapped (call_world s)) = DP_OK"
    by (simp add: EncodeVerifiedValue_def tagged_parameter_def slot_ok_def slot_location_def argument_slot_def
        call_world_def WriteVerifiedLocation_def write_root_def)
  then show ?thesis using acc act by (simp add: dartplant_invocation_set_argument_def)
qed


section \<open>Types\<close>

text \<open>A mapping keeps the representations of the layout.\<close>

definition mapping_typed :: "dispatch_frame \<Rightarrow> bool" where
  "mapping_typed f \<longleftrightarrow> \<not> fr_mapping_valid f \<or>
     (case fr_layout f of None \<Rightarrow> False
      | Some cl \<Rightarrow> map pl_representation (fr_mapped f) = map pl_representation (cl_parameters cl))"

lemma map_locations_representation:
  "map_locations users as ps = Some qs \<Longrightarrow> map pl_representation qs = map pl_representation ps"
  by (induction users as ps arbitrary: qs rule: map_locations.induct) (auto simp: bind_eq_Some_conv)

definition mapping_once :: "dispatch_frame \<Rightarrow> bool" where
  "mapping_once f \<longleftrightarrow> mapping_typed f \<and> (fr_mapping_attempted f \<or> \<not> fr_mapping_valid f)"

lemma ensure_typed:
  assumes e: "EnsureClosureArgumentMapping env f w = (ok, f', w')" and t: "mapping_once f"
  shows "mapping_once f'"
proof (cases "\<exists>cl s. fr_layout f = Some cl \<and> cl_closure_signature cl = Some s \<and>
    \<not> fr_mapping_attempted f \<and> signature_ok cl s")
  case True
  then obtain cl s where cl: "fr_layout f = Some cl" "cl_closure_signature cl = Some s"
    "\<not> fr_mapping_attempted f" and m: "map_arguments env cl s (f\<lparr>fr_mapping_attempted := True\<rparr>) w = (ok, f', w')"
    using e by (auto simp: EnsureClosureArgumentMapping_def)
  have eff: "fr_mapping_attempted f'" "\<not> fr_mapping_valid f \<longrightarrow> fr_mapping_valid f' = ok"
    using map_arguments_effect [OF m] by simp_all
  have invalid: "\<not> fr_mapping_valid f" using t cl(3) by (simp add: mapping_once_def)
  show ?thesis
  proof (cases ok)
    case True
    then have e': "EnsureClosureArgumentMapping env f w = (True, f', w')" using e by simp
    show ?thesis
    proof (rule mapping_success [OF e' cl])
      fix info acc
      assume "map_locations (di_count info - 1) acc (cl_parameters cl) = Some (fr_mapped f')"
      then have "map pl_representation (fr_mapped f') = map pl_representation (cl_parameters cl)"
        by (rule map_locations_representation)
      moreover have "fr_layout f' = Some cl" using remapped_fields(1) [OF ensure_effect(1) [OF e]] cl(1) by simp
      ultimately show ?thesis using eff(1) by (simp add: mapping_once_def mapping_typed_def)
    qed
  next
    case False
    then show ?thesis using eff invalid by (simp add: mapping_once_def mapping_typed_def)
  qed
next
  case False
  then show ?thesis using e t
    by (auto simp: EnsureClosureArgumentMapping_def mapping_once_def mapping_typed_def
        split: option.splits if_splits)
qed

text \<open>
  Reading an argument is typed: in a verified call whose mapping keeps the layout's
  representations, the value read for argument \<open>i\<close> has a kind its representation allows, a
  64-bit integer, a double, or null, a boolean, a small integer or an object for a tagged slot,
  and the mapping the read may have made keeps the representations too.
\<close>

theorem argument_kind:
  assumes get: "dartplant_invocation_get_argument env i f w = (Inr v, f', w')"
    and cl: "fr_layout f = Some cl"
    and t: "mapping_once f"
  shows "unat i < length (cl_parameters cl) \<and>
    val_kind v \<in> set (kinds_of (pl_representation (cl_parameters cl ! unat i))) \<and>
    mapping_once f'"
proof -
  from get cl obtain p where act: "active_parameter env i f w = (Some p, f', w')"
    and de: "DecodeVerifiedValue env f' w' p False = Inr v"
    by (auto simp: dartplant_invocation_get_argument_def HasVerifiedCallLayout_def
        split: if_splits prod.splits option.splits)
  from act obtain ok where e: "EnsureClosureArgumentMapping env f w = (ok, f', w')" and ok: "ok"
    by (auto simp: active_parameter_def ActiveParameters_def split: prod.splits if_splits)
  note typed = ensure_typed [OF e t]
  have lay: "fr_layout f' = Some cl" using remapped_fields(1) [OF ensure_effect(1) [OF e]] cl by simp
  from act e ok obtain ps where ps: "active_parameters f' = Some ps" "unat i < length ps" "p = ps ! unat i"
    by (auto simp: active_parameter_def ActiveParameters_def split: option.splits if_splits)
  have "map pl_representation ps = map pl_representation (cl_parameters cl)"
    using ps(1) typed lay by (auto simp: active_parameters_def mapping_once_def mapping_typed_def split: if_splits)
  then have "length ps = length (cl_parameters cl)" "pl_representation p = pl_representation (cl_parameters cl ! unat i)"
    using ps(2,3) by (metis length_map, metis length_map nth_map)
  then show ?thesis using decode_verified_kind [OF de] typed ps(2) by simp
qed

lemma call_get:
  "\<exists>v. dartplant_invocation_get_argument call_env 1 call_frame (call_world s) = (Inr v, call_mapped, call_world s)"
proof -
  have acc: "argument_accessible call_frame 1" "fr_phase call_frame = PhaseEnter" "HasVerifiedCallLayout call_frame"
    by (simp_all add: argument_accessible_def ArgumentAccessEnabled_def HasVerifiedCallLayout_def
        dartplant_invocation_argument_count_def call_frame_def frame_0_def call_sample_layout_def)
  let ?p = "tagged_parameter\<lparr>pl_location := argument_slot 2 1\<rparr>"
  have act: "active_parameter call_env 1 call_frame (call_world s) = (Some ?p, call_mapped, call_world s)"
    by (simp add: active_parameter_def ActiveParameters_def call_ensure active_parameters_def call_mapped_def)
  have "root_of call_mapped l False = None" for l
    by (simp add: root_of_def call_mapped_def call_frame_def frame_0_def)
  moreover have "entry_slot call_mapped \<lparr>loc_kind = LocEntryStack, loc_register_index = 0, loc_stack_offset = 0\<rparr> = Some 0x8000"
    by (simp add: entry_slot_def call_mapped_def call_frame_def call_sample_layout_def call_layout_0_def)
  ultimately have "\<exists>v. DecodeVerifiedValue call_env call_mapped (call_world s) ?p False = Inr v"
    by (simp add: DecodeVerifiedValue_def tagged_parameter_def slot_ok_def slot_location_def argument_slot_def
        ReadVerifiedLocation_def decode_word_def)
  then show ?thesis using acc act by (auto simp: dartplant_invocation_get_argument_def)
qed

theorem argument_kind_witness:
  "\<exists>v. dartplant_invocation_get_argument call_env 1 call_frame (call_world undefined) =
      (Inr v, call_mapped, call_world undefined) \<and> val_kind v \<in> set (kinds_of RepTagged)"
proof -
  obtain v where v: "dartplant_invocation_get_argument call_env 1 call_frame (call_world undefined) =
      (Inr v, call_mapped, call_world undefined)" using call_get by blast
  have once: "mapping_once call_frame"
    by (simp add: mapping_once_def mapping_typed_def call_frame_def frame_0_def)
  have "pl_representation (cl_parameters call_sample_layout ! unat (1 :: u32)) = RepTagged"
    by (simp add: call_sample_layout_def tagged_parameter_def)
  with v argument_kind [OF v call_hypotheses(1) once] show ?thesis by auto
qed

section \<open>A refused result\<close>

text \<open>
  C35: \<open>set_result\<close> writes before it looks at the phase: during an exception callback it refuses
  a 64-bit result of a register with the phase error, and leaves that register overwritten all
  the same. The pair operation refuses first and leaves the call alone.
\<close>

theorem refused_result_is_written:
  assumes "fr_layout f = Some cl" and "pl_representation (cl_result cl) = RepUnboxedInt64"
    and "slot_ok (cl_result cl)" and "loc_kind (slot_location (cl_result cl) 0) = LocGpRegister"
    and "loc_register_index (slot_location (cl_result cl) 0) = r" and "r < 31"
    and "root_of f (slot_location (cl_result cl) 0) True = None"
    and "fr_phase f = PhaseException" and "val_kind v = ValInt64"
  shows "dartplant_invocation_set_result env (Some v) f w =
      (DP_INVALID_INVOCATION_PHASE, set_register (unat r) (val_raw v) f, w) \<and>
    dartplant_invocation_set_result_pair env (Some p) f w = (DP_INVALID_INVOCATION_PHASE, f, w)"
proof -
  have "EncodeVerifiedValue env (cl_result cl) (Some v) True f w =
      (DP_OK, set_register (unat r) (val_raw v) f, w)"
    using assms by (simp add: EncodeVerifiedValue_def encode_word_def WriteVerifiedLocation_def
        write_root_def not_le)
  moreover have "fr_phase (set_register (unat r) (val_raw v) f) = PhaseException"
    using assms(8) by (simp add: set_register_def)
  ultimately show ?thesis using assms(1,8)
    by (simp add: dartplant_invocation_set_result_def ResultAccessEnabled_def HasVerifiedCallLayout_def
        dartplant_invocation_set_result_pair_def)
qed

definition refused_layout :: call_layout where
  "refused_layout = call_layout_0\<lparr>cl_result := \<lparr>pl_representation = RepUnboxedInt64,
     pl_location = \<lparr>vl_locations =
       [\<lparr>loc_kind = LocGpRegister, loc_register_index = 0, loc_stack_offset = 0\<rparr>, abi_location_0],
       vl_count = 1\<rparr>\<rparr>\<rparr>"

definition refused_frame :: dispatch_frame where
  "refused_frame = frame_0\<lparr>fr_phase := PhaseException, fr_layout := Some refused_layout\<rparr>"

theorem refused_result_is_written_witness:
  "dartplant_invocation_set_result call_env (Some \<lparr>val_kind = ValInt64, val_reserved = 0, val_raw = 42\<rparr>)
     refused_frame (call_world undefined) =
   (DP_INVALID_INVOCATION_PHASE, set_register 0 42 refused_frame, call_world undefined)"
proof -
  have "fr_layout refused_frame = Some refused_layout"
    "pl_representation (cl_result refused_layout) = RepUnboxedInt64"
    "slot_ok (cl_result refused_layout)"
    "loc_kind (slot_location (cl_result refused_layout) 0) = LocGpRegister"
    "loc_register_index (slot_location (cl_result refused_layout) 0) = 0" "(0 :: u8) < 31"
    "root_of refused_frame (slot_location (cl_result refused_layout) 0) True = None"
    "fr_phase refused_frame = PhaseException"
    "val_kind \<lparr>val_kind = ValInt64, val_reserved = 0, val_raw = 42\<rparr> = ValInt64"
    by (simp_all add: refused_frame_def refused_layout_def frame_0_def slot_ok_def slot_location_def root_of_def)
  from refused_result_is_written [OF this, THEN conjunct1] show ?thesis by simp
qed

end
