(* ===== verification/Generated_Bridge.thy ===== *)
theory Generated_Bridge
  imports Closure_Arguments
begin

text \<open>
  The bridge between generated Dart code and a callback
  (\<^verbatim>\<open>src/interceptor/callback_dispatch.cpp\<close>): the locations of a call that hold objects are
  bound, pinned as roots of the VM, and the thread goes to native state with a scope; on the way
  back the scope and the transition are left and the roots, which the collector may have moved,
  are written back to where they were. A failure the code cannot recover from
  (\<open>FatalGeneratedBridgeFailure\<close> ends the process) is \<open>None\<close>.
\<close>

type_synonym bridge_result = "(bool \<times> dispatch_frame \<times> dispatch_world) option"

section \<open>The roots of a call\<close>

definition add_parameter_root :: "call_layout \<Rightarrow> nat \<Rightarrow> parameter_layout \<Rightarrow> dispatch_frame \<Rightarrow>
    dispatch_frame option" where
  "add_parameter_root cl i p f =
     (if pl_representation p \<noteq> RepTagged then Some f
      else if vl_count (pl_location p) = 0 \<and> fr_mapping_valid f \<and>
              (case cl_closure_signature cl of None \<Rightarrow> False
               | Some s \<Rightarrow> i < length (cs_formals s) \<and> \<not> cf_is_required (cs_formals s ! i))
      then Some f
      else if vl_count (pl_location p) \<noteq> 1 then None
      else AddGeneratedRootBinding (vl_locations (pl_location p) ! 0) RootInput f)"

fun add_parameter_roots :: "call_layout \<Rightarrow> nat \<Rightarrow> parameter_layout list \<Rightarrow> dispatch_frame \<Rightarrow>
    dispatch_frame option" where
  "add_parameter_roots cl i [] f = Some f"
| "add_parameter_roots cl i (p # ps) f =
     Option.bind (add_parameter_root cl i p f) (add_parameter_roots cl (i + 1) ps)"

definition has_type_arguments :: "dispatch_frame \<Rightarrow> bool" where
  "has_type_arguments f \<longleftrightarrow> fr_mapping_valid f \<and> loc_kind (fr_type_arguments f) \<noteq> LocUnknown"

definition add_root_if :: "bool \<Rightarrow> abi_location \<Rightarrow> root_role \<Rightarrow> dispatch_frame \<Rightarrow> dispatch_frame option" where
  "add_root_if c loc role f = (if c then AddGeneratedRootBinding loc role f else Some f)"

text \<open>The elements of the type arguments, read one by one while the thread is generated.\<close>

fun read_elements :: "dispatch_env \<Rightarrow> nat \<Rightarrow> dispatch_frame \<Rightarrow> dispatch_world \<Rightarrow>
    u64 list option \<times> dispatch_world" where
  "read_elements env 0 f w = (Some [], w)"
| "read_elements env (Suc n) f w =
     (case adapter_op (VmAdapterReadTypeArgumentsElementGenerated True (ev_free env (dw_clock w))
             (ev_thread env) (ev_status env (dw_clock w))) f w of
        (status, w1) \<Rightarrow>
          if status \<noteq> DP_OK then (None, w1)
          else (case read_elements env n f w1 of
                  (vs, w2) \<Rightarrow> (map_option (Cons (ev_element env (dw_clock w))) vs, w2)))"

fun add_values :: "u64 list \<Rightarrow> dispatch_frame \<Rightarrow> dispatch_frame option" where
  "add_values [] f = Some f"
| "add_values (v # vs) f = Option.bind (AddGeneratedRootValue v f) (\<lambda>(_, f'). add_values vs f')"

definition type_parameter_count :: "call_layout \<Rightarrow> nat" where
  "type_parameter_count cl =
     (case cl_closure_signature cl of None \<Rightarrow> 0 | Some s \<Rightarrow> unat (cs_type_parameter_count s))"

definition reads_elements :: "call_layout \<Rightarrow> dispatch_frame \<Rightarrow> dispatch_world \<Rightarrow> bool" where
  "reads_elements cl f w \<longleftrightarrow> has_type_arguments f \<and> type_parameter_count cl \<noteq> 0 \<and>
     (case fr_adapter f of None \<Rightarrow> False
      | Some a \<Rightarrow> TypeArgumentsElementCallbackAvailable (va_callbacks (hr_adapter (dw_registry w) a)))"

definition add_type_arguments :: "dispatch_env \<Rightarrow> call_layout \<Rightarrow> dispatch_frame \<Rightarrow> dispatch_world \<Rightarrow>
    dispatch_frame option \<times> dispatch_world" where
  "add_type_arguments env cl f0 w =
     (let f = f0\<lparr>fr_type_root_base := 0, fr_type_root_count := 0\<rparr>; n = type_parameter_count cl in
      if \<not> reads_elements cl f w then (Some f, w)
      else if n > kMaxGeneratedRootBindings - length (fr_roots f) then (None, w)
      else if ReadGeneratedRootLocation (dw_memory w) f (fr_type_arguments f) = None then (None, w)
      else (case read_elements env n f w of
              (None, w1) \<Rightarrow> (None, w1)
            | (Some vs, w1) \<Rightarrow>
                (map_option (\<lambda>f'. f'\<lparr>fr_type_root_count := n\<rparr>)
                   (add_values vs (f\<lparr>fr_type_root_base := length (fr_roots f)\<rparr>)), w1)))"

definition add_result_roots :: "parameter_layout \<Rightarrow> dispatch_frame \<Rightarrow> dispatch_frame option" where
  "add_result_roots p f =
     (let locs = vl_locations (pl_location p); n = vl_count (pl_location p) in
      if pl_representation p = RepTagged then
        if n \<noteq> 1 then None else AddGeneratedRootBinding (locs ! 0) RootResult f
      else if pl_representation p = RepPairOfTagged then
        if n \<noteq> 2 then None
        else Option.bind (AddGeneratedRootBinding (locs ! 0) RootResult f)
               (AddGeneratedRootBinding (locs ! 1) RootResult)
      else Some f)"

definition pad_roots :: "dispatch_frame \<Rightarrow> dispatch_frame" where
  "pad_roots f =
     (if fr_roots f = []
      then f\<lparr>fr_roots := [\<lparr>rb_location = abi_location_0, rb_role = RootPadding\<rparr>], fr_root_values := [0]\<rparr>
      else f)"

text \<open>How the invocation's accesses find their root.\<close>

definition root_accesses :: "root_binding list \<Rightarrow> root_access list" where
  "root_accesses bs =
     map (\<lambda>i. \<lparr>ra_location = rb_location (bs ! i), ra_index = i,
               ra_is_result = (rb_role (bs ! i) = RootResult)\<rparr>)
       (filter (\<lambda>i. rb_role (bs ! i) \<noteq> RootPadding \<and> rb_role (bs ! i) \<noteq> RootTypeArgument)
          [0..<length bs])"

definition transition_of :: "arm64_context \<Rightarrow> transition_frame" where
  "transition_of cx = \<lparr>tf_thread = cx_x cx 26, tf_dart_sp = cx_x cx 15, tf_exit_frame = 0,
     tf_caller_fp = cx_x cx 29, tf_caller_lr = cx_x cx 30\<rparr>"

definition finish_roots :: "call_layout \<Rightarrow> dispatch_frame \<Rightarrow> dispatch_frame option" where
  "finish_roots cl f =
     Option.bind (add_root_if (cl_has_closure_receiver cl) (cl_closure_receiver_location cl) RootInput f) (\<lambda>f1.
     Option.bind (add_root_if (cl_has_arguments_descriptor cl) (cl_arguments_descriptor_location cl)
                    RootInput f1) (\<lambda>f2.
     map_option (\<lambda>f3. let f4 = pad_roots f3 in
         f4\<lparr>fr_accesses := root_accesses (fr_roots f4), fr_transition := transition_of (fr_context f4)\<rparr>)
       (add_result_roots (cl_result cl) f2)))"

text \<open>A failed build leaves roots that are never used: the frame is dropped.\<close>

definition BuildGeneratedRootBindings :: "dispatch_env \<Rightarrow> dispatch_frame \<Rightarrow> dispatch_world \<Rightarrow>
    bool \<times> dispatch_frame \<times> dispatch_world" where
  "BuildGeneratedRootBindings env f w =
     (case fr_layout f of
        None \<Rightarrow> (False, f, w)
      | Some cl \<Rightarrow>
          (case ActiveParameters env (f\<lparr>fr_roots := [], fr_root_values := []\<rparr>) w of
             (None, f1, w1) \<Rightarrow> (False, f1, w1)
           | (Some ps, f1, w1) \<Rightarrow>
               (case Option.bind (add_parameter_roots cl 0 ps f1)
                       (add_root_if (has_type_arguments f1) (fr_type_arguments f1) RootInput) of
                  None \<Rightarrow> (False, f1, w1)
                | Some f2 \<Rightarrow>
                    (case add_type_arguments env cl f2 w1 of
                       (None, w2) \<Rightarrow> (False, f2, w2)
                     | (Some f3, w2) \<Rightarrow>
                         (case finish_roots cl f3 of
                            None \<Rightarrow> (False, f3, w2)
                          | Some f4 \<Rightarrow> (True, f4, w2))))))"

section \<open>The exit frame\<close>

text \<open>Two words that look like small integers, then the caller's frame pointer and return
  address, right below the entry stack pointer.\<close>

definition PrepareGeneratedExitFrame :: "dispatch_frame \<Rightarrow> dispatch_world \<Rightarrow>
    (dispatch_frame \<times> dispatch_world) option" where
  "PrepareGeneratedExitFrame f w =
     (let t = fr_transition f; exit_frame = tf_dart_sp t - 16 in
      if tf_dart_sp t < 32 then None
      else Some (f\<lparr>fr_transition := t\<lparr>tf_exit_frame := exit_frame\<rparr>\<rparr>,
        w\<lparr>dw_memory := store64 (exit_frame + 8) (tf_caller_lr t)
            (store64 exit_frame (tf_caller_fp t)
              (store64 (exit_frame - 8) 0 (store64 (exit_frame - 16) 0 (dw_memory w))))\<rparr>))"

section \<open>Pinning\<close>

definition root_value :: "(ptr \<Rightarrow> u8) \<Rightarrow> dispatch_frame \<Rightarrow> bool \<Rightarrow> bool \<Rightarrow> root_binding \<times> u64 \<Rightarrow> u64 option" where
  "root_value mem f include_result reuse = (\<lambda>(b, cached).
     if \<not> RootRoleActive b include_result then Some 0
     else if rb_role b = RootTypeArgument \<or> (reuse \<and> rb_role b = RootInput) then Some cached
     else ReadGeneratedRootLocation mem f (rb_location b))"

definition root_values :: "(ptr \<Rightarrow> u8) \<Rightarrow> dispatch_frame \<Rightarrow> bool \<Rightarrow> bool \<Rightarrow> u64 list option" where
  "root_values mem f include_result reuse =
     those (map (root_value mem f include_result reuse) (zip (fr_roots f) (fr_root_values f)))"

text \<open>The lease is the embedder's; the VM's table holds the pinned values under it.\<close>

definition pin_values :: "dispatch_env \<Rightarrow> u64 list \<Rightarrow> dispatch_frame \<Rightarrow> dispatch_world \<Rightarrow>
    bool \<times> dispatch_frame \<times> dispatch_world" where
  "pin_values env vs f w =
     (case fr_adapter f of
        None \<Rightarrow> (False, f, w)
      | Some a \<Rightarrow>
          let c = dw_clock w; f1 = f\<lparr>fr_root_values := vs\<rparr> in
          (case VmAdapterPinGeneratedRoots True (ev_free env c) (ev_thread env) (ev_status env c)
                  (ev_lease env c) (hr_adapter (dw_registry w) a) of
             (status, lease, v) \<Rightarrow>
               let w1 = tick (set_registry (set_adapter a v (dw_registry w)) w) in
               if status = DP_OK
               then (True, f1\<lparr>fr_lease := lease\<rparr>, w1\<lparr>dw_roots := (dw_roots w1)(lease := vs)\<rparr>)
               else (False, f1, w1)))"

definition PinGeneratedRoots :: "dispatch_env \<Rightarrow> bool \<Rightarrow> bool \<Rightarrow> dispatch_frame \<Rightarrow> dispatch_world \<Rightarrow>
    bool \<times> dispatch_frame \<times> dispatch_world" where
  "PinGeneratedRoots env include_result reuse f w =
     (if fr_adapter f = None \<or> fr_lease f \<noteq> 0 \<or> fr_roots f = [] then (False, f, w)
      else case root_values (dw_memory w) f include_result reuse of
             None \<Rightarrow> (False, f, w)
           | Some vs \<Rightarrow> pin_values env vs f w)"

section \<open>Between roots and locations\<close>

definition sync_root :: "dispatch_env \<Rightarrow> bool \<Rightarrow> bool \<Rightarrow> nat \<Rightarrow> dispatch_frame \<Rightarrow> dispatch_world \<Rightarrow>
    bool \<times> dispatch_frame \<times> dispatch_world" where
  "sync_root env include_result preserve i f w =
     (let b = fr_roots f ! i in
      if \<not> RootRoleActive b include_result \<or> \<not> RootHasPhysicalLocation b \<or>
         (preserve \<and> rb_role b = RootInput \<and> IsResultLocation f (rb_location b)) then (True, f, w)
      else case root_get env f w i of
             None \<Rightarrow> (False, f, tick w)
           | Some v \<Rightarrow>
               (case WriteGeneratedRootLocation (rb_location b) v (dw_memory w) f of
                  None \<Rightarrow> (False, f, tick w)
                | Some (mem, f1) \<Rightarrow>
                    (True, f1\<lparr>fr_root_values := (fr_root_values f1)[i := v]\<rparr>, tick (w\<lparr>dw_memory := mem\<rparr>))))"

fun sync_roots :: "dispatch_env \<Rightarrow> bool \<Rightarrow> bool \<Rightarrow> nat list \<Rightarrow> dispatch_frame \<Rightarrow> dispatch_world \<Rightarrow>
    bool \<times> dispatch_frame \<times> dispatch_world" where
  "sync_roots env include_result preserve [] f w = (True, f, w)"
| "sync_roots env include_result preserve (i # is) f w =
     (case sync_root env include_result preserve i f w of
        (False, f1, w1) \<Rightarrow> (False, f1, w1)
      | (True, f1, w1) \<Rightarrow> sync_roots env include_result preserve is f1 w1)"

definition SyncGeneratedRootsToContext :: "dispatch_env \<Rightarrow> bool \<Rightarrow> bool \<Rightarrow> dispatch_frame \<Rightarrow>
    dispatch_world \<Rightarrow> bool \<times> dispatch_frame \<times> dispatch_world" where
  "SyncGeneratedRootsToContext env include_result preserve f w =
     (if fr_adapter f = None \<or> fr_lease f = 0 then (False, f, w)
      else sync_roots env include_result preserve [0..<length (fr_roots f)] f w)"

text \<open>The values of the roots written back to their locations; a refusal is fatal.\<close>

fun restore_roots :: "bool \<Rightarrow> (root_binding \<times> u64) list \<Rightarrow> dispatch_frame \<Rightarrow> dispatch_world \<Rightarrow>
    (dispatch_frame \<times> dispatch_world) option" where
  "restore_roots include_result [] f w = Some (f, w)"
| "restore_roots include_result ((b, v) # bs) f w =
     (if \<not> RootRoleActive b include_result \<or> \<not> RootHasPhysicalLocation b
      then restore_roots include_result bs f w
      else Option.bind (WriteGeneratedRootLocation (rb_location b) v (dw_memory w) f)
             (\<lambda>(mem, f1). restore_roots include_result bs f1 (w\<lparr>dw_memory := mem\<rparr>)))"

definition restore_context :: "bool \<Rightarrow> dispatch_frame \<Rightarrow> dispatch_world \<Rightarrow>
    (dispatch_frame \<times> dispatch_world) option" where
  "restore_context include_result f w =
     restore_roots include_result (zip (fr_roots f) (fr_root_values f)) f w"

section \<open>Scopes and transitions\<close>

definition enter_scope :: "dispatch_env \<Rightarrow> dispatch_frame \<Rightarrow> dispatch_world \<Rightarrow> dp_status \<times> dispatch_world" where
  "enter_scope env f w =
     adapter_op (dartplant_vm_enter_scope (ev_thread env) (ev_status env (dw_clock w))) f w"

definition leave_scope :: "dispatch_env \<Rightarrow> dispatch_frame \<Rightarrow> dispatch_world \<Rightarrow> dp_status \<times> dispatch_world" where
  "leave_scope env f w =
     adapter_op (dartplant_vm_leave_scope (ev_thread env) (ev_status env (dw_clock w))) f w"

definition to_native :: "dispatch_env \<Rightarrow> dispatch_frame \<Rightarrow> dispatch_world \<Rightarrow> dp_status \<times> dispatch_world" where
  "to_native env f w =
     adapter_op (VmAdapterEnterGeneratedToNative (fr_lease f \<noteq> 0) (ev_free env (dw_clock w))
       (ev_thread env) (ev_status env (dw_clock w))) f w"

definition to_generated :: "dispatch_env \<Rightarrow> dispatch_frame \<Rightarrow> dispatch_world \<Rightarrow> dp_status \<times> dispatch_world" where
  "to_generated env f w =
     adapter_op (VmAdapterLeaveNativeToGenerated (fr_lease f \<noteq> 0) (ev_thread env)
       (ev_status env (dw_clock w))) f w"

text \<open>Giving the roots back also returns their values, which the collector may have moved.\<close>

definition unpin :: "dispatch_env \<Rightarrow> dispatch_frame \<Rightarrow> dispatch_world \<Rightarrow>
    (dispatch_frame \<times> dispatch_world) option" where
  "unpin env f w =
     (case adapter_op (VmAdapterUnpinGeneratedRoots (fr_lease f \<noteq> 0) (ev_free env (dw_clock w))
             (ev_thread env) (ev_status env (dw_clock w))) f w of
        (status, w1) \<Rightarrow>
          if status \<noteq> DP_OK then None
          else Some (f\<lparr>fr_root_values := dw_roots w1 (fr_lease f), fr_lease := 0\<rparr>,
                     w1\<lparr>dw_roots := (dw_roots w1)(fr_lease f := [])\<rparr>))"

text \<open>A collection while the thread is native: the roots of a lease move.\<close>

definition collect :: "dispatch_env \<Rightarrow> dispatch_frame \<Rightarrow> dispatch_world \<Rightarrow> dispatch_world" where
  "collect env f w =
     w\<lparr>dw_roots := (dw_roots w)(fr_lease f := ev_gc env (dw_clock w) (dw_roots w (fr_lease f)))\<rparr>"

definition EnterGeneratedVmBridge :: "dispatch_env \<Rightarrow> bool \<Rightarrow> bool \<Rightarrow> dispatch_frame \<Rightarrow> dispatch_world \<Rightarrow>
    bridge_result" where
  "EnterGeneratedVmBridge env include_result preserve f w =
     (if fr_adapter f = None \<or> fr_lease f = 0 then Some (False, f, w)
      else case PrepareGeneratedExitFrame f w of
             None \<Rightarrow> Some (False, f, w)
           | Some (f1, w1) \<Rightarrow>
               (case to_native env f1 w1 of
                  (native, w2) \<Rightarrow>
                    if native \<noteq> DP_OK then Some (False, f1, w2)
                    else (case enter_scope env f1 (collect env f1 w2) of
                            (scope, w3) \<Rightarrow>
                              if scope \<noteq> DP_OK then
                                (case to_generated env f1 w3 of
                                   (back, w4) \<Rightarrow> if back \<noteq> DP_OK then None else Some (False, f1, w4))
                              else
                                (case SyncGeneratedRootsToContext env include_result preserve
                                        (f1\<lparr>fr_scope_entered := True, fr_bridge_active := True\<rparr>) w3 of
                                   (True, f2, w4) \<Rightarrow> Some (True, f2, w4)
                                 | (False, f2, w4) \<Rightarrow>
                                     (case leave_scope env f2 w4 of
                                        (left, w5) \<Rightarrow>
                                          if left \<noteq> DP_OK then None
                                          else (case to_generated env f2 w5 of
                                                  (back, w6) \<Rightarrow>
                                                    if back \<noteq> DP_OK then None
                                                    else Some (False, f2\<lparr>fr_scope_entered := False,
                                                           fr_bridge_active := False\<rparr>, w6)))))))"

text \<open>
  Leaving: the roots stay authoritative (\<open>SyncContextToGeneratedRoots\<close> does nothing), and with
  \<open>repin\<close> the inputs are pinned again for the time the original runs.
\<close>

definition repin_inputs :: "dispatch_env \<Rightarrow> bool \<Rightarrow> dispatch_frame \<Rightarrow> dispatch_world \<Rightarrow> bridge_result" where
  "repin_inputs env repin f w =
     (if \<not> repin then Some (True, f, w)
      else case PinGeneratedRoots env False False f w of
             (ok, f', w') \<Rightarrow> if ok then Some (True, f', w') else None)"

definition LeaveGeneratedVmBridge :: "dispatch_env \<Rightarrow> bool \<Rightarrow> bool \<Rightarrow> dispatch_frame \<Rightarrow> dispatch_world \<Rightarrow>
    bridge_result" where
  "LeaveGeneratedVmBridge env include_result repin f w =
     (if fr_adapter f = None \<or> fr_lease f = 0 \<or> \<not> fr_scope_entered f \<or> \<not> fr_bridge_active f
      then Some (False, f, w)
      else case leave_scope env f w of
        (left, w1) \<Rightarrow>
          if left \<noteq> DP_OK then None
          else (case to_generated env (f\<lparr>fr_scope_entered := False, fr_bridge_active := False\<rparr>) w1 of
                  (back, w2) \<Rightarrow>
                    if back \<noteq> DP_OK then None
                    else Option.bind (unpin env (f\<lparr>fr_scope_entered := False, fr_bridge_active := False\<rparr>) w2)
                      (\<lambda>(f1, w3). Option.bind (restore_context include_result f1 w3)
                        (\<lambda>(f2, w4). repin_inputs env repin f2 w4))))"

definition DropPersistentGeneratedRoots :: "dispatch_env \<Rightarrow> bool \<Rightarrow> bool \<Rightarrow> dispatch_frame \<Rightarrow>
    dispatch_world \<Rightarrow> bridge_result" where
  "DropPersistentGeneratedRoots env include_result restore f w =
     (if fr_lease f = 0 \<or> fr_adapter f = None then Some (True, f, w)
      else if fr_scope_entered f \<or> fr_bridge_active f then Some (False, f, w)
      else Option.bind (unpin env f w) (\<lambda>(f1, w1).
             if \<not> restore then Some (True, f1, w1)
             else map_option (\<lambda>(f2, w2). (True, f2, w2)) (restore_context include_result f1 w1)))"

end
