(* ===== verification/Callback_Dispatch.thy ===== *)
theory Callback_Dispatch
  imports Generated_Bridge "HOL-Library.While_Combinator"
begin

text \<open>
  The dispatcher behind the ARM64 stubs (\<^verbatim>\<open>src/interceptor/callback_dispatch.cpp\<close>, with
  \<open>EnsureArm64ExceptionBridge\<close> of \<^verbatim>\<open>src/interceptor/arm64_bridge.cpp\<close>). A thread's stack of
  frames is a list, the innermost call first. A process that the code ends
  (\<open>FatalGeneratedBridgeFailure\<close>) is \<open>None\<close>. Last-error texts are left out.
\<close>

section \<open>The listeners of a frame\<close>

text \<open>
  The loops that compact the listeners in place: one that does not stay is left, in order.
\<close>

fun keep_listeners :: "(registry \<Rightarrow> nat \<Rightarrow> bool) \<Rightarrow> nat list \<Rightarrow> registry \<Rightarrow> nat list \<times> registry" where
  "keep_listeners P [] s = ([], s)"
| "keep_listeners P (l # ls) s =
     (if P s l then (case keep_listeners P ls s of (kept, s') \<Rightarrow> (l # kept, s'))
      else keep_listeners P ls (exit_listener l s))"

definition FilterListenersForCurrentIsolateGroup :: "dispatch_env \<Rightarrow> arm64_context \<Rightarrow> dispatch_frame \<Rightarrow>
    dispatch_world \<Rightarrow> dispatch_frame \<times> dispatch_world" where
  "FilterListenersForCurrentIsolateGroup env cx f w =
     (case keep_listeners (\<lambda>s l. MethodOwnerMatchesCurrentIsolateGroup (ev_profiles env) (dw_memory w) s
             (lr_method (hr_listener s l)) cx) (fr_entered f) (dw_registry w) of
        (ls, s) \<Rightarrow> (f\<lparr>fr_entered := ls\<rparr>, set_registry s w))"

text \<open>The frame takes the owner, the adapter and the layout of the listener it executes for.\<close>

definition bind_owner :: "registry \<Rightarrow> listener_record \<Rightarrow> dispatch_frame \<Rightarrow> dispatch_frame" where
  "bind_owner s r f =
     (let target = Option.bind (lr_method r) (\<lambda>m. Option.bind (hm_function m) df_target);
          f1 = f\<lparr>fr_method := lr_method r,
                 fr_target := (if target \<noteq> None then target else fr_target f),
                 fr_aliases := (case target of None \<Rightarrow> fr_aliases f
                                | Some t \<Rightarrow> et_aliases (tw_target (hr_world s) t)),
                 fr_adapter := lr_adapter r, fr_generation := lr_generation r,
                 fr_expected := lr_expected r, fr_layout := lr_layout r,
                 fr_null_value := lr_null_value r, fr_true_value := lr_true_value r,
                 fr_false_value := lr_false_value r\<rparr>
      in RefreshIdentityState s f1)"

definition BindInvocationToCurrentOwner :: "dispatch_frame \<Rightarrow> dispatch_world \<Rightarrow>
    nat option \<times> dispatch_frame \<times> dispatch_world" where
  "BindInvocationToCurrentOwner f w =
     (case fr_entered f of
        [] \<Rightarrow> (None, f, w)
      | e # _ \<Rightarrow>
          (case keep_listeners (\<lambda>s l. SameExecutionBinding (hr_listener s e) (hr_listener s l))
                  (fr_entered f) (dw_registry w) of
             (ls, s) \<Rightarrow>
               if ls = [] then (None, f\<lparr>fr_entered := ls\<rparr>, set_registry s w)
               else (Some e, bind_owner s (hr_listener s e) (f\<lparr>fr_entered := ls\<rparr>), set_registry s w)))"

definition ClearEnteredListeners :: "dispatch_frame \<Rightarrow> dispatch_world \<Rightarrow> dispatch_frame \<times> dispatch_world" where
  "ClearEnteredListeners f w =
     (f\<lparr>fr_entered := []\<rparr>, set_registry (fold exit_listener (fr_entered f) (dw_registry w)) w)"

definition exit_hook :: "dispatch_env \<Rightarrow> nat option \<Rightarrow> dispatch_world \<Rightarrow> dispatch_world" where
  "exit_hook env hook w =
     (case hook of None \<Rightarrow> w
      | Some i \<Rightarrow> set_registry (InvocationExited (ev_restore env) i (dw_registry w)) w)"

definition ReleaseSnapshot :: "dispatch_env \<Rightarrow> dispatch_frame \<Rightarrow> dispatch_world \<Rightarrow>
    dispatch_frame \<times> dispatch_world" where
  "ReleaseSnapshot env f w =
     (case ClearEnteredListeners f w of (f1, w1) \<Rightarrow> (f1, exit_hook env (fr_hook f) w1))"

section \<open>User callbacks\<close>

text \<open>
  A callback may change the context, the skip and call flags and the argument mapping of its
  invocation; when it throws, the context and the two flags are taken back. \<open>present\<close> says that
  a callback is registered.
\<close>

definition InvokeCallback :: "dispatch_env \<Rightarrow> callback_kind \<Rightarrow> bool \<Rightarrow> nat \<Rightarrow> dispatch_frame \<Rightarrow>
    dispatch_world \<Rightarrow> dispatch_frame \<times> dispatch_world" where
  "InvokeCallback env kind present l f w =
     (if \<not> present then (f, w)
      else
        let r = ev_call env kind l f w; g = cr_frame r;
            f1 = f\<lparr>fr_original_called := fr_original_called g, fr_mapped := fr_mapped g,
                   fr_type_arguments := fr_type_arguments g,
                   fr_mapping_attempted := fr_mapping_attempted g,
                   fr_mapping_valid := fr_mapping_valid g\<rparr>
        in (if cr_threw r then f1
            else f1\<lparr>fr_context := fr_context g, fr_skip_original := fr_skip_original g,
                    fr_call_original := fr_call_original g\<rparr>,
            (cr_world r)\<lparr>dw_calls := (kind, l) # dw_calls w\<rparr>))"

definition options_of :: "dispatch_world \<Rightarrow> nat \<Rightarrow> hook_options" where
  "options_of w l = lr_options (hr_listener (dw_registry w) l)"

text \<open>
  The entering callbacks, in order; the number is how many listeners were entered. A target
  that has become shared without leave ends the loop before its callback, a callback that skips
  the original after it.
\<close>

fun enter_callbacks :: "dispatch_env \<Rightarrow> bool \<Rightarrow> nat list \<Rightarrow> dispatch_frame \<Rightarrow> dispatch_world \<Rightarrow>
    nat \<times> dispatch_frame \<times> dispatch_world" where
  "enter_callbacks env opt_in [] f w = (0, f, w)"
| "enter_callbacks env opt_in (l # ls) f w =
     (let f1 = SelectListenerIdentity (dw_registry w) l f in
      if fr_ambiguous f1 \<and> \<not> opt_in then (0, f1, w)
      else (case InvokeCallback env OnEnter (ho_on_enter (options_of w l)) l f1 w of
              (f2, w2) \<Rightarrow>
                if fr_skip_original f2 then (1, f2, w2)
                else (case enter_callbacks env opt_in ls f2 w2 of
                        (n, f3, w3) \<Rightarrow> (n + 1, f3, w3))))"

fun leave_callbacks :: "dispatch_env \<Rightarrow> nat list \<Rightarrow> dispatch_frame \<Rightarrow> dispatch_world \<Rightarrow>
    dispatch_frame \<times> dispatch_world" where
  "leave_callbacks env [] f w = (f, w)"
| "leave_callbacks env (l # ls) f w =
     (case InvokeCallback env OnLeave (ho_on_leave (options_of w l)) l
             (SelectListenerIdentity (dw_registry w) l f) w of
        (f1, w1) \<Rightarrow> leave_callbacks env ls f1 w1)"

fun exception_callbacks :: "dispatch_env \<Rightarrow> nat list \<Rightarrow> dispatch_frame \<Rightarrow> dispatch_world \<Rightarrow>
    dispatch_frame \<times> dispatch_world" where
  "exception_callbacks env [] f w = (f, w)"
| "exception_callbacks env (l # ls) f w =
     (let r = hr_listener (dw_registry w) l in
      if lr_on_exception r \<and> lr_active r
      then (case InvokeCallback env OnException True l
                   (SelectListenerIdentity (dw_registry w) l f) w of
              (f1, w1) \<Rightarrow> exception_callbacks env ls f1 w1)
      else exception_callbacks env ls f w)"

section \<open>Finishing and abandoning a frame\<close>

definition CaptureReturnChannels :: "u64 \<Rightarrow> u64 \<Rightarrow> u64 \<Rightarrow> dispatch_frame \<Rightarrow> dispatch_frame" where
  "CaptureReturnChannels result0 result1 fp_bits f =
     f\<lparr>fr_context := \<lparr>cx_x = (cx_x (fr_context f))(0 := result0, 1 := result1),
                      cx_v = (cx_v (fr_context f))(0 := fp_bits)\<rparr>\<rparr>"

definition ReadV0Bits :: "arm64_context \<Rightarrow> u64" where
  "ReadV0Bits cx = cx_v cx 0"

text \<open>The bridge into the leave callbacks: the old lease is closed and one with the result opened.\<close>

definition enter_leave_bridge :: "dispatch_env \<Rightarrow> dispatch_frame \<Rightarrow> dispatch_world \<Rightarrow> bridge_result" where
  "enter_leave_bridge env f w =
     Option.bind (DropPersistentGeneratedRoots env False False f w) (\<lambda>(dropped, f1, w1).
       if \<not> dropped then Some (False, f1, w1)
       else (case PinGeneratedRoots env True True f1 w1 of
               (ok, f2, w2) \<Rightarrow>
                 if \<not> ok then Some (False, f2, w2)
                 else EnterGeneratedVmBridge env True True f2 w2))"

definition begin_leave :: "dispatch_env \<Rightarrow> bool \<Rightarrow> dispatch_frame \<Rightarrow> dispatch_world \<Rightarrow> bridge_result" where
  "begin_leave env generated f w =
     (if \<not> generated then Some (True, f, w)
      else Option.bind (enter_leave_bridge env f w) (\<lambda>(entered, f1, w1).
             if entered then Some (True, f1, w1)
             else map_option (\<lambda>(_, f2, w2). (False, f2, w2))
                    (DropPersistentGeneratedRoots env True True f1 w1)))"

text \<open>Leaving a plain scope; a refusal is fatal.\<close>

definition leave_plain_scope :: "dispatch_env \<Rightarrow> dispatch_frame \<Rightarrow> dispatch_world \<Rightarrow>
    (dispatch_frame \<times> dispatch_world) option" where
  "leave_plain_scope env f w =
     (if \<not> fr_scope_entered f then Some (f, w)
      else case leave_scope env f w of
             (status, w1) \<Rightarrow> if status \<noteq> DP_OK then None else Some (f\<lparr>fr_scope_entered := False\<rparr>, w1))"

definition required :: "bridge_result \<Rightarrow> (dispatch_frame \<times> dispatch_world) option" where
  "required r = Option.bind r (\<lambda>(ok, f, w). if ok then Some (f, w) else None)"

definition end_leave :: "dispatch_env \<Rightarrow> bool \<Rightarrow> dispatch_frame \<Rightarrow> dispatch_world \<Rightarrow>
    (dispatch_frame \<times> dispatch_world) option" where
  "end_leave env generated f w =
     Option.bind
       (if generated \<and> fr_bridge_active f then required (LeaveGeneratedVmBridge env True False f w)
        else leave_plain_scope env f w)
       (\<lambda>(f1, w1). required (DropPersistentGeneratedRoots env True True f1 w1))"

definition FinishFrame :: "dispatch_env \<Rightarrow> u64 \<Rightarrow> u64 \<Rightarrow> u64 \<Rightarrow> dispatch_frame \<Rightarrow> dispatch_world \<Rightarrow>
    (dispatch_frame \<times> dispatch_world) option" where
  "FinishFrame env result0 result1 fp_bits f w =
     (let f0 = (CaptureReturnChannels result0 result1 fp_bits f)\<lparr>fr_phase := PhaseLeave\<rparr>;
          generated = (fr_adapter f \<noteq> None \<and> fr_roots f \<noteq> [])
      in Option.bind (begin_leave env generated f0 w) (\<lambda>(enabled, f1, w1).
           case (if enabled then leave_callbacks env (rev (fr_entered f1)) f1 w1 else (f1, w1)) of
             (f2, w2) \<Rightarrow> map_option (\<lambda>(f3, w3). ReleaseSnapshot env f3 w3)
                           (end_leave env generated f2 w2)))"

text \<open>
  A frame an exception went through. Its roots are given back but not written to the context;
  of the frame only the registers and the payload are left.
\<close>

definition abandon_bridge :: "dispatch_env \<Rightarrow> dispatch_frame \<Rightarrow> dispatch_world \<Rightarrow>
    (dispatch_frame \<times> dispatch_world) option" where
  "abandon_bridge env f w =
     (if \<not> (fr_bridge_active f \<and> fr_lease f \<noteq> 0) then Some (f, w)
      else case to_generated env (f\<lparr>fr_bridge_active := False\<rparr>) w of
             (status, w1) \<Rightarrow>
               if status \<noteq> DP_OK then None else Some (f\<lparr>fr_bridge_active := False\<rparr>, w1))"

definition AbandonFrame :: "dispatch_env \<Rightarrow> dispatch_frame \<Rightarrow> dispatch_world \<Rightarrow>
    (dispatch_frame \<times> dispatch_world) option" where
  "AbandonFrame env f w =
     Option.bind (leave_plain_scope env f w) (\<lambda>(f1, w1).
     Option.bind (abandon_bridge env f1 w1) (\<lambda>(f2, w2).
     map_option (\<lambda>(_, f3, w3). (frame_0\<lparr>fr_context := fr_context f3, fr_payload := fr_payload f3\<rparr>,
                             snd (ReleaseSnapshot env f3 w3)))
       (DropPersistentGeneratedRoots env False False f2 w2)))"

section \<open>The bridge for Dart exceptions\<close>

definition bridge_ready :: "exception_bridge \<Rightarrow> bool" where
  "bridge_ready x \<longleftrightarrow> xs_backup x \<noteq> 0 \<and> xs_published x \<noteq> None"

text \<open>The binding of the listener must be whole, and of the current generation.\<close>

definition exception_binding_usable :: "registry \<Rightarrow> arm64_context \<Rightarrow> dart_function \<Rightarrow> listener_record \<Rightarrow> bool" where
  "exception_binding_usable s cx f r \<longleftrightarrow>
     (let b = lr_exception r; live = (is_live f \<and> lr_adapter r \<noteq> None) in
      cx_x cx 26 \<noteq> 0 \<and> xb_verified b \<and>
      (if live then xb_target b \<noteq> 0 \<and>
          (case lr_generation r of None \<Rightarrow> False | Some g \<Rightarrow> hr_generation s g = lr_expected r)
       else xb_target b \<noteq> 0 \<or> xb_thread_offset b \<noteq> 0))"

definition exception_binding_unchanged :: "dispatch_env \<Rightarrow> registry \<Rightarrow> listener_record \<Rightarrow> bool" where
  "exception_binding_unchanged env s r =
     (case lr_adapter r of
        None \<Rightarrow> True
      | Some a \<Rightarrow>
          let b = lr_exception r in
          (case VmAdapterGetCapabilityBinding True (CapabilityForEvidence EvExceptionBridge)
                  (hr_adapter s a) of
             Inl _ \<Rightarrow> False
           | Inr (p, profile) \<Rightarrow>
               ev_profile_at env profile \<noteq> 0 \<and> cp_resolved_target p = xb_target b \<and>
               cp_artifact_generation p = xb_artifact_generation b \<and>
               cp_isolate_generation p = xb_isolate_generation b \<and>
               ev_abi_key env (ev_profile_at env profile) (CapabilityForEvidence EvExceptionBridge) =
                 xb_domain_key b))"

definition jump_target :: "dispatch_env \<Rightarrow> arm64_context \<Rightarrow> exception_binding \<Rightarrow> dispatch_world \<Rightarrow>
    ptr option" where
  "jump_target env cx b w =
     (if xb_target b \<noteq> 0 then Some (xb_target b)
      else if xb_thread_offset b = 0 then None
      else read_word 8 (ReadSelfValue (ev_reader env (dw_memory w)))
             (cx_x cx 26 + ucast (xb_thread_offset b)))"

text \<open>
  The first use installs the hook of \<open>JumpToFrame\<close> behind a gate, for the life of the process. A
  gate that may have been reached is kept although nothing refers to it.
\<close>

definition install_exception_bridge :: "dispatch_env \<Rightarrow> host_binding nullable \<Rightarrow> ptr \<Rightarrow>
    exception_bridge \<Rightarrow> bool \<times> exception_bridge" where
  "install_exception_bridge env binding target x =
     (if \<not> HostBindingSupportsPublishedHooks binding then (False, x)
      else case PreparePublishedHostHook (ev_gate_stub env) (Some empty_published) binding target
                  (ev_jump_hook env) False 0 of
             (status, prepared) \<Rightarrow>
               if status \<noteq> DP_OK then (False, x)
               else (case InstallPublishedHostHook prepared True of
                       (status', original, published) \<Rightarrow>
                         let b = (case original of None \<Rightarrow> 0 | Some b \<Rightarrow> b) in
                         if status' \<noteq> DP_OK \<or> b = 0 then (False, x)
                         else (True, \<lparr>xs_target = target, xs_backup = b,
                                      xs_published = ArmPublishedHostHook published\<rparr>)))"

definition ensure_target :: "dispatch_env \<Rightarrow> host_binding nullable \<Rightarrow> ptr \<Rightarrow> exception_bridge \<Rightarrow>
    bool \<times> exception_bridge" where
  "ensure_target env binding target x =
     (if xs_target x \<noteq> 0 then (xs_target x = target \<and> bridge_ready x, x)
      else install_exception_bridge env binding target x)"

definition listener_method :: "dispatch_world \<Rightarrow> nat \<Rightarrow> nat option \<Rightarrow> hook_method option" where
  "listener_method w i listener =
     (case Option.bind listener (\<lambda>l. lr_method (hr_listener (dw_registry w) l)) of
        None \<Rightarrow> hk_method (hr_hook (dw_registry w) i)
      | Some m \<Rightarrow> Some m)"

definition EnsureArm64ExceptionBridge :: "dispatch_env \<Rightarrow> nat \<Rightarrow> arm64_context \<Rightarrow> nat option \<Rightarrow>
    dispatch_world \<Rightarrow> bool \<times> dispatch_world" where
  "EnsureArm64ExceptionBridge env i cx listener w =
     (case Option.bind (listener_method w i listener) hm_function of
        None \<Rightarrow> (True, w)
      | Some f \<Rightarrow>
          if df_source f = SourceSynthetic then (True, w)
          else (case listener of
            None \<Rightarrow> (xs_target (dw_bridge w) \<noteq> 0 \<and> bridge_ready (dw_bridge w), w)
          | Some l \<Rightarrow>
              let s = dw_registry w; r = hr_listener s l in
              if \<not> exception_binding_usable s cx f r \<or> \<not> exception_binding_unchanged env s r
              then (False, w)
              else (case jump_target env cx (lr_exception r) w of
                      None \<Rightarrow> (False, w)
                    | Some target \<Rightarrow>
                        if is_live f \<and> \<not> ev_executable env target then (False, w)
                        else (case ensure_target env (hk_binding (hr_hook s i)) target (dw_bridge w) of
                                (ok, x) \<Rightarrow> (ok, w\<lparr>dw_bridge := x\<rparr>)))))"

section \<open>Entering\<close>

text \<open>The context the stub goes on with, and where: a null original returns to the caller.\<close>

record enter_result =
  er_context :: "arm64_context option"
  er_original :: ptr

type_synonym enter_outcome = "(enter_result \<times> dispatch_frame list \<times> dispatch_world) option"

definition real_dart :: "hook_record \<Rightarrow> bool" where
  "real_dart h =
     (case Option.bind (hk_method h) hm_function of
        None \<Rightarrow> False
      | Some f \<Rightarrow> df_source f \<noteq> SourceSynthetic)"

definition gated_real_dart :: "hook_record \<Rightarrow> bool" where
  "gated_real_dart h \<longleftrightarrow> real_dart h \<and> hk_published h \<noteq> None"

definition release_entrant :: "nat \<Rightarrow> dispatch_world \<Rightarrow> dispatch_world" where
  "release_entrant i w =
     (let s = dw_registry w; h = hr_hook s i in
      set_registry (set_hook i (h\<lparr>hk_published := ReleasePublishedHostHookEntrant (hk_published h)\<rparr>) s) w)"

definition inactive_original :: "registry \<Rightarrow> hook_record \<Rightarrow> ptr" where
  "inactive_original s h =
     (if hk_backend_installed h then hk_backup h
      else if HookTarget s h \<noteq> 0 then HookTarget s h
      else hk_backup h)"

definition new_frame :: "registry \<Rightarrow> nat \<Rightarrow> arm64_context \<Rightarrow> u32 \<Rightarrow> dispatch_frame" where
  "new_frame s i cx depth =
     (let h = hr_hook s i in
      (RefreshIdentityState s (frame_0\<lparr>fr_context := cx,
         fr_payload := Option.bind (hk_target h) (\<lambda>t. et_payload (tw_target (hr_world s) t)),
         fr_entry_spreg := cx_x cx 15, fr_entry_caller_fp := cx_x cx 29,
         fr_hook := Some i, fr_method := hk_method h, fr_target := hk_target h,
         fr_aliases := (case hk_target h of None \<Rightarrow> []
                        | Some t \<Rightarrow> et_aliases (tw_target (hr_world s) t)),
         fr_profile := Some (hk_profile h), fr_layout := hk_layout h\<rparr>))
      \<lparr>fr_phase := PhaseEnter, fr_depth := depth, fr_null_value := hk_null_value h,
       fr_true_value := hk_true_value h, fr_false_value := hk_false_value h\<rparr>)"

definition hook_backup :: "nat \<Rightarrow> dispatch_world \<Rightarrow> ptr" where
  "hook_backup i w = hk_backup (hr_hook (dw_registry w) i)"

definition go_on :: "nat \<Rightarrow> dispatch_frame \<Rightarrow> dispatch_world \<Rightarrow> enter_result" where
  "go_on i f w = \<lparr>er_context = Some (fr_context f), er_original = hook_backup i w\<rparr>"

text \<open>The roots, the transition and the scope a callback needs; the flag says they are there.\<close>

definition set_up_generated :: "dispatch_env \<Rightarrow> dispatch_frame \<Rightarrow> dispatch_world \<Rightarrow> bridge_result" where
  "set_up_generated env f w =
     (case BuildGeneratedRootBindings env f w of
        (built, f1, w1) \<Rightarrow>
          (case (if built then PinGeneratedRoots env False False f1 w1 else (False, f1, w1)) of
             (ok, f2, w2) \<Rightarrow>
               Option.bind (if ok then EnterGeneratedVmBridge env False False f2 w2 else Some (False, f2, w2))
                 (\<lambda>(entered, f3, w3).
                    if entered then Some (True, f3, w3)
                    else map_option (\<lambda>(_, f4, w4). (False, f4, w4))
                           (DropPersistentGeneratedRoots env False True f3 w3))))"

definition set_up_scope :: "dispatch_env \<Rightarrow> bool \<Rightarrow> bool \<Rightarrow> dispatch_frame \<Rightarrow> dispatch_world \<Rightarrow>
    bridge_result" where
  "set_up_scope env generated wanted f w =
     (if generated then set_up_generated env f w
      else if \<not> wanted then Some (True, f, w)
      else (case enter_scope env f w of
              (status, w1) \<Rightarrow>
                if status \<noteq> DP_OK then Some (False, f, w1)
                else Some (True, f\<lparr>fr_scope_entered := True\<rparr>, w1)))"

text \<open>Without the exception bridge no callback may start: everything is taken back.\<close>

definition take_back :: "dispatch_env \<Rightarrow> bool \<Rightarrow> dispatch_frame \<Rightarrow> dispatch_world \<Rightarrow>
    (dispatch_frame \<times> dispatch_world) option" where
  "take_back env generated f w =
     Option.bind
       (if generated \<and> fr_bridge_active f
        then map_option snd (LeaveGeneratedVmBridge env False False f w)
        else leave_plain_scope env f w)
       (\<lambda>(f1, w1). map_option snd (DropPersistentGeneratedRoots env False True f1 w1))"

text \<open>A call that goes to the original without a frame of its own.\<close>

definition pass_through :: "dispatch_env \<Rightarrow> nat \<Rightarrow> dispatch_frame list \<Rightarrow> dispatch_frame \<Rightarrow>
    dispatch_world \<Rightarrow> enter_result \<times> dispatch_frame list \<times> dispatch_world" where
  "pass_through env i fs f w =
     (case ReleaseSnapshot env f w of (f1, w1) \<Rightarrow> (go_on i f1 w1, fs, w1))"

text \<open>After the callbacks: listeners that were not reached are left again.\<close>

definition run_entered :: "dispatch_env \<Rightarrow> nat \<Rightarrow> dispatch_frame \<Rightarrow> dispatch_world \<Rightarrow>
    dispatch_frame \<times> dispatch_world" where
  "run_entered env i f w =
     (case enter_callbacks env (hk_shared_code_opt_in (hr_hook (dw_registry w) i)) (fr_entered f) f w of
        (n, f1, w1) \<Rightarrow>
          (f1\<lparr>fr_entered := take n (fr_entered f)\<rparr>,
           set_registry (fold exit_listener (drop n (fr_entered f)) (dw_registry w1)) w1))"

definition finish_skipped :: "dispatch_env \<Rightarrow> dispatch_frame list \<Rightarrow> dispatch_frame \<Rightarrow> dispatch_world \<Rightarrow>
    enter_outcome" where
  "finish_skipped env fs f w =
     map_option (\<lambda>(f1, w1). (\<lparr>er_context = Some (fr_context f1), er_original = 0\<rparr>, fs, w1))
       (FinishFrame env (cx_x (fr_context f) 0) (cx_x (fr_context f) 1) (ReadV0Bits (fr_context f)) f w)"

definition to_original :: "dispatch_env \<Rightarrow> nat \<Rightarrow> dispatch_frame list \<Rightarrow> dispatch_frame \<Rightarrow>
    dispatch_world \<Rightarrow> enter_outcome" where
  "to_original env i fs f w =
     (if fr_skip_original f then finish_skipped env fs f w else Some (go_on i f w, f # fs, w))"

definition dispatch_callbacks :: "dispatch_env \<Rightarrow> nat \<Rightarrow> bool \<Rightarrow> dispatch_frame list \<Rightarrow> dispatch_frame \<Rightarrow>
    dispatch_world \<Rightarrow> enter_outcome" where
  "dispatch_callbacks env i generated fs f w =
     (case run_entered env i f w of
        (f1, w1) \<Rightarrow>
          if generated \<and> fr_bridge_active f1
          then
            let skip = fr_skip_original f1 in
            Option.bind (LeaveGeneratedVmBridge env skip (\<not> skip) f1 w1) (\<lambda>(left, f2, w2).
              if left then to_original env i fs f2 w2
              else Option.bind (DropPersistentGeneratedRoots env skip True f2 w2) (\<lambda>(_, f3, w3).
                     case ClearEnteredListeners f3 w3 of
                       (f4, w4) \<Rightarrow>
                         let w5 = exit_hook env (Some i) w4 in
                         Some ((go_on i f4 w5)\<lparr>er_original := (if skip then 0 else hook_backup i w5)\<rparr>,
                               fs, w5)))
          else to_original env i fs f1 w1)"

definition admitted_dispatch :: "dispatch_env \<Rightarrow> nat \<Rightarrow> bool \<Rightarrow> bool \<Rightarrow> dispatch_frame list \<Rightarrow>
    dispatch_frame \<Rightarrow> dispatch_world \<Rightarrow> enter_outcome" where
  "admitted_dispatch env i generated late_shared fs f w =
     (let h = hr_hook (dw_registry w) i;
          w1 = (if gated_real_dart h then release_entrant i w else w) in
      if late_shared
      then (case ClearEnteredListeners f w1 of (f2, w2) \<Rightarrow> Some (go_on i f2 w2, f2 # fs, w2))
      else dispatch_callbacks env i generated fs f w1)"

text \<open>The part after \<open>BeginInvocation\<close> has admitted the call.\<close>

definition begun_dispatch :: "dispatch_env \<Rightarrow> nat \<Rightarrow> dispatch_frame list \<Rightarrow> dispatch_frame \<Rightarrow>
    dispatch_world \<Rightarrow> enter_outcome" where
  "begun_dispatch env i fs f w =
     (case FilterListenersForCurrentIsolateGroup env (fr_context f) f w of
        (f1, w1) \<Rightarrow>
          (case BindInvocationToCurrentOwner f1 w1 of
             (listener, f2, w2) \<Rightarrow>
               let h = hr_hook (dw_registry w2) i; rd = real_dart h;
                   late_shared = (fr_ambiguous f2 \<and> \<not> hk_shared_code_opt_in h);
                   wanted = (fr_entered f2 \<noteq> [] \<and> fr_adapter f2 \<noteq> None \<and> \<not> late_shared);
                   generated = (rd \<and> wanted)
               in Option.bind (set_up_scope env generated wanted f2 w2) (\<lambda>(ok, f3, w3).
                    if \<not> ok then Some (pass_through env i fs f3 w3)
                    else (case (if rd then EnsureArm64ExceptionBridge env i (fr_context f3) listener w3
                                else (True, w3)) of
                            (ensured, w4) \<Rightarrow>
                              if \<not> ensured
                              then map_option (\<lambda>(f5, w5). pass_through env i fs f5 w5)
                                     (take_back env generated f3 w4)
                              else admitted_dispatch env i generated late_shared fs f3 w4))))"

definition refused_dispatch :: "nat \<Rightarrow> dispatch_frame list \<Rightarrow> dispatch_frame \<Rightarrow> dispatch_world \<Rightarrow>
    enter_result \<times> dispatch_frame list \<times> dispatch_world" where
  "refused_dispatch i fs f w =
     (let h = hr_hook (dw_registry w) i;
          w1 = (if \<not> gated_real_dart h \<or> \<not> hk_backend_installed h then release_entrant i w else w)
      in (go_on i f w1, if real_dart h then fs else f\<lparr>fr_hook := None\<rparr> # fs, w1))"

definition dartplant_arm64_dispatch_enter :: "dispatch_env \<Rightarrow> arm64_context option \<Rightarrow> nat option \<Rightarrow>
    dispatch_frame list \<Rightarrow> dispatch_world \<Rightarrow> enter_outcome" where
  "dartplant_arm64_dispatch_enter env context hook fs w =
     (case (context, hook) of
        (Some cx, Some i) \<Rightarrow>
          let s = dw_registry w; h = hr_hook s i; gated = gated_real_dart h;
              unpinned = (if gated then w else release_entrant i w)
          in if \<not> hk_has_method h then Some (\<lparr>er_context = None, er_original = 0\<rparr>, fs, w)
             else if \<not> hk_active h \<and> \<not> gated
             then Some (\<lparr>er_context = Some cx, er_original = inactive_original s h\<rparr>, fs, w)
             else if \<not> ev_stack env \<or> length fs \<ge> kMaxInvocationDepth
             then Some (\<lparr>er_context = Some cx, er_original = hook_backup i unpinned\<rparr>, fs, unpinned)
             else
               let f = new_frame s i cx (of_nat (length fs + 1)) in
               (case BeginInvocation (ev_profile_at env) i s of
                  (False, _, s1) \<Rightarrow> Some (refused_dispatch i fs f (set_registry s1 w))
                | (True, ls, s1) \<Rightarrow> begun_dispatch env i fs (f\<lparr>fr_entered := ls\<rparr>) (set_registry s1 w))
      | _ \<Rightarrow> Some (\<lparr>er_context = None, er_original = 0\<rparr>, fs, w))"

section \<open>Returning\<close>

definition CurrentFrame :: "dispatch_env \<Rightarrow> dispatch_frame list \<Rightarrow> dispatch_frame option" where
  "CurrentFrame env fs = (if ev_stack env then (case fs of [] \<Rightarrow> None | f # _ \<Rightarrow> Some f) else None)"

definition dartplant_arm64_prepare_invoke_original_frame :: "dispatch_env \<Rightarrow> ptr \<Rightarrow> dispatch_frame list \<Rightarrow>
    bool \<times> dispatch_frame list" where
  "dartplant_arm64_prepare_invoke_original_frame env native_sp fs =
     (case CurrentFrame env fs of
        None \<Rightarrow> (False, fs)
      | Some f \<Rightarrow>
          if native_sp = 0 \<or> fr_native_frame f \<noteq> 0 then (False, fs)
          else (True, f\<lparr>fr_native_frame := native_sp\<rparr> # tl fs))"

record return_result =
  rt_context :: "arm64_context option"
  rt_resume_native_sp :: ptr

text \<open>What the return stub knows: the values in the result channels and where it stands.\<close>

record return_site =
  rs_result0 :: u64
  rs_result1 :: u64
  rs_fp_bits :: u64
  rs_lr :: ptr
  rs_spreg :: ptr
  rs_fp :: ptr

definition returns_from :: "nat option \<Rightarrow> return_site \<Rightarrow> dispatch_frame \<Rightarrow> bool" where
  "returns_from payload site f \<longleftrightarrow>
     fr_payload f \<noteq> None \<and> fr_payload f = payload \<and> cx_x (fr_context f) 30 = rs_lr site \<and>
     fr_entry_spreg f = rs_spreg site \<and> fr_entry_caller_fp f = rs_fp site"

definition dartplant_arm64_dispatch_return_from_payload :: "dispatch_env \<Rightarrow> nat option \<Rightarrow> return_site \<Rightarrow>
    dispatch_frame list \<Rightarrow> dispatch_world \<Rightarrow>
    (return_result \<times> dispatch_frame list \<times> dispatch_world) option" where
  "dartplant_arm64_dispatch_return_from_payload env payload site fs w =
     (case CurrentFrame env fs of
        None \<Rightarrow> Some (\<lparr>rt_context = None, rt_resume_native_sp = 0\<rparr>, fs, w)
      | Some f \<Rightarrow>
          if \<not> returns_from payload site f
          then Some (\<lparr>rt_context = None, rt_resume_native_sp = 0\<rparr>, fs, w)
          else
            let f1 = CaptureReturnChannels (rs_result0 site) (rs_result1 site) (rs_fp_bits site) f in
            if fr_native_frame f1 \<noteq> 0
            then Some (\<lparr>rt_context = Some (fr_context f1), rt_resume_native_sp = fr_native_frame f1\<rparr>,
                       f1\<lparr>fr_native_frame := 0\<rparr> # tl fs, w)
            else map_option (\<lambda>(f2, w2). (\<lparr>rt_context = Some (fr_context f2), rt_resume_native_sp = 0\<rparr>,
                                         tl fs, w2))
                   (FinishFrame env (rs_result0 site) (rs_result1 site) (rs_fp_bits site) f1 w))"

definition dartplant_arm64_dispatch_return_from_hook :: "dispatch_env \<Rightarrow> nat option \<Rightarrow> return_site \<Rightarrow>
    dispatch_frame list \<Rightarrow> dispatch_world \<Rightarrow>
    (return_result \<times> dispatch_frame list \<times> dispatch_world) option" where
  "dartplant_arm64_dispatch_return_from_hook env hook site fs w =
     (let s = dw_registry w;
          payload = Option.bind hook (\<lambda>i. Option.bind (hk_target (hr_hook s i))
                      (\<lambda>t. et_payload (tw_target (hr_world s) t)))
      in dartplant_arm64_dispatch_return_from_payload env payload site fs w)"

record leave_result =
  le_context :: "arm64_context option"
  le_result :: u64

definition dartplant_arm64_dispatch_leave_from_tls :: "dispatch_env \<Rightarrow> u64 \<Rightarrow> u64 \<Rightarrow> u64 \<Rightarrow>
    dispatch_frame list \<Rightarrow> dispatch_world \<Rightarrow>
    (leave_result \<times> dispatch_frame list \<times> dispatch_world) option" where
  "dartplant_arm64_dispatch_leave_from_tls env result0 result1 fp_bits fs w =
     (case CurrentFrame env fs of
        None \<Rightarrow> Some (\<lparr>le_context = None, le_result = result0\<rparr>, fs, w)
      | Some f \<Rightarrow>
          map_option (\<lambda>(f1, w1). (\<lparr>le_context = Some (fr_context f1), le_result = cx_x (fr_context f1) 0\<rparr>,
                                  tl fs, w1))
            (FinishFrame env result0 result1 fp_bits f w))"

section \<open>Unwinding\<close>

definition unwound :: "ptr \<Rightarrow> ptr \<Rightarrow> dispatch_frame \<Rightarrow> bool" where
  "unwound target_spreg target_fp f \<longleftrightarrow>
     (fr_entry_caller_fp f \<noteq> 0 \<and> target_fp \<noteq> 0 \<and> target_fp \<ge> fr_entry_caller_fp f) \<or>
     (fr_entry_spreg f \<noteq> 0 \<and> target_spreg \<noteq> 0 \<and> target_spreg > fr_entry_spreg f)"

definition unwind_frame :: "dispatch_env \<Rightarrow> dispatch_frame \<Rightarrow> dispatch_world \<Rightarrow> dispatch_world option" where
  "unwind_frame env f w =
     (case exception_callbacks env (rev (fr_entered f)) (f\<lparr>fr_phase := PhaseException\<rparr>) w of
        (f1, w1) \<Rightarrow> map_option snd (AbandonFrame env f1 w1))"

text \<open>The loop's state: the stack and the world, or none once the process has ended.\<close>

type_synonym unwind_state = "(dispatch_frame list \<times> dispatch_world) option"

definition unwind_goes_on :: "ptr \<Rightarrow> ptr \<Rightarrow> unwind_state \<Rightarrow> bool" where
  "unwind_goes_on target_spreg target_fp st =
     (case st of None \<Rightarrow> False
      | Some (fs, w) \<Rightarrow> (case fs of [] \<Rightarrow> False | f # _ \<Rightarrow> unwound target_spreg target_fp f))"

definition unwind_step :: "dispatch_env \<Rightarrow> unwind_state \<Rightarrow> unwind_state" where
  "unwind_step env st =
     (case st of None \<Rightarrow> None
      | Some (fs, w) \<Rightarrow> (case fs of [] \<Rightarrow> st
          | f # rest \<Rightarrow> map_option (\<lambda>w1. (rest, w1)) (unwind_frame env f w)))"

text \<open>A loop that does not end would be \<open>None\<close>; an ended process is \<open>Some None\<close>.\<close>

definition dartplant_arm64_dispatch_exception_unwind :: "dispatch_env \<Rightarrow> ptr \<Rightarrow> ptr \<Rightarrow>
    dispatch_frame list \<Rightarrow> dispatch_world \<Rightarrow> unwind_state option" where
  "dartplant_arm64_dispatch_exception_unwind env target_spreg target_fp fs w =
     (if (target_spreg = 0 \<and> target_fp = 0) \<or> \<not> ev_stack env then Some (Some (fs, w))
      else while_option (unwind_goes_on target_spreg target_fp) (unwind_step env) (Some (fs, w)))"

end
