(* ===== verification/Callback_Balance.thy ===== *)
theory Callback_Balance
  imports Callback_Dispatch Hook_System
begin

text \<open>
  What a frame owes: the invocation of its hook, the entries of its listeners, and at its adapter
  a scope, a transition and a root lease. Each part of the bridge of \<open>Generated_Bridge\<close> changes the
  adapter's counters and the frame's flags together, which \<open>tallies\<close> says.
\<close>

section \<open>Steps that tally\<close>

definition owes_scope :: "dispatch_frame \<Rightarrow> nat \<Rightarrow> bool" where
  "owes_scope f a \<longleftrightarrow> fr_scope_entered f \<and> fr_adapter f = Some a"

definition owes_transition :: "dispatch_frame \<Rightarrow> nat \<Rightarrow> bool" where
  "owes_transition f a \<longleftrightarrow> fr_bridge_active f \<and> fr_adapter f = Some a"

definition owes_lease :: "dispatch_frame \<Rightarrow> nat \<Rightarrow> bool" where
  "owes_lease f a \<longleftrightarrow> fr_lease f \<noteq> 0 \<and> fr_adapter f = Some a"

definition same_call :: "dispatch_frame \<Rightarrow> dispatch_frame \<Rightarrow> bool" where
  "same_call f f' \<longleftrightarrow> fr_entered f' = fr_entered f \<and> fr_hook f' = fr_hook f \<and>
     fr_adapter f' = fr_adapter f"

definition adapter_of_world :: "dispatch_world \<Rightarrow> nat \<Rightarrow> vm_adapter" where
  "adapter_of_world w = hr_adapter (dw_registry w)"

definition shifted :: "dispatch_frame \<Rightarrow> dispatch_world \<Rightarrow> dispatch_frame \<Rightarrow> dispatch_world \<Rightarrow> bool" where
  "shifted f w f' w' \<longleftrightarrow> (\<forall>a.
     va_entered (adapter_of_world w' a) + of_bool (owes_scope f a) =
       va_entered (adapter_of_world w a) + of_bool (owes_scope f' a) \<and>
     va_transitions (adapter_of_world w' a) + of_bool (owes_transition f a) =
       va_transitions (adapter_of_world w a) + of_bool (owes_transition f' a) \<and>
     va_root_leases (adapter_of_world w' a) + of_bool (owes_lease f a) =
       va_root_leases (adapter_of_world w a) + of_bool (owes_lease f' a))"

definition steady :: "dispatch_world \<Rightarrow> dispatch_world \<Rightarrow> bool" where
  "steady w w' \<longleftrightarrow> hr_hook (dw_registry w') = hr_hook (dw_registry w) \<and>
     hr_listener (dw_registry w') = hr_listener (dw_registry w) \<and> dw_calls w' = dw_calls w"

definition tallies :: "dispatch_frame \<Rightarrow> dispatch_world \<Rightarrow> dispatch_frame \<Rightarrow> dispatch_world \<Rightarrow> bool" where
  "tallies f w f' w' \<longleftrightarrow> same_call f f' \<and> steady w w' \<and> shifted f w f' w'"

lemma move_trans:
  fixes u v w :: "'a::comm_ring_1"
  assumes "v + f = w + g" "u + g = v + h"
  shows "u + f = w + h"
proof -
  have "v = w + g - f" "u = v + h - g" using assms by (simp_all add: eq_diff_eq)
  then show ?thesis by simp
qed

lemma shifted_trans: "shifted f w g v \<Longrightarrow> shifted g v h u \<Longrightarrow> shifted f w h u"
  unfolding shifted_def by (blast intro: move_trans)

lemma tallies_refl [simp]: "tallies f w f w"
  by (simp add: tallies_def same_call_def steady_def shifted_def)

lemma tallies_trans: "tallies f w g v \<Longrightarrow> tallies g v h u \<Longrightarrow> tallies f w h u"
  unfolding tallies_def using shifted_trans by (auto simp: same_call_def steady_def)

text \<open>A frame that differs in nothing it owes, and a world that differs in nothing counted.\<close>

lemma tallies_frame:
  "tallies f w f' w' \<Longrightarrow> fr_entered g = fr_entered f' \<Longrightarrow> fr_hook g = fr_hook f' \<Longrightarrow>
   fr_adapter g = fr_adapter f' \<Longrightarrow> fr_scope_entered g = fr_scope_entered f' \<Longrightarrow>
   fr_bridge_active g = fr_bridge_active f' \<Longrightarrow> (fr_lease g = 0) = (fr_lease f' = 0) \<Longrightarrow>
   tallies f w g w'"
  by (simp add: tallies_def same_call_def shifted_def owes_scope_def owes_transition_def owes_lease_def)

lemma tallies_world:
  "tallies f w f' w' \<Longrightarrow> dw_registry v = dw_registry w' \<Longrightarrow> dw_calls v = dw_calls w' \<Longrightarrow>
   tallies f w f' v"
  by (simp add: tallies_def steady_def shifted_def adapter_of_world_def)

definition counters :: "vm_adapter \<Rightarrow> u32 \<times> u32 \<times> u64" where
  "counters a = (va_entered a, va_transitions a, va_root_leases a)"

lemma adapter_op_cases:
  assumes "adapter_op oper f w = (st, w')"
  obtains "w' = w" "st = DP_INVALID_ARGUMENT" "fr_adapter f = None"
  | a v where "fr_adapter f = Some a" "oper (hr_adapter (dw_registry w) a) = (st, v)"
      "w' = tick (set_registry (set_adapter a v (dw_registry w)) w)"
  using assms by (auto simp: adapter_op_def split: option.splits prod.splits)

lemma steady_adapter:
  "steady w (tick (set_registry (set_adapter a v (dw_registry w)) w))"
  by (simp add: steady_def tick_def set_registry_def set_adapter_def)

lemma adapter_of_world_set:
  "adapter_of_world (tick (set_registry (set_adapter a v (dw_registry w)) w)) =
     (adapter_of_world w)(a := v)"
  by (simp add: adapter_of_world_def tick_def set_registry_def set_adapter_def)

lemma tallies_neutral:
  assumes run: "adapter_op oper f w = (st, w')"
    and neutral: "\<And>v st v'. oper v = (st, v') \<Longrightarrow> counters v' = counters v"
  shows "tallies f w f w'"
  using run
proof (rule adapter_op_cases)
  fix a v
  assume v: "oper (hr_adapter (dw_registry w) a) = (st, v)"
    and w': "w' = tick (set_registry (set_adapter a v (dw_registry w)) w)"
  have "counters v = counters (adapter_of_world w a)"
    using neutral [OF v] by (simp add: adapter_of_world_def)
  then show ?thesis
    by (simp add: tallies_def same_call_def steady_adapter shifted_def w' adapter_of_world_set counters_def)
qed simp

lemma tallies_set:
  assumes a: "fr_adapter f = Some a" and same: "same_call f g"
    and scope: "va_entered v + of_bool (owes_scope f a) =
      va_entered (adapter_of_world w a) + of_bool (owes_scope g a)"
    and transition: "va_transitions v + of_bool (owes_transition f a) =
      va_transitions (adapter_of_world w a) + of_bool (owes_transition g a)"
    and lease: "va_root_leases v + of_bool (owes_lease f a) =
      va_root_leases (adapter_of_world w a) + of_bool (owes_lease g a)"
  shows "tallies f w g (tick (set_registry (set_adapter a v (dw_registry w)) w))"
proof -
  have others: "owes_scope f b = owes_scope g b" "owes_transition f b = owes_transition g b"
    "owes_lease f b = owes_lease g b" if "b \<noteq> a" for b
    using that a same
    by (auto simp: same_call_def owes_scope_def owes_transition_def owes_lease_def)
  have "shifted f w g (tick (set_registry (set_adapter a v (dw_registry w)) w))"
    unfolding shifted_def adapter_of_world_set
  proof (intro allI)
    fix b
    show "va_entered (((adapter_of_world w)(a := v)) b) + of_bool (owes_scope f b) =
        va_entered (adapter_of_world w b) + of_bool (owes_scope g b) \<and>
      va_transitions (((adapter_of_world w)(a := v)) b) + of_bool (owes_transition f b) =
        va_transitions (adapter_of_world w b) + of_bool (owes_transition g b) \<and>
      va_root_leases (((adapter_of_world w)(a := v)) b) + of_bool (owes_lease f b) =
        va_root_leases (adapter_of_world w b) + of_bool (owes_lease g b)"
      by (cases "b = a") (use scope transition lease others in auto)
  qed
  then show ?thesis by (simp add: tallies_def same steady_adapter)
qed

text \<open>An operation that, when it succeeds, moves a counter as the flags of the frame move.\<close>

lemma tallies_op:
  assumes run: "adapter_op oper f w = (st, w')" and same: "same_call f g"
    and moved: "\<And>a v. oper a = (DP_OK, v) \<Longrightarrow> counters v = (va_entered a + ds, va_transitions a + dt, va_root_leases a + dl)"
    and failed: "\<And>a st v. oper a = (st, v) \<Longrightarrow> st \<noteq> DP_OK \<Longrightarrow> counters v = counters a"
    and owes: "\<And>a. fr_adapter f = Some a \<Longrightarrow> ds + of_bool (owes_scope f a) = of_bool (owes_scope g a) \<and>
      dt + of_bool (owes_transition f a) = of_bool (owes_transition g a) \<and>
      dl + of_bool (owes_lease f a) = of_bool (owes_lease g a)"
  shows "tallies f w (if st = DP_OK then g else f) w'"
  using run
proof (rule adapter_op_cases)
  fix a v
  assume a: "fr_adapter f = Some a" and v: "oper (hr_adapter (dw_registry w) a) = (st, v)"
    and w': "w' = tick (set_registry (set_adapter a v (dw_registry w)) w)"
  have o: "oper (adapter_of_world w a) = (st, v)" using v by (simp add: adapter_of_world_def)
  show ?thesis
  proof (cases "st = DP_OK")
    case True
    have c: "counters v = (va_entered (adapter_of_world w a) + ds, va_transitions (adapter_of_world w a) + dt,
        va_root_leases (adapter_of_world w a) + dl)" using moved o True by simp
    have "tallies f w g w'"
      unfolding w' by (rule tallies_set [OF a same]) (use c owes [OF a] in \<open>simp_all add: counters_def add.assoc\<close>)
    then show ?thesis using True by simp
  next
    case False
    have c: "counters v = counters (adapter_of_world w a)" using failed [OF o False] .
    have "tallies f w f w'"
      unfolding w' by (rule tallies_set [OF a]) (use c in \<open>simp_all add: counters_def same_call_def\<close>)
    then show ?thesis using False by simp
  qed
qed simp

section \<open>The counters of the adapter's operations\<close>

lemma owner_counters:
  "CheckAttachedOwner me a = (st, v) \<Longrightarrow> counters v = counters a"
  by (auto simp: CheckAttachedOwner_def counters_def Let_def split: if_splits)

lemma proof_counters:
  "record_proof profiles kind p a = (st, v) \<Longrightarrow> counters v = counters a"
  by (auto simp: record_proof_def counters_def ResetAbiBinding_def Let_def
      split: if_splits option.splits)

lemma prove_counters:
  assumes run: "VmAdapterProveCapability profiles args locked me kind answer p a = (st, v)"
  shows "counters v = counters a"
proof -
  obtain o1 a1 where o: "CheckAttachedOwner me a = (o1, a1)" by fastforce
  let ?a2 = "if va_owner a = None \<and> \<not> va_isolate_entered a1 \<and> va_entered a1 = 0 \<and>
     va_root_leases a1 = 0 \<and> va_transitions a1 = 0 then a1\<lparr>va_owner := None\<rparr> else a1"
  have c1: "counters a1 = counters a" by (rule owner_counters [OF o])
  have c2: "counters ?a2 = counters a" using c1 by (simp add: counters_def)
  consider "v = a" | "v = a1" | "v = ?a2" | "record_proof profiles kind p ?a2 = (st, v)"
    using run unfolding VmAdapterProveCapability_def Let_def o prod.case
    by (simp only: prod.inject split: if_split_asm)
  then show ?thesis
  proof cases
    case 4
    then show ?thesis using proof_counters [OF 4] c2 by simp
  qed (use c1 c2 in simp_all)
qed

lemma element_counters:
  "VmAdapterReadTypeArgumentsElementGenerated args locked me answer a = (st, v) \<Longrightarrow>
   counters v = counters a"
  by (cases "CheckAttachedOwner me a")
    (auto simp: VmAdapterReadTypeArgumentsElementGenerated_def Let_def dest: owner_counters split: if_splits)

lemma enter_scope_counters:
  "dartplant_vm_enter_scope me answer a = (st, v) \<Longrightarrow>
   counters v = (if st = DP_OK then (va_entered a + 1, va_transitions a, va_root_leases a) else counters a)"
  by (auto simp: dartplant_vm_enter_scope_def counters_def Let_def split: if_splits)

lemma leave_scope_counters:
  "dartplant_vm_leave_scope me answer a = (st, v) \<Longrightarrow>
   counters v = (if st = DP_OK then (va_entered a - 1, va_transitions a, va_root_leases a) else counters a)"
  by (auto simp: dartplant_vm_leave_scope_def counters_def Let_def split: if_splits)

lemma pin_counters:
  "VmAdapterPinGeneratedRoots args locked me answer lease a = (st, l, v) \<Longrightarrow>
   counters v = (if st = DP_OK then (va_entered a, va_transitions a, va_root_leases a + 1) else counters a) \<and>
   (st = DP_OK \<longrightarrow> l \<noteq> 0)"
  by (cases "CheckAttachedOwner me a")
    (auto simp: VmAdapterPinGeneratedRoots_def counters_def Let_def
      dest: owner_counters [unfolded counters_def] split: if_splits)

lemma unpin_counters:
  "VmAdapterUnpinGeneratedRoots args locked me answer a = (st, v) \<Longrightarrow>
   counters v = (if st = DP_OK then (va_entered a, va_transitions a, va_root_leases a - 1) else counters a)"
  by (cases "CheckAttachedOwner me a")
    (auto simp: VmAdapterUnpinGeneratedRoots_def counters_def Let_def
      dest: owner_counters [unfolded counters_def] split: if_splits)

lemma to_native_counters:
  "VmAdapterEnterGeneratedToNative args locked me answer a = (st, v) \<Longrightarrow>
   counters v = (if st = DP_OK then (va_entered a, va_transitions a + 1, va_root_leases a) else counters a)"
  by (cases "CheckAttachedOwner me a")
    (auto simp: VmAdapterEnterGeneratedToNative_def counters_def Let_def
      dest: owner_counters [unfolded counters_def] split: if_splits)

lemma to_generated_counters:
  "VmAdapterLeaveNativeToGenerated args me answer a = (st, v) \<Longrightarrow>
   counters v = (if st = DP_OK then (va_entered a, va_transitions a - 1, va_root_leases a) else counters a)"
  by (auto simp: VmAdapterLeaveNativeToGenerated_def counters_def Let_def split: if_splits)

section \<open>Scopes, transitions and leases\<close>

lemma tallies_enter_scope:
  assumes "enter_scope env f w = (st, w')" and "\<not> fr_scope_entered f"
  shows "tallies f w (if st = DP_OK then f\<lparr>fr_scope_entered := True\<rparr> else f) w'"
  using assms(1) unfolding enter_scope_def
  by (rule tallies_op [where ds = 1 and dt = 0 and dl = 0])
    (use assms(2) in \<open>auto simp: same_call_def owes_scope_def owes_transition_def owes_lease_def
       dest: enter_scope_counters\<close>)

lemma tallies_leave_scope:
  assumes "leave_scope env f w = (st, w')" and "fr_scope_entered f"
  shows "tallies f w (if st = DP_OK then f\<lparr>fr_scope_entered := False\<rparr> else f) w'"
  using assms(1) unfolding leave_scope_def
  by (rule tallies_op [where ds = "-1" and dt = 0 and dl = 0])
    (use assms(2) in \<open>auto simp: same_call_def owes_scope_def owes_transition_def owes_lease_def
       dest: leave_scope_counters\<close>)

lemma tallies_to_native:
  assumes "to_native env f w = (st, w')" and "\<not> fr_bridge_active f"
  shows "tallies f w (if st = DP_OK then f\<lparr>fr_bridge_active := True\<rparr> else f) w'"
  using assms(1) unfolding to_native_def
  by (rule tallies_op [where ds = 0 and dt = 1 and dl = 0])
    (use assms(2) in \<open>auto simp: same_call_def owes_scope_def owes_transition_def owes_lease_def
       dest: to_native_counters\<close>)

lemma tallies_to_generated:
  assumes "to_generated env f w = (st, w')" and "fr_bridge_active f"
  shows "tallies f w (if st = DP_OK then f\<lparr>fr_bridge_active := False\<rparr> else f) w'"
  using assms(1) unfolding to_generated_def
  by (rule tallies_op [where ds = 0 and dt = "-1" and dl = 0])
    (use assms(2) in \<open>auto simp: same_call_def owes_scope_def owes_transition_def owes_lease_def
       dest: to_generated_counters\<close>)

section \<open>Proofs and the argument mapping\<close>

lemma tallies_prove:
  "prove_capability env kind f w = (st, p, w') \<Longrightarrow> tallies f w f w'"
  unfolding prove_capability_def
  by (auto split: prod.splits intro!: tallies_neutral dest: prove_counters)

lemma tallies_prove_descriptor:
  "prove_descriptor env cl f w = (st, w') \<Longrightarrow> tallies f w f w'"
  unfolding prove_descriptor_def
  by (auto split: if_splits prod.splits option.splits dest: tallies_prove)

lemma tallies_descriptor:
  "dartplant_invocation_get_arguments_descriptor env f w = (r, w') \<Longrightarrow> tallies f w f w'"
  unfolding dartplant_invocation_get_arguments_descriptor_def
  by (auto split: option.splits if_splits prod.splits dest: tallies_prove_descriptor)

lemma tallies_prove_closure:
  "prove_closure_call env cl f w = (ok, w') \<Longrightarrow> tallies f w f w'"
  unfolding prove_closure_call_def
  by (auto split: if_splits prod.splits option.splits dest: tallies_prove)

text \<open>What a frame owes is unchanged, and so are its roots and its lease.\<close>

definition same_debts :: "dispatch_frame \<Rightarrow> dispatch_frame \<Rightarrow> bool" where
  "same_debts f g \<longleftrightarrow> fr_entered g = fr_entered f \<and> fr_hook g = fr_hook f \<and>
     fr_adapter g = fr_adapter f \<and> fr_scope_entered g = fr_scope_entered f \<and>
     fr_bridge_active g = fr_bridge_active f \<and> fr_lease g = fr_lease f"

lemma same_debts_refl [simp]: "same_debts f f"
  by (simp add: same_debts_def)

lemma same_debts_trans: "same_debts f g \<Longrightarrow> same_debts g h \<Longrightarrow> same_debts f h"
  by (simp add: same_debts_def)

lemma tallies_debts: "tallies f w g v \<Longrightarrow> same_debts g h \<Longrightarrow> tallies f w h v"
  by (rule tallies_frame) (simp_all add: same_debts_def)

lemma debts_quiet: "same_debts f g \<Longrightarrow> tallies f w g w"
  by (rule tallies_debts [OF tallies_refl])

lemma debts_locate:
  "locate_type_arguments env info f w = (ok, g) \<Longrightarrow> same_debts f g"
  by (auto simp: locate_type_arguments_def same_debts_def split: if_splits option.splits)

lemma debts_finish_mapping:
  "finish_mapping cl info acc f = (ok, g) \<Longrightarrow> same_debts f g"
  by (auto simp: finish_mapping_def same_debts_def split: option.splits)

lemma tallies_map_arguments:
  assumes run: "map_arguments env cl s f w = (ok, g, v)"
  shows "tallies f w g v \<and> same_debts f g"
proof -
  obtain r w1 where d: "dartplant_invocation_get_arguments_descriptor env f w = (r, w1)" by fastforce
  have q1: "tallies f w f w1" by (rule tallies_descriptor [OF d])
  show ?thesis
  proof (cases "\<exists>info acc. r = Inr info \<and> descriptor_shape_ok info \<and> descriptor_matches s info \<and>
      actuals s info (ReadDescriptorNamedEntry env f w1) = Some acc")
    case False
    then show ?thesis
      using run d q1 by (auto simp: map_arguments_def split: sum.splits if_splits option.splits)
  next
    case True
    then obtain info acc where r: "r = Inr info" "descriptor_shape_ok info" "descriptor_matches s info"
      "actuals s info (ReadDescriptorNamedEntry env f w1) = Some acc" by blast
    obtain ok1 f1 where l: "locate_type_arguments env info f w1 = (ok1, f1)" by fastforce
    obtain ok2 w2 where p: "prove_closure_call env cl f1 w1 = (ok2, w2)" by fastforce
    obtain ok3 f2 where m: "finish_mapping cl info acc f1 = (ok3, f2)" by fastforce
    have q: "tallies f w f1 w1" "tallies f w f1 w2" "tallies f w f2 w2"
      using tallies_debts [OF q1 debts_locate [OF l]] tallies_prove_closure [OF p]
        debts_finish_mapping [OF m] tallies_trans tallies_debts by blast+
    have "(g, v) \<in> {(f1, w1), (f1, w2), (f2, w2)}"
      using run d r l p m by (auto simp: map_arguments_def split: bool.splits)
    then show ?thesis using q debts_locate [OF l] debts_finish_mapping [OF m] same_debts_trans by auto
  qed
qed

lemma tallies_active_parameters:
  assumes "ActiveParameters env f w = (r, g, v)"
  shows "tallies f w g v \<and> same_debts f g"
proof -
  have start: "same_debts f (f\<lparr>fr_mapping_attempted := b\<rparr>)" for b by (simp add: same_debts_def)
  have "tallies f w g v \<and> same_debts f g" if e: "EnsureClosureArgumentMapping env f w = (ok, g, v)" for ok
    using e start same_debts_trans [OF start] tallies_trans [OF debts_quiet [OF start]] debts_quiet [OF start]
    by (auto simp: EnsureClosureArgumentMapping_def split: option.splits if_splits
        dest!: tallies_map_arguments)
  then show ?thesis using assms by (auto simp: ActiveParameters_def split: prod.splits)
qed

section \<open>Roots\<close>

lemma debts_add_binding:
  "AddGeneratedRootBinding loc role f = Some g \<Longrightarrow> same_debts f g"
  by (auto simp: AddGeneratedRootBinding_def same_debts_def split: if_splits)

lemma debts_add_if: "add_root_if c loc role f = Some g \<Longrightarrow> same_debts f g"
  by (auto simp: add_root_if_def dest: debts_add_binding split: if_splits)

lemma debts_add_parameters:
  "add_parameter_roots cl i ps f = Some g \<Longrightarrow> same_debts f g"
proof (induction ps arbitrary: i f)
  case (Cons p ps)
  then obtain f1 where 1: "add_parameter_root cl i p f = Some f1"
    and 2: "add_parameter_roots cl (i + 1) ps f1 = Some g"
    by (auto simp: bind_eq_Some_conv)
  have "same_debts f f1"
    using 1 by (auto simp: add_parameter_root_def dest: debts_add_binding split: if_splits)
  then show ?case using Cons.IH [OF 2] same_debts_trans by blast
qed simp

lemma debts_add_values: "add_values vs f = Some g \<Longrightarrow> same_debts f g"
proof (induction vs arbitrary: f)
  case (Cons v vs)
  then obtain n f1 where 1: "AddGeneratedRootValue v f = Some (n, f1)" and 2: "add_values vs f1 = Some g"
    by (auto simp: bind_eq_Some_conv)
  have "same_debts f f1"
    using 1 by (auto simp: AddGeneratedRootValue_def same_debts_def split: if_splits)
  then show ?case using Cons.IH [OF 2] same_debts_trans by blast
qed simp

lemma tallies_read_elements:
  "read_elements env n f w = (r, v) \<Longrightarrow> tallies f w f v"
proof (induction n arbitrary: w r v)
  case (Suc n)
  obtain st w1 where a: "adapter_op (VmAdapterReadTypeArgumentsElementGenerated True (ev_free env (dw_clock w))
             (ev_thread env) (ev_status env (dw_clock w))) f w = (st, w1)" by fastforce
  have q1: "tallies f w f w1" using a by (rule tallies_neutral) (rule element_counters)
  obtain r2 w2 where b: "read_elements env n f w1 = (r2, w2)" by fastforce
  have q2: "tallies f w1 f w2" by (rule Suc.IH [OF b])
  show ?case using Suc.prems a b q1 tallies_trans [OF q1 q2] by (auto split: if_splits)
qed simp

lemma tallies_add_type_arguments:
  assumes run: "add_type_arguments env cl f w = (r, v)"
  shows "tallies f w f v \<and> (\<forall>g. r = Some g \<longrightarrow> same_debts f g)"
proof -
  let ?f = "f\<lparr>fr_type_root_base := 0, fr_type_root_count := 0\<rparr>"
  have z: "same_debts f ?f" by (simp add: same_debts_def)
  obtain vs w1 where e: "read_elements env (type_parameter_count cl) ?f w = (vs, w1)" by fastforce
  have q: "tallies f w f w1"
    by (rule tallies_debts [OF tallies_trans [OF debts_quiet [OF z] tallies_read_elements [OF e]]])
      (simp add: same_debts_def)
  have d: "same_debts f (g\<lparr>fr_type_root_count := n\<rparr>)"
    if "add_values us (?f\<lparr>fr_type_root_base := m\<rparr>) = Some g" for us m g n
    using debts_add_values [OF that] by (simp add: same_debts_def)
  show ?thesis
    using run e q z d by (auto simp: add_type_arguments_def Let_def split: if_splits option.splits)
qed

lemma debts_finish_roots:
  assumes "finish_roots cl f = Some g"
  shows "same_debts f g"
proof -
  obtain f1 f2 f3 where f1: "add_root_if (cl_has_closure_receiver cl) (cl_closure_receiver_location cl) RootInput f = Some f1"
    and f2: "add_root_if (cl_has_arguments_descriptor cl) (cl_arguments_descriptor_location cl) RootInput f1 = Some f2"
    and f3: "add_result_roots (cl_result cl) f2 = Some f3"
    and g: "g = (pad_roots f3)\<lparr>fr_accesses := root_accesses (fr_roots (pad_roots f3)),
        fr_transition := transition_of (fr_context (pad_roots f3))\<rparr>"
    using assms by (auto simp: finish_roots_def bind_eq_Some_conv Let_def)
  have "same_debts f2 f3"
    using f3 by (auto simp: add_result_roots_def Let_def bind_eq_Some_conv split: if_splits
        dest: debts_add_binding intro: same_debts_trans)
  moreover have "same_debts f3 g"
    by (simp add: g pad_roots_def same_debts_def)
  ultimately show ?thesis
    using debts_add_if [OF f1] debts_add_if [OF f2] same_debts_trans by blast
qed

lemma tallies_build:
  assumes run: "BuildGeneratedRootBindings env f w = (ok, g, v)"
  shows "tallies f w g v \<and> same_debts f g"
proof (cases "fr_layout f")
  case None
  then show ?thesis using run by (simp add: BuildGeneratedRootBindings_def)
next
  case (Some cl)
  let ?f = "f\<lparr>fr_roots := [], fr_root_values := []\<rparr>"
  have z: "same_debts f ?f" by (simp add: same_debts_def)
  obtain r f1 w1 where a: "ActiveParameters env ?f w = (r, f1, w1)" using prod_cases3 by blast
  have q1: "tallies f w f1 w1" and d1: "same_debts f f1"
    using tallies_active_parameters [OF a] tallies_trans [OF debts_quiet [OF z]] same_debts_trans [OF z] by blast+
  show ?thesis
  proof (cases "\<exists>ps f2. r = Some ps \<and> Option.bind (add_parameter_roots cl 0 ps f1)
                       (add_root_if (has_type_arguments f1) (fr_type_arguments f1) RootInput) = Some f2")
    case False
    then show ?thesis
      using run Some a q1 d1 by (auto simp: BuildGeneratedRootBindings_def split: option.splits)
  next
    case True
    then obtain ps f2 where r: "r = Some ps" and
      f2: "Option.bind (add_parameter_roots cl 0 ps f1)
                       (add_root_if (has_type_arguments f1) (fr_type_arguments f1) RootInput) = Some f2" by blast
    have d2: "same_debts f f2"
      using f2 d1 by (auto simp: bind_eq_Some_conv dest!: debts_add_parameters debts_add_if
          intro: same_debts_trans)
    obtain r3 w3 where t: "add_type_arguments env cl f2 w1 = (r3, w3)" by fastforce
    have d12: "same_debts f1 f2" using d1 d2 by (simp add: same_debts_def)
    have q3: "tallies f w f2 w3"
      using tallies_add_type_arguments [OF t] tallies_trans [OF tallies_debts [OF q1 d12]] by blast
    have d3: "same_debts f g3" if "r3 = Some g3" for g3
      using tallies_add_type_arguments [OF t] that d2 same_debts_trans by blast
    have d4: "same_debts f g4" if "r3 = Some g3" "finish_roots cl g3 = Some g4" for g3 g4
      using d3 [OF that(1)] debts_finish_roots [OF that(2)] same_debts_trans by blast
    have keep: "tallies f w h w3" if "same_debts f h" for h
      by (rule tallies_debts [OF q3]) (use that d2 in \<open>simp add: same_debts_def\<close>)
    have "v = w3 \<and> same_debts f g"
      using run Some a r f2 t d2 d3 d4
      by (auto simp: BuildGeneratedRootBindings_def split: option.splits)
    then show ?thesis using keep by blast
  qed
qed

text \<open>Pinning needs a frame without a lease; the sources of the values do not matter.\<close>

lemma tallies_pin:
  assumes run: "PinGeneratedRoots env r reuse f w = (ok, g, v)"
  shows "tallies f w g v \<and> (ok \<longrightarrow> fr_lease f = 0 \<and> fr_lease g \<noteq> 0 \<and> fr_adapter f \<noteq> None \<and> fr_roots f \<noteq> []) \<and>
    (\<not> ok \<longrightarrow> fr_lease g = fr_lease f) \<and> fr_scope_entered g = fr_scope_entered f \<and>
    fr_bridge_active g = fr_bridge_active f \<and> fr_roots g = fr_roots f"
proof (cases "fr_adapter f = None \<or> fr_lease f \<noteq> 0 \<or> fr_roots f = [] \<or> root_values (dw_memory w) f r reuse = None")
  case True
  then have "(ok, g, v) = (False, f, w)"
    using run by (auto simp: PinGeneratedRoots_def split: option.splits if_splits)
  then show ?thesis by simp
next
  case False
  then obtain a vs where a: "fr_adapter f = Some a" and lease: "fr_lease f = 0" and roots: "fr_roots f \<noteq> []"
    and vs: "root_values (dw_memory w) f r reuse = Some vs" by auto
  let ?c = "dw_clock w" and ?f = "f\<lparr>fr_root_values := vs\<rparr>"
  obtain st l u where p: "VmAdapterPinGeneratedRoots True (ev_free env ?c) (ev_thread env) (ev_status env ?c)
      (ev_lease env ?c) (hr_adapter (dw_registry w) a) = (st, l, u)" using prod_cases3 by blast
  let ?w = "tick (set_registry (set_adapter a u (dw_registry w)) w)"
  have run': "(ok, g, v) = (if st = DP_OK
      then (True, ?f\<lparr>fr_lease := l\<rparr>, ?w\<lparr>dw_roots := (dw_roots ?w)(l := vs)\<rparr>) else (False, ?f, ?w))"
    using run a lease roots vs p by (simp add: PinGeneratedRoots_def pin_values_def Let_def)
  have c: "counters u = (if st = DP_OK then (va_entered (adapter_of_world w a), va_transitions (adapter_of_world w a),
      va_root_leases (adapter_of_world w a) + 1) else counters (adapter_of_world w a))"
    and l: "st = DP_OK \<Longrightarrow> l \<noteq> 0"
    using pin_counters [OF p] by (auto simp: adapter_of_world_def)
  show ?thesis
  proof (cases "st = DP_OK")
    case True
    have "tallies f w (?f\<lparr>fr_lease := l\<rparr>) ?w"
      by (rule tallies_set [OF a])
        (use c True l [OF True] a lease in \<open>simp_all add: counters_def same_call_def owes_scope_def
          owes_transition_def owes_lease_def\<close>)
    then have "tallies f w (?f\<lparr>fr_lease := l\<rparr>) (?w\<lparr>dw_roots := (dw_roots ?w)(l := vs)\<rparr>)"
      by (rule tallies_world) simp_all
    then show ?thesis using run' True l [OF True] a lease roots by simp
  next
    case False
    have "tallies f w ?f ?w"
      by (rule tallies_set [OF a])
        (use c False in \<open>simp_all add: counters_def same_call_def owes_scope_def
          owes_transition_def owes_lease_def\<close>)
    then show ?thesis using run' False by simp
  qed
qed

lemma debts_write_root:
  "WriteGeneratedRootLocation loc v mem f = Some (mem', g) \<Longrightarrow> same_debts f g \<and> fr_roots g = fr_roots f"
  by (auto simp: WriteGeneratedRootLocation_def set_register_def same_debts_def
      split: location_kind.splits if_splits)

lemma tallies_sync_root:
  assumes run: "sync_root env r p i f w = (ok, g, v)"
  shows "tallies f w g v \<and> same_debts f g \<and> fr_roots g = fr_roots f"
proof -
  have t: "tallies f w f (tick w)" by (rule tallies_world [OF tallies_refl]) (simp_all add: tick_def)
  have u: "tallies f w (h\<lparr>fr_root_values := xs\<rparr>) (tick (w\<lparr>dw_memory := mem\<rparr>)) \<and>
      same_debts f (h\<lparr>fr_root_values := xs\<rparr>) \<and> fr_roots (h\<lparr>fr_root_values := xs\<rparr>) = fr_roots f"
    if "WriteGeneratedRootLocation loc x (dw_memory w) f = Some (mem, h)" for loc x mem h xs
  proof -
    have d: "same_debts f (h\<lparr>fr_root_values := xs\<rparr>)" using debts_write_root [OF that] by (simp add: same_debts_def)
    have "tallies f w (h\<lparr>fr_root_values := xs\<rparr>) (tick (w\<lparr>dw_memory := mem\<rparr>))"
      by (rule tallies_world [OF debts_quiet [OF d]]) (simp_all add: tick_def)
    then show ?thesis using d debts_write_root [OF that] by simp
  qed
  show ?thesis
    using run t u by (auto simp: sync_root_def Let_def split: if_splits option.splits)
qed

lemma tallies_sync_roots:
  "sync_roots env r p is f w = (ok, g, v) \<Longrightarrow> tallies f w g v \<and> same_debts f g \<and> fr_roots g = fr_roots f"
proof (induction "is" arbitrary: f w)
  case (Cons i "is")
  obtain ok1 f1 w1 where 1: "sync_root env r p i f w = (ok1, f1, w1)" using prod_cases3 by blast
  note q = tallies_sync_root [OF 1]
  show ?case
  proof (cases ok1)
    case True
    then have 2: "sync_roots env r p is f1 w1 = (ok, g, v)" using Cons.prems 1 by simp
    show ?thesis
      using Cons.IH [OF 2] q tallies_trans same_debts_trans by metis
  next
    case False
    then show ?thesis using Cons.prems 1 q by simp
  qed
qed simp

lemma tallies_sync:
  "SyncGeneratedRootsToContext env r p f w = (ok, g, v) \<Longrightarrow>
   tallies f w g v \<and> same_debts f g \<and> fr_roots g = fr_roots f"
  by (auto simp: SyncGeneratedRootsToContext_def dest: tallies_sync_roots split: if_splits)

lemma tallies_restore_roots:
  "restore_roots r bs f w = Some (g, v) \<Longrightarrow> tallies f w g v \<and> same_debts f g \<and> fr_roots g = fr_roots f"
proof (induction bs arbitrary: f w)
  case (Cons bv bs)
  obtain b x where bv: "bv = (b, x)" by fastforce
  show ?case
  proof (cases "\<not> RootRoleActive b r \<or> \<not> RootHasPhysicalLocation b")
    case True
    then show ?thesis using Cons bv by (simp only: restore_roots.simps if_True)
  next
    case False
    then obtain mem f1 where 1: "WriteGeneratedRootLocation (rb_location b) x (dw_memory w) f = Some (mem, f1)"
      and 2: "restore_roots r bs f1 (w\<lparr>dw_memory := mem\<rparr>) = Some (g, v)"
      using Cons.prems bv by (auto simp: bind_eq_Some_conv)
    have d: "same_debts f f1" "fr_roots f1 = fr_roots f" using debts_write_root [OF 1] by simp_all
    have "tallies f w f1 (w\<lparr>dw_memory := mem\<rparr>)" by (rule tallies_world [OF debts_quiet [OF d(1)]]) simp_all
    then show ?thesis using Cons.IH [OF 2] d tallies_trans same_debts_trans by metis
  qed
qed simp

lemma tallies_restore:
  "restore_context r f w = Some (g, v) \<Longrightarrow> tallies f w g v \<and> same_debts f g \<and> fr_roots g = fr_roots f"
  unfolding restore_context_def by (rule tallies_restore_roots)

lemma tallies_unpin:
  assumes run: "unpin env f w = Some (g, v)" and lease: "fr_lease f \<noteq> 0"
  shows "tallies f w g v \<and> fr_lease g = 0 \<and> fr_scope_entered g = fr_scope_entered f \<and>
    fr_bridge_active g = fr_bridge_active f \<and> fr_roots g = fr_roots f"
proof -
  obtain st w1 where a: "adapter_op (VmAdapterUnpinGeneratedRoots (fr_lease f \<noteq> 0) (ev_free env (dw_clock w))
             (ev_thread env) (ev_status env (dw_clock w))) f w = (st, w1)" by fastforce
  have ok: "st = DP_OK" and g: "g = f\<lparr>fr_root_values := dw_roots w1 (fr_lease f), fr_lease := 0\<rparr>"
    and v: "v = w1\<lparr>dw_roots := (dw_roots w1)(fr_lease f := [])\<rparr>"
    using run a by (auto simp: unpin_def split: if_splits)
  have "tallies f w (if st = DP_OK then f\<lparr>fr_lease := 0\<rparr> else f) w1"
    using a by (rule tallies_op [where ds = 0 and dt = 0 and dl = "-1"])
      (use lease in \<open>auto simp: same_call_def owes_scope_def owes_transition_def owes_lease_def
         dest: unpin_counters\<close>)
  then have "tallies f w (f\<lparr>fr_lease := 0\<rparr>) w1" using ok by simp
  then have "tallies f w g w1" by (rule tallies_debts) (simp add: g same_debts_def)
  then show ?thesis using tallies_world [of f w g w1 v] by (simp add: g v)
qed

section \<open>The bridge as a whole\<close>

lemma flags_commute:
  "f\<lparr>fr_bridge_active := b, fr_scope_entered := c\<rparr> = f\<lparr>fr_scope_entered := c, fr_bridge_active := b\<rparr>"
  by simp

lemma scope_ignores_flags:
  "enter_scope env (f\<lparr>fr_bridge_active := b\<rparr>) = enter_scope env f"
  "leave_scope env (f\<lparr>fr_bridge_active := b\<rparr>) = leave_scope env f"
  "to_generated env (f\<lparr>fr_bridge_active := b\<rparr>) = to_generated env f"
  "to_generated env (f\<lparr>fr_scope_entered := b\<rparr>) = to_generated env f"
  by (intro ext; simp add: enter_scope_def leave_scope_def to_generated_def adapter_op_def)+

text \<open>In the bridge all four belong together.\<close>

definition in_bridge :: "dispatch_frame \<Rightarrow> bool" where
  "in_bridge f \<longleftrightarrow> fr_adapter f \<noteq> None \<and> fr_lease f \<noteq> 0 \<and> fr_scope_entered f \<and> fr_bridge_active f"

definition outside :: "dispatch_frame \<Rightarrow> bool" where
  "outside f \<longleftrightarrow> \<not> fr_scope_entered f \<and> \<not> fr_bridge_active f"

lemma tallies_prepare:
  assumes "PrepareGeneratedExitFrame f w = Some (g, v)"
  shows "tallies f w g v \<and> same_debts f g \<and> fr_roots g = fr_roots f"
proof -
  have d: "same_debts f g" "fr_roots g = fr_roots f" "dw_registry v = dw_registry w" "dw_calls v = dw_calls w"
    using assms by (auto simp: PrepareGeneratedExitFrame_def Let_def same_debts_def split: if_splits)
  then show ?thesis using tallies_world [OF debts_quiet [OF d(1), of w] d(3,4)] by simp
qed

lemma tallies_enter_bridge:
  assumes run: "EnterGeneratedVmBridge env r p f w = Some (ok, g, v)" and out: "outside f"
  shows "tallies f w g v \<and> fr_roots g = fr_roots f \<and> fr_lease g = fr_lease f \<and>
    (if ok then in_bridge g else outside g)"
proof (cases "fr_adapter f = None \<or> fr_lease f = 0 \<or> PrepareGeneratedExitFrame f w = None")
  case True
  then show ?thesis using run out by (auto simp: EnterGeneratedVmBridge_def split: if_splits option.splits)
next
  case False
  then obtain f1 w1 where pre: "PrepareGeneratedExitFrame f w = Some (f1, w1)"
    and some: "fr_adapter f \<noteq> None" "fr_lease f \<noteq> 0" by auto
  note q1 = tallies_prepare [OF pre]
  have out1: "outside f1" "fr_adapter f1 = fr_adapter f" "fr_lease f1 = fr_lease f"
    using q1 out by (simp_all add: outside_def same_debts_def)
  obtain st w2 where n: "to_native env f1 w1 = (st, w2)" by fastforce
  have q2: "tallies f1 w1 (if st = DP_OK then f1\<lparr>fr_bridge_active := True\<rparr> else f1) w2"
    by (rule tallies_to_native [OF n]) (use out1 in \<open>simp add: outside_def\<close>)
  show ?thesis
  proof (cases "st = DP_OK")
    case False
    then have "g = f1" "v = w2" "\<not> ok" using run pre some n by (auto simp: EnterGeneratedVmBridge_def)
    then show ?thesis using False q1 q2 out1 tallies_trans [of f w f1 w1 f1 w2] by simp
  next
    case ok: True
    let ?b = "f1\<lparr>fr_bridge_active := True\<rparr>" and ?w2 = "collect env f1 w2"
    have q3: "tallies f w ?b ?w2"
      using tallies_world [of f w ?b w2 ?w2] tallies_trans [of f w f1 w1 ?b w2] q1 q2 ok
      by (simp add: collect_def)
    obtain sc w3 where s: "enter_scope env f1 ?w2 = (sc, w3)" by fastforce
    then have s': "enter_scope env ?b ?w2 = (sc, w3)" by (simp add: scope_ignores_flags)
    have q4: "tallies ?b ?w2 (if sc = DP_OK then ?b\<lparr>fr_scope_entered := True\<rparr> else ?b) w3"
      by (rule tallies_enter_scope [OF s']) (use out1 in \<open>simp add: outside_def\<close>)
    show ?thesis
    proof (cases "sc = DP_OK")
      case False
      obtain bk w4 where b: "to_generated env f1 w3 = (bk, w4)" by fastforce
      then have b': "to_generated env ?b w3 = (bk, w4)" by (simp add: scope_ignores_flags)
      have res: "bk = DP_OK" "\<not> ok" "g = f1" "v = w4"
        using run pre some n \<open>st = DP_OK\<close> s False b by (auto simp: EnterGeneratedVmBridge_def split: if_splits)
      have "tallies ?b w3 (?b\<lparr>fr_bridge_active := False\<rparr>) w4"
        using tallies_to_generated [OF b'] res(1) by simp
      then have "tallies f w (?b\<lparr>fr_bridge_active := False\<rparr>) w4"
        using tallies_trans [OF tallies_trans [OF q3]] q4 False by simp
      then have "tallies f w f1 w4"
        by (rule tallies_debts) (use out1 in \<open>simp add: same_debts_def outside_def\<close>)
      then show ?thesis using res q1 out1 by simp
    next
      case sok: True
      let ?s = "f1\<lparr>fr_scope_entered := True, fr_bridge_active := True\<rparr>"
      have q5: "tallies f w ?s w3" using tallies_trans [OF q3] q4 sok by (simp add: flags_commute)
      obtain sy f2 w4 where y: "SyncGeneratedRootsToContext env r p ?s w3 = (sy, f2, w4)"
        using prod_cases3 by blast
      note q6 = tallies_sync [OF y]
      have q7: "tallies f w f2 w4" using tallies_trans [OF q5] q6 by blast
      have f2: "in_bridge f2" "fr_roots f2 = fr_roots f" "fr_lease f2 = fr_lease f"
        using q6 q1 some out1 by (auto simp: in_bridge_def same_debts_def)
      show ?thesis
      proof (cases sy)
        case True
        then have "g = f2" "v = w4" ok
          using run pre some n \<open>st = DP_OK\<close> s sok y by (auto simp: EnterGeneratedVmBridge_def)
        then show ?thesis using q7 f2 by simp
      next
        case False
        obtain lf w5 where l: "leave_scope env f2 w4 = (lf, w5)" by fastforce
        obtain bk w6 where b: "to_generated env f2 w5 = (bk, w6)" by fastforce
        have res: "lf = DP_OK" "bk = DP_OK" "\<not> ok" "v = w6"
          "g = f2\<lparr>fr_scope_entered := False, fr_bridge_active := False\<rparr>"
          using run pre some n \<open>st = DP_OK\<close> s sok y False l b
          by (auto simp: EnterGeneratedVmBridge_def split: if_splits)
        have q8: "tallies f2 w4 (f2\<lparr>fr_scope_entered := False\<rparr>) w5"
          using tallies_leave_scope [OF l] f2(1) res(1) by (simp add: in_bridge_def)
        have b': "to_generated env (f2\<lparr>fr_scope_entered := False\<rparr>) w5 = (bk, w6)"
          using b by (simp add: scope_ignores_flags)
        have "tallies (f2\<lparr>fr_scope_entered := False\<rparr>) w5 g w6"
          using tallies_to_generated [OF b'] f2(1) res by (simp add: in_bridge_def)
        then have "tallies f w g w6" using tallies_trans [OF tallies_trans [OF q7 q8]] by blast
        then show ?thesis using res f2 by (simp add: outside_def)
      qed
    qed
  qed
qed

lemma tallies_leave_bridge:
  assumes run: "LeaveGeneratedVmBridge env r repin f w = Some (ok, g, v)" and inb: "in_bridge f"
  shows "ok \<and> tallies f w g v \<and> outside g \<and> fr_roots g = fr_roots f \<and> (\<not> repin \<longrightarrow> fr_lease g = 0)"
proof -
  obtain lf w1 where l: "leave_scope env f w = (lf, w1)" by fastforce
  let ?s = "f\<lparr>fr_scope_entered := False\<rparr>" and ?o = "f\<lparr>fr_scope_entered := False, fr_bridge_active := False\<rparr>"
  obtain bk w2 where b: "to_generated env ?o w1 = (bk, w2)" by fastforce
  have b': "to_generated env ?s w1 = (bk, w2)"
    using b scope_ignores_flags(3) [of env False ?s] by simp
  obtain f1 w3 f2 w4 where ok1: "lf = DP_OK" "bk = DP_OK" and u: "unpin env ?o w2 = Some (f1, w3)"
    and c: "restore_context r f1 w3 = Some (f2, w4)" and p: "repin_inputs env repin f2 w4 = Some (ok, g, v)"
    using run inb l b
    by (auto simp: LeaveGeneratedVmBridge_def in_bridge_def bind_eq_Some_conv split: if_splits)
  have q1: "tallies f w ?s w1" using tallies_leave_scope [OF l] inb ok1 by (simp add: in_bridge_def)
  have q2: "tallies ?s w1 ?o w2" using tallies_to_generated [OF b'] inb ok1 by (simp add: in_bridge_def)
  have q3: "tallies ?o w2 f1 w3" and f1: "fr_lease f1 = 0" "outside f1" "fr_roots f1 = fr_roots f"
    using tallies_unpin [OF u] inb by (simp_all add: in_bridge_def outside_def)
  have q4: "tallies f1 w3 f2 w4" and f2: "fr_lease f2 = 0" "outside f2" "fr_roots f2 = fr_roots f"
    using tallies_restore [OF c] f1 by (simp_all add: same_debts_def outside_def)
  have q: "tallies f w f2 w4"
    using tallies_trans [OF tallies_trans [OF tallies_trans [OF q1 q2] q3] q4] .
  show ?thesis
  proof (cases repin)
    case False
    then show ?thesis using p q f2 by (simp add: repin_inputs_def)
  next
    case True
    obtain ok' f' w' where pin: "PinGeneratedRoots env False False f2 w4 = (ok', f', w')"
      using prod_cases3 by blast
    have "ok' \<and> ok \<and> g = f' \<and> v = w'" using p True pin by (auto simp: repin_inputs_def split: if_splits)
    then show ?thesis using tallies_pin [OF pin] tallies_trans [OF q] f2 True by (auto simp: outside_def)
  qed
qed

lemma tallies_drop:
  assumes run: "DropPersistentGeneratedRoots env r restore f w = Some (ok, g, v)"
  shows "tallies f w g v \<and> fr_roots g = fr_roots f \<and> fr_scope_entered g = fr_scope_entered f \<and>
    fr_bridge_active g = fr_bridge_active f \<and> fr_adapter g = fr_adapter f \<and>
    (outside f \<longrightarrow> ok) \<and> (ok \<longrightarrow> fr_lease g = 0 \<or> fr_adapter f = None)"
proof (cases "fr_lease f = 0 \<or> fr_adapter f = None \<or> fr_scope_entered f \<or> fr_bridge_active f")
  case True
  then show ?thesis using run by (auto simp: DropPersistentGeneratedRoots_def outside_def split: if_splits)
next
  case False
  then obtain f1 w1 where u: "unpin env f w = Some (f1, w1)"
    and rest: "(if \<not> restore then Some (True, f1, w1)
       else map_option (\<lambda>(f2, w2). (True, f2, w2)) (restore_context r f1 w1)) = Some (ok, g, v)"
    using run by (auto simp: DropPersistentGeneratedRoots_def bind_eq_Some_conv)
  have lease: "fr_lease f \<noteq> 0" using False by simp
  note q = tallies_unpin [OF u lease]
  have ad: "fr_adapter f1 = fr_adapter f" using q by (simp add: tallies_def same_call_def)
  show ?thesis
  proof (cases restore)
    case False
    then show ?thesis using rest q ad by simp
  next
    case True
    then have c: "restore_context r f1 w1 = Some (g, v)" and ok: ok using rest by auto
    show ?thesis using tallies_restore [OF c] q ok ad tallies_trans [of f w f1 w1 g v] by (auto simp: same_debts_def)
  qed
qed

end
