(* ===== verification/Callback_Account.thy ===== *)
theory Callback_Account
  imports Callback_Balance
begin

text \<open>
  The books of a thread: what its frames owe, added to what the rest of the process has open, is
  what the counters of hooks, listeners and adapters show.
\<close>

section \<open>Accounts\<close>

record account =
  ac_hook :: "nat \<Rightarrow> nat"
  ac_listener :: "nat \<Rightarrow> u64"
  ac_scope :: "nat \<Rightarrow> u32"
  ac_transition :: "nat \<Rightarrow> u32"
  ac_lease :: "nat \<Rightarrow> u64"
  ac_options :: "nat \<Rightarrow> hook_options"

definition calls_of :: "dispatch_frame list \<Rightarrow> nat \<Rightarrow> nat" where
  "calls_of fs i = (\<Sum>f\<leftarrow>fs. of_bool (fr_hook f = Some i))"

definition entries_of :: "dispatch_frame list \<Rightarrow> nat \<Rightarrow> u64" where
  "entries_of fs l = (\<Sum>f\<leftarrow>fs. of_nat (count_list (fr_entered f) l))"

definition balanced :: "account \<Rightarrow> dispatch_frame list \<Rightarrow> dispatch_world \<Rightarrow> bool" where
  "balanced acc fs w \<longleftrightarrow>
     (\<forall>i. unat (hk_in_flight (hr_hook (dw_registry w) i)) = ac_hook acc i + calls_of fs i) \<and>
     (\<forall>l. lr_in_flight (hr_listener (dw_registry w) l) = ac_listener acc l + entries_of fs l) \<and>
     (\<forall>a. va_entered (adapter_of_world w a) = ac_scope acc a + (\<Sum>f\<leftarrow>fs. of_bool (owes_scope f a))) \<and>
     (\<forall>a. va_transitions (adapter_of_world w a) =
            ac_transition acc a + (\<Sum>f\<leftarrow>fs. of_bool (owes_transition f a))) \<and>
     (\<forall>a. va_root_leases (adapter_of_world w a) = ac_lease acc a + (\<Sum>f\<leftarrow>fs. of_bool (owes_lease f a))) \<and>
     options_of w = ac_options acc"

definition kept :: "dispatch_world \<Rightarrow> dispatch_world \<Rightarrow> bool" where
  "kept w w' \<longleftrightarrow>
     (\<forall>i. hk_in_flight (hr_hook (dw_registry w') i) = hk_in_flight (hr_hook (dw_registry w) i)) \<and>
     (\<forall>l. lr_in_flight (hr_listener (dw_registry w') l) = lr_in_flight (hr_listener (dw_registry w) l)) \<and>
     (\<forall>a. counters (adapter_of_world w' a) = counters (adapter_of_world w a)) \<and>
     options_of w' = options_of w"

text \<open>A user's callback closes what it opens and leaves the options of listeners alone.\<close>

definition callbacks_balanced :: "dispatch_env \<Rightarrow> bool" where
  "callbacks_balanced env \<longleftrightarrow> (\<forall>kind l f w. kept w (cr_world (ev_call env kind l f w)))"

lemma kept_refl [simp]: "kept w w"
  by (simp add: kept_def)

lemma kept_trans: "kept u v \<Longrightarrow> kept v w \<Longrightarrow> kept u w"
  by (simp add: kept_def)

lemma balanced_kept: "balanced acc fs w \<Longrightarrow> kept w v \<Longrightarrow> balanced acc fs v"
  by (simp add: balanced_def kept_def counters_def)

lemma move_sum:
  fixes x :: "'a::comm_ring_1"
  assumes "x' + b = x + b'" "x = c + (b + r)"
  shows "x' = c + (b' + r)"
proof -
  have "x' = x + b' - b" using assms(1) by (simp add: eq_diff_eq)
  then show ?thesis using assms(2) by simp
qed

lemma balanced_quiet:
  assumes bal: "balanced acc (f # fs) w" and q: "tallies f w g v"
  shows "balanced acc (g # fs) v"
proof -
  have same: "fr_entered g = fr_entered f" "fr_hook g = fr_hook f"
    and world: "hr_hook (dw_registry v) = hr_hook (dw_registry w)"
      "hr_listener (dw_registry v) = hr_listener (dw_registry w)"
    using q by (simp_all add: tallies_def same_call_def steady_def)
  have sh: "shifted f w g v" using q by (simp add: tallies_def)
  have 1: "va_entered (adapter_of_world v a) = ac_scope acc a + (\<Sum>h\<leftarrow>g # fs. of_bool (owes_scope h a))"
    and 2: "va_transitions (adapter_of_world v a) =
      ac_transition acc a + (\<Sum>h\<leftarrow>g # fs. of_bool (owes_transition h a))"
    and 3: "va_root_leases (adapter_of_world v a) = ac_lease acc a + (\<Sum>h\<leftarrow>g # fs. of_bool (owes_lease h a))"
    for a
    using sh [unfolded shifted_def, rule_format, of a] bal unfolding balanced_def list.map sum_list.Cons
    by (blast intro: move_sum)+
  have opts: "options_of v = options_of w" by (rule ext) (simp add: options_of_def world)
  show ?thesis
    unfolding balanced_def using 1 2 3 bal
    by (auto simp: balanced_def world same calls_of_def entries_of_def opts)
qed

definition owes_nothing :: "dispatch_frame \<Rightarrow> bool" where
  "owes_nothing f \<longleftrightarrow> \<not> fr_scope_entered f \<and> \<not> fr_bridge_active f \<and> (fr_lease f = 0 \<or> fr_adapter f = None)"

lemma owes_nothingD:
  "owes_nothing f \<Longrightarrow> \<not> owes_scope f a \<and> \<not> owes_transition f a \<and> \<not> owes_lease f a"
  by (auto simp: owes_nothing_def owes_scope_def owes_transition_def owes_lease_def)

lemma balanced_swap:
  assumes bal: "balanced acc (f # fs) w" and "owes_nothing f" "owes_nothing g"
    and "fr_entered g = fr_entered f" "fr_hook g = fr_hook f"
  shows "balanced acc (g # fs) w"
  using assms owes_nothingD [OF assms(2)] owes_nothingD [OF assms(3)]
  by (simp add: balanced_def calls_of_def entries_of_def)

section \<open>Leaving listeners and the hook\<close>

lemma counters_release_hook [simp]: "counters (VmAdapterReleaseHook a) = counters a"
  by (simp add: VmAdapterReleaseHook_def counters_def)

lemma exit_one:
  "hr_hook (exit_listener l s) = hr_hook s"
  "lr_in_flight (hr_listener (exit_listener l s) k) =
     (if k = l then lr_in_flight (hr_listener s k) - 1 else lr_in_flight (hr_listener s k))"
  "lr_options (hr_listener (exit_listener l s) k) = lr_options (hr_listener s k)"
  "counters (hr_adapter (exit_listener l s) a) = counters (hr_adapter s a)"
  by (simp_all add: exit_listener_def ReleaseListenerVmAdapterIfIdle_def Let_def set_listener_def
      set_adapter_def split: option.splits)

lemma exit_fold:
  "hr_hook (fold exit_listener ls s) = hr_hook s"
  "lr_in_flight (hr_listener (fold exit_listener ls s) k) =
     lr_in_flight (hr_listener s k) - of_nat (count_list ls k)"
  "lr_options (hr_listener (fold exit_listener ls s) k) = lr_options (hr_listener s k)"
  "counters (hr_adapter (fold exit_listener ls s) a) = counters (hr_adapter s a)"
  by (induction ls arbitrary: s) (auto simp: exit_one)

lemma add_both:
  fixes a b :: "'a::comm_ring_1"
  shows "a + c = b + d \<Longrightarrow> a + (1 + c) = b + (1 + d)" and "a + c = b - 1 + d \<Longrightarrow> a + (1 + c) = b + d"
  by (simp_all add: add.left_commute [of a])

lemma keep_listeners_flight:
  "keep_listeners P ls s = (kept_ls, s') \<Longrightarrow>
   lr_in_flight (hr_listener s' k) + of_nat (count_list ls k) =
     lr_in_flight (hr_listener s k) + of_nat (count_list kept_ls k)"
proof (induction ls arbitrary: s kept_ls)
  case (Cons l ls)
  show ?case
  proof (cases "P s l")
    case True
    then obtain ks where r: "keep_listeners P ls s = (ks, s')" and ks: "kept_ls = l # ks"
      using Cons.prems by (auto split: prod.splits)
    show ?thesis using Cons.IH [OF r] add_both(1) [OF Cons.IH [OF r]] by (simp add: ks)
  next
    case False
    then have r: "keep_listeners P ls (exit_listener l s) = (kept_ls, s')" using Cons.prems by simp
    note e = Cons.IH [OF r]
    show ?thesis
    proof (cases "k = l")
      case True
      then show ?thesis using add_both(2) e by (simp add: exit_one(2))
    next
      case False
      then show ?thesis using e by (simp add: exit_one(2))
    qed
  qed
qed simp

lemma keep_listeners_frame:
  "keep_listeners P ls s = (kept_ls, s') \<Longrightarrow>
   hr_hook s' = hr_hook s \<and> (\<forall>k. lr_options (hr_listener s' k) = lr_options (hr_listener s k)) \<and>
   (\<forall>a. counters (hr_adapter s' a) = counters (hr_adapter s a))"
proof (induction ls arbitrary: s kept_ls)
  case (Cons l ls)
  show ?case
  proof (cases "P s l")
    case True
    then obtain ks where "keep_listeners P ls s = (ks, s')"
      using Cons.prems by (auto split: prod.splits)
    then show ?thesis by (rule Cons.IH)
  next
    case False
    then have "keep_listeners P ls (exit_listener l s) = (kept_ls, s')" using Cons.prems by simp
    then show ?thesis using Cons.IH by (auto simp: exit_one)
  qed
qed simp

text \<open>What unhooking changes is not counted.\<close>

definition hushed :: "registry \<Rightarrow> registry \<Rightarrow> bool" where
  "hushed s s' \<longleftrightarrow> (\<forall>j. hk_in_flight (hr_hook s' j) = hk_in_flight (hr_hook s j)) \<and>
     hr_listener s' = hr_listener s \<and> (\<forall>a. counters (hr_adapter s' a) = counters (hr_adapter s a))"

lemma hushed_intros:
  "hushed s s"
  "hushed s t \<Longrightarrow> hk_in_flight h = hk_in_flight (hr_hook t i) \<Longrightarrow> hushed s (set_hook i h t)"
  "hushed s t \<Longrightarrow> counters v = counters (hr_adapter t a) \<Longrightarrow> hushed s (set_adapter a v t)"
  by (simp_all add: hushed_def set_hook_def set_adapter_def)

lemma hushed_steps:
  assumes t: "hushed s t"
  shows "hushed s (fail_hook i t)" "hushed s (unbind_target i t)"
    "hushed s (ReleaseArm64ExceptionBridgeConsumer i t)"
proof -
  show "hushed s (fail_hook i t)" unfolding fail_hook_def by (rule hushed_intros(2) [OF t]) simp
  show "hushed s (unbind_target i t)"
    using t by (simp add: unbind_target_def hushed_def split: option.split)
  have "hushed s (set_hook i ((hr_hook t i)\<lparr>hk_bridge_consumer := False\<rparr>) t)"
    by (rule hushed_intros(2) [OF t]) simp
  then show "hushed s (ReleaseArm64ExceptionBridgeConsumer i t)"
    using t by (simp add: ReleaseArm64ExceptionBridgeConsumer_def Let_def hushed_def)
qed

lemma finish_hushed:
  assumes run: "FinishUnhookLocked restore i s = (st, s')"
  shows "hushed s s'"
proof -
  obtain r s1 where b: "remove_backend i s = (r, s1)" by fastforce
  obtain p q t where "s1 = set_hook i ((hr_hook s i)\<lparr>hk_published := p, hk_backend_installed := q,
     hk_state := t\<rparr>) s" using remove_backend_shape [OF b] by blast
  then have h1: "hushed s s1" by (simp add: hushed_intros(2) [OF hushed_intros(1)])
  define s2 where "s2 = set_hook i ((hr_hook s1 i)\<lparr>hk_active := False\<rparr>) s1"
  have h2: "hushed s s2" unfolding s2_def by (rule hushed_intros(2) [OF h1]) simp
  define s4 where "s4 = unbind_target i (ReleaseArm64ExceptionBridgeConsumer i
                       (set_hook i ((hr_hook s2 i)\<lparr>hk_entry_ready := False\<rparr>) s2))"
  have h4: "hushed s s4" unfolding s4_def by (intro hushed_steps hushed_intros(2) [OF h2]) simp
  define s5 where "s5 = set_hook i ((hr_hook s4 i)\<lparr>hk_state := RUnhooked,
      hk_adapter := (if hk_adapter_retained (hr_hook s4 i) then None else hk_adapter (hr_hook s4 i)),
      hk_adapter_retained := False\<rparr>) s4"
  have h5: "hushed s s5" unfolding s5_def by (rule hushed_intros(2) [OF h4]) simp
  have h6: "hushed s (set_adapter a (VmAdapterReleaseHook (hr_adapter s5 a)) s5)" for a
    by (rule hushed_intros(3) [OF h5]) simp
  have "s' = s1 \<or> s' = fail_hook i s2 \<or> s' = s5 \<or>
      (\<exists>a. s' = set_adapter a (VmAdapterReleaseHook (hr_adapter s5 a)) s5)"
  proof (cases r)
    case (Some st')
    then show ?thesis using run b by (simp add: FinishUnhookLocked_def)
  next
    case None
    then have "(st, s') = (if \<not> restore i then (DP_UNHOOK_FAILED, fail_hook i s2)
        else (DP_OK, case (hk_adapter_retained (hr_hook s4 i), hk_adapter (hr_hook s4 i)) of
               (True, Some a) \<Rightarrow> set_adapter a (VmAdapterReleaseHook (hr_adapter s5 a)) s5
             | _ \<Rightarrow> s5))"
      using run unfolding FinishUnhookLocked_def b Let_def s5_def s4_def s2_def None by simp
    then show ?thesis by (auto split: if_splits option.splits bool.splits)
  qed
  then show ?thesis using h1 hushed_steps(1) [OF h2] h5 h6 by blast
qed

lemma exited_keeps:
  fixes restore :: "nat \<Rightarrow> bool"
  assumes flying: "hk_in_flight (hr_hook s i) \<noteq> 0"
  defines "s' \<equiv> InvocationExited restore i s"
  shows "hk_in_flight (hr_hook s' j) = (if j = i then hk_in_flight (hr_hook s i) - 1 else hk_in_flight (hr_hook s j))"
    and "hr_listener s' = hr_listener s"
    and "counters (hr_adapter s' a) = counters (hr_adapter s a)"
proof -
  let ?s = "set_hook i ((hr_hook s i)\<lparr>hk_in_flight := hk_in_flight (hr_hook s i) - 1\<rparr>) s"
  obtain st s1 where f: "FinishUnhookLocked restore i ?s = (st, s1)" by fastforce
  have s': "s' = (if hk_in_flight (hr_hook s i) - 1 = 0 \<and> hk_state (hr_hook s i) = RUnhooking then s1 else ?s)"
    using flying by (simp only: s'_def InvocationExited_def Let_def f snd_conv if_True simp_thms)
  show "hk_in_flight (hr_hook s' j) = (if j = i then hk_in_flight (hr_hook s i) - 1 else hk_in_flight (hr_hook s j))"
    using finish_hushed [OF f] by (simp add: s' set_hook_def hushed_def)
  show "hr_listener s' = hr_listener s" using finish_hushed [OF f] by (simp add: s' set_hook_def hushed_def)
  show "counters (hr_adapter s' a) = counters (hr_adapter s a)"
    using finish_hushed [OF f] by (simp add: s' set_hook_def hushed_def)
qed

text \<open>A frame that owes nothing to its adapter pays the rest when its snapshot is released.\<close>

lemma balanced_clear:
  assumes bal: "balanced acc (f # fs) w" and run: "ClearEnteredListeners f w = (g, v)"
  shows "balanced acc (g # fs) v \<and> fr_entered g = [] \<and> fr_hook g = fr_hook f \<and> dw_calls v = dw_calls w \<and>
    (owes_nothing f \<longrightarrow> owes_nothing g)"
proof -
  let ?s = "fold exit_listener (fr_entered f) (dw_registry w)"
  have g: "g = f\<lparr>fr_entered := []\<rparr>" and v: "v = set_registry ?s w"
    using run by (simp_all add: ClearEnteredListeners_def)
  have opts: "options_of v = options_of w"
    by (rule ext) (simp add: options_of_def v set_registry_def exit_fold)
  have c: "counters (adapter_of_world v a) = counters (adapter_of_world w a)" for a
    by (simp add: adapter_of_world_def v set_registry_def exit_fold)
  have debts: "owes_scope g a = owes_scope f a" "owes_transition g a = owes_transition f a"
    "owes_lease g a = owes_lease f a" for a
    by (simp_all add: g owes_scope_def owes_transition_def owes_lease_def)
  have "balanced acc (g # fs) v"
    using bal c unfolding balanced_def opts counters_def
    by (simp add: debts) (simp add: v set_registry_def exit_fold g calls_of_def entries_of_def)
  then show ?thesis by (simp add: g v set_registry_def owes_nothing_def)
qed

lemma balanced_exit_hook:
  assumes bal: "balanced acc (f # fs) w" and none: "owes_nothing f" "fr_entered f = []"
  shows "balanced acc fs (exit_hook env (fr_hook f) w) \<and> dw_calls (exit_hook env (fr_hook f) w) = dw_calls w"
proof (cases "fr_hook f")
  case None
  then show ?thesis
    using bal none(2) owes_nothingD [OF none(1)]
    by (simp add: exit_hook_def balanced_def calls_of_def entries_of_def)
next
  case (Some i)
  let ?s = "dw_registry w" and ?v = "exit_hook env (fr_hook f) w"
  have n: "unat (hk_in_flight (hr_hook ?s j)) = ac_hook acc j + of_bool (i = j) + calls_of fs j" for j
    using bal Some by (simp add: balanced_def calls_of_def)
  have nz: "hk_in_flight (hr_hook ?s i) \<noteq> 0"
  proof
    assume "hk_in_flight (hr_hook ?s i) = 0"
    then show False using n [of i] by simp
  qed
  note ex = exited_keeps [OF nz, of "ev_restore env"]
  have v: "?v = set_registry (InvocationExited (ev_restore env) i ?s) w" by (simp add: exit_hook_def Some)
  have hooks: "unat (hk_in_flight (hr_hook (dw_registry ?v) j)) = ac_hook acc j + calls_of fs j" for j
    using n [of j] n [of i] nz by (cases "j = i") (simp_all add: v set_registry_def ex(1) unat_minus_one)
  have opts: "options_of ?v = options_of w"
    by (rule ext) (simp add: options_of_def v set_registry_def ex(2))
  have c: "counters (adapter_of_world ?v a) = counters (adapter_of_world w a)" for a
    by (simp add: adapter_of_world_def v set_registry_def ex(3))
  have l: "lr_in_flight (hr_listener (dw_registry ?v) k) = lr_in_flight (hr_listener ?s k)" for k
    by (simp add: v set_registry_def ex(2))
  have "balanced acc fs ?v"
    using bal c owes_nothingD [OF none(1)] none(2) hooks
    unfolding balanced_def opts counters_def l by (simp add: entries_of_def)
  then show ?thesis by (simp add: v set_registry_def)
qed

lemma balanced_release:
  assumes bal: "balanced acc (f # fs) w" and none: "owes_nothing f"
    and run: "ReleaseSnapshot env f w = (g, v)"
  shows "balanced acc fs v \<and> dw_calls v = dw_calls w"
proof -
  obtain f1 w1 where c: "ClearEnteredListeners f w = (f1, w1)" by fastforce
  have v: "v = exit_hook env (fr_hook f1) w1"
    using run c by (auto simp: ReleaseSnapshot_def ClearEnteredListeners_def)
  note b = balanced_clear [OF bal c]
  show ?thesis
    using balanced_exit_hook [of acc f1 fs w1 env] b none v by simp
qed

section \<open>Callbacks\<close>

definition at_rest :: "dispatch_frame \<Rightarrow> bool" where
  "at_rest f \<longleftrightarrow> \<not> fr_bridge_active f \<and> (fr_roots f \<noteq> [] \<longrightarrow> \<not> fr_scope_entered f)"

lemma select_debts:
  "same_debts f (SelectListenerIdentity s l f) \<and> fr_roots (SelectListenerIdentity s l f) = fr_roots f"
  by (simp add: SelectListenerIdentity_def RefreshIdentityState_def Let_def same_debts_def)

lemma invoke_callback:
  assumes cb: "callbacks_balanced env" and run: "InvokeCallback env k present l f w = (g, v)"
  shows "kept w v \<and> same_debts f g \<and> fr_roots g = fr_roots f \<and>
    dw_calls v = (if present then (k, l) # dw_calls w else dw_calls w)"
proof (cases present)
  case True
  let ?r = "ev_call env k l f w"
  have v: "v = (cr_world ?r)\<lparr>dw_calls := (k, l) # dw_calls w\<rparr>"
    and g: "same_debts f g" "fr_roots g = fr_roots f"
    using run True by (auto simp: InvokeCallback_def Let_def same_debts_def split: if_splits)
  have "kept w (cr_world ?r)" using cb by (simp add: callbacks_balanced_def)
  then have "kept w v" by (simp add: v kept_def options_of_def adapter_of_world_def fun_eq_iff)
  then show ?thesis using g True by (simp add: v)
next
  case False
  then show ?thesis using run by (simp add: InvokeCallback_def)
qed

lemma kept_options: "kept w v \<Longrightarrow> options_of v = options_of w"
  by (simp add: kept_def)

lemma enter_callbacks_log:
  assumes cb: "callbacks_balanced env"
  shows "enter_callbacks env opt_in ls f w = (n, g, v) \<Longrightarrow>
    kept w v \<and> same_debts f g \<and> fr_roots g = fr_roots f \<and>
    dw_calls v = rev (map (Pair OnEnter) (filter (\<lambda>l. ho_on_enter (options_of w l)) (take n ls))) @ dw_calls w"
proof (induction ls arbitrary: f w n g v)
  case (Cons l ls)
  let ?f = "SelectListenerIdentity (dw_registry w) l f"
  obtain f2 w2 where i: "InvokeCallback env OnEnter (ho_on_enter (options_of w l)) l ?f w = (f2, w2)" by fastforce
  note s = select_debts [of f "dw_registry w" l] and q = invoke_callback [OF cb i]
  obtain m f3 w3 where r: "enter_callbacks env opt_in ls f2 w2 = (m, f3, w3)" using prod_cases3 by blast
  have "(n, g, v) = (0, ?f, w) \<or> (n, g, v) = (1, f2, w2) \<or> (n, g, v) = (m + 1, f3, w3)"
    using Cons.prems i r by (auto simp: Let_def split: if_splits)
  moreover have ?case if "(n, g, v) = (0, ?f, w)" using that s by simp
  moreover have ?case if "(n, g, v) = (1, f2, w2)" using that s q same_debts_trans by auto
  moreover have ?case if "(n, g, v) = (m + 1, f3, w3)"
    using that s q Cons.IH [OF r] kept_trans [of w w2 w3] kept_options [of w w2]
      same_debts_trans [of f ?f f2] same_debts_trans [of f f2 f3] by simp
  ultimately show ?case by blast
qed simp

lemma leave_callbacks_log:
  assumes cb: "callbacks_balanced env"
  shows "leave_callbacks env ls f w = (g, v) \<Longrightarrow>
    kept w v \<and> same_debts f g \<and> fr_roots g = fr_roots f \<and>
    dw_calls v = rev (map (Pair OnLeave) (filter (\<lambda>l. ho_on_leave (options_of w l)) ls)) @ dw_calls w"
proof (induction ls arbitrary: f w)
  case (Cons l ls)
  let ?f = "SelectListenerIdentity (dw_registry w) l f"
  obtain f2 w2 where i: "InvokeCallback env OnLeave (ho_on_leave (options_of w l)) l ?f w = (f2, w2)" by fastforce
  note s = select_debts [of f "dw_registry w" l] and q = invoke_callback [OF cb i]
  have r: "leave_callbacks env ls f2 w2 = (g, v)" using Cons.prems i by simp
  show ?case
    using s q Cons.IH [OF r] kept_trans [of w w2 v] kept_options [of w w2]
      same_debts_trans [of f ?f f2] same_debts_trans [of f f2 g] by simp
qed simp

lemma exception_callbacks_log:
  assumes cb: "callbacks_balanced env"
  shows "exception_callbacks env ls f w = (g, v) \<Longrightarrow>
    kept w v \<and> same_debts f g \<and> fr_roots g = fr_roots f"
proof (induction ls arbitrary: f w)
  case (Cons l ls)
  let ?f = "SelectListenerIdentity (dw_registry w) l f"
  show ?case
  proof (cases "lr_on_exception (hr_listener (dw_registry w) l) \<and> lr_active (hr_listener (dw_registry w) l)")
    case True
    obtain f2 w2 where i: "InvokeCallback env OnException True l ?f w = (f2, w2)" by fastforce
    have r: "exception_callbacks env ls f2 w2 = (g, v)" using Cons.prems i True by (simp add: Let_def)
    show ?thesis
      using select_debts [of f "dw_registry w" l] invoke_callback [OF cb i] Cons.IH [OF r]
        kept_trans [of w w2 v] same_debts_trans [of f ?f f2] same_debts_trans [of f f2 g] by simp
  next
    case False
    then have "exception_callbacks env ls f w = (g, v)"
      using Cons.prems by (simp only: exception_callbacks.simps Let_def if_False)
    then show ?thesis by (rule Cons.IH)
  qed
qed simp

lemma balanced_debts:
  "balanced acc (f # fs) w \<Longrightarrow> kept w v \<Longrightarrow> same_debts f g \<Longrightarrow> balanced acc (g # fs) v"
  using balanced_kept balanced_quiet [OF _ debts_quiet] by blast

end
