(* ===== verification/Callback_Dispatch_Props.thy ===== *)
theory Callback_Dispatch_Props
  imports Callback_Account
begin

text \<open>
  What the dispatcher promises: its books balance after any sequence of calls, returns and
  unwindings, the stack is bounded, listeners are left in the reverse of the order in which they
  were entered, unwinding ends and takes away exactly the frames it passes, and objects the
  collector moved during a callback are back in their registers when the call goes on.
\<close>

section \<open>Finishing and abandoning\<close>

definition enter_log :: "(nat \<Rightarrow> hook_options) \<Rightarrow> nat list \<Rightarrow> (callback_kind \<times> nat) list" where
  "enter_log opts ls = rev (map (Pair OnEnter) (filter (\<lambda>l. ho_on_enter (opts l)) ls))"

definition leave_log :: "(nat \<Rightarrow> hook_options) \<Rightarrow> nat list \<Rightarrow> (callback_kind \<times> nat) list" where
  "leave_log opts ls = map (Pair OnLeave) (filter (\<lambda>l. ho_on_leave (opts l)) ls)"

lemma logs_nil [simp]: "enter_log opts [] = []" "leave_log opts [] = []"
  by (simp_all add: enter_log_def leave_log_def)

lemma tallies_parts:
  "tallies f w g v \<Longrightarrow> fr_entered g = fr_entered f \<and> fr_hook g = fr_hook f \<and> fr_adapter g = fr_adapter f \<and>
     dw_calls v = dw_calls w"
  by (simp add: tallies_def same_call_def steady_def)

lemma balanced_options: "balanced acc fs w \<Longrightarrow> options_of w = ac_options acc"
  by (simp add: balanced_def)

lemma debts_bridge:
  "same_debts f g \<Longrightarrow> in_bridge g = in_bridge f \<and> outside g = outside f \<and> owes_nothing g = owes_nothing f"
  by (simp add: same_debts_def in_bridge_def outside_def owes_nothing_def)

lemma tallies_plain_scope:
  assumes "leave_plain_scope env f w = Some (g, v)"
  shows "tallies f w g v \<and> \<not> fr_scope_entered g \<and> fr_bridge_active g = fr_bridge_active f \<and>
    fr_lease g = fr_lease f \<and> fr_roots g = fr_roots f"
proof (cases "fr_scope_entered f")
  case True
  obtain st w1 where l: "leave_scope env f w = (st, w1)" by fastforce
  then have "st = DP_OK" "g = f\<lparr>fr_scope_entered := False\<rparr>" "v = w1"
    using assms True by (auto simp: leave_plain_scope_def split: if_splits)
  then show ?thesis using tallies_leave_scope [OF l True] by simp
next
  case False
  then show ?thesis using assms by (simp add: leave_plain_scope_def)
qed

lemma tallies_enter_leave:
  assumes run: "enter_leave_bridge env f w = Some (ok, g, v)" and out: "outside f"
  shows "tallies f w g v \<and> fr_roots g = fr_roots f \<and> (if ok then in_bridge g else outside g)"
proof -
  obtain d f1 w1 where d: "DropPersistentGeneratedRoots env False False f w = Some (d, f1, w1)"
    and rest: "(if \<not> d then Some (False, f1, w1)
       else (case PinGeneratedRoots env True True f1 w1 of
               (ok, f2, w2) \<Rightarrow> if \<not> ok then Some (False, f2, w2)
                 else EnterGeneratedVmBridge env True True f2 w2)) = Some (ok, g, v)"
    using run by (auto simp: enter_leave_bridge_def bind_eq_Some_conv)
  have q1: "tallies f w f1 w1" and out1: "outside f1" "fr_roots f1 = fr_roots f" and "d"
    using tallies_drop [OF d] out by (auto simp: outside_def)
  obtain k f2 w2 where p: "PinGeneratedRoots env True True f1 w1 = (k, f2, w2)" using prod_cases3 by blast
  have q2: "tallies f w f2 w2" and out2: "outside f2" "fr_roots f2 = fr_roots f"
    using tallies_pin [OF p] tallies_trans [OF q1] out1 by (auto simp: outside_def)
  show ?thesis
  proof (cases k)
    case True
    then have e: "EnterGeneratedVmBridge env True True f2 w2 = Some (ok, g, v)" using rest p \<open>d\<close> by simp
    show ?thesis using tallies_enter_bridge [OF e out2(1)] tallies_trans [OF q2] out2 by simp
  next
    case False
    then show ?thesis using rest p \<open>d\<close> q2 out2 by simp
  qed
qed

lemma tallies_begin_leave:
  assumes run: "begin_leave env gen f w = Some (ok, g, v)" and out: "gen \<Longrightarrow> outside f"
  shows "tallies f w g v \<and> fr_roots g = fr_roots f \<and>
    (if gen then (if ok then in_bridge g else outside g) else g = f)"
proof (cases gen)
  case True
  then obtain k f1 w1 where e: "enter_leave_bridge env f w = Some (k, f1, w1)"
    and rest: "(if k then Some (True, f1, w1) else map_option (\<lambda>(_, f2, w2). (False, f2, w2))
                    (DropPersistentGeneratedRoots env True True f1 w1)) = Some (ok, g, v)"
    using run by (auto simp: begin_leave_def bind_eq_Some_conv)
  note q = tallies_enter_leave [OF e out [OF True]]
  show ?thesis
  proof (cases k)
    case True
    then show ?thesis using rest q \<open>gen\<close> by simp
  next
    case False
    then obtain k' where d: "DropPersistentGeneratedRoots env True True f1 w1 = Some (k', g, v)" and "\<not> ok"
      using rest by auto
    show ?thesis
      using tallies_drop [OF d] q False \<open>gen\<close> \<open>\<not> ok\<close> tallies_trans [of f w f1 w1 g v] by (auto simp: outside_def)
  qed
next
  case False
  then show ?thesis using run by (simp add: begin_leave_def)
qed

text \<open>Both ways out of the bridge, and the last lease.\<close>

lemma tallies_close:
  assumes run: "(if gen \<and> fr_bridge_active f then L else leave_plain_scope env f w) = Some (g, v)"
    and leave: "\<And>g v. L = Some (g, v) \<Longrightarrow> \<exists>ok r. LeaveGeneratedVmBridge env r False f w = Some (ok, g, v)"
    and open_bridge: "fr_bridge_active f \<Longrightarrow> gen \<and> in_bridge f"
  shows "tallies f w g v \<and> outside g"
proof (cases "fr_bridge_active f")
  case True
  then obtain ok r where "LeaveGeneratedVmBridge env r False f w = Some (ok, g, v)"
    using run leave open_bridge by auto
  then show ?thesis using tallies_leave_bridge open_bridge [OF True] by blast
next
  case False
  then have "leave_plain_scope env f w = Some (g, v)" using run by simp
  then show ?thesis using tallies_plain_scope [of env f w g v] False by (simp add: outside_def)
qed

lemma tallies_drop_out:
  assumes "DropPersistentGeneratedRoots env r restore f w = Some (ok, g, v)" and "outside f"
  shows "tallies f w g v \<and> owes_nothing g \<and> ok \<and> fr_roots g = fr_roots f"
  using tallies_drop [OF assms(1)] assms(2) by (auto simp: owes_nothing_def outside_def)

lemma tallies_end_leave:
  assumes run: "end_leave env gen f w = Some (g, v)" and open_bridge: "fr_bridge_active f \<Longrightarrow> gen \<and> in_bridge f"
  shows "tallies f w g v \<and> owes_nothing g"
proof -
  obtain f1 w1 where c: "(if gen \<and> fr_bridge_active f then required (LeaveGeneratedVmBridge env True False f w)
        else leave_plain_scope env f w) = Some (f1, w1)"
    and d: "DropPersistentGeneratedRoots env True True f1 w1 = Some (True, g, v)"
    using run by (auto simp: end_leave_def bind_eq_Some_conv required_def split: if_splits)
  have q: "tallies f w f1 w1 \<and> outside f1"
    by (rule tallies_close [OF c _ open_bridge])
      (auto simp: required_def bind_eq_Some_conv split: if_splits)
  then show ?thesis using tallies_drop_out [OF d] tallies_trans [of f w f1 w1 g v] by blast
qed

lemma tallies_take_back:
  assumes run: "take_back env gen f w = Some (g, v)" and open_bridge: "fr_bridge_active f \<Longrightarrow> gen \<and> in_bridge f"
  shows "tallies f w g v \<and> owes_nothing g"
proof -
  obtain f1 w1 ok where c: "(if gen \<and> fr_bridge_active f
        then map_option snd (LeaveGeneratedVmBridge env False False f w)
        else leave_plain_scope env f w) = Some (f1, w1)"
    and d: "DropPersistentGeneratedRoots env False True f1 w1 = Some (ok, g, v)"
    using run by (auto simp: take_back_def bind_eq_Some_conv)
  have q: "tallies f w f1 w1 \<and> outside f1"
    by (rule tallies_close [OF c _ open_bridge]) auto
  then show ?thesis using tallies_drop_out [OF d] tallies_trans [of f w f1 w1 g v] by blast
qed

lemma finish_balanced:
  assumes cb: "callbacks_balanced env" and bal: "balanced acc (f # fs) w" and rest: "at_rest f"
    and run: "FinishFrame env r0 r1 fp f w = Some (g, v)"
  shows "balanced acc fs v \<and>
    (dw_calls v = dw_calls w \<or> dw_calls v = leave_log (ac_options acc) (fr_entered f) @ dw_calls w)"
proof -
  let ?f = "(CaptureReturnChannels r0 r1 fp f)\<lparr>fr_phase := PhaseLeave\<rparr>"
  let ?gen = "fr_adapter f \<noteq> None \<and> fr_roots f \<noteq> []"
  obtain en f1 w1 where b: "begin_leave env ?gen ?f w = Some (en, f1, w1)"
    and tail: "(case (if en then leave_callbacks env (rev (fr_entered f1)) f1 w1 else (f1, w1)) of
           (f2, w2) \<Rightarrow> map_option (\<lambda>(f3, w3). ReleaseSnapshot env f3 w3)
                           (end_leave env ?gen f2 w2)) = Some (g, v)"
    using run by (auto simp: FinishFrame_def Let_def bind_eq_Some_conv)
  have d0: "same_debts f ?f" "fr_roots ?f = fr_roots f" by (simp_all add: CaptureReturnChannels_def same_debts_def)
  have out: "outside ?f" if ?gen using rest that by (simp add: at_rest_def outside_def CaptureReturnChannels_def)
  note q1 = tallies_begin_leave [OF b out]
  have q: "tallies f w f1 w1" using tallies_trans [OF debts_quiet [OF d0(1)]] q1 by blast
  have bal1: "balanced acc (f1 # fs) w1" by (rule balanced_quiet [OF bal q])
  have open1: "?gen \<and> in_bridge f1" if "fr_bridge_active f1"
    using q1 that rest d0 by (auto simp: outside_def at_rest_def same_debts_def split: if_splits)
  obtain f2 w2 where c: "(if en then leave_callbacks env (rev (fr_entered f1)) f1 w1 else (f1, w1)) = (f2, w2)"
    by fastforce
  have c2: "kept w1 w2 \<and> same_debts f1 f2 \<and>
      (dw_calls w2 = dw_calls w1 \<or> dw_calls w2 = leave_log (options_of w1) (fr_entered f1) @ dw_calls w1)"
    using c leave_callbacks_log [OF cb, of "rev (fr_entered f1)" f1 w1 f2 w2]
    by (auto simp: leave_log_def rev_map rev_filter split: if_splits)
  have bal2: "balanced acc (f2 # fs) w2" using balanced_debts [OF bal1] c2 by blast
  obtain f3 w3 where e: "end_leave env ?gen f2 w2 = Some (f3, w3)" and r: "ReleaseSnapshot env f3 w3 = (g, v)"
    using tail c by auto
  have open2: "?gen \<and> in_bridge f2" if "fr_bridge_active f2"
    using open1 c2 debts_bridge [of f1 f2] that by (auto simp: same_debts_def)
  note q3 = tallies_end_leave [OF e open2]
  have "balanced acc fs v \<and> dw_calls v = dw_calls w3"
    by (rule balanced_release [OF _ _ r]) (use q3 balanced_quiet [OF bal2] in auto)
  then show ?thesis
    using c2 tallies_parts [OF q] tallies_parts [of f2 w2 f3 w3] q3 balanced_options [OF bal1] by auto
qed

lemma abandon_balanced:
  assumes bal: "balanced acc (f # fs) w" and rest: "at_rest f" and run: "AbandonFrame env f w = Some (g, v)"
  shows "balanced acc fs v \<and> dw_calls v = dw_calls w"
proof -
  obtain f1 w1 f2 w2 ok f3 w3 where 1: "leave_plain_scope env f w = Some (f1, w1)"
    and 2: "abandon_bridge env f1 w1 = Some (f2, w2)"
    and 3: "DropPersistentGeneratedRoots env False False f2 w2 = Some (ok, f3, w3)"
    and v: "v = snd (ReleaseSnapshot env f3 w3)"
    using run by (auto simp: AbandonFrame_def bind_eq_Some_conv)
  note q1 = tallies_plain_scope [OF 1]
  have same: "f2 = f1" "w2 = w1" and out: "outside f2"
    using 2 q1 rest by (auto simp: abandon_bridge_def at_rest_def outside_def)
  note q3 = tallies_drop_out [OF 3 out]
  have q: "tallies f w f3 w3" using tallies_trans [of f w f1 w1 f3 w3] q1 q3 same by simp
  obtain g' v' where r: "ReleaseSnapshot env f3 w3 = (g', v')" by fastforce
  show ?thesis
    using balanced_release [OF balanced_quiet [OF bal q] _ r] q3 tallies_parts [OF q] v r by simp
qed

section \<open>Entering\<close>

lemma admit_at:
  "admit_listeners pa ls s = (ad, s') \<Longrightarrow>
   hr_hook s' = hr_hook s \<and> hr_adapter s' = hr_adapter s \<and>
   (\<forall>k. lr_options (hr_listener s' k) = lr_options (hr_listener s k)) \<and>
   (\<forall>k. lr_in_flight (hr_listener s' k) = lr_in_flight (hr_listener s k) + of_nat (count_list ad k))"
proof (induction ls arbitrary: s ad)
  case (Cons l ls)
  show ?case
  proof (cases "listener_admitted pa s (hr_listener s l)")
    case True
    then obtain ad' where r: "admit_listeners pa ls (enter_listener l s) = (ad', s')" and ad: "ad = l # ad'"
      using Cons.prems by (auto split: prod.splits)
    show ?thesis using Cons.IH [OF r] by (auto simp: ad enter_listener_def set_listener_def)
  next
    case False
    then show ?thesis using Cons by simp
  qed
qed simp

lemma begin_at:
  assumes "BeginInvocation pa i s = (True, ls, s')"
  shows "hk_in_flight (hr_hook s' j) = hk_in_flight (hr_hook s j) + of_bool (j = i) \<and>
    hr_adapter s' = hr_adapter s \<and>
    (\<forall>k. lr_options (hr_listener s' k) = lr_options (hr_listener s k)) \<and>
    (\<forall>k. lr_in_flight (hr_listener s' k) = lr_in_flight (hr_listener s k) + of_nat (count_list ls k))"
proof -
  let ?s = "set_hook i ((hr_hook s i)\<lparr>hk_in_flight := hk_in_flight (hr_hook s i) + 1\<rparr>) s"
  have "ls = [] \<and> s' = ?s \<or> admit_listeners pa (hk_listeners (hr_hook s i)) ?s = (ls, s')"
    using assms by (auto simp: BeginInvocation_def Let_def split: if_splits)
  then show ?thesis by (auto simp: set_hook_def dest: admit_at)
qed

lemma unat_next:
  fixes x :: u64
  assumes "x \<noteq> UINT64_MAX"
  shows "unat (x + 1) = unat x + 1"
proof -
  have "unat x \<noteq> unat UINT64_MAX" using assms unsigned_word_eqI by blast
  then have "unat x < 2 ^ 64 - 1" using unsigned_less [of x, where ?'a = nat] by (simp add: UINT64_MAX_def)
  then show ?thesis by (simp add: unat_word_ariths)
qed

lemma balanced_begin:
  assumes bal: "balanced acc fs w" and room: "hk_in_flight (hr_hook (dw_registry w) i) \<noteq> UINT64_MAX"
    and run: "BeginInvocation pa i (dw_registry w) = (True, ls, s')"
    and f: "owes_nothing f" "fr_hook f = Some i" "fr_entered f = ls"
  shows "balanced acc (f # fs) (set_registry s' w)"
proof -
  note b = begin_at [OF run]
  have up: "unat (hk_in_flight (hr_hook (dw_registry w) i) + 1) = unat (hk_in_flight (hr_hook (dw_registry w) i)) + 1"
    using unat_next [OF room] .
  have 1: "unat (hk_in_flight (hr_hook s' j)) = ac_hook acc j + calls_of (f # fs) j" for j
    using bal b [of j] up f(2) by (cases "j = i") (simp_all add: balanced_def calls_of_def)
  have 2: "lr_in_flight (hr_listener s' l) = ac_listener acc l + entries_of (f # fs) l" for l
    using bal b f(3) by (simp add: balanced_def entries_of_def)
  have opts: "options_of (set_registry s' w) = options_of w"
    by (rule ext) (use b in \<open>simp add: options_of_def set_registry_def\<close>)
  have 3: "adapter_of_world (set_registry s' w) = adapter_of_world w"
    using b by (simp add: adapter_of_world_def set_registry_def)
  show ?thesis
    using bal 1 2 owes_nothingD [OF f(1)] unfolding balanced_def opts 3 by (simp add: set_registry_def)
qed

text \<open>Listeners taken out of the frame are left.\<close>

lemma balanced_keep:
  assumes bal: "balanced acc (f # fs) w"
    and flight: "\<And>k. lr_in_flight (hr_listener s k) + of_nat (count_list (fr_entered f) k) =
      lr_in_flight (hr_listener (dw_registry w) k) + of_nat (count_list ls k)"
    and same: "hr_hook s = hr_hook (dw_registry w)"
      "\<And>k. lr_options (hr_listener s k) = lr_options (hr_listener (dw_registry w) k)"
      "\<And>a. counters (hr_adapter s a) = counters (hr_adapter (dw_registry w) a)"
  shows "balanced acc (f\<lparr>fr_entered := ls\<rparr> # fs) (set_registry s w)"
proof -
  let ?g = "f\<lparr>fr_entered := ls\<rparr>"
  have 2: "lr_in_flight (hr_listener s l) = ac_listener acc l + entries_of (?g # fs) l" for l
    using move_sum [OF flight [of l], of "ac_listener acc l" "entries_of fs l"] bal
    by (simp add: balanced_def entries_of_def)
  have opts: "options_of (set_registry s w) = options_of w"
    by (rule ext) (simp add: options_of_def set_registry_def same)
  have debts: "owes_scope ?g a = owes_scope f a" "owes_transition ?g a = owes_transition f a"
    "owes_lease ?g a = owes_lease f a" for a
    by (simp_all add: owes_scope_def owes_transition_def owes_lease_def)
  have c: "counters (adapter_of_world (set_registry s w) a) = counters (adapter_of_world w a)" for a
    by (simp add: adapter_of_world_def set_registry_def same)
  show ?thesis
    using bal c 2 unfolding balanced_def opts counters_def
    by (simp add: debts) (simp add: set_registry_def same calls_of_def)
qed

text \<open>A frame that no bridge has touched yet.\<close>

definition untouched :: "dispatch_frame \<Rightarrow> bool" where
  "untouched f \<longleftrightarrow> outside f \<and> fr_lease f = 0 \<and> fr_roots f = []"

lemma untouched_nothing: "untouched f \<Longrightarrow> owes_nothing f"
  by (simp add: untouched_def owes_nothing_def outside_def)

lemma filter_balanced:
  assumes bal: "balanced acc (f # fs) w" and f: "untouched f"
    and run: "FilterListenersForCurrentIsolateGroup env cx f w = (g, v)"
  shows "balanced acc (g # fs) v \<and> untouched g \<and> fr_hook g = fr_hook f \<and> dw_calls v = dw_calls w"
proof -
  let ?P = "\<lambda>s l. MethodOwnerMatchesCurrentIsolateGroup (ev_profiles env) (dw_memory w) s
             (lr_method (hr_listener s l)) cx"
  obtain ls s where k: "keep_listeners ?P (fr_entered f) (dw_registry w) = (ls, s)" by fastforce
  have gv: "g = f\<lparr>fr_entered := ls\<rparr>" "v = set_registry s w"
    using run k by (auto simp: FilterListenersForCurrentIsolateGroup_def)
  have "balanced acc (g # fs) v"
    unfolding gv
    by (rule balanced_keep [OF bal keep_listeners_flight [OF k]]) (use keep_listeners_frame [OF k] in auto)
  then show ?thesis using f by (simp add: gv untouched_def outside_def set_registry_def)
qed

lemma bind_balanced:
  assumes bal: "balanced acc (f # fs) w" and f: "untouched f"
    and run: "BindInvocationToCurrentOwner f w = (listener, g, v)"
  shows "balanced acc (g # fs) v \<and> untouched g \<and> fr_hook g = fr_hook f \<and> dw_calls v = dw_calls w"
proof (cases "fr_entered f")
  case Nil
  then show ?thesis using assms by (simp add: BindInvocationToCurrentOwner_def)
next
  case (Cons e es)
  obtain ls s where k: "keep_listeners (\<lambda>s l. SameExecutionBinding (hr_listener s e) (hr_listener s l))
      (fr_entered f) (dw_registry w) = (ls, s)" by fastforce
  let ?g = "f\<lparr>fr_entered := ls\<rparr>"
  have v: "v = set_registry s w" and g: "g = ?g \<or> g = bind_owner s (hr_listener s e) ?g"
    using run k Cons by (auto simp: BindInvocationToCurrentOwner_def split: if_splits)
  have b: "balanced acc (?g # fs) v"
    unfolding v by (rule balanced_keep [OF bal keep_listeners_flight [OF k]]) (use keep_listeners_frame [OF k] in auto)
  have u: "untouched ?g" using f by (simp add: untouched_def outside_def)
  have g2: "untouched g \<and> fr_entered g = fr_entered ?g \<and> fr_hook g = fr_hook ?g"
    using g u by (auto simp: bind_owner_def RefreshIdentityState_def Let_def untouched_def outside_def)
  have "balanced acc (g # fs) v"
    using balanced_swap [OF b untouched_nothing [OF u]] untouched_nothing g2 by blast
  then show ?thesis using g2 v by (simp add: set_registry_def)
qed

lemma release_entrant_kept:
  "kept w (release_entrant i w) \<and> dw_calls (release_entrant i w) = dw_calls w"
  by (simp add: release_entrant_def kept_def Let_def set_registry_def set_hook_def options_of_def
      adapter_of_world_def fun_eq_iff)

lemma ensure_bridge_frame:
  "EnsureArm64ExceptionBridge env i cx l w = (ok, v) \<Longrightarrow> dw_registry v = dw_registry w \<and> dw_calls v = dw_calls w"
  by (auto simp: EnsureArm64ExceptionBridge_def Let_def split: option.splits if_splits prod.splits)

lemma kept_registry: "dw_registry v = dw_registry w \<Longrightarrow> kept w v"
  by (simp add: kept_def adapter_of_world_def options_of_def fun_eq_iff)

lemma tallies_set_up_generated:
  assumes run: "set_up_generated env f w = Some (ok, g, v)" and f: "untouched f"
  shows "tallies f w g v \<and> (if ok then in_bridge g else owes_nothing g)"
proof -
  obtain built f1 w1 where b: "BuildGeneratedRootBindings env f w = (built, f1, w1)" using prod_cases3 by blast
  have q1: "tallies f w f1 w1" and f1: "outside f1" "fr_lease f1 = 0"
    using tallies_build [OF b] f by (auto simp: untouched_def same_debts_def outside_def)
  obtain pk f2 w2 where p: "(if built then PinGeneratedRoots env False False f1 w1 else (False, f1, w1)) = (pk, f2, w2)"
    using prod_cases3 by blast
  have q2: "tallies f w f2 w2" and f2: "outside f2"
    using p tallies_pin [of env False False f1 w1 pk f2 w2] q1 f1 tallies_trans [OF q1]
    by (auto simp: outside_def split: if_splits)
  obtain en f3 w3 where e: "(if pk then EnterGeneratedVmBridge env False False f2 w2 else Some (False, f2, w2)) =
      Some (en, f3, w3)"
    and rest: "(if en then Some (True, f3, w3) else map_option (\<lambda>(_, f4, w4). (False, f4, w4))
                           (DropPersistentGeneratedRoots env False True f3 w3)) = Some (ok, g, v)"
    using run b p by (auto simp: set_up_generated_def bind_eq_Some_conv)
  have q3: "tallies f w f3 w3 \<and> (if en then in_bridge f3 else outside f3)"
    using e tallies_enter_bridge [of env False False f2 w2 en f3 w3] f2 q2 tallies_trans [OF q2]
    by (auto split: if_splits)
  show ?thesis
  proof (cases en)
    case True
    then show ?thesis using rest q3 by simp
  next
    case False
    then obtain k where d: "DropPersistentGeneratedRoots env False True f3 w3 = Some (k, g, v)" and "\<not> ok"
      using rest by auto
    show ?thesis using tallies_drop_out [OF d] q3 False \<open>\<not> ok\<close> tallies_trans [of f w f3 w3 g v] by auto
  qed
qed

lemma tallies_set_up:
  assumes run: "set_up_scope env gen wanted f w = Some (ok, g, v)" and f: "untouched f"
  shows "tallies f w g v \<and> (if \<not> ok then owes_nothing g
    else if gen then in_bridge g else \<not> fr_bridge_active g \<and> fr_roots g = [])"
proof (cases gen)
  case True
  then show ?thesis using run tallies_set_up_generated [of env f w ok g v] f by (simp add: set_up_scope_def)
next
  case gen: False
  show ?thesis
  proof (cases wanted)
    case True
    obtain st w1 where e: "enter_scope env f w = (st, w1)" by fastforce
    have q: "tallies f w (if st = DP_OK then f\<lparr>fr_scope_entered := True\<rparr> else f) w1"
      by (rule tallies_enter_scope [OF e]) (use f in \<open>simp add: untouched_def outside_def\<close>)
    show ?thesis
      using run gen True e q f untouched_nothing [OF f]
      by (auto simp: set_up_scope_def untouched_def outside_def split: if_splits)
  next
    case False
    then show ?thesis using run gen f by (simp add: set_up_scope_def untouched_def outside_def)
  qed
qed

text \<open>The outcome of an entry: the call has gone through, or it has a frame with its log.\<close>

definition entry_outcome :: "account \<Rightarrow> dispatch_frame list \<Rightarrow> dispatch_frame list \<Rightarrow> dispatch_world \<Rightarrow>
    dispatch_world \<Rightarrow> bool" where
  "entry_outcome acc fs fs' w v \<longleftrightarrow> balanced acc fs' v \<and>
     ((fs' = fs \<and> (\<exists>ls. dw_calls v = enter_log (ac_options acc) ls @ dw_calls w \<or>
         dw_calls v = leave_log (ac_options acc) ls @ enter_log (ac_options acc) ls @ dw_calls w)) \<or>
      (\<exists>g. fs' = g # fs \<and> at_rest g \<and>
         dw_calls v = enter_log (ac_options acc) (fr_entered g) @ dw_calls w))"

lemma outcome_through:
  "balanced acc fs v \<Longrightarrow> dw_calls v = dw_calls w \<Longrightarrow> entry_outcome acc fs fs w v"
  unfolding entry_outcome_def by (metis append_Nil logs_nil(1))

lemma take_drop_count: "count_list (take n ls) k + count_list (drop n ls) k = count_list ls k"
  by (metis append_take_drop_id count_list_append)

lemma run_entered_balanced:
  assumes cb: "callbacks_balanced env" and bal: "balanced acc (f # fs) w"
    and run: "run_entered env i f w = (g, v)"
  shows "balanced acc (g # fs) v \<and> in_bridge g = in_bridge f \<and> fr_bridge_active g = fr_bridge_active f \<and>
    fr_roots g = fr_roots f \<and> dw_calls v = enter_log (ac_options acc) (fr_entered g) @ dw_calls w"
proof -
  obtain n f1 w1 where e: "enter_callbacks env (hk_shared_code_opt_in (hr_hook (dw_registry w) i)) (fr_entered f) f w =
      (n, f1, w1)" using prod_cases3 by blast
  let ?ls = "fr_entered f" and ?s = "fold exit_listener (drop n (fr_entered f)) (dw_registry w1)"
  have gv: "g = f1\<lparr>fr_entered := take n ?ls\<rparr>" "v = set_registry ?s w1"
    using run e by (simp_all add: run_entered_def)
  note q = enter_callbacks_log [OF cb e]
  have bal1: "balanced acc (f1 # fs) w1" using balanced_debts [OF bal] q by blast
  have ls: "fr_entered f1 = ?ls" using q by (simp add: same_debts_def)
  have flight: "lr_in_flight (hr_listener ?s k) + of_nat (count_list (fr_entered f1) k) =
      lr_in_flight (hr_listener (dw_registry w1) k) + of_nat (count_list (take n ?ls) k)" for k
    unfolding ls exit_fold(2) take_drop_count [of n ?ls k, symmetric] by simp
  have "balanced acc (g # fs) v"
    unfolding gv by (rule balanced_keep [OF bal1 flight]) (simp_all add: exit_fold)
  then show ?thesis
    using q balanced_options [OF bal] by (auto simp: gv enter_log_def set_registry_def same_debts_def in_bridge_def)
qed

lemma to_original_outcome:
  assumes cb: "callbacks_balanced env" and bal: "balanced acc (f # fs) w" and rest: "at_rest f"
    and log: "dw_calls w = enter_log (ac_options acc) (fr_entered f) @ dw_calls w0"
    and run: "to_original env i fs f w = Some (r, fs', v)"
  shows "entry_outcome acc fs fs' w0 v"
proof (cases "fr_skip_original f")
  case True
  then obtain g where f: "FinishFrame env (cx_x (fr_context f) 0) (cx_x (fr_context f) 1)
      (ReadV0Bits (fr_context f)) f w = Some (g, v)" and "fs' = fs"
    using run by (auto simp: to_original_def finish_skipped_def)
  then show ?thesis
    using finish_balanced [OF cb bal rest f] log unfolding entry_outcome_def by (metis (no_types))
next
  case False
  then have "fs' = f # fs" "v = w" using run by (auto simp: to_original_def)
  then show ?thesis using bal rest log by (auto simp: entry_outcome_def)
qed

lemma dispatch_callbacks_outcome:
  assumes cb: "callbacks_balanced env" and bal: "balanced acc (f # fs) w"
    and f: "if gen then in_bridge f else \<not> fr_bridge_active f \<and> fr_roots f = []"
    and run: "dispatch_callbacks env i gen fs f w = Some (r, fs', v)"
  shows "entry_outcome acc fs fs' w v"
proof -
  obtain f1 w1 where e: "run_entered env i f w = (f1, w1)" by fastforce
  note b = run_entered_balanced [OF cb bal e]
  show ?thesis
  proof (cases "gen \<and> fr_bridge_active f1")
    case True
    let ?skip = "fr_skip_original f1"
    obtain ok f2 w2 where l: "LeaveGeneratedVmBridge env ?skip (\<not> ?skip) f1 w1 = Some (ok, f2, w2)"
      and rest: "ok \<longrightarrow> to_original env i fs f2 w2 = Some (r, fs', v)"
      using run e True by (auto simp: dispatch_callbacks_def bind_eq_Some_conv Let_def split: if_splits)
    have inb: "in_bridge f1" using b f True by simp
    note q = tallies_leave_bridge [OF l inb]
    have bal2: "balanced acc (f2 # fs) w2" using balanced_quiet b q by blast
    show ?thesis
      by (rule to_original_outcome [OF cb bal2 _ _ rest [rule_format]])
        (use q b tallies_parts [of f1 w1 f2 w2] in \<open>auto simp: at_rest_def outside_def\<close>)
  next
    case False
    have t: "to_original env i fs f1 w1 = Some (r, fs', v)"
      using run unfolding dispatch_callbacks_def e prod.case by (simp only: False if_False)
    have "at_rest f1" using b f False by (auto simp: at_rest_def in_bridge_def split: if_splits)
    then show ?thesis using to_original_outcome [OF cb _ _ _ t] b by blast
  qed
qed

lemma pass_through_outcome:
  assumes bal: "balanced acc (f # fs) w" and none: "owes_nothing f"
    and run: "pass_through env i fs f w = (r, fs', v)" and calls: "dw_calls w = dw_calls w0"
  shows "entry_outcome acc fs fs' w0 v"
proof -
  obtain g u where s: "ReleaseSnapshot env f w = (g, u)" by fastforce
  then have "fs' = fs" "v = u" using run by (simp_all add: pass_through_def)
  then show ?thesis using balanced_release [OF bal none s] outcome_through calls by metis
qed

lemma admitted_outcome:
  assumes cb: "callbacks_balanced env" and bal: "balanced acc (f # fs) w" and calls: "dw_calls w = dw_calls w0"
    and f: "if gen then in_bridge f else \<not> fr_bridge_active f \<and> fr_roots f = []"
    and late: "late \<Longrightarrow> \<not> gen"
    and run: "admitted_dispatch env i gen late fs f w = Some (r, fs', v)"
  shows "entry_outcome acc fs fs' w0 v"
proof -
  let ?w = "if gated_real_dart (hr_hook (dw_registry w) i) then release_entrant i w else w"
  have bal1: "balanced acc (f # fs) ?w" and calls1: "dw_calls ?w = dw_calls w0"
    using balanced_kept [OF bal] release_entrant_kept [of w i] bal calls by auto
  show ?thesis
  proof (cases late)
    case True
    obtain g u where c: "ClearEnteredListeners f ?w = (g, u)" by fastforce
    then have res: "fs' = g # fs" "v = u" using run True by (auto simp: admitted_dispatch_def Let_def)
    have "at_rest g" using c f late [OF True] by (auto simp: ClearEnteredListeners_def at_rest_def)
    then show ?thesis using balanced_clear [OF bal1 c] calls1 res by (simp add: entry_outcome_def)
  next
    case False
    then have d: "dispatch_callbacks env i gen fs f ?w = Some (r, fs', v)"
      using run by (simp add: admitted_dispatch_def Let_def)
    show ?thesis
      using dispatch_callbacks_outcome [OF cb bal1 f d] calls1 by (simp add: entry_outcome_def)
  qed
qed

lemma begun_outcome:
  assumes cb: "callbacks_balanced env" and bal: "balanced acc (f # fs) w" and f: "untouched f"
    and run: "begun_dispatch env i fs f w = Some (r, fs', v)"
  shows "entry_outcome acc fs fs' w v"
proof -
  obtain f1 w1 where 1: "FilterListenersForCurrentIsolateGroup env (fr_context f) f w = (f1, w1)" by fastforce
  obtain l f2 w2 where 2: "BindInvocationToCurrentOwner f1 w1 = (l, f2, w2)" using prod_cases3 by blast
  note b1 = filter_balanced [OF bal f 1]
  have b2: "balanced acc (f2 # fs) w2" "untouched f2" "dw_calls w2 = dw_calls w"
    using bind_balanced [OF _ _ 2] b1 by auto
  let ?h = "hr_hook (dw_registry w2) i"
  let ?late = "fr_ambiguous f2 \<and> \<not> hk_shared_code_opt_in ?h"
  let ?wanted = "fr_entered f2 \<noteq> [] \<and> fr_adapter f2 \<noteq> None \<and> \<not> ?late"
  let ?gen = "real_dart ?h \<and> ?wanted"
  let ?body = "\<lambda>(ok, f3, w3). (if \<not> ok then Some (pass_through env i fs f3 w3)
                    else (case (if real_dart ?h then EnsureArm64ExceptionBridge env i (fr_context f3) l w3
                                else (True, w3)) of
                            (ensured, w4) \<Rightarrow>
                              if \<not> ensured
                              then map_option (\<lambda>(f5, w5). pass_through env i fs f5 w5)
                                     (take_back env ?gen f3 w4)
                              else admitted_dispatch env i ?gen ?late fs f3 w4))"
  have bound: "Option.bind (set_up_scope env ?gen ?wanted f2 w2) ?body = Some (r, fs', v)"
    using run unfolding begun_dispatch_def 1 2 Let_def prod.case .
  then obtain t where t: "set_up_scope env ?gen ?wanted f2 w2 = Some t" "?body t = Some (r, fs', v)"
    unfolding bind_eq_Some_conv by blast
  obtain ok f3 w3 where tt: "t = (ok, f3, w3)" using prod_cases3 by blast
  note 3 = t(1) [unfolded tt] and rest = t(2) [unfolded tt prod.case]
  note q3 = tallies_set_up [OF 3 b2(2)]
  have b3: "balanced acc (f3 # fs) w3" "dw_calls w3 = dw_calls w"
    using balanced_quiet [OF b2(1)] q3 tallies_parts [of f2 w2 f3 w3] b2(3) by auto
  show ?thesis
  proof (cases ok)
    case False
    then have p: "pass_through env i fs f3 w3 = (r, fs', v)" using rest by simp
    show ?thesis using pass_through_outcome [OF b3(1) _ p b3(2)] q3 False by simp
  next
    case True
    obtain en w4 where e: "(if real_dart ?h then EnsureArm64ExceptionBridge env i (fr_context f3) l w3
        else (True, w3)) = (en, w4)" by fastforce
    have w4: "dw_registry w4 = dw_registry w3" "dw_calls w4 = dw_calls w"
      using e ensure_bridge_frame [of env i "fr_context f3" l w3 en w4] b3(2) by (auto split: if_splits)
    have b4: "balanced acc (f3 # fs) w4" by (rule balanced_kept [OF b3(1) kept_registry [OF w4(1)]])
    have f3: "if ?gen then in_bridge f3 else \<not> fr_bridge_active f3 \<and> fr_roots f3 = []"
      using q3 True by simp
    show ?thesis
    proof (cases en)
      case False
      then obtain f5 w5 where t: "take_back env ?gen f3 w4 = Some (f5, w5)"
        and p: "pass_through env i fs f5 w5 = (r, fs', v)" using rest True e by auto
      have q: "tallies f3 w4 f5 w5 \<and> owes_nothing f5"
        by (rule tallies_take_back [OF t]) (use f3 in \<open>auto split: if_splits\<close>)
      show ?thesis
        using pass_through_outcome [OF _ _ p] balanced_quiet [OF b4] q tallies_parts [of f3 w4 f5 w5] w4(2) by metis
    next
      case True
      then have a: "admitted_dispatch env i ?gen ?late fs f3 w4 = Some (r, fs', v)" using rest \<open>ok\<close> e by simp
      show ?thesis by (rule admitted_outcome [OF cb b4 w4(2) f3 _ a]) simp
    qed
  qed
qed

lemma new_frame_untouched:
  "untouched (new_frame s i cx d) \<and> fr_hook (new_frame s i cx d) = Some i \<and> fr_entered (new_frame s i cx d) = []"
  by (simp add: new_frame_def RefreshIdentityState_def Let_def untouched_def outside_def frame_0_def)

lemma balanced_new:
  assumes bal: "balanced acc fs w" and f: "owes_nothing f" "fr_hook f = None" "fr_entered f = []"
  shows "balanced acc (f # fs) w"
  using bal owes_nothingD [OF f(1)] f(2,3) by (simp add: balanced_def calls_of_def entries_of_def)

lemma enter_outcome_all:
  assumes cb: "callbacks_balanced env" and bal: "balanced acc fs w"
    and room: "\<And>i. hk_in_flight (hr_hook (dw_registry w) i) \<noteq> UINT64_MAX"
    and run: "dartplant_arm64_dispatch_enter env cx hook fs w = Some (r, fs', v)"
  shows "entry_outcome acc fs fs' w v"
proof (cases "cx = None \<or> hook = None")
  case True
  then have "fs' = fs" "v = w" using run by (auto simp: dartplant_arm64_dispatch_enter_def split: option.splits)
  then show ?thesis using outcome_through [OF bal] by simp
next
  case False
  then obtain c i where c: "cx = Some c" "hook = Some i" by auto
  let ?s = "dw_registry w" and ?h = "hr_hook (dw_registry w) i"
  let ?u = "if gated_real_dart ?h then w else release_entrant i w"
  let ?f = "new_frame ?s i c (of_nat (length fs + 1))"
  have u: "entry_outcome acc fs fs w ?u"
    using outcome_through [OF bal] outcome_through [OF balanced_kept [OF bal]] release_entrant_kept [of w i] by simp
  obtain ad ls s1 where b: "BeginInvocation (ev_profile_at env) i ?s = (ad, ls, s1)" using prod_cases3 by blast
  consider "(fs', v) = (fs, w)" | "(fs', v) = (fs, ?u)"
    | "\<not> ad" "(r, fs', v) = refused_dispatch i fs ?f (set_registry s1 w)"
    | "ad" "begun_dispatch env i fs (?f\<lparr>fr_entered := ls\<rparr>) (set_registry s1 w) = Some (r, fs', v)"
    using run c b by (cases ad) (auto simp: dartplant_arm64_dispatch_enter_def Let_def split: if_splits)
  then show ?thesis
  proof cases
    case 1
    then show ?thesis using outcome_through [OF bal] by simp
  next
    case 2
    then show ?thesis using u by simp
  next
    case 3
    have s1: "s1 = ?s" using b 3(1) by (auto simp: BeginInvocation_def Let_def split: if_splits)
    then have w: "set_registry s1 w = w" by (simp add: set_registry_def)
    let ?g = "?f\<lparr>fr_hook := None\<rparr>"
    have v: "v = w \<or> v = release_entrant i w" and fs': "fs' = fs \<or> fs' = ?g # fs"
      using 3(2) unfolding w by (auto simp: refused_dispatch_def Let_def)
    have bv: "balanced acc fs v" "dw_calls v = dw_calls w"
      using v bal balanced_kept [OF bal] release_entrant_kept [of w i] by auto
    have g: "owes_nothing ?g" "fr_hook ?g = None" "fr_entered ?g = []" "at_rest ?g"
      using new_frame_untouched [of ?s i c "of_nat (length fs + 1)"]
      by (simp_all add: untouched_def owes_nothing_def outside_def at_rest_def)
    show ?thesis
      using fs'
    proof
      assume "fs' = fs"
      then show ?thesis using outcome_through [OF bv] by simp
    next
      assume "fs' = ?g # fs"
      then show ?thesis using balanced_new [OF bv(1) g(1-3)] bv(2) g(3,4) by (simp add: entry_outcome_def)
    qed
  next
    case 4
    let ?g = "?f\<lparr>fr_entered := ls\<rparr>"
    have g: "untouched ?g" "fr_hook ?g = Some i"
      using new_frame_untouched [of ?s i c "of_nat (length fs + 1)"] by (simp_all add: untouched_def outside_def)
    have "balanced acc (?g # fs) (set_registry s1 w)"
      by (rule balanced_begin [OF bal room]) (use b 4(1) g untouched_nothing [OF g(1)] in simp_all)
    then show ?thesis
      using begun_outcome [OF cb _ g(1) 4(2)] by (simp add: entry_outcome_def set_registry_def)
  qed
qed

end
