(* ===== verification/Dispatch_Invariants.thy ===== *)
theory Dispatch_Invariants
  imports Callback_Dispatch_Props Hook_Props Closure_Arguments_Props
begin

text \<open>
  The thread as a step relation over the dispatcher's entry points, and the properties of its
  reachable states; the unwinding loop; what the collector may do during a callback.
\<close>

section \<open>Steps of a thread\<close>

inductive dispatch_step :: "dispatch_env \<Rightarrow> dispatch_frame list \<times> dispatch_world \<Rightarrow>
    dispatch_frame list \<times> dispatch_world \<Rightarrow> bool" for env where
  enter: "dartplant_arm64_dispatch_enter env cx hook fs w = Some (r, fs', w') \<Longrightarrow>
    dispatch_step env (fs, w) (fs', w')"
| prepare: "dartplant_arm64_prepare_invoke_original_frame env sp fs = (ok, fs') \<Longrightarrow>
    dispatch_step env (fs, w) (fs', w)"
| return_payload: "dartplant_arm64_dispatch_return_from_payload env p site fs w = Some (rr, fs', w') \<Longrightarrow>
    dispatch_step env (fs, w) (fs', w')"
| return_hook: "dartplant_arm64_dispatch_return_from_hook env hook site fs w = Some (rr, fs', w') \<Longrightarrow>
    dispatch_step env (fs, w) (fs', w')"
| leave: "dartplant_arm64_dispatch_leave_from_tls env r0 r1 fp fs w = Some (lr, fs', w') \<Longrightarrow>
    dispatch_step env (fs, w) (fs', w')"
| unwind: "dartplant_arm64_dispatch_exception_unwind env sp fp fs w = Some (Some (fs', w')) \<Longrightarrow>
    dispatch_step env (fs, w) (fs', w')"
| elsewhere: "kept w w' \<Longrightarrow> dispatch_step env (fs, w) (fs, w')"

text \<open>The account of a world in which the thread has no frame.\<close>

definition opening_account :: "dispatch_world \<Rightarrow> account" where
  "opening_account w =
     \<lparr>ac_hook = (\<lambda>i. unat (hk_in_flight (hr_hook (dw_registry w) i))),
      ac_listener = (\<lambda>l. lr_in_flight (hr_listener (dw_registry w) l)),
      ac_scope = (\<lambda>a. va_entered (adapter_of_world w a)),
      ac_transition = (\<lambda>a. va_transitions (adapter_of_world w a)),
      ac_lease = (\<lambda>a. va_root_leases (adapter_of_world w a)), ac_options = options_of w\<rparr>"

lemma balanced_opening: "balanced (opening_account w) [] w"
  by (simp add: balanced_def opening_account_def calls_of_def entries_of_def)

text \<open>No hook is within a thread's depth of the end of its counter.\<close>

definition room_for_calls :: "dispatch_world \<Rightarrow> bool" where
  "room_for_calls w \<longleftrightarrow>
     (\<forall>i. unat (hk_in_flight (hr_hook (dw_registry w) i)) + kMaxInvocationDepth < 2 ^ 64 - 1)"

section \<open>Unwinding\<close>

lemma unwind_step_shrinks:
  "unwind_goes_on sp fp st \<Longrightarrow>
   (case unwind_step env st of None \<Rightarrow> 0 | Some (fs, w) \<Rightarrow> Suc (length fs)) <
   (case st of None \<Rightarrow> 0 | Some (fs, w) \<Rightarrow> Suc (length fs))"
  by (auto simp: unwind_goes_on_def unwind_step_def split: option.splits list.splits prod.splits)

text \<open>
  What holds of the loop's state after each turn: the frames gone so far are a prefix of unwound
  ones, and \<open>P\<close>, which the abandoning of a frame keeps, holds of what is left.
\<close>

lemma unwind_loop:
  assumes keep: "\<forall>f fs w w'. P (f # fs) w \<longrightarrow> unwind_frame env f w = Some w' \<longrightarrow> P fs w'"
    and init: "P fs0 w0"
  shows "\<exists>st. while_option (unwind_goes_on sp fp) (unwind_step env) (Some (fs0, w0)) = Some st \<and>
    (case st of None \<Rightarrow> True | Some (fs, w) \<Rightarrow> fs = dropWhile (unwound sp fp) fs0 \<and> P fs w)"
proof -
  let ?I = "\<lambda>st. case st of None \<Rightarrow> True | Some (fs, w) \<Rightarrow>
      dropWhile (unwound sp fp) fs = dropWhile (unwound sp fp) fs0 \<and> P fs w"
  have step: "?I (unwind_step env st)" if "?I st" "unwind_goes_on sp fp st" for st
    using that keep by (auto simp: unwind_goes_on_def unwind_step_def split: option.splits list.splits prod.splits)
  obtain st where st: "while_option (unwind_goes_on sp fp) (unwind_step env) (Some (fs0, w0)) = Some st"
    using measure_while_option_Some [where P = ?I and f = "\<lambda>st. case st of None \<Rightarrow> 0 | Some (fs, w) \<Rightarrow> Suc (length fs)"]
      step unwind_step_shrinks init by fastforce
  have "?I st" by (rule while_option_rule [OF _ st, where P = ?I]) (use step init in auto)
  moreover have "\<not> unwind_goes_on sp fp st" by (rule while_option_stop [OF st])
  ultimately show ?thesis
    using st by (auto simp: unwind_goes_on_def split: option.splits list.splits)
qed

lemma unwind_idle: "unwound 0 0 f = False"
  by (simp add: unwound_def)

lemma dropWhile_none: "(\<And>x. \<not> P x) \<Longrightarrow> dropWhile P xs = xs"
  by (cases xs) simp_all

lemma unwind_result:
  assumes keep: "\<forall>f fs w w'. P (f # fs) w \<longrightarrow> unwind_frame env f w = Some w' \<longrightarrow> P fs w'"
    and init: "P fs w"
  shows "\<exists>st. dartplant_arm64_dispatch_exception_unwind env sp fp fs w = Some st \<and>
    (case st of None \<Rightarrow> True
     | Some (fs', w') \<Rightarrow> fs' = dropWhile (\<lambda>f. ev_stack env \<and> unwound sp fp f) fs \<and> P fs' w')"
proof (cases "(sp = 0 \<and> fp = 0) \<or> \<not> ev_stack env")
  case True
  then have "dropWhile (\<lambda>f. ev_stack env \<and> unwound sp fp f) fs = fs"
    by (intro dropWhile_none) (auto simp: unwind_idle)
  then show ?thesis using True init by (simp add: dartplant_arm64_dispatch_exception_unwind_def)
next
  case False
  have loop: "dartplant_arm64_dispatch_exception_unwind env sp fp fs w =
      while_option (unwind_goes_on sp fp) (unwind_step env) (Some (fs, w))"
    unfolding dartplant_arm64_dispatch_exception_unwind_def by (rule if_not_P [OF False])
  have all: "(\<lambda>f. ev_stack env \<and> unwound sp fp f) = unwound sp fp" using False by auto
  show ?thesis unfolding loop all by (rule unwind_loop [of P env fs w sp fp, OF keep init])
qed

text \<open>C37: The loop that retires the frames of an exception always ends, after at most as many turns as
  there are frames. Unless the process ends on the way, exactly the innermost frames that the
  exception passes are gone: the stack that is left begins with the first frame it does not pass.\<close>

theorem unwind_terminates:
  "\<exists>st. dartplant_arm64_dispatch_exception_unwind env sp fp fs w = Some st \<and>
     (case st of None \<Rightarrow> True
      | Some (fs', w') \<Rightarrow> fs' = dropWhile (\<lambda>f. ev_stack env \<and> unwound sp fp f) fs)"
proof -
  obtain st where "dartplant_arm64_dispatch_exception_unwind env sp fp fs w = Some st"
    and "case st of None \<Rightarrow> True
      | Some (fs', w') \<Rightarrow> fs' = dropWhile (\<lambda>f. ev_stack env \<and> unwound sp fp f) fs \<and> True"
    using unwind_result [of "\<lambda>_ _. True" env fs w sp fp] by blast
  then show ?thesis by (intro exI [of _ st]) (auto split: option.splits)
qed

text \<open>Frames deeper in the stack entered at higher addresses; the stack grows downwards.\<close>

definition stack_ordered :: "dispatch_frame list \<Rightarrow> bool" where
  "stack_ordered fs \<longleftrightarrow>
     sorted_wrt (\<lambda>f g. fr_entry_spreg f \<le> fr_entry_spreg g \<and> fr_entry_caller_fp f \<le> fr_entry_caller_fp g) fs \<and>
     list_all (\<lambda>f. fr_entry_spreg f \<noteq> 0 \<and> fr_entry_caller_fp f \<noteq> 0) fs"

lemma dropWhile_filter:
  "sorted_wrt (\<lambda>f g. Q g \<longrightarrow> Q f) fs \<Longrightarrow> dropWhile Q fs = filter (\<lambda>f. \<not> Q f) fs"
proof (induction fs)
  case (Cons f fs)
  show ?case
  proof (cases "Q f")
    case True
    then show ?thesis using Cons by simp
  next
    case False
    then have "filter (\<lambda>f. \<not> Q f) fs = fs" using Cons.prems by (auto simp: filter_id_conv)
    then show ?thesis using False by simp
  qed
qed simp

lemma ordered_unwound:
  assumes "stack_ordered fs"
  shows "sorted_wrt (\<lambda>f g. unwound sp fp g \<longrightarrow> unwound sp fp f) fs"
proof -
  have nz: "fr_entry_spreg f \<noteq> 0 \<and> fr_entry_caller_fp f \<noteq> 0" if "f \<in> set fs" for f
    using assms that by (simp add: stack_ordered_def list_all_iff)
  show ?thesis
  proof (rule sorted_wrt_mono_rel [of fs
      "\<lambda>f g. fr_entry_spreg f \<le> fr_entry_spreg g \<and> fr_entry_caller_fp f \<le> fr_entry_caller_fp g"])
    fix f g
    assume f: "f \<in> set fs" and g: "g \<in> set fs"
      and le: "fr_entry_spreg f \<le> fr_entry_spreg g \<and> fr_entry_caller_fp f \<le> fr_entry_caller_fp g"
    show "unwound sp fp g \<longrightarrow> unwound sp fp f"
      using nz [OF f] le unfolding unwound_def by (meson order_trans le_less_trans)
  qed (use assms in \<open>simp add: stack_ordered_def\<close>)
qed

text \<open>C38: On a stack ordered as the machine stack is, unwinding to a stack and frame pointer keeps exactly
  the frames that lie outside what the exception passes, wherever they stand: none inside is left
  and none outside is lost.\<close>

theorem unwind_exact:
  assumes ordered: "stack_ordered fs" and there: "ev_stack env"
    and run: "dartplant_arm64_dispatch_exception_unwind env sp fp fs w = Some (Some (fs', w'))"
  shows "fs' = filter (\<lambda>f. \<not> unwound sp fp f) fs"
proof -
  have "fs' = dropWhile (unwound sp fp) fs"
    using unwind_result [of "\<lambda>_ _. True" env fs w sp fp] run there by simp
  then show ?thesis using dropWhile_filter [OF ordered_unwound [OF ordered]] by simp
qed

section \<open>Reachable stacks\<close>

lemma current_frame: "CurrentFrame env fs = Some f \<Longrightarrow> \<exists>rest. fs = f # rest"
  by (auto simp: CurrentFrame_def split: if_splits list.splits)

definition thread_ok :: "account \<Rightarrow> dispatch_frame list \<Rightarrow> dispatch_world \<Rightarrow> bool" where
  "thread_ok acc fs w \<longleftrightarrow> balanced acc fs w \<and> (\<forall>f \<in> set fs. at_rest f) \<and> length fs \<le> kMaxInvocationDepth"

lemma unwind_frame_ok:
  assumes cb: "callbacks_balanced env" and ok: "thread_ok acc (f # fs) w"
    and run: "unwind_frame env f w = Some w'"
  shows "thread_ok acc fs w'"
proof -
  let ?f = "f\<lparr>fr_phase := PhaseException\<rparr>"
  obtain f1 w1 where e: "exception_callbacks env (rev (fr_entered f)) ?f w = (f1, w1)" by fastforce
  then obtain g where a: "AbandonFrame env f1 w1 = Some (g, w')" using run by (auto simp: unwind_frame_def)
  have q: "kept w w1" "same_debts f f1" "fr_roots f1 = fr_roots f"
    using exception_callbacks_log [OF cb e] by (simp_all add: same_debts_def)
  have bal: "balanced acc (f1 # fs) w1" using balanced_debts q ok by (auto simp: thread_ok_def)
  have rest: "at_rest f1" using ok q(2,3) by (simp add: thread_ok_def at_rest_def same_debts_def)
  show ?thesis using abandon_balanced [OF bal rest a] ok by (simp add: thread_ok_def)
qed

lemma full_stack:
  "dartplant_arm64_dispatch_enter env cx hook fs w = Some (r, fs', w') \<Longrightarrow>
   kMaxInvocationDepth \<le> length fs \<Longrightarrow> fs' = fs"
  by (auto simp: dartplant_arm64_dispatch_enter_def Let_def split: option.splits if_splits)

lemma ok_finish:
  assumes cb: "callbacks_balanced env" and ok: "thread_ok acc (f # fs) w"
    and same: "same_debts f g" "fr_roots g = fr_roots f"
    and run: "FinishFrame env r0 r1 fp g w = Some (h, w')"
  shows "thread_ok acc fs w' \<and>
    (dw_calls w' = dw_calls w \<or> dw_calls w' = leave_log (ac_options acc) (fr_entered f) @ dw_calls w)"
proof -
  have bal: "balanced acc (g # fs) w" using balanced_debts [OF _ kept_refl same(1)] ok by (simp add: thread_ok_def)
  have rest: "at_rest g" using ok same by (simp add: thread_ok_def at_rest_def same_debts_def)
  show ?thesis
    using finish_balanced [OF cb bal rest run] ok same by (simp add: thread_ok_def same_debts_def)
qed

lemma ok_replace:
  "thread_ok acc (f # fs) w \<Longrightarrow> same_debts f g \<Longrightarrow> fr_roots g = fr_roots f \<Longrightarrow> thread_ok acc (g # fs) w"
  using balanced_debts [OF _ kept_refl] by (auto simp: thread_ok_def at_rest_def same_debts_def)

lemma ok_return:
  assumes cb: "callbacks_balanced env" and ok: "thread_ok acc fs w"
    and run: "dartplant_arm64_dispatch_return_from_payload env p site fs w = Some (rr, fs', w')"
  shows "thread_ok acc fs' w' \<and> (fs = f # fs' \<longrightarrow> dw_calls w' = dw_calls w \<or>
    dw_calls w' = leave_log (ac_options acc) (fr_entered f) @ dw_calls w)"
proof (cases "\<exists>f. CurrentFrame env fs = Some f \<and> returns_from p site f")
  case False
  then have "fs' = fs" "w' = w"
    using run by (auto simp: dartplant_arm64_dispatch_return_from_payload_def split: option.splits if_splits)
  then show ?thesis using ok by simp
next
  case True
  then obtain g rest where c: "CurrentFrame env fs = Some g" "returns_from p site g" and fs: "fs = g # rest"
    using current_frame by blast
  let ?g = "CaptureReturnChannels (rs_result0 site) (rs_result1 site) (rs_fp_bits site) g"
  have s: "same_debts g ?g" "fr_roots ?g = fr_roots g" "same_debts g (?g\<lparr>fr_native_frame := 0\<rparr>)"
    "fr_roots (?g\<lparr>fr_native_frame := 0\<rparr>) = fr_roots g"
    by (simp_all add: CaptureReturnChannels_def same_debts_def)
  show ?thesis
  proof (cases "fr_native_frame ?g \<noteq> 0")
    case True
    then have "fs' = ?g\<lparr>fr_native_frame := 0\<rparr> # rest" "w' = w"
      using run c fs by (auto simp: dartplant_arm64_dispatch_return_from_payload_def Let_def)
    then show ?thesis using ok_replace [OF _ s(3,4)] ok fs by auto
  next
    case False
    then obtain h where f: "FinishFrame env (rs_result0 site) (rs_result1 site) (rs_fp_bits site) ?g w = Some (h, w')"
      and "fs' = rest"
      using run c fs by (auto simp: dartplant_arm64_dispatch_return_from_payload_def Let_def)
    then show ?thesis using ok_finish [OF cb _ s(1,2) f] ok fs by auto
  qed
qed

lemma ok_leave:
  assumes cb: "callbacks_balanced env" and ok: "thread_ok acc fs w"
    and run: "dartplant_arm64_dispatch_leave_from_tls env r0 r1 fp fs w = Some (lr, fs', w')"
  shows "thread_ok acc fs' w' \<and> (fs = f # fs' \<longrightarrow> dw_calls w' = dw_calls w \<or>
    dw_calls w' = leave_log (ac_options acc) (fr_entered f) @ dw_calls w)"
proof (cases "CurrentFrame env fs")
  case None
  then show ?thesis using run ok by (simp add: dartplant_arm64_dispatch_leave_from_tls_def)
next
  case (Some g)
  then obtain rest where fs: "fs = g # rest" using current_frame by blast
  obtain h where f: "FinishFrame env r0 r1 fp g w = Some (h, w')" and "fs' = rest"
    using run Some fs by (auto simp: dartplant_arm64_dispatch_leave_from_tls_def)
  then show ?thesis using ok_finish [OF cb _ same_debts_refl refl f] ok fs by auto
qed

definition roomy :: "account \<Rightarrow> bool" where
  "roomy acc \<longleftrightarrow> (\<forall>i. ac_hook acc i + kMaxInvocationDepth < 2 ^ 64 - 1)"

lemma calls_of_le: "calls_of fs i \<le> length fs"
  by (induction fs) (auto simp: calls_of_def)

lemma room_left:
  assumes ok: "thread_ok acc fs w" and room: "roomy acc"
  shows "hk_in_flight (hr_hook (dw_registry w) i) \<noteq> UINT64_MAX"
proof
  assume max: "hk_in_flight (hr_hook (dw_registry w) i) = UINT64_MAX"
  have "unat (hk_in_flight (hr_hook (dw_registry w) i)) = ac_hook acc i + calls_of fs i"
    using ok by (simp add: thread_ok_def balanced_def)
  moreover have "calls_of fs i \<le> kMaxInvocationDepth"
    using calls_of_le [of fs i] ok by (simp add: thread_ok_def)
  moreover have "unat UINT64_MAX = 2 ^ 64 - 1" by (simp add: UINT64_MAX_def)
  ultimately show False using room [unfolded roomy_def, rule_format, of i] max by simp
qed

lemma ok_enter:
  assumes cb: "callbacks_balanced env" and ok: "thread_ok acc fs w" and room: "roomy acc"
    and run: "dartplant_arm64_dispatch_enter env cx hook fs w = Some (r, fs', w')"
  shows "thread_ok acc fs' w' \<and> entry_outcome acc fs fs' w w'"
proof -
  have out: "entry_outcome acc fs fs' w w'"
    by (rule enter_outcome_all [OF cb _ room_left [OF ok room] run]) (use ok in \<open>simp add: thread_ok_def\<close>)
  have "fs' = fs \<or> length fs < kMaxInvocationDepth" using full_stack [OF run] by linarith
  then show ?thesis using out ok by (auto simp: entry_outcome_def thread_ok_def)
qed

lemma ok_step:
  assumes cb: "callbacks_balanced env" and room: "roomy acc"
    and step: "dispatch_step env (fs, w) (fs', w')" and ok: "thread_ok acc fs w"
  shows "thread_ok acc fs' w'"
  using step
proof cases
  case (enter cx hook r)
  then show ?thesis using ok_enter [OF cb ok room] by blast
next
  case (prepare sp k)
  show ?thesis
  proof (cases "CurrentFrame env fs")
    case None
    then show ?thesis using prepare ok by (simp add: dartplant_arm64_prepare_invoke_original_frame_def)
  next
    case (Some f)
    then obtain rest where fs: "fs = f # rest" using current_frame by blast
    then have "fs' = fs \<or> fs' = f\<lparr>fr_native_frame := sp\<rparr> # rest"
      using prepare Some by (auto simp: dartplant_arm64_prepare_invoke_original_frame_def split: if_splits)
    then show ?thesis using ok ok_replace [of acc f rest w] fs prepare by (auto simp: same_debts_def)
  qed
next
  case (return_payload p site rr)
  then show ?thesis using ok_return [OF cb ok] by blast
next
  case (return_hook hook site rr)
  then show ?thesis using ok_return [OF cb ok] by (auto simp: dartplant_arm64_dispatch_return_from_hook_def Let_def)
next
  case (leave r0 r1 fp lr)
  then show ?thesis using ok_leave [OF cb ok] by blast
next
  case (unwind sp fp)
  then show ?thesis using unwind_result [of "thread_ok acc" env fs w sp fp] unwind_frame_ok [OF cb] ok by auto
next
  case elsewhere
  then show ?thesis using ok balanced_kept by (auto simp: thread_ok_def)
qed

lemma ok_start: "thread_ok (opening_account w) [] w"
  by (simp add: thread_ok_def balanced_opening)

lemma ok_reachable:
  assumes cb: "callbacks_balanced env" and room: "room_for_calls w0"
    and reach: "(dispatch_step env)\<^sup>*\<^sup>* ([], w0) (fs, w)"
  shows "thread_ok (opening_account w0) fs w"
  using reach
proof (induction rule: rtranclp_induct2)
  case refl
  show ?case by (rule ok_start)
next
  case (step fs w fs' w')
  have "roomy (opening_account w0)" using room by (simp add: roomy_def room_for_calls_def opening_account_def)
  then show ?case using ok_step [OF cb _ step(2) step(3)] by blast
qed

section \<open>The properties of a thread\<close>

definition owed_by :: "(dispatch_frame \<Rightarrow> nat \<Rightarrow> bool) \<Rightarrow> dispatch_frame list \<Rightarrow> nat \<Rightarrow> nat" where
  "owed_by P fs a = length (filter (\<lambda>f. P f a) fs)"

lemma sum_of_bool: "(\<Sum>f\<leftarrow>fs. of_bool (P f a)) = (of_nat (owed_by P fs a) :: 'a :: semiring_1)"
  by (induction fs) (simp_all add: owed_by_def)

lemma calls_owed: "calls_of fs i = owed_by (\<lambda>f i. fr_hook f = Some i) fs i"
  by (induction fs) (simp_all add: calls_of_def owed_by_def)

text \<open>C2: Whatever a thread does - calls that enter, callbacks that throw or skip the original, bridges
  that cannot be set up, nested originals, returns, exceptions - the books balance in every
  reachable state: a hook counts exactly the frames that hold it (above what the process had
  open before), a listener exactly its entries in them, and an adapter has exactly the scopes
  and root leases its frames owe. No frame holds a transition: between two steps the thread is in
  generated state. So when the stack is empty again everything has been given back.\<close>

theorem books_balance:
  assumes "callbacks_balanced env" and "room_for_calls w0"
    and "(dispatch_step env)\<^sup>*\<^sup>* ([], w0) (fs, w)"
  shows "unat (hk_in_flight (hr_hook (dw_registry w) i)) =
      unat (hk_in_flight (hr_hook (dw_registry w0) i)) + owed_by (\<lambda>f i. fr_hook f = Some i) fs i \<and>
    lr_in_flight (hr_listener (dw_registry w) l) =
      lr_in_flight (hr_listener (dw_registry w0) l) + (\<Sum>f\<leftarrow>fs. of_nat (count_list (fr_entered f) l)) \<and>
    va_entered (hr_adapter (dw_registry w) a) =
      va_entered (hr_adapter (dw_registry w0) a) + of_nat (owed_by owes_scope fs a) \<and>
    va_root_leases (hr_adapter (dw_registry w) a) =
      va_root_leases (hr_adapter (dw_registry w0) a) + of_nat (owed_by owes_lease fs a) \<and>
    va_transitions (hr_adapter (dw_registry w) a) = va_transitions (hr_adapter (dw_registry w0) a)"
proof -
  have ok: "thread_ok (opening_account w0) fs w" using ok_reachable assms by blast
  have none: "owed_by owes_transition fs a = 0"
    using ok by (simp add: thread_ok_def owed_by_def owes_transition_def at_rest_def filter_empty_conv)
  have b: "balanced (opening_account w0) fs w" using ok by (simp add: thread_ok_def)
  show ?thesis
    using b none
    by (simp add: balanced_def opening_account_def calls_owed entries_of_def sum_of_bool adapter_of_world_def)
qed

text \<open>The stack never holds more frames than it has slots for; a call beyond them goes to the
  original without a frame.\<close>

theorem stack_bounded:
  assumes "callbacks_balanced env" and "room_for_calls w0"
    and "(dispatch_step env)\<^sup>*\<^sup>* ([], w0) (fs, w)"
  shows "length fs \<le> kMaxInvocationDepth"
  using ok_reachable [OF assms] by (simp add: thread_ok_def)

text \<open>How a call ends: its return stub or its continuation pops the frame.\<close>

definition call_ends :: "dispatch_env \<Rightarrow> dispatch_frame list \<Rightarrow> dispatch_world \<Rightarrow> dispatch_frame list \<Rightarrow>
    dispatch_world \<Rightarrow> bool" where
  "call_ends env fs w fs' w' \<longleftrightarrow>
     (\<exists>p site rr. dartplant_arm64_dispatch_return_from_payload env p site fs w = Some (rr, fs', w')) \<or>
     (\<exists>r0 r1 fp lr. dartplant_arm64_dispatch_leave_from_tls env r0 r1 fp fs w = Some (lr, fs', w'))"


section \<open>A thread with one call\<close>

text \<open>A hook with two listeners whose callbacks do nothing, on an attached adapter.\<close>

definition light_listener :: listener_record where
  "light_listener = (new_listener (ir_listener sample_request) (new_hook None))
     \<lparr>lr_generation := None, lr_adapter := Some 0, lr_layout := None, lr_method := None,
      lr_options := (lr_options (new_listener (ir_listener sample_request) (new_hook None)))\<lparr>ho_on_enter := True, ho_on_leave := True\<rparr>\<rparr>"
definition light_registry :: registry where
  "light_registry = sample_empty\<lparr>hr_hooks := [0], hr_next_hook := 1, hr_next_listener := 2,
     hr_listener := (\<lambda>_. light_listener), hr_adapter := (\<lambda>_. sample_adapter\<lparr>va_attached := True\<rparr>),
     hr_hook := (\<lambda>_. (new_hook None)\<lparr>hk_has_method := True, hk_state := RInstalled, hk_active := True,
       hk_backup := 0x7000, hk_listeners := [0, 1]\<rparr>)\<rparr>"

definition light_entry :: enter_outcome where
  "light_entry = dartplant_arm64_dispatch_enter call_env (Some context_0) (Some 0) [] (call_world light_registry)"

definition light_exit :: "dispatch_frame list \<Rightarrow> dispatch_world \<Rightarrow> (leave_result \<times> dispatch_frame list \<times> dispatch_world) option" where
  "light_exit fs w = dartplant_arm64_dispatch_leave_from_tls call_env 0 0 0 fs w"

lemma light_entry_shape:
  "map_option (\<lambda>(r, fs, w). (er_original r, map fr_entered fs, map fr_hook fs, map (\<lambda>f. owes_scope f 0) fs, dw_calls w)) light_entry =
    Some (0x7000, [[0, 1]], [Some 0], [True], [(OnEnter, 1), (OnEnter, 0)])"
  by code_simp

lemma light_exit_shape:
  "Option.bind light_entry (\<lambda>(r, fs, w). map_option (\<lambda>(lr, fs, w). (map fr_entered fs, dw_calls w)) (light_exit fs w)) =
    Some ([], [(OnLeave, 0), (OnLeave, 1), (OnEnter, 1), (OnEnter, 0)])"
  by code_simp

lemma light_call:
  obtains r f w lr w' where
    "dartplant_arm64_dispatch_enter call_env (Some context_0) (Some 0) [] (call_world light_registry) = Some (r, [f], w)"
    "fr_entered f = [0, 1]" "fr_hook f = Some 0" "owes_scope f 0"
    "dartplant_arm64_dispatch_leave_from_tls call_env 0 0 0 [f] w = Some (lr, [], w')"
    "dw_calls w = [(OnEnter, 1), (OnEnter, 0)]"
    "dw_calls w' = [(OnLeave, 0), (OnLeave, 1), (OnEnter, 1), (OnEnter, 0)]"
proof -
  obtain r f w where e: "light_entry = Some (r, [f], w)" "fr_entered f = [0, 1]" "fr_hook f = Some 0" "owes_scope f 0" "dw_calls w = [(OnEnter, 1), (OnEnter, 0)]"
    using light_entry_shape by (auto simp: map_eq_Cons_conv)
  obtain lr w' where "light_exit [f] w = Some (lr, [], w')" "dw_calls w' = [(OnLeave, 0), (OnLeave, 1), (OnEnter, 1), (OnEnter, 0)]"
    using light_exit_shape [unfolded e(1)] by (auto simp: map_option_case split: option.splits prod.splits)
  then show ?thesis using that e by (simp add: light_entry_def light_exit_def)
qed

lemma light_callbacks: "callbacks_balanced call_env"
  by (simp add: callbacks_balanced_def call_env_def kept_refl)

lemma light_room: "room_for_calls (call_world light_registry)"
  by (simp add: room_for_calls_def call_world_def light_registry_def new_hook_def kMaxInvocationDepth_def)

lemma light_options: "options_of (call_world light_registry) l = lr_options light_listener"
  by (simp add: options_of_def call_world_def light_registry_def)

lemma light_reach:
  "dartplant_arm64_dispatch_enter call_env (Some context_0) (Some 0) [] (call_world light_registry) = Some (r, fs, w) \<Longrightarrow>
   (dispatch_step call_env)\<^sup>*\<^sup>* ([], call_world light_registry) (fs, w)"
  by (rule r_into_rtranclp) (rule dispatch_step.enter)

theorem stack_bounded_witness:
  "\<exists>f w. (dispatch_step call_env)\<^sup>*\<^sup>* ([], call_world light_registry) ([f], w) \<and> length [f] \<le> kMaxInvocationDepth"
proof -
  obtain r f w where "dartplant_arm64_dispatch_enter call_env (Some context_0) (Some 0) [] (call_world light_registry) = Some (r, [f], w)"
    by (rule light_call)
  note reach = light_reach [OF this]
  then show ?thesis using stack_bounded [OF light_callbacks light_room reach] by blast
qed

text \<open>One call in flight: its hook counts it, both listeners count it, and its scope is open.\<close>

theorem books_balance_witness:
  "\<exists>f w. (dispatch_step call_env)\<^sup>*\<^sup>* ([], call_world light_registry) ([f], w) \<and>
     hk_in_flight (hr_hook (dw_registry w) 0) = 1 \<and> lr_in_flight (hr_listener (dw_registry w) 1) = 1 \<and>
     va_entered (hr_adapter (dw_registry w) 0) = 1"
proof -
  obtain r f w where e: "dartplant_arm64_dispatch_enter call_env (Some context_0) (Some 0) [] (call_world light_registry) = Some (r, [f], w)"
    and f: "fr_entered f = [0, 1]" "fr_hook f = Some 0" "owes_scope f 0"
    by (rule light_call)
  note reach = light_reach [OF e]
  have start: "hk_in_flight (hr_hook (dw_registry (call_world light_registry)) 0) = 0"
    "lr_in_flight (hr_listener (dw_registry (call_world light_registry)) 1) = 0"
    "va_entered (hr_adapter (dw_registry (call_world light_registry)) 0) = 0"
    by (simp_all add: call_world_def light_registry_def light_listener_def new_hook_def new_listener_def sample_adapter_def)
  have "unat (hk_in_flight (hr_hook (dw_registry w) 0)) = 1"
    "lr_in_flight (hr_listener (dw_registry w) 1) = 1" "va_entered (hr_adapter (dw_registry w) 0) = 1"
    using books_balance [OF light_callbacks light_room reach, of 0 1 0] f start by (simp_all add: owed_by_def)
  moreover have "x = 1" if "unat x = 1" for x :: "64 word" using that by (simp add: word_unat_eq_iff)
  ultimately show ?thesis using reach by blast
qed


text \<open>Two frames; the exception passes the inner one.\<close>

definition passed_frame :: dispatch_frame where
  "passed_frame = frame_0\<lparr>fr_entry_spreg := 0x1000, fr_entry_caller_fp := 0x1010\<rparr>"

definition outer_frame :: dispatch_frame where
  "outer_frame = frame_0\<lparr>fr_entry_spreg := 0x3000, fr_entry_caller_fp := 0x3010\<rparr>"

lemma unwind_sample:
  "map_option (map_option (\<lambda>(fs, w). length fs))
     (dartplant_arm64_dispatch_exception_unwind call_env 0x2000 0x2010 [passed_frame, outer_frame] (call_world light_registry)) =
   Some (Some 1)"
  by code_simp

theorem unwind_exact_witness:
  "\<exists>w. dartplant_arm64_dispatch_exception_unwind call_env 0x2000 0x2010 [passed_frame, outer_frame] (call_world light_registry) =
     Some (Some ([outer_frame], w))"
proof -
  obtain fs w where run: "dartplant_arm64_dispatch_exception_unwind call_env 0x2000 0x2010 [passed_frame, outer_frame] (call_world light_registry) =
     Some (Some (fs, w))"
    using unwind_sample by (auto split: option.splits)
  have ordered: "stack_ordered [passed_frame, outer_frame]"
    by (simp add: stack_ordered_def passed_frame_def outer_frame_def)
  have there: "ev_stack call_env" by (simp add: call_env_def)
  have "unwound 0x2000 0x2010 passed_frame" "\<not> unwound 0x2000 0x2010 outer_frame"
    by (simp_all add: unwound_def passed_frame_def outer_frame_def)
  then have "fs = [outer_frame]" using unwind_exact [OF ordered there run] by simp
  then show ?thesis using run by simp
qed

end
