(* ===== verification/Moving_Roots.thy ===== *)
theory Moving_Roots
  imports Callback_Dispatch Closure_Arguments_Props Hook_Props
begin

text \<open>
  The collector and the registers of a call: what a callback sees of an object that moves when
  the thread goes native, and what the registers hold when the thread is generated again.
\<close>

section \<open>Writing roots to registers\<close>

text \<open>The binding puts its root into register \<open>r\<close>.\<close>

definition fills :: "bool \<Rightarrow> nat \<Rightarrow> root_binding \<Rightarrow> bool" where
  "fills include_result r b \<longleftrightarrow> RootRoleActive b include_result \<and> RootHasPhysicalLocation b \<and>
     loc_kind (rb_location b) = LocGpRegister \<and> unat (loc_register_index (rb_location b)) = r"

text \<open>The roots that fill a register, in the order in which they are written: the last one stays.\<close>

definition fillers :: "bool \<Rightarrow> nat \<Rightarrow> root_binding list \<Rightarrow> nat list" where
  "fillers include_result r bs = filter (\<lambda>j. fills include_result r (bs ! j)) [0..<length bs]"

definition filled :: "bool \<Rightarrow> root_binding list \<Rightarrow> u64 list \<Rightarrow> (nat \<Rightarrow> u64) \<Rightarrow> nat \<Rightarrow> u64" where
  "filled include_result bs vs x r =
     (case fillers include_result r bs of [] \<Rightarrow> x r | j # js \<Rightarrow> vs ! last (j # js))"

lemma context_twice: "g = f1\<lparr>fr_context := a\<rparr> \<Longrightarrow> f1 = f\<lparr>fr_context := b\<rparr> \<Longrightarrow> g = f\<lparr>fr_context := fr_context g\<rparr>"
  by simp

lemma write_location:
  assumes "WriteGeneratedRootLocation loc v mem f = Some (mem', g)"
  shows "g = f\<lparr>fr_context := fr_context g\<rparr>"
    "cx_x (fr_context g) r =
       (if loc_kind loc = LocGpRegister \<and> unat (loc_register_index loc) = r then v else cx_x (fr_context f) r)"
  using assms
  by (auto simp: WriteGeneratedRootLocation_def set_register_def split: location_kind.splits if_splits)

lemma restore_register:
  "restore_roots incl bs f w = Some (g, w') \<Longrightarrow>
   g = f\<lparr>fr_context := fr_context g\<rparr> \<and> dw_roots w' = dw_roots w \<and>
   cx_x (fr_context g) r =
     (case filter (\<lambda>(b, v). fills incl r b) bs of [] \<Rightarrow> cx_x (fr_context f) r
      | p # ps \<Rightarrow> snd (last (p # ps)))"
proof (induction bs arbitrary: f w)
  case (Cons p bs)
  obtain b v where p: "p = (b, v)" by fastforce
  show ?case
  proof (cases "\<not> RootRoleActive b incl \<or> \<not> RootHasPhysicalLocation b")
    case True
    then have "\<not> fills incl r b" by (auto simp: fills_def)
    then show ?thesis using Cons True by (simp add: p)
  next
    case False
    then obtain mem f1 where wr: "WriteGeneratedRootLocation (rb_location b) v (dw_memory w) f = Some (mem, f1)"
      and rest: "restore_roots incl bs f1 (w\<lparr>dw_memory := mem\<rparr>) = Some (g, w')"
      using Cons.prems by (auto simp: p bind_eq_Some_conv)
    have "g = f\<lparr>fr_context := fr_context g\<rparr>"
      using Cons.IH [OF rest] write_location(1) [OF wr] by (metis context_twice)
    then show ?thesis
      using Cons.IH [OF rest] write_location(2) [OF wr, of r] False by (auto simp: p fills_def split: list.splits)
  qed
qed simp

lemma restore_context_register:
  assumes run: "restore_context incl f w = Some (g, w')" and len: "length (fr_root_values f) = length (fr_roots f)"
  shows "g = f\<lparr>fr_context := fr_context g\<rparr>" "dw_roots w' = dw_roots w"
    "cx_x (fr_context g) = filled incl (fr_roots f) (fr_root_values f) (cx_x (fr_context f))"
proof -
  let ?bs = "fr_roots f" and ?vs = "fr_root_values f"
  have z: "zip ?bs ?vs = map (\<lambda>j. (?bs ! j, ?vs ! j)) [0..<length ?bs]"
    using len by (intro nth_equalityI) simp_all
  note r = restore_register [OF run [unfolded restore_context_def]]
  show "g = f\<lparr>fr_context := fr_context g\<rparr>" "dw_roots w' = dw_roots w" using r by blast+
  show "cx_x (fr_context g) = filled incl ?bs ?vs (cx_x (fr_context f))"
  proof
    fix x
    show "cx_x (fr_context g) x = filled incl ?bs ?vs (cx_x (fr_context f)) x"
      using r [of x] by (auto simp: z filter_map o_def filled_def fillers_def last_map split: list.splits)
  qed
qed

section \<open>The way into a callback\<close>

lemma adapter_op_roots: "adapter_op oper f w = (st, w') \<Longrightarrow> dw_roots w' = dw_roots w"
  by (auto simp: adapter_op_def tick_def set_registry_def split: option.splits prod.splits)

lemma root_get_value: "root_get env f w i = Some v \<Longrightarrow> v = dw_roots w (fr_lease f) ! i"
  by (auto simp: root_get_def root_read_def Let_def split: sum.splits option.splits if_splits)

lemma sync_root_cases:
  assumes "sync_root env incl False i f w = (True, g, w')"
  shows "fr_roots g = fr_roots f \<and> fr_lease g = fr_lease f \<and> fr_adapter g = fr_adapter f \<and>
    dw_roots w' = dw_roots w \<and>
    cx_x (fr_context g) r =
      (if fills incl r (fr_roots f ! i) then dw_roots w (fr_lease f) ! i else cx_x (fr_context f) r)"
proof (cases "\<not> RootRoleActive (fr_roots f ! i) incl \<or> \<not> RootHasPhysicalLocation (fr_roots f ! i)")
  case True
  then show ?thesis using assms by (auto simp: sync_root_def Let_def fills_def)
next
  case False
  then obtain v mem f1 where get: "root_get env f w i = Some v"
    and wr: "WriteGeneratedRootLocation (rb_location (fr_roots f ! i)) v (dw_memory w) f = Some (mem, f1)"
    and g: "g = f1\<lparr>fr_root_values := (fr_root_values f1)[i := v]\<rparr>" "w' = tick (w\<lparr>dw_memory := mem\<rparr>)"
    using assms by (auto simp: sync_root_def Let_def split: option.splits)
  have "fr_roots f1 = fr_roots f" "fr_lease f1 = fr_lease f" "fr_adapter f1 = fr_adapter f"
    by (subst write_location(1) [OF wr], simp)+
  then show ?thesis
    using write_location(2) [OF wr, of r] False root_get_value [OF get] by (auto simp: g tick_def fills_def)
qed

lemma sync_roots_register:
  "sync_roots env incl False is f w = (True, g, w') \<Longrightarrow>
   fr_roots g = fr_roots f \<and> fr_lease g = fr_lease f \<and> fr_adapter g = fr_adapter f \<and> dw_roots w' = dw_roots w \<and>
   cx_x (fr_context g) r =
     (case filter (\<lambda>j. fills incl r (fr_roots f ! j)) is of [] \<Rightarrow> cx_x (fr_context f) r
      | j # js \<Rightarrow> dw_roots w (fr_lease f) ! last (j # js))"
proof (induction "is" arbitrary: f w)
  case (Cons i "is")
  obtain f1 w1 where one: "sync_root env incl False i f w = (True, f1, w1)"
    and rest: "sync_roots env incl False is f1 w1 = (True, g, w')"
    using Cons.prems by (auto split: prod.splits bool.splits)
  show ?case using sync_root_cases [OF one, of r] Cons.IH [OF rest] by (auto split: list.splits)
qed simp

lemma sync_register:
  assumes "SyncGeneratedRootsToContext env incl False f w = (True, g, w')"
  shows "fr_roots g = fr_roots f" "fr_lease g = fr_lease f" "fr_adapter g = fr_adapter f" "dw_roots w' = dw_roots w"
    "cx_x (fr_context g) = filled incl (fr_roots f) (dw_roots w (fr_lease f)) (cx_x (fr_context f))"
proof -
  note r = sync_roots_register [of env incl "[0..<length (fr_roots f)]" f w g w']
  have run: "sync_roots env incl False [0..<length (fr_roots f)] f w = (True, g, w')"
    using assms by (simp add: SyncGeneratedRootsToContext_def split: if_splits)
  show "fr_roots g = fr_roots f" "fr_lease g = fr_lease f" "fr_adapter g = fr_adapter f" "dw_roots w' = dw_roots w"
    using r [OF run] by blast+
  show "cx_x (fr_context g) = filled incl (fr_roots f) (dw_roots w (fr_lease f)) (cx_x (fr_context f))"
    using r [OF run] by (simp add: fun_eq_iff filled_def fillers_def)
qed

lemma pin_shape:
  assumes "PinGeneratedRoots env incl reuse f w = (True, g, w')"
  shows "fr_context g = fr_context f" "fr_roots g = fr_roots f"
    "root_values (dw_memory w) f incl reuse = Some (dw_roots w' (fr_lease g))"
  using assms
  by (auto simp: PinGeneratedRoots_def pin_values_def Let_def split: if_splits option.splits prod.splits)

lemma enter_shape:
  assumes run: "EnterGeneratedVmBridge env incl False f w = Some (True, g, w')"
  shows "\<exists>f1 w1 c vs. SyncGeneratedRootsToContext env incl False f1 w1 = (True, g, w') \<and>
    fr_context f1 = fr_context f \<and> fr_roots f1 = fr_roots f \<and> fr_lease f1 = fr_lease f \<and>
    vs = dw_roots w (fr_lease f) \<and> dw_roots w1 (fr_lease f) = ev_gc env c vs"
proof -
  obtain f1 w1 where prep: "PrepareGeneratedExitFrame f w = Some (f1, w1)"
    using run by (auto simp: EnterGeneratedVmBridge_def split: if_splits option.splits)
  obtain st w2 where nat: "to_native env f1 w1 = (st, w2)" by fastforce
  obtain st2 w3 where sc: "enter_scope env f1 (collect env f1 w2) = (st2, w3)" by fastforce
  let ?f = "f1\<lparr>fr_scope_entered := True, fr_bridge_active := True\<rparr>"
  have sync: "SyncGeneratedRootsToContext env incl False ?f w3 = (True, g, w')"
    using run by (auto simp: EnterGeneratedVmBridge_def prep nat sc split: if_splits prod.splits bool.splits)
  have f1: "fr_context f1 = fr_context f" "fr_roots f1 = fr_roots f" "fr_lease f1 = fr_lease f"
    "dw_roots w1 = dw_roots w"
    using prep by (auto simp: PrepareGeneratedExitFrame_def Let_def split: if_splits)
  have "dw_roots w3 = dw_roots (collect env f1 w2)" "dw_roots w2 = dw_roots w1"
    using sc nat by (simp_all add: enter_scope_def to_native_def adapter_op_roots)
  then have "dw_roots w3 (fr_lease f) = ev_gc env (dw_clock w2) (dw_roots w (fr_lease f))"
    by (simp add: collect_def f1)
  then show ?thesis using sync f1 by (intro exI [of _ ?f] exI [of _ w3] exI [of _ "dw_clock w2"]) simp
qed

lemma those_nth:
  "those (map F xs) = Some vs \<Longrightarrow> length vs = length xs \<and> (\<forall>j < length xs. F (xs ! j) = Some (vs ! j))"
proof (induction xs arbitrary: vs)
  case (Cons x xs)
  then obtain v us where "F x = Some v" "those (map F xs) = Some us" "vs = v # us"
    by (auto split: option.splits)
  then show ?case using Cons.IH by (auto simp: nth_Cons split: nat.splits)
qed simp

lemma pinned_values:
  assumes vals: "root_values mem f incl False = Some vs" and len: "length (fr_root_values f) = length (fr_roots f)"
  shows "length vs = length (fr_roots f)"
    "j \<in> set (fillers incl r (fr_roots f)) \<Longrightarrow> vs ! j = cx_x (fr_context f) r \<and> j < length vs"
proof -
  note n = those_nth [OF vals [unfolded root_values_def]]
  show l: "length vs = length (fr_roots f)" using n len by simp
  assume "j \<in> set (fillers incl r (fr_roots f))"
  then have j: "j < length (fr_roots f)" "fills incl r (fr_roots f ! j)" by (auto simp: fillers_def)
  then have "root_value mem f incl False (fr_roots f ! j, fr_root_values f ! j) = Some (vs ! j)"
    using n len by auto
  then show "vs ! j = cx_x (fr_context f) r \<and> j < length vs"
    using j l by (auto simp: root_value_def fills_def RootHasPhysicalLocation_def ReadGeneratedRootLocation_def split: if_splits)
qed

lemma filled_moved:
  assumes "\<And>j. j \<in> set (fillers incl r bs) \<Longrightarrow> vs ! j = x r \<and> j < length vs"
  shows "filled incl bs (map h vs) x r = (if fillers incl r bs = [] then x r else h (x r))"
  using assms last_in_set [of "fillers incl r bs"] by (auto simp: filled_def split: list.splits)

text \<open>C39: A callback sees every object of the call where the collector has put it. When the roots of a call
  have been pinned and the thread has gone native through the bridge, each register that holds
  an object holds the place that object was moved to by the collection on the way, and every
  other register is as it was.\<close>

theorem collector_followed:
  assumes moves: "ev_gc env = (\<lambda>c. map (move c))"
    and len: "length (fr_root_values f) = length (fr_roots f)"
    and pin: "PinGeneratedRoots env False False f w = (True, f1, w1)"
    and enter: "EnterGeneratedVmBridge env False False f1 w1 = Some (True, g, w')"
  shows "\<exists>c. cx_x (fr_context g) = (\<lambda>r. if fillers False r (fr_roots f) = [] then cx_x (fr_context f) r
      else move c (cx_x (fr_context f) r))"
proof -
  note p = pin_shape [OF pin]
  obtain f2 w2 c where s: "SyncGeneratedRootsToContext env False False f2 w2 = (True, g, w')"
    "fr_context f2 = fr_context f1" "fr_roots f2 = fr_roots f1" "fr_lease f2 = fr_lease f1"
    "dw_roots w2 (fr_lease f1) = ev_gc env c (dw_roots w1 (fr_lease f1))"
    using enter_shape [OF enter] by blast
  have "cx_x (fr_context g) = filled False (fr_roots f) (map (move c) (dw_roots w1 (fr_lease f1))) (cx_x (fr_context f))"
    using sync_register(5) [OF s(1)] s p(1,2) by (simp add: moves)
  then show ?thesis
    using filled_moved [OF pinned_values(2) [OF p(3) len]] by (intro exI [of _ c]) (simp add: fun_eq_iff)
qed

section \<open>The way back\<close>

lemma unpin_shape:
  assumes "unpin env f w = Some (g, w')"
  shows "fr_context g = fr_context f" "fr_roots g = fr_roots f" "fr_root_values g = dw_roots w (fr_lease f)"
  using assms by (auto simp: unpin_def adapter_op_roots split: prod.splits if_splits)

lemma unpin_restore:
  assumes "unpin env f w = Some (f1, w1)" and "restore_context incl f1 w1 = Some (g, w')"
    and "length (dw_roots w (fr_lease f)) = length (fr_roots f)"
  shows "cx_x (fr_context g) = filled incl (fr_roots f) (dw_roots w (fr_lease f)) (cx_x (fr_context f))"
  using restore_context_register(3) [OF assms(2)] unpin_shape [OF assms(1)] assms(3) by simp

lemma leave_shape:
  assumes run: "LeaveGeneratedVmBridge env incl repin f w = Some (True, g, w')"
    and len: "length (dw_roots w (fr_lease f)) = length (fr_roots f)"
  shows "cx_x (fr_context g) = filled incl (fr_roots f) (dw_roots w (fr_lease f)) (cx_x (fr_context f))"
proof -
  let ?f = "f\<lparr>fr_scope_entered := False, fr_bridge_active := False\<rparr>"
  obtain st w1 where sc: "leave_scope env f w = (st, w1)" by fastforce
  obtain st2 w2 where gen: "to_generated env ?f w1 = (st2, w2)" by fastforce
  obtain f1 w3 f2 w4 where u: "unpin env ?f w2 = Some (f1, w3)" and r: "restore_context incl f1 w3 = Some (f2, w4)"
    and p: "repin_inputs env repin f2 w4 = Some (True, g, w')"
    using run by (auto simp: LeaveGeneratedVmBridge_def sc gen bind_eq_Some_conv split: if_splits)
  have "dw_roots w2 = dw_roots w" using sc gen by (simp add: leave_scope_def to_generated_def adapter_op_roots)
  then have "cx_x (fr_context f2) = filled incl (fr_roots f) (dw_roots w (fr_lease f)) (cx_x (fr_context f))"
    using unpin_restore [OF u r] len by simp
  moreover have "fr_context g = fr_context f2"
    using p pin_shape(1) by (auto simp: repin_inputs_def split: if_splits prod.splits)
  ultimately show ?thesis by simp
qed

text \<open>C40: When the thread goes back to generated code - after the entering callbacks, after the leaving
  ones, or when roots kept across the original are dropped - each register that holds an object
  gets the current value of its root, the last one bound to it if there are several, and no
  other register changes. So a collection during a callback, or an argument a callback has
  replaced, reaches the registers the original runs with.\<close>

theorem roots_come_back:
  assumes run: "LeaveGeneratedVmBridge env incl repin f w = Some (True, g, w') \<or>
      (fr_lease f \<noteq> 0 \<and> fr_adapter f \<noteq> None \<and>
       DropPersistentGeneratedRoots env incl True f w = Some (True, g, w'))"
    and len: "length (dw_roots w (fr_lease f)) = length (fr_roots f)"
  shows "cx_x (fr_context g) = filled incl (fr_roots f) (dw_roots w (fr_lease f)) (cx_x (fr_context f))"
  using run
proof
  assume "fr_lease f \<noteq> 0 \<and> fr_adapter f \<noteq> None \<and> DropPersistentGeneratedRoots env incl True f w = Some (True, g, w')"
  then obtain f1 w1 where "unpin env f w = Some (f1, w1)" "restore_context incl f1 w1 = Some (g, w')"
    by (auto simp: DropPersistentGeneratedRoots_def bind_eq_Some_conv split: if_splits)
  then show ?thesis by (rule unpin_restore [OF _ _ len])
qed (rule leave_shape [OF _ len])

section \<open>A call whose argument moves\<close>

text \<open>A call with an object in register 4, and a collector that moves every object by \<open>0x100\<close>. The
  callback replaces the argument.\<close>

definition moving_env :: dispatch_env where
  "moving_env = call_env\<lparr>ev_gc := (\<lambda>c. map (\<lambda>v. v + 0x100))\<rparr>"

definition moving_world :: dispatch_world where
  "moving_world = call_world (sample_empty\<lparr>hr_adapter := (\<lambda>_. sample_adapter\<lparr>va_attached := True\<rparr>)\<rparr>)"

definition moving_frame :: dispatch_frame where
  "moving_frame = call_frame\<lparr>fr_adapter := Some 0, fr_transition := transition_of (fr_context call_frame),
     fr_roots := [\<lparr>rb_location = \<lparr>loc_kind = LocGpRegister, loc_register_index = 4, loc_stack_offset = 0\<rparr>,
                   rb_role = RootInput\<rparr>],
     fr_root_values := [0]\<rparr>"

definition moving_pin :: "bool \<times> dispatch_frame \<times> dispatch_world" where
  "moving_pin = PinGeneratedRoots moving_env False False moving_frame moving_world"

definition moving_enter :: bridge_result where
  "moving_enter = (case moving_pin of (_, f, w) \<Rightarrow> EnterGeneratedVmBridge moving_env False False f w)"

definition moving_leave :: bridge_result where
  "moving_leave = Option.bind moving_enter (\<lambda>(_, f, w).
     LeaveGeneratedVmBridge moving_env False False f (snd (root_set moving_env f w 0 0x555)))"

lemma moving_pin_ok: "fst moving_pin" by code_simp

lemma moving_enter_ok:
  "map_option (\<lambda>(ok, f, w). (ok, fr_lease f, map (rb_role) (fr_roots f), fst (root_set moving_env f w 0 0x555),
     dw_roots (snd (root_set moving_env f w 0 0x555)) (fr_lease f))) moving_enter =
   Some (True, 1, [RootInput], True, [0x555])" by code_simp

lemma moving_leave_ok: "map_option fst moving_leave = Some True" by code_simp

lemma moving_entered:
  obtains f1 w1 g w' v where "PinGeneratedRoots moving_env False False moving_frame moving_world = (True, f1, w1)"
    "EnterGeneratedVmBridge moving_env False False f1 w1 = Some (True, g, w')"
    "root_set moving_env g w' 0 0x555 = (True, v)" "dw_roots v (fr_lease g) = [0x555]"
    "fr_roots g = fr_roots moving_frame" "moving_enter = Some (True, g, w')"
proof -
  obtain f1 w1 where p: "moving_pin = (True, f1, w1)" using moving_pin_ok by (metis (full_types) eq_True prod.collapse)
  obtain g w' where e: "moving_enter = Some (True, g, w')" and r: "fst (root_set moving_env g w' 0 0x555)"
    "dw_roots (snd (root_set moving_env g w' 0 0x555)) (fr_lease g) = [0x555]"
    using moving_enter_ok by auto
  obtain v where v: "root_set moving_env g w' 0 0x555 = (True, v)" "dw_roots v (fr_lease g) = [0x555]"
    using r by (cases "root_set moving_env g w' 0 0x555") auto
  have run: "EnterGeneratedVmBridge moving_env False False f1 w1 = Some (True, g, w')"
    using e by (simp add: moving_enter_def p)
  obtain f2 w2 where "SyncGeneratedRootsToContext moving_env False False f2 w2 = (True, g, w')" "fr_roots f2 = fr_roots f1"
    using enter_shape [OF run] by blast
  then have "fr_roots g = fr_roots moving_frame"
    using sync_register(1) pin_shape(2) p by (simp add: moving_pin_def)
  then show ?thesis using that p run v e by (simp add: moving_pin_def)
qed

lemma moving_fillers: "fillers False 4 (fr_roots moving_frame) = [0]" "fillers False 26 (fr_roots moving_frame) = []"
  by code_simp+

lemma moving_registers: "cx_x (fr_context moving_frame) 4 = 0x11" "cx_x (fr_context moving_frame) 26 = 0x80"
  by code_simp+

theorem collector_followed_witness:
  "\<exists>f1 w1 g w'. PinGeneratedRoots moving_env False False moving_frame moving_world = (True, f1, w1) \<and>
     EnterGeneratedVmBridge moving_env False False f1 w1 = Some (True, g, w') \<and>
     cx_x (fr_context g) 4 = 0x111 \<and> cx_x (fr_context g) 26 = 0x80"
proof -
  obtain f1 w1 g w' v where p: "PinGeneratedRoots moving_env False False moving_frame moving_world = (True, f1, w1)"
    and e: "EnterGeneratedVmBridge moving_env False False f1 w1 = Some (True, g, w')"
    by (rule moving_entered)
  have gc: "ev_gc moving_env = (\<lambda>c. map ((\<lambda>_ v. v + 0x100) c))" by (simp add: moving_env_def)
  have len: "length (fr_root_values moving_frame) = length (fr_roots moving_frame)" by (simp add: moving_frame_def)
  have "cx_x (fr_context g) 4 = 0x111" "cx_x (fr_context g) 26 = 0x80"
    using collector_followed [OF gc len p e] by (auto simp: moving_fillers moving_registers)
  then show ?thesis using p e by blast
qed

theorem roots_come_back_witness:
  "\<exists>g w. LeaveGeneratedVmBridge moving_env False False (fst (snd (the moving_enter)))
       (snd (root_set moving_env (fst (snd (the moving_enter))) (snd (snd (the moving_enter))) 0 0x555)) =
     Some (True, g, w) \<and> cx_x (fr_context g) 4 = 0x555"
proof -
  obtain f w v where s: "root_set moving_env f w 0 0x555 = (True, v)" "dw_roots v (fr_lease f) = [0x555]"
    and f: "fr_roots f = fr_roots moving_frame" and e: "moving_enter = Some (True, f, w)"
    by (rule moving_entered)
  then obtain g w' where l: "LeaveGeneratedVmBridge moving_env False False f v = Some (True, g, w')"
    using moving_leave_ok unfolding moving_leave_def e by (auto simp: s)
  have len: "length (dw_roots v (fr_lease f)) = length (fr_roots f)" by (simp add: s f moving_frame_def)
  have "cx_x (fr_context g) 4 = 0x555"
    using roots_come_back [OF disjI1 [OF l] len] by (simp add: filled_def f moving_fillers s)
  then show ?thesis using l by (simp add: e s)
qed

end
